(* ===== verification/Prelude.thy ===== *)
theory Prelude
  imports Main "HOL-Library.Word" "HOL-Library.Char_ord" "HOL-Library.List_Lexorder"
    "HOL-Library.Product_Lexorder" "HOL-Library.Sublist"
begin

text \<open>
  Shared vocabulary of the development: the machine integers of the Rust code, saturating
  64-bit arithmetic, string scanning in the style of Rust's str, and the list-level reading of
  the four SQL statement forms the program uses (UPDATE .. WHERE, DELETE FROM .. WHERE,
  SELECT .. WHERE with at most one row, and EXISTS), with the facts about keyed tables that
  the component theories share.  A string is a list of characters; a character stands for the
  Unicode scalar U+0000 .. U+00FF of the same number, so the length of a string is its number
  of scalars, which is what SQLite's length() counts.
\<close>

named_theorems table_simps \<open>rewriting of table statements\<close>

named_theorems wf_intros \<open>preservation of the database invariant\<close>

type_synonym u64 = "64 word"

type_synonym u32 = "32 word"

type_synonym u16 = "16 word"

section \<open>Saturating 64-bit arithmetic\<close>

abbreviation i64_max :: int where
  "i64_max \<equiv> 9223372036854775807"

abbreviation i64_min :: int where
  "i64_min \<equiv> - 9223372036854775808"

text \<open>An i64 is an int inside this range; the saturating operations of the code clamp to it.\<close>

definition sat_i64 :: "int \<Rightarrow> int" where
  "sat_i64 x = max i64_min (min i64_max x)"

lemma sat_i64_range: "i64_min \<le> sat_i64 x" "sat_i64 x \<le> i64_max"
  by (simp_all add: sat_i64_def)

lemma sat_i64_id: "i64_min \<le> x \<Longrightarrow> x \<le> i64_max \<Longrightarrow> sat_i64 x = x"
  by (simp add: sat_i64_def)

lemma sat_i64_mono: "x \<le> y \<Longrightarrow> sat_i64 x \<le> sat_i64 y"
  by (simp add: sat_i64_def)

lemma sat_i64_nonneg: "0 \<le> x \<Longrightarrow> 0 \<le> sat_i64 x"
  by (simp add: sat_i64_def)

text \<open>i64::try_from(u64).unwrap_or(i64::MAX), the result read back as the same 64 bits.\<close>

definition clamp_size :: "u64 \<Rightarrow> u64" where
  "clamp_size w = (if w \<le> 0x7FFFFFFFFFFFFFFF then w else 0x7FFFFFFFFFFFFFFF)"

lemma clamp_size_le: "clamp_size w \<le> w"
  by (simp add: clamp_size_def linorder_not_le less_imp_le)

lemma clamp_size_idem [simp]: "clamp_size (clamp_size w) = clamp_size w"
  by (simp add: clamp_size_def)

section \<open>String scanning\<close>

text \<open>char::is_whitespace on U+0000 .. U+00FF.\<close>

definition is_white :: "char \<Rightarrow> bool" where
  "is_white c = (of_char c \<in> {9, 10, 11, 12, 13, 32, 133, 160 :: nat})"

definition is_ascii_digit :: "char \<Rightarrow> bool" where
  "is_ascii_digit c = (48 \<le> (of_char c :: nat) \<and> (of_char c :: nat) \<le> 57)"

definition trim_matches :: "('a \<Rightarrow> bool) \<Rightarrow> 'a list \<Rightarrow> 'a list" where
  "trim_matches P s = rev (dropWhile P (rev (dropWhile P s)))"

definition rfind :: "'a \<Rightarrow> 'a list \<Rightarrow> nat option" where
  "rfind c s = (case dropWhile (\<lambda>x. x \<noteq> c) (rev s) of [] \<Rightarrow> None | _ # rest \<Rightarrow> Some (length rest))"

definition strip_prefix :: "'a list \<Rightarrow> 'a list \<Rightarrow> 'a list option" where
  "strip_prefix p s = (if take (length p) s = p then Some (drop (length p) s) else None)"

fun split_on :: "'a \<Rightarrow> 'a list \<Rightarrow> 'a list list" where
  "split_on c [] = [[]]"
| "split_on c (x # xs) =
     (if x = c then [] # split_on c xs
      else case split_on c xs of [] \<Rightarrow> [[x]] | w # ws \<Rightarrow> (x # w) # ws)"

lemma split_on_append:
  "c \<notin> set x \<Longrightarrow> split_on c (x @ c # y) = x # split_on c y"
  by (induction x) auto

lemma split_on_none: "c \<notin> set x \<Longrightarrow> split_on c x = [x]"
  by (induction x) auto

lemma length_trim_matches: "length (trim_matches P s) \<le> length s"
  using length_dropWhile_le[of P s] length_dropWhile_le[of P "rev (dropWhile P s)"]
  by (simp add: trim_matches_def)

lemma trim_matches_id:
  "s = [] \<or> (\<not> P (hd s) \<and> \<not> P (last s)) \<Longrightarrow> trim_matches P s = s"
proof (cases "s = []")
  case False
  moreover assume "s = [] \<or> (\<not> P (hd s) \<and> \<not> P (last s))"
  ultimately have "dropWhile P s = s" "dropWhile P (rev s) = rev s"
    by (simp_all add: dropWhile_eq_self_iff hd_rev)
  then show ?thesis by (simp add: trim_matches_def)
qed (simp add: trim_matches_def)

lemma dropWhile_hd_False: "dropWhile P s \<noteq> [] \<Longrightarrow> \<not> P (hd (dropWhile P s))"
  by (rule hd_dropWhile)

lemma trim_matches_last: "trim_matches P s \<noteq> [] \<Longrightarrow> \<not> P (last (trim_matches P s))"
  by (simp add: trim_matches_def last_rev hd_dropWhile)

lemma trim_matches_hd: "trim_matches P s \<noteq> [] \<Longrightarrow> \<not> P (hd (trim_matches P s))"
proof -
  assume ne: "trim_matches P s \<noteq> []"
  let ?d = "dropWhile P s"
  obtain ys where ys: "?d = trim_matches P s @ ys"
    by (metis rev_append rev_rev_ident takeWhile_dropWhile_id trim_matches_def)
  with ne have "hd ?d = hd (trim_matches P s)" and "?d \<noteq> []" by auto
  then show ?thesis using dropWhile_hd_False[of P s] by simp
qed

lemma trim_matches_idem [simp]: "trim_matches P (trim_matches P s) = trim_matches P s"
  using trim_matches_id[of "trim_matches P s" P] trim_matches_hd[of P s] trim_matches_last[of P s]
  by blast

lemma dropWhile_same_length: "length (dropWhile P s) = length s \<Longrightarrow> dropWhile P s = s"
proof (cases s)
  case (Cons a t)
  moreover assume "length (dropWhile P s) = length s"
  ultimately show ?thesis using length_dropWhile_le[of P t] by (cases "P a") auto
qed simp

lemma trim_matches_same_length:
  "length (trim_matches P s) = length s \<Longrightarrow> trim_matches P s = s"
proof -
  assume a: "length (trim_matches P s) = length s"
  then have "length (dropWhile P s) = length s"
    using length_dropWhile_le[of P s] length_dropWhile_le[of P "rev (dropWhile P s)"]
    by (simp add: trim_matches_def)
  then have d: "dropWhile P s = s" by (rule dropWhile_same_length)
  with a have "dropWhile P (rev s) = rev s"
    by (intro dropWhile_same_length) (simp add: trim_matches_def)
  with d show ?thesis by (simp add: trim_matches_def)
qed

lemma trim_matches_shorter:
  assumes "s \<noteq> []" and "P (hd s) \<or> P (last s)"
  shows "length (trim_matches P s) < length s"
proof (rule ccontr)
  assume "\<not> ?thesis"
  then have "length (trim_matches P s) = length s" using length_trim_matches[of P s] by simp
  then have "trim_matches P s = s" by (rule trim_matches_same_length)
  with assms trim_matches_hd[of P s] trim_matches_last[of P s] show False by auto
qed

lemma trim_matches_prefix: "s \<noteq> [] \<Longrightarrow> \<not> P (hd s) \<Longrightarrow> \<exists>ys. s = trim_matches P s @ ys"
proof -
  assume "s \<noteq> []" "\<not> P (hd s)"
  then have d: "dropWhile P s = s" by (simp add: dropWhile_eq_self_iff)
  have "rev (rev s) = rev (takeWhile P (rev s) @ dropWhile P (rev s))" by simp
  then have "s = rev (dropWhile P (rev s)) @ rev (takeWhile P (rev s))"
    by (simp only: rev_append rev_rev_ident)
  then show ?thesis using d by (auto simp: trim_matches_def)
qed

lemma rfind_Some:
  "rfind c s = Some i \<Longrightarrow> s = take i s @ c # drop (Suc i) s \<and> c \<notin> set (drop (Suc i) s)"
proof -
  assume r: "rfind c s = Some i"
  then obtain x rest where d: "dropWhile (\<lambda>x. x \<noteq> c) (rev s) = x # rest" and i: "i = length rest"
    by (auto simp: rfind_def split: list.splits)
  let ?t = "takeWhile (\<lambda>x. x \<noteq> c) (rev s)"
  have x: "x = c" using d hd_dropWhile[of "\<lambda>x. x \<noteq> c" "rev s"] by simp
  have "rev s = ?t @ c # rest" using d x takeWhile_dropWhile_id[of "\<lambda>x. x \<noteq> c" "rev s"] by simp
  then have "rev (rev s) = rev (?t @ c # rest)" by (rule arg_cong)
  then have s: "s = rev rest @ c # rev ?t" by simp
  have "c \<notin> set ?t" by (auto dest: set_takeWhileD)
  moreover have "take i s = rev rest" and "drop (Suc i) s = rev ?t"
    unfolding i by (subst s, simp)+
  ultimately show ?thesis using s by simp
qed

lemma rfind_None: "rfind c s = None \<longleftrightarrow> c \<notin> set s"
proof -
  have "dropWhile (\<lambda>x. x \<noteq> c) (rev s) = [] \<longleftrightarrow> c \<notin> set s"
    by (auto simp: dropWhile_eq_Nil_conv)
  moreover have "rfind c s = None \<longleftrightarrow> dropWhile (\<lambda>x. x \<noteq> c) (rev s) = []"
    by (simp add: rfind_def del: dropWhile_eq_Nil_conv split: list.splits)
  ultimately show ?thesis by (simp del: dropWhile_eq_Nil_conv)
qed

lemma rfind_less: "rfind c s = Some i \<Longrightarrow> i < length s"
  by (drule rfind_Some) (metis append_eq_conv_conj length_append less_add_same_cancel1
      length_greater_0_conv list.distinct(1) not_less take_all append_self_conv nat_le_linear)

lemma strip_prefix_append [simp]: "strip_prefix p (p @ s) = Some s"
  by (simp add: strip_prefix_def)

lemma strip_prefix_SomeD: "strip_prefix p s = Some t \<Longrightarrow> s = p @ t"
  by (auto simp: strip_prefix_def split: if_splits) (metis append_take_drop_id)

section \<open>Table statements\<close>

text \<open>
  A table is the list of its rows.  query_row(..).optional() is the first row of the
  selection; execute returns the number of rows a statement changed.
\<close>

definition sql_update :: "('r \<Rightarrow> bool) \<Rightarrow> ('r \<Rightarrow> 'r) \<Rightarrow> 'r list \<Rightarrow> 'r list" where
  "sql_update p f rows = map (\<lambda>r. if p r then f r else r) rows"

definition sql_delete :: "('r \<Rightarrow> bool) \<Rightarrow> 'r list \<Rightarrow> 'r list" where
  "sql_delete p rows = filter (\<lambda>r. \<not> p r) rows"

definition sql_count :: "('r \<Rightarrow> bool) \<Rightarrow> 'r list \<Rightarrow> nat" where
  "sql_count p rows = length (filter p rows)"

definition sql_exists :: "('r \<Rightarrow> bool) \<Rightarrow> 'r list \<Rightarrow> bool" where
  "sql_exists p rows = list_ex p rows"

definition sql_first :: "('r \<Rightarrow> bool) \<Rightarrow> 'r list \<Rightarrow> 'r option" where
  "sql_first p rows = List.find p rows"

lemma sql_exists_iff [table_simps]: "sql_exists p rows \<longleftrightarrow> (\<exists>r\<in>set rows. p r)"
  by (simp add: sql_exists_def list_ex_iff)

lemma set_sql_delete [table_simps]: "set (sql_delete p rows) = {r \<in> set rows. \<not> p r}"
  by (auto simp: sql_delete_def)

lemma set_sql_update [table_simps]:
  "set (sql_update p f rows) = (\<lambda>r. if p r then f r else r) ` set rows"
  by (simp add: sql_update_def)

lemma sql_exists_update:
  "sql_exists q (sql_update p f rows) = sql_exists (\<lambda>r. q (if p r then f r else r)) rows"
  unfolding sql_exists_def sql_update_def by (induction rows) simp_all

lemma sql_first_SomeD: "sql_first p rows = Some r \<Longrightarrow> r \<in> set rows \<and> p r"
  unfolding sql_first_def by (metis find_Some_iff nth_mem)

lemma sql_first_None_iff: "sql_first p rows = None \<longleftrightarrow> (\<forall>r\<in>set rows. \<not> p r)"
  unfolding sql_first_def find_None_iff by blast

lemma sql_count_0: "sql_count p rows = 0 \<longleftrightarrow> (\<forall>r\<in>set rows. \<not> p r)"
  by (simp add: sql_count_def filter_empty_conv)

lemma map_key_sql_update: "(\<And>r. p r \<Longrightarrow> key (f r) = key r) \<Longrightarrow> map key (sql_update p f rows) = map key rows"
  by (induction rows) (auto simp: sql_update_def)

lemma distinct_map_sql_delete: "distinct (map key rows) \<Longrightarrow> distinct (map key (sql_delete p rows))"
  by (simp add: sql_delete_def distinct_map_filter)

lemma sql_update_none: "(\<And>r. r \<in> set rows \<Longrightarrow> \<not> p r) \<Longrightarrow> sql_update p f rows = rows"
  by (induction rows) (auto simp: sql_update_def)

lemma sql_delete_none: "(\<And>r. r \<in> set rows \<Longrightarrow> \<not> p r) \<Longrightarrow> sql_delete p rows = rows"
  by (induction rows) (auto simp: sql_delete_def)

text \<open>Rows addressed by a unique key: at most one row, found by the key.\<close>

lemma key_unique:
  "distinct (map key rows) \<Longrightarrow> r \<in> set rows \<Longrightarrow> r' \<in> set rows \<Longrightarrow> key r = key r' \<Longrightarrow> r = r'"
  by (auto simp: distinct_map inj_on_def)

lemma sql_first_key:
  "distinct (map key rows) \<Longrightarrow> r \<in> set rows \<Longrightarrow> sql_first (\<lambda>r'. key r' = key r) rows = Some r"
  by (induction rows) (auto simp: sql_first_def)

lemma sql_first_key_iff:
  "distinct (map key rows) \<Longrightarrow>
   sql_first (\<lambda>r. key r = k) rows = Some r \<longleftrightarrow> r \<in> set rows \<and> key r = k"
  by (auto dest: sql_first_SomeD intro: sql_first_key)

lemma sql_count_key:
  "distinct (map key rows) \<Longrightarrow> (\<And>r. p r \<Longrightarrow> key r = k) \<Longrightarrow>
   sql_count p rows = (if \<exists>r\<in>set rows. p r then 1 else 0)"
proof (induction rows)
  case Nil
  then show ?case by (simp add: sql_count_def)
next
  case (Cons a rows)
  show ?case
  proof (cases "p a")
    case True
    then have "\<forall>r\<in>set rows. \<not> p r"
      using Cons.prems by (metis distinct.simps(2) image_eqI list.simps(9) set_map)
    then have "filter p rows = []" by (simp add: filter_empty_conv)
    with True show ?thesis by (simp add: sql_count_def)
  next
    case False
    with Cons show ?thesis by (auto simp: sql_count_def)
  qed
qed

lemma sql_first_update_key:
  "(\<And>r. p r \<Longrightarrow> key (f r) = key r) \<Longrightarrow>
   sql_first (\<lambda>r. key r = k) (sql_update p f rows) =
   map_option (\<lambda>r. if p r then f r else r) (sql_first (\<lambda>r. key r = k) rows)"
  by (induction rows) (auto simp: sql_first_def sql_update_def)

lemma sql_first_delete:
  "(\<And>r. q r \<Longrightarrow> \<not> p r) \<Longrightarrow> sql_first q (sql_delete p rows) = sql_first q rows"
  by (induction rows) (auto simp: sql_first_def sql_delete_def)

lemma sql_first_append:
  "sql_first p (xs @ ys) = (case sql_first p xs of None \<Rightarrow> sql_first p ys | Some r \<Rightarrow> Some r)"
  by (induction xs) (auto simp: sql_first_def)

lemma find_bind_iff: "Option.bind (List.find (\<lambda>q. f q \<noteq> None) xs) f \<noteq> None \<longleftrightarrow> (\<exists>q\<in>set xs. f q \<noteq> None)"
  by (induction xs) auto

text \<open>
  A loop that updates the rows of a snapshot one by one, each addressed by its key, is one
  simultaneous update of the table.
\<close>

lemma foldl_update_keyed:
  assumes "distinct (map key xs)" and "\<And>x r. key (g x r) = key r"
  shows "foldl (\<lambda>rows x. sql_update (\<lambda>r. key r = key x) (g x) rows) rows xs =
    map (\<lambda>r. case sql_first (\<lambda>x. key x = key r) xs of None \<Rightarrow> r | Some x \<Rightarrow> g x r) rows"
  using assms(1)
proof (induction xs arbitrary: rows)
  case Nil
  then show ?case by (simp add: sql_first_def)
next
  case (Cons x xs)
  let ?h = "\<lambda>xs r. case sql_first (\<lambda>x. key x = key r) xs of None \<Rightarrow> r | Some x \<Rightarrow> g x r"
  have none: "sql_first (\<lambda>y. key y = key x) xs = None"
    using Cons.prems by (auto simp: sql_first_None_iff image_iff)
  have step: "?h xs (if key r = key x then g x r else r) = ?h (x # xs) r" for r
  proof (cases "key r = key x")
    case True
    then have "?h xs (g x r) = g x r" using none by (simp add: assms(2))
    with True show ?thesis by (simp add: sql_first_def)
  next
    case False
    then show ?thesis by (simp add: sql_first_def)
  qed
  have "foldl (\<lambda>rows x. sql_update (\<lambda>r. key r = key x) (g x) rows) rows (x # xs) =
      map (?h xs) (sql_update (\<lambda>r. key r = key x) (g x) rows)"
    using Cons.IH Cons.prems by simp
  also have "\<dots> = map (?h (x # xs)) rows"
    unfolding sql_update_def map_map comp_def step ..
  finally show ?case .
qed

lemma foldl_update_snapshot:
  assumes "distinct (map key rows)" "distinct (map key xs)" "set xs = set rows"
    and "\<And>x r. key (g x r) = key r"
  shows "foldl (\<lambda>rows x. sql_update (\<lambda>r. key r = key x) (g x) rows) rows xs = map (\<lambda>r. g r r) rows"
proof -
  have "(case sql_first (\<lambda>x. key x = key r) xs of None \<Rightarrow> r | Some x \<Rightarrow> g x r) = g r r"
    if "r \<in> set rows" for r
    using sql_first_key[OF assms(2), of r] that assms(3) by simp
  then show ?thesis unfolding foldl_update_keyed[of key xs g rows, OF assms(2,4)] by simp
qed

section \<open>Results\<close>

text \<open>The ? operator on a Result: stop at the first error.\<close>

definition and_then :: "'e + 'a \<Rightarrow> ('a \<Rightarrow> 'e + 'b) \<Rightarrow> 'e + 'b" where
  "and_then m k = (case m of Inl e \<Rightarrow> Inl e | Inr a \<Rightarrow> k a)"

lemma and_then_simps [simp]:
  "and_then (Inl e) k = Inl e"
  "and_then (Inr a) k = k a"
  by (simp_all add: and_then_def)

lemma and_then_Inr_iff: "and_then m k = Inr b \<longleftrightarrow> (\<exists>a. m = Inr a \<and> k a = Inr b)"
  by (cases m) auto

fun fold_result :: "('x \<Rightarrow> 's \<Rightarrow> 'e + 's) \<Rightarrow> 'x list \<Rightarrow> 's \<Rightarrow> 'e + 's" where
  "fold_result f [] s = Inr s"
| "fold_result f (x # xs) s = and_then (f x s) (fold_result f xs)"

lemma fold_result_inv:
  assumes "\<And>x s s'. x \<in> set xs \<Longrightarrow> P s \<Longrightarrow> f x s = Inr s' \<Longrightarrow> P s'"
  shows "P s \<Longrightarrow> fold_result f xs s = Inr s' \<Longrightarrow> P s'"
  using assms
proof (induction xs arbitrary: s)
  case Nil
  then show ?case by simp
next
  case (Cons x xs)
  from Cons.prems(2) obtain t where t: "f x s = Inr t" "fold_result f xs t = Inr s'"
    by (auto simp: and_then_Inr_iff)
  have "P t" using Cons.prems(3)[of x s t] Cons.prems(1) t(1) by simp
  with t(2) Cons.prems(3) show ?case by (intro Cons.IH[of t]) auto
qed

end
