(* ===== verification/Paths.thy ===== *)
theory Paths
  imports Prelude
begin

text \<open>
  crates/twodrive-core/src/paths.rs: cloud paths are strings with a leading slash.  The theory
  translates normalize_cloud_path, join_cloud_path, parent_cloud_path and cloud_name,
  characterises the canonical paths (the fixed points of normalize_cloud_path), and proves that
  a canonical path is recovered from its parent and its name.  It also holds the literal prefix
  test that the SQL statements write as substr(path, 1, length(a) + 1) = a || '/', and the
  walk to the root that the pin policy repeats, with its termination.
\<close>

section \<open>Normalisation\<close>

definition root_path :: string where
  "root_path = ''/''"

definition trim :: "string \<Rightarrow> string" where
  "trim s = trim_matches is_white s"

definition trim_slashes :: "string \<Rightarrow> string" where
  "trim_slashes s = trim_matches (\<lambda>c. c = CHR ''/'') s"

definition normalize_cloud_path :: "string \<Rightarrow> string" where
  "normalize_cloud_path path =
     (let trimmed = trim path in
      if trimmed = [] \<or> trimmed = ''/'' then ''/''
      else ''/'' @ trim_slashes trimmed)"

definition join_cloud_path :: "string \<Rightarrow> string \<Rightarrow> string" where
  "join_cloud_path parent name =
     (let parent = normalize_cloud_path parent in
      if parent = ''/'' then normalize_cloud_path name
      else normalize_cloud_path (parent @ ''/'' @ name))"

definition parent_cloud_path :: "string \<Rightarrow> string" where
  "parent_cloud_path path =
     (let path = normalize_cloud_path path in
      if path = ''/'' then ''/''
      else (case rfind (CHR ''/'') path of
              None \<Rightarrow> ''/''
            | Some index \<Rightarrow> if index = 0 then ''/'' else take index path))"

text \<open>path.rsplit('/').next() is what follows the last slash.\<close>

definition after_last_slash :: "string \<Rightarrow> string" where
  "after_last_slash path = rev (takeWhile (\<lambda>c. c \<noteq> CHR ''/'') (rev path))"

definition cloud_name :: "string \<Rightarrow> string" where
  "cloud_name path =
     (let path = normalize_cloud_path path in
      if path = ''/'' then [] else after_last_slash path)"

section \<open>Canonical paths\<close>

definition canonical :: "string \<Rightarrow> bool" where
  "canonical p = (normalize_cloud_path p = p)"

lemma slash_not_white [simp]: "\<not> is_white (CHR ''/'')"
  by (simp add: is_white_def)

lemma normalize_starts_with_slash: "\<exists>q. normalize_cloud_path p = CHR ''/'' # q"
  by (simp add: normalize_cloud_path_def Let_def)

lemma normalize_nonempty [simp]: "normalize_cloud_path p \<noteq> []"
  using normalize_starts_with_slash[of p] by auto

lemma normalize_root [simp]: "normalize_cloud_path ''/'' = ''/''"
  by (simp add: normalize_cloud_path_def trim_def trim_matches_def)

lemma normalize_empty [simp]: "normalize_cloud_path [] = ''/''"
  by (simp add: normalize_cloud_path_def trim_def trim_matches_def)

text \<open>
  The shape of a path that normalisation leaves alone: the root, or a slash and a body that
  neither starts nor ends with a slash and does not end in white space.
\<close>

definition clean_body :: "string \<Rightarrow> bool" where
  "clean_body q = (q \<noteq> [] \<and> hd q \<noteq> CHR ''/'' \<and> last q \<noteq> CHR ''/'' \<and> \<not> is_white (last q))"

lemma trim_slash_body: "clean_body q \<Longrightarrow> trim (CHR ''/'' # q) = CHR ''/'' # q"
  unfolding trim_def clean_body_def by (rule trim_matches_id) auto

lemma trim_slashes_body: "clean_body q \<Longrightarrow> trim_slashes (CHR ''/'' # q) = q"
proof -
  assume q: "clean_body q"
  then have "dropWhile (\<lambda>c. c = CHR ''/'') (CHR ''/'' # q) = q"
    by (auto simp: clean_body_def dropWhile_eq_self_iff)
  then have "trim_slashes (CHR ''/'' # q) = rev (dropWhile (\<lambda>c. c = CHR ''/'') (rev q))"
    by (simp add: trim_slashes_def trim_matches_def)
  moreover have "dropWhile (\<lambda>c. c = CHR ''/'') (rev q) = rev q"
    using q by (simp add: clean_body_def dropWhile_eq_self_iff hd_rev)
  ultimately show ?thesis by simp
qed

text \<open>White space is trimmed before the slashes are: a second pass may trim once more.\<close>

lemma normalize_not_idempotent:
  "normalize_cloud_path (normalize_cloud_path ''a /'') \<noteq> normalize_cloud_path ''a /''"
  by code_simp

text \<open>A joined name loses its trailing white space, and a blank name leads to the folder itself.\<close>

lemma join_trims_names:
  "join_cloud_path ''/D'' ''b '' = join_cloud_path ''/D'' ''b''" "join_cloud_path ''/D'' '' '' = ''/D''"
  by code_simp+

lemma normalize_clean: "clean_body q \<Longrightarrow> normalize_cloud_path (CHR ''/'' # q) = CHR ''/'' # q"
  using trim_slash_body[of q] trim_slashes_body[of q]
  by (auto simp: normalize_cloud_path_def Let_def clean_body_def)

lemma canonical_iff: "canonical p \<longleftrightarrow> p = ''/'' \<or> (\<exists>q. p = CHR ''/'' # q \<and> clean_body q)"
proof
  assume c: "canonical p"
  show "p = ''/'' \<or> (\<exists>q. p = CHR ''/'' # q \<and> clean_body q)"
  proof (cases "p = ''/''")
    case False
    let ?t = "trim p" and ?q = "trim_slashes (trim p)"
    have p: "p = CHR ''/'' # ?q" and ne: "?t \<noteq> []"
      using c False by (auto simp: canonical_def normalize_cloud_path_def Let_def split: if_splits)
    then have "?q \<noteq> []" using False by auto
    then have hd: "hd ?q \<noteq> CHR ''/''" and last: "last ?q \<noteq> CHR ''/''"
      using trim_matches_hd[of _ "trim p"] trim_matches_last[of _ "trim p"]
      by (simp_all add: trim_slashes_def)
    have hd_p: "hd p = CHR ''/''" "p \<noteq> []" and len: "length p = Suc (length ?q)"
      by (subst p, simp)+
    have "\<not> is_white (last ?q)"
    proof
      assume "is_white (last ?q)"
      moreover have "last p = last ?q" by (subst p) (simp add: \<open>?q \<noteq> []\<close>)
      ultimately have "length ?t < length p"
        using hd_p by (auto simp: trim_def intro!: trim_matches_shorter)
      moreover have "hd ?t = CHR ''/''"
        using trim_matches_prefix[of p is_white] hd_p ne by (auto simp: trim_def) (metis hd_append2)
      then have "length ?q < length ?t"
        using ne by (auto simp: trim_slashes_def intro!: trim_matches_shorter)
      ultimately show False using len by simp
    qed
    with hd last \<open>?q \<noteq> []\<close> p show ?thesis by (auto simp: clean_body_def)
  qed simp
qed (auto simp: canonical_def normalize_clean)

section \<open>Paths as lists of components\<close>

text \<open>
  The abstract view: a path is the list of its names, the root is the empty list.  On clean
  names the string operations are the list operations: parent is butlast, name is last, the
  SQL prefix test is the strict prefix relation.
\<close>

definition clean_name :: "string \<Rightarrow> bool" where
  "clean_name c = (c \<noteq> [] \<and> CHR ''/'' \<notin> set c \<and> \<not> is_white (last c))"

definition enc :: "string list \<Rightarrow> string" where
  "enc cs = concat (map (Cons (CHR ''/'')) cs)"

definition path_of :: "string list \<Rightarrow> string" where
  "path_of cs = (if cs = [] then ''/'' else enc cs)"

lemma enc_simps [simp]:
  "enc [] = []"
  "enc (c # cs) = CHR ''/'' # c @ enc cs"
  "enc (cs @ ds) = enc cs @ enc ds"
  by (simp_all add: enc_def)

lemma enc_eq_Nil [simp]: "enc cs = [] \<longleftrightarrow> cs = []"
  by (cases cs) auto

lemma path_of_snoc: "path_of (cs @ [c]) = enc cs @ CHR ''/'' # c"
  by (simp add: path_of_def)

lemma hd_enc: "cs \<noteq> [] \<Longrightarrow> hd (enc cs) = CHR ''/''"
  by (cases cs) auto

lemma clean_name_hd: "clean_name c \<Longrightarrow> hd c \<noteq> CHR ''/''"
  by (cases c) (auto simp: clean_name_def)

lemma clean_name_last: "clean_name c \<Longrightarrow> last c \<noteq> CHR ''/''"
  by (auto simp: clean_name_def dest: last_in_set)

lemma clean_body_path:
  assumes "list_all clean_name (cs @ [c])"
  shows "\<exists>q. path_of (cs @ [c]) = CHR ''/'' # q \<and> clean_body q"
proof -
  have c: "clean_name c" "c \<noteq> []" using assms by (auto simp: clean_name_def)
  show ?thesis
  proof (cases cs)
    case Nil
    with c assms show ?thesis
      by (auto simp: path_of_def clean_body_def clean_name_hd clean_name_last) (simp add: clean_name_def)
  next
    case (Cons d ds)
    with assms have "clean_name d" by simp
    then have "hd (d @ enc ds @ CHR ''/'' # c) \<noteq> CHR ''/''" "d \<noteq> []"
      using clean_name_hd by (auto simp: clean_name_def)
    with c Cons show ?thesis
      by (auto simp: path_of_def clean_body_def clean_name_last) (simp add: clean_name_def)
  qed
qed

lemma canonical_path_of: "list_all clean_name cs \<Longrightarrow> canonical (path_of cs)"
proof (cases cs rule: rev_cases)
  case Nil
  then show ?thesis by (simp add: path_of_def canonical_def)
next
  case (snoc ds c)
  moreover assume "list_all clean_name cs"
  ultimately show ?thesis using clean_body_path[of ds c] by (auto simp: canonical_iff)
qed

lemma normalize_path_of: "list_all clean_name cs \<Longrightarrow> normalize_cloud_path (path_of cs) = path_of cs"
  using canonical_path_of by (simp add: canonical_def)

lemma path_of_snoc_not_root:
  assumes "list_all clean_name (cs @ [c])"
  shows "path_of (cs @ [c]) \<noteq> ''/''"
  using assms by (cases cs) (auto simp: path_of_def clean_name_def)

lemma slash_split_path: "list_all clean_name cs \<Longrightarrow> split_on (CHR ''/'') (enc cs) = [] # cs"
proof (induction cs)
  case (Cons c cs)
  then have c: "CHR ''/'' \<notin> set c" by (simp add: clean_name_def)
  show ?case
  proof (cases cs)
    case Nil
    then show ?thesis using c by (simp add: split_on_none)
  next
    case (Cons d ds)
    then have "split_on (CHR ''/'') (c @ enc cs) = c # tl (split_on (CHR ''/'') (enc cs))"
      using c by (simp add: split_on_append)
    with Cons.IH Cons.prems show ?thesis by simp
  qed
qed simp

lemma path_of_inj: "list_all clean_name cs \<Longrightarrow> list_all clean_name ds \<Longrightarrow> path_of cs = path_of ds \<Longrightarrow> cs = ds"
proof -
  assume cs: "list_all clean_name cs" and ds: "list_all clean_name ds" and eq: "path_of cs = path_of ds"
  have ne: "path_of xs \<noteq> ''/''" if "list_all clean_name xs" "xs \<noteq> []" for xs
    using path_of_snoc_not_root[of "butlast xs" "last xs"] that by simp
  have iff: "path_of xs = ''/'' \<longleftrightarrow> xs = []" if "list_all clean_name xs" for xs
    using ne[OF that] by (cases "xs = []") (simp_all add: path_of_def)
  have nil: "cs = [] \<longleftrightarrow> ds = []"
    using iff[OF cs] iff[OF ds] by (simp only: eq)
  show "cs = ds"
  proof (cases "ds = []")
    case True
    with nil show ?thesis by blast
  next
    case False
    have "enc cs = enc ds" using eq False by (simp only: path_of_def if_False nil)
    then have "split_on (CHR ''/'') (enc cs) = split_on (CHR ''/'') (enc ds)" by (rule arg_cong)
    then have "[] # cs = [] # ds" by (simp only: slash_split_path[OF cs] slash_split_path[OF ds])
    then show ?thesis by blast
  qed
qed

lemma rfind_snoc: "x \<notin> set t \<Longrightarrow> rfind x (s @ x # t) = Some (length s)"
proof -
  assume "x \<notin> set t"
  then have "dropWhile (\<lambda>y. y \<noteq> x) (rev t @ x # rev s) = x # rev s"
    by (subst dropWhile_append2) auto
  then show ?thesis by (simp add: rfind_def)
qed

lemma parent_path_of:
  assumes "list_all clean_name (cs @ [c])"
  shows "parent_cloud_path (path_of (cs @ [c])) = path_of cs"
proof -
  have "CHR ''/'' \<notin> set c" using assms by (simp add: clean_name_def)
  then have "rfind (CHR ''/'') (path_of (cs @ [c])) = Some (length (enc cs))"
    unfolding path_of_snoc by (rule rfind_snoc)
  with normalize_path_of[OF assms] path_of_snoc_not_root[OF assms] show ?thesis
    by (simp add: parent_cloud_path_def Let_def path_of_snoc path_of_def)
qed

lemma name_path_of:
  assumes "list_all clean_name (cs @ [c])"
  shows "cloud_name (path_of (cs @ [c])) = c"
proof -
  have c: "CHR ''/'' \<notin> set c" using assms by (simp add: clean_name_def)
  have "takeWhile (\<lambda>x. x \<noteq> CHR ''/'') (rev c @ CHR ''/'' # rev (enc cs)) = rev c"
    using c by (subst takeWhile_append2) auto
  with normalize_path_of[OF assms] path_of_snoc_not_root[OF assms] show ?thesis
    by (simp add: cloud_name_def Let_def after_last_slash_def path_of_snoc)
qed

lemma join_path_of:
  assumes "list_all clean_name (cs @ [c])" and "cs = [] \<Longrightarrow> \<not> is_white (hd c)"
  shows "join_cloud_path (path_of cs) c = path_of (cs @ [c])"
proof (cases "cs = []")
  case False
  have cs: "list_all clean_name cs" using assms(1) by simp
  obtain ds d where "cs = ds @ [d]" using False by (cases cs rule: rev_cases) auto
  with cs path_of_snoc_not_root[of ds d] have "path_of cs \<noteq> ''/''" by simp
  moreover have "path_of cs @ ''/'' @ c = path_of (cs @ [c])"
    using False by (simp add: path_of_def)
  ultimately show ?thesis
    using normalize_path_of[OF cs] normalize_path_of[OF assms(1)]
    by (simp add: join_cloud_path_def Let_def)
next
  case True
  have c: "clean_name c" using assms(1) by simp
  with assms(2) True have "trim_matches is_white c = c"
    by (intro trim_matches_id) (auto simp: clean_name_def)
  moreover have "trim_matches (\<lambda>x. x = CHR ''/'') c = c"
    using c clean_name_hd clean_name_last by (intro trim_matches_id) auto
  ultimately have "normalize_cloud_path c = CHR ''/'' # c" using c
    by (auto simp: normalize_cloud_path_def trim_def trim_slashes_def clean_name_def)
  with True show ?thesis by (simp add: join_cloud_path_def path_of_def)
qed

section \<open>The literal prefix test\<close>

text \<open>substr(path, 1, length(a) + 1) = a || '/'\<close>

definition below :: "string \<Rightarrow> string \<Rightarrow> bool" where
  "below a path = (take (length a + 1) path = a @ ''/'')"

lemma below_iff_prefix: "below a p \<longleftrightarrow> prefix (a @ ''/'') p"
proof
  assume "below a p"
  then have "p = (a @ ''/'') @ drop (length a + 1) p"
    unfolding below_def by (metis append_take_drop_id)
  then show "prefix (a @ ''/'') p" unfolding prefix_def by blast
qed (auto simp: below_def prefix_def)

lemma below_irrefl [simp]: "\<not> below a a"
  by (auto simp: below_def dest: arg_cong[where f = length])

lemma below_trans: "below a b \<Longrightarrow> below b c \<Longrightarrow> below a c"
  unfolding below_iff_prefix by (metis prefix_order.trans append_prefixD)

lemma below_asym: "below a b \<Longrightarrow> \<not> below b a"
  using below_trans below_irrefl by blast

lemma prefix_split_slash:
  assumes "CHR ''/'' \<notin> set c" "CHR ''/'' \<notin> set d" "y = [] \<or> hd y = CHR ''/''"
  shows "prefix (c @ CHR ''/'' # x) (d @ y) \<longleftrightarrow> c = d \<and> prefix (CHR ''/'' # x) y"
  using assms
proof (induction c arbitrary: d)
  case Nil
  then show ?case by (cases d) auto
next
  case (Cons a c)
  then show ?case by (cases d; cases y) auto
qed

lemma prefix_enc:
  assumes "list_all clean_name cs" "list_all clean_name ds"
  shows "prefix (enc cs @ ''/'') (enc ds) \<longleftrightarrow> strict_prefix cs ds"
  using assms
proof (induction cs arbitrary: ds)
  case Nil
  then show ?case by (cases ds) auto
next
  case (Cons c cs)
  show ?case
  proof (cases ds)
    case Nil
    then show ?thesis by simp
  next
    case (Cons d ds')
    obtain x where x: "enc cs @ ''/'' = CHR ''/'' # x" by (cases cs) auto
    have "prefix (c @ CHR ''/'' # x) (d @ enc ds') \<longleftrightarrow> c = d \<and> prefix (CHR ''/'' # x) (enc ds')"
      using Cons.prems Cons hd_enc[of ds']
      by (intro prefix_split_slash) (auto simp: clean_name_def)
    then have "prefix (enc (c # cs) @ ''/'') (enc ds) \<longleftrightarrow> c = d \<and> prefix (enc cs @ ''/'') (enc ds')"
      using Cons x by simp
    also have "\<dots> \<longleftrightarrow> c = d \<and> strict_prefix cs ds'"
      using Cons.IH[of ds'] Cons.prems Cons by auto
    finally show ?thesis using Cons by auto
  qed
qed

lemma below_path_of:
  assumes "list_all clean_name cs" "list_all clean_name ds" "cs \<noteq> []"
  shows "below (path_of cs) (path_of ds) \<longleftrightarrow> strict_prefix cs ds"
proof (cases "ds = []")
  case True
  with assms(3) show ?thesis by (cases cs) (auto simp: below_iff_prefix path_of_def)
next
  case False
  with assms show ?thesis by (simp add: below_iff_prefix path_of_def prefix_enc)
qed

section \<open>The walk to the root\<close>

definition walk_measure :: "string \<Rightarrow> nat" where
  "walk_measure p = (if p \<noteq> [] \<and> hd p = CHR ''/'' then length p else length p + 2)"

lemma length_normalize: "length (normalize_cloud_path p) \<le> length p + 1"
  using length_trim_matches[of is_white p]
    length_trim_matches[of "\<lambda>c. c = CHR ''/''" "trim_matches is_white p"]
  by (simp add: normalize_cloud_path_def Let_def trim_def trim_slashes_def)

lemma length_normalize_slash:
  assumes "p \<noteq> []" "hd p = CHR ''/''"
  shows "length (normalize_cloud_path p) \<le> length p"
proof (cases "trim p = [] \<or> trim p = ''/''")
  case True
  with assms show ?thesis by (cases p) (auto simp: normalize_cloud_path_def)
next
  case False
  have "\<exists>ys. p = trim p @ ys"
    unfolding trim_def using assms by (intro trim_matches_prefix) auto
  with False assms have "hd (trim p) = CHR ''/''" by (metis hd_append2)
  with False have "length (trim_slashes (trim p)) < length (trim p)"
    unfolding trim_slashes_def by (intro trim_matches_shorter) auto
  moreover have "length (trim p) \<le> length p" by (simp add: trim_def length_trim_matches)
  ultimately show ?thesis using False by (simp add: normalize_cloud_path_def)
qed

lemma parent_cases:
  obtains "parent_cloud_path p = ''/''"
  | i where "0 < i" "i < length (normalize_cloud_path p)"
      "parent_cloud_path p = take i (normalize_cloud_path p)"
proof (cases "rfind (CHR ''/'') (normalize_cloud_path p)")
  case None
  then show thesis using that(1) by (simp add: parent_cloud_path_def Let_def)
next
  case (Some i)
  then show thesis using that rfind_less[OF Some]
    by (cases "normalize_cloud_path p = ''/'' \<or> i = 0") (auto simp: parent_cloud_path_def Let_def)
qed

lemma walk_measure_parent: "p \<noteq> ''/'' \<Longrightarrow> walk_measure (parent_cloud_path p) < walk_measure p"
proof -
  assume p: "p \<noteq> ''/''"
  show ?thesis
  proof (cases rule: parent_cases[of p])
    case 1
    with p show ?thesis by (cases p) (auto simp: walk_measure_def)
  next
    case (2 i)
    obtain q where q: "normalize_cloud_path p = CHR ''/'' # q"
      using normalize_starts_with_slash by blast
    with 2 have "walk_measure (parent_cloud_path p) = i"
      by (cases i) (auto simp: walk_measure_def)
    with 2 show ?thesis using length_normalize[of p] length_normalize_slash[of p]
      by (auto simp: walk_measure_def)
  qed
qed

text \<open>All proper ancestors of a path, the nearest first, ending with the root.\<close>

function ancestors :: "string \<Rightarrow> string list" where
  "ancestors p = (if p = ''/'' then [] else parent_cloud_path p # ancestors (parent_cloud_path p))"
  by pat_completeness auto
termination
  by (relation "measure walk_measure") (auto intro: walk_measure_parent)

declare ancestors.simps [simp del]

lemma ancestors_root [simp]: "ancestors ''/'' = []"
  by (subst ancestors.simps) simp

lemma ancestors_path_of:
  "list_all clean_name cs \<Longrightarrow>
   ancestors (path_of cs) = map (\<lambda>i. path_of (take i cs)) (rev [0..<length cs])"
proof (induction cs rule: rev_induct)
  case Nil
  then show ?case by (simp add: path_of_def)
next
  case (snoc c cs)
  have "ancestors (path_of (cs @ [c])) = path_of cs # ancestors (path_of cs)"
    using path_of_snoc_not_root[OF snoc.prems] parent_path_of[OF snoc.prems]
    by (subst ancestors.simps) simp
  then show ?case using snoc by (simp add: rev_map[symmetric])
qed

text \<open>On clean paths the proper ancestors are the root and the paths it is below.\<close>

lemma set_ancestors_path_of:
  assumes "list_all clean_name cs" "list_all clean_name ds" "cs \<noteq> []"
  shows "path_of cs \<in> set (ancestors (path_of ds)) \<longleftrightarrow> below (path_of cs) (path_of ds)"
proof
  assume "below (path_of cs) (path_of ds)"
  then have "strict_prefix cs ds" using below_path_of assms by blast
  then have "cs = take (length cs) ds" "length cs < length ds"
    by (auto simp: strict_prefix_def prefix_def)
  then show "path_of cs \<in> set (ancestors (path_of ds))"
    unfolding ancestors_path_of[OF assms(2)] by force
next
  assume "path_of cs \<in> set (ancestors (path_of ds))"
  then obtain i where i: "i < length ds" "path_of cs = path_of (take i ds)"
    unfolding ancestors_path_of[OF assms(2)] by auto
  have t: "list_all clean_name (take i ds)"
    using assms(2) by (auto simp: list_all_iff dest: in_set_takeD)
  have "i \<noteq> 0"
  proof
    assume "i = 0"
    with i have "enc cs = ''/''" using assms(3) by (simp add: path_of_def)
    with assms(1,3) show False by (cases cs) (auto simp: clean_name_def)
  qed
  then have "strict_prefix (take i ds) ds" "take i ds \<noteq> []"
    using i by (auto simp: strict_prefix_def take_is_prefix)
  then show "below (path_of cs) (path_of ds)"
    using below_path_of[OF t assms(2)] i by simp
qed


section \<open>Properties\<close>

text \<open>The string functions on cloud paths implement the operations on lists of names: on the
  text of a list of clean names, parent drops the last name, name returns it, join appends one,
  normalising changes nothing, and the textual prefix test is the ancestor relation.\<close>

lemma path_functions_refine:
  assumes names: "list_all clean_name (cs @ [c])"
  shows "normalize_cloud_path (path_of (cs @ [c])) = path_of (cs @ [c]) \<and>
    parent_cloud_path (path_of (cs @ [c])) = path_of cs \<and> cloud_name (path_of (cs @ [c])) = c \<and>
    (cs \<noteq> [] \<or> \<not> is_white (hd c) \<longrightarrow> join_cloud_path (path_of cs) c = path_of (cs @ [c])) \<and>
    (\<forall>as. as \<noteq> [] \<and> list_all clean_name as \<longrightarrow>
       (below (path_of as) (path_of (cs @ [c])) \<longleftrightarrow> strict_prefix as (cs @ [c])))"
  using normalize_path_of[OF names] parent_path_of[OF names] name_path_of[OF names]
    join_path_of[OF names] below_path_of[OF _ names] by blast

lemma path_functions_refine_witness:
  "parent_cloud_path (path_of ([''D'', ''x''] @ [''a b''])) = path_of [''D'', ''x'']"
proof -
  have "list_all clean_name ([''D'', ''x''] @ [''a b''])" by code_simp
  from path_functions_refine[OF this] show ?thesis by blast
qed

end
