(* ===== verification/Domain.thy ===== *)
theory Domain
  imports Paths
begin

text \<open>
  crates/twodrive-core/src/domain.rs and time.rs: the enumerations the database stores as text
  (with their printers and parsers and the round trips between them), the records that pass
  between the components, and the parser of durations.  An i64 is an int in the 64-bit range, a
  u64 is a 64-bit word (the database column holds the same 64 bits), u32 and u16 likewise.
  The error datatype names each error value the modelled operations return.
\<close>

section \<open>Errors\<close>

datatype db_error =
    UnknownState string
  | UnknownItem string
  | PathExists string
  | ConstraintViolation
  | NoSuchRow
  | Disappeared string
  | ReplaceDirectory
  | TargetMoved
  | LostPrefix
  | LengthMismatch
  | IoError
  | ReusedIdentity
  | ProtectedGeneration
  | IntegerOutOfRange
  | MissingDeltaLink
  | EmptyDuration
  | BadNumber
  | UnsupportedUnit string

section \<open>File states\<close>

datatype file_state =
  OnlineOnly | Hydrating | Cached | Pinned | Writing | Dirty | Uploading | Conflict | ErrorState

fun as_str :: "file_state \<Rightarrow> string" where
  "as_str OnlineOnly = ''online_only''"
| "as_str Hydrating = ''hydrating''"
| "as_str Cached = ''cached''"
| "as_str Pinned = ''pinned''"
| "as_str Writing = ''writing''"
| "as_str Dirty = ''dirty''"
| "as_str Uploading = ''uploading''"
| "as_str Conflict = ''conflict''"
| "as_str ErrorState = ''error''"

definition from_str :: "string \<Rightarrow> db_error + file_state" where
  "from_str value =
     (if value = ''online_only'' then Inr OnlineOnly
      else if value = ''hydrating'' then Inr Hydrating
      else if value = ''cached'' then Inr Cached
      else if value = ''pinned'' then Inr Pinned
      else if value = ''writing'' then Inr Writing
      else if value = ''dirty'' then Inr Dirty
      else if value = ''uploading'' then Inr Uploading
      else if value = ''conflict'' then Inr Conflict
      else if value = ''error'' then Inr ErrorState
      else Inl (UnknownState value))"

lemma from_str_as_str [simp]: "from_str (as_str st) = Inr st"
  by (cases st) (simp_all add: from_str_def)

lemma from_str_InrD: "from_str v = Inr st \<Longrightarrow> v = as_str st"
  by (auto simp: from_str_def split: if_splits)

lemma from_str_InlD: "from_str v = Inl e \<Longrightarrow> e = UnknownState v"
  by (auto simp: from_str_def split: if_splits)

text \<open>The states in which a record carries bytes the cloud does not have yet.\<close>

definition local_work :: "file_state \<Rightarrow> bool" where
  "local_work st = (st \<in> {Writing, Dirty, Uploading, Conflict})"

section \<open>Metadata entries and file records\<close>

record metadata_entry =
  m_remote_id :: string
  m_path :: string
  m_parent_path :: string
  m_name :: string
  m_is_dir :: bool
  m_size :: u64
  m_modified_unix :: int
  m_etag :: string

definition new_entry :: "string \<Rightarrow> string \<Rightarrow> bool \<Rightarrow> u64 \<Rightarrow> int \<Rightarrow> string \<Rightarrow> metadata_entry" where
  "new_entry remote_id path is_dir sz modified etag =
     (let path = normalize_cloud_path path in
      \<lparr>m_remote_id = remote_id, m_path = path, m_parent_path = parent_cloud_path path,
       m_name = cloud_name path, m_is_dir = is_dir, m_size = sz,
       m_modified_unix = modified, m_etag = etag\<rparr>)"

definition new_file :: "string \<Rightarrow> string \<Rightarrow> u64 \<Rightarrow> int \<Rightarrow> string \<Rightarrow> metadata_entry" where
  "new_file remote_id path sz modified etag = new_entry remote_id path False sz modified etag"

definition new_dir :: "string \<Rightarrow> string \<Rightarrow> int \<Rightarrow> string \<Rightarrow> metadata_entry" where
  "new_dir remote_id path modified etag = new_entry remote_id path True 0 modified etag"

record file_record =
  metadata :: metadata_entry
  r_cloud_remote_id :: "string option"
  r_local_mode :: "u16 option"
  r_state :: file_state
  r_cache_path :: "string option"
  r_cache_accessed_unix :: "int option"
  r_pin_explicit :: bool
  r_pin_origin_remote_id :: "string option"
  r_pin_inheritance_blocked :: bool

definition effective_pinned :: "file_record \<Rightarrow> bool" where
  "effective_pinned r = (r_pin_explicit r \<or> r_pin_origin_remote_id r \<noteq> None)"

section \<open>Pending deletes and metadata operations\<close>

datatype delete_failure_kind = Authentication | Permission | Throttled | Transient | Rejected

fun failure_as_str :: "delete_failure_kind \<Rightarrow> string" where
  "failure_as_str Authentication = ''authentication''"
| "failure_as_str Permission = ''permission''"
| "failure_as_str Throttled = ''throttled''"
| "failure_as_str Transient = ''transient''"
| "failure_as_str Rejected = ''rejected''"

definition failure_parse :: "string \<Rightarrow> delete_failure_kind" where
  "failure_parse value =
     (if value = ''authentication'' then Authentication
      else if value = ''permission'' then Permission
      else if value = ''throttled'' then Throttled
      else if value = ''transient'' then Transient
      else Rejected)"

lemma failure_parse_as_str [simp]: "failure_parse (failure_as_str k) = k"
  by (cases k) (simp_all add: failure_parse_def)

record pending_delete =
  d_remote_id :: string
  d_local_id :: "string option"
  d_cloud_remote_id :: "string option"
  d_path :: string
  d_cache_path :: "string option"
  d_queued_unix :: int
  d_upload_path :: "string option"
  d_upload_target_id :: "string option"
  d_upload_cache_path :: "string option"
  d_uploaded_path :: "string option"
  d_attempt_count :: u32
  d_next_retry_unix :: int
  d_last_status :: "u16 option"
  d_failure_kind :: "delete_failure_kind option"

definition retry_due :: "pending_delete \<Rightarrow> int \<Rightarrow> bool" where
  "retry_due d now = (d_next_retry_unix d \<le> now)"

datatype pending_metadata_kind = CreateFolder | Move

fun kind_as_str :: "pending_metadata_kind \<Rightarrow> string" where
  "kind_as_str CreateFolder = ''create_folder''"
| "kind_as_str Move = ''move''"

record pending_metadata_operation =
  o_local_id :: string
  o_kind :: pending_metadata_kind
  o_path :: string
  o_queued_unix :: int

section \<open>Durations\<close>

definition digit_value :: "char \<Rightarrow> nat" where
  "digit_value c = of_char c - 48"

definition decimal_value :: "string \<Rightarrow> nat" where
  "decimal_value s = foldl (\<lambda>n c. 10 * n + digit_value c) 0 s"

text \<open>str::parse::<i64> on a string of ASCII digits: empty or too large is an error.\<close>

definition parse_i64_digits :: "string \<Rightarrow> db_error + int" where
  "parse_i64_digits s =
     (if s = [] \<or> i64_max < int (decimal_value s) then Inl BadNumber else Inr (int (decimal_value s)))"

definition unit_seconds :: "string \<Rightarrow> int option" where
  "unit_seconds u =
     (if u = [] \<or> u = ''s'' then Some 1
      else if u = ''m'' then Some 60
      else if u = ''h'' then Some (60 * 60)
      else if u = ''d'' then Some (24 * 60 * 60)
      else None)"

definition parse_duration_seconds :: "string \<Rightarrow> db_error + int" where
  "parse_duration_seconds value =
     (let value = trim value in
      if value = [] then Inl EmptyDuration
      else (let number = takeWhile is_ascii_digit value; u = dropWhile is_ascii_digit value in
            and_then (parse_i64_digits number) (\<lambda>amount.
              case unit_seconds u of
                None \<Rightarrow> Inl (UnsupportedUnit u)
              | Some multiplier \<Rightarrow> Inr (sat_i64 (amount * multiplier)))))"

text \<open>The decimal numeral of a number, to state the round trip.\<close>

fun decimal :: "nat \<Rightarrow> string" where
  "decimal n = (if n < 10 then [char_of (48 + n)] else decimal (n div 10) @ [char_of (48 + n mod 10)])"

declare decimal.simps [simp del]

lemma digit_char: "n < 10 \<Longrightarrow> is_ascii_digit (char_of (48 + n)) \<and> digit_value (char_of (48 + n)) = n"
  by (simp add: is_ascii_digit_def digit_value_def)

lemma decimal_digits: "list_all is_ascii_digit (decimal n)"
proof (induction n rule: decimal.induct)
  case (1 n)
  then show ?case by (subst decimal.simps) (simp add: digit_char)
qed

lemma decimal_nonempty [simp]: "decimal n \<noteq> []"
  by (subst decimal.simps) simp

lemma decimal_value_decimal [simp]: "decimal_value (decimal n) = n"
proof (induction n rule: decimal.induct)
  case (1 n)
  show ?case
  proof (cases "n < 10")
    case True
    then show ?thesis by (subst decimal.simps) (simp add: decimal_value_def digit_char)
  next
    case False
    with 1 have "decimal_value (decimal (n div 10)) = n div 10" by simp
    with False show ?thesis
      by (subst decimal.simps) (simp add: decimal_value_def digit_char)
  qed
qed

lemma digit_not_white: "is_ascii_digit c \<Longrightarrow> \<not> is_white c"
  by (auto simp: is_ascii_digit_def is_white_def)

lemma unit_seconds_cases:
  "unit_seconds u = Some m \<Longrightarrow> u \<in> {[], ''s'', ''m'', ''h'', ''d''} \<and> 0 < m \<and> m \<le> 86400"
  by (auto simp: unit_seconds_def split: if_splits)

lemma trim_number_unit:
  assumes "unit_seconds u = Some m"
  shows "trim (decimal n @ u) = decimal n @ u"
proof -
  have d: "is_ascii_digit (hd (decimal n))" "is_ascii_digit (last (decimal n))"
    using decimal_digits[of n] by (auto simp: list_all_iff)
  have "\<not> is_white (hd (decimal n @ u))" using d digit_not_white by simp
  moreover have "\<not> is_white (last (decimal n @ u))"
    using d digit_not_white unit_seconds_cases[OF assms] by (auto simp: is_white_def)
  ultimately show ?thesis unfolding trim_def by (intro trim_matches_id) simp
qed

lemma parse_duration_number_unit:
  assumes "unit_seconds u = Some m" and "int n \<le> i64_max"
  shows "parse_duration_seconds (decimal n @ u) = Inr (sat_i64 (int n * m))"
proof -
  have u: "takeWhile is_ascii_digit u = []" "dropWhile is_ascii_digit u = u"
    using unit_seconds_cases[OF assms(1)] by (auto simp: is_ascii_digit_def)
  have t: "takeWhile is_ascii_digit (decimal n @ u) = decimal n"
    using decimal_digits[of n] u by (subst takeWhile_append2) (auto simp: list_all_iff)
  have "dropWhile is_ascii_digit (decimal n @ u) = u"
    using decimal_digits[of n] u by (subst dropWhile_append2) (auto simp: list_all_iff)
  with t assms trim_number_unit[OF assms(1), of n] show ?thesis
    by (simp add: parse_duration_seconds_def Let_def parse_i64_digits_def)
qed

lemma parse_duration_range:
  "parse_duration_seconds v = Inr s \<Longrightarrow> 0 \<le> s \<and> s \<le> i64_max"
proof -
  assume "parse_duration_seconds v = Inr s"
  then obtain n m where s: "s = sat_i64 (int n * m)" and "0 < m"
    by (auto simp: parse_duration_seconds_def Let_def and_then_Inr_iff parse_i64_digits_def
        dest: unit_seconds_cases split: if_splits option.splits)
  then have "0 \<le> int n * m" by simp
  then show ?thesis unfolding s using sat_i64_nonneg sat_i64_range(2) by blast
qed


section \<open>Properties\<close>

text \<open>The stored text forms read back to the value they were written from, and no other text
  is read as a file state; an unknown state is an error that names it.\<close>

lemma text_forms_round_trip:
  "from_str (as_str st) = Inr st \<and> failure_parse (failure_as_str k) = k \<and>
   (case from_str v of Inr st' \<Rightarrow> v = as_str st' | Inl e \<Rightarrow> e = UnknownState v)"
  using from_str_InrD[of v] from_str_InlD[of v] by (auto split: sum.split)

text \<open>A duration written as a decimal number and a unit reads back as the product, saturated
  at the largest 64-bit value; no text reads as a negative duration.\<close>

lemma duration_round_trip:
  assumes "unit_seconds u = Some m" "int n \<le> i64_max"
  shows "parse_duration_seconds (decimal n @ u) = Inr (sat_i64 (int n * m)) \<and>
    (case parse_duration_seconds v of Inr s \<Rightarrow> 0 \<le> s \<and> s \<le> i64_max | Inl e \<Rightarrow> True)"
  using parse_duration_number_unit[OF assms] parse_duration_range[of v] by (auto split: sum.split)

lemma duration_round_trip_witness:
  "parse_duration_seconds (decimal 90 @ ''m'') = Inr (sat_i64 (int 90 * 60))"
proof -
  have "unit_seconds ''m'' = Some 60" by code_simp
  from duration_round_trip[OF this, of 90] show ?thesis by simp
qed

end
