(* ===== verification/Store.thy ===== *)
theory Store
  imports Domain
begin

text \<open>
  crates/twodrive-core/src/database/{mod,schema,queries}.rs: the tables of the SQLite database
  as lists of typed rows, the uniqueness constraints of the schema, transactions, and the read
  queries.  A column whose text is written by an enum's printer and read by its parser holds the
  enum (the round trips are in Domain).  The interfaces keyed_table (a table addressed by its
  primary key) and row_claim (a guarded UPDATE of one row whose changed-row count is the answer)
  are stated as locales; the operations of the later theories interpret them.
\<close>

section \<open>Tables\<close>

record file_row =
  f_remote_id :: string
  f_cloud_remote_id :: "string option"
  f_path :: string
  f_parent_path :: string
  f_name :: string
  f_is_dir :: bool
  f_size :: u64
  f_modified_unix :: int
  f_etag :: string
  f_state :: file_state
  f_cache_path :: "string option"
  f_cache_accessed_unix :: "int option"
  f_pin_explicit :: bool
  f_pin_origin_remote_id :: "string option"
  f_pin_inheritance_blocked :: bool
  f_release_pending :: bool
  f_download_generation :: int
  f_local_mode :: "u16 option"
  f_upload_path :: "string option"
  f_upload_target_id :: "string option"
  f_upload_cache_path :: "string option"

text \<open>The column defaults of the schema: absent columns of an INSERT.\<close>

definition blank_row :: file_row where
  "blank_row =
     \<lparr>f_remote_id = [], f_cloud_remote_id = None, f_path = [], f_parent_path = [], f_name = [],
      f_is_dir = False, f_size = 0, f_modified_unix = 0, f_etag = [], f_state = OnlineOnly,
      f_cache_path = None, f_cache_accessed_unix = None, f_pin_explicit = False,
      f_pin_origin_remote_id = None, f_pin_inheritance_blocked = False,
      f_release_pending = False, f_download_generation = 0, f_local_mode = None,
      f_upload_path = None, f_upload_target_id = None, f_upload_cache_path = None\<rparr>"

text \<open>A row of pending_deletes has the fields of PendingDelete, the cloud id as stored.\<close>

record db =
  t_files :: "file_row list"
  t_deletes :: "pending_delete list"
  t_ops :: "pending_metadata_operation list"
  t_retired :: "string list"
  t_app :: "(string \<times> string) list"

definition empty_db :: db where
  "empty_db = \<lparr>t_files = [], t_deletes = [], t_ops = [], t_retired = [], t_app = []\<rparr>"

section \<open>Constraints and transactions\<close>

definition unique_cloud :: "file_row list \<Rightarrow> bool" where
  "unique_cloud rows =
     (\<forall>r\<in>set rows. \<forall>r'\<in>set rows.
        f_cloud_remote_id r \<noteq> None \<and> f_cloud_remote_id r = f_cloud_remote_id r' \<longrightarrow>
        f_remote_id r = f_remote_id r')"

text \<open>remote_id PRIMARY KEY, path UNIQUE, idx_files_cloud_remote_id.\<close>

definition files_ok :: "file_row list \<Rightarrow> bool" where
  "files_ok rows =
     (distinct (map f_remote_id rows) \<and> distinct (map f_path rows) \<and> unique_cloud rows)"

definition wf_db :: "db \<Rightarrow> bool" where
  "wf_db d =
     (files_ok (t_files d) \<and> distinct (map d_remote_id (t_deletes d)) \<and>
      distinct (map o_local_id (t_ops d)) \<and> distinct (t_retired d) \<and>
      distinct (map fst (t_app d)))"

type_synonym 'a tx = "db \<Rightarrow> db_error + ('a \<times> db)"

text \<open>A transaction commits its result or leaves the database as it was.\<close>

definition run_tx :: "'a tx \<Rightarrow> db \<Rightarrow> (db_error + 'a) \<times> db" where
  "run_tx t d = (case t d of Inl e \<Rightarrow> (Inl e, d) | Inr (a, d') \<Rightarrow> (Inr a, d'))"

definition insert_file :: "file_row \<Rightarrow> db \<Rightarrow> db_error + db" where
  "insert_file row d =
     (let rows = t_files d @ [row] in
      if files_ok rows then Inr (d\<lparr>t_files := rows\<rparr>) else Inl ConstraintViolation)"

text \<open>UPDATE files of a column under a constraint, and of the other columns.\<close>

definition update_files ::
    "(file_row \<Rightarrow> bool) \<Rightarrow> (file_row \<Rightarrow> file_row) \<Rightarrow> db \<Rightarrow> db_error + db" where
  "update_files p f d =
     (let rows = sql_update p f (t_files d) in
      if files_ok rows then Inr (d\<lparr>t_files := rows\<rparr>) else Inl ConstraintViolation)"

definition touch_files ::
    "(file_row \<Rightarrow> bool) \<Rightarrow> (file_row \<Rightarrow> file_row) \<Rightarrow> db \<Rightarrow> db" where
  "touch_files p f d = d\<lparr>t_files := sql_update p f (t_files d)\<rparr>"

definition delete_files :: "(file_row \<Rightarrow> bool) \<Rightarrow> db \<Rightarrow> db" where
  "delete_files p d = d\<lparr>t_files := sql_delete p (t_files d)\<rparr>"

definition delete_ops :: "(pending_metadata_operation \<Rightarrow> bool) \<Rightarrow> db \<Rightarrow> db" where
  "delete_ops p d = d\<lparr>t_ops := sql_delete p (t_ops d)\<rparr>"

text \<open>INSERT OR IGNORE INTO retired_cache.\<close>

definition retire_cache :: "string \<Rightarrow> db \<Rightarrow> db" where
  "retire_cache path d =
     (if path \<in> set (t_retired d) then d else d\<lparr>t_retired := t_retired d @ [path]\<rparr>)"

text \<open>INSERT .. ON CONFLICT(key) DO UPDATE on a table whose only constraint is its key.\<close>

definition sql_upsert :: "('r \<Rightarrow> 'k) \<Rightarrow> ('r \<Rightarrow> 'r \<Rightarrow> 'r) \<Rightarrow> 'r \<Rightarrow> 'r list \<Rightarrow> 'r list" where
  "sql_upsert key merge row rows =
     (if key row \<in> key ` set rows
      then sql_update (\<lambda>r. key r = key row) (\<lambda>old. merge old row) rows
      else rows @ [row])"

lemma set_sql_upsert:
  "set (sql_upsert key merge row rows) =
   (if key row \<in> key ` set rows
    then (\<lambda>r. if key r = key row then merge r row else r) ` set rows
    else insert row (set rows))"
  by (auto simp: sql_upsert_def set_sql_update)

lemma distinct_sql_upsert:
  assumes "\<And>old. key old = key row \<Longrightarrow> key (merge old row) = key old" and "distinct (map key rows)"
  shows "distinct (map key (sql_upsert key merge row rows))"
proof (cases "key row \<in> key ` set rows")
  case True
  have "map key (sql_update (\<lambda>r. key r = key row) (\<lambda>old. merge old row) rows) = map key rows"
    by (rule map_key_sql_update) (simp add: assms(1))
  with True assms(2) show ?thesis by (simp add: sql_upsert_def)
qed (use assms(2) in \<open>auto simp: sql_upsert_def\<close>)

section \<open>Preservation of the invariant by the statements\<close>

lemma unique_cloud_subset: "unique_cloud rows \<Longrightarrow> set rows' \<subseteq> set rows \<Longrightarrow> unique_cloud rows'"
  unfolding unique_cloud_def by blast

lemma files_ok_delete: "files_ok rows \<Longrightarrow> files_ok (sql_delete p rows)"
  by (auto simp: files_ok_def distinct_map_sql_delete set_sql_delete
      intro: unique_cloud_subset)

lemma unique_cloud_update:
  assumes "unique_cloud rows"
    and "\<And>r. f_remote_id (f r) = f_remote_id r" "\<And>r. f_cloud_remote_id (f r) = f_cloud_remote_id r"
  shows "unique_cloud (sql_update p f rows)"
proof -
  let ?g = "\<lambda>r. if p r then f r else r"
  have g: "f_remote_id (?g r) = f_remote_id r" "f_cloud_remote_id (?g r) = f_cloud_remote_id r" for r
    by (simp_all add: assms(2,3))
  show ?thesis unfolding unique_cloud_def set_sql_update ball_simps(9) g
    using assms(1) unfolding unique_cloud_def by blast
qed

lemma files_ok_update:
  assumes "files_ok rows"
    and "\<And>r. f_remote_id (f r) = f_remote_id r" "\<And>r. f_path (f r) = f_path r"
      "\<And>r. f_cloud_remote_id (f r) = f_cloud_remote_id r"
  shows "files_ok (sql_update p f rows)"
  using assms by (simp add: files_ok_def map_key_sql_update unique_cloud_update)

text \<open>A statement that leaves the constrained columns of the rows it selects cannot fail.\<close>

lemma update_files_ok:
  assumes "wf_db d"
    and keys: "\<And>r. r \<in> set (t_files d) \<Longrightarrow> p r \<Longrightarrow> f_remote_id (f r) = f_remote_id r \<and>
      f_path (f r) = f_path r \<and> f_cloud_remote_id (f r) = f_cloud_remote_id r"
  shows "update_files p f d = Inr (touch_files p f d)"
proof -
  let ?f = "\<lambda>r. if f_remote_id (f r) = f_remote_id r \<and> f_path (f r) = f_path r \<and>
      f_cloud_remote_id (f r) = f_cloud_remote_id r then f r else r"
  have eq: "sql_update p f (t_files d) = sql_update p ?f (t_files d)"
    unfolding sql_update_def using keys by (intro map_cong refl) auto
  have "files_ok (sql_update p ?f (t_files d))"
    by (rule files_ok_update) (use assms(1) in \<open>simp_all add: wf_db_def\<close>)
  then show ?thesis by (simp add: update_files_def touch_files_def eq)
qed

lemma wf_touch_files [wf_intros]:
  assumes "wf_db d"
    and "\<And>r. f_remote_id (f r) = f_remote_id r" "\<And>r. f_path (f r) = f_path r"
      "\<And>r. f_cloud_remote_id (f r) = f_cloud_remote_id r"
  shows "wf_db (touch_files p f d)"
  using assms by (simp add: wf_db_def touch_files_def files_ok_update)

lemma wf_delete_files [wf_intros]: "wf_db d \<Longrightarrow> wf_db (delete_files p d)"
  by (simp add: wf_db_def delete_files_def files_ok_delete)

lemma wf_delete_ops [wf_intros]: "wf_db d \<Longrightarrow> wf_db (delete_ops p d)"
  by (simp add: wf_db_def delete_ops_def distinct_map_sql_delete)

lemma wf_retire_cache [wf_intros]: "wf_db d \<Longrightarrow> wf_db (retire_cache path d)"
  by (simp add: wf_db_def retire_cache_def)

lemma wf_insert_file: "wf_db d \<Longrightarrow> insert_file row d = Inr d' \<Longrightarrow> wf_db d'"
  by (auto simp: wf_db_def insert_file_def Let_def split: if_splits)

lemma wf_update_files: "wf_db d \<Longrightarrow> update_files p f d = Inr d' \<Longrightarrow> wf_db d'"
  by (auto simp: wf_db_def update_files_def Let_def split: if_splits)

lemma wf_empty_db: "wf_db empty_db"
  by (simp add: wf_db_def empty_db_def files_ok_def unique_cloud_def)

lemma touch_files_sel [simp]:
  "t_files (touch_files p f d) = sql_update p f (t_files d)"
  "t_deletes (touch_files p f d) = t_deletes d" "t_ops (touch_files p f d) = t_ops d"
  "t_retired (touch_files p f d) = t_retired d" "t_app (touch_files p f d) = t_app d"
  by (simp_all add: touch_files_def)

lemma delete_files_sel [simp]:
  "t_files (delete_files p d) = sql_delete p (t_files d)"
  "t_deletes (delete_files p d) = t_deletes d" "t_ops (delete_files p d) = t_ops d"
  "t_retired (delete_files p d) = t_retired d" "t_app (delete_files p d) = t_app d"
  by (simp_all add: delete_files_def)

lemma delete_ops_sel [simp]:
  "t_files (delete_ops p d) = t_files d" "t_deletes (delete_ops p d) = t_deletes d"
  "t_ops (delete_ops p d) = sql_delete p (t_ops d)"
  "t_retired (delete_ops p d) = t_retired d" "t_app (delete_ops p d) = t_app d"
  by (simp_all add: delete_ops_def)

lemma retire_cache_sel [simp]:
  "t_files (retire_cache c d) = t_files d" "t_deletes (retire_cache c d) = t_deletes d"
  "t_ops (retire_cache c d) = t_ops d" "t_app (retire_cache c d) = t_app d"
  "set (t_retired (retire_cache c d)) = insert c (set (t_retired d))"
  by (auto simp: retire_cache_def)

lemma update_files_InrD:
  "update_files p f d = Inr d' \<Longrightarrow>
   d' = d\<lparr>t_files := sql_update p f (t_files d)\<rparr> \<and> files_ok (sql_update p f (t_files d))"
  by (auto simp: update_files_def Let_def split: if_splits)

lemma insert_file_InrD:
  "insert_file row d = Inr d' \<Longrightarrow> d' = d\<lparr>t_files := t_files d @ [row]\<rparr> \<and> files_ok (t_files d @ [row])"
  by (auto simp: insert_file_def Let_def split: if_splits)

text \<open>A failing transaction changes nothing, whatever it had written.\<close>

lemma run_tx_rollback: "fst (run_tx t d) = Inl e \<Longrightarrow> snd (run_tx t d) = d"
  by (auto simp: run_tx_def split: sum.splits)

lemma run_tx_inv:
  assumes "P d" and "\<And>a d'. t d = Inr (a, d') \<Longrightarrow> P d'"
  shows "P (snd (run_tx t d))"
  using assms by (auto simp: run_tx_def split: sum.splits)

lemma wf_run_tx: "wf_db d \<Longrightarrow> (\<And>a d'. t d = Inr (a, d') \<Longrightarrow> wf_db d') \<Longrightarrow> wf_db (snd (run_tx t d))"
  by (rule run_tx_inv)

section \<open>Tables addressed by their primary key\<close>

locale keyed_table =
  fixes key :: "'r \<Rightarrow> 'k"
    and rows :: "'d \<Rightarrow> 'r list"
    and set_rows :: "'r list \<Rightarrow> 'd \<Rightarrow> 'd"
    and invar :: "'d \<Rightarrow> bool"
  assumes rows_set_rows: "rows (set_rows rs d) = rs"
    and set_rows_same: "set_rows (rows d) d = d"
    and key_distinct: "invar d \<Longrightarrow> distinct (map key (rows d))"
begin

lemma same_key: "invar d \<Longrightarrow> r \<in> set (rows d) \<Longrightarrow> r' \<in> set (rows d) \<Longrightarrow> key r = key r' \<Longrightarrow> r = r'"
  by (rule key_unique[OF key_distinct])

lemma find_iff:
  "invar d \<Longrightarrow> sql_first (\<lambda>r. key r = k) (rows d) = Some r \<longleftrightarrow> r \<in> set (rows d) \<and> key r = k"
  by (rule sql_first_key_iff[OF key_distinct])

lemma find_None: "sql_first (\<lambda>r. key r = k) (rows d) = None \<longleftrightarrow> k \<notin> key ` set (rows d)"
  by (auto simp: sql_first_None_iff)

lemma find_after_delete:
  "sql_first (\<lambda>r. key r = k') (rows (set_rows (sql_delete (\<lambda>r. key r = k) (rows d)) d)) =
   (if k' = k then None else sql_first (\<lambda>r. key r = k') (rows d))"
  by (auto simp: rows_set_rows sql_first_None_iff set_sql_delete intro!: sql_first_delete)

end

text \<open>
  The compare-and-set statements: UPDATE .. SET effect WHERE key = ?1 AND guard, answering
  whether one row was changed.  Such a claim succeeds exactly when the row of that key
  satisfies the guard, and it changes no other row.
\<close>

locale row_claim = keyed_table key rows set_rows invar
  for key :: "'r \<Rightarrow> 'k" and rows :: "'d \<Rightarrow> 'r list" and set_rows and invar +
  fixes target :: "'a \<Rightarrow> 'k"
    and guard :: "'a \<Rightarrow> 'd \<Rightarrow> 'r \<Rightarrow> bool"
    and effect :: "'a \<Rightarrow> 'r \<Rightarrow> 'r"
    and claim :: "'a \<Rightarrow> 'd \<Rightarrow> bool \<times> 'd"
  assumes claim_eq: "claim a d =
      (sql_count (guard a d) (rows d) = 1, set_rows (sql_update (guard a d) (effect a) (rows d)) d)"
    and guard_target: "guard a d r \<Longrightarrow> key r = target a"
    and effect_key: "key (effect a r) = key r"
begin

lemma claim_true_iff: "invar d \<Longrightarrow> fst (claim a d) \<longleftrightarrow> (\<exists>r\<in>set (rows d). guard a d r)"
  using sql_count_key[OF key_distinct, of d "guard a d" "target a"] guard_target
  by (auto simp: claim_eq)

lemma claim_refused: "invar d \<Longrightarrow> \<not> fst (claim a d) \<Longrightarrow> snd (claim a d) = d"
  using claim_true_iff[of d a] by (simp add: claim_eq sql_update_none set_rows_same)

lemma claim_granted:
  assumes "invar d" "fst (claim a d)"
  shows "\<exists>r\<in>set (rows d). key r = target a \<and> guard a d r \<and>
    sql_first (\<lambda>r. key r = target a) (rows (snd (claim a d))) = Some (effect a r)"
proof -
  obtain r where r: "r \<in> set (rows d)" "guard a d r"
    using claim_true_iff assms by blast
  then have k: "key r = target a" by (simp add: guard_target)
  have "sql_first (\<lambda>r. key r = target a) (rows d) = Some r"
    using find_iff[OF assms(1)] r k by blast
  then have "sql_first (\<lambda>r. key r = target a) (rows (snd (claim a d))) = Some (effect a r)"
    using r by (simp add: claim_eq rows_set_rows sql_first_update_key effect_key)
  with r k show ?thesis by blast
qed

lemma claim_others:
  assumes "k \<noteq> target a"
  shows "sql_first (\<lambda>r. key r = k) (rows (snd (claim a d))) = sql_first (\<lambda>r. key r = k) (rows d)"
proof (cases "sql_first (\<lambda>r. key r = k) (rows d)")
  case None
  then show ?thesis by (simp add: claim_eq rows_set_rows sql_first_update_key effect_key)
next
  case (Some r)
  with assms have "\<not> guard a d r" using guard_target sql_first_SomeD[OF Some] by auto
  with Some show ?thesis by (simp add: claim_eq rows_set_rows sql_first_update_key effect_key)
qed

end

interpretation files_table: keyed_table f_remote_id t_files "\<lambda>rs. t_files_update (\<lambda>_. rs)" wf_db
  by unfold_locales (simp_all add: wf_db_def files_ok_def)

interpretation files_by_path: keyed_table f_path t_files "\<lambda>rs. t_files_update (\<lambda>_. rs)" wf_db
  by unfold_locales (simp_all add: wf_db_def files_ok_def)

interpretation deletes_table: keyed_table d_remote_id t_deletes "\<lambda>rs. t_deletes_update (\<lambda>_. rs)" wf_db
  by unfold_locales (simp_all add: wf_db_def)

interpretation ops_table: keyed_table o_local_id t_ops "\<lambda>rs. t_ops_update (\<lambda>_. rs)" wf_db
  by unfold_locales (simp_all add: wf_db_def)

interpretation app_table: keyed_table fst t_app "\<lambda>rs. t_app_update (\<lambda>_. rs)" wf_db
  by unfold_locales (simp_all add: wf_db_def)

section \<open>Read queries\<close>

definition row_to_record :: "file_row \<Rightarrow> file_record" where
  "row_to_record r =
     \<lparr>metadata = \<lparr>m_remote_id = f_remote_id r, m_path = f_path r, m_parent_path = f_parent_path r,
        m_name = f_name r, m_is_dir = f_is_dir r, m_size = f_size r,
        m_modified_unix = f_modified_unix r, m_etag = f_etag r\<rparr>,
      r_cloud_remote_id = f_cloud_remote_id r, r_local_mode = f_local_mode r,
      r_state = f_state r, r_cache_path = f_cache_path r,
      r_cache_accessed_unix = f_cache_accessed_unix r, r_pin_explicit = f_pin_explicit r,
      r_pin_origin_remote_id = f_pin_origin_remote_id r,
      r_pin_inheritance_blocked = f_pin_inheritance_blocked r\<rparr>"

lemma row_to_record_sel [simp]:
  "metadata (row_to_record r) = \<lparr>m_remote_id = f_remote_id r, m_path = f_path r,
     m_parent_path = f_parent_path r, m_name = f_name r, m_is_dir = f_is_dir r,
     m_size = f_size r, m_modified_unix = f_modified_unix r, m_etag = f_etag r\<rparr>"
  "r_cloud_remote_id (row_to_record r) = f_cloud_remote_id r"
  "r_local_mode (row_to_record r) = f_local_mode r"
  "r_state (row_to_record r) = f_state r"
  "r_cache_path (row_to_record r) = f_cache_path r"
  "r_cache_accessed_unix (row_to_record r) = f_cache_accessed_unix r"
  "r_pin_explicit (row_to_record r) = f_pin_explicit r"
  "r_pin_origin_remote_id (row_to_record r) = f_pin_origin_remote_id r"
  by (simp_all add: row_to_record_def)

definition file_by_id :: "string \<Rightarrow> db \<Rightarrow> file_row option" where
  "file_by_id remote_id d = sql_first (\<lambda>r. f_remote_id r = remote_id) (t_files d)"

definition get_by_remote_id :: "string \<Rightarrow> db \<Rightarrow> file_record option" where
  "get_by_remote_id remote_id d = map_option row_to_record (file_by_id remote_id d)"

definition get_by_path :: "string \<Rightarrow> db \<Rightarrow> file_record option" where
  "get_by_path path d =
     map_option row_to_record (sql_first (\<lambda>r. f_path r = normalize_cloud_path path) (t_files d))"

definition get_by_cloud_remote_id :: "string \<Rightarrow> db \<Rightarrow> file_record option" where
  "get_by_cloud_remote_id cloud_id d =
     map_option row_to_record (sql_first (\<lambda>r. f_cloud_remote_id r = Some cloud_id) (t_files d))"

text \<open>lower() of SQLite changes ASCII letters only.\<close>

definition ascii_lower :: "char \<Rightarrow> char" where
  "ascii_lower c = (let n = of_char c :: nat in if 65 \<le> n \<and> n \<le> 90 then char_of (n + 32) else c)"

definition list_children :: "string \<Rightarrow> db \<Rightarrow> file_record list" where
  "list_children parent_path d =
     (let normalized = normalize_cloud_path parent_path in
      map row_to_record
        (sort_key (\<lambda>r. (\<not> f_is_dir r, map ascii_lower (f_name r), f_name r))
           (filter (\<lambda>r. f_parent_path r = normalized) (t_files d))))"

text \<open>The subtree predicate of list_descendants and of the descendant scan of the upsert.\<close>

definition in_subtree :: "string \<Rightarrow> string \<Rightarrow> bool" where
  "in_subtree a path =
     ((a = ''/'' \<and> path \<noteq> ''/'' \<and> take 1 path = ''/'') \<or> (a \<noteq> ''/'' \<and> below a path))"

definition list_descendants :: "string \<Rightarrow> db \<Rightarrow> file_record list" where
  "list_descendants path d =
     (let normalized = normalize_cloud_path path in
      map row_to_record (sort_key f_path (filter (\<lambda>r. in_subtree normalized (f_path r)) (t_files d))))"

definition all_records :: "db \<Rightarrow> file_record list" where
  "all_records d = map row_to_record (sort_key f_path (t_files d))"

definition get_state_value :: "string \<Rightarrow> db \<Rightarrow> string option" where
  "get_state_value k d = map_option snd (sql_first (\<lambda>r. fst r = k) (t_app d))"

definition set_state_value :: "string \<Rightarrow> string \<Rightarrow> db \<Rightarrow> db" where
  "set_state_value k v d = d\<lparr>t_app := sql_upsert fst (\<lambda>old new. new) (k, v) (t_app d)\<rparr>"

definition delta_link :: "db \<Rightarrow> string option" where
  "delta_link d = get_state_value ''onedrive_delta_link'' d"

definition set_delta_link :: "string \<Rightarrow> db \<Rightarrow> db" where
  "set_delta_link v d = set_state_value ''onedrive_delta_link'' v d"

lemma file_by_id_iff: "wf_db d \<Longrightarrow> file_by_id i d = Some r \<longleftrightarrow> r \<in> set (t_files d) \<and> f_remote_id r = i"
  unfolding file_by_id_def by (rule files_table.find_iff)

lemma file_by_id_None: "file_by_id i d = None \<longleftrightarrow> (\<forall>r\<in>set (t_files d). f_remote_id r \<noteq> i)"
  by (simp add: file_by_id_def sql_first_None_iff)

lemma file_by_id_SomeD: "file_by_id i d = Some r \<Longrightarrow> r \<in> set (t_files d) \<and> f_remote_id r = i"
  unfolding file_by_id_def by (rule sql_first_SomeD)

lemma file_by_id_unique:
  "wf_db d \<Longrightarrow> file_by_id i d = Some r \<Longrightarrow> x \<in> set (t_files d) \<Longrightarrow> f_remote_id x = i \<Longrightarrow> x = r"
  by (metis file_by_id_iff option.inject)

lemma cloud_unique:
  assumes "wf_db d" "file_by_id i d = Some r" "file_by_id j d = Some q"
    and "f_cloud_remote_id r \<noteq> None" "f_cloud_remote_id r = f_cloud_remote_id q"
  shows "i = j"
proof -
  have "unique_cloud (t_files d)" using assms(1) by (simp add: wf_db_def files_ok_def)
  then have "f_remote_id r = f_remote_id q"
    unfolding unique_cloud_def using assms file_by_id_SomeD by blast
  then show ?thesis using file_by_id_SomeD[OF assms(2)] file_by_id_SomeD[OF assms(3)] by simp
qed

lemma file_by_id_touch:
  "(\<And>r. f_remote_id (f r) = f_remote_id r) \<Longrightarrow>
   file_by_id i (touch_files p f d) = map_option (\<lambda>r. if p r then f r else r) (file_by_id i d)"
  by (simp add: file_by_id_def sql_first_update_key)

lemma file_by_id_update:
  assumes "update_files p f d = Inr d'" "\<And>r. f_remote_id (f r) = f_remote_id r"
  shows "file_by_id i d' = map_option (\<lambda>r. if p r then f r else r) (file_by_id i d)"
  using update_files_InrD[OF assms(1)] assms(2) by (simp add: file_by_id_def sql_first_update_key)

lemma file_by_id_delete_keep:
  "file_by_id i d = Some r \<Longrightarrow> wf_db d \<Longrightarrow> \<not> p r \<Longrightarrow> file_by_id i (delete_files p d) = Some r"
  by (simp add: file_by_id_iff wf_delete_files set_sql_delete)

lemma file_by_id_delete_gone:
  "file_by_id i d = Some r \<Longrightarrow> wf_db d \<Longrightarrow> p r \<Longrightarrow> file_by_id i (delete_files p d) = None"
  by (auto simp: file_by_id_None set_sql_delete dest: file_by_id_unique)

lemma file_by_id_insert:
  assumes "insert_file row d = Inr d'"
  shows "file_by_id i d' = (if i = f_remote_id row then Some row else file_by_id i d)"
proof -
  have d': "d' = d\<lparr>t_files := t_files d @ [row]\<rparr>" and ok: "files_ok (t_files d @ [row])"
    using insert_file_InrD[OF assms] by auto
  have "file_by_id (f_remote_id row) d = None"
  proof -
    have "f_remote_id row \<notin> f_remote_id ` set (t_files d)" using ok by (simp add: files_ok_def)
    then show ?thesis unfolding file_by_id_None by (metis image_eqI)
  qed
  then show ?thesis by (auto simp: d' file_by_id_def sql_first_append split: option.splits)
      (auto simp: sql_first_def)
qed

lemma get_set_state_value: "get_state_value k' (set_state_value k v d) =
    (if k' = k then Some v else get_state_value k' d)"
proof (cases "k \<in> fst ` set (t_app d)")
  case False
  then have "sql_first (\<lambda>r. fst r = k) (t_app d) = None" by (auto simp: sql_first_None_iff)
  with False show ?thesis
    by (auto simp: get_state_value_def set_state_value_def sql_upsert_def sql_first_append
        split: option.splits) (auto simp: sql_first_def)
next
  case True
  then have upd: "t_app (set_state_value k v d) = sql_update (\<lambda>r. fst r = k) (\<lambda>_. (k, v)) (t_app d)"
    by (simp add: set_state_value_def sql_upsert_def)
  have find: "sql_first (\<lambda>r. fst r = k') (t_app (set_state_value k v d)) =
      map_option (\<lambda>r. if fst r = k then (k, v) else r) (sql_first (\<lambda>r. fst r = k') (t_app d))"
    unfolding upd by (rule sql_first_update_key) simp
  show ?thesis
  proof (cases "sql_first (\<lambda>r. fst r = k') (t_app d)")
    case None
    with True have "k' \<noteq> k" by (auto simp: sql_first_None_iff)
    with None find show ?thesis by (simp add: get_state_value_def)
  next
    case (Some w)
    with find sql_first_SomeD[OF Some] show ?thesis by (simp add: get_state_value_def)
  qed
qed

lemma wf_set_state_value [wf_intros]: "wf_db d \<Longrightarrow> wf_db (set_state_value k v d)"
  by (simp add: wf_db_def set_state_value_def distinct_sql_upsert)

section \<open>A small database\<close>

text \<open>
  The concrete database the examples of the development evaluate: a folder with an edited file,
  a cached file and a local file the cloud has not seen.
\<close>

definition sample_row :: "string \<Rightarrow> string option \<Rightarrow> string \<Rightarrow> string option \<Rightarrow> file_state \<Rightarrow> file_row" where
  "sample_row i cloud path cache st =
     blank_row\<lparr>f_remote_id := i, f_cloud_remote_id := cloud, f_path := path,
       f_parent_path := parent_cloud_path path, f_name := cloud_name path, f_size := 3,
       f_modified_unix := 7, f_etag := ''e1'', f_state := st, f_cache_path := cache\<rparr>"

definition sample_db :: db where
  "sample_db =
     empty_db\<lparr>t_files :=
       [(sample_row ''d1'' (Some ''d1'') ''/D'' None Cached)\<lparr>f_is_dir := True\<rparr>,
        sample_row ''f1'' (Some ''f1'') ''/D/a'' (Some ''/c/f1'') Dirty,
        sample_row ''f2'' (Some ''f2'') ''/D/b'' (Some ''/c/f2'') Cached,
        sample_row ''l1'' None ''/D/t'' (Some ''/c/l1'') Dirty]\<rparr>"

end
