(* ===== verification/Pins.thy ===== *)
theory Pins
  imports Store
begin

text \<open>
  crates/twodrive-core/src/database/pins.rs: the pin policy.  A row is pinned explicitly, or
  through the nearest explicitly pinned ancestor unless inheritance is blocked for it.
  recompute_pin_inheritance rewrites the derived columns of every row; the theory shows that
  its row-by-row loop is one simultaneous update, that the origin it stores is the nearest
  explicit ancestor, that running it twice is running it once, and what pinning does.
\<close>

section \<open>Operations\<close>

text \<open>The loop of recompute_pin_inheritance from a starting ancestor to the root.\<close>

function find_origin :: "(string \<Rightarrow> string option) \<Rightarrow> string \<Rightarrow> string option" where
  "find_origin explicit_roots ancestor =
     (case explicit_roots ancestor of
        Some remote_id \<Rightarrow> Some remote_id
      | None \<Rightarrow>
          if ancestor = ''/'' then None
          else find_origin explicit_roots (parent_cloud_path ancestor))"
  by pat_completeness auto
termination
  by (relation "measure (\<lambda>(_, a). walk_measure a)") (auto intro: walk_measure_parent)

declare find_origin.simps [simp del]

definition explicit_roots :: "file_row list \<Rightarrow> string \<Rightarrow> string option" where
  "explicit_roots records =
     map_of (rev (map (\<lambda>r. (f_path r, f_remote_id r)) (filter f_pin_explicit records)))"

definition pin_origin :: "(string \<Rightarrow> string option) \<Rightarrow> file_row \<Rightarrow> string option" where
  "pin_origin roots r =
     (if f_pin_explicit r \<or> f_pin_inheritance_blocked r then None
      else find_origin roots (parent_cloud_path (f_path r)))"

text \<open>The CASE expression that derives the state column.\<close>

definition pin_state :: "bool \<Rightarrow> file_row \<Rightarrow> file_state" where
  "pin_state effective r =
     (if f_state r \<in> {Writing, Dirty, Uploading, Conflict, ErrorState} then f_state r
      else if effective \<and> f_is_dir r then Pinned
      else if effective \<and> f_cache_path r \<noteq> None then Pinned
      else if effective then Hydrating
      else if f_cache_path r \<noteq> None then Cached
      else OnlineOnly)"

definition repin :: "string option \<Rightarrow> bool \<Rightarrow> file_row \<Rightarrow> file_row" where
  "repin origin effective r =
     r\<lparr>f_pin_origin_remote_id := origin,
       f_release_pending := (if effective then False else f_release_pending r),
       f_state := pin_state effective r\<rparr>"

definition recompute_pin_inheritance :: "db \<Rightarrow> db" where
  "recompute_pin_inheritance d =
     (let records = sort_key (\<lambda>r. (length (f_path r), f_path r)) (t_files d);
          roots = explicit_roots records in
      foldl (\<lambda>d' record.
          let origin = pin_origin roots record;
              effective = f_pin_explicit record \<or> origin \<noteq> None in
          touch_files (\<lambda>r. f_remote_id r = f_remote_id record) (repin origin effective) d')
        d records)"

definition tx_set_explicit_pin :: "string \<Rightarrow> bool \<Rightarrow> unit tx" where
  "tx_set_explicit_pin remote_id pinned d =
     (case file_by_id remote_id d of
        None \<Rightarrow> Inl (UnknownItem remote_id)
      | Some record \<Rightarrow>
          if sql_count (\<lambda>r. f_remote_id r = remote_id) (t_files d) = 0 then Inl (UnknownItem remote_id)
          else
            let d1 = touch_files (\<lambda>r. f_remote_id r = remote_id)
                  (\<lambda>r. r\<lparr>f_pin_explicit := pinned,
                       f_pin_inheritance_blocked :=
                         (if pinned then False else f_pin_inheritance_blocked r)\<rparr>) d;
                d2 = (if pinned \<and> f_is_dir record
                      then touch_files (\<lambda>r. below (f_path record) (f_path r))
                             (\<lambda>r. r\<lparr>f_pin_inheritance_blocked := False\<rparr>) d1
                      else d1)
            in Inr ((), d2))"

text \<open>A transaction followed by the recomputation, which runs in a transaction of its own.\<close>

definition then_recompute :: "(db_error + 'a) \<times> db \<Rightarrow> (db_error + 'a) \<times> db" where
  "then_recompute res =
     (case res of
        (Inl e, d) \<Rightarrow> (Inl e, d)
      | (Inr a, d) \<Rightarrow> (Inr a, recompute_pin_inheritance d))"

definition set_explicit_pin :: "string \<Rightarrow> bool \<Rightarrow> db \<Rightarrow> (db_error + unit) \<times> db" where
  "set_explicit_pin remote_id pinned d = then_recompute (run_tx (tx_set_explicit_pin remote_id pinned) d)"

definition mark_pinned :: "string \<Rightarrow> db \<Rightarrow> (db_error + unit) \<times> db" where
  "mark_pinned remote_id d = set_explicit_pin remote_id True d"

definition mark_unpinned :: "string \<Rightarrow> db \<Rightarrow> (db_error + unit) \<times> db" where
  "mark_unpinned remote_id d = set_explicit_pin remote_id False d"

definition allow_pin_inheritance :: "string \<Rightarrow> db \<Rightarrow> (db_error + unit) \<times> db" where
  "allow_pin_inheritance remote_id d =
     (case file_by_id remote_id d of
        None \<Rightarrow> (Inl (UnknownItem remote_id), d)
      | Some record \<Rightarrow>
          (Inr (), recompute_pin_inheritance
             (touch_files (\<lambda>r. f_remote_id r = remote_id \<or> below (f_path record) (f_path r))
                (\<lambda>r. r\<lparr>f_pin_inheritance_blocked := False\<rparr>) d)))"

section \<open>The loop is a simultaneous update\<close>

definition repin_row :: "file_row list \<Rightarrow> file_row \<Rightarrow> file_row" where
  "repin_row rows r =
     (let origin = pin_origin (explicit_roots rows) r in
      repin origin (f_pin_explicit r \<or> origin \<noteq> None) r)"

lemma repin_keys [simp]:
  "f_remote_id (repin orig e r) = f_remote_id r" "f_path (repin orig e r) = f_path r"
  "f_cloud_remote_id (repin orig e r) = f_cloud_remote_id r"
  "f_pin_explicit (repin orig e r) = f_pin_explicit r"
  "f_pin_inheritance_blocked (repin orig e r) = f_pin_inheritance_blocked r"
  "f_is_dir (repin orig e r) = f_is_dir r" "f_cache_path (repin orig e r) = f_cache_path r"
  "f_size (repin orig e r) = f_size r" "f_etag (repin orig e r) = f_etag r"
  "f_modified_unix (repin orig e r) = f_modified_unix r"
  "f_upload_path (repin orig e r) = f_upload_path r"
  "f_upload_cache_path (repin orig e r) = f_upload_cache_path r"
  "f_upload_target_id (repin orig e r) = f_upload_target_id r"
  "f_download_generation (repin orig e r) = f_download_generation r"
  "f_local_mode (repin orig e r) = f_local_mode r"
  "f_parent_path (repin orig e r) = f_parent_path r" "f_name (repin orig e r) = f_name r"
  "f_pin_origin_remote_id (repin orig e r) = orig"
  by (simp_all add: repin_def)

lemma repin_row_keys [simp]:
  "f_remote_id (repin_row rows r) = f_remote_id r" "f_path (repin_row rows r) = f_path r"
  "f_cloud_remote_id (repin_row rows r) = f_cloud_remote_id r"
  "f_pin_explicit (repin_row rows r) = f_pin_explicit r"
  "f_pin_inheritance_blocked (repin_row rows r) = f_pin_inheritance_blocked r"
  "f_is_dir (repin_row rows r) = f_is_dir r" "f_cache_path (repin_row rows r) = f_cache_path r"
  "f_size (repin_row rows r) = f_size r" "f_etag (repin_row rows r) = f_etag r"
  "f_modified_unix (repin_row rows r) = f_modified_unix r"
  "f_upload_path (repin_row rows r) = f_upload_path r"
  "f_upload_cache_path (repin_row rows r) = f_upload_cache_path r"
  "f_upload_target_id (repin_row rows r) = f_upload_target_id r"
  "f_download_generation (repin_row rows r) = f_download_generation r"
  "f_local_mode (repin_row rows r) = f_local_mode r"
  "f_parent_path (repin_row rows r) = f_parent_path r" "f_name (repin_row rows r) = f_name r"
  "f_pin_origin_remote_id (repin_row rows r) = pin_origin (explicit_roots rows) r"
  by (simp_all add: repin_row_def Let_def)

lemma foldl_touch_files:
  "foldl (\<lambda>d' x. touch_files (p x) (g x) d') d xs =
   d\<lparr>t_files := foldl (\<lambda>rows x. sql_update (p x) (g x) rows) (t_files d) xs\<rparr>"
  by (induction xs arbitrary: d) (simp_all add: touch_files_def)

text \<open>Paths are unique, so the map of explicit roots does not depend on the order of the rows.\<close>

lemma explicit_roots_Some:
  assumes "distinct (map f_path rows)"
  shows "explicit_roots rows p = Some i \<longleftrightarrow>
    (\<exists>r\<in>set rows. f_pin_explicit r \<and> f_path r = p \<and> f_remote_id r = i)"
proof -
  let ?ps = "rev (map (\<lambda>r. (f_path r, f_remote_id r)) (filter f_pin_explicit rows))"
  have "distinct (map fst ?ps)"
    using assms by (simp add: rev_map[symmetric] comp_def distinct_map_filter)
  then have "map_of ?ps p = Some i \<longleftrightarrow> (p, i) \<in> set ?ps" by (rule map_of_eq_Some_iff)
  then show ?thesis by (auto simp: explicit_roots_def)
qed

lemma explicit_roots_cong:
  assumes "distinct (map f_path rows)" "distinct (map f_path rows')" "set rows = set rows'"
  shows "explicit_roots rows = explicit_roots rows'"
proof
  fix p
  have "explicit_roots rows p = Some i \<longleftrightarrow> explicit_roots rows' p = Some i" for i
    using explicit_roots_Some[OF assms(1), of p i] explicit_roots_Some[OF assms(2), of p i] assms(3)
    by simp
  then show "explicit_roots rows p = explicit_roots rows' p"
    by (metis option.exhaust)
qed

lemma recompute_eq:
  assumes "wf_db d"
  shows "recompute_pin_inheritance d = d\<lparr>t_files := map (repin_row (t_files d)) (t_files d)\<rparr>"
proof -
  let ?rs = "sort_key (\<lambda>r. (length (f_path r), f_path r)) (t_files d)"
  have d: "distinct (map f_remote_id (t_files d))" "distinct (map f_path (t_files d))"
    using assms by (simp_all add: wf_db_def files_ok_def)
  have dr: "distinct (map f_remote_id ?rs)" "distinct (map f_path ?rs)"
    using d by (simp_all add: distinct_map)
  have roots: "explicit_roots ?rs = explicit_roots (t_files d)"
    by (rule explicit_roots_cong[OF dr(2) d(2)]) simp
  let ?g = "\<lambda>x. let origin = pin_origin (explicit_roots ?rs) x
                in repin origin (f_pin_explicit x \<or> origin \<noteq> None)"
  have "foldl (\<lambda>rows x. sql_update (\<lambda>r. f_remote_id r = f_remote_id x) (?g x) rows) (t_files d) ?rs
      = map (\<lambda>r. ?g r r) (t_files d)"
    by (rule foldl_update_snapshot[OF d(1) dr(1)]) (simp_all add: Let_def)
  then show ?thesis
    unfolding recompute_pin_inheritance_def Let_def
    by (subst foldl_touch_files) (simp add: Let_def roots repin_row_def[abs_def])
qed

lemma recompute_tables [simp]:
  "t_deletes (recompute_pin_inheritance d) = t_deletes d"
  "t_ops (recompute_pin_inheritance d) = t_ops d"
  "t_retired (recompute_pin_inheritance d) = t_retired d"
  "t_app (recompute_pin_inheritance d) = t_app d"
  unfolding recompute_pin_inheritance_def Let_def by (subst foldl_touch_files, simp)+

lemma t_files_recompute: "wf_db d \<Longrightarrow>
    t_files (recompute_pin_inheritance d) = map (repin_row (t_files d)) (t_files d)"
  by (simp add: recompute_eq)

lemma wf_recompute [wf_intros]: "wf_db d \<Longrightarrow> wf_db (recompute_pin_inheritance d)"
proof -
  assume w: "wf_db d"
  have "files_ok (map (repin_row (t_files d)) (t_files d))"
    using w files_ok_update[of "t_files d" "repin_row (t_files d)" "\<lambda>_. True"]
    by (simp add: wf_db_def sql_update_def)
  with w show ?thesis by (simp add: recompute_eq wf_db_def)
qed

lemma file_by_id_recompute:
  assumes "wf_db d"
  shows "file_by_id i (recompute_pin_inheritance d) = map_option (repin_row (t_files d)) (file_by_id i d)"
  using sql_first_update_key[of "\<lambda>_. True" f_remote_id "repin_row (t_files d)" i "t_files d"]
  by (simp add: file_by_id_def t_files_recompute[OF assms] sql_update_def)

section \<open>The origin is the nearest explicit ancestor\<close>

lemma find_origin_spec:
  "find_origin roots a = Option.bind (List.find (\<lambda>q. roots q \<noteq> None) (a # ancestors a)) roots"
proof (induction roots a rule: find_origin.induct)
  case (1 roots a)
  show ?case
  proof (cases "roots a = None \<and> a \<noteq> ''/''")
    case True
    then have "find_origin roots a = find_origin roots (parent_cloud_path a)"
      by (simp add: find_origin.simps[of roots a])
    also have "\<dots> = Option.bind (List.find (\<lambda>q. roots q \<noteq> None)
        (parent_cloud_path a # ancestors (parent_cloud_path a))) roots"
      using 1 True by simp
    also have "parent_cloud_path a # ancestors (parent_cloud_path a) = ancestors a"
      using True by (simp add: ancestors.simps[of a])
    finally show ?thesis using True by simp
  next
    case False
    then show ?thesis by (auto simp: find_origin.simps[of roots a])
  qed
qed

lemma pin_origin_spec:
  assumes "f_path r \<noteq> ''/''" "\<not> f_pin_explicit r" "\<not> f_pin_inheritance_blocked r"
  shows "pin_origin roots r =
    Option.bind (List.find (\<lambda>q. roots q \<noteq> None) (ancestors (f_path r))) roots"
  using assms by (simp add: pin_origin_def find_origin_spec ancestors.simps[of "f_path r"])

lemma pin_origin_iff:
  assumes "distinct (map f_path rows)" "f_path r \<noteq> ''/''"
    "\<not> f_pin_explicit r" "\<not> f_pin_inheritance_blocked r"
  shows "pin_origin (explicit_roots rows) r \<noteq> None \<longleftrightarrow>
    (\<exists>a\<in>set rows. f_pin_explicit a \<and> f_path a \<in> set (ancestors (f_path r)))"
proof -
  let ?P = "\<lambda>q. explicit_roots rows q \<noteq> None"
  have "pin_origin (explicit_roots rows) r \<noteq> None \<longleftrightarrow> (\<exists>q\<in>set (ancestors (f_path r)). ?P q)"
    by (simp only: pin_origin_spec[OF assms(2-4)] find_bind_iff)
  also have "\<dots> \<longleftrightarrow> (\<exists>a\<in>set rows. f_pin_explicit a \<and> f_path a \<in> set (ancestors (f_path r)))"
    using explicit_roots_Some[OF assms(1)] by (auto simp: not_None_eq)
  finally show ?thesis .
qed

section \<open>Idempotence\<close>

lemma repin_idem: "repin orig e (repin orig e r) = repin orig e r"
  by (auto simp: repin_def pin_state_def)

lemma explicit_roots_repin: "explicit_roots (map (repin_row rows) rows') = explicit_roots rows'"
  by (simp add: explicit_roots_def filter_map comp_def)

lemma pin_origin_repin [simp]: "pin_origin roots (repin_row rows r) = pin_origin roots r"
  by (simp add: pin_origin_def)

lemma repin_row_idem: "repin_row (map (repin_row rows) rows) (repin_row rows r) = repin_row rows r"
proof -
  let ?o = "pin_origin (explicit_roots rows) r"
  have "repin_row (map (repin_row rows) rows) (repin_row rows r) =
      repin ?o (f_pin_explicit r \<or> ?o \<noteq> None) (repin_row rows r)"
    unfolding repin_row_def[of "map (repin_row rows) rows"] explicit_roots_repin
    by (simp add: Let_def)
  also have "\<dots> = repin_row rows r" by (simp add: repin_row_def Let_def repin_idem)
  finally show ?thesis .
qed

lemma recompute_idem:
  assumes "wf_db d"
  shows "recompute_pin_inheritance (recompute_pin_inheritance d) = recompute_pin_inheritance d"
  by (subst recompute_eq[OF wf_recompute[OF assms]]) (simp add: recompute_eq[OF assms] repin_row_idem)

section \<open>Local work survives the policy\<close>

lemma repin_row_local_work: "local_work (f_state (repin_row rows r)) = local_work (f_state r)"
  by (auto simp: repin_row_def repin_def Let_def pin_state_def local_work_def)

lemma repin_row_state: "local_work (f_state r) \<Longrightarrow> f_state (repin_row rows r) = f_state r"
  by (auto simp: repin_row_def repin_def Let_def pin_state_def local_work_def)

lemma wf_then_recompute: "wf_db (snd res) \<Longrightarrow> wf_db (snd (then_recompute res))"
  by (auto simp: then_recompute_def wf_recompute split: sum.splits prod.splits)

lemma wf_tx_set_explicit_pin: "wf_db d \<Longrightarrow> tx_set_explicit_pin i b d = Inr (a, d') \<Longrightarrow> wf_db d'"
  by (auto simp: tx_set_explicit_pin_def Let_def intro!: wf_touch_files split: option.splits if_splits)

lemma wf_set_explicit_pin: "wf_db d \<Longrightarrow> wf_db (snd (set_explicit_pin i b d))"
  unfolding set_explicit_pin_def
  by (rule wf_then_recompute, rule wf_run_tx) (auto intro: wf_tx_set_explicit_pin)

lemma wf_allow_pin_inheritance: "wf_db d \<Longrightarrow> wf_db (snd (allow_pin_inheritance i d))"
  by (auto simp: allow_pin_inheritance_def intro!: wf_recompute wf_touch_files split: option.splits)

section \<open>Pinning\<close>

lemma set_explicit_pin_ok:
  assumes "wf_db d" "file_by_id i d = Some r"
  shows "fst (set_explicit_pin i b d) = Inr ()"
  using assms file_by_id_SomeD[OF assms(2)]
  by (auto simp: set_explicit_pin_def run_tx_def tx_set_explicit_pin_def then_recompute_def
      sql_count_0 Let_def split: sum.splits)

lemma set_explicit_pin_unknown:
  "file_by_id i d = None \<Longrightarrow> set_explicit_pin i b d = (Inl (UnknownItem i), d)"
  by (simp add: set_explicit_pin_def run_tx_def tx_set_explicit_pin_def then_recompute_def)

text \<open>The row of an item before the recomputation of a pin.\<close>

lemma pin_folder_rows:
  assumes "wf_db d" "file_by_id i d = Some folder" "f_is_dir folder"
  shows "snd (set_explicit_pin i True d) =
    recompute_pin_inheritance
      (touch_files (\<lambda>r. below (f_path folder) (f_path r)) (\<lambda>r. r\<lparr>f_pin_inheritance_blocked := False\<rparr>)
        (touch_files (\<lambda>r. f_remote_id r = i)
          (\<lambda>r. r\<lparr>f_pin_explicit := True, f_pin_inheritance_blocked := False\<rparr>) d))"
  using assms file_by_id_SomeD[OF assms(2)]
  by (auto simp: set_explicit_pin_def run_tx_def tx_set_explicit_pin_def then_recompute_def
      sql_count_0 Let_def split: sum.splits)

lemma pin_folder_covers:
  assumes wf: "wf_db d" and folder: "file_by_id i d = Some folder" "f_is_dir folder"
    and item: "file_by_id j d = Some r"
    and paths: "f_path folder = path_of cs" "f_path r = path_of ds"
      "list_all clean_name cs" "list_all clean_name ds" "cs \<noteq> []" "strict_prefix cs ds"
  shows "\<exists>r'. file_by_id j (snd (set_explicit_pin i True d)) = Some r' \<and>
    (f_pin_explicit r' \<or> f_pin_origin_remote_id r' \<noteq> None)"
proof -
  let ?d1 = "touch_files (\<lambda>r. f_remote_id r = i)
          (\<lambda>r. r\<lparr>f_pin_explicit := True, f_pin_inheritance_blocked := False\<rparr>) d"
  let ?d2 = "touch_files (\<lambda>r. below (f_path folder) (f_path r))
          (\<lambda>r. r\<lparr>f_pin_inheritance_blocked := False\<rparr>) ?d1"
  have wf2: "wf_db ?d2" by (intro wf_touch_files wf) simp_all
  have below: "below (f_path folder) (f_path r)" and anc: "f_path folder \<in> set (ancestors (f_path r))"
    using below_path_of[OF paths(3-5)] set_ancestors_path_of[OF paths(3-5)] paths by simp_all
  obtain r2 where r2: "file_by_id j ?d2 = Some r2" "f_path r2 = f_path r"
      "\<not> f_pin_inheritance_blocked r2"
    using item below by (auto simp: file_by_id_touch)
  obtain f2 where "file_by_id i ?d2 = Some f2" and f2: "f_pin_explicit f2" "f_path f2 = f_path folder"
    using folder file_by_id_SomeD[OF folder(1)] by (auto simp: file_by_id_touch)
  then have f2_in: "f2 \<in> set (t_files ?d2)" using file_by_id_SomeD by blast
  have "f_path r \<noteq> ''/''" using anc by auto
  then have "\<not> f_pin_explicit r2 \<Longrightarrow> pin_origin (explicit_roots (t_files ?d2)) r2 \<noteq> None"
    using pin_origin_iff[of "t_files ?d2" r2] wf2 r2 f2 f2_in anc
    by (auto simp: wf_db_def files_ok_def)
  then show ?thesis
    using pin_folder_rows[OF wf folder] file_by_id_recompute[OF wf2, of j] r2(1) by auto
qed


section \<open>Properties\<close>

text \<open>After every recomputation an item inherits a pin exactly when it is not pinned itself,
  does not block inheritance and has an explicitly pinned ancestor, and it is never waiting for a
  release while it is pinned; recomputing again changes nothing.\<close>

lemma pin_inherited_from_ancestor:
  assumes wf: "wf_db d" and r: "file_by_id i (recompute_pin_inheritance d) = Some r" "f_path r \<noteq> ''/''"
  shows "(f_pin_origin_remote_id r \<noteq> None \<longleftrightarrow>
      \<not> f_pin_explicit r \<and> \<not> f_pin_inheritance_blocked r \<and>
      (\<exists>a\<in>set (t_files d). f_pin_explicit a \<and> f_path a \<in> set (ancestors (f_path r)))) \<and>
    (f_pin_explicit r \<or> f_pin_origin_remote_id r \<noteq> None \<longrightarrow> \<not> f_release_pending r) \<and>
    recompute_pin_inheritance (recompute_pin_inheritance d) = recompute_pin_inheritance d"
proof -
  from r(1) obtain q where q: "file_by_id i d = Some q" "r = repin_row (t_files d) q"
    by (auto simp: file_by_id_recompute[OF wf])
  have org: "f_pin_origin_remote_id r = pin_origin (explicit_roots (t_files d)) q"
    by (simp add: q repin_row_def repin_def Let_def)
  have same: "f_path q = f_path r" "f_pin_explicit q = f_pin_explicit r"
      "f_pin_inheritance_blocked q = f_pin_inheritance_blocked r"
    by (simp_all add: q)
  have "distinct (map f_path (t_files d))" using wf by (simp add: wf_db_def files_ok_def)
  from pin_origin_iff[OF this, of q] r(2) same
  have "\<not> f_pin_explicit r \<Longrightarrow> \<not> f_pin_inheritance_blocked r \<Longrightarrow> f_pin_origin_remote_id r \<noteq> None \<longleftrightarrow>
      (\<exists>a\<in>set (t_files d). f_pin_explicit a \<and> f_path a \<in> set (ancestors (f_path r)))"
    by (simp add: org)
  moreover have "f_pin_explicit r \<or> f_pin_inheritance_blocked r \<Longrightarrow> f_pin_origin_remote_id r = None"
    using same by (auto simp: org pin_origin_def)
  moreover have "f_pin_explicit r \<or> f_pin_origin_remote_id r \<noteq> None \<Longrightarrow> \<not> f_release_pending r"
    by (auto simp: q repin_row_def repin_def Let_def)
  ultimately show ?thesis
    using recompute_idem[OF wf] by (cases "f_pin_explicit r \<or> f_pin_inheritance_blocked r") auto
qed

lemma pin_inherited_from_ancestor_witness:
  "\<exists>r. file_by_id ''f2'' (recompute_pin_inheritance
      (touch_files (\<lambda>r. f_remote_id r = ''d1'') (\<lambda>r. r\<lparr>f_pin_explicit := True\<rparr>) sample_db)) = Some r \<and>
    f_pin_origin_remote_id r \<noteq> None"
proof -
  let ?d = "touch_files (\<lambda>r. f_remote_id r = ''d1'') (\<lambda>r. r\<lparr>f_pin_explicit := True\<rparr>) sample_db"
  let ?r = "repin_row (t_files ?d) (sample_row ''f2'' (Some ''f2'') ''/D/b'' (Some ''/c/f2'') Cached)"
  have "wf_db ?d" "file_by_id ''f2'' (recompute_pin_inheritance ?d) = Some ?r" "f_path ?r \<noteq> ''/''"
    "\<not> f_pin_explicit ?r" "\<not> f_pin_inheritance_blocked ?r"
    "\<exists>a\<in>set (t_files ?d). f_pin_explicit a \<and> f_path a \<in> set (ancestors (f_path ?r))"
    by code_simp+
  then show ?thesis using pin_inherited_from_ancestor[of ?d "''f2''" ?r] by blast
qed

text \<open>Keeping a folder reaches every item below it: after the request each descendant is
  pinned itself or inherits the pin, whatever was blocked before.\<close>

lemma pin_folder_reaches_all:
  assumes "wf_db d" "file_by_id i d = Some folder" "f_is_dir folder" "file_by_id j d = Some r"
    and "f_path folder = path_of cs" "f_path r = path_of ds"
    and "list_all clean_name cs" "list_all clean_name ds" "cs \<noteq> []" "strict_prefix cs ds"
  shows "\<exists>r'. file_by_id j (snd (set_explicit_pin i True d)) = Some r' \<and>
    (f_pin_explicit r' \<or> f_pin_origin_remote_id r' \<noteq> None)"
  by (rule pin_folder_covers[OF assms])

lemma pin_folder_reaches_all_witness:
  "\<exists>r'. file_by_id ''f2'' (snd (set_explicit_pin ''d1'' True sample_db)) = Some r' \<and>
    (f_pin_explicit r' \<or> f_pin_origin_remote_id r' \<noteq> None)"
  by (rule pin_folder_reaches_all[where cs = "[''D'']" and ds = "[''D'', ''b'']" and
      folder = "(sample_row ''d1'' (Some ''d1'') ''/D'' None Cached)\<lparr>f_is_dir := True\<rparr>" and
      r = "sample_row ''f2'' (Some ''f2'') ''/D/b'' (Some ''/c/f2'') Cached"])
    (code_simp | simp add: strict_prefix_def prefix_def)+

end
