(* ===== verification/Cache.thy ===== *)
theory Cache
  imports Pins
begin

text \<open>
  crates/twodrive-core/src/database/cache.rs: claims on cached bytes, hydration, release and
  reclamation.  The operations read and change the database and the cache files on disk; the
  disk is a map from paths to nodes that records what the file system calls of the code can
  observe (kind, length, whether opening, locking or removing the file succeeds).
\<close>

section \<open>The disk\<close>

datatype access = Free | Locked | LockFails | OpenFails | RemoveFails

datatype node = RegularFile u64 access | Directory u64 | Faulty

type_synonym disk = "string \<Rightarrow> node option"

definition node_len :: "node \<Rightarrow> u64" where
  "node_len n = (case n of RegularFile len _ \<Rightarrow> len | Directory len \<Rightarrow> len | Faulty \<Rightarrow> 0)"

definition is_regular :: "node \<Rightarrow> bool" where
  "is_regular n = (case n of RegularFile _ _ \<Rightarrow> True | _ \<Rightarrow> False)"

text \<open>File::open, then try_lock: no file, a lock held elsewhere, an error, or a locked handle.\<close>

datatype lock_outcome = NotFound | WouldBlock | LockError | LockHeld

definition open_and_lock :: "node option \<Rightarrow> lock_outcome" where
  "open_and_lock n =
     (case n of
        None \<Rightarrow> NotFound
      | Some Faulty \<Rightarrow> LockError
      | Some (Directory _) \<Rightarrow> LockHeld
      | Some (RegularFile _ a) \<Rightarrow>
          (case a of OpenFails \<Rightarrow> LockError | LockFails \<Rightarrow> LockError | Locked \<Rightarrow> WouldBlock
           | Free \<Rightarrow> LockHeld | RemoveFails \<Rightarrow> LockHeld))"

text \<open>fs::remove_file: a missing file is reported apart from the other errors.\<close>

definition removable :: "node \<Rightarrow> bool" where
  "removable n = (case n of RegularFile _ a \<Rightarrow> a \<noteq> RemoveFails | _ \<Rightarrow> False)"

definition rename_file :: "string \<Rightarrow> string \<Rightarrow> disk \<Rightarrow> disk option" where
  "rename_file from to k =
     (case k from of
        Some (RegularFile len a) \<Rightarrow>
          if a = RemoveFails then None
          else (case k to of
                  None \<Rightarrow> Some (k(from := None, to := Some (RegularFile len a)))
                | Some (RegularFile _ _) \<Rightarrow> Some (k(from := None, to := Some (RegularFile len a)))
                | Some _ \<Rightarrow> None)
      | Some (Directory len) \<Rightarrow>
          (case k to of None \<Rightarrow> Some (k(from := None, to := Some (Directory len))) | Some _ \<Rightarrow> None)
      | _ \<Rightarrow> None)"

section \<open>Claims on a row\<close>

definition at_id :: "string \<Rightarrow> file_row \<Rightarrow> bool" where
  "at_id i r = (f_remote_id r = i)"

text \<open>UPDATE .. WHERE as a claim: the answer is whether exactly one row changed.\<close>

definition claim_row ::
    "(file_row \<Rightarrow> bool) \<Rightarrow> (file_row \<Rightarrow> file_row) \<Rightarrow> db \<Rightarrow> bool \<times> db" where
  "claim_row p f d = (sql_count p (t_files d) = 1, touch_files p f d)"

definition cached_write_guard :: "file_record \<Rightarrow> db \<Rightarrow> file_row \<Rightarrow> bool" where
  "cached_write_guard rec d r =
     (f_remote_id r = m_remote_id (metadata rec) \<and> f_cache_path r = r_cache_path rec \<and>
      f_cloud_remote_id r = r_cloud_remote_id rec \<and> f_etag r = m_etag (metadata rec) \<and>
      f_state r = r_state rec \<and> f_size r = m_size (metadata rec) \<and>
      f_modified_unix r = m_modified_unix (metadata rec))"

definition begin_cached_write :: "file_record \<Rightarrow> db \<Rightarrow> bool \<times> db" where
  "begin_cached_write rec d =
     claim_row (cached_write_guard rec d) (\<lambda>r. r\<lparr>f_state := Writing\<rparr>) d"

definition upload_conflict_guard :: "file_record \<Rightarrow> db \<Rightarrow> file_row \<Rightarrow> bool" where
  "upload_conflict_guard rec d r =
     (f_remote_id r = m_remote_id (metadata rec) \<and> f_state r = Uploading \<and>
      f_path r = m_path (metadata rec) \<and> f_cache_path r = r_cache_path rec \<and>
      f_cloud_remote_id r = r_cloud_remote_id rec \<and> f_size r = m_size (metadata rec) \<and>
      f_modified_unix r = m_modified_unix (metadata rec) \<and> f_etag r = m_etag (metadata rec))"

definition mark_upload_conflict :: "file_record \<Rightarrow> db \<Rightarrow> bool \<times> db" where
  "mark_upload_conflict rec d =
     claim_row (upload_conflict_guard rec d) (\<lambda>r. r\<lparr>f_state := Conflict\<rparr>) d"

definition mark_state :: "string \<Rightarrow> file_state \<Rightarrow> db \<Rightarrow> db" where
  "mark_state remote_id st d = touch_files (at_id remote_id) (\<lambda>r. r\<lparr>f_state := st\<rparr>) d"

text \<open>A pending metadata operation on the item at the path or on an ancestor of the path.\<close>

definition pending_metadata_above :: "string \<Rightarrow> db \<Rightarrow> bool" where
  "pending_metadata_above path d =
     sql_exists (\<lambda>op. sql_exists (\<lambda>parent. f_remote_id parent = o_local_id op \<and>
         (path = f_path parent \<or> below (f_path parent) path)) (t_files d)) (t_ops d)"

definition delete_barrier :: "string \<Rightarrow> db \<Rightarrow> bool" where
  "delete_barrier path d =
     sql_exists (\<lambda>p. d_path p = path \<or> d_upload_path p = Some path \<or> d_uploaded_path p = Some path)
       (t_deletes d)"

definition upload_guard :: "file_record \<Rightarrow> db \<Rightarrow> file_row \<Rightarrow> bool" where
  "upload_guard rec d r =
     (f_remote_id r = m_remote_id (metadata rec) \<and> f_path r = m_path (metadata rec) \<and>
      f_cache_path r = r_cache_path rec \<and> f_state r = r_state rec \<and>
      f_size r = clamp_size (m_size (metadata rec)) \<and>
      f_modified_unix r = m_modified_unix (metadata rec) \<and> f_etag r = m_etag (metadata rec) \<and>
      f_cloud_remote_id r = r_cloud_remote_id rec \<and>
      \<not> delete_barrier (m_path (metadata rec)) d \<and>
      \<not> pending_metadata_above (m_path (metadata rec)) d)"

definition start_upload :: "file_row \<Rightarrow> file_row" where
  "start_upload r =
     r\<lparr>f_state := Uploading, f_upload_path := Some (f_path r),
       f_upload_target_id := f_cloud_remote_id r, f_upload_cache_path := f_cache_path r\<rparr>"

definition begin_upload :: "file_record \<Rightarrow> db \<Rightarrow> bool \<times> db" where
  "begin_upload rec d =
     (if r_state rec \<notin> {Dirty, Uploading} then (False, d)
      else claim_row (upload_guard rec d) start_upload d)"

definition mark_dirty_with_size :: "int \<Rightarrow> string \<Rightarrow> u64 \<Rightarrow> db \<Rightarrow> (db_error + unit) \<times> db" where
  "mark_dirty_with_size now remote_id sz d =
     (if sql_count (at_id remote_id) (t_files d) = 0 then (Inl (UnknownItem remote_id), d)
      else (Inr (), touch_files (at_id remote_id)
              (\<lambda>r. r\<lparr>f_state := Dirty, f_size := clamp_size sz, f_modified_unix := now\<rparr>) d))"

definition download_generation :: "string \<Rightarrow> db \<Rightarrow> db_error + int" where
  "download_generation remote_id d =
     (case file_by_id remote_id d of None \<Rightarrow> Inl NoSuchRow | Some r \<Rightarrow> Inr (f_download_generation r))"

definition row_pinned :: "file_row \<Rightarrow> bool" where
  "row_pinned r = (f_pin_explicit r \<or> f_pin_origin_remote_id r \<noteq> None)"

definition snapshot_guard :: "file_record \<Rightarrow> db \<Rightarrow> file_row \<Rightarrow> bool" where
  "snapshot_guard rec d r =
     (f_remote_id r = m_remote_id (metadata rec) \<and> f_cache_path r = r_cache_path rec \<and>
      f_etag r = m_etag (metadata rec) \<and> f_size r = m_size (metadata rec) \<and>
      f_state r \<in> {Cached, Pinned} \<and> f_cloud_remote_id r \<noteq> None)"

definition detach_cache :: "file_row \<Rightarrow> file_row" where
  "detach_cache r =
     r\<lparr>f_cache_path := None, f_cache_accessed_unix := None,
       f_state := (if row_pinned r then Hydrating else OnlineOnly),
       f_download_generation := f_download_generation r + 1\<rparr>"

definition invalidate_cached_snapshot :: "file_record \<Rightarrow> db \<Rightarrow> bool \<times> db" where
  "invalidate_cached_snapshot rec d = claim_row (snapshot_guard rec d) detach_cache d"

section \<open>Hydration\<close>

definition hydration_guard :: "string \<times> int \<Rightarrow> db \<Rightarrow> file_row \<Rightarrow> bool" where
  "hydration_guard a d r =
     (f_remote_id r = fst a \<and> f_download_generation r = snd a \<and> \<not> f_release_pending r \<and>
      f_state r \<in> {OnlineOnly, Hydrating, Pinned, Cached, ErrorState} \<and> f_cloud_remote_id r \<noteq> None)"

definition start_hydration :: "file_row \<Rightarrow> file_row" where
  "start_hydration r =
     r\<lparr>f_state := (if row_pinned r then Pinned else Hydrating),
       f_cache_path := None, f_cache_accessed_unix := None\<rparr>"

definition begin_hydration :: "string \<Rightarrow> int \<Rightarrow> db \<Rightarrow> bool \<times> db" where
  "begin_hydration remote_id generation d =
     claim_row (hydration_guard (remote_id, generation) d) start_hydration d"

text \<open>Reading a size column as u64 fails on a negative integer.\<close>

definition size_as_u64 :: "u64 \<Rightarrow> db_error + u64" where
  "size_as_u64 w = (if w \<le> 0x7FFFFFFFFFFFFFFF then Inr w else Inl IntegerOutOfRange)"

definition publish_cache :: "int \<Rightarrow> string \<Rightarrow> file_row \<Rightarrow> file_row" where
  "publish_cache now cache r =
     r\<lparr>f_state := (if row_pinned r then Pinned else Cached),
       f_cache_path := Some cache, f_cache_accessed_unix := Some now\<rparr>"

definition finish_hydration ::
    "int \<Rightarrow> string \<Rightarrow> int \<Rightarrow> string \<Rightarrow> string \<Rightarrow> db \<times> disk \<Rightarrow> (db_error + bool) \<times> db \<times> disk" where
  "finish_hydration now remote_id generation temporary cache s =
     (case s of (d, k) \<Rightarrow>
        (case sql_first (\<lambda>r. f_remote_id r = remote_id \<and> f_download_generation r = generation \<and>
               \<not> f_release_pending r \<and> f_state r \<in> {OnlineOnly, Hydrating, Pinned}) (t_files d) of
          None \<Rightarrow> (Inr False, d, k)
        | Some row \<Rightarrow>
            (case size_as_u64 (f_size row) of
               Inl e \<Rightarrow> (Inl e, d, k)
             | Inr expected_size \<Rightarrow>
                 (case k temporary of
                    None \<Rightarrow> (Inl IoError, d, k)
                  | Some Faulty \<Rightarrow> (Inl IoError, d, k)
                  | Some n \<Rightarrow>
                      if node_len n \<noteq> expected_size then (Inl LengthMismatch, d, k)
                      else (case rename_file temporary cache k of
                              None \<Rightarrow> (Inl IoError, d, k)
                            | Some k' \<Rightarrow>
                                (Inr True, touch_files (at_id remote_id) (publish_cache now cache) d, k'))))))"

definition fail_hydration :: "string \<Rightarrow> int \<Rightarrow> db \<Rightarrow> db" where
  "fail_hydration remote_id generation d =
     touch_files (\<lambda>r. f_remote_id r = remote_id \<and> f_download_generation r = generation \<and>
         f_state r = Hydrating \<and> f_cache_path r = None)
       (\<lambda>r. r\<lparr>f_state := OnlineOnly\<rparr>) d"

definition mark_cached :: "int \<Rightarrow> string \<Rightarrow> string \<Rightarrow> db \<Rightarrow> db" where
  "mark_cached now remote_id cache_path d =
     touch_files (at_id remote_id) (publish_cache now cache_path) d"

definition mark_online_only :: "string \<Rightarrow> db \<Rightarrow> db" where
  "mark_online_only remote_id d =
     touch_files (at_id remote_id)
       (\<lambda>r. r\<lparr>f_state := (if row_pinned r then Hydrating else OnlineOnly),
            f_cache_path := None, f_cache_accessed_unix := None,
            f_upload_path := None, f_upload_target_id := None, f_upload_cache_path := None\<rparr>) d"

definition mark_cache_accessed :: "int \<Rightarrow> string \<Rightarrow> db \<Rightarrow> db" where
  "mark_cache_accessed now remote_id d =
     touch_files (at_id remote_id) (\<lambda>r. r\<lparr>f_cache_accessed_unix := Some now\<rparr>) d"

section \<open>Reclamation of retired caches\<close>

definition cache_referenced :: "string \<Rightarrow> db \<Rightarrow> bool" where
  "cache_referenced path d =
     (sql_exists (\<lambda>r. f_cache_path r = Some path \<or> f_upload_cache_path r = Some path) (t_files d) \<or>
      sql_exists (\<lambda>p. d_cache_path p = Some path \<or> d_upload_cache_path p = Some path) (t_deletes d))"

definition drop_retired :: "string \<Rightarrow> db \<Rightarrow> db" where
  "drop_retired path d = d\<lparr>t_retired := sql_delete (\<lambda>p. p = path) (t_retired d)\<rparr>"

definition remove_unreferenced_cache :: "string \<Rightarrow> db \<times> disk \<Rightarrow> (db_error + bool) \<times> db \<times> disk" where
  "remove_unreferenced_cache path s =
     (case s of (d, k) \<Rightarrow>
        if cache_referenced path d then (Inr False, d, k)
        else (case k path of
                None \<Rightarrow> (Inr False, drop_retired path d, k)
              | Some Faulty \<Rightarrow> (Inl IoError, d, k)
              | Some (Directory _) \<Rightarrow> (Inr False, d, k)
              | Some (RegularFile len a) \<Rightarrow>
                  (case open_and_lock (k path) of
                     WouldBlock \<Rightarrow> (Inr False, d, k)
                   | LockHeld \<Rightarrow>
                       if removable (RegularFile len a)
                       then (Inr True, drop_retired path d, k(path := None))
                       else (Inl IoError, d, k)
                   | _ \<Rightarrow> (Inl IoError, d, k))))"

text \<open>The loops of the module: run an operation on each item, count the successes, stop at an error.\<close>

fun reclaim_all ::
    "('x \<Rightarrow> db \<times> disk \<Rightarrow> (db_error + bool) \<times> db \<times> disk) \<Rightarrow> 'x list \<Rightarrow> nat \<Rightarrow> db \<times> disk \<Rightarrow>
     (db_error + nat) \<times> db \<times> disk" where
  "reclaim_all step [] count s = (Inr count, s)"
| "reclaim_all step (x # xs) count s =
     (case step x s of
        (Inl e, s') \<Rightarrow> (Inl e, s')
      | (Inr done, s') \<Rightarrow> reclaim_all step xs (if done then Suc count else count) s')"

text \<open>Path::parent of an absolute path without trailing or doubled slashes.\<close>

definition dir_of :: "string \<Rightarrow> string option" where
  "dir_of path =
     (case rfind (CHR ''/'') path of
        None \<Rightarrow> (if path = [] then None else Some [])
      | Some i \<Rightarrow> if path = ''/'' then None else if i = 0 then Some ''/'' else Some (take i path))"

definition prune_retired_cache :: "string \<Rightarrow> db \<times> disk \<Rightarrow> (db_error + nat) \<times> db \<times> disk" where
  "prune_retired_cache cache_dir s =
     reclaim_all remove_unreferenced_cache
       (filter (\<lambda>p. dir_of p = Some cache_dir) (t_retired (fst s))) 0 s"

section \<open>Release\<close>

definition is_mount_trash_path :: "string \<Rightarrow> bool" where
  "is_mount_trash_path path =
     (case strip_prefix ''/'' path of
        None \<Rightarrow> False
      | Some relative \<Rightarrow>
          (case split_on (CHR ''/'') relative of
             [] \<Rightarrow> False
           | root # rest \<Rightarrow>
               (let uid = (if root = ''.Trash'' then Some (case rest of [] \<Rightarrow> [] | u # _ \<Rightarrow> u)
                           else strip_prefix ''.Trash-'' root) in
                case uid of None \<Rightarrow> False | Some u \<Rightarrow> u \<noteq> [] \<and> list_all is_ascii_digit u)))"

definition releasable :: "int option \<Rightarrow> file_row \<Rightarrow> bool" where
  "releasable cutoff r =
     (\<not> (f_is_dir r \<or> effective_pinned (row_to_record r) \<or> f_state r \<noteq> Cached \<or>
         f_cloud_remote_id r = None \<or>
         (case cutoff of
            None \<Rightarrow> False
          | Some c \<Rightarrow> is_mount_trash_path (f_path r) \<or>
              (case f_cache_accessed_unix r of None \<Rightarrow> False | Some accessed \<Rightarrow> c < accessed))))"

definition cache_protected :: "string \<Rightarrow> string \<Rightarrow> db \<Rightarrow> bool" where
  "cache_protected path remote_id d =
     (sql_exists (\<lambda>r. f_upload_cache_path r = Some path \<or>
          (f_remote_id r \<noteq> remote_id \<and> f_cache_path r = Some path)) (t_files d) \<or>
      sql_exists (\<lambda>p. d_cache_path p = Some path \<or> d_upload_cache_path p = Some path) (t_deletes d))"

definition released :: "file_row \<Rightarrow> file_row" where
  "released r =
     r\<lparr>f_state := OnlineOnly, f_cache_path := None, f_cache_accessed_unix := None,
       f_release_pending := False\<rparr>"

definition release_cached_record ::
    "int option \<Rightarrow> string \<Rightarrow> db \<times> disk \<Rightarrow> (db_error + bool) \<times> db \<times> disk" where
  "release_cached_record cutoff remote_id s =
     (case s of (d, k) \<Rightarrow>
        (case file_by_id remote_id d of
          None \<Rightarrow> (Inr False, d, k)
        | Some r \<Rightarrow>
            if \<not> releasable cutoff r then (Inr False, d, k)
            else (case f_cache_path r of
                    None \<Rightarrow> (Inr True, touch_files (at_id remote_id) released d, k)
                  | Some path \<Rightarrow>
                      if cache_protected path remote_id d then (Inr False, d, k)
                      else (case open_and_lock (k path) of
                              LockError \<Rightarrow> (Inl IoError, d, k)
                            | WouldBlock \<Rightarrow> (Inr False, d, k)
                            | NotFound \<Rightarrow> (Inr True, touch_files (at_id remote_id) released d, k)
                            | LockHeld \<Rightarrow>
                                if (case k path of Some n \<Rightarrow> removable n | None \<Rightarrow> True)
                                then (Inr True, touch_files (at_id remote_id) released d, k(path := None))
                                else (Inl IoError, d, k)))))"

text \<open>The records handed over are re-read by their identity, which is all release uses of them.\<close>

definition release_record :: "file_record \<Rightarrow> db \<times> disk \<Rightarrow> (db_error + bool) \<times> db \<times> disk" where
  "release_record rec s = release_cached_record None (m_remote_id (metadata rec)) s"

text \<open>finish_pending_releases re-reads each listed identity and releases what it finds.\<close>

definition finish_pending_releases :: "db \<times> disk \<Rightarrow> (db_error + nat) \<times> db \<times> disk" where
  "finish_pending_releases s =
     reclaim_all (\<lambda>i s'. case get_by_remote_id i (fst s') of
         None \<Rightarrow> (Inr False, s') | Some rec \<Rightarrow> release_record rec s')
       (map f_remote_id (filter f_release_pending (t_files (fst s)))) 0 s"

definition in_release_scope :: "string \<Rightarrow> string \<Rightarrow> bool" where
  "in_release_scope a path = (path = a \<or> a = ''/'' \<or> below a path)"

definition pending_release_count :: "string \<Rightarrow> db \<Rightarrow> nat" where
  "pending_release_count path d =
     sql_count (\<lambda>r. f_release_pending r \<and> in_release_scope (normalize_cloud_path path) (f_path r)) (t_files d)"

definition unpin_row :: "file_row \<Rightarrow> file_row" where
  "unpin_row r =
     r\<lparr>f_pin_explicit := False, f_pin_origin_remote_id := None, f_pin_inheritance_blocked := True,
       f_state := (if f_state r = Pinned
                   then (if f_is_dir r then OnlineOnly
                         else if f_cache_path r \<noteq> None then Cached else Hydrating)
                   else f_state r)\<rparr>"

definition cancellable :: "file_row \<Rightarrow> bool" where
  "cancellable r = (f_state r = Hydrating \<and> f_cache_path r = None)"

definition cancel_row :: "file_row \<Rightarrow> file_row" where
  "cancel_row r =
     r\<lparr>f_download_generation := f_download_generation r + 1,
       f_release_pending := \<not> (f_state r = OnlineOnly \<or> cancellable r),
       f_state := (if cancellable r then OnlineOnly else f_state r)\<rparr>"

text \<open>The transaction of release_path: the unpinned, cancelled database and the cancelled count.\<close>

definition release_scope :: "string \<Rightarrow> db \<Rightarrow> nat \<times> db" where
  "release_scope a d =
     (let d1 = touch_files (\<lambda>r. in_release_scope a (f_path r)) unpin_row d;
          scoped = (\<lambda>r. \<not> f_is_dir r \<and> \<not> row_pinned r \<and> in_release_scope a (f_path r)) in
      (sql_count (\<lambda>r. scoped r \<and> cancellable r) (t_files d1), touch_files scoped cancel_row d1))"

definition release_path :: "string \<Rightarrow> db \<times> disk \<Rightarrow> (db_error + nat) \<times> db \<times> disk" where
  "release_path path s =
     (case get_by_path path (fst s) of
        None \<Rightarrow> (Inl (UnknownItem (normalize_cloud_path path)), s)
      | Some record \<Rightarrow>
          (case release_scope (m_path (metadata record)) (fst s) of (cancelled, d) \<Rightarrow>
             let records = (if m_is_dir (metadata record)
                            then list_descendants (m_path (metadata record)) d else [record])
             in reclaim_all release_record records cancelled (d, snd s)))"

definition prune_cache :: "int \<Rightarrow> int \<Rightarrow> db \<times> disk \<Rightarrow> (db_error + nat) \<times> db \<times> disk" where
  "prune_cache now older_than_seconds s =
     (let cutoff = sat_i64 (now - older_than_seconds);
          records = filter (\<lambda>rec. r_state rec = Cached \<and> \<not> effective_pinned rec \<and>
              \<not> is_mount_trash_path (m_path (metadata rec)) \<and>
              (case r_cache_accessed_unix rec of None \<Rightarrow> True | Some accessed \<Rightarrow> accessed \<le> cutoff))
            (all_records (fst s))
      in reclaim_all (\<lambda>rec. release_cached_record (Some cutoff) (m_remote_id (metadata rec))) records 0 s)"

section \<open>The claims as instances of row_claim\<close>

interpretation cached_write: row_claim f_remote_id t_files "\<lambda>rs. t_files_update (\<lambda>_. rs)" wf_db
  "\<lambda>rec. m_remote_id (metadata rec)" cached_write_guard "\<lambda>_ r. r\<lparr>f_state := Writing\<rparr>" begin_cached_write
  by unfold_locales
    (simp_all add: begin_cached_write_def claim_row_def touch_files_def cached_write_guard_def)

interpretation upload_conflict: row_claim f_remote_id t_files "\<lambda>rs. t_files_update (\<lambda>_. rs)" wf_db
  "\<lambda>rec. m_remote_id (metadata rec)" upload_conflict_guard "\<lambda>_ r. r\<lparr>f_state := Conflict\<rparr>" mark_upload_conflict
  by unfold_locales
    (simp_all add: mark_upload_conflict_def claim_row_def touch_files_def upload_conflict_guard_def)

interpretation snapshot: row_claim f_remote_id t_files "\<lambda>rs. t_files_update (\<lambda>_. rs)" wf_db
  "\<lambda>rec. m_remote_id (metadata rec)" snapshot_guard "\<lambda>_. detach_cache" invalidate_cached_snapshot
  by unfold_locales
    (simp_all add: invalidate_cached_snapshot_def claim_row_def touch_files_def snapshot_guard_def detach_cache_def)

interpretation hydration: row_claim f_remote_id t_files "\<lambda>rs. t_files_update (\<lambda>_. rs)" wf_db
  fst hydration_guard "\<lambda>_. start_hydration" "\<lambda>a. begin_hydration (fst a) (snd a)"
  by unfold_locales
    (simp_all add: begin_hydration_def claim_row_def touch_files_def hydration_guard_def start_hydration_def)

definition full_upload_guard :: "file_record \<Rightarrow> db \<Rightarrow> file_row \<Rightarrow> bool" where
  "full_upload_guard rec d r = (r_state rec \<in> {Dirty, Uploading} \<and> upload_guard rec d r)"

lemma begin_upload_eq:
  "begin_upload rec d = claim_row (full_upload_guard rec d) start_upload d"
proof (cases "r_state rec \<in> {Dirty, Uploading}")
  case True
  then have "full_upload_guard rec d = upload_guard rec d" by (auto simp: full_upload_guard_def)
  with True show ?thesis by (simp add: begin_upload_def)
next
  case False
  then have "full_upload_guard rec d r = False" for r by (simp add: full_upload_guard_def)
  with False show ?thesis
    by (simp add: begin_upload_def claim_row_def touch_files_def sql_count_def sql_update_def)
qed

interpretation upload: row_claim f_remote_id t_files "\<lambda>rs. t_files_update (\<lambda>_. rs)" wf_db
  "\<lambda>rec. m_remote_id (metadata rec)" full_upload_guard "\<lambda>_. start_upload" begin_upload
  by unfold_locales
    (simp_all add: begin_upload_eq claim_row_def touch_files_def full_upload_guard_def
       upload_guard_def start_upload_def)

lemma wf_claim_row [wf_intros]:
  assumes "wf_db d"
    and "\<And>r. f_remote_id (f r) = f_remote_id r" "\<And>r. f_path (f r) = f_path r"
      "\<And>r. f_cloud_remote_id (f r) = f_cloud_remote_id r"
  shows "wf_db (snd (claim_row p f d))"
  using assms by (simp add: claim_row_def wf_touch_files)

lemma wf_cache_claims:
  assumes "wf_db d"
  shows "wf_db (snd (begin_cached_write rec d))" "wf_db (snd (mark_upload_conflict rec d))"
    "wf_db (snd (invalidate_cached_snapshot rec d))" "wf_db (snd (begin_hydration i g d))"
    "wf_db (snd (begin_upload rec d))" "wf_db (mark_state i st d)" "wf_db (mark_cached now i c d)"
    "wf_db (mark_online_only i d)" "wf_db (mark_cache_accessed now i d)" "wf_db (fail_hydration i g d)"
    "wf_db (snd (mark_dirty_with_size now i sz d))"
  using assms
  by (simp_all add: begin_cached_write_def mark_upload_conflict_def invalidate_cached_snapshot_def
      begin_hydration_def begin_upload_eq wf_claim_row mark_state_def mark_cached_def
      mark_online_only_def mark_cache_accessed_def fail_hydration_def mark_dirty_with_size_def
      wf_touch_files detach_cache_def start_hydration_def start_upload_def publish_cache_def)

lemma reclaim_all_inv:
  assumes "\<And>x s. Q s \<Longrightarrow> Q (snd (step x s))"
  shows "Q s \<Longrightarrow> Q (snd (reclaim_all step xs n s))"
proof (induction xs arbitrary: n s)
  case (Cons x xs)
  then show ?case using assms[of s x] by (auto split: prod.splits sum.splits)
qed simp

section \<open>Reclamation deletes only unreferenced bytes\<close>

text \<open>
  What every reclaiming operation keeps: a cache file that is still referenced after the
  operation is untouched, files only disappear, no reference appears, and every row that is not
  a clean cached copy is unchanged.
\<close>

fun reclaim_safe :: "db \<times> disk \<Rightarrow> db \<times> disk \<Rightarrow> bool" where
  "reclaim_safe (d, k) (d', k') =
     ((\<forall>p. cache_referenced p d' \<longrightarrow> k' p = k p \<and> cache_referenced p d) \<and>
      (\<forall>p. k' p \<noteq> k p \<longrightarrow> k' p = None) \<and>
      (\<forall>r\<in>set (t_files d). f_state r \<noteq> Cached \<longrightarrow> r \<in> set (t_files d')) \<and>
      t_deletes d' = t_deletes d \<and> t_ops d' = t_ops d)"

lemma reclaim_safe_refl: "reclaim_safe s s"
  by (cases s) simp

lemma reclaim_safe_trans: "reclaim_safe s t \<Longrightarrow> reclaim_safe t u \<Longrightarrow> reclaim_safe s u"
  by (cases s; cases t; cases u) (simp, metis)

locale reclaimer =
  fixes step :: "'x \<Rightarrow> db \<times> disk \<Rightarrow> (db_error + bool) \<times> db \<times> disk"
  assumes step_wf: "wf_db (fst s) \<Longrightarrow> wf_db (fst (snd (step x s)))"
    and step_safe: "wf_db (fst s) \<Longrightarrow> reclaim_safe s (snd (step x s))"
begin

lemma all_wf: "wf_db (fst s) \<Longrightarrow> wf_db (fst (snd (reclaim_all step xs n s)))"
proof (induction xs arbitrary: n s)
  case (Cons x xs)
  then show ?case using step_wf[of s x] by (auto split: prod.splits sum.splits)
qed simp

lemma all_safe: "wf_db (fst s) \<Longrightarrow> reclaim_safe s (snd (reclaim_all step xs n s))"
proof (induction xs arbitrary: n s)
  case Nil
  then show ?case by (simp add: reclaim_safe_refl)
next
  case (Cons x xs)
  obtain res s' where st: "step x s = (res, s')" by (cases "step x s") auto
  have s': "wf_db (fst s')" "reclaim_safe s s'"
    using step_wf[of s x] step_safe[of s x] Cons.prems st by auto
  show ?case
  proof (cases res)
    case (Inl e)
    with st s' show ?thesis by simp
  next
    case (Inr b)
    with st Cons.IH[OF s'(1)] s'(2) show ?thesis by (auto intro: reclaim_safe_trans)
  qed
qed

lemma all_count: "fst (reclaim_all step xs n s) = Inr m \<Longrightarrow> n \<le> m \<and> m \<le> n + length xs"
proof (induction xs arbitrary: n s)
  case (Cons x xs)
  obtain res s' where st: "step x s = (res, s')" by (cases "step x s") auto
  with Cons.prems obtain b where "res = Inr b" by (cases res) auto
  with st Cons.prems Cons.IH[of "if b then Suc n else n" s'] show ?case by (auto split: if_splits)
qed simp

end

lemma wf_drop_retired [wf_intros]: "wf_db d \<Longrightarrow> wf_db (drop_retired p d)"
  by (simp add: wf_db_def drop_retired_def sql_delete_def)

lemma cache_referenced_drop_retired [simp]: "cache_referenced p (drop_retired q d) = cache_referenced p d"
  by (simp add: cache_referenced_def drop_retired_def)

lemma drop_retired_sel [simp]:
  "t_files (drop_retired p d) = t_files d" "t_deletes (drop_retired p d) = t_deletes d"
  "t_ops (drop_retired p d) = t_ops d"
  by (simp_all add: drop_retired_def)

interpretation reclaim_retired: reclaimer remove_unreferenced_cache
proof
  fix s :: "db \<times> disk" and x
  obtain d k where s: "s = (d, k)" by (cases s)
  assume "wf_db (fst s)"
  then show "wf_db (fst (snd (remove_unreferenced_cache x s)))"
    by (auto simp: s remove_unreferenced_cache_def wf_drop_retired
        split: option.splits node.splits lock_outcome.splits)
  show "reclaim_safe s (snd (remove_unreferenced_cache x s))"
    by (auto simp: s remove_unreferenced_cache_def
        split: option.splits node.splits lock_outcome.splits)
qed

text \<open>The outcomes of a release of one record: nothing, or the row released and its file gone.\<close>

lemma release_cases:
  assumes "release_cached_record cutoff i (d, k) = (res, d', k')"
  obtains "d' = d" "k' = k" "res \<noteq> Inr True"
  | r where "file_by_id i d = Some r" "releasable cutoff r"
      "d' = touch_files (at_id i) released d" "res = Inr True"
      "(f_cache_path r = None \<and> k' = k) \<or>
       (\<exists>p. f_cache_path r = Some p \<and> \<not> cache_protected p i d \<and> (k' = k(p := None) \<or> k' = k))"
  using assms
  by (auto simp: release_cached_record_def split: option.splits if_splits lock_outcome.splits)

lemma wf_released: "wf_db d \<Longrightarrow> wf_db (touch_files (at_id i) released d)"
  by (rule wf_touch_files) (simp_all add: released_def)

lemma referenced_after_release:
  assumes "wf_db d" "file_by_id i d = Some r"
  shows "cache_referenced p (touch_files (at_id i) released d) \<longleftrightarrow>
    (\<exists>r'\<in>set (t_files d). f_upload_cache_path r' = Some p \<or> (f_remote_id r' \<noteq> i \<and> f_cache_path r' = Some p)) \<or>
    (\<exists>q\<in>set (t_deletes d). d_cache_path q = Some p \<or> d_upload_cache_path q = Some p)"
  unfolding cache_referenced_def
  by (simp add: sql_exists_update) (auto simp: sql_exists_iff at_id_def released_def)

lemma release_step_safe:
  assumes wf: "wf_db d" and r: "file_by_id i d = Some r" "releasable cutoff r"
    and k: "(f_cache_path r = None \<and> k' = k) \<or>
       (\<exists>p. f_cache_path r = Some p \<and> \<not> cache_protected p i d \<and> (k' = k(p := None) \<or> k' = k))"
  shows "reclaim_safe (d, k) (touch_files (at_id i) released d, k')"
proof -
  let ?d = "touch_files (at_id i) released d"
  have ref: "cache_referenced p ?d \<Longrightarrow> cache_referenced p d" for p
    unfolding referenced_after_release[OF wf r(1)] by (auto simp: cache_referenced_def table_simps)
  have keep: "cache_referenced p ?d \<Longrightarrow> k' p = k p" for p
    using k unfolding referenced_after_release[OF wf r(1)]
    by (auto simp: cache_protected_def table_simps)
  have other: "r' \<in> set (t_files ?d)" if "r' \<in> set (t_files d)" "f_state r' \<noteq> Cached" for r'
  proof -
    have "f_remote_id r' \<noteq> i"
      using that r file_by_id_iff[OF wf, of i r'] by (auto simp: releasable_def)
    with that(1) show ?thesis by (force simp: table_simps at_id_def)
  qed
  show ?thesis using ref keep other k by auto
qed

interpretation reclaim_release: reclaimer "release_cached_record cutoff" for cutoff
proof
  fix s :: "db \<times> disk" and x
  obtain d k where s: "s = (d, k)" by (cases s)
  obtain res d' k' where e: "release_cached_record cutoff x (d, k) = (res, d', k')"
    by (metis prod_cases3)
  assume "wf_db (fst s)"
  then have wf: "wf_db d" by (simp add: s)
  from e show "wf_db (fst (snd (release_cached_record cutoff x s)))"
    by (rule release_cases) (simp_all add: s e wf wf_released)
  from e show "reclaim_safe s (snd (release_cached_record cutoff x s))"
    by (rule release_cases) (simp_all add: s e reclaim_safe_refl release_step_safe[OF wf] del: reclaim_safe.simps)
qed

interpretation reclaim_prune: reclaimer "\<lambda>rec. release_cached_record cutoff (m_remote_id (metadata rec))" for cutoff
  by unfold_locales (simp_all add: reclaim_release.step_wf reclaim_release.step_safe)

interpretation reclaim_record: reclaimer release_record
  by unfold_locales
    (simp_all add: release_record_def[abs_def] reclaim_release.step_wf reclaim_release.step_safe)

interpretation reclaim_pending: reclaimer
  "\<lambda>i s'. case get_by_remote_id i (fst s') of None \<Rightarrow> (Inr False, s') | Some rec \<Rightarrow> release_record rec s'"
  by unfold_locales
    (auto simp: reclaim_record.step_wf reclaim_record.step_safe reclaim_safe_refl split: option.splits)

section \<open>Releasing a path\<close>

lemma release_scope_row:
  "file_by_id i (snd (release_scope a d)) =
   map_option (\<lambda>r. let u = (if in_release_scope a (f_path r) then unpin_row r else r) in
       if \<not> f_is_dir u \<and> \<not> row_pinned u \<and> in_release_scope a (f_path u) then cancel_row u else u)
     (file_by_id i d)"
  by (simp add: release_scope_def Let_def file_by_id_touch unpin_row_def cancel_row_def option.map_comp comp_def)

lemma wf_release_scope [wf_intros]: "wf_db d \<Longrightarrow> wf_db (snd (release_scope a d))"
  unfolding release_scope_def Let_def snd_conv
  by (intro wf_touch_files) (simp_all add: unpin_row_def cancel_row_def)

lemma release_scope_tables [simp]:
  "t_deletes (snd (release_scope a d)) = t_deletes d" "t_ops (snd (release_scope a d)) = t_ops d"
  by (simp_all add: release_scope_def Let_def)

lemma cache_referenced_touch:
  assumes "\<And>r. f_cache_path (f r) = f_cache_path r" "\<And>r. f_upload_cache_path (f r) = f_upload_cache_path r"
  shows "cache_referenced p (touch_files q f d) = cache_referenced p d"
  by (simp add: cache_referenced_def sql_exists_update assms if_distrib[of f_cache_path]
      if_distrib[of f_upload_cache_path] cong: if_cong)

lemma cache_referenced_release_scope [simp]:
  "cache_referenced p (snd (release_scope a d)) = cache_referenced p d"
  unfolding release_scope_def Let_def snd_conv
  by (simp add: cache_referenced_touch unpin_row_def cancel_row_def)

lemma release_path_unfold:
  assumes "get_by_path path d = Some record"
  shows "release_path path (d, k) =
    reclaim_all release_record
      (if m_is_dir (metadata record)
       then list_descendants (m_path (metadata record)) (snd (release_scope (m_path (metadata record)) d))
       else [record])
      (fst (release_scope (m_path (metadata record)) d))
      (snd (release_scope (m_path (metadata record)) d), k)"
  using assms by (simp add: release_path_def Let_def case_prod_beta)

lemma wf_release_path: "wf_db d \<Longrightarrow> wf_db (fst (snd (release_path path (d, k))))"
  by (cases "get_by_path path d")
    (simp_all add: release_path_unfold reclaim_record.all_wf wf_release_scope, simp add: release_path_def)

text \<open>A row with local work keeps its bytes: same identity, state, cache and version.\<close>

definition same_bytes :: "file_row \<Rightarrow> file_row \<Rightarrow> bool" where
  "same_bytes r r' =
     (f_remote_id r' = f_remote_id r \<and> f_state r' = f_state r \<and> f_cache_path r' = f_cache_path r \<and>
      f_size r' = f_size r \<and> f_etag r' = f_etag r \<and> f_modified_unix r' = f_modified_unix r \<and>
      f_cloud_remote_id r' = f_cloud_remote_id r \<and> f_upload_path r' = f_upload_path r \<and>
      f_upload_target_id r' = f_upload_target_id r \<and>
      f_upload_cache_path r' = f_upload_cache_path r)"

lemma same_bytes_refl [simp]: "same_bytes r r"
  by (simp add: same_bytes_def)

lemma same_bytes_trans: "same_bytes r s \<Longrightarrow> same_bytes s t \<Longrightarrow> same_bytes r t"
  by (simp add: same_bytes_def)

lemma same_bytes_unpin: "local_work (f_state r) \<Longrightarrow> same_bytes r (unpin_row r)"
  by (auto simp: same_bytes_def unpin_row_def local_work_def)

lemma same_bytes_cancel: "local_work (f_state r) \<Longrightarrow> same_bytes r (cancel_row r)"
  by (auto simp: same_bytes_def cancel_row_def cancellable_def local_work_def)

lemma same_bytes_repin: "local_work (f_state r) \<Longrightarrow> same_bytes r (repin_row rows r)"
  by (simp add: same_bytes_def repin_row_state)

lemma same_bytes_local_work: "same_bytes r r' \<Longrightarrow> local_work (f_state r') = local_work (f_state r)"
  by (simp add: same_bytes_def)

text \<open>
  The promise of every operation that is not the user's own edit or deletion: a row with local
  work survives it with its bytes.
\<close>

definition keeps_work :: "db \<Rightarrow> db \<Rightarrow> bool" where
  "keeps_work d d' =
     (\<forall>i r. file_by_id i d = Some r \<and> local_work (f_state r) \<longrightarrow>
        (\<exists>r'. file_by_id i d' = Some r' \<and> same_bytes r r'))"

lemma keeps_work_refl [simp]: "keeps_work d d"
  by (auto simp: keeps_work_def)

lemma keeps_work_trans: "keeps_work d e \<Longrightarrow> keeps_work e f \<Longrightarrow> keeps_work d f"
  unfolding keeps_work_def
proof (intro allI impI)
  fix i r
  assume de: "\<forall>i r. file_by_id i d = Some r \<and> local_work (f_state r) \<longrightarrow> (\<exists>r'. file_by_id i e = Some r' \<and> same_bytes r r')"
    and ef: "\<forall>i r. file_by_id i e = Some r \<and> local_work (f_state r) \<longrightarrow> (\<exists>r'. file_by_id i f = Some r' \<and> same_bytes r r')"
    and r: "file_by_id i d = Some r \<and> local_work (f_state r)"
  from de r obtain s where s: "file_by_id i e = Some s" "same_bytes r s" by blast
  with r have "local_work (f_state s)" by (simp add: same_bytes_def)
  with ef s obtain t where "file_by_id i f = Some t" "same_bytes s t" by blast
  with s show "\<exists>r'. file_by_id i f = Some r' \<and> same_bytes r r'" by (blast intro: same_bytes_trans)
qed

lemma keeps_workD:
  "keeps_work d d' \<Longrightarrow> file_by_id i d = Some r \<Longrightarrow> local_work (f_state r) \<Longrightarrow>
   \<exists>r'. file_by_id i d' = Some r' \<and> same_bytes r r'"
  by (auto simp: keeps_work_def)

lemma keeps_work_files: "t_files d' = t_files d \<Longrightarrow> keeps_work d d'"
  by (auto simp: keeps_work_def file_by_id_def)

lemma keeps_work_touch:
  assumes "\<And>r. f_remote_id (f r) = f_remote_id r"
    and "\<And>r. r \<in> set (t_files d) \<Longrightarrow> p r \<Longrightarrow> local_work (f_state r) \<Longrightarrow> same_bytes r (f r)"
  shows "keeps_work d (touch_files p f d)"
  using assms(2) by (auto simp: keeps_work_def file_by_id_touch[of f, OF assms(1)] dest: file_by_id_SomeD)

lemma keeps_work_update:
  assumes "update_files p f d = Inr d'" "\<And>r. f_remote_id (f r) = f_remote_id r"
    and "\<And>r. r \<in> set (t_files d) \<Longrightarrow> p r \<Longrightarrow> local_work (f_state r) \<Longrightarrow> same_bytes r (f r)"
  shows "keeps_work d d'"
  using assms(3) by (auto simp: keeps_work_def file_by_id_update[OF assms(1,2)] dest: file_by_id_SomeD)

lemma keeps_work_delete:
  assumes "wf_db d" "\<And>r. r \<in> set (t_files d) \<Longrightarrow> p r \<Longrightarrow> \<not> local_work (f_state r)"
  shows "keeps_work d (delete_files p d)"
  unfolding keeps_work_def
proof (intro allI impI)
  fix i r
  assume r: "file_by_id i d = Some r \<and> local_work (f_state r)"
  then have "\<not> p r" using assms(2) file_by_id_SomeD by blast
  with r assms(1) have "file_by_id i (delete_files p d) = Some r" by (intro file_by_id_delete_keep) auto
  then show "\<exists>r'. file_by_id i (delete_files p d) = Some r' \<and> same_bytes r r'" by simp
qed

lemma keeps_work_insert:
  assumes "insert_file row d = Inr d'" "file_by_id (f_remote_id row) d = None"
  shows "keeps_work d d'"
  using assms(2) by (auto simp: keeps_work_def file_by_id_insert[OF assms(1)])

lemma keeps_work_recompute: "wf_db d \<Longrightarrow> keeps_work d (recompute_pin_inheritance d)"
  by (auto simp: keeps_work_def file_by_id_recompute intro: same_bytes_repin)

lemma keeps_work_then_recompute:
  "keeps_work d (snd res) \<Longrightarrow> wf_db (snd res) \<Longrightarrow> keeps_work d (snd (then_recompute res))"
  by (auto simp: then_recompute_def split: sum.splits prod.splits
      intro: keeps_work_trans[OF _ keeps_work_recompute])

text \<open>A step of an import loop: it keeps the invariant and the local work; so does the loop.\<close>

locale import_step =
  fixes step :: "'x \<Rightarrow> db \<Rightarrow> db_error + db"
  assumes step_wf: "wf_db d \<Longrightarrow> step x d = Inr d' \<Longrightarrow> wf_db d'"
    and step_keeps: "wf_db d \<Longrightarrow> step x d = Inr d' \<Longrightarrow> keeps_work d d'"
begin

lemma loop: "wf_db d \<Longrightarrow> fold_result step xs d = Inr d' \<Longrightarrow> wf_db d' \<and> keeps_work d d'"
proof (induction xs arbitrary: d)
  case (Cons x xs)
  then obtain e where e: "step x d = Inr e" "fold_result step xs e = Inr d'"
    by (auto simp: and_then_Inr_iff)
  with Cons step_wf step_keeps show ?case by (metis keeps_work_trans)
qed simp

lemma transaction:
  assumes "wf_db d" and t: "\<And>d. t d = and_then (fold_result step xs d) (\<lambda>d'. Inr ((), d'))"
  shows "wf_db (snd (then_recompute (run_tx t d))) \<and> keeps_work d (snd (then_recompute (run_tx t d)))"
proof -
  have "wf_db (snd (run_tx t d)) \<and> keeps_work d (snd (run_tx t d))"
    by (rule run_tx_inv[where P = "\<lambda>e. wf_db e \<and> keeps_work d e"])
      (use assms(1) in \<open>auto simp: t and_then_Inr_iff dest: loop\<close>)
  then show ?thesis by (blast intro: wf_then_recompute keeps_work_then_recompute)
qed

end

lemma release_scope_local_work:
  assumes "file_by_id i d = Some r" "local_work (f_state r)"
  shows "\<exists>r'. file_by_id i (snd (release_scope a d)) = Some r' \<and> same_bytes r r'"
proof -
  let ?u = "if in_release_scope a (f_path r) then unpin_row r else r"
  have u: "same_bytes r ?u" using same_bytes_unpin[OF assms(2)] by simp
  then have "local_work (f_state ?u)" using assms(2) same_bytes_local_work by metis
  then have "same_bytes ?u (cancel_row ?u)" by (rule same_bytes_cancel)
  with u assms(1) show ?thesis by (auto simp: release_scope_row Let_def intro: same_bytes_trans)
qed

lemma reclaim_safe_row:
  assumes "reclaim_safe (d, k) (d', k')" "wf_db d'" "file_by_id i d = Some r" "f_state r \<noteq> Cached"
  shows "file_by_id i d' = Some r"
  using assms file_by_id_SomeD[OF assms(3)] file_by_id_iff[OF assms(2)] by auto

lemma release_path_local_work:
  assumes wf: "wf_db d" and r: "file_by_id i d = Some r" "local_work (f_state r)"
    and run: "release_path path (d, k) = (res, d', k')"
  shows "(\<exists>r'. file_by_id i d' = Some r' \<and> same_bytes r r') \<and>
    (\<forall>c. f_cache_path r = Some c \<longrightarrow> k' c = k c)"
proof (cases "get_by_path path d")
  case None
  with run r show ?thesis by (auto simp: release_path_def)
next
  case (Some rec)
  let ?a = "m_path (metadata rec)"
  let ?d1 = "snd (release_scope ?a d)"
  have wf1: "wf_db ?d1" using wf by (rule wf_release_scope)
  have safe: "reclaim_safe (?d1, k) (d', k')" and wf': "wf_db d'"
    using reclaim_record.all_safe[of "(?d1, k)"] reclaim_record.all_wf[of "(?d1, k)"]
      release_path_unfold[OF Some, of k] run wf1 by (metis fst_conv snd_conv)+
  obtain r1 where r1: "file_by_id i ?d1 = Some r1" "same_bytes r r1"
    using release_scope_local_work[OF r] by blast
  then have "f_state r1 \<noteq> Cached" using r(2) by (auto simp: same_bytes_def local_work_def)
  with r1 have row: "file_by_id i d' = Some r1" using reclaim_safe_row[OF safe wf'] by blast
  have "k' c = k c" if "f_cache_path r = Some c" for c
  proof -
    have "f_cache_path r1 = Some c" using that r1 by (simp add: same_bytes_def)
    then have "cache_referenced c d'"
      using file_by_id_SomeD[OF row] by (auto simp: cache_referenced_def table_simps)
    with safe show ?thesis by auto
  qed
  with row r1 show ?thesis by blast
qed

text \<open>After a release no file of the subtree is pinned, and its downloads are of an older generation.\<close>

lemma release_path_cancels:
  assumes wf: "wf_db d" and folder: "get_by_path path d = Some record"
    and r: "file_by_id i d = Some r" "\<not> f_is_dir r" "in_release_scope (m_path (metadata record)) (f_path r)"
    and run: "release_path path (d, k) = (Inr n, d', k')"
  shows "\<exists>r'. file_by_id i d' = Some r' \<and> \<not> row_pinned r' \<and>
    f_download_generation r' = f_download_generation r + 1"
proof -
  let ?a = "m_path (metadata record)"
  let ?d1 = "snd (release_scope ?a d)"
  define P where "P r' = (f_remote_id r' = i \<and> \<not> row_pinned r' \<and>
    f_download_generation r' = f_download_generation r + 1)" for r'
  define Q where "Q s = (\<exists>r'\<in>set (t_files (fst s)). P r')" for s :: "db \<times> disk"
  have step: "Q (snd (release_record x s))" if "Q s" for x s
  proof -
    obtain e k1 where s: "s = (e, k1)" by (cases s)
    obtain res e' k2 where c: "release_cached_record None (m_remote_id (metadata x)) (e, k1) = (res, e', k2)"
      by (metis prod_cases3)
    from that s obtain r' where r': "r' \<in> set (t_files e)" "P r'" by (auto simp: Q_def)
    from c have "\<exists>r'\<in>set (t_files e'). P r'"
    proof (rule release_cases)
      assume "e' = e"
      with r' show ?thesis by auto
    next
      assume e': "e' = touch_files (at_id (m_remote_id (metadata x))) released e"
      let ?r = "if at_id (m_remote_id (metadata x)) r' then released r' else r'"
      have "?r \<in> set (t_files e')" using r' unfolding e' by (auto simp: table_simps)
      moreover have "P ?r" using r'(2) by (simp add: P_def released_def row_pinned_def)
      ultimately show ?thesis by blast
    qed
    with c s show ?thesis by (simp add: Q_def release_record_def)
  qed
  obtain r1 where r1: "file_by_id i ?d1 = Some r1" "P r1"
    using r file_by_id_SomeD[OF r(1)]
    by (auto simp: release_scope_row Let_def unpin_row_def cancel_row_def row_pinned_def P_def)
  then have "Q (?d1, k)" using file_by_id_SomeD[OF r1(1)] by (auto simp: Q_def)
  with step have "Q (snd (release_path path (d, k)))"
    unfolding release_path_unfold[OF folder, of k] by (rule reclaim_all_inv)
  then obtain r' where r': "r' \<in> set (t_files d')" "P r'" by (auto simp: Q_def run)
  have "wf_db d'" using wf_release_path[OF wf, of path k] run by simp
  with r' show ?thesis using file_by_id_iff[of d' i r'] by (auto simp: P_def)
qed

section \<open>Publishing a download\<close>

lemma finish_hydration_stale:
  assumes "wf_db d" "file_by_id i d = Some r" "f_download_generation r \<noteq> g"
  shows "finish_hydration now i g tmp cache (d, k) = (Inr False, d, k)"
proof -
  have "sql_first (\<lambda>r. f_remote_id r = i \<and> f_download_generation r = g \<and>
               \<not> f_release_pending r \<and> f_state r \<in> {OnlineOnly, Hydrating, Pinned}) (t_files d) = None"
    unfolding sql_first_None_iff using file_by_id_unique[OF assms(1,2)] assms(3) by auto
  then show ?thesis by (simp add: finish_hydration_def)
qed

lemma finish_hydration_True:
  assumes wf: "wf_db d" and run: "finish_hydration now i g tmp cache (d, k) = (Inr True, d', k')"
  shows "\<exists>r n. file_by_id i d = Some r \<and> f_download_generation r = g \<and> \<not> f_release_pending r \<and>
    \<not> local_work (f_state r) \<and> k tmp = Some n \<and> node_len n = f_size r \<and>
    k' cache = Some n \<and> file_by_id i d' = Some (publish_cache now cache r)"
proof -
  from run obtain r n where f: "sql_first (\<lambda>r. f_remote_id r = i \<and> f_download_generation r = g \<and>
               \<not> f_release_pending r \<and> f_state r \<in> {OnlineOnly, Hydrating, Pinned}) (t_files d) = Some r"
    and n: "k tmp = Some n" "node_len n = f_size r" "rename_file tmp cache k = Some k'"
      "d' = touch_files (at_id i) (publish_cache now cache) d"
    by (auto simp: finish_hydration_def size_as_u64_def split: option.splits sum.splits node.splits if_splits)
  from sql_first_SomeD[OF f] have r: "r \<in> set (t_files d)" "f_remote_id r = i"
      "f_download_generation r = g" "\<not> f_release_pending r" "\<not> local_work (f_state r)"
    by (auto simp: local_work_def)
  then have row: "file_by_id i d = Some r" using file_by_id_iff[OF wf] by blast
  have "k' cache = Some n"
    using n(1,3) by (auto simp: rename_file_def split: node.splits option.splits if_splits)
  moreover have "file_by_id i d' = Some (publish_cache now cache r)"
    using row r(2) by (simp add: n(4) file_by_id_touch publish_cache_def at_id_def)
  ultimately show ?thesis using row r n by blast
qed

lemma finish_hydration_False:
  "finish_hydration now i g tmp cache (d, k) = (res, d', k') \<Longrightarrow> res \<noteq> Inr True \<Longrightarrow> d' = d \<and> k' = k"
  by (auto simp: finish_hydration_def split: option.splits sum.splits node.splits if_splits)


section \<open>Properties\<close>

text \<open>An upload starts by compare-and-set: it is granted exactly when the row still is the
  snapshot the worker inspected, no deletion holds the path and no metadata job is pending at or
  above it; then only that row changes, to the claimed transfer, and a refusal changes nothing.\<close>

lemma upload_claim_is_compare_and_set:
  assumes wf: "wf_db d" and run: "begin_upload rec d = (granted, d')"
  shows "(granted \<longleftrightarrow> r_state rec \<in> {Dirty, Uploading} \<and> (\<exists>r\<in>set (t_files d). upload_guard rec d r)) \<and>
    (granted \<longrightarrow> (\<exists>r. upload_guard rec d r \<and>
       file_by_id (m_remote_id (metadata rec)) d' = Some (start_upload r))) \<and>
    (\<forall>i. i \<noteq> m_remote_id (metadata rec) \<longrightarrow> file_by_id i d' = file_by_id i d) \<and>
    (\<not> granted \<longrightarrow> d' = d)"
proof -
  have "granted = fst (begin_upload rec d)" "d' = snd (begin_upload rec d)" using run by simp_all
  then show ?thesis
    using upload.claim_true_iff[OF wf, of rec] upload.claim_refused[OF wf, of rec]
      upload.claim_granted[OF wf, of rec] upload.claim_others[of _ rec d]
    by (auto simp: full_upload_guard_def file_by_id_def)
qed

lemma upload_claim_is_compare_and_set_witness:
  "fst (begin_upload (row_to_record (sample_row ''f1'' (Some ''f1'') ''/D/a'' (Some ''/c/f1'') Dirty)) sample_db)"
proof -
  let ?rec = "row_to_record (sample_row ''f1'' (Some ''f1'') ''/D/a'' (Some ''/c/f1'') Dirty)"
  have "wf_db sample_db" "r_state ?rec \<in> {Dirty, Uploading}"
    "\<exists>r\<in>set (t_files sample_db). upload_guard ?rec sample_db r" by code_simp+
  then show ?thesis using upload_claim_is_compare_and_set[OF _ prod.collapse[symmetric]] by blast
qed

text \<open>C32: the retention scan, the cleanup of retired files and the completion of pending releases
  never touch a cache file that is still referenced, remove files only (they never create or
  rewrite one), and leave every row that is not a clean cached copy as it is.\<close>

theorem reclamation_spares_referenced_bytes:
  assumes "wf_db d"
  shows "reclaim_safe (d, k) (snd (prune_cache now older (d, k))) \<and>
    reclaim_safe (d, k) (snd (prune_retired_cache dir (d, k))) \<and>
    reclaim_safe (d, k) (snd (finish_pending_releases (d, k)))"
  using assms
  by (simp add: prune_cache_def prune_retired_cache_def finish_pending_releases_def Let_def
      reclaim_prune.all_safe reclaim_retired.all_safe reclaim_pending.all_safe del: reclaim_safe.simps)

lemma reclamation_spares_referenced_bytes_witness:
  "reclaim_safe (sample_db, (\<lambda>_. None)) (snd (prune_cache 1000 10 (sample_db, (\<lambda>_. None))))"
proof -
  have "wf_db sample_db" by code_simp
  from reclamation_spares_referenced_bytes[OF this] show ?thesis by blast
qed

text \<open>Releasing a path never loses local work: a row with unsaved or unsent changes keeps its
  bytes, whatever part of the tree is released and whether or not the release fails.\<close>

lemma release_keeps_local_work:
  assumes "wf_db d" "file_by_id i d = Some r" "local_work (f_state r)"
    and "release_path path (d, k) = (res, d', k')"
  shows "(\<exists>r'. file_by_id i d' = Some r' \<and> same_bytes r r') \<and>
    (\<forall>c. f_cache_path r = Some c \<longrightarrow> k' c = k c)"
  by (rule release_path_local_work[OF assms])

lemma release_keeps_local_work_witness:
  "\<exists>r'. file_by_id ''f1'' (fst (snd (release_path ''/'' (sample_db, (\<lambda>_. None))))) = Some r' \<and>
    same_bytes (sample_row ''f1'' (Some ''f1'') ''/D/a'' (Some ''/c/f1'') Dirty) r'"
proof -
  let ?r = "sample_row ''f1'' (Some ''f1'') ''/D/a'' (Some ''/c/f1'') Dirty"
  have "wf_db sample_db" "file_by_id ''f1'' sample_db = Some ?r" "local_work (f_state ?r)" by code_simp+
  from release_keeps_local_work[OF this, of "''/''" "\<lambda>_. None"] show ?thesis by (metis prod.collapse)
qed

text \<open>A release cancels the downloads of its subtree: afterwards no file of it is pinned, and
  the publication of a download that started before is refused and changes nothing.\<close>

lemma released_download_not_published:
  assumes wf: "wf_db d" and folder: "get_by_path path d = Some record"
    and r: "file_by_id i d = Some r" "\<not> f_is_dir r" "in_release_scope (m_path (metadata record)) (f_path r)"
    and run: "release_path path (d, k) = (Inr n, d', k')"
  shows "finish_hydration now i (f_download_generation r) tmp cache (d', disk) = (Inr False, d', disk) \<and>
    (\<exists>r'. file_by_id i d' = Some r' \<and> \<not> row_pinned r')"
proof -
  have "wf_db d'" using wf_release_path[OF wf, of path k] run by simp
  moreover obtain r' where "file_by_id i d' = Some r'" "\<not> row_pinned r'"
      "f_download_generation r' = f_download_generation r + 1"
    using release_path_cancels[OF wf folder r run] by blast
  ultimately show ?thesis
    using finish_hydration_stale[of d' i r' "f_download_generation r"] by auto
qed

lemma released_download_not_published_witness:
  "fst (finish_hydration 9 ''f2'' 0 ''/c/f2.tmp'' ''/c/f2''
     (fst (snd (release_path ''/D/b'' (sample_db, (\<lambda>_. None)))), (\<lambda>_. None))) = Inr False"
proof -
  let ?r = "sample_row ''f2'' (Some ''f2'') ''/D/b'' (Some ''/c/f2'') Cached"
  let ?run = "release_path ''/D/b'' (sample_db, (\<lambda>_. None))"
  have "wf_db sample_db" "get_by_path ''/D/b'' sample_db = Some (row_to_record ?r)"
    "file_by_id ''f2'' sample_db = Some ?r" "\<not> f_is_dir ?r"
    "in_release_scope (m_path (metadata (row_to_record ?r))) (f_path ?r)" by code_simp+
  note facts = this
  have "fst ?run = Inr 1" by code_simp
  then have run: "?run = (Inr 1, fst (snd ?run), snd (snd ?run))" by (simp add: prod_eq_iff)
  have "f_download_generation ?r = 0" by code_simp
  with released_download_not_published[OF facts run, of 9 "''/c/f2.tmp''" "''/c/f2''" "\<lambda>_. None"]
  show ?thesis by simp
qed

text \<open>A download is published only when it is of the current generation, the row has no local
  work and no release waits, and the downloaded file has the expected length; then the cache path
  holds exactly that file.  Any other outcome changes neither the database nor the disk.\<close>

lemma publication_is_current:
  assumes wf: "wf_db d" and run: "finish_hydration now i g tmp cache (d, k) = (res, d', k')"
  shows "if res = Inr True
    then \<exists>r n. file_by_id i d = Some r \<and> f_download_generation r = g \<and> \<not> f_release_pending r \<and>
      \<not> local_work (f_state r) \<and> k tmp = Some n \<and> node_len n = f_size r \<and>
      k' cache = Some n \<and> file_by_id i d' = Some (publish_cache now cache r)
    else d' = d \<and> k' = k"
  using finish_hydration_True[OF wf, of now i g tmp cache k d' k'] finish_hydration_False[OF run] run by auto

lemma publication_is_current_witness:
  "let d = mark_state ''f2'' Hydrating sample_db; k = [''/t'' \<mapsto> RegularFile 3 Free, ''/c'' \<mapsto> Directory 0] in
   snd (snd (finish_hydration 9 ''f2'' 0 ''/t'' ''/c/f2'' (d, k))) ''/c/f2'' = Some (RegularFile 3 Free)"
proof -
  let ?k = "[''/t'' \<mapsto> RegularFile 3 Free, ''/c'' \<mapsto> Directory 0] :: disk"
  let ?run = "finish_hydration 9 ''f2'' 0 ''/t'' ''/c/f2'' (mark_state ''f2'' Hydrating sample_db, ?k)"
  have wf: "wf_db (mark_state ''f2'' Hydrating sample_db)" by code_simp
  have "fst ?run = Inr True" by code_simp
  then have run: "?run = (Inr True, fst (snd ?run), snd (snd ?run))" by (simp add: prod_eq_iff)
  from publication_is_current[OF wf run] show ?thesis by (auto simp: Let_def)
qed

end
