(* ===== verification/Metadata.thy ===== *)
theory Metadata
  imports Cache
begin

text \<open>
  crates/twodrive-core/src/database/metadata.rs: importing cloud metadata (single entries and
  delta batches), binding cloud identities, and acknowledging uploads.  The main facts: an
  import never touches a row that carries local work, it detaches exactly the cached versions
  the entry makes stale, and an acknowledgement neither overwrites a newer local generation
  nor changes the local modification time.
\<close>

section \<open>Importing one entry\<close>

definition entry_pending_delete :: "metadata_entry \<Rightarrow> db \<Rightarrow> bool" where
  "entry_pending_delete e d =
     (let path = normalize_cloud_path (m_path e) in
      sql_exists (\<lambda>p. d_remote_id p = m_remote_id e \<or> d_cloud_remote_id p = Some (m_remote_id e) \<or>
          d_path p = path \<or> d_upload_path p = Some path \<or> d_uploaded_path p = Some path) (t_deletes d))"

definition entry_local_id :: "metadata_entry \<Rightarrow> db \<Rightarrow> string" where
  "entry_local_id e d =
     (case sql_first (\<lambda>r. f_cloud_remote_id r = Some (m_remote_id e)) (t_files d) of
        None \<Rightarrow> m_remote_id e
      | Some r \<Rightarrow> f_remote_id r)"

definition entry_pending_metadata :: "string \<Rightarrow> metadata_entry \<Rightarrow> db \<Rightarrow> bool" where
  "entry_pending_metadata local_id e d =
     sql_exists (\<lambda>op. sql_exists (\<lambda>anc. f_remote_id anc = o_local_id op \<and>
         (o_local_id op = local_id \<or> m_path e = f_path anc \<or> below (f_path anc) (m_path e) \<or>
          sql_exists (\<lambda>cur. f_remote_id cur = local_id \<and> below (f_path anc) (f_path cur)) (t_files d)))
       (t_files d)) (t_ops d)"

definition protected_path :: "string \<Rightarrow> metadata_entry \<Rightarrow> db \<Rightarrow> bool" where
  "protected_path local_id e d =
     sql_exists (\<lambda>r. f_path r = m_path e \<and> f_remote_id r \<noteq> local_id \<and> local_work (f_state r)) (t_files d)"

definition protected_id :: "string \<Rightarrow> db \<Rightarrow> bool" where
  "protected_id local_id d =
     sql_exists (\<lambda>r. f_remote_id r = local_id \<and> local_work (f_state r)) (t_files d)"

text \<open>The row is a file whose version differs from the entry's.\<close>

definition entry_changed :: "metadata_entry \<Rightarrow> file_row \<Rightarrow> bool" where
  "entry_changed e r =
     (\<not> f_is_dir r \<and> (f_etag r \<noteq> m_etag e \<or> f_size r \<noteq> m_size e \<or> f_is_dir r \<noteq> m_is_dir e))"

definition intact_file :: "node option \<Rightarrow> u64 \<Rightarrow> bool" where
  "intact_file n sz = (case n of Some (RegularFile len _) \<Rightarrow> len = sz | _ \<Rightarrow> False)"

definition retire_obsolete :: "disk \<Rightarrow> string \<Rightarrow> metadata_entry \<Rightarrow> db \<Rightarrow> db_error + db" where
  "retire_obsolete k local_id e d =
     (case sql_first (\<lambda>r. f_remote_id r = local_id \<and> entry_changed e r \<and> f_cache_path r \<noteq> None \<and>
             f_state r \<in> {Cached, Pinned}) (t_files d) of
        None \<Rightarrow> Inr d
      | Some r \<Rightarrow>
          and_then (size_as_u64 (f_size r)) (\<lambda>sz.
            case f_cache_path r of
              None \<Rightarrow> Inr d
            | Some p \<Rightarrow> Inr (if intact_file (k p) sz then retire_cache p d else d)))"

definition detach_version :: "string \<Rightarrow> metadata_entry \<Rightarrow> db \<Rightarrow> db" where
  "detach_version local_id e d =
     touch_files (\<lambda>r. f_remote_id r = local_id \<and> entry_changed e r)
       (\<lambda>r. r\<lparr>f_cache_path := None, f_cache_accessed_unix := None, f_state := OnlineOnly,
            f_download_generation := f_download_generation r + 1\<rparr>) d"

definition entry_cloud_id :: "metadata_entry \<Rightarrow> string option" where
  "entry_cloud_id e =
     (if take 13 (m_remote_id e) = ''local-upload-'' then None else Some (m_remote_id e))"

definition entry_row :: "string \<Rightarrow> bool \<Rightarrow> metadata_entry \<Rightarrow> file_row" where
  "entry_row local_id block e =
     blank_row\<lparr>f_remote_id := local_id, f_path := m_path e, f_parent_path := m_parent_path e,
       f_name := m_name e, f_is_dir := m_is_dir e, f_size := m_size e,
       f_modified_unix := m_modified_unix e, f_etag := m_etag e, f_state := OnlineOnly,
       f_cloud_remote_id := entry_cloud_id e, f_pin_inheritance_blocked := block\<rparr>"

definition merge_entry :: "metadata_entry \<Rightarrow> file_row \<Rightarrow> file_row" where
  "merge_entry e r =
     r\<lparr>f_path := m_path e, f_parent_path := m_parent_path e, f_name := m_name e,
       f_is_dir := m_is_dir e, f_size := m_size e,
       f_modified_unix :=
         (if \<not> f_is_dir r \<and> f_etag r \<noteq> [] \<and> f_etag r = m_etag e \<and> f_size r = m_size e
          then f_modified_unix r else m_modified_unix e),
       f_etag := m_etag e, f_cloud_remote_id := entry_cloud_id e\<rparr>"

text \<open>Clear the path, then INSERT .. ON CONFLICT(remote_id) DO UPDATE.\<close>

definition write_entry :: "string \<Rightarrow> bool \<Rightarrow> metadata_entry \<Rightarrow> db \<Rightarrow> db_error + db" where
  "write_entry local_id block e d =
     (let d1 = delete_files (\<lambda>r. f_path r = m_path e \<and> f_remote_id r \<noteq> local_id) d in
      if file_by_id local_id d1 \<noteq> None then update_files (at_id local_id) (merge_entry e) d1
      else insert_file (entry_row local_id block e) d1)"

definition move_row :: "string \<Rightarrow> file_row \<Rightarrow> file_row" where
  "move_row path r =
     r\<lparr>f_path := path, f_parent_path := parent_cloud_path path, f_name := cloud_name path\<rparr>"

text \<open>The loop that re-roots the listed descendants, with the row update as a parameter.\<close>

definition move_descendants ::
    "(string \<Rightarrow> file_row \<Rightarrow> file_row) \<Rightarrow> string \<Rightarrow> string \<Rightarrow> (string \<times> string) list \<Rightarrow> db \<Rightarrow> db_error + db" where
  "move_descendants mv old_path new_path descendants d =
     fold_result (\<lambda>(remote_id, path) d'.
         case strip_prefix old_path path of
           None \<Rightarrow> Inl LostPrefix
         | Some sfx \<Rightarrow>
             update_files (at_id remote_id) (mv (normalize_cloud_path (new_path @ sfx))) d')
       descendants d"

definition subtree_rows :: "string \<Rightarrow> db \<Rightarrow> (string \<times> string) list" where
  "subtree_rows a d =
     map (\<lambda>r. (f_remote_id r, f_path r))
       (sort_key f_path (filter (\<lambda>r. in_subtree a (f_path r)) (t_files d)))"

definition upsert_entry :: "disk \<Rightarrow> bool \<Rightarrow> metadata_entry \<Rightarrow> db \<Rightarrow> db_error + db" where
  "upsert_entry k block e d =
     (if entry_pending_delete e d then Inr d
      else
        let local_id = entry_local_id e d in
        if entry_pending_metadata local_id e d then Inr d
        else if protected_path local_id e d \<or> protected_id local_id d then Inr d
        else
          and_then (retire_obsolete k local_id e d) (\<lambda>d1.
            let d2 = detach_version local_id e d1;
                old_path = map_option f_path (file_by_id local_id d2) in
            and_then (write_entry local_id block e d2) (\<lambda>d3.
              case old_path of
                None \<Rightarrow> Inr d3
              | Some old \<Rightarrow>
                  if old = m_path e then Inr d3
                  else move_descendants move_row old (m_path e) (subtree_rows old d3) d3)))"

definition tx_upsert :: "disk \<Rightarrow> bool \<Rightarrow> metadata_entry list \<Rightarrow> unit tx" where
  "tx_upsert k block entries d =
     and_then (fold_result (upsert_entry k block) entries d) (\<lambda>d'. Inr ((), d'))"

definition upsert_metadata_entries ::
    "disk \<Rightarrow> bool \<Rightarrow> metadata_entry list \<Rightarrow> db \<Rightarrow> (db_error + unit) \<times> db" where
  "upsert_metadata_entries k block entries d = then_recompute (run_tx (tx_upsert k block entries) d)"

definition upsert_metadata :: "disk \<Rightarrow> metadata_entry \<Rightarrow> db \<Rightarrow> (db_error + unit) \<times> db" where
  "upsert_metadata k e d = upsert_metadata_entries k False [e] d"

definition upsert_metadata_batch :: "disk \<Rightarrow> metadata_entry list \<Rightarrow> db \<Rightarrow> (db_error + unit) \<times> db" where
  "upsert_metadata_batch k entries d = upsert_metadata_entries k True entries d"

section \<open>Binding and acknowledging\<close>

definition bind_cloud_identity :: "string \<Rightarrow> string \<Rightarrow> string \<Rightarrow> db \<Rightarrow> (db_error + unit) \<times> db" where
  "bind_cloud_identity local_id cloud_id etag d =
     (case update_files (at_id local_id) (\<lambda>r. r\<lparr>f_cloud_remote_id := Some cloud_id, f_etag := etag\<rparr>) d of
        Inl e \<Rightarrow> (Inl e, d)
      | Inr d' \<Rightarrow>
          if sql_count (at_id local_id) (t_files d) = 0 then (Inl (UnknownItem local_id), d')
          else (Inr (), d'))"

definition queue_op :: "(pending_metadata_kind \<Rightarrow> pending_metadata_kind) \<Rightarrow> pending_metadata_operation \<Rightarrow> db \<Rightarrow> db" where
  "queue_op merge_kind new d =
     d\<lparr>t_ops := sql_upsert o_local_id
         (\<lambda>old ex. old\<lparr>o_kind := merge_kind (o_kind old), o_path := o_path ex, o_queued_unix := o_queued_unix ex\<rparr>)
         new (t_ops d)\<rparr>"

definition is_alias :: "string \<Rightarrow> string \<Rightarrow> metadata_entry \<Rightarrow> db \<Rightarrow> file_row \<Rightarrow> bool" where
  "is_alias local_id requested uploaded d r =
     (f_cloud_remote_id r = Some (m_remote_id uploaded) \<and> f_remote_id r \<noteq> local_id \<and>
      f_path r = requested \<and> f_etag r = m_etag uploaded \<and> f_size r = m_size uploaded \<and>
      \<not> f_is_dir r \<and> \<not> f_pin_explicit r \<and>
      f_state r \<in> {OnlineOnly, Cached, Pinned, Hydrating} \<and>
      \<not> sql_exists (\<lambda>op. o_local_id op = f_remote_id r) (t_ops d))"

definition coalesce_alias :: "string \<Rightarrow> string \<Rightarrow> metadata_entry \<Rightarrow> db \<Rightarrow> db" where
  "coalesce_alias local_id requested uploaded d =
     (case sql_first (is_alias local_id requested uploaded d) (t_files d) of
        None \<Rightarrow> d
      | Some a \<Rightarrow>
          delete_files (at_id (f_remote_id a))
            (case f_cache_path a of None \<Rightarrow> d | Some c \<Rightarrow> retire_cache c d))"

text \<open>?3 = is_current_generation, ?9 = cloud_identity_matches.\<close>

definition ack_row :: "int \<Rightarrow> bool \<Rightarrow> bool \<Rightarrow> metadata_entry \<Rightarrow> int \<Rightarrow> string \<Rightarrow> file_row \<Rightarrow> file_row" where
  "ack_row now is_current matches uploaded modified cache r =
     r\<lparr>f_upload_path := None, f_upload_target_id := None, f_upload_cache_path := None,
       f_cloud_remote_id := (if is_current \<or> f_cloud_remote_id r = None
                             then Some (m_remote_id uploaded) else f_cloud_remote_id r),
       f_etag := (if matches then m_etag uploaded else f_etag r),
       f_modified_unix := (if is_current then modified else f_modified_unix r),
       f_size := (if is_current then clamp_size (m_size uploaded) else f_size r),
       f_state := (if \<not> is_current then f_state r else if row_pinned r then Pinned else Cached),
       f_cache_path := (if is_current then Some cache else f_cache_path r),
       f_cache_accessed_unix := (if is_current then Some now else f_cache_accessed_unix r)\<rparr>"

definition current_generation :: "string \<Rightarrow> string \<Rightarrow> file_row \<Rightarrow> bool" where
  "current_generation requested cache r =
     (f_path r = requested \<and> f_state r = Uploading \<and> f_cache_path r = Some cache)"

definition tx_commit_uploaded ::
    "int \<Rightarrow> string \<Rightarrow> string \<Rightarrow> metadata_entry \<Rightarrow> string \<Rightarrow> unit tx" where
  "tx_commit_uploaded now local_id requested_path uploaded cache d =
     (case file_by_id local_id d of
        None \<Rightarrow> Inl (Disappeared local_id)
      | Some current \<Rightarrow>
          let requested = normalize_cloud_path requested_path;
              is_current = current_generation requested cache current;
              matches = (case f_cloud_remote_id current of None \<Rightarrow> True
                         | Some c \<Rightarrow> c = m_remote_id uploaded);
              needs_cloud_move = (f_path current \<noteq> requested \<and> f_cloud_remote_id current = None);
              d1 = (if f_cloud_remote_id current = None
                    then coalesce_alias local_id requested uploaded d else d)
          in and_then (update_files (at_id local_id)
               (ack_row now is_current matches uploaded (f_modified_unix current) cache) d1)
             (\<lambda>d2. Inr ((), if needs_cloud_move
                            then queue_op (\<lambda>_. Move) \<lparr>o_local_id = local_id, o_kind = Move,
                                   o_path = f_path current, o_queued_unix = now\<rparr> d2
                            else d2)))"

definition commit_uploaded ::
    "int \<Rightarrow> string \<Rightarrow> string \<Rightarrow> metadata_entry \<Rightarrow> string \<Rightarrow> db \<Rightarrow> (db_error + file_record) \<times> db" where
  "commit_uploaded now local_id requested_path uploaded cache d =
     (case run_tx (tx_commit_uploaded now local_id requested_path uploaded cache) d of
        (Inl e, d') \<Rightarrow> (Inl e, d')
      | (Inr _, d') \<Rightarrow>
          (case get_by_remote_id local_id d' of
             None \<Rightarrow> (Inl (Disappeared local_id), d')
           | Some rec \<Rightarrow> (Inr rec, d')))"

section \<open>Publishing a recovery copy\<close>

definition copy_row :: "int \<Rightarrow> string \<Rightarrow> file_record \<Rightarrow> metadata_entry \<Rightarrow> string \<Rightarrow> file_row" where
  "copy_row now copy_id original uploaded cache =
     blank_row\<lparr>f_remote_id := copy_id, f_cloud_remote_id := Some (m_remote_id uploaded),
       f_path := m_path uploaded, f_parent_path := m_parent_path uploaded, f_name := m_name uploaded,
       f_is_dir := False, f_size := m_size uploaded,
       f_modified_unix := m_modified_unix (metadata original), f_etag := m_etag uploaded,
       f_state := Cached, f_cache_path := Some cache, f_cache_accessed_unix := Some now,
       f_local_mode := r_local_mode original\<rparr>"

definition attach_copy :: "file_row \<Rightarrow> file_row \<Rightarrow> file_row" where
  "attach_copy ex r =
     r\<lparr>f_size := f_size ex, f_modified_unix := f_modified_unix ex, f_etag := f_etag ex,
       f_state := (if row_pinned r then Pinned else Cached),
       f_cache_path := f_cache_path ex, f_cache_accessed_unix := f_cache_accessed_unix ex\<rparr>"

text \<open>INSERT .. ON CONFLICT(remote_id) DO UPDATE .. WHERE: None when no row was changed.\<close>

definition publish_copy :: "file_row \<Rightarrow> db \<Rightarrow> db_error + db" where
  "publish_copy ex d =
     (case file_by_id (f_remote_id ex) d of
        None \<Rightarrow> insert_file ex d
      | Some r \<Rightarrow>
          if f_cloud_remote_id r = f_cloud_remote_id ex \<and>
             f_state r \<in> {OnlineOnly, Cached, Pinned, Hydrating}
          then Inr (touch_files (at_id (f_remote_id ex)) (attach_copy ex) d)
          else Inl ProtectedGeneration)"

definition failed_generation :: "file_record \<Rightarrow> metadata_entry \<Rightarrow> string \<Rightarrow> db \<Rightarrow> file_row \<Rightarrow> bool" where
  "failed_generation original uploaded cache d r =
     (f_remote_id r = m_remote_id (metadata original) \<and> f_state r = Conflict \<and>
      f_cache_path r = Some cache \<and> f_cloud_remote_id r = r_cloud_remote_id original \<and>
      f_size r = m_size (metadata original) \<and>
      f_modified_unix r = m_modified_unix (metadata original) \<and>
      f_etag r = m_etag (metadata original) \<and> f_upload_path r = Some (m_path uploaded) \<and>
      f_upload_cache_path r = Some cache \<and> f_upload_target_id r = None \<and>
      \<not> sql_exists (\<lambda>op. o_local_id op = m_remote_id (metadata original)) (t_ops d))"

definition tx_missing_conflict ::
    "int \<Rightarrow> file_record \<Rightarrow> metadata_entry \<Rightarrow> string \<Rightarrow> bool tx" where
  "tx_missing_conflict now original uploaded cache d =
     (let oid = m_remote_id (metadata original) in
      if \<not> (sql_exists (\<lambda>r. f_remote_id r = oid) (t_files d) \<and>
             \<not> sql_exists (\<lambda>p. d_local_id p = Some oid) (t_deletes d)) then Inr (False, d)
      else
        let copy_id = (case sql_first (\<lambda>r. f_cloud_remote_id r = Some (m_remote_id uploaded)) (t_files d) of
                         None \<Rightarrow> m_remote_id uploaded | Some r \<Rightarrow> f_remote_id r) in
        if copy_id = oid then Inl ReusedIdentity
        else
          let d1 = (case sql_first (\<lambda>r. f_remote_id r = copy_id \<and> f_state r \<in> {Cached, Pinned} \<and>
                            f_cache_path r \<noteq> None \<and> f_cache_path r \<noteq> Some cache) (t_files d) of
                      None \<Rightarrow> d
                    | Some r \<Rightarrow> (case f_cache_path r of None \<Rightarrow> d | Some p \<Rightarrow> retire_cache p d))
          in and_then (publish_copy (copy_row now copy_id original uploaded cache) d1) (\<lambda>d2.
               let d3 = delete_files (failed_generation original uploaded cache d2) d2;
                   d4 = touch_files (\<lambda>r. f_remote_id r = oid \<and> f_upload_path r = Some (m_path uploaded) \<and>
                            f_upload_cache_path r = Some cache \<and> f_upload_target_id r = None)
                          (\<lambda>r. r\<lparr>f_upload_path := None, f_upload_target_id := None,
                               f_upload_cache_path := None\<rparr>) d3
               in Inr (True, d4)))"

definition complete_missing_conflict_upload ::
    "int \<Rightarrow> file_record \<Rightarrow> metadata_entry \<Rightarrow> string \<Rightarrow> db \<Rightarrow> (db_error + bool) \<times> db" where
  "complete_missing_conflict_upload now original uploaded cache d =
     (case run_tx (tx_missing_conflict now original uploaded cache) d of
        (Inl e, d') \<Rightarrow> (Inl e, d')
      | (Inr False, d') \<Rightarrow> (Inr False, d')
      | (Inr True, d') \<Rightarrow> (Inr True, recompute_pin_inheritance d'))"

section \<open>The invariant\<close>

lemma wf_retire_obsolete: "wf_db d \<Longrightarrow> retire_obsolete k i e d = Inr d' \<Longrightarrow> wf_db d'"
  by (auto simp: retire_obsolete_def and_then_Inr_iff wf_retire_cache split: option.splits if_splits)

lemma wf_detach_version: "wf_db d \<Longrightarrow> wf_db (detach_version i e d)"
  unfolding detach_version_def by (rule wf_touch_files) simp_all

lemma wf_write_entry: "wf_db d \<Longrightarrow> write_entry i b e d = Inr d' \<Longrightarrow> wf_db d'"
  by (auto simp: write_entry_def Let_def split: if_splits
      intro: wf_update_files wf_insert_file wf_delete_files)

lemma wf_move_descendants: "wf_db d \<Longrightarrow> move_descendants mv old new ds d = Inr d' \<Longrightarrow> wf_db d'"
  unfolding move_descendants_def
  by (rule fold_result_inv[where P = wf_db]) (auto split: option.splits intro: wf_update_files)

text \<open>An entry is skipped, or written in the four steps of the code.\<close>

lemma upsert_entry_cases:
  assumes "upsert_entry k b e d = Inr d'"
  obtains "d' = d"
  | i d1 d3 where "i = entry_local_id e d" "\<not> entry_pending_delete e d"
      "\<not> entry_pending_metadata i e d" "\<not> protected_path i e d" "\<not> protected_id i d"
      "retire_obsolete k i e d = Inr d1" "write_entry i b e (detach_version i e d1) = Inr d3"
      "d' = d3 \<or> (\<exists>old. move_descendants move_row old (m_path e) (subtree_rows old d3) d3 = Inr d' \<and>
         map_option f_path (file_by_id i (detach_version i e d1)) = Some old \<and> old \<noteq> m_path e)"
proof (cases "entry_pending_delete e d \<or> entry_pending_metadata (entry_local_id e d) e d \<or>
    protected_path (entry_local_id e d) e d \<or> protected_id (entry_local_id e d) d")
  case True
  with assms have "d' = d" by (auto simp: upsert_entry_def Let_def split: if_splits)
  then show thesis by (rule that(1))
next
  case False
  let ?i = "entry_local_id e d"
  from False assms obtain d1 d3 where steps: "retire_obsolete k ?i e d = Inr d1"
      "write_entry ?i b e (detach_version ?i e d1) = Inr d3"
    and rest: "(case map_option f_path (file_by_id ?i (detach_version ?i e d1)) of None \<Rightarrow> Inr d3
       | Some old \<Rightarrow> if old = m_path e then Inr d3
           else move_descendants move_row old (m_path e) (subtree_rows old d3) d3) = Inr d'"
    by (auto simp: upsert_entry_def Let_def and_then_Inr_iff)
  from rest have "d' = d3 \<or> (\<exists>old. move_descendants move_row old (m_path e) (subtree_rows old d3) d3 = Inr d' \<and>
         map_option f_path (file_by_id ?i (detach_version ?i e d1)) = Some old \<and> old \<noteq> m_path e)"
    by (cases "file_by_id ?i (detach_version ?i e d1)") (auto split: if_splits)
  with False steps show thesis by (intro that(2)[of ?i d1 d3]) auto
qed

lemma wf_upsert_entry:
  assumes "wf_db d" "upsert_entry k b e d = Inr d'"
  shows "wf_db d'"
  using assms(2)
proof (rule upsert_entry_cases)
  fix i d1 d3
  assume "retire_obsolete k i e d = Inr d1" "write_entry i b e (detach_version i e d1) = Inr d3"
  then have "wf_db d3"
    using assms(1) wf_retire_obsolete wf_detach_version wf_write_entry by blast
  moreover assume "d' = d3 \<or> (\<exists>old. move_descendants move_row old (m_path e) (subtree_rows old d3) d3 = Inr d' \<and>
         map_option f_path (file_by_id i (detach_version i e d1)) = Some old \<and> old \<noteq> m_path e)"
  ultimately show ?thesis using wf_move_descendants by blast
qed (use assms in simp)

section \<open>Imports keep local work\<close>

lemma retire_obsolete_files: "retire_obsolete k i e d = Inr d' \<Longrightarrow> t_files d' = t_files d"
  by (auto simp: retire_obsolete_def and_then_Inr_iff split: option.splits if_splits)

lemma keeps_work_move_descendants:
  assumes "\<And>p r. f_remote_id (mv p r) = f_remote_id r"
    and "\<And>p r. local_work (f_state r) \<Longrightarrow> same_bytes r (mv p r)"
  shows "move_descendants mv old new ds d = Inr d' \<Longrightarrow> keeps_work d d'"
proof -
  have step: "keeps_work d e'" if "keeps_work d e" "update_files (at_id i) (mv p) e = Inr e'" for e e' i p
    using that keeps_work_update[OF that(2)] assms keeps_work_trans by blast
  show "move_descendants mv old new ds d = Inr d' \<Longrightarrow> keeps_work d d'"
    unfolding move_descendants_def
    by (rule fold_result_inv[where P = "keeps_work d"]) (auto split: option.splits intro: step)
qed

lemma same_bytes_move [simp]: "same_bytes r (move_row p r)"
  by (simp add: same_bytes_def move_row_def)

lemma keeps_work_upsert_entry:
  assumes wf: "wf_db d" and run: "upsert_entry k b e d = Inr d'"
  shows "keeps_work d d'"
  using run
proof (rule upsert_entry_cases)
  fix i d1 d3
  assume prot: "\<not> protected_path i e d" "\<not> protected_id i d"
    and steps: "retire_obsolete k i e d = Inr d1" "write_entry i b e (detach_version i e d1) = Inr d3"
    and rest: "d' = d3 \<or> (\<exists>old. move_descendants move_row old (m_path e) (subtree_rows old d3) d3 = Inr d' \<and>
         map_option f_path (file_by_id i (detach_version i e d1)) = Some old \<and> old \<noteq> m_path e)"
  let ?d2 = "detach_version i e d1"
  let ?del = "\<lambda>r. f_path r = m_path e \<and> f_remote_id r \<noteq> i"
  have files: "t_files d1 = t_files d" using steps(1) by (rule retire_obsolete_files)
  have unprot: "f_remote_id r \<noteq> i" "\<not> ?del r" if "r \<in> set (t_files d)" "local_work (f_state r)" for r
    using prot that by (auto simp: protected_path_def protected_id_def table_simps)
  have rows: "r \<in> set (t_files d)" if "r \<in> set (t_files ?d2)" "local_work (f_state r)" for r
    using that by (auto simp: detach_version_def table_simps files local_work_def split: if_splits)
  have wf2: "wf_db ?d2" using wf steps(1) wf_retire_obsolete wf_detach_version by blast
  have k1: "keeps_work d d1" using files by (rule keeps_work_files)
  have k2: "keeps_work d1 ?d2"
    unfolding detach_version_def by (rule keeps_work_touch) (use unprot files in auto)
  have k3: "keeps_work ?d2 (delete_files ?del ?d2)"
    by (rule keeps_work_delete[OF wf2]) (use rows unprot in blast)
  have k4: "keeps_work (delete_files ?del ?d2) d3"
  proof (cases "file_by_id i (delete_files ?del ?d2)")
    case None
    with steps(2) have "insert_file (entry_row i b e) (delete_files ?del ?d2) = Inr d3"
      by (simp add: write_entry_def)
    then show ?thesis by (rule keeps_work_insert) (simp add: entry_row_def None)
  next
    case (Some r)
    with steps(2) have "update_files (at_id i) (merge_entry e) (delete_files ?del ?d2) = Inr d3"
      by (simp add: write_entry_def)
    moreover have "f_remote_id r \<noteq> i" if "r \<in> set (t_files (delete_files ?del ?d2))" "local_work (f_state r)" for r
      using that rows unprot(1) by (simp add: set_sql_delete)
    ultimately show ?thesis
      by (elim keeps_work_update) (auto simp: at_id_def merge_entry_def simp del: delete_files_sel)
  qed
  have "keeps_work d3 d'" if "move_descendants move_row old new ds d3 = Inr d'" for old new ds
    using keeps_work_move_descendants[OF _ same_bytes_move that] by (simp add: move_row_def)
  then have "keeps_work d3 d'" using rest by auto
  with k1 k2 k3 k4 show ?thesis by (blast intro: keeps_work_trans)
qed simp

interpretation upsert: import_step "upsert_entry k b" for k b
  by unfold_locales (auto intro: wf_upsert_entry keeps_work_upsert_entry)

lemma upsert_metadata_entries_safe:
  assumes "wf_db d"
  shows "wf_db (snd (upsert_metadata_entries k b es d))" "keeps_work d (snd (upsert_metadata_entries k b es d))"
  using upsert.transaction[OF assms tx_upsert_def]
  by (simp_all add: upsert_metadata_entries_def)

lemma wf_queue_op [wf_intros]: "wf_db d \<Longrightarrow> wf_db (queue_op f new d)"
  by (simp add: wf_db_def queue_op_def distinct_sql_upsert)

lemma wf_coalesce_alias: "wf_db d \<Longrightarrow> wf_db (coalesce_alias i p u d)"
  by (auto simp: coalesce_alias_def wf_delete_files wf_retire_cache split: option.splits)

lemma wf_tx_commit_uploaded: "wf_db d \<Longrightarrow> tx_commit_uploaded now i p u c d = Inr (a, d') \<Longrightarrow> wf_db d'"
  by (auto simp: tx_commit_uploaded_def Let_def and_then_Inr_iff split: option.splits if_splits
      intro!: wf_queue_op intro: wf_update_files[OF wf_coalesce_alias] wf_update_files)

lemma wf_commit_uploaded: "wf_db d \<Longrightarrow> wf_db (snd (commit_uploaded now i p u c d))"
  using wf_run_tx[of d "tx_commit_uploaded now i p u c"] wf_tx_commit_uploaded[of d now i p u c]
  by (auto simp: commit_uploaded_def split: prod.splits sum.splits option.splits)

lemma wf_publish_copy: "wf_db d \<Longrightarrow> publish_copy ex d = Inr d' \<Longrightarrow> wf_db d'"
  by (auto simp: publish_copy_def split: option.splits if_splits
      intro: wf_insert_file intro!: wf_touch_files) (simp_all add: attach_copy_def)

section \<open>What an import writes\<close>

text \<open>A file whose version the entry does not change keeps its cache and its local mtime.\<close>

lemma file_by_id_detach:
  "file_by_id j (detach_version i e d) = map_option (\<lambda>r. if f_remote_id r = i \<and> entry_changed e r
     then r\<lparr>f_cache_path := None, f_cache_accessed_unix := None, f_state := OnlineOnly,
            f_download_generation := f_download_generation r + 1\<rparr> else r) (file_by_id j d)"
  unfolding detach_version_def by (rule file_by_id_touch) simp

lemma file_by_id_move_other:
  assumes "\<And>p r. f_remote_id (mv p r) = f_remote_id r"
  shows "i \<notin> fst ` set ds \<Longrightarrow> move_descendants mv old new ds d = Inr d' \<Longrightarrow> file_by_id i d' = file_by_id i d"
proof (induction ds arbitrary: d)
  case Nil
  then show ?case by (simp add: move_descendants_def)
next
  case (Cons x ds)
  obtain j p where x: "x = (j, p)" by (cases x)
  with Cons.prems obtain s e where e: "update_files (at_id j) (mv (normalize_cloud_path (new @ s))) d = Inr e"
      "move_descendants mv old new ds e = Inr d'"
    by (auto simp: move_descendants_def and_then_Inr_iff split: option.splits)
  have "file_by_id i e = file_by_id i d"
    using file_by_id_update[OF e(1) assms] x Cons.prems(1)
    by (cases "file_by_id i d") (auto simp: at_id_def dest: file_by_id_SomeD)
  with Cons.IH[of e] e(2) Cons.prems(1) show ?case by simp
qed

text \<open>Each listed row is moved once, to the path that replaces its prefix.\<close>

lemma move_descendants_row:
  assumes keep: "\<And>p r. f_remote_id (mv p r) = f_remote_id r"
  shows "distinct (map fst ds) \<Longrightarrow> move_descendants mv old new ds d = Inr d' \<Longrightarrow>
    file_by_id i d' = map_option (\<lambda>r. case map_of ds i of None \<Rightarrow> r
      | Some p \<Rightarrow> mv (normalize_cloud_path (new @ drop (length old) p)) r) (file_by_id i d)"
proof (induction ds arbitrary: d)
  case Nil
  then show ?case by (simp add: move_descendants_def option.map_ident)
next
  case (Cons x ds)
  obtain j p where x: "x = (j, p)" by (cases x)
  with Cons.prems obtain s e where e: "strip_prefix old p = Some s"
      "update_files (at_id j) (mv (normalize_cloud_path (new @ s))) d = Inr e"
      "move_descendants mv old new ds e = Inr d'"
    by (auto simp: move_descendants_def and_then_Inr_iff split: option.splits)
  have s: "s = drop (length old) p" using strip_prefix_SomeD[OF e(1)] by simp
  have step: "file_by_id i e =
      map_option (\<lambda>r. if i = j then mv (normalize_cloud_path (new @ s)) r else r) (file_by_id i d)"
    using file_by_id_update[OF e(2) keep] file_by_id_SomeD[of i d]
    by (cases "file_by_id i d") (auto simp: at_id_def)
  have none: "i = j \<Longrightarrow> map_of ds i = None"
    using Cons.prems(1) x by (auto simp: map_of_eq_None_iff)
  show ?case
    using Cons.IH[OF _ e(3)] Cons.prems(1) x step none s
    by (cases "file_by_id i d") (auto split: option.splits)
qed

lemma write_entry_row:
  assumes wf: "wf_db d" and run: "write_entry i b e d = Inr d'"
  shows "file_by_id i d' = Some (case file_by_id i d of None \<Rightarrow> entry_row i b e | Some r \<Rightarrow> merge_entry e r)"
proof -
  let ?d1 = "delete_files (\<lambda>r. f_path r = m_path e \<and> f_remote_id r \<noteq> i) d"
  have row: "file_by_id i ?d1 = file_by_id i d"
  proof (cases "file_by_id i d")
    case None
    then have "file_by_id i ?d1 = None" by (auto simp: file_by_id_None set_sql_delete)
    with None show ?thesis by simp
  next
    case (Some r)
    with wf show ?thesis using file_by_id_SomeD[OF Some] by (simp add: file_by_id_delete_keep)
  qed
  show ?thesis
  proof (cases "file_by_id i d")
    case None
    with run row have "insert_file (entry_row i b e) ?d1 = Inr d'" by (simp add: write_entry_def)
    with None show ?thesis by (simp add: file_by_id_insert) (simp add: entry_row_def)
  next
    case (Some r)
    with run row have u: "update_files (at_id i) (merge_entry e) ?d1 = Inr d'" by (simp add: write_entry_def)
    show ?thesis
      using file_by_id_update[OF u] Some row file_by_id_SomeD[OF Some] by (simp add: merge_entry_def at_id_def)
  qed
qed

lemma upsert_entry_effect:
  assumes wf: "wf_db d" and run: "upsert_entry k b e d = Inr d'" and i: "i = entry_local_id e d"
    and go: "\<not> entry_pending_delete e d" "\<not> entry_pending_metadata i e d"
      "\<not> protected_path i e d" "\<not> protected_id i d"
    and r: "file_by_id i d = Some r" and out: "\<not> in_subtree (f_path r) (m_path e)"
  shows "\<exists>r'. file_by_id i d' = Some r' \<and> f_path r' = m_path e \<and> f_etag r' = m_etag e \<and>
    f_size r' = m_size e \<and> f_cloud_remote_id r' = entry_cloud_id e \<and>
    f_cache_path r' = (if entry_changed e r then None else f_cache_path r) \<and>
    (\<not> entry_changed e r \<and> \<not> f_is_dir r \<and> m_etag e \<noteq> [] \<longrightarrow> f_modified_unix r' = f_modified_unix r)"
proof -
  from run go i obtain d1 d3 where steps: "retire_obsolete k i e d = Inr d1"
      "write_entry i b e (detach_version i e d1) = Inr d3"
    and rest: "(case map_option f_path (file_by_id i (detach_version i e d1)) of None \<Rightarrow> Inr d3
       | Some old \<Rightarrow> if old = m_path e then Inr d3
           else move_descendants move_row old (m_path e) (subtree_rows old d3) d3) = Inr d'"
    by (auto simp: upsert_entry_def Let_def and_then_Inr_iff)
  let ?d2 = "detach_version i e d1"
  let ?r2 = "if entry_changed e r then r\<lparr>f_cache_path := None, f_cache_accessed_unix := None,
     f_state := OnlineOnly, f_download_generation := f_download_generation r + 1\<rparr> else r"
  have wf1: "wf_db d1" and wf2: "wf_db ?d2"
    using wf steps(1) wf_retire_obsolete wf_detach_version by blast+
  have "file_by_id i d1 = Some r"
    using r retire_obsolete_files[OF steps(1)] by (simp add: file_by_id_def)
  then have r2: "file_by_id i ?d2 = Some ?r2"
    using file_by_id_SomeD[OF r] by (simp add: file_by_id_detach)
  then have row: "file_by_id i d3 = Some (merge_entry e ?r2)"
    using write_entry_row[OF wf2 steps(2)] by simp
  have wf3: "wf_db d3" using wf_write_entry[OF wf2 steps(2)] .
  have "file_by_id i d' = file_by_id i d3"
  proof (cases "f_path r = m_path e")
    case True
    with rest r2 show ?thesis by (auto split: if_splits)
  next
    case False
    with rest r2 have mv: "move_descendants move_row (f_path r) (m_path e) (subtree_rows (f_path r) d3) d3 = Inr d'"
      by (auto split: if_splits)
    have "\<not> in_subtree (f_path r) (f_path x)" if "x \<in> set (t_files d3)" "f_remote_id x = i" for x
    proof -
      have "x = merge_entry e ?r2" by (rule file_by_id_unique[OF wf3 row that])
      then have "f_path x = m_path e" by (simp add: merge_entry_def)
      with out show ?thesis by simp
    qed
    then have "i \<notin> fst ` set (subtree_rows (f_path r) d3)" by (auto simp: subtree_rows_def)
    with mv show ?thesis
      by (intro file_by_id_move_other[of move_row]) (simp_all add: move_row_def)
  qed
  with row show ?thesis by (auto simp: merge_entry_def entry_changed_def)
qed

section \<open>What an acknowledgement writes\<close>

lemma coalesce_alias_row:
  assumes "wf_db d" "file_by_id j d = Some r" "j = local_id \<or> local_work (f_state r)"
  shows "file_by_id j (coalesce_alias local_id p u d) = Some r"
proof (cases "sql_first (is_alias local_id p u d) (t_files d)")
  case None
  with assms show ?thesis by (simp add: coalesce_alias_def)
next
  case (Some a)
  then have a: "a \<in> set (t_files d)" "is_alias local_id p u d a" by (auto dest: sql_first_SomeD)
  have "f_remote_id r \<noteq> f_remote_id a"
  proof
    assume "f_remote_id r = f_remote_id a"
    then have "a = r" using file_by_id_unique[OF assms(1,2)] a(1) file_by_id_SomeD[OF assms(2)] by simp
    with a(2) assms(3) file_by_id_SomeD[OF assms(2)] show False by (auto simp: is_alias_def local_work_def)
  qed
  moreover have "file_by_id j (case f_cache_path a of None \<Rightarrow> d | Some c \<Rightarrow> retire_cache c d) = Some r"
    using assms(2) by (simp add: file_by_id_def split: option.splits)
  moreover have "wf_db (case f_cache_path a of None \<Rightarrow> d | Some c \<Rightarrow> retire_cache c d)"
    using assms(1) by (simp add: wf_retire_cache split: option.splits)
  ultimately show ?thesis using Some
    by (simp add: coalesce_alias_def file_by_id_delete_keep at_id_def)
qed

lemma file_by_id_queue_op [simp]: "file_by_id i (queue_op f n d) = file_by_id i d"
  by (simp add: file_by_id_def queue_op_def)

lemma commit_uploaded_rows:
  assumes wf: "wf_db d" and run: "commit_uploaded now i p u c d = (Inr rec, d')"
    and cur: "file_by_id i d = Some r"
  shows "file_by_id i d' = Some (ack_row now (current_generation (normalize_cloud_path p) c r)
      (case f_cloud_remote_id r of None \<Rightarrow> True | Some x \<Rightarrow> x = m_remote_id u) u (f_modified_unix r) c r)"
    and "j \<noteq> i \<Longrightarrow> file_by_id j d = Some q \<Longrightarrow> local_work (f_state q) \<Longrightarrow> file_by_id j d' = Some q"
proof -
  let ?a = "ack_row now (current_generation (normalize_cloud_path p) c r)
      (case f_cloud_remote_id r of None \<Rightarrow> True | Some x \<Rightarrow> x = m_remote_id u) u (f_modified_unix r) c"
  let ?d1 = "if f_cloud_remote_id r = None then coalesce_alias i (normalize_cloud_path p) u d else d"
  from run obtain d0 where "tx_commit_uploaded now i p u c d = Inr ((), d')"
    by (auto simp: commit_uploaded_def run_tx_def split: sum.splits option.splits prod.splits)
  with cur obtain d2 where d2: "update_files (at_id i) ?a ?d1 = Inr d2"
      "\<And>j. file_by_id j d' = file_by_id j d2"
    by (auto simp: tx_commit_uploaded_def Let_def and_then_Inr_iff split: if_splits)
  have keep: "f_remote_id (?a x) = f_remote_id x" for x by (simp add: ack_row_def)
  have "file_by_id i ?d1 = Some r" using cur coalesce_alias_row[OF wf cur] by simp
  then show "file_by_id i d' = Some (?a r)"
    using file_by_id_update[OF d2(1) keep, of i] d2(2) file_by_id_SomeD[OF cur] by (simp add: at_id_def)
  assume j: "j \<noteq> i" "file_by_id j d = Some q" "local_work (f_state q)"
  then have "file_by_id j ?d1 = Some q" using coalesce_alias_row[OF wf j(2)] by simp
  then show "file_by_id j d' = Some q"
    using file_by_id_update[OF d2(1) keep, of j] d2(2) j file_by_id_SomeD[OF j(2)] by (simp add: at_id_def)
qed

section \<open>What a recovery copy retires\<close>

lemma publish_copy_keeps:
  assumes "publish_copy ex d = Inr d'"
  shows "keeps_work d d'" "t_ops d' = t_ops d"
proof -
  show "keeps_work d d'"
  proof (cases "file_by_id (f_remote_id ex) d")
    case None
    with assms show ?thesis by (auto simp: publish_copy_def intro: keeps_work_insert)
  next
    case (Some r)
    with assms have r: "f_state r \<in> {OnlineOnly, Cached, Pinned, Hydrating}"
      and d': "d' = touch_files (at_id (f_remote_id ex)) (attach_copy ex) d"
      by (auto simp: publish_copy_def split: if_splits)
    show ?thesis unfolding keeps_work_def
    proof (intro allI impI)
      fix j q
      assume q: "file_by_id j d = Some q \<and> local_work (f_state q)"
      with r Some have "j \<noteq> f_remote_id ex" by (auto simp: local_work_def)
      then have "file_by_id j d' = Some q" using q
        by (auto simp: d' file_by_id_touch attach_copy_def at_id_def dest: file_by_id_SomeD)
      then show "\<exists>r'. file_by_id j d' = Some r' \<and> same_bytes q r'" by simp
    qed
  qed
  show "t_ops d' = t_ops d"
    using assms by (auto simp: publish_copy_def dest: insert_file_InrD split: option.splits if_splits)
qed

lemma wf_tx_missing_conflict: "wf_db d \<Longrightarrow> tx_missing_conflict now orig u c d = Inr (a, d') \<Longrightarrow> wf_db d'"
  by (auto simp: tx_missing_conflict_def Let_def and_then_Inr_iff split: if_splits option.splits
      intro!: wf_touch_files wf_delete_files intro: wf_publish_copy wf_publish_copy[OF wf_retire_cache])


lemma wf_complete_missing: "wf_db d \<Longrightarrow> wf_db (snd (complete_missing_conflict_upload now orig u c d))"
proof -
  assume wf: "wf_db d"
  have "wf_db (snd (run_tx (tx_missing_conflict now orig u c) d))"
    by (rule wf_run_tx[OF wf]) (rule wf_tx_missing_conflict[OF wf])
  then show ?thesis
    by (auto simp: complete_missing_conflict_upload_def split: prod.splits sum.splits bool.splits intro: wf_recompute)
qed

lemma wf_bind_cloud: "wf_db d \<Longrightarrow> wf_db (snd (bind_cloud_identity i c e d))"
  by (auto simp: bind_cloud_identity_def split: sum.splits dest: update_files_ok intro: wf_update_files)

section \<open>Properties\<close>

text \<open>Importing cloud metadata, in any number of entries and whatever they say, never loses
  local work: a row with unsaved or unsent changes keeps its identity, state, bytes and claims.\<close>

lemma import_keeps_local_work:
  assumes "wf_db d"
  shows "keeps_work d (snd (upsert_metadata_entries k block entries d)) \<and>
    wf_db (snd (upsert_metadata_entries k block entries d))"
  using upsert_metadata_entries_safe[OF assms] by blast

lemma import_keeps_local_work_witness:
  "keeps_work sample_db (snd (upsert_metadata_entries (\<lambda>_. None) True
     [new_file ''f1'' ''/D/a'' 9 1 ''e9'', new_file ''x1'' ''/D/t'' 9 1 ''e9''] sample_db))"
proof -
  have "wf_db sample_db" by code_simp
  from import_keeps_local_work[OF this] show ?thesis by blast
qed

text \<open>An entry that no deletion, metadata job or local work holds back is applied: the row
  takes the name, version and size of the entry under its local identity; a clean cached copy is
  detached exactly when the version changed, and an unchanged file keeps its local time.\<close>

lemma import_applies_entry:
  assumes "wf_db d" "upsert_entry k block e d = Inr d'" "i = entry_local_id e d"
    and "\<not> entry_pending_delete e d" "\<not> entry_pending_metadata i e d"
      "\<not> protected_path i e d" "\<not> protected_id i d"
    and "file_by_id i d = Some r" "\<not> in_subtree (f_path r) (m_path e)"
  shows "\<exists>r'. file_by_id i d' = Some r' \<and> f_path r' = m_path e \<and> f_etag r' = m_etag e \<and>
    f_size r' = m_size e \<and> f_cloud_remote_id r' = entry_cloud_id e \<and>
    f_cache_path r' = (if entry_changed e r then None else f_cache_path r) \<and>
    (\<not> entry_changed e r \<and> \<not> f_is_dir r \<and> m_etag e \<noteq> [] \<longrightarrow> f_modified_unix r' = f_modified_unix r)"
  by (rule upsert_entry_effect[OF assms])

lemma import_applies_entry_witness:
  "\<exists>r'. file_by_id ''f2'' (sum.projr (upsert_entry (\<lambda>_. None) True (new_file ''f2'' ''/D/z'' 4 9 ''e2'') sample_db)) = Some r' \<and>
    f_path r' = ''/D/z'' \<and> f_cache_path r' = None"
proof -
  let ?e = "new_file ''f2'' ''/D/z'' 4 9 ''e2''"
  let ?r = "sample_row ''f2'' (Some ''f2'') ''/D/b'' (Some ''/c/f2'') Cached"
  have "case upsert_entry (\<lambda>_. None) True ?e sample_db of Inr _ \<Rightarrow> True | Inl _ \<Rightarrow> False" by code_simp
  then have run: "upsert_entry (\<lambda>_. None) True ?e sample_db = Inr (sum.projr (upsert_entry (\<lambda>_. None) True ?e sample_db))"
    by (simp split: sum.splits)
  have "wf_db sample_db" "''f2'' = entry_local_id ?e sample_db" "\<not> entry_pending_delete ?e sample_db"
    "\<not> entry_pending_metadata ''f2'' ?e sample_db" "\<not> protected_path ''f2'' ?e sample_db"
    "\<not> protected_id ''f2'' sample_db" "file_by_id ''f2'' sample_db = Some ?r"
    "\<not> in_subtree (f_path ?r) (m_path ?e)" "entry_changed ?e ?r" "m_path ?e = ''/D/z''" by code_simp+
  then show ?thesis using import_applies_entry[OF _ run, of "''f2''" ?r] by auto
qed



end
