(* ===== verification/Mutations.thy ===== *)
theory Mutations
  imports Metadata
begin

text \<open>
  crates/twodrive-core/src/database/mutations.rs and the migration of schema.rs: what the user's
  own operations do to the tables (create, move, replace, delete) and how the jobs they leave
  behind (pending_metadata_operations, pending_deletes) are queued, read and completed.
\<close>

section \<open>Creating and moving\<close>

definition move_subtree :: "disk \<Rightarrow> string \<Rightarrow> string \<Rightarrow> db \<Rightarrow> (db_error + unit) \<times> db" where
  "move_subtree k remote_id new_path d =
     (case get_by_remote_id remote_id d of
        None \<Rightarrow> (Inl (UnknownItem remote_id), d)
      | Some rec \<Rightarrow>
          let m = metadata rec;
              path = normalize_cloud_path new_path;
              entry = (if m_is_dir m
                       then new_dir remote_id path (m_modified_unix m) (m_etag m)
                       else new_file remote_id path (m_size m) (m_modified_unix m) (m_etag m)) in
          (case upsert_metadata k entry d of
             (Inl e, d') \<Rightarrow> (Inl e, d')
           | (Inr _, d') \<Rightarrow> allow_pin_inheritance remote_id d'))"

text \<open>mode & 0o777\<close>

definition permission_bits :: "u32 \<Rightarrow> u16" where
  "permission_bits mode = ucast (and mode 511)"

definition read_back :: "string \<Rightarrow> db \<Rightarrow> (db_error + file_record) \<times> db" where
  "read_back local_id d =
     (case get_by_remote_id local_id d of
        None \<Rightarrow> (Inl (Disappeared local_id), d)
      | Some rec \<Rightarrow> (Inr rec, d))"

definition local_file_row :: "int \<Rightarrow> string \<Rightarrow> string \<Rightarrow> string \<Rightarrow> u32 \<Rightarrow> file_row" where
  "local_file_row now local_id path cache mode =
     blank_row\<lparr>f_remote_id := local_id, f_path := path, f_parent_path := parent_cloud_path path,
       f_name := cloud_name path, f_modified_unix := now, f_state := Writing,
       f_cache_path := Some cache, f_cache_accessed_unix := Some now,
       f_pin_inheritance_blocked := True, f_local_mode := Some (permission_bits mode)\<rparr>"

definition create_local_file_with_mode ::
    "int \<Rightarrow> string \<Rightarrow> string \<Rightarrow> string \<Rightarrow> u32 \<Rightarrow> db \<Rightarrow> (db_error + file_record) \<times> db" where
  "create_local_file_with_mode now local_id path cache mode d =
     (case insert_file (local_file_row now local_id (normalize_cloud_path path) cache mode) d of
        Inl e \<Rightarrow> (Inl e, d)
      | Inr d' \<Rightarrow> read_back local_id d')"

definition create_local_file ::
    "int \<Rightarrow> string \<Rightarrow> string \<Rightarrow> string \<Rightarrow> db \<Rightarrow> (db_error + file_record) \<times> db" where
  "create_local_file now local_id path cache d =
     create_local_file_with_mode now local_id path cache 420 d"

definition local_dir_row :: "int \<Rightarrow> string \<Rightarrow> string \<Rightarrow> u32 \<Rightarrow> file_row" where
  "local_dir_row now local_id path mode =
     blank_row\<lparr>f_remote_id := local_id, f_path := path, f_parent_path := parent_cloud_path path,
       f_name := cloud_name path, f_is_dir := True, f_modified_unix := now, f_state := Dirty,
       f_local_mode := Some (permission_bits mode)\<rparr>"

text \<open>A plain INSERT of a job fails on a second job for the same item.\<close>

definition insert_op :: "pending_metadata_operation \<Rightarrow> db \<Rightarrow> db_error + db" where
  "insert_op op d =
     (if sql_exists (\<lambda>x. o_local_id x = o_local_id op) (t_ops d) then Inl ConstraintViolation
      else Inr (d\<lparr>t_ops := t_ops d @ [op]\<rparr>))"

definition tx_create_directory :: "int \<Rightarrow> string \<Rightarrow> string \<Rightarrow> u32 \<Rightarrow> unit tx" where
  "tx_create_directory now local_id path mode d =
     (if sql_exists (\<lambda>r. f_path r = path) (t_files d) then Inl (PathExists path)
      else and_then (insert_file (local_dir_row now local_id path mode) d) (\<lambda>d1.
           and_then (insert_op \<lparr>o_local_id = local_id, o_kind = CreateFolder, o_path = path,
                       o_queued_unix = now\<rparr> d1) (\<lambda>d2. Inr ((), d2))))"

definition create_local_directory_with_mode ::
    "int \<Rightarrow> string \<Rightarrow> string \<Rightarrow> u32 \<Rightarrow> db \<Rightarrow> (db_error + file_record) \<times> db" where
  "create_local_directory_with_mode now local_id path mode d =
     (case then_recompute (run_tx (tx_create_directory now local_id (normalize_cloud_path path) mode) d) of
        (Inl e, d') \<Rightarrow> (Inl e, d')
      | (Inr _, d') \<Rightarrow> read_back local_id d')"

definition create_local_directory ::
    "int \<Rightarrow> string \<Rightarrow> string \<Rightarrow> db \<Rightarrow> (db_error + file_record) \<times> db" where
  "create_local_directory now local_id path d = create_local_directory_with_mode now local_id path 493 d"

definition set_local_mode :: "string \<Rightarrow> u32 \<Rightarrow> db \<Rightarrow> (db_error + unit) \<times> db" where
  "set_local_mode local_id mode d =
     (let d' = touch_files (at_id local_id) (\<lambda>r. r\<lparr>f_local_mode := Some (permission_bits mode)\<rparr>) d in
      if sql_count (at_id local_id) (t_files d) = 1 then (Inr (), d')
      else (Inl (UnknownItem local_id), d'))"

definition has_pending_metadata_at_or_above :: "string \<Rightarrow> db \<Rightarrow> bool" where
  "has_pending_metadata_at_or_above path d = pending_metadata_above (normalize_cloud_path path) d"

text \<open>A rename makes a failed local upload that still has its bytes dirty again.\<close>

definition relocate_row :: "string \<Rightarrow> file_row \<Rightarrow> file_row" where
  "relocate_row path r =
     r\<lparr>f_path := path, f_parent_path := parent_cloud_path path, f_name := cloud_name path,
       f_pin_inheritance_blocked := False,
       f_state := (if f_state r = ErrorState \<and> f_cloud_remote_id r = None \<and> f_cache_path r \<noteq> None
                   then Dirty else f_state r)\<rparr>"

text \<open>The jobs below the new path follow their items.\<close>

definition redirect_ops :: "string \<Rightarrow> db \<Rightarrow> db" where
  "redirect_ops new_path d =
     d\<lparr>t_ops := sql_update
         (\<lambda>op. sql_exists (\<lambda>r. f_remote_id r = o_local_id op \<and> below new_path (f_path r)) (t_files d))
         (\<lambda>op. case file_by_id (o_local_id op) d of None \<Rightarrow> op | Some r \<Rightarrow> op\<lparr>o_path := f_path r\<rparr>)
         (t_ops d)\<rparr>"

definition queue_move :: "int \<Rightarrow> string \<Rightarrow> string \<Rightarrow> file_record \<Rightarrow> db \<Rightarrow> db" where
  "queue_move now local_id new_path rec d =
     (if r_cloud_remote_id rec \<noteq> None
      then queue_op (\<lambda>k. if k = CreateFolder then CreateFolder else Move)
             \<lparr>o_local_id = local_id, o_kind = Move, o_path = new_path, o_queued_unix = now\<rparr> d
      else if m_is_dir (metadata rec)
      then d\<lparr>t_ops := sql_update (\<lambda>op. o_local_id op = local_id)
               (\<lambda>op. op\<lparr>o_path := new_path, o_queued_unix := now\<rparr>) (t_ops d)\<rparr>
      else d)"

definition tx_move_subtree :: "int \<Rightarrow> string \<Rightarrow> string \<Rightarrow> file_record \<Rightarrow> file_record list \<Rightarrow> unit tx" where
  "tx_move_subtree now local_id new_path rec descendants d =
     and_then (update_files (at_id local_id) (relocate_row new_path) d) (\<lambda>d1.
     and_then (move_descendants relocate_row (m_path (metadata rec)) new_path
                (map (\<lambda>r. (m_remote_id (metadata r), m_path (metadata r))) descendants) d1) (\<lambda>d2.
       Inr ((), queue_move now local_id new_path rec (redirect_ops new_path d2))))"

definition move_subtree_and_queue :: "int \<Rightarrow> string \<Rightarrow> string \<Rightarrow> db \<Rightarrow> (db_error + unit) \<times> db" where
  "move_subtree_and_queue now local_id new_path d =
     (case get_by_remote_id local_id d of
        None \<Rightarrow> (Inl (UnknownItem local_id), d)
      | Some rec \<Rightarrow>
          then_recompute (run_tx (tx_move_subtree now local_id (normalize_cloud_path new_path) rec
              (list_descendants (m_path (metadata rec)) d)) d))"

section \<open>Replacing a file\<close>

text \<open>The column defaults of pending_deletes, and the two forms of its upsert.\<close>

definition plain_delete :: "string \<Rightarrow> string option \<Rightarrow> string \<Rightarrow> int \<Rightarrow> pending_delete" where
  "plain_delete remote_id cloud_id path queued =
     \<lparr>d_remote_id = remote_id, d_local_id = None, d_cloud_remote_id = cloud_id, d_path = path,
      d_cache_path = None, d_queued_unix = queued, d_upload_path = None, d_upload_target_id = None,
      d_upload_cache_path = None, d_uploaded_path = None, d_attempt_count = 0, d_next_retry_unix = 0,
      d_last_status = None, d_failure_kind = None\<rparr>"

definition upsert_delete ::
    "(pending_delete \<Rightarrow> pending_delete \<Rightarrow> pending_delete) \<Rightarrow> pending_delete \<Rightarrow> db \<Rightarrow> db" where
  "upsert_delete merge p d = d\<lparr>t_deletes := sql_upsert d_remote_id merge p (t_deletes d)\<rparr>"

definition replaced_row :: "int \<Rightarrow> string \<Rightarrow> file_record \<Rightarrow> file_row \<Rightarrow> file_row" where
  "replaced_row now new_path source r =
     r\<lparr>f_path := new_path, f_parent_path := parent_cloud_path new_path, f_name := cloud_name new_path,
       f_size := clamp_size (m_size (metadata source)),
       f_modified_unix := m_modified_unix (metadata source),
       f_state := (if r_state source = Writing then Writing else Dirty),
       f_cache_path := r_cache_path source, f_cache_accessed_unix := Some now,
       f_local_mode := r_local_mode source\<rparr>"

text \<open>The cloud object of the source is obsolete unless the target is bound to the same object.\<close>

definition discard_source :: "int \<Rightarrow> file_record \<Rightarrow> file_record \<Rightarrow> db \<Rightarrow> db" where
  "discard_source now source target d =
     (case r_cloud_remote_id source of
        None \<Rightarrow> d
      | Some cid \<Rightarrow>
          if Some cid = r_cloud_remote_id target then d
          else upsert_delete
                 (\<lambda>old new. old\<lparr>d_path := d_path new, d_queued_unix := d_queued_unix new\<rparr>)
                 (plain_delete cid None (m_path (metadata source)) now) d)"

text \<open>Inr (Some target) is the early return for a file replaced by itself.\<close>

definition tx_replace_file :: "int \<Rightarrow> string \<Rightarrow> string \<Rightarrow> string \<Rightarrow> file_record option tx" where
  "tx_replace_file now source_id target_id new_path d =
     (case get_by_remote_id source_id d of
        None \<Rightarrow> Inl (Disappeared source_id)
      | Some source \<Rightarrow>
     (case get_by_remote_id target_id d of
        None \<Rightarrow> Inl (Disappeared target_id)
      | Some target \<Rightarrow>
          if m_is_dir (metadata source) \<or> m_is_dir (metadata target) then Inl ReplaceDirectory
          else if m_path (metadata target) \<noteq> new_path then Inl TargetMoved
          else if source_id = target_id then Inr (Some target, d)
          else
            let d1 = delete_ops (\<lambda>op. o_local_id op = source_id) d;
                d2 = discard_source now source target d1;
                d3 = delete_files (at_id source_id) d2 in
            if sql_count (at_id source_id) (t_files d2) \<noteq> 1 then Inl (Disappeared source_id)
            else
              let d4 = (if r_cache_path target \<noteq> r_cache_path source
                        then (case r_cache_path target of None \<Rightarrow> d3 | Some p \<Rightarrow> retire_cache p d3)
                        else d3) in
              and_then (update_files (at_id target_id) (replaced_row now new_path source) d4) (\<lambda>d5.
                if sql_count (at_id target_id) (t_files d4) \<noteq> 1 then Inl (Disappeared target_id)
                else Inr (None, d5))))"

definition replace_file_locally ::
    "int \<Rightarrow> string \<Rightarrow> string \<Rightarrow> string \<Rightarrow> db \<Rightarrow> (db_error + file_record) \<times> db" where
  "replace_file_locally now source_id target_id new_path d =
     (case run_tx (tx_replace_file now source_id target_id (normalize_cloud_path new_path)) d of
        (Inl e, d') \<Rightarrow> (Inl e, d')
      | (Inr (Some target), d') \<Rightarrow> (Inr target, d')
      | (Inr None, d') \<Rightarrow> read_back target_id (recompute_pin_inheritance d'))"

section \<open>Metadata jobs\<close>

definition pending_metadata_operation :: "string \<Rightarrow> db \<Rightarrow> pending_metadata_operation option" where
  "pending_metadata_operation local_id d = sql_first (\<lambda>op. o_local_id op = local_id) (t_ops d)"

definition pending_metadata_operations :: "db \<Rightarrow> pending_metadata_operation list" where
  "pending_metadata_operations d =
     List.map_filter (\<lambda>local_id. pending_metadata_operation local_id d)
       (map o_local_id (sort_key (\<lambda>op. (o_queued_unix op, o_local_id op)) (t_ops d)))"

definition complete_row :: "metadata_entry \<Rightarrow> file_row \<Rightarrow> file_row" where
  "complete_row e r =
     r\<lparr>f_cloud_remote_id := Some (m_remote_id e), f_etag := m_etag e,
       f_modified_unix := (if f_is_dir r then m_modified_unix e else f_modified_unix r),
       f_state := (if m_is_dir e \<and> f_state r = Dirty then Cached else f_state r)\<rparr>"

definition tx_complete_operation :: "string \<Rightarrow> string \<Rightarrow> metadata_entry \<Rightarrow> bool tx" where
  "tx_complete_operation local_id expected e d =
     (let still_current = (map_option f_path (file_by_id local_id d) = Some expected) in
      and_then (update_files (at_id local_id) (complete_row e) d) (\<lambda>d1.
        Inr (still_current,
             if still_current
             then delete_ops (\<lambda>op. o_local_id op = local_id \<and> o_path op = expected) d1 else d1)))"

definition complete_metadata_operation ::
    "string \<Rightarrow> string \<Rightarrow> metadata_entry \<Rightarrow> db \<Rightarrow> (db_error + bool) \<times> db" where
  "complete_metadata_operation local_id expected_path e d =
     run_tx (tx_complete_operation local_id (normalize_cloud_path expected_path) e) d"

section \<open>Deleting\<close>

definition remove_by_remote_id :: "string \<Rightarrow> db \<Rightarrow> (db_error + unit) \<times> db" where
  "remove_by_remote_id remote_id d =
     then_recompute (run_tx (\<lambda>d. Inr ((),
       delete_files (at_id remote_id) (delete_ops (\<lambda>op. o_local_id op = remote_id) d))) d)"

text \<open>The tombstone of a row: the transfer in flight, if any, stays attached to it.\<close>

definition tombstone :: "int \<Rightarrow> file_row \<Rightarrow> pending_delete" where
  "tombstone now r =
     (let target = (if f_upload_path r = None \<and> f_state r = Uploading
                    then f_cloud_remote_id r else f_upload_target_id r);
          upload = (case f_upload_path r of Some p \<Rightarrow> Some p
                    | None \<Rightarrow> if f_state r = Uploading then Some (f_path r) else None);
          upload_cache = (case f_upload_cache_path r of Some p \<Rightarrow> Some p
                    | None \<Rightarrow> if upload \<noteq> None then f_cache_path r else None) in
      (plain_delete (f_remote_id r) (f_cloud_remote_id r) (f_path r) now)
        \<lparr>d_cache_path := f_cache_path r, d_local_id := Some (f_remote_id r), d_upload_path := upload,
         d_upload_target_id := target, d_upload_cache_path := upload_cache\<rparr>)"

definition merge_tombstone :: "pending_delete \<Rightarrow> pending_delete \<Rightarrow> pending_delete" where
  "merge_tombstone old new =
     old\<lparr>d_path := d_path new, d_cache_path := d_cache_path new, d_queued_unix := d_queued_unix new,
         d_local_id := d_local_id new, d_cloud_remote_id := d_cloud_remote_id new,
         d_upload_path := d_upload_path new, d_upload_target_id := d_upload_target_id new,
         d_upload_cache_path := d_upload_cache_path new\<rparr>"

definition tx_queue_delete :: "int \<Rightarrow> string \<Rightarrow> pending_delete tx" where
  "tx_queue_delete now remote_id d =
     (case file_by_id remote_id d of
        None \<Rightarrow> Inl (UnknownItem remote_id)
      | Some r \<Rightarrow>
          let d1 = delete_ops (\<lambda>op. o_local_id op = remote_id) d;
              d2 = upsert_delete merge_tombstone (tombstone now r) d1;
              d3 = (if f_is_dir r
                    then delete_files (\<lambda>x. f_remote_id x = remote_id \<or> f_path x = f_path r \<or>
                           below (f_path r) (f_path x)) d2
                    else delete_files (at_id remote_id) d2)
          in Inr (tombstone now r, d3))"

definition queue_pending_delete :: "int \<Rightarrow> file_record \<Rightarrow> db \<Rightarrow> (db_error + pending_delete) \<times> db" where
  "queue_pending_delete now rec d =
     then_recompute (run_tx (tx_queue_delete now (m_remote_id (metadata rec))) d)"

definition queue_remote_delete :: "int \<Rightarrow> string \<Rightarrow> string \<Rightarrow> db \<Rightarrow> db" where
  "queue_remote_delete now cloud_id path d =
     (if sql_exists (\<lambda>r. f_cloud_remote_id r = Some cloud_id) (t_files d) then d
      else upsert_delete
             (\<lambda>old new. old\<lparr>d_cloud_remote_id := d_cloud_remote_id new, d_path := d_path new,
                d_queued_unix := d_queued_unix new\<rparr>)
             (plain_delete cloud_id (Some cloud_id) (normalize_cloud_path path) now) d)"

text \<open>LIKE 'local-upload-%': LIKE of SQLite ignores the case of ASCII letters.\<close>

definition like_local_upload :: "string \<Rightarrow> bool" where
  "like_local_upload i = (map ascii_lower (take 13 i) = ''local-upload-'')"

definition read_delete :: "pending_delete \<Rightarrow> pending_delete" where
  "read_delete p =
     p\<lparr>d_cloud_remote_id :=
         (case d_cloud_remote_id p of
            Some c \<Rightarrow> Some c
          | None \<Rightarrow> if d_local_id p = None \<and> \<not> like_local_upload (d_remote_id p)
                    then Some (d_remote_id p) else None)\<rparr>"

definition pending_deletes :: "db \<Rightarrow> pending_delete list" where
  "pending_deletes d = map read_delete (sort_key (\<lambda>p. (d_queued_unix p, d_path p)) (t_deletes d))"

definition remove_pending_delete :: "string \<Rightarrow> db \<Rightarrow> db" where
  "remove_pending_delete remote_id d =
     d\<lparr>t_deletes := sql_delete (\<lambda>p. d_remote_id p = remote_id) (t_deletes d)\<rparr>"

definition is_pending_delete :: "string \<Rightarrow> string \<Rightarrow> db \<Rightarrow> bool" where
  "is_pending_delete remote_id path d =
     (let path = normalize_cloud_path path in
      sql_exists (\<lambda>p. d_remote_id p = remote_id \<or> d_cloud_remote_id p = Some remote_id \<or>
          d_path p = path \<or> d_upload_path p = Some path \<or> d_uploaded_path p = Some path) (t_deletes d))"

definition pending_delete_for_local_id :: "string \<Rightarrow> db \<Rightarrow> pending_delete option" where
  "pending_delete_for_local_id local_id d =
     List.find (\<lambda>p. d_local_id p = Some local_id) (pending_deletes d)"

definition touch_deletes ::
    "(pending_delete \<Rightarrow> bool) \<Rightarrow> (pending_delete \<Rightarrow> pending_delete) \<Rightarrow> db \<Rightarrow> db" where
  "touch_deletes p f d = d\<lparr>t_deletes := sql_update p f (t_deletes d)\<rparr>"

definition tx_complete_deleted :: "int \<Rightarrow> string \<Rightarrow> metadata_entry \<Rightarrow> bool tx" where
  "tx_complete_deleted now local_id uploaded d =
     (case sql_first (\<lambda>p. d_local_id p = Some local_id) (t_deletes d) of
        None \<Rightarrow> Inr (False, d)
      | Some p \<Rightarrow>
          let d1 = (if d_cloud_remote_id p \<noteq> None \<and> d_cloud_remote_id p \<noteq> Some (m_remote_id uploaded)
                    then upsert_delete (\<lambda>old new. old)
                           (plain_delete (m_remote_id uploaded) (Some (m_remote_id uploaded))
                              (m_path uploaded) now) d
                    else touch_deletes (\<lambda>q. d_local_id q = Some local_id)
                           (\<lambda>q. q\<lparr>d_cloud_remote_id := Some (m_remote_id uploaded)\<rparr>) d)
          in Inr (True, touch_deletes (\<lambda>q. d_local_id q = Some local_id)
               (\<lambda>q. q\<lparr>d_upload_path := None, d_upload_target_id := None,
                    d_uploaded_path := Some (m_path uploaded)\<rparr>) d1))"

definition complete_deleted_upload ::
    "int \<Rightarrow> string \<Rightarrow> metadata_entry \<Rightarrow> db \<Rightarrow> (db_error + bool) \<times> db" where
  "complete_deleted_upload now local_id uploaded d = run_tx (tx_complete_deleted now local_id uploaded) d"

definition conflict_upload_guard ::
    "file_record \<times> string \<times> string \<Rightarrow> db \<Rightarrow> file_row \<Rightarrow> bool" where
  "conflict_upload_guard a d r =
     (case a of (rec, path, cache) \<Rightarrow>
        f_remote_id r = m_remote_id (metadata rec) \<and> f_state r = Conflict \<and>
        f_path r = m_path (metadata rec) \<and> f_cache_path r = Some cache \<and>
        f_etag r = m_etag (metadata rec))"

definition begin_conflict_upload :: "file_record \<Rightarrow> string \<Rightarrow> string \<Rightarrow> db \<Rightarrow> bool \<times> db" where
  "begin_conflict_upload rec path cache d =
     claim_row (conflict_upload_guard (rec, path, cache) d)
       (\<lambda>r. r\<lparr>f_upload_path := Some path, f_upload_target_id := None,
            f_upload_cache_path := Some cache\<rparr>) d"

section \<open>Migration\<close>

text \<open>
  The data steps of Database::init, on a database whose columns exist.  The unique index on
  cloud_remote_id exists from an earlier run (then a violation undoes the first UPDATE), or it
  is created after that UPDATE (then a violation fails its creation).
\<close>

definition legacy_cloud :: "file_row \<Rightarrow> file_row" where
  "legacy_cloud r =
     (if f_cloud_remote_id r = None \<and> \<not> like_local_upload (f_remote_id r)
      then r\<lparr>f_cloud_remote_id := Some (f_remote_id r)\<rparr> else r)"

definition migrate_pins :: "db \<Rightarrow> db" where
  "migrate_pins d =
     set_state_value ''pin_policy_v1_migrated'' ''1''
       (touch_files
          (\<lambda>child. f_state child = Pinned \<and>
             \<not> sql_exists (\<lambda>parent. f_path parent = f_parent_path child \<and> f_state parent = Pinned)
                 (t_files d))
          (\<lambda>r. r\<lparr>f_pin_explicit := True\<rparr>) d)"

definition init :: "bool \<Rightarrow> db \<Rightarrow> (db_error + unit) \<times> db" where
  "init indexed d =
     (let d1 = touch_files (\<lambda>_. True) legacy_cloud d in
      if \<not> unique_cloud (t_files d1) then (Inl ConstraintViolation, if indexed then d else d1)
      else
        let d2 = touch_deletes
              (\<lambda>p. d_local_id p = None \<and> d_cloud_remote_id p = None \<and> \<not> like_local_upload (d_remote_id p))
              (\<lambda>p. p\<lparr>d_cloud_remote_id := Some (d_remote_id p)\<rparr>) d1 in
        if get_state_value ''pin_policy_v1_migrated'' d2 \<noteq> None then (Inr (), d2)
        else (Inr (), recompute_pin_inheritance (migrate_pins d2)))"

section \<open>The invariant\<close>

lemma table_sel_deletes [simp]:
  "t_files (upsert_delete m p d) = t_files d" "t_ops (upsert_delete m p d) = t_ops d"
  "t_retired (upsert_delete m p d) = t_retired d" "t_app (upsert_delete m p d) = t_app d"
  "t_files (touch_deletes q f d) = t_files d" "t_ops (touch_deletes q f d) = t_ops d"
  "t_retired (touch_deletes q f d) = t_retired d" "t_app (touch_deletes q f d) = t_app d"
  "t_deletes (touch_deletes q f d) = sql_update q f (t_deletes d)"
  by (simp_all add: upsert_delete_def touch_deletes_def)

lemma file_by_id_deletes [simp]:
  "file_by_id i (upsert_delete m p d) = file_by_id i d" "file_by_id i (touch_deletes q f d) = file_by_id i d"
  "file_by_id i (delete_ops w d) = file_by_id i d"
  by (simp_all add: file_by_id_def)

lemma wf_upsert_delete [wf_intros]:
  "wf_db d \<Longrightarrow> (\<And>old. d_remote_id (m old p) = d_remote_id old) \<Longrightarrow> wf_db (upsert_delete m p d)"
  by (simp add: wf_db_def upsert_delete_def distinct_sql_upsert)

lemma wf_touch_deletes [wf_intros]:
  "wf_db d \<Longrightarrow> (\<And>p. d_remote_id (f p) = d_remote_id p) \<Longrightarrow> wf_db (touch_deletes q f d)"
  by (simp add: wf_db_def touch_deletes_def map_key_sql_update)

lemma wf_remove_pending_delete [wf_intros]: "wf_db d \<Longrightarrow> wf_db (remove_pending_delete i d)"
  by (simp add: wf_db_def remove_pending_delete_def distinct_map_sql_delete)

lemma wf_upsert_metadata: "wf_db d \<Longrightarrow> wf_db (snd (upsert_metadata k e d))"
  unfolding upsert_metadata_def by (rule upsert_metadata_entries_safe)

lemma wf_move_subtree: "wf_db d \<Longrightarrow> wf_db (snd (move_subtree k i p d))"
  using wf_upsert_metadata[of d k]
  by (auto simp: move_subtree_def Let_def wf_allow_pin_inheritance split: option.splits prod.splits sum.splits)
    (metis snd_conv wf_allow_pin_inheritance)+

lemma wf_create_file: "wf_db d \<Longrightarrow> wf_db (snd (create_local_file_with_mode now i p c m d))"
  by (auto simp: create_local_file_with_mode_def read_back_def split: sum.splits option.splits
      intro: wf_insert_file)

lemma wf_insert_op: "wf_db d \<Longrightarrow> insert_op op d = Inr d' \<Longrightarrow> wf_db d'"
  by (fastforce simp: insert_op_def wf_db_def table_simps split: if_splits)

lemma wf_create_directory: "wf_db d \<Longrightarrow> wf_db (snd (create_local_directory_with_mode now i p m d))"
proof -
  assume w: "wf_db d"
  let ?t = "tx_create_directory now i (normalize_cloud_path p) m"
  have "wf_db (snd (then_recompute (run_tx ?t d)))"
    by (rule wf_then_recompute, rule wf_run_tx[OF w])
      (use w in \<open>auto simp: tx_create_directory_def and_then_Inr_iff split: if_splits
        intro: wf_insert_op[OF wf_insert_file]\<close>)
  then show ?thesis
    by (auto simp: create_local_directory_with_mode_def read_back_def split: prod.splits sum.splits option.splits)
qed

lemma wf_redirect_ops: "wf_db d \<Longrightarrow> wf_db (redirect_ops p d)"
  by (simp add: wf_db_def redirect_ops_def map_key_sql_update split: option.split)

lemma wf_ops_update: "wf_db d \<Longrightarrow> (\<And>r. o_local_id (f r) = o_local_id r) \<Longrightarrow>
    wf_db (d\<lparr>t_ops := sql_update p f (t_ops d)\<rparr>)"
  by (simp add: wf_db_def map_key_sql_update)

lemma wf_queue_move: "wf_db d \<Longrightarrow> wf_db (queue_move now i p rec d)"
  by (auto simp: queue_move_def wf_queue_op intro: wf_ops_update)

lemma wf_tx_move_subtree: "wf_db d \<Longrightarrow> tx_move_subtree now i p rec ds d = Inr (a, d') \<Longrightarrow> wf_db d'"
  by (auto simp: tx_move_subtree_def and_then_Inr_iff
      intro!: wf_queue_move wf_redirect_ops intro: wf_move_descendants[OF wf_update_files])

lemma wf_move_subtree_and_queue: "wf_db d \<Longrightarrow> wf_db (snd (move_subtree_and_queue now i p d))"
  unfolding move_subtree_and_queue_def
  by (auto split: option.splits intro!: wf_then_recompute wf_run_tx intro: wf_tx_move_subtree)

lemma wf_discard_source: "wf_db d \<Longrightarrow> wf_db (discard_source now s t d)"
  by (auto simp: discard_source_def split: option.splits intro: wf_upsert_delete)

lemma wf_tx_replace_file:
  assumes "wf_db d" "tx_replace_file now s t p d = Inr (a, d')"
  shows "wf_db d'"
  using assms
  by (auto simp: tx_replace_file_def Let_def and_then_Inr_iff split: option.splits if_splits
      elim!: wf_update_files[rotated] intro!: wf_retire_cache wf_delete_files wf_discard_source wf_delete_ops)

lemma wf_replace_file_locally: "wf_db d \<Longrightarrow> wf_db (snd (replace_file_locally now s t p d))"
proof -
  assume w: "wf_db d"
  have "wf_db (snd (run_tx (tx_replace_file now s t (normalize_cloud_path p)) d))"
    by (rule wf_run_tx[OF w]) (use w in \<open>auto intro: wf_tx_replace_file\<close>)
  then show ?thesis
    by (auto simp: replace_file_locally_def read_back_def wf_recompute
        split: prod.splits sum.splits option.splits)
qed

lemma wf_complete_metadata_operation: "wf_db d \<Longrightarrow> wf_db (snd (complete_metadata_operation i p e d))"
  unfolding complete_metadata_operation_def
  by (rule wf_run_tx)
    (auto simp: tx_complete_operation_def Let_def and_then_Inr_iff split: if_splits
      intro: wf_update_files intro!: wf_delete_ops)

lemma wf_remove_by_remote_id: "wf_db d \<Longrightarrow> wf_db (snd (remove_by_remote_id i d))"
  unfolding remove_by_remote_id_def
  by (rule wf_then_recompute, rule wf_run_tx) (auto intro!: wf_intros)

lemma tombstone_sel [simp]:
  "d_remote_id (tombstone now r) = f_remote_id r" "d_local_id (tombstone now r) = Some (f_remote_id r)"
  "d_cloud_remote_id (tombstone now r) = f_cloud_remote_id r" "d_path (tombstone now r) = f_path r"
  "d_cache_path (tombstone now r) = f_cache_path r"
  by (simp_all add: tombstone_def plain_delete_def Let_def)

lemma merge_tombstone_sel [simp]:
  "d_remote_id (merge_tombstone old new) = d_remote_id old"
  "d_local_id (merge_tombstone old new) = d_local_id new"
  "d_cloud_remote_id (merge_tombstone old new) = d_cloud_remote_id new"
  "d_path (merge_tombstone old new) = d_path new"
  "d_cache_path (merge_tombstone old new) = d_cache_path new"
  "d_upload_path (merge_tombstone old new) = d_upload_path new"
  "d_upload_cache_path (merge_tombstone old new) = d_upload_cache_path new"
  by (simp_all add: merge_tombstone_def)

lemma wf_queue_pending_delete: "wf_db d \<Longrightarrow> wf_db (snd (queue_pending_delete now rec d))"
  unfolding queue_pending_delete_def
  by (rule wf_then_recompute, rule wf_run_tx)
    (auto simp: tx_queue_delete_def Let_def split: option.splits if_splits intro!: wf_intros)

lemma wf_queue_remote_delete: "wf_db d \<Longrightarrow> wf_db (queue_remote_delete now c p d)"
  by (auto simp: queue_remote_delete_def intro!: wf_upsert_delete)

lemma wf_complete_deleted_upload: "wf_db d \<Longrightarrow> wf_db (snd (complete_deleted_upload now i u d))"
  unfolding complete_deleted_upload_def
  by (rule wf_run_tx)
    (auto simp: tx_complete_deleted_def Let_def split: option.splits if_splits intro!: wf_intros)

interpretation conflict_upload: row_claim f_remote_id t_files "\<lambda>rs. t_files_update (\<lambda>_. rs)" wf_db
    "\<lambda>a. m_remote_id (metadata (fst a))" conflict_upload_guard
    "\<lambda>a r. r\<lparr>f_upload_path := Some (fst (snd a)), f_upload_target_id := None,
            f_upload_cache_path := Some (snd (snd a))\<rparr>"
    "\<lambda>a. begin_conflict_upload (fst a) (fst (snd a)) (snd (snd a))"
  by unfold_locales
    (auto simp: begin_conflict_upload_def claim_row_def touch_files_def conflict_upload_guard_def)

lemma wf_begin_conflict_upload: "wf_db d \<Longrightarrow> wf_db (snd (begin_conflict_upload rec p c d))"
  unfolding begin_conflict_upload_def by (rule wf_claim_row) simp_all

lemma wf_set_mode: "wf_db d \<Longrightarrow> wf_db (snd (set_local_mode i m d))"
  by (auto simp: set_local_mode_def Let_def wf_touch_files)

lemma wf_migrate_pins: "wf_db d \<Longrightarrow> wf_db (migrate_pins d)"
  unfolding migrate_pins_def by (intro wf_set_state_value wf_touch_files) simp_all

lemma wf_init: "wf_db d \<Longrightarrow> wf_db (snd (init True d))"
proof -
  assume w: "wf_db d"
  let ?d1 = "touch_files (\<lambda>_. True) legacy_cloud d"
  have "wf_db ?d1" if "unique_cloud (t_files ?d1)"
    using w that by (simp add: wf_db_def files_ok_def map_key_sql_update legacy_cloud_def)
  then show ?thesis using w
    by (auto simp: init_def Let_def intro!: wf_recompute wf_migrate_pins wf_touch_deletes)
qed

section \<open>Local work and the user's operations\<close>

lemma keeps_work_delete_ops [simp]: "keeps_work d (delete_ops p d)"
  by (rule keeps_work_files) simp

lemma same_bytes_relocate: "local_work (f_state r) \<Longrightarrow> same_bytes r (relocate_row p r)"
  by (auto simp: same_bytes_def relocate_row_def local_work_def)

lemma relocate_row_id [simp]: "f_remote_id (relocate_row p r) = f_remote_id r"
  by (simp add: relocate_row_def)

lemma queue_move_files [simp]:
  "t_files (queue_move now i p rec d) = t_files d" "t_files (redirect_ops p d) = t_files d"
  by (simp_all add: queue_move_def queue_op_def redirect_ops_def)

lemma file_by_id_queue_move [simp]:
  "file_by_id j (queue_move now i p rec d) = file_by_id j d" "file_by_id j (redirect_ops p d) = file_by_id j d"
  by (simp_all add: file_by_id_def)

lemma keeps_work_tx_move:
  assumes "tx_move_subtree now i p rec ds d = Inr (a, d')"
  shows "keeps_work d d'"
proof -
  from assms obtain d1 d2 where d1: "update_files (at_id i) (relocate_row p) d = Inr d1"
      and d2: "move_descendants relocate_row (m_path (metadata rec)) p
          (map (\<lambda>r. (m_remote_id (metadata r), m_path (metadata r))) ds) d1 = Inr d2"
      and d': "t_files d' = t_files d2"
    by (auto simp: tx_move_subtree_def and_then_Inr_iff)
  have "keeps_work d d1" using d1 by (rule keeps_work_update) (simp_all add: same_bytes_relocate)
  moreover have "keeps_work d1 d2"
    by (rule keeps_work_move_descendants[OF _ _ d2]) (simp_all add: same_bytes_relocate)
  ultimately show ?thesis using keeps_work_files[OF d'] by (blast intro: keeps_work_trans)
qed

lemma keeps_work_move_subtree_and_queue:
  assumes wf: "wf_db d"
  shows "keeps_work d (snd (move_subtree_and_queue now i p d))"
proof (cases "get_by_remote_id i d")
  case None
  then show ?thesis by (simp add: move_subtree_and_queue_def)
next
  case (Some rec)
  let ?t = "tx_move_subtree now i (normalize_cloud_path p) rec (list_descendants (m_path (metadata rec)) d)"
  have "wf_db (snd (run_tx ?t d)) \<and> keeps_work d (snd (run_tx ?t d))"
    by (rule run_tx_inv) (use wf in \<open>auto intro: wf_tx_move_subtree keeps_work_tx_move\<close>)
  with Some show ?thesis
    by (simp add: move_subtree_and_queue_def keeps_work_then_recompute)
qed

text \<open>Where the rows are after a rename.\<close>

lemma list_descendants_ids:
  assumes "wf_db d"
  shows "distinct (map fst (map (\<lambda>r. (m_remote_id (metadata r), m_path (metadata r))) (list_descendants a d)))"
    and "map_of (map (\<lambda>r. (m_remote_id (metadata r), m_path (metadata r))) (list_descendants a d)) j =
      (case file_by_id j d of None \<Rightarrow> None
       | Some r \<Rightarrow> if in_subtree (normalize_cloud_path a) (f_path r) then Some (f_path r) else None)"
proof -
  let ?L = "map (\<lambda>r. (m_remote_id (metadata r), m_path (metadata r))) (list_descendants a d)"
  let ?P = "\<lambda>r. in_subtree (normalize_cloud_path a) (f_path r)"
  have L: "?L = map (\<lambda>r. (f_remote_id r, f_path r)) (sort_key f_path (filter ?P (t_files d)))"
    by (simp add: list_descendants_def Let_def comp_def)
  have d: "distinct (map f_remote_id (t_files d))" using assms by (simp add: wf_db_def files_ok_def)
  show dL: "distinct (map fst ?L)"
  proof -
    have "distinct (map f_remote_id (filter ?P (t_files d)))" using d by (rule distinct_map_filter)
    then show ?thesis unfolding L by (simp add: comp_def distinct_map)
  qed
  show "map_of ?L j = (case file_by_id j d of None \<Rightarrow> None
       | Some r \<Rightarrow> if ?P r then Some (f_path r) else None)"
  proof (cases "file_by_id j d")
    case None
    then have "j \<notin> fst ` set ?L" unfolding L by (auto simp: file_by_id_None)
    with None show ?thesis by (simp add: map_of_eq_None_iff del: map_map)
  next
    case (Some r)
    show ?thesis
    proof (cases "?P r")
      case True
      then have "(j, f_path r) \<in> set ?L" unfolding L using file_by_id_SomeD[OF Some] by auto
      with dL True Some show ?thesis by (simp add: map_of_eq_Some_iff del: map_map)
    next
      case False
      then have "j \<notin> fst ` set ?L"
        unfolding L using file_by_id_unique[OF assms Some] by auto
      with False Some show ?thesis by (simp add: map_of_eq_None_iff del: map_map)
    qed
  qed
qed

lemma move_subtree_rows:
  assumes wf: "wf_db d" and r: "file_by_id i d = Some r" and can: "normalize_cloud_path (f_path r) = f_path r"
    and run: "tx_move_subtree now i new (row_to_record r) (list_descendants (f_path r) d) d = Inr (a, d')"
    and q: "file_by_id j d = Some q" "j \<noteq> i"
  shows "file_by_id j d' = Some (if in_subtree (f_path r) (f_path q)
    then relocate_row (normalize_cloud_path (new @ drop (length (f_path r)) (f_path q))) q else q)"
proof -
  let ?L = "map (\<lambda>r. (m_remote_id (metadata r), m_path (metadata r))) (list_descendants (f_path r) d)"
  from run obtain d1 d2 where d1: "update_files (at_id i) (relocate_row new) d = Inr d1"
      and d2: "move_descendants relocate_row (f_path r) new ?L d1 = Inr d2"
      and d': "t_files d' = t_files d2"
    by (auto simp: tx_move_subtree_def and_then_Inr_iff)
  have q1: "file_by_id j d1 = Some q"
    using file_by_id_update[OF d1] q file_by_id_SomeD[OF q(1)] by (simp add: at_id_def)
  have "file_by_id j d' = file_by_id j d2" using d' by (simp add: file_by_id_def)
  also have "\<dots> = Some (if in_subtree (f_path r) (f_path q)
    then relocate_row (normalize_cloud_path (new @ drop (length (f_path r)) (f_path q))) q else q)"
    unfolding move_descendants_row[OF relocate_row_id list_descendants_ids(1)[OF wf] d2]
      list_descendants_ids(2)[OF wf]
    by (simp add: q1 q(1) can)
  finally show ?thesis .
qed

lemma move_subtree_self:
  assumes wf: "wf_db d" and r: "file_by_id i d = Some r" and can: "normalize_cloud_path (f_path r) = f_path r"
    and "f_path r \<noteq> ''/''"
    and run: "tx_move_subtree now i new (row_to_record r) (list_descendants (f_path r) d) d = Inr (a, d')"
  shows "file_by_id i d' = Some (relocate_row new r)"
proof -
  let ?L = "map (\<lambda>r. (m_remote_id (metadata r), m_path (metadata r))) (list_descendants (f_path r) d)"
  from run obtain d1 d2 where d1: "update_files (at_id i) (relocate_row new) d = Inr d1"
      and d2: "move_descendants relocate_row (f_path r) new ?L d1 = Inr d2"
      and d': "t_files d' = t_files d2"
    by (auto simp: tx_move_subtree_def and_then_Inr_iff)
  have q1: "file_by_id i d1 = Some (relocate_row new r)"
    using file_by_id_update[OF d1] r file_by_id_SomeD[OF r] by (simp add: at_id_def)
  have "file_by_id i d' = file_by_id i d2" using d' by (simp add: file_by_id_def)
  also have "\<dots> = Some (relocate_row new r)"
    unfolding move_descendants_row[OF relocate_row_id list_descendants_ids(1)[OF wf] d2]
      list_descendants_ids(2)[OF wf]
    using assms(4) by (simp add: q1 r can in_subtree_def)
  finally show ?thesis .
qed

lemma move_ok_cases:
  assumes "fst (move_subtree_and_queue now i p d) = Inr ()" "file_by_id i d = Some r" "wf_db d"
  obtains a e where "tx_move_subtree now i (normalize_cloud_path p) (row_to_record r) (list_descendants (f_path r) d) d = Inr (a, e)"
    "snd (move_subtree_and_queue now i p d) = recompute_pin_inheritance e" "wf_db e"
proof -
  let ?t = "tx_move_subtree now i (normalize_cloud_path p) (row_to_record r) (list_descendants (f_path r) d)"
  have eq: "move_subtree_and_queue now i p d = then_recompute (run_tx ?t d)"
    using assms(2) by (simp add: move_subtree_and_queue_def get_by_remote_id_def)
  from assms(1) obtain a e where t: "?t d = Inr (a, e)"
    unfolding eq by (auto simp: then_recompute_def run_tx_def split: sum.splits)
  then have "snd (move_subtree_and_queue now i p d) = recompute_pin_inheritance e"
    unfolding eq by (simp add: then_recompute_def run_tx_def)
  then show thesis using that[OF t _ wf_tx_move_subtree[OF assms(3) t]] by simp
qed

text \<open>On component paths a rename replaces the prefix of names.\<close>

lemma relocated_path:
  assumes "list_all clean_name ns" "list_all clean_name es" "ns \<noteq> []"
  shows "normalize_cloud_path (path_of ns @ drop (length (path_of cs)) (path_of (cs @ es))) =
    (if cs = [] then normalize_cloud_path (path_of ns @ drop 1 (path_of es)) else path_of (ns @ es))"
proof (cases "cs = []")
  case False
  then have "path_of ns @ drop (length (path_of cs)) (path_of (cs @ es)) = path_of (ns @ es)"
    using assms(3) by (simp add: path_of_def)
  with False assms show ?thesis by (simp add: normalize_path_of)
qed (simp add: path_of_def)

lemma below_self_path: "path_of cs = path_of (cs @ es) \<Longrightarrow> cs \<noteq> [] \<Longrightarrow> es = []"
  by (simp add: path_of_def)

section \<open>What replacing and deleting leave behind\<close>

lemma replace_file_effect:
  assumes wf: "wf_db d" and s: "file_by_id s d = Some rs" "\<not> f_is_dir rs"
    and t: "file_by_id t d = Some rt" "\<not> f_is_dir rt" "f_path rt = normalize_cloud_path p" and st: "s \<noteq> t"
  shows "\<exists>e. tx_replace_file now s t (normalize_cloud_path p) d = Inr (None, e) \<and> wf_db e \<and>
    file_by_id s e = None \<and>
    file_by_id t e = Some (replaced_row now (normalize_cloud_path p) (row_to_record rs) rt) \<and>
    t_deletes e = t_deletes (discard_source now (row_to_record rs) (row_to_record rt) d) \<and>
    (\<forall>c. f_cache_path rt = Some c \<and> f_cache_path rs \<noteq> Some c \<longrightarrow> c \<in> set (t_retired e))"
proof -
  let ?s = "row_to_record rs" and ?t = "row_to_record rt" and ?p = "normalize_cloud_path p"
  let ?d2 = "discard_source now ?s ?t (delete_ops (\<lambda>op. o_local_id op = s) d)"
  let ?d3 = "delete_files (at_id s) ?d2"
  let ?d4 = "if r_cache_path ?t \<noteq> r_cache_path ?s
             then (case r_cache_path ?t of None \<Rightarrow> ?d3 | Some q \<Rightarrow> retire_cache q ?d3) else ?d3"
  let ?e = "touch_files (at_id t) (replaced_row now ?p ?s) ?d4"
  have wf2: "wf_db ?d2" using wf by (simp add: wf_discard_source wf_delete_ops)
  have files2: "t_files ?d2 = t_files d" by (simp add: discard_source_def split: option.split)
  have id2: "file_by_id j ?d2 = file_by_id j d" for j by (simp add: file_by_id_def files2)
  have files4: "t_files ?d4 = t_files ?d3" by (simp split: option.split)
  have wf4: "wf_db ?d4" using wf2 by (simp add: wf_delete_files wf_retire_cache split: option.split)
  have id4: "file_by_id j ?d4 = file_by_id j ?d3" for j unfolding file_by_id_def files4 ..
  have t4: "file_by_id t ?d4 = Some rt"
    unfolding id4 using t(1) st wf2 file_by_id_SomeD[OF t(1)]
    by (intro file_by_id_delete_keep) (simp_all add: id2 at_id_def)
  have s4: "file_by_id s ?d4 = None"
    unfolding id4 by (auto simp: file_by_id_None set_sql_delete at_id_def)
  have ids: "f_remote_id (replaced_row now ?p ?s r) = f_remote_id r" for r by (simp add: replaced_row_def)
  have upd: "update_files (at_id t) (replaced_row now ?p ?s) ?d4 = Inr ?e"
  proof (rule update_files_ok[OF wf4])
    fix r
    assume "r \<in> set (t_files ?d4)" "at_id t r"
    then have "r = rt" using file_by_id_unique[OF wf4 t4] by (simp add: at_id_def)
    with t(3) show "f_remote_id (replaced_row now ?p ?s r) = f_remote_id r \<and>
      f_path (replaced_row now ?p ?s r) = f_path r \<and>
      f_cloud_remote_id (replaced_row now ?p ?s r) = f_cloud_remote_id r" by (simp add: replaced_row_def)
  qed
  have cnt: "sql_count (at_id j) (t_files e) = 1" if "file_by_id j e = Some r" "wf_db e" for j e r
  proof -
    have "distinct (map f_remote_id (t_files e))" using that(2) by (simp add: wf_db_def files_ok_def)
    then have "sql_count (at_id j) (t_files e) = (if \<exists>r\<in>set (t_files e). at_id j r then 1 else 0)"
      by (rule sql_count_key) (simp add: at_id_def)
    then show ?thesis using file_by_id_SomeD[OF that(1)] by (auto simp: at_id_def)
  qed
  have run: "tx_replace_file now s t ?p d = Inr (None, ?e)"
    using s t st cnt[of s ?d2 rs] cnt[OF t4 wf4] wf2 upd
    by (simp add: tx_replace_file_def get_by_remote_id_def Let_def id2 del: touch_files_sel delete_files_sel)
  moreover have "wf_db ?e" using wf_tx_replace_file[OF wf run] .
  moreover have "file_by_id s ?e = None" "file_by_id t ?e = Some (replaced_row now ?p ?s rt)"
    using s4 t4 file_by_id_SomeD[OF t(1)] by (simp_all add: file_by_id_touch ids at_id_def)
  moreover have "t_deletes ?e = t_deletes (discard_source now ?s ?t d)"
    by (auto simp: discard_source_def upsert_delete_def delete_ops_def split: option.split)
  moreover have "\<forall>c. f_cache_path rt = Some c \<and> f_cache_path rs \<noteq> Some c \<longrightarrow> c \<in> set (t_retired ?e)"
    by auto
  ultimately show ?thesis by blast
qed

lemma upsert_delete_member:
  "\<exists>p'\<in>set (t_deletes (upsert_delete m p d)). p' = p \<or> (\<exists>old. d_remote_id old = d_remote_id p \<and> p' = m old p)"
proof (cases "d_remote_id p \<in> d_remote_id ` set (t_deletes d)")
  case True
  then obtain old where "old \<in> set (t_deletes d)" "d_remote_id old = d_remote_id p" by (metis imageE)
  then have "m old p \<in> set (t_deletes (upsert_delete m p d))"
    using True by (force simp: upsert_delete_def set_sql_upsert)
  with \<open>d_remote_id old = d_remote_id p\<close> show ?thesis by blast
qed (simp add: upsert_delete_def set_sql_upsert)

lemma upsert_delete_queued:
  assumes "\<And>old. d_remote_id (m old p) = d_remote_id old"
  shows "\<exists>q\<in>set (t_deletes (upsert_delete m p d)). d_remote_id q = d_remote_id p"
proof -
  obtain q where q: "q \<in> set (t_deletes (upsert_delete m p d))"
    and "q = p \<or> (\<exists>old. d_remote_id old = d_remote_id p \<and> q = m old p)"
    using upsert_delete_member by blast
  then have "d_remote_id q = d_remote_id p" using assms by (elim disjE exE conjE) simp_all
  with q show ?thesis by blast
qed

lemma queue_delete_effect:
  assumes wf: "wf_db d" and r: "file_by_id (m_remote_id (metadata rec)) d = Some r"
  shows "\<exists>e p. queue_pending_delete now rec d = (Inr (tombstone now r), recompute_pin_inheritance e) \<and>
    wf_db e \<and> file_by_id (f_remote_id r) e = None \<and> p \<in> set (t_deletes e) \<and>
    d_remote_id p = f_remote_id r \<and>
    d_local_id p = Some (f_remote_id r) \<and> d_cloud_remote_id p = f_cloud_remote_id r \<and>
    d_path p = f_path r \<and> d_cache_path p = f_cache_path r \<and>
    d_upload_cache_path p = d_upload_cache_path (tombstone now r) \<and>
    d_upload_path p = d_upload_path (tombstone now r)"
proof -
  let ?i = "m_remote_id (metadata rec)"
  have id: "f_remote_id r = ?i" using file_by_id_SomeD[OF r] by simp
  let ?d2 = "upsert_delete merge_tombstone (tombstone now r) (delete_ops (\<lambda>op. o_local_id op = ?i) d)"
  define e where "e = (if f_is_dir r then delete_files (\<lambda>x. f_remote_id x = ?i \<or> f_path x = f_path r \<or>
                           below (f_path r) (f_path x)) ?d2
            else delete_files (at_id ?i) ?d2)"
  have tx: "tx_queue_delete now ?i d = Inr (tombstone now r, e)"
    using r by (simp add: tx_queue_delete_def Let_def e_def)
  then have run: "queue_pending_delete now rec d = (Inr (tombstone now r), recompute_pin_inheritance e)"
    by (simp add: queue_pending_delete_def run_tx_def then_recompute_def)
  have "wf_db e" using wf by (auto simp: e_def intro!: wf_intros)
  moreover have "file_by_id (f_remote_id r) e = None"
    by (simp add: file_by_id_None set_sql_delete at_id_def id e_def)
  moreover obtain p where p: "p \<in> set (t_deletes ?d2)"
      "p = tombstone now r \<or> (\<exists>old. d_remote_id old = f_remote_id r \<and> p = merge_tombstone old (tombstone now r))"
    using upsert_delete_member[of merge_tombstone "tombstone now r" "delete_ops (\<lambda>op. o_local_id op = ?i) d"]
    unfolding tombstone_sel(1) by blast
  moreover have "t_deletes e = t_deletes ?d2" by (simp add: e_def)
  ultimately have "wf_db e \<and> file_by_id (f_remote_id r) e = None \<and> p \<in> set (t_deletes e)" by simp
  with run show ?thesis
    by (intro exI[of _ e] exI[of _ p] conjI) (use p(2) in auto)
qed

section \<open>Properties\<close>

text \<open>A rename moves every descendant: on component paths, the prefix of names of the
  folder is replaced by the new one, and the stored parent and name agree with the new path.\<close>

lemma move_subtree_paths:
  assumes wf: "wf_db d" and folder: "file_by_id i d = Some r" "f_path r = path_of cs"
    and item: "file_by_id j d = Some q" "f_path q = path_of (cs @ es)"
    and clean: "list_all clean_name (cs @ es)" "list_all clean_name ns" "cs \<noteq> []" "es \<noteq> []" "ns \<noteq> []"
    and ok: "fst (move_subtree_and_queue now i (path_of ns) d) = Inr ()"
  shows "\<exists>q'. file_by_id j (snd (move_subtree_and_queue now i (path_of ns) d)) = Some q' \<and>
    f_path q' = path_of (ns @ es) \<and> f_parent_path q' = path_of (ns @ butlast es) \<and>
    f_name q' = last es \<and> f_cache_path q' = f_cache_path q \<and> f_cloud_remote_id q' = f_cloud_remote_id q"
proof -
  have nn: "normalize_cloud_path (path_of ns) = path_of ns" "normalize_cloud_path (f_path r) = f_path r"
    using clean by (simp_all add: normalize_path_of folder)
  obtain a e where tx: "tx_move_subtree now i (path_of ns) (row_to_record r)
      (list_descendants (f_path r) d) d = Inr (a, e)"
    and res: "snd (move_subtree_and_queue now i (path_of ns) d) = recompute_pin_inheritance e" "wf_db e"
    using move_ok_cases[OF ok folder(1) wf] unfolding nn by blast
  have "j \<noteq> i" using folder item clean by (auto dest: below_self_path)
  have sub: "in_subtree (f_path r) (f_path q)"
  proof -
    have "path_of cs \<noteq> ''/''"
      using clean path_of_snoc_not_root[of "butlast cs" "last cs"] by simp
    moreover have "below (path_of cs) (path_of (cs @ es))"
      using clean below_path_of[of cs "cs @ es"] by (simp add: strict_prefix_def)
    ultimately show ?thesis by (simp add: in_subtree_def folder(2) item(2))
  qed
  have "normalize_cloud_path (path_of ns @ drop (length (f_path r)) (f_path q)) = path_of (ns @ es)"
    using clean by (simp add: folder(2) item(2) relocated_path)
  then have "file_by_id j e = Some (relocate_row (path_of (ns @ es)) q)"
    using move_subtree_rows[OF wf folder(1) nn(2) tx item(1) \<open>j \<noteq> i\<close>] sub by simp
  moreover obtain bs c where es: "es = bs @ [c]" by (cases es rule: rev_cases) (use clean(4) in auto)
  have "list_all clean_name ((ns @ bs) @ [c])" using clean es by simp
  then have "parent_cloud_path (path_of (ns @ es)) = path_of (ns @ bs)" "cloud_name (path_of (ns @ es)) = c"
    using parent_path_of[of "ns @ bs" c] name_path_of[of "ns @ bs" c] es by simp_all
  ultimately show ?thesis
    using es by (simp add: res file_by_id_recompute relocate_row_def)
qed

lemma move_subtree_paths_witness:
  "\<exists>q'. file_by_id ''f1'' (snd (move_subtree_and_queue 5 ''d1'' (path_of [''E'']) sample_db)) = Some q' \<and>
    f_path q' = path_of ([''E''] @ [''a'']) \<and> f_parent_path q' = path_of ([''E''] @ butlast [''a'']) \<and>
    f_name q' = last [''a''] \<and>
    f_cache_path q' = f_cache_path (sample_row ''f1'' (Some ''f1'') ''/D/a'' (Some ''/c/f1'') Dirty) \<and>
    f_cloud_remote_id q' = f_cloud_remote_id (sample_row ''f1'' (Some ''f1'') ''/D/a'' (Some ''/c/f1'') Dirty)"
  by (rule move_subtree_paths[where cs = "[''D'']" and
      r = "(sample_row ''d1'' (Some ''d1'') ''/D'' None Cached)\<lparr>f_is_dir := True\<rparr>"]) code_simp+

text \<open>After a rename every queued metadata job of an item below the new path carries the
  item's own path, so the replay of the job acts on the right place.\<close>

lemma move_subtree_jobs_follow:
  assumes wf: "wf_db d" and folder: "file_by_id i d = Some r" "canonical (f_path r)" "f_path r \<noteq> ''/''"
    and ok: "fst (move_subtree_and_queue now i p d) = Inr ()"
    and job: "op \<in> set (t_ops (snd (move_subtree_and_queue now i p d)))"
    and owner: "file_by_id (o_local_id op) (snd (move_subtree_and_queue now i p d)) = Some x"
      "below (normalize_cloud_path p) (f_path x)"
  shows "o_path op = f_path x"
proof -
  let ?p = "normalize_cloud_path p"
  have can: "normalize_cloud_path (f_path r) = f_path r" using folder(2) by (simp add: canonical_def)
  obtain a e where tx: "tx_move_subtree now i ?p (row_to_record r) (list_descendants (f_path r) d) d = Inr (a, e)"
    and res: "snd (move_subtree_and_queue now i p d) = recompute_pin_inheritance e" "wf_db e"
    using move_ok_cases[OF ok folder(1) wf] by blast
  from tx obtain e0 where e: "e = queue_move now i ?p (row_to_record r) (redirect_ops ?p e0)"
    by (auto simp: tx_move_subtree_def and_then_Inr_iff)
  from owner(1) res obtain y where y: "file_by_id (o_local_id op) e = Some y" "f_path x = f_path y"
    by (auto simp: file_by_id_recompute)
  have "o_local_id op \<noteq> i"
    using move_subtree_self[OF wf folder(1) can folder(3) tx] y owner(2) by (auto simp: relocate_row_def)
  then have "op \<in> set (t_ops (redirect_ops ?p e0))"
    using job by (auto simp: res e queue_move_def queue_op_def set_sql_upsert table_simps split: if_splits)
  moreover have y0: "file_by_id (o_local_id op) e0 = Some y" using y(1) by (simp add: e)
  ultimately show ?thesis
    using y(2) owner(2) file_by_id_SomeD[OF y0]
    by (auto simp: redirect_ops_def table_simps split: if_splits option.splits)
qed

lemma move_subtree_jobs_follow_witness:
  "let d = sample_db\<lparr>t_ops := [\<lparr>o_local_id = ''f1'', o_kind = Move, o_path = ''/D/a'', o_queued_unix = 1\<rparr>]\<rparr>;
       op = \<lparr>o_local_id = ''f1'', o_kind = Move, o_path = ''/E/a'', o_queued_unix = 1\<rparr> in
   o_path op = f_path (sample_row ''f1'' (Some ''f1'') ''/E/a'' (Some ''/c/f1'') Dirty)"
  unfolding Let_def
  by (rule move_subtree_jobs_follow[where d = "sample_db\<lparr>t_ops := [\<lparr>o_local_id = ''f1'', o_kind = Move, o_path = ''/D/a'', o_queued_unix = 1\<rparr>]\<rparr>"
      and i = "''d1''" and p = "''/E''" and now = 5 and
      r = "(sample_row ''d1'' (Some ''d1'') ''/D'' None Cached)\<lparr>f_is_dir := True\<rparr>"]) code_simp+

text \<open>Replacing a file by another (an atomic save) succeeds on two files when the target
  is still at the requested path: the target keeps its identity, cloud identity and version and
  takes over the bytes of the source, the source row is gone, a cache file of the target that is
  no longer used is retired, and a cloud object of the source is queued for deletion.\<close>

lemma replace_keeps_target_identity:
  assumes wf: "wf_db d" and s: "file_by_id s d = Some rs" "\<not> f_is_dir rs"
    and t: "file_by_id t d = Some rt" "\<not> f_is_dir rt" "f_path rt = normalize_cloud_path p" and st: "s \<noteq> t"
  shows "\<exists>rec d' rt'. replace_file_locally now s t p d = (Inr rec, d') \<and>
    file_by_id s d' = None \<and> file_by_id t d' = Some rt' \<and>
    f_cloud_remote_id rt' = f_cloud_remote_id rt \<and> f_etag rt' = f_etag rt \<and> f_path rt' = f_path rt \<and>
    f_cache_path rt' = f_cache_path rs \<and> f_size rt' = clamp_size (f_size rs) \<and>
    f_state rt' = (if f_state rs = Writing then Writing else Dirty) \<and>
    (\<forall>c. f_cache_path rt = Some c \<and> f_cache_path rs \<noteq> Some c \<longrightarrow> c \<in> set (t_retired d')) \<and>
    (\<forall>c. f_cloud_remote_id rs = Some c \<longrightarrow> (\<exists>q\<in>set (t_deletes d'). d_remote_id q = c))"
proof -
  let ?p = "normalize_cloud_path p"
  obtain e where e: "tx_replace_file now s t ?p d = Inr (None, e)" "wf_db e" "file_by_id s e = None"
      "file_by_id t e = Some (replaced_row now ?p (row_to_record rs) rt)"
      "t_deletes e = t_deletes (discard_source now (row_to_record rs) (row_to_record rt) d)"
      "\<forall>c. f_cache_path rt = Some c \<and> f_cache_path rs \<noteq> Some c \<longrightarrow> c \<in> set (t_retired e)"
    using replace_file_effect[OF wf s t st] by blast
  define d' where "d' = recompute_pin_inheritance e"
  define rt' where "rt' = repin_row (t_files e) (replaced_row now ?p (row_to_record rs) rt)"
  have row: "file_by_id t d' = Some rt'" using e by (simp add: file_by_id_recompute d'_def rt'_def)
  have run: "replace_file_locally now s t p d = (Inr (row_to_record rt'), d')"
    using e row by (simp add: replace_file_locally_def run_tx_def read_back_def get_by_remote_id_def d'_def)
  have "f_state rt' = (if f_state rs = Writing then Writing else Dirty)"
    unfolding rt'_def by (subst repin_row_state) (simp_all add: replaced_row_def local_work_def)
  moreover have "\<forall>c. f_cloud_remote_id rs = Some c \<longrightarrow> (\<exists>q\<in>set (t_deletes d'). d_remote_id q = c)"
  proof (intro allI impI)
    fix c
    assume c: "f_cloud_remote_id rs = Some c"
    have "f_cloud_remote_id rt \<noteq> Some c"
      using cloud_unique[OF wf s(1) t(1)] st c by auto
    then show "\<exists>q\<in>set (t_deletes d'). d_remote_id q = c"
      using c upsert_delete_queued[of "\<lambda>old new. old\<lparr>d_path := d_path new, d_queued_unix := d_queued_unix new\<rparr>"
          "plain_delete c None (f_path rs) now" d]
      by (simp add: e(5) discard_source_def d'_def) (simp add: plain_delete_def)
  qed
  moreover have "file_by_id s d' = None" using e by (simp add: file_by_id_recompute d'_def)
  moreover have "f_cloud_remote_id rt' = f_cloud_remote_id rt" "f_etag rt' = f_etag rt"
      "f_path rt' = f_path rt" "f_cache_path rt' = f_cache_path rs" "f_size rt' = clamp_size (f_size rs)"
    by (simp_all add: rt'_def replaced_row_def t(3))
  moreover have "\<forall>c. f_cache_path rt = Some c \<and> f_cache_path rs \<noteq> Some c \<longrightarrow> c \<in> set (t_retired d')"
    using e(6) by (simp add: d'_def)
  ultimately have "file_by_id s d' = None \<and> file_by_id t d' = Some rt' \<and>
    f_cloud_remote_id rt' = f_cloud_remote_id rt \<and> f_etag rt' = f_etag rt \<and> f_path rt' = f_path rt \<and>
    f_cache_path rt' = f_cache_path rs \<and> f_size rt' = clamp_size (f_size rs) \<and>
    f_state rt' = (if f_state rs = Writing then Writing else Dirty) \<and>
    (\<forall>c. f_cache_path rt = Some c \<and> f_cache_path rs \<noteq> Some c \<longrightarrow> c \<in> set (t_retired d')) \<and>
    (\<forall>c. f_cloud_remote_id rs = Some c \<longrightarrow> (\<exists>q\<in>set (t_deletes d'). d_remote_id q = c))"
    using row by (intro conjI)
  with run show ?thesis by (intro exI[of _ "row_to_record rt'"] exI[of _ d'] exI[of _ rt'] conjI[OF run])
qed

lemma replace_keeps_target_identity_witness:
  "\<exists>rec d' rt'. replace_file_locally 9 ''l1'' ''f2'' ''/D/b'' sample_db = (Inr rec, d') \<and>
    file_by_id ''l1'' d' = None \<and> file_by_id ''f2'' d' = Some rt' \<and> f_cache_path rt' = Some ''/c/l1''"
proof -
  have "f_cache_path (sample_row ''l1'' None ''/D/t'' (Some ''/c/l1'') Dirty) = Some ''/c/l1''"
    by (simp add: sample_row_def)
  moreover have "wf_db sample_db" "file_by_id ''l1'' sample_db = Some (sample_row ''l1'' None ''/D/t'' (Some ''/c/l1'') Dirty)"
    "\<not> f_is_dir (sample_row ''l1'' None ''/D/t'' (Some ''/c/l1'') Dirty)"
    "file_by_id ''f2'' sample_db = Some (sample_row ''f2'' (Some ''f2'') ''/D/b'' (Some ''/c/f2'') Cached)"
    "\<not> f_is_dir (sample_row ''f2'' (Some ''f2'') ''/D/b'' (Some ''/c/f2'') Cached)"
    "f_path (sample_row ''f2'' (Some ''f2'') ''/D/b'' (Some ''/c/f2'') Cached) = normalize_cloud_path ''/D/b''"
    by code_simp+
  ultimately show ?thesis
    using replace_keeps_target_identity[of sample_db "''l1''" "sample_row ''l1'' None ''/D/t'' (Some ''/c/l1'') Dirty"
      "''f2''" "sample_row ''f2'' (Some ''f2'') ''/D/b'' (Some ''/c/f2'') Cached" "''/D/b''" 9] by auto
qed

text \<open>A local deletion removes the row and leaves a tombstone with its local and cloud
  identity and its path, and every cache file the row or its transfer used stays referenced, so
  no reclamation can remove the bytes while the tombstone exists.\<close>

lemma delete_leaves_tombstone:
  assumes wf: "wf_db d" and r: "file_by_id (m_remote_id (metadata rec)) d = Some r"
  shows "\<exists>p d'. queue_pending_delete now rec d = (Inr p, d') \<and> file_by_id (f_remote_id r) d' = None \<and>
    (\<exists>q\<in>set (t_deletes d'). d_local_id q = Some (f_remote_id r) \<and> d_cloud_remote_id q = f_cloud_remote_id r \<and>
       d_path q = f_path r) \<and>
    (\<forall>c. f_cache_path r = Some c \<or> f_upload_cache_path r = Some c \<longrightarrow> cache_referenced c d')"
proof -
  obtain e p where run: "queue_pending_delete now rec d = (Inr (tombstone now r), recompute_pin_inheritance e)"
    and e: "wf_db e" "file_by_id (f_remote_id r) e = None" "p \<in> set (t_deletes e)"
      "d_local_id p = Some (f_remote_id r)" "d_cloud_remote_id p = f_cloud_remote_id r"
      "d_path p = f_path r" "d_cache_path p = f_cache_path r"
      "d_upload_cache_path p = d_upload_cache_path (tombstone now r)"
    using queue_delete_effect[OF wf r] by blast
  let ?d' = "recompute_pin_inheritance e"
  have "cache_referenced c ?d'" if "f_cache_path r = Some c \<or> f_upload_cache_path r = Some c" for c
  proof -
    have "f_upload_cache_path r = Some c \<Longrightarrow> d_upload_cache_path p = Some c"
      by (simp add: e(8) tombstone_def Let_def)
    with that e(3,7) show ?thesis by (auto simp: cache_referenced_def table_simps)
  qed
  moreover have "file_by_id (f_remote_id r) ?d' = None" using e by (simp add: file_by_id_recompute)
  ultimately show ?thesis using run e(3-6)
    by (intro exI[of _ "tombstone now r"] exI[of _ ?d']) auto
qed

lemma delete_leaves_tombstone_witness:
  "\<exists>p d'. queue_pending_delete 9 (row_to_record (sample_row ''f1'' (Some ''f1'') ''/D/a'' (Some ''/c/f1'') Dirty)) sample_db = (Inr p, d') \<and>
    cache_referenced ''/c/f1'' d'"
proof -
  let ?r = "sample_row ''f1'' (Some ''f1'') ''/D/a'' (Some ''/c/f1'') Dirty"
  have "wf_db sample_db" "file_by_id (m_remote_id (metadata (row_to_record ?r))) sample_db = Some ?r"
    "f_cache_path ?r = Some ''/c/f1''"
    by code_simp+
  then show ?thesis using delete_leaves_tombstone[of sample_db "row_to_record ?r" ?r 9] by blast
qed

text \<open>A late acknowledgement of an upload whose file was deleted is bound to the tombstone:
  no file row changes, the acknowledged cloud object is queued for deletion, and the tombstone no
  longer waits for the transfer.\<close>

lemma late_acknowledgement_is_deleted:
  assumes tomb: "sql_first (\<lambda>p. d_local_id p = Some i) (t_deletes d) = Some p"
    and run: "complete_deleted_upload now i u d = (res, d')"
  shows "res = Inr True \<and> t_files d' = t_files d \<and>
    (\<exists>q\<in>set (t_deletes d'). d_remote_id q = m_remote_id u \<or> d_cloud_remote_id q = Some (m_remote_id u)) \<and>
    (\<forall>q\<in>set (t_deletes d'). d_local_id q = Some i \<longrightarrow>
       d_upload_path q = None \<and> d_upload_target_id q = None \<and> d_uploaded_path q = Some (m_path u))"
proof -
  let ?mine = "\<lambda>q. d_local_id q = Some i"
  let ?new = "plain_delete (m_remote_id u) (Some (m_remote_id u)) (m_path u) now"
  let ?ack = "\<lambda>q::pending_delete. q\<lparr>d_upload_path := None, d_upload_target_id := None, d_uploaded_path := Some (m_path u)\<rparr>"
  let ?d1 = "if d_cloud_remote_id p \<noteq> None \<and> d_cloud_remote_id p \<noteq> Some (m_remote_id u)
     then upsert_delete (\<lambda>old new. old) ?new d
     else touch_deletes ?mine (\<lambda>q. q\<lparr>d_cloud_remote_id := Some (m_remote_id u)\<rparr>) d"
  have d': "res = Inr True" "d' = touch_deletes ?mine ?ack ?d1"
    using run tomb by (auto simp: complete_deleted_upload_def run_tx_def tx_complete_deleted_def Let_def)
  have "\<exists>q\<in>set (t_deletes ?d1). d_remote_id q = m_remote_id u \<or> d_cloud_remote_id q = Some (m_remote_id u)"
  proof (cases "d_cloud_remote_id p \<noteq> None \<and> d_cloud_remote_id p \<noteq> Some (m_remote_id u)")
    case True
    moreover have "\<exists>q\<in>set (t_deletes (upsert_delete (\<lambda>old new. old) ?new d)). d_remote_id q = m_remote_id u"
      using upsert_delete_queued[of "\<lambda>old new. old" ?new d] by (simp add: plain_delete_def)
    ultimately show ?thesis by auto
  next
    case False
    let ?set = "\<lambda>q::pending_delete. q\<lparr>d_cloud_remote_id := Some (m_remote_id u)\<rparr>"
    have "(if ?mine p then ?set p else p) \<in> set (t_deletes (touch_deletes ?mine ?set d))"
      unfolding table_sel_deletes set_sql_update by (rule imageI) (use sql_first_SomeD[OF tomb] in blast)
    then have "?set p \<in> set (t_deletes (touch_deletes ?mine ?set d))" using sql_first_SomeD[OF tomb] by simp
    moreover have "d_cloud_remote_id (?set p) = Some (m_remote_id u)" by simp
    ultimately show ?thesis unfolding if_not_P[OF False] by blast
  qed
  then obtain q where q: "q \<in> set (t_deletes ?d1)"
      "d_remote_id q = m_remote_id u \<or> d_cloud_remote_id q = Some (m_remote_id u)" by blast
  have "(if ?mine q then ?ack q else q) \<in> set (t_deletes d')"
    unfolding d'(2) table_sel_deletes set_sql_update by (rule imageI) (rule q(1))
  moreover have "d_remote_id (if ?mine q then ?ack q else q) = m_remote_id u \<or>
      d_cloud_remote_id (if ?mine q then ?ack q else q) = Some (m_remote_id u)" using q(2) by simp
  moreover have "t_files d' = t_files d" by (simp add: d'(2))
  moreover have "\<forall>q\<in>set (t_deletes d'). d_local_id q = Some i \<longrightarrow>
       d_upload_path q = None \<and> d_upload_target_id q = None \<and> d_uploaded_path q = Some (m_path u)"
  proof (intro ballI impI)
    fix q
    assume "q \<in> set (t_deletes d')" "d_local_id q = Some i"
    then obtain q0 where "q = (if ?mine q0 then ?ack q0 else q0)"
      unfolding d'(2) table_sel_deletes set_sql_update by blast
    with \<open>d_local_id q = Some i\<close> show "d_upload_path q = None \<and> d_upload_target_id q = None \<and>
        d_uploaded_path q = Some (m_path u)" by (simp split: if_splits)
  qed
  ultimately show ?thesis using d'(1) by blast
qed

definition sample_tombstone :: pending_delete where
  "sample_tombstone =
     (plain_delete ''l9'' None ''/D/z'' 4)\<lparr>d_local_id := Some ''l9'', d_upload_path := Some ''/D/z''\<rparr>"

lemma late_acknowledgement_is_deleted_witness:
  "fst (complete_deleted_upload 5 ''l9'' (new_file ''c9'' ''/D/z'' 3 7 ''e9'')
      (sample_db\<lparr>t_deletes := [sample_tombstone]\<rparr>)) = Inr True"
proof -
  let ?run = "complete_deleted_upload 5 ''l9'' (new_file ''c9'' ''/D/z'' 3 7 ''e9'')
      (sample_db\<lparr>t_deletes := [sample_tombstone]\<rparr>)"
  have "sql_first (\<lambda>p. d_local_id p = Some ''l9'') (t_deletes (sample_db\<lparr>t_deletes := [sample_tombstone]\<rparr>))
      = Some sample_tombstone" by code_simp
  from late_acknowledgement_is_deleted[OF this prod.collapse[symmetric]] show ?thesis by blast
qed

text \<open>Queueing the deletion of an obsolete cloud object never targets an object a live
  record is bound to, and otherwise the object is queued.\<close>

lemma remote_delete_spares_live:
  "if (\<exists>r\<in>set (t_files d). f_cloud_remote_id r = Some c) then queue_remote_delete now c p d = d
   else t_files (queue_remote_delete now c p d) = t_files d \<and>
     (\<exists>q\<in>set (t_deletes (queue_remote_delete now c p d)). d_remote_id q = c)"
  using upsert_delete_queued[of "\<lambda>old new. old\<lparr>d_cloud_remote_id := d_cloud_remote_id new, d_path := d_path new,
                d_queued_unix := d_queued_unix new\<rparr>" "plain_delete c (Some c) (normalize_cloud_path p) now" d]
  by (auto simp: queue_remote_delete_def table_simps plain_delete_def)

text \<open>Completing a metadata job binds the cloud identity and version, leaves the path and the
  bytes of the row alone, and removes the job only when the item is still where the job put it; a
  job superseded by a later rename stays queued.\<close>

lemma complete_keeps_superseded_job:
  assumes wf: "wf_db d" and r: "file_by_id i d = Some r"
    and run: "complete_metadata_operation i p e d = (Inr current, d')"
  shows "(current \<longleftrightarrow> f_path r = normalize_cloud_path p) \<and> (\<not> current \<longrightarrow> t_ops d' = t_ops d) \<and>
    (current \<longrightarrow> (\<forall>op\<in>set (t_ops d'). o_local_id op = i \<longrightarrow> o_path op \<noteq> normalize_cloud_path p)) \<and>
    (\<exists>r'. file_by_id i d' = Some r' \<and> f_cloud_remote_id r' = Some (m_remote_id e) \<and>
       f_etag r' = m_etag e \<and> f_path r' = f_path r \<and> f_cache_path r' = f_cache_path r \<and>
       f_size r' = f_size r)"
proof -
  let ?p = "normalize_cloud_path p"
  from run r obtain d1 where d1: "update_files (at_id i) (complete_row e) d = Inr d1"
    and cur: "current = (f_path r = ?p)"
    and d': "d' = (if current then delete_ops (\<lambda>op. o_local_id op = i \<and> o_path op = ?p) d1 else d1)"
    by (auto simp: complete_metadata_operation_def run_tx_def tx_complete_operation_def Let_def
        and_then_Inr_iff split: sum.splits)
  have ops: "t_ops d1 = t_ops d" using update_files_InrD[OF d1] by simp
  have "file_by_id i d1 = Some (complete_row e r)"
    using file_by_id_update[OF d1, of i] r file_by_id_SomeD[OF r] by (simp add: complete_row_def at_id_def)
  then have "file_by_id i d' = Some (complete_row e r)" by (simp add: d')
  then show ?thesis using cur ops d' by (auto simp: complete_row_def table_simps)
qed

lemma complete_keeps_superseded_job_witness:
  "\<exists>r'. file_by_id ''d1'' (snd (complete_metadata_operation ''d1'' ''/Old'' (new_dir ''d1'' ''/D'' 8 ''e2'') sample_db)) = Some r' \<and>
    f_etag r' = ''e2''"
proof -
  let ?r = "(sample_row ''d1'' (Some ''d1'') ''/D'' None Cached)\<lparr>f_is_dir := True\<rparr>"
  let ?run = "complete_metadata_operation ''d1'' ''/Old'' (new_dir ''d1'' ''/D'' 8 ''e2'') sample_db"
  have "wf_db sample_db" "file_by_id ''d1'' sample_db = Some ?r" "fst ?run = Inr False"
    "m_etag (new_dir ''d1'' ''/D'' 8 ''e2'') = ''e2''" by code_simp+
  moreover have "?run = (fst ?run, snd ?run)" by simp
  ultimately show ?thesis
    using complete_keeps_superseded_job[of sample_db "''d1''" ?r "''/Old''" "new_dir ''d1'' ''/D'' 8 ''e2''" False "snd ?run"]
    by metis
qed



end
