(* ===== verification/DeleteRetry.thy ===== *)
theory DeleteRetry
  imports Mutations
begin

text \<open>
  crates/twodrive-core/src/database/delete_retry.rs: the durable retry schedule of the pending
  deletions.  The delay doubles from a base to a cap, both chosen by the kind of failure, and
  never undercuts what the server asked for; all arithmetic is at the width of the code.
\<close>

section \<open>Operations\<close>

definition saturating_add_u32 :: "u32 \<Rightarrow> u32 \<Rightarrow> u32" where
  "saturating_add_u32 a b = (if uint a + uint b < 4294967296 then a + b else - 1)"

definition saturating_sub_u32 :: "u32 \<Rightarrow> u32 \<Rightarrow> u32" where
  "saturating_sub_u32 a b = (if b \<le> a then a - b else 0)"

definition saturating_mul_u64 :: "u64 \<Rightarrow> u64 \<Rightarrow> u64" where
  "saturating_mul_u64 a b = (if uint a * uint b < 18446744073709551616 then a * b else - 1)"

text \<open>(base, cap) in seconds.\<close>

definition backoff :: "delete_failure_kind \<Rightarrow> u64 \<times> u64" where
  "backoff kind =
     (case kind of
        Authentication \<Rightarrow> (300, 21600) | Permission \<Rightarrow> (300, 21600) | Rejected \<Rightarrow> (300, 21600)
      | Throttled \<Rightarrow> (60, 3600) | Transient \<Rightarrow> (60, 3600))"

definition retry_delay :: "delete_failure_kind \<Rightarrow> u32 \<Rightarrow> u64 \<Rightarrow> u64" where
  "retry_delay kind attempts retry_after =
     (case backoff kind of (base, cap) \<Rightarrow>
        max (min (saturating_mul_u64 base
                   (push_bit (unat (min (saturating_sub_u32 attempts 1) 16)) 1)) cap) retry_after)"

definition next_retry :: "int \<Rightarrow> u64 \<Rightarrow> int" where
  "next_retry now delay = sat_i64 (now + (if uint delay \<le> i64_max then uint delay else i64_max))"

definition deferred ::
    "string \<Rightarrow> u16 option \<Rightarrow> delete_failure_kind \<Rightarrow> u64 \<Rightarrow> int \<Rightarrow> pending_delete \<Rightarrow> pending_delete" where
  "deferred i status kind retry_after now p =
     (let attempts = saturating_add_u32 (d_attempt_count p) 1 in
      p\<lparr>d_attempt_count := attempts,
        d_next_retry_unix := next_retry now (retry_delay kind attempts retry_after),
        d_last_status := status, d_failure_kind := Some kind\<rparr>)"

definition defer_pending_delete_at ::
    "string \<Rightarrow> u16 option \<Rightarrow> delete_failure_kind \<Rightarrow> u64 \<Rightarrow> int \<Rightarrow> db \<Rightarrow> db" where
  "defer_pending_delete_at i status kind retry_after now d =
     (case sql_first (\<lambda>p. d_remote_id p = i) (t_deletes d) of
        None \<Rightarrow> d
      | Some p \<Rightarrow>
          touch_deletes (\<lambda>q. d_remote_id q = i)
            (\<lambda>q. let new = deferred i status kind retry_after now p in
               q\<lparr>d_attempt_count := d_attempt_count new, d_next_retry_unix := d_next_retry_unix new,
                 d_last_status := d_last_status new, d_failure_kind := d_failure_kind new\<rparr>) d)"

definition retry_pending_deletes :: "db \<Rightarrow> nat \<times> db" where
  "retry_pending_deletes d =
     (sql_count (\<lambda>p. d_next_retry_unix p \<noteq> 0) (t_deletes d),
      touch_deletes (\<lambda>p. d_next_retry_unix p \<noteq> 0) (\<lambda>p. p\<lparr>d_next_retry_unix := 0\<rparr>) d)"

section \<open>The delay\<close>

text \<open>The doubling never saturates: the exponent is at most 16.\<close>

lemma doubled:
  fixes base :: u64
  assumes "uint base \<le> 300" and k: "k = unat (min (saturating_sub_u32 attempts 1) 16)"
  shows "uint (saturating_mul_u64 base (push_bit k 1)) = uint base * 2 ^ k"
proof -
  have "unat (min (saturating_sub_u32 attempts 1) 16) \<le> unat (16 :: u32)"
    by (rule word_le_nat_alt[THEN iffD1]) simp
  then have k16: "k \<le> 16" by (simp add: k)
  then have "(2 :: int) ^ k \<le> 2 ^ 16" by (intro power_increasing) simp_all
  then have p: "(2 :: int) ^ k \<le> 65536" by simp
  have u: "uint (push_bit k (1 :: u64)) = 2 ^ k"
  proof -
    have "uint (push_bit k (1 :: u64)) = take_bit 64 (push_bit k 1)"
      by (subst unsigned_push_bit_eq) simp
    with p show ?thesis by (simp add: take_bit_eq_mod push_bit_eq_mult)
  qed
  have "uint base * 2 ^ k \<le> 300 * 65536" using assms(1) p by (intro mult_mono) simp_all
  then have "uint base * 2 ^ k < 18446744073709551616" by simp
  then show ?thesis unfolding saturating_mul_u64_def u by (simp only: if_True uint_word_ariths u) simp
qed

lemma exponent: "unat (min (saturating_sub_u32 a 1) 16) = min (unat a - 1) 16"
proof -
  have "unat (saturating_sub_u32 a 1) = unat a - 1"
    by (auto simp: saturating_sub_u32_def unat_sub word_le_nat_alt)
  then show ?thesis by (simp add: min_def word_le_nat_alt)
qed

lemma uint_min: "uint (min a b :: u64) = min (uint a) (uint b)"
  by (simp add: min_def word_le_def)

lemma uint_max: "uint (max a b :: u64) = max (uint a) (uint b)"
  by (simp add: max_def word_le_def)

lemma retry_delay_uint:
  "uint (retry_delay kind attempts after) =
    max (min (uint (fst (backoff kind)) * 2 ^ min (unat attempts - 1) 16) (uint (snd (backoff kind)))) (uint after)"
proof -
  have "uint (fst (backoff kind)) \<le> 300" by (cases kind) (simp_all add: backoff_def)
  from doubled[OF this refl, of attempts] show ?thesis
    by (simp add: retry_delay_def case_prod_beta uint_min uint_max exponent)
qed

lemma backoff_le: "uint (fst (backoff kind)) \<le> uint (snd (backoff kind))" "0 < uint (fst (backoff kind))"
  by (cases kind, simp_all add: backoff_def)+

lemma clamp_facts:
  fixes b c :: int
  assumes "b \<le> x" "b \<le> c" "x \<le> y"
  shows "b \<le> max (min x c) r \<and> r \<le> max (min x c) r \<and> max (min x c) r \<le> max c r \<and>
    max (min x c) r \<le> max (min y c) r"
  using assms by auto

lemma wf_defer: "wf_db d \<Longrightarrow> wf_db (defer_pending_delete_at i st k a now d)"
  by (auto simp: defer_pending_delete_at_def wf_db_def map_key_sql_update Let_def split: option.split)

lemma wf_retry: "wf_db d \<Longrightarrow> wf_db (snd (retry_pending_deletes d))"
  by (simp add: retry_pending_deletes_def wf_touch_deletes)

section \<open>Deferring\<close>

lemma defer_effect:
  assumes wf: "wf_db d" and p: "p \<in> set (t_deletes d)" and now: "0 \<le> now" "now < i64_max"
  shows "\<exists>q\<in>set (t_deletes (defer_pending_delete_at (d_remote_id p) status kind after now d)).
    d_attempt_count q = saturating_add_u32 (d_attempt_count p) 1 \<and>
    d_next_retry_unix q = next_retry now (retry_delay kind (d_attempt_count q) after) \<and>
    \<not> retry_due q now \<and>
    p = q\<lparr>d_attempt_count := d_attempt_count p, d_next_retry_unix := d_next_retry_unix p,
          d_last_status := d_last_status p, d_failure_kind := d_failure_kind p\<rparr>"
proof -
  let ?i = "d_remote_id p"
  let ?n = "saturating_add_u32 (d_attempt_count p) 1"
  let ?f = "\<lambda>q. let new = deferred ?i status kind after now p in
               q\<lparr>d_attempt_count := d_attempt_count new, d_next_retry_unix := d_next_retry_unix new,
                 d_last_status := d_last_status new, d_failure_kind := d_failure_kind new\<rparr>"
  have find: "sql_first (\<lambda>q. d_remote_id q = ?i) (t_deletes d) = Some p"
    using p deletes_table.find_iff[OF wf] by blast
  have "?f p \<in> set (t_deletes (defer_pending_delete_at ?i status kind after now d))"
    using p by (simp add: defer_pending_delete_at_def find set_sql_update)
  moreover have "0 < uint (retry_delay kind ?n after)"
    using backoff_le[of kind] by (simp add: retry_delay_uint) (smt (verit) mult_le_cancel_left1 one_le_power)
  then have "now < next_retry now (retry_delay kind ?n after)"
    using now by (simp add: next_retry_def sat_i64_def)
  ultimately show ?thesis
    by (intro bexI[of _ "?f p"]) (simp_all add: deferred_def Let_def retry_due_def)
qed

section \<open>Properties\<close>

text \<open>C40: the retry delay computed with 32- and 64-bit saturating arithmetic is the schedule over
  the integers: base times 2 to the number of earlier attempts (at most 16), at most the cap, and
  at least what the server asked for; more attempts never shorten it.\<close>

theorem retry_delay_schedule:
  "uint (retry_delay kind attempts after) =
     max (min (uint (fst (backoff kind)) * 2 ^ min (unat attempts - 1) 16) (uint (snd (backoff kind)))) (uint after) \<and>
   fst (backoff kind) \<le> retry_delay kind attempts after \<and> after \<le> retry_delay kind attempts after \<and>
   retry_delay kind attempts after \<le> max (snd (backoff kind)) after \<and>
   retry_delay kind attempts after \<le> retry_delay kind (saturating_add_u32 attempts 1) after"
proof -
  let ?b = "uint (fst (backoff kind))"
  have mul: "?b \<le> ?b * 2 ^ n" for n using backoff_le(2)[of kind] by simp
  have "unat attempts - 1 \<le> unat (saturating_add_u32 attempts 1) - 1"
  proof -
    have "attempts \<le> saturating_add_u32 attempts 1"
      by (auto simp: saturating_add_u32_def word_le_def[of attempts "attempts + 1"] uint_word_ariths)
    then show ?thesis by (simp add: word_le_nat_alt)
  qed
  then have "(2 :: int) ^ min (unat attempts - 1) 16 \<le> 2 ^ min (unat (saturating_add_u32 attempts 1) - 1) 16"
    by (intro power_increasing) auto
  then have step: "?b * 2 ^ min (unat attempts - 1) 16 \<le> ?b * 2 ^ min (unat (saturating_add_u32 attempts 1) - 1) 16"
    using backoff_le(2)[of kind] by simp
  show ?thesis
    unfolding word_le_def uint_max retry_delay_uint
    by (rule conjI[OF refl clamp_facts[OF mul backoff_le(1) step]])
qed

text \<open>Deferring a deletion counts the attempt, stores the schedule and the reason, and keeps
  everything else of the tombstone, so its identity and its barriers stay; the next attempt is
  not due before the delay has passed.\<close>

lemma defer_keeps_tombstone:
  assumes wf: "wf_db d" and p: "p \<in> set (t_deletes d)" and now: "0 \<le> now" "now < i64_max"
  shows "\<exists>q\<in>set (t_deletes (defer_pending_delete_at (d_remote_id p) status kind after now d)).
    d_attempt_count q = saturating_add_u32 (d_attempt_count p) 1 \<and>
    d_next_retry_unix q = next_retry now (retry_delay kind (d_attempt_count q) after) \<and>
    \<not> retry_due q now \<and>
    p = q\<lparr>d_attempt_count := d_attempt_count p, d_next_retry_unix := d_next_retry_unix p,
          d_last_status := d_last_status p, d_failure_kind := d_failure_kind p\<rparr>"
  by (rule defer_effect[OF assms])

lemma defer_keeps_tombstone_witness:
  "\<exists>q\<in>set (t_deletes (defer_pending_delete_at ''l9'' (Some 503) Transient 90 1000
      (sample_db\<lparr>t_deletes := [sample_tombstone]\<rparr>))). \<not> retry_due q 1000"
proof -
  have "wf_db (sample_db\<lparr>t_deletes := [sample_tombstone]\<rparr>)" "d_remote_id sample_tombstone = ''l9''"
    by code_simp+
  then show ?thesis
    using defer_keeps_tombstone[of "sample_db\<lparr>t_deletes := [sample_tombstone]\<rparr>" sample_tombstone 1000
        "Some 503" Transient 90] by auto
qed

text \<open>A deliberate retry makes every retained deletion due, reports how many were waiting, and
  keeps their history and failure classification.\<close>

lemma retry_makes_all_due:
  assumes "0 \<le> now"
  shows "(\<forall>q\<in>set (t_deletes (snd (retry_pending_deletes d))). retry_due q now) \<and>
    map d_attempt_count (t_deletes (snd (retry_pending_deletes d))) = map d_attempt_count (t_deletes d) \<and>
    map d_failure_kind (t_deletes (snd (retry_pending_deletes d))) = map d_failure_kind (t_deletes d) \<and>
    (fst (retry_pending_deletes d) = 0 \<longrightarrow> snd (retry_pending_deletes d) = d)"
  using assms
  by (auto simp: retry_pending_deletes_def retry_due_def set_sql_update map_key_sql_update sql_count_0
      sql_update_none touch_deletes_def)

lemma retry_makes_all_due_witness:
  "list_all (\<lambda>q. retry_due q 5) (t_deletes (snd (retry_pending_deletes (sample_db\<lparr>t_deletes := [sample_tombstone]\<rparr>))))"
  using retry_makes_all_due[of 5 "sample_db\<lparr>t_deletes := [sample_tombstone]\<rparr>"] by (simp add: list_all_iff)

end
