(* ===== verification/Json.thy ===== *)
theory Json
  imports Domain
begin

text \<open>
  JSON values as serde_json::Value has them, the accessors of that type the code calls, and what
  serde's derived Deserialize accepts for a struct: an object with the named members or an array
  of them in order, where an Option reads null and absence as None.  The parser of the text is
  serde_json's own and not modelled; the numbers it yields are u64, negative i64 or a float.
\<close>

section \<open>Values\<close>

datatype json_number = PosInt u64 | NegInt int | Float string

datatype json =
    JNull | JBool bool | JNumber json_number | JString string | JArray "json list"
  | JObject "(string \<times> json) list"

fun json_get :: "json \<Rightarrow> string \<Rightarrow> json option" where
  "json_get (JObject m) key = map_of m key"
| "json_get _ key = None"

text \<open>value[key] is null where there is no such member.\<close>

definition json_index :: "json \<Rightarrow> string \<Rightarrow> json" where
  "json_index v key = (case json_get v key of None \<Rightarrow> JNull | Some x \<Rightarrow> x)"

text \<open>Value::pointer, for paths of member names.\<close>

fun json_pointer :: "json \<Rightarrow> string list \<Rightarrow> json option" where
  "json_pointer v [] = Some v"
| "json_pointer v (k # ks) = (case json_get v k of None \<Rightarrow> None | Some x \<Rightarrow> json_pointer x ks)"

fun as_str :: "json \<Rightarrow> string option" where
  "as_str (JString s) = Some s"
| "as_str _ = None"

fun as_array :: "json \<Rightarrow> json list option" where
  "as_array (JArray xs) = Some xs"
| "as_array _ = None"

fun number_as_u64 :: "json_number \<Rightarrow> u64 option" where
  "number_as_u64 (PosInt n) = Some n"
| "number_as_u64 _ = None"

fun as_u64 :: "json \<Rightarrow> u64 option" where
  "as_u64 (JNumber n) = number_as_u64 n"
| "as_u64 _ = None"

section \<open>Derived deserialisation\<close>

text \<open>
  The members of a struct: from an object by name, from an array by position.  The trailing
  names after the first required ones have a default and may be missing from an array.
\<close>

definition struct_members :: "string list \<Rightarrow> nat \<Rightarrow> json \<Rightarrow> (string \<times> json) list option" where
  "struct_members names needed v =
     (case v of
        JObject m \<Rightarrow> Some m
      | JArray xs \<Rightarrow> if needed \<le> length xs \<and> length xs \<le> length names then Some (zip names xs) else None
      | _ \<Rightarrow> None)"

text \<open>A String member, an Option of a String, an Option of any value, an Option of a number.\<close>

definition string_member :: "(string \<times> json) list \<Rightarrow> string \<Rightarrow> string option" where
  "string_member m k = Option.bind (map_of m k) as_str"

definition optional_member :: "(json \<Rightarrow> 'a option) \<Rightarrow> (string \<times> json) list \<Rightarrow> string \<Rightarrow> 'a option option" where
  "optional_member f m k =
     (case map_of m k of
        None \<Rightarrow> Some None | Some JNull \<Rightarrow> Some None
      | Some v \<Rightarrow> (case f v of None \<Rightarrow> None | Some x \<Rightarrow> Some (Some x)))"

fun as_number :: "json \<Rightarrow> json_number option" where
  "as_number (JNumber n) = Some n"
| "as_number _ = None"

text \<open>A Vec whose elements are read one by one; the first bad element fails it.\<close>

definition read_all :: "('a \<Rightarrow> 'b option) \<Rightarrow> 'a list \<Rightarrow> 'b list option" where
  "read_all f xs =
     foldr (\<lambda>x r. case f x of None \<Rightarrow> None | Some y \<Rightarrow> map_option ((#) y) r) xs (Some [])"

lemma read_all_simps [simp]:
  "read_all f [] = Some []"
  "read_all f (x # xs) = (case f x of None \<Rightarrow> None | Some y \<Rightarrow> map_option ((#) y) (read_all f xs))"
  unfolding read_all_def by simp_all

lemma read_all_Some: "read_all f xs = Some ys \<longleftrightarrow> map f xs = map Some ys"
  by (induction xs arbitrary: ys) (auto split: option.splits)

section \<open>Numbers in text\<close>

text \<open>str::parse::<u64>: an optional plus sign and at least one digit, without overflow.\<close>

definition parse_u64 :: "string \<Rightarrow> u64 option" where
  "parse_u64 s =
     (let ds = (case s of c # r \<Rightarrow> if c = CHR ''+'' then r else s | [] \<Rightarrow> s) in
      if ds = [] \<or> \<not> List.list_all is_ascii_digit ds \<or> 2 ^ 64 \<le> decimal_value ds then None
      else Some (of_nat (decimal_value ds)))"

lemma parse_u64_decimal: "parse_u64 (decimal (unat n)) = Some n"
proof -
  let ?s = "decimal (unat n)"
  have ds: "List.list_all is_ascii_digit ?s" and ne: "?s \<noteq> []"
    using decimal_digits decimal_nonempty by (auto simp: list_all_iff)
  obtain c r where s: "?s = c # r" using ne by (cases ?s) auto
  have "c \<noteq> CHR ''+''" using ds s by (auto simp: is_ascii_digit_def)
  moreover have "decimal_value ?s < 2 ^ 64"
    using unsigned_less[of n] by simp
  moreover have "word_of_nat (decimal_value ?s) = n" by simp
  ultimately show ?thesis using ds s unfolding parse_u64_def Let_def s by simp
qed

end
