(* ===== verification/Conflicts.thy ===== *)
theory Conflicts
  imports Domain
begin

text \<open>
  crates/twodrive-fs/src/conflicts.rs, the naming of conflict copies: the extension is kept, the
  stem is cut so that the whole name fits 240 bytes of UTF-8, and a time stamp and a 32-bit
  fingerprint of the record's id tell the copies apart.
\<close>

section \<open>Bytes\<close>

text \<open>UTF-8 of the scalars U+0000 .. U+00FF.\<close>

definition utf8_char :: "char \<Rightarrow> nat list" where
  "utf8_char c = (let n = of_char c :: nat in if n < 128 then [n] else [192 + n div 64, 128 + n mod 64])"

definition utf8 :: "string \<Rightarrow> nat list" where
  "utf8 s = concat (map utf8_char s)"

definition byte_len :: "string \<Rightarrow> nat" where
  "byte_len s = length (utf8 s)"

text \<open>The longest prefix of whole characters within the limit.\<close>

fun truncate_utf8 :: "string \<Rightarrow> nat \<Rightarrow> string" where
  "truncate_utf8 [] limit = []"
| "truncate_utf8 (c # s) limit =
     (if length (utf8_char c) \<le> limit then c # truncate_utf8 s (limit - length (utf8_char c)) else [])"

definition stable_path_fingerprint :: "string \<Rightarrow> u32" where
  "stable_path_fingerprint v =
     foldl (\<lambda>hash byte. (xor hash (of_nat byte)) * 0x01000193) 0x811c9dc5 (utf8 v)"

definition hex_digit :: "nat \<Rightarrow> char" where
  "hex_digit n = (if n < 10 then char_of (48 + n) else char_of (87 + n))"

text \<open>The format {:08x}.\<close>

fun hex_digits :: "nat \<Rightarrow> nat \<Rightarrow> string" where
  "hex_digits 0 n = []"
| "hex_digits (Suc w) n = hex_digits w (n div 16) @ [hex_digit (n mod 16)]"

definition conflict_suffix :: "u64 \<Rightarrow> string \<Rightarrow> string" where
  "conflict_suffix modified remote_id =
     '' (TwoDrive conflict '' @ decimal (unat modified) @ ''-'' @
     hex_digits 8 (unat (stable_path_fingerprint remote_id)) @ '')''"

definition split_extension :: "string \<Rightarrow> string \<times> string" where
  "split_extension name =
     (case rfind (CHR ''.'') name of
        Some i \<Rightarrow> if 0 < i then (take i name, drop i name) else (name, [])
      | None \<Rightarrow> (name, []))"

definition conflict_name :: "u64 \<Rightarrow> string \<Rightarrow> string \<Rightarrow> string" where
  "conflict_name modified remote_id name =
     (case split_extension name of (stem, extension) \<Rightarrow>
        let sfx = conflict_suffix modified remote_id;
            ext = truncate_utf8 extension 32 in
        truncate_utf8 stem (240 - byte_len sfx - byte_len ext) @ sfx @ ext)"

text \<open>The mtime of the cache file when it can be read, or that of the record.\<close>

definition conflict_copy_path :: "u64 option \<Rightarrow> file_record \<Rightarrow> string" where
  "conflict_copy_path mtime r =
     (let modified = (case mtime of Some t \<Rightarrow> t | None \<Rightarrow> of_int (max (m_modified_unix (metadata r)) 0)) in
      join_cloud_path (m_parent_path (metadata r))
        (conflict_name modified (m_remote_id (metadata r)) (m_name (metadata r))))"

definition record_upload_etag :: "file_record \<Rightarrow> string option" where
  "record_upload_etag r =
     (if r_cloud_remote_id r = None \<or> m_etag (metadata r) = [] then None else Some (m_etag (metadata r)))"

definition record_upload_remote_id :: "file_record \<Rightarrow> string option" where
  "record_upload_remote_id r = r_cloud_remote_id r"

section \<open>Lengths\<close>

lemma byte_len_simps [simp]:
  "byte_len [] = 0" "byte_len (c # s) = length (utf8_char c) + byte_len s"
  "byte_len (s @ t) = byte_len s + byte_len t"
  by (simp_all add: byte_len_def utf8_def)

lemma byte_len_truncate: "byte_len (truncate_utf8 s n) \<le> n"
  by (induction s n rule: truncate_utf8.induct) auto

lemma truncate_utf8_id: "byte_len s \<le> n \<Longrightarrow> truncate_utf8 s n = s"
  by (induction s n rule: truncate_utf8.induct) auto

lemma truncate_utf8_prefix: "\<exists>t. s = truncate_utf8 s n @ t"
  by (induction s n rule: truncate_utf8.induct) auto

text \<open>The cut is at the last boundary: one more character would not fit.\<close>

lemma truncate_utf8_longest:
  "s = truncate_utf8 s n @ c # t \<Longrightarrow> n < byte_len (truncate_utf8 s n) + length (utf8_char c)"
  by (induction s n rule: truncate_utf8.induct) (auto split: if_splits)

lemma split_extension_join: "fst (split_extension name) @ snd (split_extension name) = name"
  by (simp add: split_extension_def split: option.split)

lemma length_hex: "length (hex_digits w n) = w"
  by (induction w arbitrary: n) simp_all

lemma ascii_byte_len: "(\<And>c. c \<in> set s \<Longrightarrow> (of_char c :: nat) < 128) \<Longrightarrow> byte_len s = length s"
  by (induction s) (auto simp: utf8_char_def)

lemma hex_digit_ascii: "n < 16 \<Longrightarrow> (of_char (hex_digit n) :: nat) < 128"
  by (simp add: hex_digit_def)

lemma hex_ascii: "c \<in> set (hex_digits w n) \<Longrightarrow> (of_char c :: nat) < 128"
  by (induction w arbitrary: n) (auto simp: hex_digit_ascii)

lemma decimal_ascii: "c \<in> set (decimal n) \<Longrightarrow> (of_char c :: nat) < 128"
  using decimal_digits[of n] by (fastforce simp: list_all_iff is_ascii_digit_def)

lemma length_decimal: "n < 10 ^ k \<Longrightarrow> 0 < k \<Longrightarrow> length (decimal n) \<le> k"
proof (induction n arbitrary: k rule: decimal.induct)
  case (1 n)
  show ?case
  proof (cases "n < 10")
    case True
    with 1 show ?thesis by (simp add: decimal.simps[of n])
  next
    case False
    with 1 obtain j where k: "k = Suc j" "0 < j"
      by (metis Suc_lessE gr0_conv_Suc neq0_conv power_one_right zero_less_Suc One_nat_def)
    with 1 False have "n div 10 < 10 ^ j" by (simp add: less_mult_imp_div_less mult.commute)
    then have "length (decimal (n div 10)) \<le> j" using 1(1)[OF False] k by simp
    with False k show ?thesis by (simp add: decimal.simps[of n])
  qed
qed

lemma byte_len_suffix: "byte_len (conflict_suffix modified i) \<le> 50"
proof -
  have "unat modified < 2 ^ 64" using unsigned_less[of modified] by simp
  then have "unat modified < 10 ^ 20" by simp
  then have d: "length (decimal (unat modified)) \<le> 20" by (rule length_decimal) simp
  have "byte_len (decimal (unat modified)) = length (decimal (unat modified))"
    by (rule ascii_byte_len) (rule decimal_ascii)
  moreover have "byte_len (hex_digits 8 (unat (stable_path_fingerprint i))) = 8"
    by (subst ascii_byte_len) (auto simp: length_hex intro: hex_ascii)
  ultimately show ?thesis using d by (simp add: conflict_suffix_def utf8_char_def)
qed

section \<open>Properties\<close>

text \<open>Truncation to a byte limit is the longest prefix of whole characters that fits: the text
  itself when it fits, and otherwise one more character would exceed the limit.\<close>

lemma truncate_longest_fit:
  "byte_len (truncate_utf8 s n) \<le> n \<and> (\<exists>t. s = truncate_utf8 s n @ t) \<and>
   (byte_len s \<le> n \<longrightarrow> truncate_utf8 s n = s) \<and>
   (\<forall>c t. s = truncate_utf8 s n @ c # t \<longrightarrow> n < byte_len (truncate_utf8 s n) + length (utf8_char c))"
  using byte_len_truncate truncate_utf8_prefix truncate_utf8_id truncate_utf8_longest by blast

lemma truncate_longest_fit_witness:
  "truncate_utf8 [CHR ''a'', CHR 0xE9, CHR ''b''] 2 = ''a'' \<and>
   byte_len (truncate_utf8 [CHR ''a'', CHR 0xE9, CHR ''b''] 2) \<le> 2"
  by (rule conjI) (code_simp, rule truncate_longest_fit[THEN conjunct1])

text \<open>The name of a conflict copy fits 240 bytes, ends with the (possibly shortened) extension
  of the original, carries the stamp and fingerprint unshortened, and keeps the whole stem when
  there is room for it.\<close>

lemma conflict_name_fits:
  "\<exists>stem ext. conflict_name modified i name = stem @ conflict_suffix modified i @ ext \<and>
    byte_len (conflict_name modified i name) \<le> 240 \<and>
    (\<exists>t. fst (split_extension name) = stem @ t) \<and> (\<exists>t. snd (split_extension name) = ext @ t) \<and>
    (byte_len name \<le> 190 \<and> byte_len (snd (split_extension name)) \<le> 32 \<longrightarrow>
       stem @ ext = name)"
proof -
  let ?sfx = "conflict_suffix modified i"
  let ?ext = "truncate_utf8 (snd (split_extension name)) 32"
  let ?stem = "truncate_utf8 (fst (split_extension name)) (240 - byte_len ?sfx - byte_len ?ext)"
  have name: "conflict_name modified i name = ?stem @ ?sfx @ ?ext"
    by (simp add: conflict_name_def case_prod_beta Let_def)
  have "byte_len ?ext \<le> 32" by (rule byte_len_truncate)
  then have fits: "byte_len (conflict_name modified i name) \<le> 240"
    using byte_len_suffix[of modified i] byte_len_truncate[of "fst (split_extension name)" "240 - byte_len ?sfx - byte_len ?ext"]
    by (simp add: name)
  have whole: "?stem @ ?ext = name" if le: "byte_len name \<le> 190" "byte_len (snd (split_extension name)) \<le> 32"
  proof -
    have ext: "?ext = snd (split_extension name)" using le(2) by (rule truncate_utf8_id)
    have "byte_len name = byte_len (fst (split_extension name)) + byte_len (snd (split_extension name))"
      using arg_cong[OF split_extension_join[of name], of byte_len] by simp
    then have "byte_len (fst (split_extension name)) \<le> 240 - byte_len ?sfx - byte_len ?ext"
      using le byte_len_suffix[of modified i] unfolding ext by linarith
    then show ?thesis unfolding ext using split_extension_join[of name] by (simp add: truncate_utf8_id)
  qed
  show ?thesis
    by (rule exI[of _ ?stem], rule exI[of _ ?ext])
      (intro conjI impI name fits truncate_utf8_prefix whole; simp)
qed

lemma conflict_name_fits_witness:
  "\<exists>stem ext. conflict_name 7 ''id'' ''a.txt'' = stem @ conflict_suffix 7 ''id'' @ ext \<and> stem @ ext = ''a.txt''"
proof -
  have "byte_len ''a.txt'' \<le> 190 \<and> byte_len (snd (split_extension ''a.txt'')) \<le> 32" by code_simp
  then show ?thesis using conflict_name_fits[of 7 "''id''" "''a.txt''"] by blast
qed

end
