(* ===== verification/Diagnostics.thy ===== *)
theory Diagnostics
  imports Json Conflicts
begin

text \<open>
  crates/twodrive-backend/src/diagnostics.rs: what is kept of a refused request.  The kind of
  request and bounded, enumerated texts survive; the address, the body and free text do not.  An
  HTTP response is here too: the status, the headers by lower-case name (a value that is not text
  is None), the announced length, the sizes of the reads of its body, whether the body breaks off
  with an error, its text, and what serde_json makes of its bytes.
\<close>

section \<open>Responses\<close>

text \<open>A request that got no response, or a body that broke off.\<close>

datatype transport_kind = Timeout | Connect | Redirect | OtherTransport

record response =
  rs_status :: u16
  rs_headers :: "(string \<times> string option) list"
  rs_length :: "u64 option"
  rs_chunks :: "nat list"
  rs_break :: "transport_kind option"
  rs_text :: string
  rs_json :: "json option"

text \<open>The first value of a header, if it is text.\<close>

definition header :: "response \<Rightarrow> string \<Rightarrow> string option" where
  "header r name = Option.bind (map_of (rs_headers r) name) (\<lambda>v. v)"

definition is_success :: "response \<Rightarrow> bool" where
  "is_success r = (200 \<le> rs_status r \<and> rs_status r \<le> 299)"

definition is_server_error :: "response \<Rightarrow> bool" where
  "is_server_error r = (500 \<le> rs_status r \<and> rs_status r \<le> 599)"

definition contains_text :: "string \<Rightarrow> string \<Rightarrow> bool" where
  "contains_text pat s = list_ex (\<lambda>i. take (length pat) (drop i s) = pat) [0..<Suc (length s)]"

definition lower_char :: "char \<Rightarrow> char" where
  "lower_char c = (let n = of_char c :: nat in if 65 \<le> n \<and> n \<le> 90 then char_of (n + 32) else c)"

definition to_ascii_lowercase :: "string \<Rightarrow> string" where
  "to_ascii_lowercase s = map lower_char s"

text \<open>take(limit + 1).read_to_end: the body fits the limit and ends without an error.\<close>

definition body_within :: "nat \<Rightarrow> response \<Rightarrow> bool" where
  "body_within limit r = (sum_list (rs_chunks r) \<le> limit \<and> rs_break r = None)"

text \<open>Response::text, and the text of a status: its number and the name the standard gives it.\<close>

definition body_text :: "response \<Rightarrow> string" where
  "body_text r = (if rs_break r = None then rs_text r else [])"

definition status_names :: "(nat \<times> string) list" where
  "status_names =
     [(300, ''Multiple Choices''), (301, ''Moved Permanently''), (302, ''Found''),
      (303, ''See Other''), (304, ''Not Modified''), (305, ''Use Proxy''),
      (307, ''Temporary Redirect''), (308, ''Permanent Redirect''), (400, ''Bad Request''),
      (401, ''Unauthorized''), (402, ''Payment Required''), (403, ''Forbidden''), (404, ''Not Found''),
      (405, ''Method Not Allowed''), (406, ''Not Acceptable''),
      (407, ''Proxy Authentication Required''), (408, ''Request Timeout''), (409, ''Conflict''),
      (410, ''Gone''), (411, ''Length Required''), (412, ''Precondition Failed''),
      (413, ''Payload Too Large''), (414, ''URI Too Long''), (415, ''Unsupported Media Type''),
      (416, ''Range Not Satisfiable''), (417, ''Expectation Failed''),
      (418, ''I'' @ [CHR 0x27] @ ''m a teapot''), (421, ''Misdirected Request''),
      (422, ''Unprocessable Entity''), (423, ''Locked''), (424, ''Failed Dependency''),
      (425, ''Too Early''), (426, ''Upgrade Required''), (428, ''Precondition Required''),
      (429, ''Too Many Requests''), (431, ''Request Header Fields Too Large''),
      (451, ''Unavailable For Legal Reasons''), (500, ''Internal Server Error''),
      (501, ''Not Implemented''), (502, ''Bad Gateway''), (503, ''Service Unavailable''),
      (504, ''Gateway Timeout''), (505, ''HTTP Version Not Supported''),
      (506, ''Variant Also Negotiates''), (507, ''Insufficient Storage''), (508, ''Loop Detected''),
      (510, ''Not Extended''), (511, ''Network Authentication Required'')]"

definition status_text :: "response \<Rightarrow> string" where
  "status_text r =
     (let n = unat (rs_status r) in
      decimal n @ '' '' @ (case map_of status_names n of None \<Rightarrow> ''<unknown status code>'' | Some s \<Rightarrow> s))"

section \<open>Failures\<close>

datatype request_operation = Graph | DriveItemDelete | TokenRefresh | TokenExchange

fun operation_label :: "request_operation \<Rightarrow> string" where
  "operation_label Graph = ''graph.request''"
| "operation_label DriveItemDelete = ''driveitem.delete''"
| "operation_label TokenRefresh = ''token.refresh''"
| "operation_label TokenExchange = ''token.exchange''"

fun operation_endpoint :: "request_operation \<Rightarrow> string" where
  "operation_endpoint TokenRefresh = ''oauth_token''"
| "operation_endpoint TokenExchange = ''oauth_token''"
| "operation_endpoint DriveItemDelete = ''graph_default_drive''"
| "operation_endpoint Graph = ''graph''"

text \<open>The delay is a Duration, here in milliseconds.\<close>

record request_failure =
  rf_status :: u16
  rf_retry_after :: nat
  rf_operation :: request_operation
  rf_code :: string
  rf_inner_code :: string
  rf_request_id :: "string option"
  rf_server_date_unix :: "int option"
  rf_content_type :: string
  rf_has_claims_challenge :: bool

definition new_failure :: "u16 \<Rightarrow> request_operation \<Rightarrow> request_failure" where
  "new_failure status operation =
     \<lparr>rf_status = status, rf_retry_after = 0, rf_operation = operation, rf_code = ''unknown'',
      rf_inner_code = ''unknown'', rf_request_id = None, rf_server_date_unix = None,
      rf_content_type = ''unknown'', rf_has_claims_challenge = False\<rparr>"

definition safe_codes :: "string list" where
  "safe_codes =
     [''accessDenied'', ''insufficient_claims'', ''InvalidAuthenticationToken'', ''invalidRequest'',
      ''itemNotFound'', ''notSupported'', ''nameAlreadyExists'', ''activityLimitReached'',
      ''quotaLimitReached'', ''generalException'', ''resourceLocked'', ''invalid_grant'',
      ''invalid_client'', ''invalid_scope'', ''invalid_request'', ''unauthorized_client'',
      ''interaction_required'', ''temporarily_unavailable'']"

definition safe_code :: "string option \<Rightarrow> string" where
  "safe_code value =
     (case value of None \<Rightarrow> ''unknown'' | Some s \<Rightarrow> if s \<in> set safe_codes then s else ''unknown'')"

definition is_hex_byte :: "nat \<Rightarrow> bool" where
  "is_hex_byte b = ((48 \<le> b \<and> b \<le> 57) \<or> (65 \<le> b \<and> b \<le> 70) \<or> (97 \<le> b \<and> b \<le> 102))"

definition uuid :: "string \<Rightarrow> string option" where
  "uuid value =
     (let bs = utf8 value in
      if length bs = 36 \<and>
         List.list_all (\<lambda>(i, b). if i \<in> {8, 13, 18, 23} then b = 45 else is_hex_byte b) (zip [0..<36] bs)
      then Some (to_ascii_lowercase value) else None)"

text \<open>The walk down the nested errors of a body.\<close>

fun inner_errors :: "nat \<Rightarrow> json \<Rightarrow> request_failure \<Rightarrow> request_failure" where
  "inner_errors 0 error f = f"
| "inner_errors (Suc n) error f =
     (case (case json_get error ''innerError'' of Some i \<Rightarrow> Some i | None \<Rightarrow> json_get error ''innererror'') of
        None \<Rightarrow> f
      | Some inner \<Rightarrow>
          let code = safe_code (as_str (json_index inner ''code''));
              f = (if code \<noteq> ''unknown'' then f\<lparr>rf_inner_code := code\<rparr> else f);
              f = (if rf_request_id f = None
                   then f\<lparr>rf_request_id := Option.bind (as_str (json_index inner ''request-id'')) uuid\<rparr> else f)
          in inner_errors n inner f)"

definition failure_body :: "json \<Rightarrow> request_failure \<Rightarrow> request_failure" where
  "failure_body value f =
     (let error = json_index value ''error'';
          code = (case as_str error of Some s \<Rightarrow> Some s | None \<Rightarrow> as_str (json_index error ''code''))
      in inner_errors 8 error (f\<lparr>rf_code := safe_code code\<rparr>))"

text \<open>RequestFailure::response; the parser of RFC 2822 dates is the time crate's.\<close>

definition response_failure ::
    "(string \<Rightarrow> int option) \<Rightarrow> response \<Rightarrow> request_operation \<Rightarrow> nat \<Rightarrow> request_failure" where
  "response_failure parse_rfc2822 r operation retry_after =
     (let f = new_failure (rs_status r) operation;
          f = f\<lparr>rf_retry_after := retry_after,
                rf_request_id := Option.bind (header r ''request-id'') uuid,
                rf_server_date_unix := Option.bind (header r ''date'') parse_rfc2822,
                rf_content_type :=
                  (case header r ''content-type'' of
                     None \<Rightarrow> ''unknown''
                   | Some v \<Rightarrow>
                       let t = hd (split_on (CHR '';'') v) in
                       if t = ''application/json'' then ''json''
                       else if t = ''text/html'' then ''html'' else ''other''),
                rf_has_claims_challenge :=
                  list_ex (\<lambda>(n, v). n = ''www-authenticate'' \<and>
                    (case v of None \<Rightarrow> False | Some t \<Rightarrow> contains_text ''claims='' (to_ascii_lowercase t)))
                    (rs_headers r)\<rparr>
      in if (case rs_length r of None \<Rightarrow> True | Some n \<Rightarrow> n \<le> 16384) \<and> body_within 16384 r
         then (case rs_json r of None \<Rightarrow> f | Some value \<Rightarrow> failure_body value f)
         else f)"

definition bool_text :: "bool \<Rightarrow> string" where
  "bool_text b = (if b then ''true'' else ''false'')"

definition int_text :: "int \<Rightarrow> string" where
  "int_text n = (if n < 0 then ''-'' @ decimal (nat (- n)) else decimal (nat n))"

definition failure_text :: "request_failure \<Rightarrow> string" where
  "failure_text f =
     ''operation='' @ operation_label (rf_operation f) @
     '' endpoint='' @ operation_endpoint (rf_operation f) @
     '' HTTP '' @ decimal (unat (rf_status f)) @ '' code='' @ rf_code f @ '' inner_code='' @ rf_inner_code f @
     '' retry_after_seconds='' @ decimal (rf_retry_after f div 1000) @
     '' content_type='' @ rf_content_type f @ '' claims_challenge='' @ bool_text (rf_has_claims_challenge f) @
     (case rf_request_id f of None \<Rightarrow> [] | Some i \<Rightarrow> '' request_id='' @ i) @
     (case rf_server_date_unix f of None \<Rightarrow> [] | Some d \<Rightarrow> '' server_date_unix='' @ int_text d)"

text \<open>TransportFailure.\<close>

record transport_failure =
  tf_operation :: request_operation
  tf_code :: string

fun transport_code :: "transport_kind \<Rightarrow> string" where
  "transport_code Timeout = ''timeout''"
| "transport_code Connect = ''connect-or-tls''"
| "transport_code Redirect = ''redirect''"
| "transport_code OtherTransport = ''transport''"

definition transport_request :: "transport_kind \<Rightarrow> request_operation \<Rightarrow> transport_failure" where
  "transport_request error operation = \<lparr>tf_operation = operation, tf_code = transport_code error\<rparr>"

definition transport_text :: "transport_failure \<Rightarrow> string" where
  "transport_text f =
     ''operation='' @ operation_label (tf_operation f) @
     '' endpoint='' @ operation_endpoint (tf_operation f) @ '' code='' @ tf_code f"

section \<open>What can leave the process\<close>

text \<open>
  A failure is bounded when all its text comes from the fixed lists; then a text made of it
  holds nothing the server wrote, up to a request id of hexadecimal digits.
\<close>

definition bounded_failure :: "request_failure \<Rightarrow> bool" where
  "bounded_failure f =
     (rf_code f \<in> insert ''unknown'' (set safe_codes) \<and> rf_inner_code f \<in> insert ''unknown'' (set safe_codes) \<and>
      rf_content_type f \<in> {''unknown'', ''json'', ''html'', ''other''} \<and>
      (case rf_request_id f of None \<Rightarrow> True
       | Some i \<Rightarrow> \<exists>v. uuid v = Some i))"

lemma safe_code_known: "safe_code v \<in> insert ''unknown'' (set safe_codes)"
  by (simp add: safe_code_def split: option.splits)

lemma bounded_inner_errors: "bounded_failure f \<Longrightarrow> bounded_failure (inner_errors n error f)"
proof (induction n arbitrary: error f)
  case (Suc n)
  note known = safe_code_known[of "as_str (json_index inner ''code'')" for inner]
  have "bounded_failure (f\<lparr>rf_request_id := Option.bind x uuid\<rparr>)" if "bounded_failure f" for f x
    using that by (auto simp: bounded_failure_def split: option.splits Option.bind_splits)
  moreover have "bounded_failure (f\<lparr>rf_inner_code := safe_code x\<rparr>)" if "bounded_failure f" for f x
    using that safe_code_known[of x] by (simp add: bounded_failure_def)
  ultimately show ?case using Suc by (simp add: Let_def split: option.splits)
qed simp

lemma bounded_response_failure: "bounded_failure (response_failure p r operation retry_after)"
proof -
  define f where "f = (new_failure (rs_status r) operation)\<lparr>rf_retry_after := retry_after,
      rf_request_id := Option.bind (header r ''request-id'') uuid,
      rf_server_date_unix := Option.bind (header r ''date'') p,
      rf_content_type := (case header r ''content-type'' of None \<Rightarrow> ''unknown'' | Some v \<Rightarrow>
         let t = hd (split_on (CHR '';'') v) in
         if t = ''application/json'' then ''json'' else if t = ''text/html'' then ''html'' else ''other''),
      rf_has_claims_challenge := list_ex (\<lambda>(n, v). n = ''www-authenticate'' \<and>
        (case v of None \<Rightarrow> False | Some t \<Rightarrow> contains_text ''claims='' (to_ascii_lowercase t))) (rs_headers r)\<rparr>"
  have "bounded_failure f"
    by (auto simp: f_def bounded_failure_def new_failure_def Let_def split: option.splits Option.bind_splits)
  moreover from this have "bounded_failure (failure_body v f)" for v
    unfolding failure_body_def Let_def
    by (intro bounded_inner_errors) (use safe_code_known in \<open>auto simp: bounded_failure_def\<close>)
  ultimately show ?thesis
    unfolding response_failure_def Let_def f_def[unfolded Let_def, symmetric] by (simp split: option.splits)
qed


end
