(* ===== verification/World.thy ===== *)
theory World
  imports DeleteRetry Diagnostics
begin

text \<open>
  What the synchronisation code of crates/twodrive-fs runs on: the database, the cache disk, the
  clock and the cloud.  The cloud is reached through the operations of the trait CloudBackend
  (crates/twodrive-backend/src/storage.rs), a record of functions that every definition takes as
  an argument.  A backend call takes and returns the whole world: while it runs, other threads
  may commit their own transactions, so its result may differ in the database and the disk too.
  An action answers a result or a fault and the new world.
\<close>

section \<open>World and backend\<close>

record 'c world =
  w_db :: db
  w_disk :: disk
  w_mtime :: "string \<Rightarrow> u64 option"
  w_now :: int
  w_cloud :: 'c

record delta_result =
  dr_entries :: "metadata_entry list"
  dr_deleted_remote_ids :: "string list"
  dr_delta_link :: "string option"

text \<open>
  The operations of the trait the code calls.  failure_info is the downcast of an error to
  RequestFailure; bad_name tells an error whose text names an unsupported OneDrive file name.
\<close>

record ('e, 'c) backend =
  list_all :: "'c world \<Rightarrow> ('e + metadata_entry list) \<times> 'c world"
  list_delta :: "string option \<Rightarrow> 'c world \<Rightarrow> ('e + delta_result) \<times> 'c world"
  get_metadata :: "string \<Rightarrow> 'c world \<Rightarrow> ('e + metadata_entry option) \<times> 'c world"
  get_metadata_by_path :: "string \<Rightarrow> 'c world \<Rightarrow> ('e + metadata_entry option) \<times> 'c world"
  download_sized_to :: "string \<Rightarrow> u64 \<Rightarrow> string \<Rightarrow> 'c world \<Rightarrow> ('e + u64) \<times> 'c world"
  upload_file_with_version ::
    "string \<Rightarrow> string \<Rightarrow> string option \<Rightarrow> string option \<Rightarrow> 'c world \<Rightarrow> ('e + metadata_entry) \<times> 'c world"
  create_folder :: "string \<Rightarrow> 'c world \<Rightarrow> ('e + metadata_entry) \<times> 'c world"
  rename_item :: "string \<Rightarrow> string \<Rightarrow> 'c world \<Rightarrow> ('e + metadata_entry) \<times> 'c world"
  delete_item :: "string \<Rightarrow> 'c world \<Rightarrow> ('e + unit) \<times> 'c world"
  is_conflict_error :: "'e \<Rightarrow> bool"
  failure_info :: "'e \<Rightarrow> request_failure option"
  bad_name :: "'e \<Rightarrow> bool"

text \<open>The default of the trait: only a missing data endpoint counts as not found.\<close>

definition is_not_found_error :: "('e, 'c) backend \<Rightarrow> 'e \<Rightarrow> bool" where
  "is_not_found_error be e =
     (case failure_info be e of None \<Rightarrow> False | Some f \<Rightarrow> rf_status f = 404 \<and> rf_operation f = Graph)"

section \<open>Actions\<close>

datatype 'e fault = DbFault db_error | CloudFault 'e | IoFault | Cancelled | Bail string

type_synonym ('e, 'c, 'a) act = "'c world \<Rightarrow> ('e fault + 'a) \<times> 'c world"

definition act_return :: "'a \<Rightarrow> ('e, 'c, 'a) act" where
  "act_return a w = (Inr a, w)"

definition act_fail :: "'e fault \<Rightarrow> ('e, 'c, 'a) act" where
  "act_fail e w = (Inl e, w)"

definition act_bind :: "('e, 'c, 'a) act \<Rightarrow> ('a \<Rightarrow> ('e, 'c, 'b) act) \<Rightarrow> ('e, 'c, 'b) act" where
  "act_bind m k w = (case m w of (Inl e, w') \<Rightarrow> (Inl e, w') | (Inr a, w') \<Rightarrow> k a w')"

definition read_db :: "(db \<Rightarrow> 'a) \<Rightarrow> ('e, 'c, 'a) act" where
  "read_db f w = (Inr (f (w_db w)), w)"

text \<open>A database operation that may fail, one that answers, and one that only changes.\<close>

definition db_try :: "(db \<Rightarrow> (db_error + 'a) \<times> db) \<Rightarrow> ('e, 'c, 'a) act" where
  "db_try f w =
     (case f (w_db w) of
        (Inl e, d) \<Rightarrow> (Inl (DbFault e), w\<lparr>w_db := d\<rparr>)
      | (Inr a, d) \<Rightarrow> (Inr a, w\<lparr>w_db := d\<rparr>))"

definition db_ask :: "(db \<Rightarrow> 'a \<times> db) \<Rightarrow> ('e, 'c, 'a) act" where
  "db_ask f w = (case f (w_db w) of (a, d) \<Rightarrow> (Inr a, w\<lparr>w_db := d\<rparr>))"

definition db_do :: "(db \<Rightarrow> db) \<Rightarrow> ('e, 'c, unit) act" where
  "db_do f w = (Inr (), w\<lparr>w_db := f (w_db w)\<rparr>)"

definition cloud_call :: "('c world \<Rightarrow> ('e + 'a) \<times> 'c world) \<Rightarrow> ('e, 'c, 'a) act" where
  "cloud_call f w = (case f w of (Inl e, w') \<Rightarrow> (Inl (CloudFault e), w') | (Inr a, w') \<Rightarrow> (Inr a, w'))"

text \<open>The result as a value, and a look at the world.\<close>

definition attempt :: "('e, 'c, 'a) act \<Rightarrow> ('e, 'c, 'e fault + 'a) act" where
  "attempt m w = (case m w of (r, w') \<Rightarrow> (Inr r, w'))"

definition read_world :: "('c world \<Rightarrow> 'a) \<Rightarrow> ('e, 'c, 'a) act" where
  "read_world f w = (Inr (f w), w)"

text \<open>Database operations that read the clock.\<close>

definition at_now :: "(int \<Rightarrow> ('e, 'c, 'a) act) \<Rightarrow> ('e, 'c, 'a) act" where
  "at_now f w = f (w_now w) w"

lemma act_simps [simp]:
  "act_bind (act_return a) k = k a"
  "act_bind (act_fail e) k = act_fail e"
  by (auto simp: act_bind_def act_return_def act_fail_def)

section \<open>Invariants of actions\<close>

text \<open>An action keeps a property of worlds, whatever its result.\<close>

definition act_keeps :: "('c world \<Rightarrow> bool) \<Rightarrow> ('e, 'c, 'a) act \<Rightarrow> bool" where
  "act_keeps P m = (\<forall>w. P w \<longrightarrow> P (snd (m w)))"

named_theorems keeps_intros \<open>preservation by actions\<close>

lemma act_keepsD: "act_keeps P m \<Longrightarrow> P w \<Longrightarrow> m w = (r, w') \<Longrightarrow> P w'"
  unfolding act_keeps_def by (metis snd_conv)

lemma keeps_return [keeps_intros]: "act_keeps P (act_return a)"
  by (simp add: act_keeps_def act_return_def)

lemma keeps_fail [keeps_intros]: "act_keeps P (act_fail e)"
  by (simp add: act_keeps_def act_fail_def)

lemma keeps_bind [keeps_intros]:
  "act_keeps P m \<Longrightarrow> (\<And>a. act_keeps P (k a)) \<Longrightarrow> act_keeps P (act_bind m k)"
  by (simp add: act_keeps_def act_bind_def split: prod.split sum.split) (metis snd_conv)

lemma keeps_read [keeps_intros]: "act_keeps P (read_db f)"
  by (simp add: act_keeps_def read_db_def)

lemma keeps_now [keeps_intros]: "(\<And>n. act_keeps P (f n)) \<Longrightarrow> act_keeps P (at_now f)"
  by (simp add: act_keeps_def at_now_def)

lemma keeps_if [keeps_intros]: "act_keeps P m \<Longrightarrow> act_keeps P n \<Longrightarrow> act_keeps P (if b then m else n)"
  by simp

lemma keeps_option [keeps_intros]:
  "act_keeps P m \<Longrightarrow> (\<And>a. act_keeps P (k a)) \<Longrightarrow> act_keeps P (case x of None \<Rightarrow> m | Some a \<Rightarrow> k a)"
  by (cases x) simp_all

lemma keeps_attempt [keeps_intros]: "act_keeps P m \<Longrightarrow> act_keeps P (attempt m)"
  by (simp add: act_keeps_def attempt_def split: prod.split) (metis snd_conv)

lemma keeps_read_world [keeps_intros]: "act_keeps P (read_world f)"
  by (simp add: act_keeps_def read_world_def)

lemma keeps_sum [keeps_intros]:
  "(\<And>a. act_keeps P (m a)) \<Longrightarrow> (\<And>b. act_keeps P (n b)) \<Longrightarrow>
   act_keeps P (case x of Inl a \<Rightarrow> m a | Inr b \<Rightarrow> n b)"
  by (cases x) simp_all

lemma keeps_prod [keeps_intros]:
  "(\<And>a b. act_keeps P (f a b)) \<Longrightarrow> act_keeps P (case x of (a, b) \<Rightarrow> f a b)"
  by (cases x) simp

text \<open>A property of the database alone.\<close>

abbreviation db_prop :: "(db \<Rightarrow> bool) \<Rightarrow> 'c world \<Rightarrow> bool" where
  "db_prop P \<equiv> \<lambda>w. P (w_db w)"

lemma keeps_try [keeps_intros]: "(\<And>d. P d \<Longrightarrow> P (snd (f d))) \<Longrightarrow> act_keeps (db_prop P) (db_try f)"
  by (simp add: act_keeps_def db_try_def split: prod.split sum.split) (metis snd_conv)

lemma keeps_ask [keeps_intros]: "(\<And>d. P d \<Longrightarrow> P (snd (f d))) \<Longrightarrow> act_keeps (db_prop P) (db_ask f)"
  by (simp add: act_keeps_def db_ask_def split: prod.split) (metis snd_conv)

lemma keeps_do [keeps_intros]: "(\<And>d. P d \<Longrightarrow> P (f d)) \<Longrightarrow> act_keeps (db_prop P) (db_do f)"
  by (simp add: act_keeps_def db_do_def)

lemma keeps_cloud: "(\<And>w. Q w \<Longrightarrow> Q (snd (f w))) \<Longrightarrow> act_keeps Q (cloud_call f)"
  by (simp add: act_keeps_def cloud_call_def split: prod.split sum.split) (metis snd_conv)

text \<open>
  What the model relies on for the other threads that run during a backend call: they keep a
  property of the database (each of their transactions does).
\<close>

definition backend_keeps :: "('c world \<Rightarrow> bool) \<Rightarrow> ('e, 'c) backend \<Rightarrow> bool" where
  "backend_keeps P be =
     ((\<forall>w. P w \<longrightarrow> P (snd (list_all be w))) \<and>
      (\<forall>l w. P w \<longrightarrow> P (snd (list_delta be l w))) \<and>
      (\<forall>i w. P w \<longrightarrow> P (snd (get_metadata be i w))) \<and>
      (\<forall>p w. P w \<longrightarrow> P (snd (get_metadata_by_path be p w))) \<and>
      (\<forall>i s t w. P w \<longrightarrow> P (snd (download_sized_to be i s t w))) \<and>
      (\<forall>p c i e w. P w \<longrightarrow> P (snd (upload_file_with_version be p c i e w))) \<and>
      (\<forall>p w. P w \<longrightarrow> P (snd (create_folder be p w))) \<and>
      (\<forall>i p w. P w \<longrightarrow> P (snd (rename_item be i p w))) \<and>
      (\<forall>i w. P w \<longrightarrow> P (snd (delete_item be i w))))"

lemma keeps_backend [keeps_intros]:
  assumes "backend_keeps P be"
  shows "act_keeps P (cloud_call (list_all be))" "act_keeps P (cloud_call (list_delta be l))"
    "act_keeps P (cloud_call (get_metadata be i))" "act_keeps P (cloud_call (get_metadata_by_path be p))"
    "act_keeps P (cloud_call (download_sized_to be i s t))"
    "act_keeps P (cloud_call (upload_file_with_version be p c io e))"
    "act_keeps P (cloud_call (create_folder be p))" "act_keeps P (cloud_call (rename_item be i p))"
    "act_keeps P (cloud_call (delete_item be i))"
  using assms by (auto simp: backend_keeps_def intro!: keeps_cloud)

end
