(* ===== verification/Hydration.thy ===== *)
theory Hydration
  imports World
begin

text \<open>
  crates/twodrive-fs/src/{hydration,cache_io,metadata}.rs: reading the cloud into the cache and
  the index.  A download is bound to a generation of its row and to the version of its record,
  both checked before the bytes are published; a delta is applied to the index without touching
  local work, and its cursor is stored last.
\<close>

section \<open>Cache files\<close>

definition has_existing_cache :: "disk \<Rightarrow> file_record \<Rightarrow> bool" where
  "has_existing_cache k r =
     (r_state r \<in> {Cached, Pinned, Writing, Dirty, Uploading} \<and>
      (case r_cache_path r of
         None \<Rightarrow> False
       | Some path \<Rightarrow>
           (case k path of
              None \<Rightarrow> False
            | Some Faulty \<Rightarrow> False
            | Some n \<Rightarrow> r_state r \<notin> {Cached, Pinned} \<or> node_len n = m_size (metadata r))))"

definition reconcile_cached_record :: "file_record \<Rightarrow> ('e, 'c, file_record) act" where
  "reconcile_cached_record r w =
     (if r_state r \<in> {Cached, Pinned} \<and>
         (case r_cache_path r of
            None \<Rightarrow> False
          | Some path \<Rightarrow>
              (case w_disk w path of
                 None \<Rightarrow> False | Some Faulty \<Rightarrow> False
               | Some n \<Rightarrow> node_len n \<noteq> m_size (metadata r)))
      then
        act_bind (db_ask (invalidate_cached_snapshot r)) (\<lambda>_.
        act_bind (read_db (get_by_remote_id (m_remote_id (metadata r)))) (\<lambda>found.
          case found of None \<Rightarrow> act_fail (Bail ''cache record disappeared'') | Some r' \<Rightarrow> act_return r')) w
      else act_return r w)"

definition ascii_alphanumeric :: "char \<Rightarrow> bool" where
  "ascii_alphanumeric c =
     (let n = of_char c :: nat in 48 \<le> n \<and> n \<le> 57 \<or> 65 \<le> n \<and> n \<le> 90 \<or> 97 \<le> n \<and> n \<le> 122)"

definition sanitize_cache_name :: "string \<Rightarrow> string" where
  "sanitize_cache_name remote_id =
     map (\<lambda>ch. if ascii_alphanumeric ch \<or> ch = CHR ''-'' \<or> ch = CHR ''_'' then ch else CHR ''_'') remote_id"

definition decimal_int :: "int \<Rightarrow> string" where
  "decimal_int n = (if n < 0 then CHR ''-'' # decimal (nat (- n)) else decimal (nat n))"

definition download_cache_path :: "string \<Rightarrow> string \<Rightarrow> int \<Rightarrow> string" where
  "download_cache_path cache_dir remote_id generation =
     cache_dir @ ''/'' @ sanitize_cache_name remote_id @ ''-download-'' @ decimal_int generation"

text \<open>fs::create_dir_all and opening the temporary file for writing, truncated.\<close>

definition make_dirs :: "string \<Rightarrow> ('e, 'c, unit) act" where
  "make_dirs dir w =
     (case w_disk w dir of
        None \<Rightarrow> (Inr (), w\<lparr>w_disk := (w_disk w)(dir := Some (Directory 0))\<rparr>)
      | Some (Directory _) \<Rightarrow> (Inr (), w)
      | Some _ \<Rightarrow> (Inl IoFault, w))"

definition create_truncated :: "string \<Rightarrow> ('e, 'c, unit) act" where
  "create_truncated path w =
     (case w_disk w path of
        None \<Rightarrow> (Inr (), w\<lparr>w_disk := (w_disk w)(path := Some (RegularFile 0 Free))\<rparr>)
      | Some (RegularFile _ a) \<Rightarrow>
          if a = OpenFails then (Inl IoFault, w)
          else (Inr (), w\<lparr>w_disk := (w_disk w)(path := Some (RegularFile 0 a))\<rparr>)
      | Some _ \<Rightarrow> (Inl IoFault, w))"

text \<open>let _ = fs::remove_file(path)\<close>

definition discard_file :: "string \<Rightarrow> ('e, 'c, unit) act" where
  "discard_file path w =
     (Inr (), case w_disk w path of
        None \<Rightarrow> w
      | Some n \<Rightarrow> if removable n then w\<lparr>w_disk := (w_disk w)(path := None)\<rparr> else w)"

definition finish_hydration_act ::
    "string \<Rightarrow> int \<Rightarrow> string \<Rightarrow> string \<Rightarrow> ('e, 'c, bool) act" where
  "finish_hydration_act remote_id generation temporary cache w =
     (case finish_hydration (w_now w) remote_id generation temporary cache (w_db w, w_disk w) of
        (Inl e, d, k) \<Rightarrow> (Inl (DbFault e), w\<lparr>w_db := d, w_disk := k\<rparr>)
      | (Inr b, d, k) \<Rightarrow> (Inr b, w\<lparr>w_db := d, w_disk := k\<rparr>))"

section \<open>Downloads\<close>

definition check_download_generation :: "string \<Rightarrow> int \<Rightarrow> ('e, 'c, unit) act" where
  "check_download_generation i generation =
     act_bind (db_try (\<lambda>d. (download_generation i d, d))) (\<lambda>g.
       if g \<noteq> generation then act_fail Cancelled else act_return ())"

definition verify_remote_version :: "('e, 'c) backend \<Rightarrow> file_record \<Rightarrow> ('e, 'c, unit) act" where
  "verify_remote_version be r =
     (case r_cloud_remote_id r of
        None \<Rightarrow> act_fail (Bail ''local-only file has no cloud content'')
      | Some cid \<Rightarrow>
          act_bind (cloud_call (get_metadata be cid)) (\<lambda>found.
            case found of
              None \<Rightarrow> act_fail (Bail ''cloud file no longer exists'')
            | Some remote \<Rightarrow>
                if m_size remote \<noteq> m_size (metadata r) \<or> m_etag remote \<noteq> m_etag (metadata r)
                then act_bind (\<lambda>w. db_try (upsert_metadata (w_disk w) remote) w) (\<lambda>_. act_fail Cancelled)
                else act_return ()))"

definition download_steps ::
    "('e, 'c) backend \<Rightarrow> file_record \<Rightarrow> int \<Rightarrow> string \<Rightarrow> string \<Rightarrow> string \<Rightarrow> ('e, 'c, string) act" where
  "download_steps be r generation cid tmp_path cache_path =
     (let i = m_remote_id (metadata r); sz = m_size (metadata r) in
      act_bind (verify_remote_version be r) (\<lambda>_.
      act_bind (cloud_call (download_sized_to be cid sz tmp_path)) (\<lambda>count.
        if count \<noteq> sz then act_fail (Bail ''download returned an unexpected length'')
        else
      act_bind (verify_remote_version be r) (\<lambda>_.
      act_bind (check_download_generation i generation) (\<lambda>_.
      act_bind (finish_hydration_act i generation tmp_path cache_path) (\<lambda>published.
        if published then act_return cache_path else act_fail Cancelled))))))"

text \<open>if result.is_err() then remove the temporary file and fail the hydration.\<close>

definition or_cleanup :: "('e, 'c, 'a) act \<Rightarrow> ('e, 'c, unit) act \<Rightarrow> ('e, 'c, 'a) act" where
  "or_cleanup m cleanup w =
     (case m w of (Inr a, w') \<Rightarrow> (Inr a, w') | (Inl e, w') \<Rightarrow> (Inl e, snd (cleanup w')))"

definition hydrate_generation ::
    "('e, 'c) backend \<Rightarrow> string \<Rightarrow> file_record \<Rightarrow> int \<Rightarrow> ('e, 'c, string) act" where
  "hydrate_generation be cache_dir given generation =
     (let i = m_remote_id (metadata given) in
      if m_is_dir (metadata given) then act_fail (Bail ''cannot hydrate a directory'')
      else
        act_bind (check_download_generation i generation) (\<lambda>_.
        act_bind (read_db (get_by_remote_id i)) (\<lambda>refreshed.
          let r = (case refreshed of None \<Rightarrow> given | Some r \<Rightarrow> r);
              rid = m_remote_id (metadata r) in
          act_bind (\<lambda>w. (Inr (has_existing_cache (w_disk w) r), w)) (\<lambda>cached.
          case (if cached then r_cache_path r else None) of
            Some cache_path \<Rightarrow>
              act_bind (at_now (\<lambda>now. db_do (mark_cache_accessed now rid))) (\<lambda>_. act_return cache_path)
          | None \<Rightarrow>
              act_bind (db_ask (begin_hydration rid generation)) (\<lambda>begun.
              if \<not> begun then act_fail Cancelled
              else
                act_bind (make_dirs cache_dir) (\<lambda>_.
                let cache_path = download_cache_path cache_dir rid generation;
                    tmp_path = cache_path @ ''.tmp'' in
                act_bind (create_truncated tmp_path) (\<lambda>_.
                case r_cloud_remote_id r of
                  None \<Rightarrow> act_fail (Bail ''local-only file has no cloud content to hydrate'')
                | Some cid \<Rightarrow>
                    or_cleanup (download_steps be r generation cid tmp_path cache_path)
                      (act_bind (discard_file tmp_path) (\<lambda>_. db_do (fail_hydration rid generation))))))))))"

definition hydrate_record :: "('e, 'c) backend \<Rightarrow> string \<Rightarrow> file_record \<Rightarrow> ('e, 'c, string) act" where
  "hydrate_record be cache_dir given =
     act_bind (read_db (get_by_remote_id (m_remote_id (metadata given)))) (\<lambda>current.
     act_bind (reconcile_cached_record (case current of None \<Rightarrow> given | Some r \<Rightarrow> r)) (\<lambda>r.
     act_bind (db_try (\<lambda>d. (download_generation (m_remote_id (metadata r)) d, d))) (\<lambda>generation.
       hydrate_generation be cache_dir r generation)))"

text \<open>A loop that counts the successes and goes on after a fault, and one that stops at it.\<close>

fun each_counted :: "('x \<Rightarrow> ('e, 'c, 'a) act) \<Rightarrow> ('a \<Rightarrow> bool) \<Rightarrow> 'x list \<Rightarrow> nat \<Rightarrow> ('e, 'c, nat) act" where
  "each_counted f ok [] n = act_return n"
| "each_counted f ok (x # xs) n =
     (\<lambda>w. case f x w of
        (Inl _, w') \<Rightarrow> each_counted f ok xs n w'
      | (Inr a, w') \<Rightarrow> each_counted f ok xs (if ok a then Suc n else n) w')"

fun each_tried :: "('x \<Rightarrow> ('e, 'c, bool) act) \<Rightarrow> 'x list \<Rightarrow> nat \<Rightarrow> ('e, 'c, nat) act" where
  "each_tried f [] n = act_return n"
| "each_tried f (x # xs) n = act_bind (f x) (\<lambda>b. each_tried f xs (if b then Suc n else n))"

definition hydrate_pending_pins :: "('e, 'c) backend \<Rightarrow> string \<Rightarrow> ('e, 'c, nat) act" where
  "hydrate_pending_pins be cache_dir w =
     each_counted (hydrate_record be cache_dir) (\<lambda>_. True)
       (filter (\<lambda>r. \<not> m_is_dir (metadata r) \<and> effective_pinned r \<and> \<not> has_existing_cache (w_disk w) r)
         (all_records (w_db w))) 0 w"

definition pin_child :: "('e, 'c) backend \<Rightarrow> string \<Rightarrow> file_record \<Rightarrow> ('e, 'c, bool) act" where
  "pin_child be cache_dir child =
     (if \<not> m_is_dir (metadata child) \<and> effective_pinned child
      then act_bind (read_db (get_by_remote_id (m_remote_id (metadata child)))) (\<lambda>updated.
           act_bind (hydrate_record be cache_dir (case updated of None \<Rightarrow> child | Some r \<Rightarrow> r)) (\<lambda>_.
             act_return True))
      else act_return False)"

definition pin_path :: "('e, 'c) backend \<Rightarrow> string \<Rightarrow> string \<Rightarrow> ('e, 'c, nat) act" where
  "pin_path be cache_dir path =
     act_bind (read_db (get_by_path path)) (\<lambda>found.
       case found of
         None \<Rightarrow> act_fail (Bail ''path is not in twodrive metadata'')
       | Some r \<Rightarrow>
           act_bind (db_try (set_explicit_pin (m_remote_id (metadata r)) True)) (\<lambda>_.
           if \<not> m_is_dir (metadata r)
           then act_bind (read_db (get_by_remote_id (m_remote_id (metadata r)))) (\<lambda>updated.
                act_bind (hydrate_record be cache_dir (case updated of None \<Rightarrow> r | Some u \<Rightarrow> u)) (\<lambda>_.
                  act_return 1))
           else act_bind (read_db (list_descendants (m_path (metadata r)))) (\<lambda>children.
                  each_tried (pin_child be cache_dir) children 0)))"

definition unpin_path :: "string \<Rightarrow> ('e, 'c, nat) act" where
  "unpin_path path =
     act_bind (read_db (get_by_path path)) (\<lambda>found.
       case found of
         None \<Rightarrow> act_fail (Bail ''path is not in twodrive metadata'')
       | Some r \<Rightarrow>
           act_bind (db_try (set_explicit_pin (m_remote_id (metadata r)) False)) (\<lambda>_.
           if \<not> m_is_dir (metadata r) then act_return 1
           else act_bind (read_db (list_descendants (m_path (metadata r)))) (\<lambda>cs. act_return (length cs))))"

section \<open>Metadata synchronisation\<close>

definition sync_metadata :: "('e, 'c) backend \<Rightarrow> ('e, 'c, nat) act" where
  "sync_metadata be =
     act_bind (cloud_call (list_all be)) (\<lambda>entries.
     act_bind (\<lambda>w. db_try (upsert_metadata_batch (w_disk w) entries) w) (\<lambda>_.
       act_return (length entries)))"

text \<open>One deletion of a delta: skipped for local work and for items with a pending job.\<close>

definition apply_deletion :: "string \<Rightarrow> db \<Rightarrow> (db_error + unit) \<times> db" where
  "apply_deletion cloud_id d =
     (case get_by_cloud_remote_id cloud_id d of
        None \<Rightarrow> (Inr (), d)
      | Some r \<Rightarrow>
          if r_state r \<in> {Writing, Dirty, Uploading, Conflict} \<or>
             pending_metadata_operation (m_remote_id (metadata r)) d \<noteq> None
          then (Inr (), d)
          else remove_by_remote_id (m_remote_id (metadata r)) d)"

fun apply_deletions :: "string list \<Rightarrow> ('e, 'c, unit) act" where
  "apply_deletions [] = act_return ()"
| "apply_deletions (i # is) = act_bind (db_try (apply_deletion i)) (\<lambda>_. apply_deletions is)"

definition sync_delta_metadata :: "('e, 'c) backend \<Rightarrow> ('e, 'c, nat) act" where
  "sync_delta_metadata be =
     act_bind (read_db delta_link) (\<lambda>link.
     act_bind (cloud_call (list_delta be link)) (\<lambda>delta.
     act_bind (apply_deletions (dr_deleted_remote_ids delta)) (\<lambda>_.
     act_bind (\<lambda>w. db_try (upsert_metadata_batch (w_disk w) (dr_entries delta)) w) (\<lambda>_.
     act_bind (case dr_delta_link delta of
                 None \<Rightarrow> act_return () | Some l \<Rightarrow> db_do (set_delta_link l)) (\<lambda>_.
       act_return (length (dr_entries delta)))))))"


section \<open>What downloads and synchronisation keep\<close>

text \<open>
  The database operations downloads, pinning and synchronisation use, as an interface: a property
  of databases that each of them keeps is kept by every action built from them.
\<close>

lemma keeps_world: "(\<And>w. act_keeps P (f w)) \<Longrightarrow> act_keeps P (\<lambda>w. f w w)"
  by (simp add: act_keeps_def)

lemma keeps_world_if: "act_keeps P m \<Longrightarrow> act_keeps P n \<Longrightarrow> act_keeps P (\<lambda>w. if c w then m w else n w)"
  by (simp add: act_keeps_def)

locale sync_store =
  fixes I :: "db \<Rightarrow> bool"
  assumes snapshot: "I d \<Longrightarrow> I (snd (invalidate_cached_snapshot rec d))"
    and claim: "I d \<Longrightarrow> I (snd (begin_hydration i g d))"
    and publish: "I d \<Longrightarrow> finish_hydration now i g t c (d, k) = (res, d', k') \<Longrightarrow> I d'"
    and failed: "I d \<Longrightarrow> I (fail_hydration i g d)"
    and accessed: "I d \<Longrightarrow> I (mark_cache_accessed now i d)"
    and import: "I d \<Longrightarrow> I (snd (upsert_metadata_entries k b es d))"
    and pin: "I d \<Longrightarrow> I (snd (set_explicit_pin i b d))"
    and settle: "I d \<Longrightarrow> I (snd (apply_deletion i d))"
    and cursor: "I d \<Longrightarrow> I (set_delta_link l d)"
begin

lemma keeps_dirs [keeps_intros]: "act_keeps (db_prop I) (make_dirs p)"
  by (auto simp: act_keeps_def make_dirs_def split: option.split node.split)

lemma keeps_create [keeps_intros]: "act_keeps (db_prop I) (create_truncated p)"
  by (auto simp: act_keeps_def create_truncated_def split: option.split node.split)

lemma keeps_discard [keeps_intros]: "act_keeps (db_prop I) (discard_file p)"
  by (auto simp: act_keeps_def discard_file_def split: option.split)

lemma keeps_finish [keeps_intros]: "act_keeps (db_prop I) (finish_hydration_act i g t c)"
  unfolding act_keeps_def finish_hydration_act_def
  by (auto split: prod.split sum.split dest: publish)

lemma keeps_import [keeps_intros]:
  "act_keeps (db_prop I) (\<lambda>w. db_try (upsert_metadata (w_disk w) e) w)"
  "act_keeps (db_prop I) (\<lambda>w. db_try (upsert_metadata_batch (w_disk w) es) w)"
  by (rule keeps_world[where f = "\<lambda>w. db_try (upsert_metadata (w_disk w) e)"], rule keeps_try,
      simp add: upsert_metadata_def import)
    (rule keeps_world[where f = "\<lambda>w. db_try (upsert_metadata_batch (w_disk w) es)"], rule keeps_try,
      simp add: upsert_metadata_batch_def import)

lemma keeps_cleanup [keeps_intros]:
  "act_keeps (db_prop I) m \<Longrightarrow> act_keeps (db_prop I) n \<Longrightarrow> act_keeps (db_prop I) (or_cleanup m n)"
  by (simp add: act_keeps_def or_cleanup_def split: prod.split sum.split) (metis snd_conv)

lemma keeps_ask_world [keeps_intros]: "act_keeps (db_prop I) (\<lambda>w. (Inr (f w), w))"
  by (simp add: act_keeps_def)

lemma keeps_generation [keeps_intros]:
  "act_keeps (db_prop I) (db_try (\<lambda>d. (download_generation i d, d)))"
  by (rule keeps_try) simp

lemma keeps_reconcile [keeps_intros]: "act_keeps (db_prop I) (reconcile_cached_record r)"
  unfolding reconcile_cached_record_def[abs_def]
  by (rule keeps_world_if; intro keeps_intros snapshot)

lemma keeps_counted [keeps_intros]:
  assumes "\<And>x. act_keeps P (f x)"
  shows "act_keeps P (each_counted f ok xs n)"
proof (induction xs arbitrary: n)
  case (Cons x xs)
  then show ?case using assms[of x] by (auto simp: act_keeps_def split: prod.split sum.split)
qed (simp add: keeps_return)

lemma keeps_tried [keeps_intros]: "(\<And>x. act_keeps P (f x)) \<Longrightarrow> act_keeps P (each_tried f xs n)"
  by (induction xs arbitrary: n) (simp_all add: keeps_return keeps_bind)

lemma keeps_verify [keeps_intros]:
  "backend_keeps (db_prop I) be \<Longrightarrow> act_keeps (db_prop I) (verify_remote_version be r)"
  unfolding verify_remote_version_def by (intro keeps_intros)

lemma keeps_check [keeps_intros]: "act_keeps (db_prop I) (check_download_generation i g)"
  unfolding check_download_generation_def by (intro keeps_intros)

lemma keeps_download [keeps_intros]:
  "backend_keeps (db_prop I) be \<Longrightarrow> act_keeps (db_prop I) (download_steps be r g c t p)"
  unfolding download_steps_def Let_def by (intro keeps_intros)

lemma keeps_hydrate_generation [keeps_intros]:
  "backend_keeps (db_prop I) be \<Longrightarrow> act_keeps (db_prop I) (hydrate_generation be dir r g)"
  unfolding hydrate_generation_def Let_def
  by (intro keeps_intros accessed claim failed)

lemma keeps_hydrate_record [keeps_intros]:
  "backend_keeps (db_prop I) be \<Longrightarrow> act_keeps (db_prop I) (hydrate_record be dir r)"
  unfolding hydrate_record_def by (intro keeps_intros)

lemma keeps_pending_pins:
  "backend_keeps (db_prop I) be \<Longrightarrow> act_keeps (db_prop I) (hydrate_pending_pins be dir)"
  unfolding hydrate_pending_pins_def[abs_def]
  by (rule keeps_world) (intro keeps_intros)

lemma keeps_pin_path:
  "backend_keeps (db_prop I) be \<Longrightarrow> act_keeps (db_prop I) (pin_path be dir path)"
  unfolding pin_path_def pin_child_def[abs_def] by (intro keeps_intros pin)

lemma keeps_unpin_path: "act_keeps (db_prop I) (unpin_path path)"
  unfolding unpin_path_def by (intro keeps_intros pin)

lemma keeps_sync_metadata:
  "backend_keeps (db_prop I) be \<Longrightarrow> act_keeps (db_prop I) (sync_metadata be)"
  unfolding sync_metadata_def by (intro keeps_intros)

lemma keeps_deletions [keeps_intros]: "act_keeps (db_prop I) (apply_deletions ids)"
  by (induction ids) (simp_all add: keeps_return, intro keeps_intros settle)

lemma keeps_sync_delta:
  "backend_keeps (db_prop I) be \<Longrightarrow> act_keeps (db_prop I) (sync_delta_metadata be)"
  unfolding sync_delta_metadata_def by (intro keeps_intros cursor)

end

lemma keeps_work_remove:
  assumes "wf_db d" "file_by_id i d = Some r" "\<not> local_work (f_state r)"
  shows "keeps_work d (snd (remove_by_remote_id i d))"
proof -
  let ?d1 = "delete_ops (\<lambda>op. o_local_id op = i) d"
  have wf: "wf_db ?d1" by (rule wf_delete_ops[OF assms(1)])
  have "keeps_work ?d1 (delete_files (at_id i) ?d1)"
    using file_by_id_unique[OF assms(1,2)] assms(3)
    by (intro keeps_work_delete[OF wf]) (auto simp: at_id_def)
  then have "keeps_work d (delete_files (at_id i) ?d1)"
    using keeps_work_trans[OF keeps_work_delete_ops] by blast
  then show ?thesis
    unfolding remove_by_remote_id_def run_tx_def
    by (intro keeps_work_then_recompute) (simp_all add: wf_delete_files[OF wf])
qed

lemma apply_deletion_safe:
  assumes "wf_db d"
  shows "wf_db (snd (apply_deletion c d)) \<and> keeps_work d (snd (apply_deletion c d))"
proof -
  have "keeps_work d (snd (remove_by_remote_id (m_remote_id (metadata r)) d))"
    if r: "get_by_cloud_remote_id c d = Some r" "r_state r \<notin> {Writing, Dirty, Uploading, Conflict}" for r
  proof -
    obtain q where q: "sql_first (\<lambda>r. f_cloud_remote_id r = Some c) (t_files d) = Some q" "r = row_to_record q"
      using r(1) by (auto simp: get_by_cloud_remote_id_def)
    then have "file_by_id (f_remote_id q) d = Some q"
      using file_by_id_iff[OF assms] sql_first_SomeD[OF q(1)] by blast
    with r(2) q(2) show ?thesis
      using keeps_work_remove[OF assms, of "f_remote_id q" q] by (simp add: local_work_def row_to_record_def)
  qed
  then show ?thesis
    using wf_remove_by_remote_id[OF assms] assms
    by (auto simp: apply_deletion_def split: option.split)
qed

lemma finish_hydration_safe:
  assumes wf: "wf_db d" and run: "finish_hydration now i g t c (d, k) = (res, d', k')"
  shows "wf_db d' \<and> keeps_work d d'"
proof (cases "res = Inr True")
  case True
  obtain r where r: "file_by_id i d = Some r" "\<not> local_work (f_state r)"
    using finish_hydration_True[OF wf] run True by blast
  have d': "d' = touch_files (at_id i) (publish_cache now c) d"
    using run True by (auto simp: finish_hydration_def split: option.splits sum.splits node.splits if_splits)
  have "keeps_work d d'"
    unfolding d' by (rule keeps_work_touch)
      (use file_by_id_unique[OF wf r(1)] r(2) in \<open>auto simp: at_id_def publish_cache_def\<close>)
  then show ?thesis by (simp add: d' wf_touch_files wf publish_cache_def)
next
  case False
  then show ?thesis using finish_hydration_False[OF run] wf by simp
qed

lemma keeps_work_claim:
  assumes "\<And>r. f_remote_id (f r) = f_remote_id r" "\<And>r. p r \<Longrightarrow> \<not> local_work (f_state r)"
  shows "keeps_work d (snd (claim_row p f d))"
  unfolding claim_row_def snd_conv by (rule keeps_work_touch) (use assms in auto)

lemma keeps_work_cache_claims:
  "keeps_work d (snd (invalidate_cached_snapshot rec d))" "keeps_work d (snd (begin_hydration i g d))"
  "keeps_work d (fail_hydration i g d)" "keeps_work d (mark_cache_accessed now i d)"
proof -
  show "keeps_work d (snd (invalidate_cached_snapshot rec d))"
    unfolding invalidate_cached_snapshot_def
    by (rule keeps_work_claim) (auto simp: detach_cache_def snapshot_guard_def local_work_def)
  show "keeps_work d (snd (begin_hydration i g d))"
    unfolding begin_hydration_def
    by (rule keeps_work_claim) (auto simp: start_hydration_def hydration_guard_def local_work_def)
  show "keeps_work d (fail_hydration i g d)"
    unfolding fail_hydration_def by (rule keeps_work_touch) (auto simp: local_work_def)
  show "keeps_work d (mark_cache_accessed now i d)"
    unfolding mark_cache_accessed_def by (rule keeps_work_touch) (auto simp: same_bytes_def)
qed

lemma keeps_work_set_delta_link: "keeps_work d (set_delta_link l d)"
  by (rule keeps_work_files) (simp add: set_delta_link_def set_state_value_def)

lemma keeps_work_set_pin:
  assumes "wf_db d"
  shows "keeps_work d (snd (set_explicit_pin i b d))"
  unfolding set_explicit_pin_def
proof (rule keeps_work_then_recompute)
  show "wf_db (snd (run_tx (tx_set_explicit_pin i b) d))"
    by (rule wf_run_tx[OF assms]) (rule wf_tx_set_explicit_pin[OF assms])
  show "keeps_work d (snd (run_tx (tx_set_explicit_pin i b) d))"
    by (rule run_tx_inv[where P = "keeps_work d"])
      (auto simp: tx_set_explicit_pin_def Let_def same_bytes_def split: option.splits if_splits
        intro!: keeps_work_touch keeps_work_trans[OF keeps_work_touch keeps_work_touch])
qed

interpretation sync_wf: sync_store wf_db
proof
  show "wf_db d'" if "wf_db d" "finish_hydration now i g t c (d, k) = (res, d', k')" for d now i g t c k res d' k'
    using finish_hydration_safe[OF that] by blast
qed (simp_all add: wf_cache_claims upsert_metadata_entries_safe wf_set_explicit_pin apply_deletion_safe
    set_delta_link_def wf_set_state_value)

interpretation sync_work: sync_store "\<lambda>d. wf_db d \<and> keeps_work d0 d" for d0
proof
  show "wf_db d' \<and> keeps_work d0 d'"
    if "wf_db d \<and> keeps_work d0 d" "finish_hydration now i g t c (d, k) = (res, d', k')" for d now i g t c k res d' k'
    using finish_hydration_safe[of d, OF _ that(2)] that(1) by (blast intro: keeps_work_trans)
qed (auto simp: sync_wf.snapshot sync_wf.claim sync_wf.failed sync_wf.accessed sync_wf.import sync_wf.pin
    sync_wf.settle sync_wf.cursor
    intro: keeps_work_trans keeps_work_cache_claims upsert_metadata_entries_safe(2) keeps_work_set_pin
      apply_deletion_safe[THEN conjunct2] keeps_work_set_delta_link)

text \<open>An import changes the rows and the retired caches only.\<close>

definition rest_of :: "db \<Rightarrow> pending_delete list \<times> pending_metadata_operation list \<times> (string \<times> string) list" where
  "rest_of d = (t_deletes d, t_ops d, t_app d)"

lemma rest_of_update: "update_files p f d = Inr d' \<Longrightarrow> rest_of d' = rest_of d"
  using update_files_InrD[of p f d d'] by (simp add: rest_of_def)

lemma rest_of_upsert_entry:
  assumes "upsert_entry k b e d = Inr d'"
  shows "rest_of d' = rest_of d"
  using assms
proof (cases rule: upsert_entry_cases)
  case (2 i d1 d3)
  have "rest_of d1 = rest_of d"
    using 2(6) by (auto simp: retire_obsolete_def and_then_Inr_iff rest_of_def retire_cache_def
        split: option.splits if_splits)
  moreover have "rest_of d3 = rest_of (detach_version i e d1)"
    using 2(7) by (auto simp: write_entry_def Let_def delete_files_def rest_of_def
        dest!: update_files_InrD insert_file_InrD split: if_splits)
  moreover have "rest_of d' = rest_of d3" if "move_descendants move_row old p ds d3 = Inr d'" for old p ds
    by (rule fold_result_inv[where P = "\<lambda>x. rest_of x = rest_of d3", OF _ _ that[unfolded move_descendants_def]])
      (auto split: option.splits dest!: rest_of_update)
  ultimately show ?thesis using 2(8) by (auto simp: detach_version_def touch_files_def rest_of_def)
qed simp

lemma rest_of_import: "rest_of (snd (upsert_metadata_entries k b es d)) = rest_of d"
proof -
  have "rest_of d' = rest_of d" if "fold_result (upsert_entry k b) es d = Inr d'" for d'
    by (rule fold_result_inv[where P = "\<lambda>x. rest_of x = rest_of d", OF _ _ that])
      (auto dest: rest_of_upsert_entry)
  then have "rest_of (snd (run_tx (tx_upsert k b es) d)) = rest_of d"
    by (intro run_tx_inv[where P = "\<lambda>x. rest_of x = rest_of d"]) (auto simp: tx_upsert_def and_then_Inr_iff)
  then show ?thesis
    by (auto simp: upsert_metadata_entries_def then_recompute_def rest_of_def split: prod.splits sum.splits)
qed

lemma app_apply_deletion: "t_app (snd (apply_deletion i d)) = t_app d"
  by (simp add: apply_deletion_def remove_by_remote_id_def run_tx_def then_recompute_def delete_files_def
      delete_ops_def split: option.split)

lemma app_apply_deletions: "t_app (w_db (snd (apply_deletions ids w))) = t_app (w_db w)"
proof (induction ids arbitrary: w)
  case (Cons i ids)
  obtain res d where r: "apply_deletion i (w_db w) = (res, d)" by (cases "apply_deletion i (w_db w)")
  then have "t_app d = t_app (w_db w)" using app_apply_deletion[of i "w_db w"] by simp
  with r Cons show ?case by (cases res) (simp_all add: act_bind_def db_try_def)
qed (simp add: act_return_def)

lemma delta_link_app: "t_app d = t_app e \<Longrightarrow> delta_link d = delta_link e"
  by (simp add: delta_link_def get_state_value_def)

lemma delta_link_set: "delta_link (set_delta_link l d) = Some l"
  by (simp add: delta_link_def set_delta_link_def get_set_state_value)

section \<open>Properties\<close>


text \<open>A cloud that answers and changes nothing else, for the examples.\<close>

definition sample_backend :: "delta_result \<Rightarrow> (request_failure, unit) backend" where
  "sample_backend delta =
     \<lparr>list_all = (\<lambda>w. (Inr (dr_entries delta), w)), list_delta = (\<lambda>_ w. (Inr delta, w)),
      get_metadata = (\<lambda>_ w. (Inr None, w)), get_metadata_by_path = (\<lambda>_ w. (Inr None, w)),
      download_sized_to = (\<lambda>_ sz _ w. (Inr sz, w)),
      upload_file_with_version = (\<lambda>p _ _ _ w. (Inr (new_file ''up'' p 3 8 ''e8''), w)),
      create_folder = (\<lambda>p w. (Inr (new_dir ''dir'' p 8 ''e8''), w)),
      rename_item = (\<lambda>i p w. (Inr (new_file i p 3 8 ''e8''), w)),
      delete_item = (\<lambda>_ w. (Inr (), w)), is_conflict_error = (\<lambda>e. rf_status e = 412),
      failure_info = Some, bad_name = (\<lambda>_. False)\<rparr>"

definition sample_world :: "unit world" where
  "sample_world = \<lparr>w_db = sample_db, w_disk = (\<lambda>_. None), w_mtime = (\<lambda>_. None), w_now = 100, w_cloud = ()\<rparr>"

definition sample_delta :: delta_result where
  "sample_delta = \<lparr>dr_entries = [new_file ''f1'' ''/D/a'' 9 9 ''e9'', new_file ''n1'' ''/D/n'' 5 9 ''e9''],
     dr_deleted_remote_ids = [''f1'', ''f2''], dr_delta_link = Some ''next''\<rparr>"

lemma sample_backend_keeps: "backend_keeps P (sample_backend delta)"
  by (simp add: backend_keeps_def sample_backend_def)


text \<open>The cursor of a delta is stored last: it moves to the one the cloud answered only when
  every deletion and entry has been applied, and stays where it was on any failure, so an
  interrupted synchronisation is repeated from the same cursor.\<close>

lemma delta_cursor_moves_last:
  fixes be :: "('e, 'c) backend"
  assumes list: "list_delta be (delta_link (w_db w)) w = (Inr delta, w1)"
    and run: "sync_delta_metadata be w = (res, w')"
  shows "case res of
      Inl e \<Rightarrow> delta_link (w_db w') = delta_link (w_db w1)
    | Inr n \<Rightarrow> n = length (dr_entries delta) \<and>
        delta_link (w_db w') = (case dr_delta_link delta of None \<Rightarrow> delta_link (w_db w1) | Some l \<Rightarrow> Some l)"
proof -
  obtain r2 :: "'e fault + unit" and w2 where del: "apply_deletions (dr_deleted_remote_ids delta) w1 = (r2, w2)"
    by (meson prod.exhaust)
  have app2: "t_app (w_db w2) = t_app (w_db w1)"
  proof -
    have "t_app (w_db (snd (apply_deletions (dr_deleted_remote_ids delta) w1 :: ('e fault + unit) \<times> 'c world))) = t_app (w_db w1)"
      by (rule app_apply_deletions)
    with del show ?thesis by simp
  qed
  obtain r3 d3 where imp: "upsert_metadata_batch (w_disk w2) (dr_entries delta) (w_db w2) = (r3, d3)"
    by (cases "upsert_metadata_batch (w_disk w2) (dr_entries delta) (w_db w2)")
  have app3: "t_app d3 = t_app (w_db w1)"
    using rest_of_import[of "w_disk w2" True "dr_entries delta" "w_db w2"] imp app2
    by (simp add: upsert_metadata_batch_def rest_of_def)
  show ?thesis
    using run list del imp app2 app3
    by (cases r2; cases r3; cases "dr_delta_link delta")
      (auto simp: sync_delta_metadata_def act_bind_def read_db_def cloud_call_def db_try_def db_do_def
        act_return_def delta_link_set dest: delta_link_app)
qed

lemma delta_cursor_moves_last_witness:
  "delta_link (w_db (snd (sync_delta_metadata (sample_backend sample_delta) sample_world))) = Some ''next''"
proof -
  let ?run = "sync_delta_metadata (sample_backend sample_delta) sample_world"
  have list: "list_delta (sample_backend sample_delta) (delta_link (w_db sample_world)) sample_world =
      (Inr sample_delta, sample_world)" by (simp add: sample_backend_def)
  have "case fst ?run of Inr _ \<Rightarrow> True | Inl _ \<Rightarrow> False" by code_simp
  then obtain n where run: "?run = (Inr n, snd ?run)" by (cases ?run) (auto split: sum.splits)
  from delta_cursor_moves_last[OF list run] show ?thesis by (simp add: sample_delta_def)
qed

end
