(* ===== verification/UploadQueue.thy ===== *)
theory UploadQueue
  imports Prelude "HOL-Library.AList"
begin

text \<open>
  crates/twodrive-fs/src/upload_queue.rs: the coalescing queue between the file system and the
  upload workers.  A command whose key is pending is not sent again; a flag asks the worker that
  holds it to run it once more.  The code's critical sections are functions; the interleavings of
  senders and workers are a step relation over them.  The main facts, for every reachable state:
  no two workers run the same command, and no request is lost.
\<close>

section \<open>The queue\<close>

datatype upload_command = Upload string | Delete string | Shutdown

datatype queue_error = QueueClosed

record upload_queue =
  q_pending :: "(string \<times> bool) list"
  q_channel :: "upload_command list"
  q_open :: bool

definition command_key :: "upload_command \<Rightarrow> string option" where
  "command_key c =
     (case c of Upload i \<Rightarrow> Some (''upload:'' @ i) | Delete i \<Rightarrow> Some (''delete:'' @ i) | Shutdown \<Rightarrow> None)"

text \<open>The channel accepts a command while a receiver lives.\<close>

definition send :: "upload_command \<Rightarrow> upload_queue \<Rightarrow> (queue_error + unit) \<times> upload_queue" where
  "send c q =
     (case command_key c of
        Some k \<Rightarrow>
          if map_of (q_pending q) k \<noteq> None
          then (Inr (), q\<lparr>q_pending := AList.update k True (q_pending q)\<rparr>)
          else if q_open q
          then (Inr (), q\<lparr>q_pending := AList.update k False (q_pending q), q_channel := q_channel q @ [c]\<rparr>)
          else (Inl QueueClosed,
                q\<lparr>q_pending := AList.delete k (AList.update k False (q_pending q))\<rparr>)
      | None \<Rightarrow>
          if q_open q then (Inr (), q\<lparr>q_channel := q_channel q @ [c]\<rparr>) else (Inl QueueClosed, q))"

definition run_start :: "upload_command \<Rightarrow> upload_queue \<Rightarrow> string option \<times> upload_queue" where
  "run_start c q =
     (case command_key c of
        None \<Rightarrow> (None, q)
      | Some k \<Rightarrow> (Some k, q\<lparr>q_pending := AList.update k False (q_pending q)\<rparr>))"

text \<open>Drop of UploadRun: take the flag under the lock, then send again when it was set.\<close>

definition drop_take :: "string \<Rightarrow> upload_queue \<Rightarrow> bool \<times> upload_queue" where
  "drop_take k q =
     (case map_of (q_pending q) k of None \<Rightarrow> False | Some rerun \<Rightarrow> rerun,
      q\<lparr>q_pending := AList.delete k (q_pending q)\<rparr>)"

definition run_drop :: "upload_command \<Rightarrow> string \<Rightarrow> upload_queue \<Rightarrow> upload_queue" where
  "run_drop c k q =
     (case drop_take k q of (rerun, q') \<Rightarrow> if rerun then snd (send c q') else q')"

section \<open>Senders and workers\<close>

text \<open>
  A worker has received a command, runs it, or is between the two halves of the drop.  The set
  wanted records the requests no run has started for yet.
\<close>

record pool =
  p_queue :: upload_queue
  p_received :: "upload_command list"
  p_running :: "upload_command list"
  p_resending :: "upload_command list"
  p_wanted :: "string set"

definition busy :: "pool \<Rightarrow> nat" where
  "busy p = length (p_received p) + length (p_running p) + length (p_resending p)"

definition keys_of :: "upload_command list \<Rightarrow> string list" where
  "keys_of cs = List.map_filter command_key cs"

definition new_pool :: pool where
  "new_pool = \<lparr>p_queue = \<lparr>q_pending = [], q_channel = [], q_open = True\<rparr>, p_received = [],
     p_running = [], p_resending = [], p_wanted = {}\<rparr>"

text \<open>The argument is the number of worker threads.\<close>

inductive worker_step :: "nat \<Rightarrow> pool \<Rightarrow> pool \<Rightarrow> bool" for n :: nat where
  receive: "q_channel (p_queue p) = c # cs \<Longrightarrow> busy p < n \<Longrightarrow> command_key c \<noteq> None \<Longrightarrow>
    worker_step n p (p\<lparr>p_queue := (p_queue p)\<lparr>q_channel := cs\<rparr>, p_received := p_received p @ [c]\<rparr>)"
| leave: "q_channel (p_queue p) = c # cs \<Longrightarrow> busy p < n \<Longrightarrow> command_key c = None \<Longrightarrow>
    worker_step n p (p\<lparr>p_queue := (p_queue p)\<lparr>q_channel := cs\<rparr>\<rparr>)"
| start: "c \<in> set (p_received p) \<Longrightarrow> run_start c (p_queue p) = (Some k, q) \<Longrightarrow>
    worker_step n p (p\<lparr>p_queue := q, p_received := remove1 c (p_received p),
      p_running := c # p_running p, p_wanted := p_wanted p - {k}\<rparr>)"
| finish: "c \<in> set (p_running p) \<Longrightarrow> command_key c = Some k \<Longrightarrow> drop_take k (p_queue p) = (rerun, q) \<Longrightarrow>
    worker_step n p (p\<lparr>p_queue := q, p_running := remove1 c (p_running p),
      p_resending := (if rerun then c # p_resending p else p_resending p)\<rparr>)"
| resend: "c \<in> set (p_resending p) \<Longrightarrow> send c (p_queue p) = (Inr (), q) \<Longrightarrow>
    worker_step n p (p\<lparr>p_queue := q, p_resending := remove1 c (p_resending p)\<rparr>)"

inductive pool_step :: "nat \<Rightarrow> pool \<Rightarrow> pool \<Rightarrow> bool" for n :: nat where
  request: "send c (p_queue p) = (Inr (), q) \<Longrightarrow>
    pool_step n p (p\<lparr>p_queue := q, p_wanted := p_wanted p \<union> set_option (command_key c)\<rparr>)"
| worker: "worker_step n p p' \<Longrightarrow> pool_step n p p'"

inductive reachable_pool :: "nat \<Rightarrow> pool \<Rightarrow> bool" for n :: nat where
  init: "reachable_pool n new_pool"
| step: "reachable_pool n p \<Longrightarrow> pool_step n p p' \<Longrightarrow> reachable_pool n p'"

section \<open>The invariant\<close>

text \<open>
  Over the keys alone: each key is in one place, the pending map knows exactly those keys, and a
  wanted key waits somewhere or its run will be repeated.
\<close>

definition keys_inv ::
    "(string \<rightharpoonup> bool) \<Rightarrow> string list \<Rightarrow> string list \<Rightarrow> string list \<Rightarrow> string list \<Rightarrow> string set \<Rightarrow> bool" where
  "keys_inv pend ch rc rn rs wanted =
     (distinct (ch @ rc @ rn) \<and>
      (\<forall>k. pend k \<noteq> None \<longleftrightarrow> k \<in> set ch \<or> k \<in> set rc \<or> k \<in> set rn) \<and>
      (\<forall>k\<in>wanted. k \<in> set ch \<or> k \<in> set rc \<or> k \<in> set rs \<or> k \<in> set rn \<and> pend k = Some True))"

definition all_keyed :: "upload_command list \<Rightarrow> bool" where
  "all_keyed cs = (\<forall>c\<in>set cs. command_key c \<noteq> None)"

definition pool_inv :: "pool \<Rightarrow> bool" where
  "pool_inv p =
     (q_open (p_queue p) \<and> all_keyed (p_received p) \<and> all_keyed (p_running p) \<and> all_keyed (p_resending p) \<and>
      keys_inv (map_of (q_pending (p_queue p))) (keys_of (q_channel (p_queue p))) (keys_of (p_received p))
        (keys_of (p_running p)) (keys_of (p_resending p)) (p_wanted p))"

lemma keys_flag: "keys_inv pend ch rc rn rs w \<Longrightarrow> pend k \<noteq> None \<Longrightarrow> keys_inv (pend(k \<mapsto> True)) ch rc rn rs (insert k w)"
  by (simp add: keys_inv_def) blast

lemma keys_push: "keys_inv pend ch rc rn rs w \<Longrightarrow> pend k = None \<Longrightarrow>
    keys_inv (pend(k \<mapsto> False)) (ch @ [k]) rc rn rs (insert k w)"
proof -
  assume inv: "keys_inv pend ch rc rn rs w" and k: "pend k = None"
  have dom: "pend j \<noteq> None \<longleftrightarrow> j \<in> set ch \<or> j \<in> set rc \<or> j \<in> set rn" for j
    using inv unfolding keys_inv_def by blast
  have other: "k \<notin> set ch" "k \<notin> set rc" "k \<notin> set rn" using dom[of k] k by simp_all
  show ?thesis unfolding keys_inv_def
  proof (intro conjI)
    show "distinct ((ch @ [k]) @ rc @ rn)" using inv other by (simp add: keys_inv_def)
    show "\<forall>j. (pend(k \<mapsto> False)) j \<noteq> None \<longleftrightarrow> j \<in> set (ch @ [k]) \<or> j \<in> set rc \<or> j \<in> set rn"
    proof
      fix j
      show "(pend(k \<mapsto> False)) j \<noteq> None \<longleftrightarrow> j \<in> set (ch @ [k]) \<or> j \<in> set rc \<or> j \<in> set rn"
        using dom[of j] by (cases "j = k") simp_all
    qed
    show "\<forall>j\<in>insert k w. j \<in> set (ch @ [k]) \<or> j \<in> set rc \<or> j \<in> set rs \<or>
        j \<in> set rn \<and> (pend(k \<mapsto> False)) j = Some True"
      using inv by (auto simp: keys_inv_def)
  qed
qed

lemma keys_receive: "keys_inv pend (k # ch) rc rn rs w \<Longrightarrow> keys_inv pend ch (rc @ [k]) rn rs w"
proof -
  assume inv: "keys_inv pend (k # ch) rc rn rs w"
  have "distinct (ch @ (rc @ [k]) @ rn)" using inv by (auto simp: keys_inv_def)
  moreover have "set (k # ch) \<union> set rc = set ch \<union> set (rc @ [k])" by auto
  then have "j \<in> set (k # ch) \<or> j \<in> set rc \<longleftrightarrow> j \<in> set ch \<or> j \<in> set (rc @ [k])" for j by blast
  ultimately show ?thesis using inv unfolding keys_inv_def by blast
qed

lemma keys_start:
  assumes inv: "keys_inv pend ch rc rn rs w" and k: "k \<in> set rc"
  shows "keys_inv (pend(k \<mapsto> False)) ch (remove1 k rc) (k # rn) rs (w - {k})"
proof -
  from inv have d: "distinct rc" and other: "k \<notin> set ch" "k \<notin> set rn" using k by (auto simp: keys_inv_def)
  have r: "set (remove1 k rc) = set rc - {k}" using d by (rule set_remove1_eq)
  show ?thesis unfolding keys_inv_def
  proof (intro conjI)
    show "distinct (ch @ remove1 k rc @ k # rn)" using inv r other by (auto simp: keys_inv_def)
    show "\<forall>j. (pend(k \<mapsto> False)) j \<noteq> None \<longleftrightarrow> j \<in> set ch \<or> j \<in> set (remove1 k rc) \<or> j \<in> set (k # rn)"
      using inv r by (simp add: keys_inv_def) blast
    show "\<forall>j\<in>w - {k}. j \<in> set ch \<or> j \<in> set (remove1 k rc) \<or> j \<in> set rs \<or>
        j \<in> set (k # rn) \<and> (pend(k \<mapsto> False)) j = Some True"
      using inv r by (simp add: keys_inv_def)
  qed
qed

lemma keys_finish:
  assumes inv: "keys_inv pend ch rc rn rs w" and k: "k \<in> set rn"
  shows "keys_inv (pend(k := None)) ch rc (remove1 k rn) (if pend k = Some True then k # rs else rs) w"
proof -
  from inv have d: "distinct rn" and other: "k \<notin> set ch" "k \<notin> set rc" using k by (auto simp: keys_inv_def)
  have r: "set (remove1 k rn) = set rn - {k}" using d by (rule set_remove1_eq)
  show ?thesis unfolding keys_inv_def
  proof (intro conjI)
    show "distinct (ch @ rc @ remove1 k rn)" using inv r by (auto simp: keys_inv_def)
    show "\<forall>j. (pend(k := None)) j \<noteq> None \<longleftrightarrow> j \<in> set ch \<or> j \<in> set rc \<or> j \<in> set (remove1 k rn)"
      using inv r other by (simp add: keys_inv_def)
    show "\<forall>j\<in>w. j \<in> set ch \<or> j \<in> set rc \<or> j \<in> set (if pend k = Some True then k # rs else rs) \<or>
        j \<in> set (remove1 k rn) \<and> (pend(k := None)) j = Some True"
      using inv r by (auto simp: keys_inv_def)
  qed
qed

lemma keys_resent: "keys_inv pend ch rc rn rs (insert k w) \<Longrightarrow>
    k \<in> set ch \<or> k \<in> set rc \<or> k \<in> set rn \<and> pend k = Some True \<Longrightarrow> keys_inv pend ch rc rn (remove1 k rs) w"
  unfolding keys_inv_def by (metis in_set_remove1 insertI2)

lemma keys_of_simps [simp]:
  "keys_of [] = []"
  "keys_of (c # cs) = (case command_key c of None \<Rightarrow> keys_of cs | Some k \<Rightarrow> k # keys_of cs)"
  "keys_of (xs @ ys) = keys_of xs @ keys_of ys"
  by (simp_all add: keys_of_def map_filter_def split: option.split)

lemma command_key_inj: "command_key c = Some k \<Longrightarrow> command_key c' = Some k \<Longrightarrow> c = c'"
  by (auto simp: command_key_def split: upload_command.splits)

lemma keys_of_remove1: "c \<in> set cs \<Longrightarrow> command_key c = Some k \<Longrightarrow> keys_of (remove1 c cs) = remove1 k (keys_of cs)"
  by (induction cs) (auto split: option.splits dest: command_key_inj)

lemma in_keys_of: "c \<in> set cs \<Longrightarrow> command_key c = Some k \<Longrightarrow> k \<in> set (keys_of cs)"
  by (induction cs) (auto split: option.splits)

lemma all_keyed_remove1 [simp]: "all_keyed cs \<Longrightarrow> all_keyed (remove1 c cs)"
  unfolding all_keyed_def using set_remove1_subset[of c cs] by blast

lemma map_update [simp]: "map_of (AList.update k v xs) = (map_of xs)(k \<mapsto> v)"
  by (rule update_conv')

lemma map_delete [simp]: "map_of (AList.delete k xs) = (map_of xs)(k := None)"
  by (rule delete_conv')

text \<open>What a successful send does.\<close>

lemma send_cases:
  assumes "send c q = (Inr (), q')" "q_open q"
  obtains (flag) k where "command_key c = Some k" "map_of (q_pending q) k \<noteq> None"
      "q' = q\<lparr>q_pending := AList.update k True (q_pending q)\<rparr>"
  | (push) k where "command_key c = Some k" "map_of (q_pending q) k = None"
      "q' = q\<lparr>q_pending := AList.update k False (q_pending q), q_channel := q_channel q @ [c]\<rparr>"
  | (stop) "command_key c = None" "q' = q\<lparr>q_channel := q_channel q @ [c]\<rparr>"
  using assms by (auto simp: send_def split: option.splits if_splits)

lemma pool_inv_send:
  assumes inv: "pool_inv p" and run: "send c (p_queue p) = (Inr (), q)"
  shows "pool_inv (p\<lparr>p_queue := q, p_wanted := p_wanted p \<union> set_option (command_key c)\<rparr>)"
proof -
  have op: "q_open (p_queue p)" using inv by (simp add: pool_inv_def)
  from run op show ?thesis
  proof (cases rule: send_cases)
    case (flag k)
    with inv show ?thesis by (simp add: pool_inv_def keys_flag)
  next
    case (push k)
    with inv show ?thesis by (simp add: pool_inv_def keys_push)
  next
    case stop
    with inv show ?thesis by (simp add: pool_inv_def)
  qed
qed

lemma pool_inv_resend:
  assumes inv: "pool_inv p" and c: "c \<in> set (p_resending p)" and run: "send c (p_queue p) = (Inr (), q)"
  shows "pool_inv (p\<lparr>p_queue := q, p_resending := remove1 c (p_resending p)\<rparr>)"
proof -
  obtain k where k: "command_key c = Some k" using inv c by (auto simp: pool_inv_def all_keyed_def)
  let ?p = "p\<lparr>p_queue := q, p_wanted := p_wanted p \<union> set_option (command_key c)\<rparr>"
  have ok: "pool_inv ?p" using pool_inv_send[OF inv run] .
  have op: "q_open (p_queue p)" using inv by (simp add: pool_inv_def)
  from run op have "k \<in> set (keys_of (q_channel q)) \<or> k \<in> set (keys_of (p_received p)) \<or>
      k \<in> set (keys_of (p_running p)) \<and> map_of (q_pending q) k = Some True"
  proof (cases rule: send_cases)
    case (flag j)
    with k inv show ?thesis by (auto simp: pool_inv_def keys_inv_def)
  next
    case (push j)
    with k show ?thesis by simp
  qed (use k in simp)
  then show ?thesis
    using ok k c by (simp add: pool_inv_def keys_of_remove1 keys_resent)
qed

lemma pool_inv_worker: "worker_step n p p' \<Longrightarrow> pool_inv p \<Longrightarrow> pool_inv p'"
proof (induction rule: worker_step.induct)
  case (receive p c cs)
  then obtain k where "command_key c = Some k" by blast
  with receive show ?case by (simp add: pool_inv_def all_keyed_def keys_receive)
next
  case (leave p c cs)
  then show ?case by (simp add: pool_inv_def)
next
  case (start c p k q)
  then have k: "command_key c = Some k" "q = (p_queue p)\<lparr>q_pending := AList.update k False (q_pending (p_queue p))\<rparr>"
    by (auto simp: run_start_def split: option.splits)
  with start show ?case
    by (simp add: pool_inv_def keys_of_remove1 in_keys_of keys_start) (simp add: all_keyed_def)
next
  case (finish c p k rerun q)
  let ?pend = "map_of (q_pending (p_queue p))"
  have q: "q = (p_queue p)\<lparr>q_pending := AList.delete k (q_pending (p_queue p))\<rparr>"
    and rerun: "rerun = (?pend k = Some True)"
    using finish.hyps(3) by (auto simp: drop_take_def split: option.splits)
  have "keys_inv (?pend(k := None)) (keys_of (q_channel (p_queue p))) (keys_of (p_received p))
      (remove1 k (keys_of (p_running p)))
      (if ?pend k = Some True then k # keys_of (p_resending p) else keys_of (p_resending p)) (p_wanted p)"
    using finish by (intro keys_finish) (auto simp: pool_inv_def in_keys_of)
  then show ?case
    using finish.hyps(1,2) finish.prems q rerun
    by (auto simp: pool_inv_def keys_of_remove1 all_keyed_def dest: in_set_remove1[THEN iffD1])
next
  case (resend c p q)
  then show ?case by (simp add: pool_inv_resend)
qed

lemma pool_inv_reachable: "reachable_pool n p \<Longrightarrow> pool_inv p"
proof (induction rule: reachable_pool.induct)
  case init
  show ?case by (simp add: new_pool_def pool_inv_def keys_inv_def all_keyed_def)
next
  case (step p p')
  from step.hyps(2) step.IH show ?case
    by (cases rule: pool_step.cases) (auto intro: pool_inv_send pool_inv_worker)
qed

section \<open>Properties\<close>

text \<open>The drop of a run is the two halves the workers interleave.\<close>

lemma run_drop_halves:
  "run_drop c k q = (if fst (drop_take k q) then snd (send c (snd (drop_take k q))) else snd (drop_take k q))"
  by (simp add: run_drop_def case_prod_beta)

text \<open>In every reachable state of senders and workers no two workers run the same command and
  no command is queued twice: each key is in the channel, received, or running, at most once.\<close>

lemma queue_coalesces:
  assumes "reachable_pool n p"
  shows "distinct (keys_of (q_channel (p_queue p)) @ keys_of (p_received p) @ keys_of (p_running p)) \<and>
    (\<forall>k. map_of (q_pending (p_queue p)) k \<noteq> None \<longleftrightarrow>
       k \<in> set (keys_of (q_channel (p_queue p)) @ keys_of (p_received p) @ keys_of (p_running p)))"
  using pool_inv_reachable[OF assms] by (simp add: pool_inv_def keys_inv_def)

definition sample_pool :: pool where
  "sample_pool =
     new_pool\<lparr>p_queue := snd (send (Upload ''a'') (p_queue new_pool)), p_wanted := {''upload:a''}\<rparr>"

lemma sample_pool_reachable: "reachable_pool 1 sample_pool"
proof -
  have "send (Upload ''a'') (p_queue new_pool) = (Inr (), snd (send (Upload ''a'') (p_queue new_pool)))"
    by code_simp
  from reachable_pool.step[OF reachable_pool.init pool_step.request[OF this], of 1]
  show ?thesis by (simp add: sample_pool_def command_key_def) (simp add: new_pool_def)
qed

lemma queue_coalesces_witness: "distinct (keys_of (q_channel (p_queue sample_pool)))"
  using queue_coalesces[OF sample_pool_reachable] by simp

text \<open>C33: no request is lost: a request whose run has not started since it was made is in the
  channel, with a worker that will start it, about to be sent again, or runs with the flag that
  makes its worker send it again.\<close>

theorem no_request_lost:
  assumes "reachable_pool n p" "k \<in> p_wanted p"
  shows "k \<in> set (keys_of (q_channel (p_queue p))) \<or> k \<in> set (keys_of (p_received p)) \<or>
    k \<in> set (keys_of (p_resending p)) \<or>
    k \<in> set (keys_of (p_running p)) \<and> map_of (q_pending (p_queue p)) k = Some True"
  using pool_inv_reachable[OF assms(1)] assms(2) by (simp add: pool_inv_def keys_inv_def)

lemma no_request_lost_witness: "''upload:a'' \<in> set (keys_of (q_channel (p_queue sample_pool)))"
proof -
  have "''upload:a'' \<in> p_wanted sample_pool" "p_received sample_pool = []" "p_resending sample_pool = []"
    "p_running sample_pool = []"
    by (simp_all add: sample_pool_def new_pool_def)
  then show ?thesis using no_request_lost[OF sample_pool_reachable, of "''upload:a''"] by simp
qed

text \<open>While a request is outstanding and there is at least one worker, some worker can move:
  the queue never deadlocks.\<close>

lemma queue_no_deadlock:
  assumes reach: "reachable_pool n p" and want: "p_wanted p \<noteq> {}" and "0 < n"
  shows "\<exists>p'. worker_step n p p'"
proof -
  have inv: "pool_inv p" using pool_inv_reachable[OF reach] .
  show ?thesis
  proof (cases "p_received p")
    case (Cons c cs)
    then obtain k where "command_key c = Some k" using inv by (auto simp: pool_inv_def all_keyed_def)
    then show ?thesis using Cons worker_step.start[where c = c and p = p and k = k and n = n] by (auto simp: run_start_def)
  next
    case received: Nil
    show ?thesis
    proof (cases "p_running p")
      case (Cons c cs)
      then obtain k where "command_key c = Some k" using inv by (auto simp: pool_inv_def all_keyed_def)
      then show ?thesis using Cons worker_step.finish[where c = c and p = p and k = k and n = n] by (auto simp: drop_take_def)
    next
      case running: Nil
      show ?thesis
      proof (cases "p_resending p")
        case (Cons c cs)
        have "q_open (p_queue p)" using inv by (simp add: pool_inv_def)
        then have "fst (send c (p_queue p)) = Inr ()" by (simp add: send_def split: option.split)
        then obtain q where "send c (p_queue p) = (Inr (), q)" by (cases "send c (p_queue p)") simp
        then show ?thesis using Cons worker_step.resend[where c = c and p = p and q = q and n = n] by auto
      next
        case Nil
        then have busy: "busy p < n" using received running assms(3) by (simp add: busy_def)
        obtain k where "k \<in> p_wanted p" using want by blast
        then have "q_channel (p_queue p) \<noteq> []"
          using inv received running Nil by (auto simp: pool_inv_def keys_inv_def)
        then obtain c cs where "q_channel (p_queue p) = c # cs" by (cases "q_channel (p_queue p)") auto
        then show ?thesis
          using busy worker_step.receive[where p = p and c = c and cs = cs and n = n]
            worker_step.leave[where p = p and c = c and cs = cs and n = n] by (cases "command_key c") auto
      qed
    qed
  qed
qed

lemma queue_no_deadlock_witness: "\<exists>p'. worker_step 1 sample_pool p'"
  using queue_no_deadlock[OF sample_pool_reachable] by (simp add: sample_pool_def)

end
