(* ===== verification/Recovery.thy ===== *)
theory Recovery
  imports Hydration UploadQueue
begin

text \<open>
  crates/twodrive-fs/src/recovery.rs, preserve_conflict_copy of conflicts.rs and the body of
  run_upload_worker of upload_queue.rs: replay of the durable work (edited files, tombstones,
  metadata jobs) against the cloud.  Every decision reads the database again, because other
  threads commit while a request runs; a failure leaves the work in the database for a later
  replay.
\<close>

section \<open>Results as values\<close>

text \<open>match action { Ok(..), Err(..) } and let _ = action.\<close>

definition cloud_try :: "('c world \<Rightarrow> ('e + 'a) \<times> 'c world) \<Rightarrow> ('e, 'c, 'e + 'a) act" where
  "cloud_try f w = (case f w of (r, w') \<Rightarrow> (Inr r, w'))"

lemma keeps_cloud_try: "(\<And>w. P w \<Longrightarrow> P (snd (f w))) \<Longrightarrow> act_keeps P (cloud_try f)"
  by (simp add: act_keeps_def cloud_try_def split: prod.split) (metis snd_conv)

section \<open>Files\<close>

text \<open>Path::exists, File::open with a shared lock (which waits), and fs::remove_file of a guard.\<close>

definition path_exists :: "disk \<Rightarrow> string \<Rightarrow> bool" where
  "path_exists k path = (case k path of None \<Rightarrow> False | Some Faulty \<Rightarrow> False | Some _ \<Rightarrow> True)"

definition open_shared :: "string \<Rightarrow> ('e, 'c, bool) act" where
  "open_shared path w =
     (case w_disk w path of
        None \<Rightarrow> (Inr False, w)
      | Some Faulty \<Rightarrow> (Inl IoFault, w)
      | Some (Directory _) \<Rightarrow> (Inr True, w)
      | Some (RegularFile _ a) \<Rightarrow> if a = OpenFails \<or> a = LockFails then (Inl IoFault, w) else (Inr True, w))"

fun remove_files :: "string list \<Rightarrow> ('e, 'c, unit) act" where
  "remove_files [] w = (Inr (), w)"
| "remove_files (p # ps) w =
     (case w_disk w p of
        None \<Rightarrow> remove_files ps w
      | Some n \<Rightarrow>
          if removable n then remove_files ps (w\<lparr>w_disk := (w_disk w)(p := None)\<rparr>)
          else (Inl IoFault, w))"

text \<open>
  The loop that locks every cache file of a tombstone once: a failure, a file that is in use,
  or the locked files.
\<close>

fun claim_caches :: "disk \<Rightarrow> string list \<Rightarrow> string list \<Rightarrow> 'e fault + string list option" where
  "claim_caches k seen [] = Inr (Some [])"
| "claim_caches k seen (p # ps) =
     (if p \<in> set seen then claim_caches k seen ps
      else case open_and_lock (k p) of
          NotFound \<Rightarrow> claim_caches k (p # seen) ps
        | WouldBlock \<Rightarrow> Inr None
        | LockError \<Rightarrow> Inl IoFault
        | LockHeld \<Rightarrow>
            (case claim_caches k (p # seen) ps of
               Inl e \<Rightarrow> Inl e
             | Inr None \<Rightarrow> Inr None
             | Inr (Some held) \<Rightarrow> Inr (Some (p # held))))"

section \<open>Conflict copies\<close>

definition complete_deleted :: "string \<Rightarrow> metadata_entry \<Rightarrow> ('e, 'c, bool) act" where
  "complete_deleted local_id u = at_now (\<lambda>now. db_try (complete_deleted_upload now local_id u))"

definition queue_delete :: "string \<Rightarrow> string \<Rightarrow> ('e, 'c, unit) act" where
  "queue_delete cloud_id path = at_now (\<lambda>now. db_do (queue_remote_delete now cloud_id path))"

definition import_entry :: "metadata_entry \<Rightarrow> ('e, 'c, unit) act" where
  "import_entry e w = db_try (upsert_metadata (w_disk w) e) w"

definition preserve_conflict_copy ::
    "('e, 'c) backend \<Rightarrow> file_record \<Rightarrow> string \<Rightarrow> ('e, 'c, metadata_entry) act" where
  "preserve_conflict_copy be original cache =
     act_bind (read_world (\<lambda>w. conflict_copy_path (w_mtime w cache) original)) (\<lambda>conflict_path.
     act_bind (db_ask (begin_conflict_upload original conflict_path cache)) (\<lambda>begun.
     if \<not> begun then act_fail (Bail ''conflict generation was removed before upload'')
     else
       let oid = m_remote_id (metadata original) in
       act_bind (cloud_call (upload_file_with_version be conflict_path cache None None)) (\<lambda>conflict.
       act_bind (complete_deleted oid conflict) (\<lambda>deleted.
       if deleted then act_return conflict
       else
         case r_cloud_remote_id original of
           None \<Rightarrow> act_fail (Bail ''local-only item cannot have an etag conflict'')
         | Some cid \<Rightarrow>
             act_bind (cloud_call (get_metadata be cid)) (\<lambda>latest_original.
             act_bind (complete_deleted oid conflict) (\<lambda>deleted.
             if deleted then act_return conflict
             else
               case latest_original of
                 None \<Rightarrow>
                   act_bind (at_now (\<lambda>now. db_try (complete_missing_conflict_upload now original conflict cache))) (\<lambda>completed.
                   act_bind (if completed then act_return True else complete_deleted oid conflict) (\<lambda>settled.
                   act_bind (if settled then act_return () else queue_delete (m_remote_id conflict) conflict_path) (\<lambda>_.
                     act_return conflict)))
               | Some latest \<Rightarrow>
                   act_bind (read_db (get_by_remote_id oid)) (\<lambda>current.
                   if current = None then
                     act_bind (queue_delete (m_remote_id conflict) conflict_path) (\<lambda>_. act_return conflict)
                   else
                     act_bind (import_entry conflict) (\<lambda>_.
                     act_bind (at_now (\<lambda>now. db_do (mark_cached now (m_remote_id conflict) cache))) (\<lambda>_.
                     act_bind (db_do (mark_online_only oid)) (\<lambda>_.
                     act_bind (import_entry latest) (\<lambda>_. act_return conflict)))))))))))"


section \<open>Uploads\<close>

text \<open>A local-only file is held back while the cloud object at its path belongs to someone else.\<close>

definition foreign_target :: "file_record \<Rightarrow> metadata_entry \<Rightarrow> db \<Rightarrow> bool" where
  "foreign_target r remote d =
     ((case get_by_cloud_remote_id (m_remote_id remote) d of
         None \<Rightarrow> False
       | Some owner \<Rightarrow> m_remote_id (metadata owner) \<noteq> m_remote_id (metadata r)) \<or>
      list_ex (\<lambda>p. d_cloud_remote_id p = Some (m_remote_id remote)) (pending_deletes d))"

definition target_is_foreign :: "('e, 'c) backend \<Rightarrow> file_record \<Rightarrow> ('e, 'c, bool) act" where
  "target_is_foreign be r =
     (if r_cloud_remote_id r \<noteq> None then act_return False
      else
        act_bind (cloud_call (get_metadata_by_path be (m_path (metadata r)))) (\<lambda>found.
          case found of None \<Rightarrow> act_return False | Some remote \<Rightarrow> read_db (foreign_target r remote)))"

definition finish_releases :: "('e, 'c, unit) act" where
  "finish_releases w =
     (case finish_pending_releases (w_db w, w_disk w) of
        (_, d, k) \<Rightarrow> (Inr (), w\<lparr>w_db := d, w_disk := k\<rparr>))"

definition commit_upload :: "file_record \<Rightarrow> string \<Rightarrow> metadata_entry \<Rightarrow> ('e, 'c, bool) act" where
  "commit_upload r cache uploaded =
     (let i = m_remote_id (metadata r); path = m_path (metadata r) in
      act_bind (complete_deleted i uploaded) (\<lambda>deleted.
      if deleted then act_return True
      else
        act_bind (attempt (at_now (\<lambda>now. db_try (commit_uploaded now i path uploaded cache)))) (\<lambda>committed.
          case committed of
            Inl err \<Rightarrow>
              act_bind (complete_deleted i uploaded) (\<lambda>deleted.
              act_bind (if deleted then act_return () else queue_delete (m_remote_id uploaded) path) (\<lambda>_.
                act_fail err))
          | Inr rec \<Rightarrow>
              act_bind (if r_cloud_remote_id rec \<noteq> Some (m_remote_id uploaded)
                        then queue_delete (m_remote_id uploaded) path else act_return ()) (\<lambda>_.
              act_bind finish_releases (\<lambda>_. act_return True)))))"

definition missing_target :: "('e, 'c) backend \<Rightarrow> file_record \<Rightarrow> 'e \<Rightarrow> ('e, 'c, bool) act" where
  "missing_target be r err =
     (if is_not_found_error be err
      then case r_cloud_remote_id r of
             None \<Rightarrow> act_return False
           | Some cid \<Rightarrow> act_bind (cloud_call (get_metadata be cid)) (\<lambda>found. act_return (found = None))
      else act_return False)"

definition upload_failed :: "('e, 'c) backend \<Rightarrow> file_record \<Rightarrow> string \<Rightarrow> 'e \<Rightarrow> ('e, 'c, bool) act" where
  "upload_failed be r cache err =
     (let i = m_remote_id (metadata r) in
      act_bind (read_db (pending_delete_for_local_id i)) (\<lambda>tomb.
      if tomb \<noteq> None then act_return False
      else
        act_bind (missing_target be r err) (\<lambda>missing.
        if is_conflict_error be err \<or> missing then
          act_bind (db_ask (mark_upload_conflict r)) (\<lambda>marked.
          if \<not> marked then act_return False
          else
            act_bind (read_db (get_by_remote_id i)) (\<lambda>current.
            act_bind (attempt (preserve_conflict_copy be (case current of None \<Rightarrow> r | Some c \<Rightarrow> c) cache)) (\<lambda>copied.
              act_return (case copied of Inl _ \<Rightarrow> False | Inr _ \<Rightarrow> True))))
        else
          act_bind (db_do (mark_state i (if bad_name be err then ErrorState else Dirty))) (\<lambda>_.
            act_return False))))"

definition recover_dirty_record :: "('e, 'c) backend \<Rightarrow> file_record \<Rightarrow> ('e, 'c, bool) act" where
  "recover_dirty_record be r =
     (let i = m_remote_id (metadata r); path = m_path (metadata r) in
      act_bind (read_db (get_by_remote_id i)) (\<lambda>current.
      if current = None then act_return False
      else act_bind (read_db (is_pending_delete i path)) (\<lambda>deleting.
      if deleting then act_return False
      else act_bind (read_db (has_pending_metadata_at_or_above path)) (\<lambda>moving.
      if moving then act_return False
      else act_bind (read_world (\<lambda>w. case r_cache_path r of None \<Rightarrow> None
                       | Some c \<Rightarrow> if path_exists (w_disk w) c then Some c else None)) (\<lambda>cached.
      case cached of
        None \<Rightarrow> act_return False
      | Some cache \<Rightarrow>
          act_bind (open_shared cache) (\<lambda>opened.
          if \<not> opened then act_return False
          else if r_state r = Conflict then
            act_bind (attempt (preserve_conflict_copy be r cache)) (\<lambda>copied.
              act_return (case copied of Inl _ \<Rightarrow> False | Inr _ \<Rightarrow> True))
          else act_bind (target_is_foreign be r) (\<lambda>foreign.
          if foreign then act_return False
          else act_bind (db_ask (begin_upload r)) (\<lambda>begun.
          if \<not> begun then act_return False
          else act_bind (cloud_try (upload_file_with_version be path cache
                           (record_upload_remote_id r) (record_upload_etag r))) (\<lambda>sent.
            case sent of
              Inr uploaded \<Rightarrow> commit_upload r cache uploaded
            | Inl err \<Rightarrow> upload_failed be r cache err)))))))))"

text \<open>
  recover_dirty_uploads, with its single worker: every record is tried, and the first failure is
  answered at the end.
\<close>

fun upload_each ::
    "('e, 'c) backend \<Rightarrow> file_record list \<Rightarrow> nat \<Rightarrow> 'e fault option \<Rightarrow> ('e, 'c, nat) act" where
  "upload_each be [] n first_error w =
     (case first_error of None \<Rightarrow> (Inr n, w) | Some e \<Rightarrow> (Inl e, w))"
| "upload_each be (r # rs) n first_error w =
     (case recover_dirty_record be r w of
        (Inr sent, w') \<Rightarrow> upload_each be rs (if sent then Suc n else n) first_error w'
      | (Inl e, w') \<Rightarrow>
          upload_each be rs n (case first_error of None \<Rightarrow> Some e | Some _ \<Rightarrow> first_error) w')"

definition recover_dirty_uploads :: "('e, 'c) backend \<Rightarrow> ('e, 'c, nat) act" where
  "recover_dirty_uploads be w =
     upload_each be
       (filter (\<lambda>r. r_state r \<in> {Dirty, Uploading, Conflict} \<and>
            (case r_cache_path r of None \<Rightarrow> False | Some c \<Rightarrow> path_exists (w_disk w) c))
          (all_records (w_db w))) 0 None w"


section \<open>Deletions\<close>

definition delete_by_id :: "string \<Rightarrow> db \<Rightarrow> pending_delete option" where
  "delete_by_id i d = List.find (\<lambda>p. d_remote_id p = i) (pending_deletes d)"

text \<open>
  An unbound interrupted upload is finished first, to learn the identity of the object it may
  have left in the cloud; the tombstone read back is the one that goes on.
\<close>

definition replay_upload :: "('e, 'c) backend \<Rightarrow> pending_delete \<Rightarrow> ('e, 'c, pending_delete) act" where
  "replay_upload be p =
     (case d_upload_path p of
        None \<Rightarrow> act_return p
      | Some path \<Rightarrow>
          if d_upload_target_id p \<noteq> None then act_return p
          else
            case d_upload_cache_path p of
              None \<Rightarrow> act_fail (Bail ''interrupted deleted upload has no retained cache'')
            | Some source \<Rightarrow>
                act_bind (cloud_call (upload_file_with_version be path source None None)) (\<lambda>uploaded.
                case d_local_id p of
                  None \<Rightarrow> act_fail (Bail ''interrupted deleted upload has no local identity'')
                | Some local_id \<Rightarrow>
                    act_bind (complete_deleted local_id uploaded) (\<lambda>_.
                    act_bind (read_db (pending_delete_for_local_id local_id)) (\<lambda>found.
                      case found of
                        None \<Rightarrow> act_fail (Bail ''deleted upload tombstone disappeared'')
                      | Some q \<Rightarrow> act_return q))))"

definition option_list :: "'a option \<Rightarrow> 'a list" where
  "option_list x = (case x of None \<Rightarrow> [] | Some a \<Rightarrow> [a])"

definition settle_delete :: "('e, 'c) backend \<Rightarrow> pending_delete \<Rightarrow> ('e, 'c, bool) act" where
  "settle_delete be p =
     act_bind (\<lambda>w. (claim_caches (w_disk w) []
         (option_list (d_cache_path p) @ option_list (d_upload_cache_path p)), w)) (\<lambda>claimed.
     case claimed of
       None \<Rightarrow> act_return False
     | Some held \<Rightarrow>
         act_bind (replay_upload be p) (\<lambda>q.
         act_bind (case d_cloud_remote_id q of
             None \<Rightarrow> act_return () | Some cid \<Rightarrow> cloud_call (delete_item be cid)) (\<lambda>_.
         act_bind (remove_files held) (\<lambda>_.
         act_bind (db_do (remove_pending_delete (d_remote_id q))) (\<lambda>_.
           act_return True)))))"

definition classify_failure :: "request_failure \<Rightarrow> delete_failure_kind" where
  "classify_failure f =
     (let status = rf_status f in
      if status = 401 then Authentication
      else if status = 403 \<and> (rf_code f = ''insufficient_claims'' \<or> rf_inner_code f = ''insufficient_claims'' \<or>
                rf_operation f \<in> {TokenRefresh, TokenExchange}) then Authentication
      else if status = 403 then Permission
      else if status = 429 then Throttled
      else if 500 \<le> status \<and> status \<le> 599 then Transient
      else Rejected)"

definition defer_delete :: "('e, 'c) backend \<Rightarrow> string \<Rightarrow> 'e fault \<Rightarrow> ('e, 'c, unit) act" where
  "defer_delete be i err =
     (case (case err of CloudFault e \<Rightarrow> failure_info be e | _ \<Rightarrow> None) of
        Some f \<Rightarrow>
          at_now (\<lambda>now. db_do (defer_pending_delete_at i (Some (rf_status f)) (classify_failure f)
            (of_nat (rf_retry_after f div 1000)) now))
      | None \<Rightarrow> at_now (\<lambda>now. db_do (defer_pending_delete_at i None Transient 0 now)))"

definition recover_pending_delete_id :: "('e, 'c) backend \<Rightarrow> string \<Rightarrow> ('e, 'c, bool) act" where
  "recover_pending_delete_id be i =
     act_bind (read_db (delete_by_id i)) (\<lambda>found.
     case found of
       None \<Rightarrow> act_return False
     | Some p \<Rightarrow>
         act_bind (read_world (\<lambda>w. retry_due p (w_now w))) (\<lambda>due.
         if \<not> due then act_return False
         else act_bind (read_db (\<lambda>d. case d_cloud_remote_id p of
                None \<Rightarrow> False | Some cid \<Rightarrow> get_by_cloud_remote_id cid d \<noteq> None)) (\<lambda>owned.
         if owned then
           if d_local_id p = None
           then act_bind (db_do (remove_pending_delete (d_remote_id p))) (\<lambda>_. act_return True)
           else act_return False
         else
           act_bind (attempt (settle_delete be p)) (\<lambda>result.
             case result of
               Inr b \<Rightarrow> act_return b
             | Inl err \<Rightarrow> act_bind (defer_delete be i err) (\<lambda>_. act_fail err)))))"

definition recover_pending_deletes :: "('e, 'c) backend \<Rightarrow> ('e, 'c, nat) act" where
  "recover_pending_deletes be w =
     each_counted (\<lambda>p. recover_pending_delete_id be (d_remote_id p)) id (pending_deletes (w_db w)) 0 w"

section \<open>Metadata jobs\<close>

definition create_or_find :: "('e, 'c) backend \<Rightarrow> string \<Rightarrow> ('e, 'c, metadata_entry) act" where
  "create_or_find be path =
     act_bind (cloud_try (create_folder be path)) (\<lambda>created.
       case created of
         Inr entry \<Rightarrow> act_return entry
       | Inl create_err \<Rightarrow>
           act_bind (cloud_call (get_metadata_by_path be path)) (\<lambda>found.
             case found of
               None \<Rightarrow> act_fail (CloudFault create_err)
             | Some entry \<Rightarrow> if m_is_dir entry then act_return entry else act_fail (CloudFault create_err)))"

definition recover_pending_metadata_record ::
    "('e, 'c) backend \<Rightarrow> pending_metadata_operation \<Rightarrow> ('e, 'c, bool) act" where
  "recover_pending_metadata_record be op =
     act_bind (read_db (get_by_remote_id (o_local_id op))) (\<lambda>found.
     case found of
       None \<Rightarrow> act_return False
     | Some r \<Rightarrow>
         act_bind (read_db (has_pending_metadata_at_or_above (m_parent_path (metadata r)))) (\<lambda>blocked.
         if m_path (metadata r) \<noteq> o_path op \<or> blocked then act_return False
         else
           act_bind (case o_kind op of
               CreateFolder \<Rightarrow> create_or_find be (o_path op)
             | Move \<Rightarrow>
                 (case r_cloud_remote_id r of
                    None \<Rightarrow> act_fail (Bail ''move has no cloud identity'')
                  | Some cid \<Rightarrow> cloud_call (rename_item be cid (o_path op)))) (\<lambda>entry.
             db_try (complete_metadata_operation (o_local_id op) (o_path op) entry))))"

definition recover_pending_metadata_operations :: "('e, 'c) backend \<Rightarrow> ('e, 'c, nat) act" where
  "recover_pending_metadata_operations be w =
     each_counted (recover_pending_metadata_record be) id (pending_metadata_operations (w_db w)) 0 w"

section \<open>Startup\<close>

text \<open>fs::metadata of the cache file of an interrupted write; a missing cache path skips the record.\<close>

definition interrupted_len :: "disk \<Rightarrow> file_record \<Rightarrow> u64 option" where
  "interrupted_len k r =
     (if r_state r \<noteq> Writing then None
      else case r_cache_path r of
          None \<Rightarrow> None
        | Some path \<Rightarrow>
            (case k path of None \<Rightarrow> None | Some Faulty \<Rightarrow> None | Some n \<Rightarrow> Some (node_len n)))"

fun mark_interrupted :: "int \<Rightarrow> disk \<Rightarrow> file_record list \<Rightarrow> db \<Rightarrow> (db_error + unit) \<times> db" where
  "mark_interrupted now k [] d = (Inr (), d)"
| "mark_interrupted now k (r # rs) d =
     (case interrupted_len k r of
        None \<Rightarrow> mark_interrupted now k rs d
      | Some len \<Rightarrow>
          (case mark_dirty_with_size now (m_remote_id (metadata r)) len d of
             (Inl e, d') \<Rightarrow> (Inl e, d')
           | (Inr _, d') \<Rightarrow> mark_interrupted now k rs d'))"

definition recover_interrupted_writes :: "int \<Rightarrow> disk \<Rightarrow> db \<Rightarrow> (db_error + unit) \<times> db" where
  "recover_interrupted_writes now k d = mark_interrupted now k (all_records d) d"

text \<open>The requests that startup makes: due tombstones, metadata jobs, then unsent or missing files.\<close>

definition wants_transfer :: "disk \<Rightarrow> file_record \<Rightarrow> bool" where
  "wants_transfer k r =
     (r_state r \<in> {Dirty, Uploading, Conflict} \<or>
      (\<not> m_is_dir (metadata r) \<and> effective_pinned r \<and> \<not> has_existing_cache k r))"

definition recovery_commands :: "int \<Rightarrow> disk \<Rightarrow> db \<Rightarrow> upload_command list" where
  "recovery_commands now k d =
     (let jobs = map o_local_id (pending_metadata_operations d) in
      map (\<lambda>p. Delete (d_remote_id p)) (filter (\<lambda>p. retry_due p now) (pending_deletes d)) @
      map Upload jobs @
      map (\<lambda>r. Upload (m_remote_id (metadata r)))
        (filter (\<lambda>r. wants_transfer k r \<and> m_remote_id (metadata r) \<notin> set jobs) (all_records d)))"

fun send_all :: "upload_command list \<Rightarrow> upload_queue \<Rightarrow> (queue_error + unit) \<times> upload_queue" where
  "send_all [] q = (Inr (), q)"
| "send_all (c # cs) q =
     (case send c q of (Inl e, q') \<Rightarrow> (Inl e, q') | (Inr _, q') \<Rightarrow> send_all cs q')"

definition enqueue_recovery ::
    "int \<Rightarrow> disk \<Rightarrow> db \<Rightarrow> upload_queue \<Rightarrow> (queue_error + unit) \<times> upload_queue" where
  "enqueue_recovery now k d q = send_all (recovery_commands now k d) q"

section \<open>One command of a worker\<close>

text \<open>
  The body of the loop of run_upload_worker: faults are logged and the worker goes on.  The
  answer is the command it sends to the queue at the end, if any.
\<close>

definition ignore_fault :: "('e, 'c, 'a) act \<Rightarrow> ('e, 'c, unit) act" where
  "ignore_fault m = act_bind (attempt m) (\<lambda>_. act_return ())"

definition settle_job :: "('e, 'c) backend \<Rightarrow> string \<Rightarrow> ('e, 'c, bool) act" where
  "settle_job be i =
     act_bind (read_db (pending_metadata_operation i)) (\<lambda>found.
       case found of
         None \<Rightarrow> act_return True
       | Some op \<Rightarrow>
           act_bind (attempt (recover_pending_metadata_record be op)) (\<lambda>r.
             act_return (case r of Inl _ \<Rightarrow> False | Inr _ \<Rightarrow> True)))"

definition wants_hydration :: "disk \<Rightarrow> file_record option \<Rightarrow> bool" where
  "wants_hydration k found =
     (case found of
        None \<Rightarrow> False
      | Some r \<Rightarrow>
          \<not> m_is_dir (metadata r) \<and> effective_pinned r \<and>
          \<not> (case r_cache_path r of None \<Rightarrow> False | Some c \<Rightarrow> path_exists k c))"

definition run_command ::
    "('e, 'c) backend \<Rightarrow> string \<Rightarrow> upload_command \<Rightarrow> ('e, 'c, upload_command option) act" where
  "run_command be cache_dir command =
     (case command of
        Shutdown \<Rightarrow> act_return None
      | Delete i \<Rightarrow> act_bind (ignore_fault (recover_pending_delete_id be i)) (\<lambda>_. act_return None)
      | Upload i \<Rightarrow>
          act_bind (settle_job be i) (\<lambda>settled.
          if \<not> settled then act_return None
          else
            act_bind (read_db (get_by_remote_id i)) (\<lambda>found.
            act_bind (read_world (\<lambda>w. wants_hydration (w_disk w) found)) (\<lambda>hydrate.
            act_bind (case found of
                None \<Rightarrow> act_return ()
              | Some r \<Rightarrow> if hydrate then ignore_fault (hydrate_record be cache_dir r) else act_return ()) (\<lambda>_.
            act_bind (read_db (get_by_remote_id i)) (\<lambda>current.
            case current of
              None \<Rightarrow> act_return None
            | Some r \<Rightarrow>
                if r_state r \<notin> {Dirty, Uploading, Conflict} then act_return None
                else
                  act_bind (ignore_fault (recover_dirty_record be r)) (\<lambda>_.
                  act_bind (read_db (pending_delete_for_local_id i)) (\<lambda>tomb.
                    act_return (map_option (\<lambda>p. Delete (d_remote_id p)) tomb)))))))))"


section \<open>The database stays well formed\<close>

text \<open>The further operations recovery uses, on top of those of downloads.\<close>

lemma keeps_kind [keeps_intros]:
  "act_keeps P m \<Longrightarrow> act_keeps P n \<Longrightarrow> act_keeps P (case k of CreateFolder \<Rightarrow> m | Move \<Rightarrow> n)"
  by (cases k) simp_all

lemma keeps_command_case [keeps_intros]:
  "(\<And>i. act_keeps P (m i)) \<Longrightarrow> (\<And>i. act_keeps P (n i)) \<Longrightarrow> act_keeps P l \<Longrightarrow>
   act_keeps P (case c of Upload i \<Rightarrow> m i | Delete i \<Rightarrow> n i | Shutdown \<Rightarrow> l)"
  by (cases c) simp_all

locale work_store = sync_store +
  assumes release: "I d \<Longrightarrow> finish_pending_releases (d, k) = (res, d', k') \<Longrightarrow> I d'"
    and begin_copy: "I d \<Longrightarrow> I (snd (begin_conflict_upload rec p c d))"
    and begin_send: "I d \<Longrightarrow> I (snd (begin_upload rec d))"
    and acknowledge: "I d \<Longrightarrow> I (snd (commit_uploaded now i p u c d))"
    and acknowledge_deleted: "I d \<Longrightarrow> I (snd (complete_deleted_upload now i u d))"
    and acknowledge_copy: "I d \<Longrightarrow> I (snd (complete_missing_conflict_upload now rec u c d))"
    and acknowledge_job: "I d \<Longrightarrow> I (snd (complete_metadata_operation i p u d))"
    and conflicted: "I d \<Longrightarrow> I (snd (mark_upload_conflict rec d))"
    and attach: "I d \<Longrightarrow> I (mark_cached now i c d)"
    and forget: "I d \<Longrightarrow> I (mark_online_only i d)"
    and mark: "I d \<Longrightarrow> I (mark_state i st d)"
    and obsolete: "I d \<Longrightarrow> I (queue_remote_delete now c p d)"
    and settled: "I d \<Longrightarrow> I (remove_pending_delete i d)"
    and deferred: "I d \<Longrightarrow> I (defer_pending_delete_at i status kind after now d)"
begin

lemma keeps_try_cloud [keeps_intros]:
  assumes "backend_keeps (db_prop I) be"
  shows "act_keeps (db_prop I) (cloud_try (upload_file_with_version be p c io e))"
    "act_keeps (db_prop I) (cloud_try (create_folder be p))"
  using assms by (auto simp: backend_keeps_def intro!: keeps_cloud_try)

lemma keeps_complete_deleted [keeps_intros]: "act_keeps (db_prop I) (complete_deleted i u)"
  unfolding complete_deleted_def by (intro keeps_intros acknowledge_deleted)

lemma keeps_queue_delete [keeps_intros]: "act_keeps (db_prop I) (queue_delete c p)"
  unfolding queue_delete_def by (intro keeps_intros obsolete)

lemma keeps_defer [keeps_intros]: "act_keeps (db_prop I) (defer_delete be i err)"
  unfolding defer_delete_def by (intro keeps_intros deferred)

lemma keeps_import_entry [keeps_intros]: "act_keeps (db_prop I) (import_entry e)"
  unfolding import_entry_def[abs_def] by (rule keeps_import)

lemma keeps_open [keeps_intros]: "act_keeps (db_prop I) (open_shared p)"
  by (auto simp: act_keeps_def open_shared_def split: option.split node.split)

lemma keeps_remove [keeps_intros]: "act_keeps (db_prop I) (remove_files ps)"
  unfolding act_keeps_def
proof (intro allI impI)
  show "db_prop I w \<Longrightarrow> db_prop I (snd (remove_files ps w))" for w
    by (induction ps arbitrary: w) (auto split: option.split)
qed

lemma keeps_releases [keeps_intros]: "act_keeps (db_prop I) finish_releases"
  by (auto simp: act_keeps_def finish_releases_def split: prod.split dest: release)

lemma keeps_preserve [keeps_intros]:
  "backend_keeps (db_prop I) be \<Longrightarrow> act_keeps (db_prop I) (preserve_conflict_copy be r c)"
  unfolding preserve_conflict_copy_def Let_def
  by (intro keeps_intros begin_copy acknowledge_copy attach forget)

lemma keeps_foreign [keeps_intros]:
  "backend_keeps (db_prop I) be \<Longrightarrow> act_keeps (db_prop I) (target_is_foreign be r)"
  unfolding target_is_foreign_def by (intro keeps_intros)

lemma keeps_commit [keeps_intros]: "act_keeps (db_prop I) (commit_upload r c u)"
  unfolding commit_upload_def Let_def by (intro keeps_intros acknowledge)

lemma keeps_failed [keeps_intros]:
  "backend_keeps (db_prop I) be \<Longrightarrow> act_keeps (db_prop I) (upload_failed be r c err)"
  unfolding upload_failed_def missing_target_def Let_def by (intro keeps_intros conflicted mark)

lemma keeps_dirty_record [keeps_intros]:
  "backend_keeps (db_prop I) be \<Longrightarrow> act_keeps (db_prop I) (recover_dirty_record be r)"
  unfolding recover_dirty_record_def Let_def by (intro keeps_intros begin_send)

lemma keeps_dirty_uploads:
  assumes "backend_keeps (db_prop I) be"
  shows "act_keeps (db_prop I) (recover_dirty_uploads be)"
proof -
  have "db_prop I w \<Longrightarrow> db_prop I (snd (upload_each be rs n e w))" for rs n e w
    by (induction rs arbitrary: n e w)
      (auto split: option.split prod.split sum.split dest: act_keepsD[OF keeps_dirty_record[OF assms]])
  then show ?thesis by (simp add: act_keeps_def recover_dirty_uploads_def)
qed

lemma keeps_replay [keeps_intros]:
  "backend_keeps (db_prop I) be \<Longrightarrow> act_keeps (db_prop I) (replay_upload be p)"
  unfolding replay_upload_def by (intro keeps_intros)

lemma keeps_claim [keeps_intros]: "act_keeps (db_prop I) (\<lambda>w. (f w, w))"
  by (simp add: act_keeps_def)

lemma keeps_settle [keeps_intros]:
  "backend_keeps (db_prop I) be \<Longrightarrow> act_keeps (db_prop I) (settle_delete be p)"
  unfolding settle_delete_def by (intro keeps_intros settled)

lemma keeps_delete_id [keeps_intros]:
  "backend_keeps (db_prop I) be \<Longrightarrow> act_keeps (db_prop I) (recover_pending_delete_id be i)"
  unfolding recover_pending_delete_id_def by (intro keeps_intros settled)

lemma keeps_deletes:
  "backend_keeps (db_prop I) be \<Longrightarrow> act_keeps (db_prop I) (recover_pending_deletes be)"
  unfolding recover_pending_deletes_def[abs_def] by (rule keeps_world) (intro keeps_intros)

lemma keeps_job [keeps_intros]:
  "backend_keeps (db_prop I) be \<Longrightarrow> act_keeps (db_prop I) (recover_pending_metadata_record be op)"
  unfolding recover_pending_metadata_record_def create_or_find_def
  by (intro keeps_intros acknowledge_job)

lemma keeps_jobs:
  "backend_keeps (db_prop I) be \<Longrightarrow> act_keeps (db_prop I) (recover_pending_metadata_operations be)"
  unfolding recover_pending_metadata_operations_def[abs_def] by (rule keeps_world) (intro keeps_intros)

lemma keeps_ignore [keeps_intros]: "act_keeps (db_prop I) m \<Longrightarrow> act_keeps (db_prop I) (ignore_fault m)"
  unfolding ignore_fault_def by (intro keeps_intros)

lemma keeps_command:
  "backend_keeps (db_prop I) be \<Longrightarrow> act_keeps (db_prop I) (run_command be dir c)"
  unfolding run_command_def settle_job_def
  by (intro keeps_intros)

end

interpretation work_wf: work_store wf_db
proof unfold_locales
  show "wf_db d'" if "wf_db d" "finish_pending_releases (d, k) = (res, d', k')" for d k res d' k'
  proof -
    have "d' = fst (snd (finish_pending_releases (d, k)))" by (simp add: that(2))
    then show ?thesis
      using that(1) by (simp add: finish_pending_releases_def reclaim_pending.all_wf)
  qed
qed (simp_all add: wf_begin_conflict_upload wf_cache_claims wf_commit_uploaded wf_complete_deleted_upload
    wf_complete_missing wf_complete_metadata_operation wf_queue_remote_delete wf_remove_pending_delete wf_defer)


section \<open>Failures and tombstones\<close>

text \<open>An action keeps a property when it fails.\<close>

definition fail_keeps :: "('c world \<Rightarrow> bool) \<Rightarrow> ('e, 'c, 'a) act \<Rightarrow> bool" where
  "fail_keeps P m = (\<forall>w. P w \<longrightarrow> (case m w of (Inl e, w') \<Rightarrow> P w' | (Inr a, w') \<Rightarrow> True))"

lemma fail_keeps_bind:
  assumes "act_keeps P m" and "\<And>a. fail_keeps P (k a)"
  shows "fail_keeps P (act_bind m k)"
  unfolding fail_keeps_def
proof (intro allI impI)
  fix w
  assume "P w"
  obtain r w1 where m: "m w = (r, w1)" by (cases "m w")
  have "P w1" using assms(1) \<open>P w\<close> m by (rule act_keepsD)
  with assms(2) show "case act_bind m k w of (Inl e, w') \<Rightarrow> P w' | (Inr a, w') \<Rightarrow> True"
    by (cases r) (simp_all add: act_bind_def m fail_keeps_def)
qed

lemma fail_keeps_finish: "fail_keeps P (act_bind (db_do f) (\<lambda>_. act_return a))"
  by (simp add: fail_keeps_def act_bind_def db_do_def act_return_def)

lemma fail_keeps_option: "act_keeps P m \<Longrightarrow> (\<And>a. fail_keeps P (k a)) \<Longrightarrow>
    fail_keeps P (case x of None \<Rightarrow> m | Some a \<Rightarrow> k a)"
  by (cases x) (auto simp: fail_keeps_def dest: act_keepsD split: prod.split sum.split)

text \<open>The tombstone waits: it is in the table, and the clock is in range.\<close>

definition tomb_waits :: "string \<Rightarrow> 'c world \<Rightarrow> bool" where
  "tomb_waits i w =
     (wf_db (w_db w) \<and> i \<in> d_remote_id ` set (t_deletes (w_db w)) \<and> 0 \<le> w_now w \<and> w_now w < i64_max)"

lemma keys_sql_update: "(\<And>r. key (f r) = key r) \<Longrightarrow> key ` set (sql_update p f rows) = key ` set rows"
  using map_key_sql_update[of p key f rows] by (simp flip: set_map)

lemma keys_sql_upsert:
  assumes "\<And>r. key (m r row) = key r"
  shows "key ` set rows \<subseteq> key ` set (sql_upsert key m row rows)"
proof
  fix k
  assume "k \<in> key ` set rows"
  then obtain r where r: "r \<in> set rows" "k = key r" by blast
  have "key r = key row \<Longrightarrow> key row \<in> key ` set rows" using r(1) by (metis imageI)
  with r have "(if key r = key row then m r row else r) \<in> set (sql_upsert key m row rows)"
    "key (if key r = key row then m r row else r) = k"
    using assms by (auto simp: set_sql_upsert)
  then show "k \<in> key ` set (sql_upsert key m row rows)" by blast
qed
lemma delete_ids_complete:
  "d_remote_id ` set (t_deletes d) \<subseteq> d_remote_id ` set (t_deletes (snd (complete_deleted_upload now i u d)))"
  using keys_sql_upsert[of d_remote_id "\<lambda>old new. old" "plain_delete (m_remote_id u) (Some (m_remote_id u)) (m_path u) now"
      "t_deletes d"]
  by (simp add: complete_deleted_upload_def run_tx_def tx_complete_deleted_def Let_def keys_sql_update
      upsert_delete_def split: option.split)

lemma tomb_waits_keeps:
  "act_keeps (tomb_waits i) (complete_deleted j u)" "act_keeps (tomb_waits i) (remove_files ps)"
  "act_keeps (tomb_waits i) (\<lambda>w. (f w, w))"
proof -
  show "act_keeps (tomb_waits i) (complete_deleted j u)"
    unfolding act_keeps_def complete_deleted_def at_now_def db_try_def tomb_waits_def
    using delete_ids_complete wf_complete_deleted_upload
    by (auto split: prod.split sum.split) (metis snd_conv subsetD, metis snd_conv subsetD imageI)+
  show "act_keeps (tomb_waits i) (remove_files ps)"
    unfolding act_keeps_def
  proof (intro allI impI)
    show "tomb_waits i w \<Longrightarrow> tomb_waits i (snd (remove_files ps w))" for w
      by (induction ps arbitrary: w) (auto simp: tomb_waits_def split: option.split)
  qed
qed (simp add: act_keeps_def)

lemma settle_failure_keeps:
  assumes "backend_keeps (tomb_waits i) be"
  shows "fail_keeps (tomb_waits i) (settle_delete be p)"
  unfolding settle_delete_def replay_upload_def
  by (rule fail_keeps_bind fail_keeps_finish fail_keeps_option keeps_intros tomb_waits_keeps
      keeps_backend[OF assms] allI)+

lemma defer_delete_run:
  "defer_delete be i err w = (res, w') \<Longrightarrow> res = Inr () \<and>
   (\<exists>st kind after. w' = w\<lparr>w_db := defer_pending_delete_at i st kind after (w_now w) (w_db w)\<rparr>)"
  by (auto simp: defer_delete_def at_now_def db_do_def split: option.splits)

text \<open>C4: a deletion the cloud refuses is never lost: when the replay fails, at whatever step, the
  tombstone is still queued and its next attempt is not due yet, as long as the other threads do
  not settle it themselves.\<close>

theorem failed_delete_stays_queued:
  assumes w: "tomb_waits i w" and be: "backend_keeps (tomb_waits i) be"
    and run: "recover_pending_delete_id be i w = (Inl e, w')"
  shows "\<exists>q\<in>set (t_deletes (w_db w')). d_remote_id q = i \<and> \<not> retry_due q (w_now w')"
proof -
  from run obtain p w1 where settle: "settle_delete be p w = (Inl e, w1)"
    and w': "defer_delete be i e w1 = (Inr (), w')"
    by (auto simp: recover_pending_delete_id_def act_bind_def read_db_def read_world_def act_return_def
        attempt_def act_fail_def db_do_def split: option.splits if_splits prod.splits sum.splits
        dest: defer_delete_run)
  have w1: "tomb_waits i w1"
    using settle_failure_keeps[OF be, of p] w settle unfolding fail_keeps_def by fastforce
  then obtain q where q: "q \<in> set (t_deletes (w_db w1))" "d_remote_id q = i"
    by (auto simp: tomb_waits_def)
  obtain st kind after where "w' = w1\<lparr>w_db := defer_pending_delete_at i st kind after (w_now w1) (w_db w1)\<rparr>"
    using defer_delete_run[OF w'] by blast
  moreover obtain x where x: "x \<in> set (t_deletes (defer_pending_delete_at i st kind after (w_now w1) (w_db w1)))"
    "\<not> retry_due x (w_now w1)" "q = x\<lparr>d_attempt_count := d_attempt_count q, d_next_retry_unix := d_next_retry_unix q,
          d_last_status := d_last_status q, d_failure_kind := d_failure_kind q\<rparr>"
    using defer_effect[of "w_db w1" q "w_now w1" st kind after] q w1 by (auto simp: tomb_waits_def)
  moreover have "d_remote_id x = i" using arg_cong[OF x(3), of d_remote_id] q(2) by simp
  ultimately show ?thesis by auto
qed

text \<open>A cloud that refuses every deletion.\<close>

definition refusing_backend :: "(request_failure, unit) backend" where
  "refusing_backend = (sample_backend sample_delta)\<lparr>delete_item := (\<lambda>_ w.
     (Inl ((new_failure 403 DriveItemDelete)\<lparr>rf_retry_after := 5000\<rparr>), w))\<rparr>"

lemma failed_delete_stays_queued_witness:
  "\<exists>q\<in>set (t_deletes (w_db (snd (recover_pending_delete_id refusing_backend ''g1''
      (sample_world\<lparr>w_db := sample_db\<lparr>t_deletes := [plain_delete ''g1'' (Some ''g1'') ''/D/g'' 4]\<rparr>\<rparr>))))).
    d_remote_id q = ''g1''"
proof -
  let ?w = "sample_world\<lparr>w_db := sample_db\<lparr>t_deletes := [plain_delete ''g1'' (Some ''g1'') ''/D/g'' 4]\<rparr>\<rparr>"
  let ?run = "recover_pending_delete_id refusing_backend ''g1'' ?w"
  have "tomb_waits ''g1'' ?w" by code_simp
  moreover have "backend_keeps (tomb_waits ''g1'') refusing_backend"
    using sample_backend_keeps[of "tomb_waits ''g1''" sample_delta]
    by (simp add: backend_keeps_def refusing_backend_def)
  moreover have "case fst ?run of Inl _ \<Rightarrow> True | Inr _ \<Rightarrow> False" by code_simp
  then obtain e where "?run = (Inl e, snd ?run)" by (cases ?run) (auto split: sum.splits)
  ultimately show ?thesis using failed_delete_stays_queued by blast
qed

section \<open>Startup\<close>

definition interrupted_row :: "int \<Rightarrow> disk \<Rightarrow> file_row \<Rightarrow> file_row" where
  "interrupted_row now k r =
     (case interrupted_len k (row_to_record r) of
        None \<Rightarrow> r
      | Some len \<Rightarrow> r\<lparr>f_state := Dirty, f_size := clamp_size len, f_modified_unix := now\<rparr>)"

lemma mark_interrupted_rows:
  assumes "wf_db d" "distinct (map (\<lambda>r. m_remote_id (metadata r)) rs)"
    and "\<forall>r\<in>set rs. \<exists>q. file_by_id (m_remote_id (metadata r)) d = Some q \<and> r = row_to_record q"
  shows "\<exists>d'. mark_interrupted now k rs d = (Inr (), d') \<and> wf_db d' \<and>
    (\<forall>i. file_by_id i d' = (if i \<in> (\<lambda>r. m_remote_id (metadata r)) ` set rs
       then map_option (interrupted_row now k) (file_by_id i d) else file_by_id i d))"
  using assms
proof (induction rs arbitrary: d)
  case (Cons r rs)
  let ?i = "m_remote_id (metadata r)"
  obtain q where q: "file_by_id ?i d = Some q" "r = row_to_record q" using Cons.prems(3) by auto
  obtain d1 where d1: "mark_interrupted now k (r # rs) d = mark_interrupted now k rs d1" "wf_db d1"
    "\<And>i. file_by_id i d1 = (if i = ?i then map_option (interrupted_row now k) (file_by_id i d) else file_by_id i d)"
  proof (cases "interrupted_len k r")
    case None
    then show thesis using that[of d] Cons.prems(1) q by (auto simp: interrupted_row_def)
  next
    case (Some len)
    let ?d1 = "touch_files (at_id ?i) (\<lambda>r. r\<lparr>f_state := Dirty, f_size := clamp_size len, f_modified_unix := now\<rparr>) d"
    have "mark_dirty_with_size now ?i len d = (Inr (), ?d1)"
      using q(1) file_by_id_SomeD[OF q(1)] by (auto simp: mark_dirty_with_size_def sql_count_0 at_id_def)
    moreover have "file_by_id j ?d1 = (if j = ?i then map_option (interrupted_row now k) (file_by_id j d) else file_by_id j d)" for j
      using q Some
      by (cases "file_by_id j d") (auto simp: file_by_id_touch at_id_def interrupted_row_def dest: file_by_id_SomeD)
    moreover have "wf_db ?d1" using Cons.prems(1) by (simp add: wf_touch_files)
    ultimately show thesis using that[of ?d1] Some by simp
  qed
  have "\<forall>r'\<in>set rs. \<exists>q. file_by_id (m_remote_id (metadata r')) d1 = Some q \<and> r' = row_to_record q"
    using Cons.prems(2,3) d1(3) by (auto simp: image_iff)
  from Cons.IH[OF d1(2) _ this] Cons.prems(2) obtain d' where d':
    "mark_interrupted now k rs d1 = (Inr (), d')" "wf_db d'"
    "\<And>i. file_by_id i d' = (if i \<in> (\<lambda>r. m_remote_id (metadata r)) ` set rs
       then map_option (interrupted_row now k) (file_by_id i d1) else file_by_id i d1)"
    by auto
  then show ?case using d1 Cons.prems(2) by (auto intro!: exI[of _ d'])
qed simp

text \<open>At startup every write that was interrupted becomes an edit to send: a row in the writing
  state whose cache file is readable is dirty with the length the file has, nothing else changes,
  and no byte of the cache is touched.\<close>

lemma interrupted_writes_become_edits:
  assumes "wf_db d"
  shows "\<exists>d'. recover_interrupted_writes now k d = (Inr (), d') \<and>
    (\<forall>i. file_by_id i d' = map_option (interrupted_row now k) (file_by_id i d))"
proof -
  have ids: "distinct (map (\<lambda>r. m_remote_id (metadata r)) (all_records d))"
    using assms by (simp add: all_records_def comp_def distinct_map wf_db_def files_ok_def)
  have rows: "\<forall>r\<in>set (all_records d). \<exists>q. file_by_id (m_remote_id (metadata r)) d = Some q \<and> r = row_to_record q"
    using file_by_id_iff[OF assms] by (auto simp: all_records_def)
  have all: "file_by_id i d = None \<or> i \<in> (\<lambda>r. m_remote_id (metadata r)) ` set (all_records d)" for i
    by (cases "file_by_id i d") (auto simp: all_records_def image_image dest: file_by_id_SomeD)
  show ?thesis
    using mark_interrupted_rows[OF assms ids rows, of now k] all
    unfolding recover_interrupted_writes_def by (metis option.map_disc_iff)
qed

lemma interrupted_writes_become_edits_witness:
  "file_by_id ''l1'' (snd (recover_interrupted_writes 50 [''/c/l1'' \<mapsto> RegularFile 9 Free]
      (mark_state ''l1'' Writing sample_db))) =
   Some ((sample_row ''l1'' None ''/D/t'' (Some ''/c/l1'') Dirty)\<lparr>f_size := 9, f_modified_unix := 50\<rparr>)"
proof -
  let ?d = "mark_state ''l1'' Writing sample_db" and ?k = "[''/c/l1'' \<mapsto> RegularFile 9 Free] :: disk"
  have "wf_db ?d" by code_simp
  then obtain d' where "recover_interrupted_writes 50 ?k ?d = (Inr (), d')"
    "file_by_id ''l1'' d' = map_option (interrupted_row 50 ?k) (file_by_id ''l1'' ?d)"
    using interrupted_writes_become_edits by blast
  moreover have "map_option (interrupted_row 50 ?k) (file_by_id ''l1'' ?d) =
    Some ((sample_row ''l1'' None ''/D/t'' (Some ''/c/l1'') Dirty)\<lparr>f_size := 9, f_modified_unix := 50\<rparr>)" by code_simp
  ultimately show ?thesis by simp
qed

lemma send_open:
  assumes "q_open q"
  shows "fst (send c q) = Inr () \<and> q_open (snd (send c q)) \<and>
    (\<forall>k. command_key c = Some k \<or> map_of (q_pending q) k \<noteq> None \<longrightarrow> map_of (q_pending (snd (send c q))) k \<noteq> None)"
  using assms by (auto simp: send_def update_conv' split: option.split)

lemma send_all_open:
  assumes "q_open q"
  shows "\<exists>q'. send_all cs q = (Inr (), q') \<and> (\<forall>k. map_of (q_pending q) k \<noteq> None \<longrightarrow> map_of (q_pending q') k \<noteq> None) \<and>
    (\<forall>c\<in>set cs. \<forall>k. command_key c = Some k \<longrightarrow> map_of (q_pending q') k \<noteq> None)"
  using assms
proof (induction cs arbitrary: q)
  case (Cons c cs)
  obtain q1 where q1: "send c q = (Inr (), q1)" "q_open q1"
    "\<forall>k. command_key c = Some k \<or> map_of (q_pending q) k \<noteq> None \<longrightarrow> map_of (q_pending q1) k \<noteq> None"
    using send_open[OF Cons.prems, of c] by (metis prod.collapse)
  with Cons.IH[OF q1(2)] show ?case by auto
qed simp

text \<open>Startup requests all retained work: on an open queue it succeeds, and afterwards every due
  tombstone, every metadata job and every edited, interrupted or conflicted file is queued.\<close>

lemma startup_requests_all_work:
  assumes "q_open q"
  shows "\<exists>q'. enqueue_recovery now k d q = (Inr (), q') \<and>
    (\<forall>p\<in>set (t_deletes d). retry_due p now \<longrightarrow> map_of (q_pending q') (''delete:'' @ d_remote_id p) \<noteq> None) \<and>
    (\<forall>op\<in>set (t_ops d). map_of (q_pending q') (''upload:'' @ o_local_id op) \<noteq> None) \<and>
    (\<forall>r\<in>set (t_files d). f_state r \<in> {Dirty, Uploading, Conflict} \<longrightarrow>
       map_of (q_pending q') (''upload:'' @ f_remote_id r) \<noteq> None)"
proof -
  let ?cs = "recovery_commands now k d"
  obtain q' where q': "enqueue_recovery now k d q = (Inr (), q')"
    "\<And>c k'. c \<in> set ?cs \<Longrightarrow> command_key c = Some k' \<Longrightarrow> map_of (q_pending q') k' \<noteq> None"
    using send_all_open[OF assms, of ?cs] unfolding enqueue_recovery_def by blast
  have jobs: "o_local_id ` set (t_ops d) \<subseteq> o_local_id ` set (pending_metadata_operations d)"
  proof
    fix j
    assume "j \<in> o_local_id ` set (t_ops d)"
    then obtain op where op: "op \<in> set (t_ops d)" "j = o_local_id op" by blast
    then have "pending_metadata_operation j d \<noteq> None"
      unfolding pending_metadata_operation_def sql_first_None_iff by blast
    then obtain op' where op': "pending_metadata_operation j d = Some op'" by blast
    then have "op' \<in> set (pending_metadata_operations d)"
      using op by (force simp: pending_metadata_operations_def map_filter_def)
    moreover have "o_local_id op' = j"
      using op' by (auto simp: pending_metadata_operation_def dest: sql_first_SomeD)
    ultimately show "j \<in> o_local_id ` set (pending_metadata_operations d)" by blast
  qed
  have "Delete (d_remote_id p) \<in> set ?cs" if "p \<in> set (t_deletes d)" "retry_due p now" for p
  proof -
    have "read_delete p \<in> set (pending_deletes d)" "d_remote_id (read_delete p) = d_remote_id p"
      "retry_due (read_delete p) now"
      using that by (simp_all add: pending_deletes_def read_delete_def retry_due_def)
    then show ?thesis
      unfolding recovery_commands_def Let_def set_append set_map
      by (intro UnI1 image_eqI[where x = "read_delete p"]) simp_all
  qed
  moreover have "Upload (o_local_id op) \<in> set ?cs" if "op \<in> set (t_ops d)" for op
    using that jobs by (auto simp: recovery_commands_def Let_def)
  moreover have "Upload (f_remote_id r) \<in> set ?cs" if "r \<in> set (t_files d)" "f_state r \<in> {Dirty, Uploading, Conflict}" for r
  proof (cases "f_remote_id r \<in> set (map o_local_id (pending_metadata_operations d))")
    case True
    then show ?thesis by (auto simp: recovery_commands_def Let_def)
  next
    case False
    have "row_to_record r \<in> set (all_records d)" "wants_transfer k (row_to_record r)"
      using that by (auto simp: all_records_def wants_transfer_def)
    with False show ?thesis
      unfolding recovery_commands_def Let_def set_append set_map
      by (intro UnI2 image_eqI[where x = "row_to_record r"]) simp_all
  qed
  moreover have "Delete i \<in> set ?cs \<Longrightarrow> map_of (q_pending q') (''delete:'' @ i) \<noteq> None"
    "Upload i \<in> set ?cs \<Longrightarrow> map_of (q_pending q') (''upload:'' @ i) \<noteq> None" for i
    by (rule q'(2), assumption, simp add: command_key_def)+
  ultimately show ?thesis using q'(1) by blast
qed

lemma startup_requests_all_work_witness:
  "\<exists>q'. enqueue_recovery 9 (\<lambda>_. None) sample_db \<lparr>q_pending = [], q_channel = [], q_open = True\<rparr> = (Inr (), q') \<and>
    map_of (q_pending q') (''upload:'' @ ''l1'') \<noteq> None"
proof -
  let ?q = "\<lparr>q_pending = [], q_channel = [], q_open = True\<rparr>"
  let ?r = "sample_row ''l1'' None ''/D/t'' (Some ''/c/l1'') Dirty"
  have r: "?r \<in> set (t_files sample_db)" "f_state ?r \<in> {Dirty, Uploading, Conflict}" "f_remote_id ?r = ''l1''" by code_simp+
  have "q_open ?q" by simp
  from startup_requests_all_work[OF this, of 9 "\<lambda>_. None" sample_db] r show ?thesis by metis
qed

section \<open>A replayed upload can reach a live object\<close>

text \<open>
  The owner check of recover_pending_delete_id runs before the replay of an unbound upload, on the
  identity the tombstone has then.  The identity the replay learns is not checked again: when the
  cloud object at the path of the interrupted upload is by now one a live record is bound to
  (another device moved it there; the import of that move is held back by the tombstone's own
  barrier), it is the live object that is deleted.  The cloud of this example logs its deletions.
\<close>

definition logging_backend :: "(request_failure, string list) backend" where
  "logging_backend =
     \<lparr>list_all = (\<lambda>w. (Inr [], w)), list_delta = (\<lambda>_ w. (Inr sample_delta, w)),
      get_metadata = (\<lambda>_ w. (Inr None, w)), get_metadata_by_path = (\<lambda>_ w. (Inr None, w)),
      download_sized_to = (\<lambda>_ sz _ w. (Inr sz, w)),
      upload_file_with_version = (\<lambda>p _ _ _ w. (Inr (new_file ''f2'' p 3 8 ''e8''), w)),
      create_folder = (\<lambda>p w. (Inr (new_dir ''dir'' p 8 ''e8''), w)),
      rename_item = (\<lambda>i p w. (Inr (new_file i p 3 8 ''e8''), w)),
      delete_item = (\<lambda>i w. (Inr (), w\<lparr>w_cloud := i # w_cloud w\<rparr>)), is_conflict_error = (\<lambda>_. False),
      failure_info = Some, bad_name = (\<lambda>_. False)\<rparr>"

definition replay_world :: "string list world" where
  "replay_world =
     \<lparr>w_db = sample_db\<lparr>t_deletes := [sample_tombstone\<lparr>d_upload_cache_path := Some ''/c/l9''\<rparr>]\<rparr>,
      w_disk = [''/c/l9'' \<mapsto> RegularFile 3 Free], w_mtime = (\<lambda>_. None), w_now = 100, w_cloud = []\<rparr>"

lemma replay_deletes_live_object:
  "get_by_cloud_remote_id ''f2'' (w_db replay_world) \<noteq> None \<and>
   w_cloud (snd (recover_pending_delete_id logging_backend ''l9'' replay_world)) = [''f2''] \<and>
   get_by_cloud_remote_id ''f2'' (w_db (snd (recover_pending_delete_id logging_backend ''l9'' replay_world))) \<noteq> None"
  by (intro conjI) code_simp+

section \<open>An upload that nothing disturbs\<close>

lemma released_row_kept:
  assumes "\<And>r. P r \<Longrightarrow> P (released r)"
    and "\<exists>r\<in>set (t_files (fst s)). P r"
  shows "\<exists>r\<in>set (t_files (fst (snd (finish_pending_releases s)))). P r"
  unfolding finish_pending_releases_def
proof (rule reclaim_all_inv[where Q = "\<lambda>s. \<exists>r\<in>set (t_files (fst s)). P r"])
  fix x and s :: "db \<times> disk"
  assume s: "\<exists>r\<in>set (t_files (fst s)). P r"
  obtain e k where se: "s = (e, k)" by (cases s)
  show "\<exists>r\<in>set (t_files (fst (snd (case get_by_remote_id x (fst s) of None \<Rightarrow> (Inr False, s) | Some rec \<Rightarrow> release_record rec s)))). P r"
  proof (cases "get_by_remote_id x e")
    case (Some rec)
    obtain res e' k' where c: "release_cached_record None (m_remote_id (metadata rec)) (e, k) = (res, e', k')"
      by (metis prod_cases3)
    from s se obtain r where r: "r \<in> set (t_files e)" "P r" by auto
    from c have "\<exists>r\<in>set (t_files e'). P r"
    proof (rule release_cases)
      assume "e' = e"
      with r show ?thesis by auto
    next
      assume e': "e' = touch_files (at_id (m_remote_id (metadata rec))) released e"
      let ?r = "if at_id (m_remote_id (metadata rec)) r then released r else r"
      have "?r \<in> set (t_files e')" using r unfolding e' by (auto simp: table_simps)
      moreover have "P ?r" using r(2) assms(1) by simp
      ultimately show ?thesis by blast
    qed
    with Some c se show ?thesis by (simp add: release_record_def)
  qed (use s se in auto)
qed (rule assms(2))

lemma commit_uploaded_bound:
  assumes wf: "wf_db d" and r: "file_by_id i d = Some r" "f_cloud_remote_id r = Some (m_remote_id u)"
    "f_path r = normalize_cloud_path p" "f_state r = Uploading" "f_cache_path r = Some c"
  shows "\<exists>d'. commit_uploaded now i p u c d = (Inr (row_to_record (ack_row now True True u (f_modified_unix r) c r)), d') \<and>
    wf_db d' \<and> file_by_id i d' = Some (ack_row now True True u (f_modified_unix r) c r)"
proof -
  let ?f = "ack_row now True True u (f_modified_unix r) c"
  let ?d' = "touch_files (at_id i) ?f d"
  have row: "q = r" if "q \<in> set (t_files d)" "at_id i q" for q
    using file_by_id_unique[OF wf r(1)] that by (simp add: at_id_def)
  have upd: "update_files (at_id i) ?f d = Inr ?d'"
    by (rule update_files_ok[OF wf]) (auto dest!: row simp: ack_row_def r(2))
  have cur: "current_generation (normalize_cloud_path p) c r"
    using r by (simp add: current_generation_def)
  have tx: "tx_commit_uploaded now i p u c d = Inr ((), ?d')"
    using r cur upd by (simp add: tx_commit_uploaded_def Let_def)
  have found: "file_by_id i ?d' = Some (?f r)"
    using r(1) file_by_id_SomeD[OF r(1)] by (simp add: file_by_id_touch ack_row_def at_id_def)
  have "commit_uploaded now i p u c d = (Inr (row_to_record (?f r)), ?d')"
    using found by (simp add: commit_uploaded_def run_tx_def tx get_by_remote_id_def)
  moreover have "wf_db ?d'" using wf_update_files[OF wf upd] .
  ultimately show ?thesis using found by blast
qed

lemma no_tombstone:
  "pending_delete_for_local_id i d = None \<Longrightarrow> complete_deleted_upload now i u d = (Inr False, d)"
proof -
  assume "pending_delete_for_local_id i d = None"
  then have "\<forall>p\<in>set (t_deletes d). d_local_id p \<noteq> Some i"
    by (auto simp: pending_delete_for_local_id_def pending_deletes_def find_None_iff read_delete_def)
  then have "sql_first (\<lambda>p. d_local_id p = Some i) (t_deletes d) = None"
    by (simp add: sql_first_None_iff)
  then show ?thesis by (simp add: complete_deleted_upload_def run_tx_def tx_complete_deleted_def)
qed


definition upload_world :: "unit world" where
  "upload_world = sample_world\<lparr>w_disk := [''/c/f1'' \<mapsto> RegularFile 3 Free]\<rparr>"


section \<open>Properties\<close>

text \<open>Every replay keeps the database well formed (identities, paths and cloud identities stay
  unique), whatever the cloud answers and wherever it fails, when the other threads do.\<close>

lemma recovery_keeps_wellformed:
  assumes "wf_db (w_db w)" and "backend_keeps (db_prop wf_db) be"
  shows "wf_db (w_db (snd (recover_dirty_uploads be w))) \<and>
    wf_db (w_db (snd (recover_pending_deletes be w))) \<and>
    wf_db (w_db (snd (recover_pending_metadata_operations be w))) \<and>
    wf_db (w_db (snd (run_command be dir c w)))"
  using work_wf.keeps_dirty_uploads[OF assms(2)] work_wf.keeps_deletes[OF assms(2)]
    work_wf.keeps_jobs[OF assms(2)] work_wf.keeps_command[OF assms(2)] assms(1)
  by (simp add: act_keeps_def)

lemma recovery_keeps_wellformed_witness:
  "wf_db (w_db (snd (recover_dirty_uploads (sample_backend sample_delta) sample_world)))"
proof -
  have "wf_db (w_db sample_world)" by code_simp
  then show ?thesis using recovery_keeps_wellformed[OF _ sample_backend_keeps] by blast
qed



text \<open>An edited file is not sent while its row is gone, a deletion holds its identity or path,
  a metadata job is pending at or above its path, or its cache file is missing: the worker answers
  that nothing was sent and changes nothing, neither locally nor in the cloud.\<close>

lemma blocked_upload_waits:
  assumes "get_by_remote_id (m_remote_id (metadata r)) (w_db w) = None \<or>
    is_pending_delete (m_remote_id (metadata r)) (m_path (metadata r)) (w_db w) \<or>
    has_pending_metadata_at_or_above (m_path (metadata r)) (w_db w) \<or>
    (case r_cache_path r of None \<Rightarrow> True | Some c \<Rightarrow> \<not> path_exists (w_disk w) c)"
  shows "recover_dirty_record be r w = (Inr False, w)"
  using assms
  by (auto simp: recover_dirty_record_def Let_def act_bind_def read_db_def read_world_def act_return_def
      split: option.splits)

lemma blocked_upload_waits_witness:
  "recover_dirty_record (sample_backend sample_delta)
     (row_to_record (sample_row ''f1'' (Some ''f1'') ''/D/a'' (Some ''/c/f1'') Dirty)) sample_world =
   (Inr False, sample_world)"
  by (rule blocked_upload_waits)
    (simp add: row_to_record_def sample_row_def sample_world_def path_exists_def)

end
