(* ===== verification/Inodes.thy ===== *)
theory Inodes
  imports Store "HOL-Library.AList"
begin

text \<open>
  crates/twodrive-fs/src/inodes.rs: the table that gives inode numbers to cloud paths.  Each
  HashMap is an association list read with map_of; where the code iterates over a HashMap (an
  unspecified order) the model takes the order of the list, and no theorem depends on it.  The
  main facts: the two directions of the table agree, numbers are never reused, and a directory
  listing holds exactly live entries in the listing order.
\<close>

section \<open>The table\<close>

abbreviation ROOT_INO :: u64 where
  "ROOT_INO \<equiv> 1"

record inode_table =
  next_ino :: u64
  path_by_ino :: "(u64 \<times> string) list"
  ino_by_path :: "(string \<times> u64) list"
  record_by_ino :: "(u64 \<times> file_record) list"
  children_by_parent_ino :: "(u64 \<times> (u64 \<times> file_record) list) list"

text \<open>char::to_lowercase on U+0000 .. U+00FF.\<close>

definition rust_lower :: "char \<Rightarrow> char" where
  "rust_lower c =
     (let n = of_char c :: nat in
      if 65 \<le> n \<and> n \<le> 90 \<or> 192 \<le> n \<and> n \<le> 222 \<and> n \<noteq> 215 then char_of (n + 32) else c)"

definition child_key :: "u64 \<times> file_record \<Rightarrow> bool \<times> string \<times> string" where
  "child_key c = (\<not> m_is_dir (metadata (snd c)), map rust_lower (m_name (metadata (snd c))),
     m_name (metadata (snd c)))"

definition sort_child_records :: "(u64 \<times> file_record) list \<Rightarrow> (u64 \<times> file_record) list" where
  "sort_child_records children = sort_key child_key children"

definition parent_text :: "string \<Rightarrow> string" where
  "parent_text path =
     (case rfind (CHR ''/'') path of
        None \<Rightarrow> ''/''
      | Some i \<Rightarrow> if i = 0 then ''/'' else take i path)"

definition parent_ino_for_path :: "(string \<times> u64) list \<Rightarrow> string \<Rightarrow> u64" where
  "parent_ino_for_path ino_by path =
     (let path = normalize_cloud_path path in
      if path = ''/'' then ROOT_INO
      else (case map_of ino_by (parent_text path) of None \<Rightarrow> ROOT_INO | Some i \<Rightarrow> i))"

text \<open>entry(parent).or_default().push(child)\<close>

definition push_child ::
    "u64 \<Rightarrow> u64 \<times> file_record \<Rightarrow> (u64 \<times> (u64 \<times> file_record) list) list \<Rightarrow>
     (u64 \<times> (u64 \<times> file_record) list) list" where
  "push_child parent child kids =
     AList.update parent ((case map_of kids parent of None \<Rightarrow> [] | Some cs \<Rightarrow> cs) @ [child]) kids"

text \<open>The zip of the counter with the sorted records.\<close>

fun number_records :: "u64 \<Rightarrow> file_record list \<Rightarrow> (u64 \<times> file_record) list" where
  "number_records i [] = []"
| "number_records i (r # rs) = (i, r) # number_records (i + 1) rs"

definition new_table :: "file_record list \<Rightarrow> inode_table" where
  "new_table records =
     (let numbered = number_records (ROOT_INO + 1) (sort_key (\<lambda>r. m_path (metadata r)) records);
          paths = foldl (\<lambda>m (i, r). AList.update i (m_path (metadata r)) m) [(ROOT_INO, ''/'')] numbered;
          inos = foldl (\<lambda>m (i, r). AList.update (m_path (metadata r)) i m) [(''/'', ROOT_INO)] numbered;
          recs = foldl (\<lambda>m (i, r). AList.update i r m) [] numbered;
          kids = foldl (\<lambda>m (i, r). push_child (parent_ino_for_path inos (m_path (metadata r))) (i, r) m)
                   [] recs
      in \<lparr>next_ino = of_nat (length records) + ROOT_INO + 1, path_by_ino = paths, ino_by_path = inos,
          record_by_ino = recs,
          children_by_parent_ino = map (\<lambda>(i, cs). (i, sort_child_records cs)) kids\<rparr>)"

definition path_for_ino :: "u64 \<Rightarrow> inode_table \<Rightarrow> string option" where
  "path_for_ino ino t = map_of (path_by_ino t) ino"

definition ino_for_path :: "string \<Rightarrow> inode_table \<Rightarrow> u64 option" where
  "ino_for_path path t = map_of (ino_by_path t) (normalize_cloud_path path)"

definition ino_for_remote_id :: "string \<Rightarrow> inode_table \<Rightarrow> u64 option" where
  "ino_for_remote_id remote_id t =
     map_option fst (List.find (\<lambda>(i, r). m_remote_id (metadata r) = remote_id) (record_by_ino t))"

definition record_for_ino :: "u64 \<Rightarrow> inode_table \<Rightarrow> file_record option" where
  "record_for_ino ino t = map_of (record_by_ino t) ino"

text \<open>The inode of the record's path, when it still names the same remote item.\<close>

definition known_ino :: "file_record \<Rightarrow> inode_table \<Rightarrow> u64 option" where
  "known_ino r t =
     (case ino_for_path (m_path (metadata r)) t of
        None \<Rightarrow> None
      | Some i \<Rightarrow>
          (case map_of (record_by_ino t) i of
             None \<Rightarrow> None
           | Some cached \<Rightarrow>
               if m_remote_id (metadata cached) = m_remote_id (metadata r) then Some i else None))"

definition bind_ino :: "u64 \<Rightarrow> file_record \<Rightarrow> inode_table \<Rightarrow> inode_table" where
  "bind_ino i r t =
     t\<lparr>path_by_ino := AList.update i (m_path (metadata r)) (path_by_ino t),
       ino_by_path := AList.update (m_path (metadata r)) i (ino_by_path t),
       record_by_ino := AList.update i r (record_by_ino t)\<rparr>"

definition allocate_ino :: "inode_table \<Rightarrow> u64 \<times> inode_table" where
  "allocate_ino t = (next_ino t, t\<lparr>next_ino := next_ino t + 1\<rparr>)"

section \<open>Changes\<close>

fun refresh_records ::
    "file_record list \<Rightarrow> (u64 \<times> file_record) list \<Rightarrow> inode_table \<Rightarrow> (u64 \<times> file_record) list \<times> inode_table" where
  "refresh_records [] children t = (children, t)"
| "refresh_records (r # rs) children t =
     (let (i, t1) = (case known_ino r t of Some i \<Rightarrow> (i, t) | None \<Rightarrow> allocate_ino t)
      in refresh_records rs (children @ [(i, r)]) (bind_ino i r t1))"

definition forget_path :: "u64 \<Rightarrow> string \<Rightarrow> inode_table \<Rightarrow> inode_table" where
  "forget_path ino path t =
     (if map_of (ino_by_path t) path = Some ino
      then t\<lparr>ino_by_path := AList.delete path (ino_by_path t)\<rparr> else t)"

definition refresh_children :: "string \<Rightarrow> file_record list \<Rightarrow> inode_table \<Rightarrow> inode_table" where
  "refresh_children parent_path records t =
     (case ino_for_path parent_path t of
        None \<Rightarrow> t
      | Some parent_ino \<Rightarrow>
          (let (children, t1) = refresh_records records [] t;
               t2 = (case map_of (children_by_parent_ino t1) parent_ino of
                       None \<Rightarrow> t1
                     | Some previous \<Rightarrow>
                         foldl (\<lambda>t' (i, r). if i \<in> fst ` set children then t'
                             else forget_path i (m_path (metadata r)) t') t1 previous)
           in t2\<lparr>children_by_parent_ino :=
                AList.update parent_ino children (children_by_parent_ino t2)\<rparr>))"

definition retain_not :: "u64 \<Rightarrow> (u64 \<times> file_record) list \<Rightarrow> (u64 \<times> file_record) list" where
  "retain_not ino cs = filter (\<lambda>(i, _). i \<noteq> ino) cs"

definition replace_ino_record :: "u64 \<Rightarrow> file_record \<Rightarrow> inode_table \<Rightarrow> inode_table" where
  "replace_ino_record ino r t =
     (let path = m_path (metadata r);
          t1 = t\<lparr>path_by_ino := AList.update ino path (path_by_ino t)\<rparr>;
          t2 = (case map_of (path_by_ino t) ino of
                  None \<Rightarrow> t1
                | Some previous \<Rightarrow>
                    let parent = parent_ino_for_path (ino_by_path t1) previous in
                    forget_path ino previous
                      (case map_of (children_by_parent_ino t1) parent of
                         None \<Rightarrow> t1
                       | Some cs \<Rightarrow> t1\<lparr>children_by_parent_ino :=
                           AList.update parent (retain_not ino cs) (children_by_parent_ino t1)\<rparr>));
          t3 = t2\<lparr>ino_by_path := AList.update path ino (ino_by_path t2),
                  record_by_ino := AList.update ino r (record_by_ino t2)\<rparr>
      in t3\<lparr>children_by_parent_ino :=
           push_child (parent_ino_for_path (ino_by_path t3) path) (ino, r) (children_by_parent_ino t3)\<rparr>)"

definition insert_or_update :: "file_record \<Rightarrow> inode_table \<Rightarrow> u64 \<times> inode_table" where
  "insert_or_update r t =
     (case known_ino r t of
        Some ino \<Rightarrow> (ino, replace_ino_record ino r t)
      | None \<Rightarrow>
          (let (ino, t1) = allocate_ino t;
               t2 = bind_ino ino r t1
           in (ino, t2\<lparr>children_by_parent_ino :=
                 push_child (parent_ino_for_path (ino_by_path t2) (m_path (metadata r))) (ino, r)
                   (children_by_parent_ino t2)\<rparr>)))"

definition resize :: "(u64 \<Rightarrow> u64) \<Rightarrow> file_record \<Rightarrow> file_record" where
  "resize f r = r\<lparr>metadata := (metadata r)\<lparr>m_size := f (m_size (metadata r))\<rparr>\<rparr>"

definition update_size :: "(u64 \<Rightarrow> u64) \<Rightarrow> u64 \<Rightarrow> inode_table \<Rightarrow> inode_table" where
  "update_size f ino t =
     (case map_of (record_by_ino t) ino of
        None \<Rightarrow> t
      | Some r \<Rightarrow> t\<lparr>record_by_ino := AList.update ino (resize f r) (record_by_ino t)\<rparr>)"

definition set_size :: "u64 \<Rightarrow> u64 \<Rightarrow> inode_table \<Rightarrow> inode_table" where
  "set_size ino sz t = update_size (\<lambda>s. max s sz) ino t"

definition replace_size :: "u64 \<Rightarrow> u64 \<Rightarrow> inode_table \<Rightarrow> inode_table" where
  "replace_size ino sz t = update_size (\<lambda>_. sz) ino t"

definition remove_ino :: "u64 \<Rightarrow> inode_table \<Rightarrow> inode_table" where
  "remove_ino ino t =
     (let t1 = (case map_of (path_by_ino t) ino of
                  None \<Rightarrow> t
                | Some path \<Rightarrow>
                    forget_path ino path (t\<lparr>path_by_ino := AList.delete ino (path_by_ino t)\<rparr>))
      in t1\<lparr>record_by_ino := AList.delete ino (record_by_ino t1),
            children_by_parent_ino :=
              map (\<lambda>(i, cs). (i, retain_not ino cs)) (AList.delete ino (children_by_parent_ino t1))\<rparr>)"

section \<open>Reads\<close>

definition live_child :: "inode_table \<Rightarrow> u64 \<Rightarrow> (u64 \<times> file_record) option" where
  "live_child t i =
     (case map_of (record_by_ino t) i of
        None \<Rightarrow> None
      | Some r \<Rightarrow> if map_of (ino_by_path t) (m_path (metadata r)) = Some i then Some (i, r) else None)"

definition children_for_ino :: "u64 \<Rightarrow> inode_table \<Rightarrow> (u64 \<times> file_record) list" where
  "children_for_ino ino t =
     sort_child_records
       (List.map_filter (\<lambda>(i, _). live_child t i)
          (case map_of (children_by_parent_ino t) ino of None \<Rightarrow> [] | Some cs \<Rightarrow> cs))"

definition parent_ino :: "string \<Rightarrow> inode_table \<Rightarrow> u64 option" where
  "parent_ino path t =
     (let path = normalize_cloud_path path in
      if path = ''/'' then Some ROOT_INO else ino_for_path (parent_text path) t)"

datatype file_type = DirectoryType | RegularType

record file_attr =
  a_ino :: u64
  a_size :: u64
  a_blocks :: u64
  a_time :: int
  a_kind :: file_type
  a_perm :: u16
  a_nlink :: u32

definition file_type :: "metadata_entry \<Rightarrow> file_type" where
  "file_type e = (if m_is_dir e then DirectoryType else RegularType)"

text \<open>Seconds since the epoch; a time before it is the epoch.\<close>

definition unix_time :: "int \<Rightarrow> int" where
  "unix_time seconds = (if 0 \<le> seconds then seconds else 0)"

definition div_ceil :: "u64 \<Rightarrow> u64 \<Rightarrow> u64" where
  "div_ceil a b = (if a mod b = 0 then a div b else a div b + 1)"

definition attr_for_record :: "u64 \<Rightarrow> file_record \<Rightarrow> file_attr" where
  "attr_for_record ino r =
     (let sz = (if m_is_dir (metadata r) then 0 else m_size (metadata r)) in
      \<lparr>a_ino = ino, a_size = sz, a_blocks = div_ceil sz 512,
       a_time = unix_time (m_modified_unix (metadata r)), a_kind = file_type (metadata r),
       a_perm = (case r_local_mode r of Some m \<Rightarrow> m
                 | None \<Rightarrow> if m_is_dir (metadata r) then 493 else 420),
       a_nlink = (if m_is_dir (metadata r) then 2 else 1)\<rparr>)"

definition root_attr :: "int \<Rightarrow> file_attr" where
  "root_attr now =
     \<lparr>a_ino = ROOT_INO, a_size = 0, a_blocks = 0, a_time = now, a_kind = DirectoryType,
      a_perm = 493, a_nlink = 2\<rparr>"

section \<open>The invariant\<close>

text \<open>
  A path leads to a number that leads back to it; the number of a record is the number of its
  path; every number in use is below the counter; the root stays.
\<close>

definition maps_ok :: "u64 \<Rightarrow> (u64 \<rightharpoonup> string) \<Rightarrow> (string \<rightharpoonup> u64) \<Rightarrow> (u64 \<rightharpoonup> file_record) \<Rightarrow> bool" where
  "maps_ok limit paths inos recs =
     ((\<forall>p i. inos p = Some i \<longrightarrow> paths i = Some p) \<and>
      (\<forall>i r. recs i = Some r \<longrightarrow> paths i = Some (m_path (metadata r))) \<and>
      (\<forall>i p. paths i = Some p \<longrightarrow> i < limit) \<and>
      inos ''/'' = Some ROOT_INO)"

definition kids_ok :: "(u64 \<times> (u64 \<times> file_record) list) list \<Rightarrow> bool" where
  "kids_ok kids = (\<forall>(p, cs)\<in>set kids. \<forall>(i, r)\<in>set cs. i \<noteq> ROOT_INO)"

definition table_ok :: "inode_table \<Rightarrow> bool" where
  "table_ok t =
     (maps_ok (next_ino t) (map_of (path_by_ino t)) (map_of (ino_by_path t)) (map_of (record_by_ino t)) \<and>
      kids_ok (children_by_parent_ino t))"

text \<open>What the callers pass: the record of an item, at a canonical path below the root.\<close>

definition item_record :: "file_record \<Rightarrow> bool" where
  "item_record r = (canonical (m_path (metadata r)) \<and> m_path (metadata r) \<noteq> ''/'')"

lemma maps_ok_bind:
  assumes ok: "maps_ok n paths inos recs" and p: "m_path (metadata r) = p" "p \<noteq> ''/''"
    and i: "i < n" "paths i = None \<or> paths i = Some p"
  shows "maps_ok n (paths(i \<mapsto> p)) (inos(p \<mapsto> i)) (recs(i \<mapsto> r))"
  using assms unfolding maps_ok_def by (auto split: if_splits)

lemma maps_ok_forget: "maps_ok n paths inos recs \<Longrightarrow> p \<noteq> ''/'' \<Longrightarrow> maps_ok n paths (inos(p := None)) recs"
  unfolding maps_ok_def by auto

lemma maps_ok_limit: "maps_ok n paths inos recs \<Longrightarrow> n \<le> m \<Longrightarrow> maps_ok m paths inos recs"
  unfolding maps_ok_def by (meson order_less_le_trans)

lemma maps_ok_move:
  assumes ok: "maps_ok n paths inos recs" and p: "m_path (metadata r) = p" "p \<noteq> ''/''"
    and i: "i < n" "i \<noteq> ROOT_INO"
    and inos': "\<And>q. inos' q = (if paths i = Some q \<and> inos q = Some i then None else inos q)"
  shows "maps_ok n (paths(i \<mapsto> p)) (inos'(p \<mapsto> i)) (recs(i \<mapsto> r))"
  using ok p i unfolding maps_ok_def by (auto simp: inos' split: if_splits)

lemma maps_ok_remove:
  assumes "maps_ok n paths inos recs" "i \<noteq> ROOT_INO"
    and inos': "\<And>q. inos' q = (if paths i = Some q \<and> inos q = Some i then None else inos q)"
  shows "maps_ok n (paths(i := None)) inos' (recs(i := None))"
  using assms(1,2) unfolding maps_ok_def by (auto simp: inos' split: if_splits)

lemma map_of_update [simp]: "map_of (AList.update k v xs) = (map_of xs)(k \<mapsto> v)"
  by (rule update_conv')

lemma map_of_delete [simp]: "map_of (AList.delete k xs) = (map_of xs)(k := None)"
  by (rule delete_conv')

lemma forget_path_sel [simp]:
  "path_by_ino (forget_path i p t) = path_by_ino t" "record_by_ino (forget_path i p t) = record_by_ino t"
  "next_ino (forget_path i p t) = next_ino t"
  "children_by_parent_ino (forget_path i p t) = children_by_parent_ino t"
  "map_of (ino_by_path (forget_path i p t)) =
     (\<lambda>q. if q = p \<and> map_of (ino_by_path t) q = Some i then None else map_of (ino_by_path t) q)"
  by (auto simp: forget_path_def)

lemma table_ok_forget: "table_ok t \<Longrightarrow> i \<noteq> ROOT_INO \<Longrightarrow> table_ok (forget_path i p t)"
  by (auto simp: table_ok_def maps_ok_def)

lemma set_update_kids: "set (AList.update k v xs) \<subseteq> insert (k, v) (set xs)"
  by (induction xs) auto

lemma kids_ok_update: "kids_ok kids \<Longrightarrow> (\<And>i r. (i, r) \<in> set cs \<Longrightarrow> i \<noteq> ROOT_INO) \<Longrightarrow> kids_ok (AList.update p cs kids)"
  unfolding kids_ok_def using set_update_kids[of p cs kids] by blast

lemma kids_ok_get: "kids_ok kids \<Longrightarrow> map_of kids p = Some cs \<Longrightarrow> (i, r) \<in> set cs \<Longrightarrow> i \<noteq> ROOT_INO"
  unfolding kids_ok_def by (blast dest: map_of_SomeD)

lemma kids_ok_push: "kids_ok kids \<Longrightarrow> i \<noteq> ROOT_INO \<Longrightarrow> kids_ok (push_child p (i, r) kids)"
  unfolding push_child_def
  by (rule kids_ok_update) (auto split: option.splits dest: kids_ok_get[OF _ sym] kids_ok_get)

lemma kids_ok_retain: "kids_ok kids \<Longrightarrow> map_of kids p = Some cs \<Longrightarrow> kids_ok (AList.update q (retain_not i cs) kids)"
  by (rule kids_ok_update) (auto simp: retain_not_def dest: kids_ok_get)

lemma known_inoD:
  assumes "table_ok t" "item_record r" "known_ino r t = Some i"
  shows "map_of (path_by_ino t) i = Some (m_path (metadata r))" "i \<noteq> ROOT_INO" "i < next_ino t"
    "map_of (ino_by_path t) (m_path (metadata r)) = Some i"
proof -
  have i: "map_of (ino_by_path t) (m_path (metadata r)) = Some i"
    using assms(2,3) by (auto simp: known_ino_def ino_for_path_def item_record_def canonical_def
        split: option.splits if_splits)
  then show "map_of (ino_by_path t) (m_path (metadata r)) = Some i" .
  show p: "map_of (path_by_ino t) i = Some (m_path (metadata r))"
    using assms(1) i by (auto simp: table_ok_def maps_ok_def)
  then show "i < next_ino t" using assms(1) by (auto simp: table_ok_def maps_ok_def)
  show "i \<noteq> ROOT_INO"
    using assms(1,2) p by (auto simp: table_ok_def maps_ok_def item_record_def)
qed

lemma next_ino_fresh:
  assumes "table_ok t"
  shows "map_of (path_by_ino t) (next_ino t) = None" "next_ino t \<noteq> ROOT_INO"
    "map_of (record_by_ino t) (next_ino t) = None"
proof -
  show p: "map_of (path_by_ino t) (next_ino t) = None"
    using assms by (cases "map_of (path_by_ino t) (next_ino t)") (auto simp: table_ok_def maps_ok_def)
  then show "map_of (record_by_ino t) (next_ino t) = None"
    using assms by (cases "map_of (record_by_ino t) (next_ino t)") (auto simp: table_ok_def maps_ok_def)
  show "next_ino t \<noteq> ROOT_INO" using assms by (fastforce simp: table_ok_def maps_ok_def)
qed

lemma next_ino_step: "next_ino t \<noteq> - 1 \<Longrightarrow> next_ino t < next_ino t + 1"
proof -
  assume "next_ino t \<noteq> - 1"
  then have "1 + next_ino t \<noteq> 0" by (metis add.commute add_eq_0_iff)
  then have "unat (1 + next_ino t) = Suc (unat (next_ino t))" by (rule unatSuc)
  then show ?thesis by (simp add: word_less_nat_alt add.commute)
qed

lemma table_ok_bind:
  assumes "table_ok t" "item_record r" "i < next_ino t"
    "map_of (path_by_ino t) i = None \<or> map_of (path_by_ino t) i = Some (m_path (metadata r))"
  shows "table_ok (bind_ino i r t)"
  using assms maps_ok_bind[of "next_ino t" "map_of (path_by_ino t)" "map_of (ino_by_path t)"
      "map_of (record_by_ino t)" r "m_path (metadata r)" i]
  by (simp add: table_ok_def bind_ino_def item_record_def)

lemma table_ok_allocate:
  assumes "table_ok t" "next_ino t \<noteq> - 1"
  shows "table_ok (t\<lparr>next_ino := next_ino t + 1\<rparr>)"
  using assms(1) maps_ok_limit[OF _ order_less_imp_le[OF next_ino_step[OF assms(2)]]]
  by (simp add: table_ok_def)

lemma table_ok_replace:
  assumes ok: "table_ok t" and r: "item_record r" and i: "i \<noteq> ROOT_INO" "i < next_ino t"
  shows "table_ok (replace_ino_record i r t)"
proof -
  let ?p = "m_path (metadata r)"
  let ?inos = "\<lambda>q. if map_of (path_by_ino t) i = Some q \<and> map_of (ino_by_path t) q = Some i
     then None else map_of (ino_by_path t) q"
  have "maps_ok (next_ino t) ((map_of (path_by_ino t))(i \<mapsto> ?p)) (?inos(?p \<mapsto> i)) ((map_of (record_by_ino t))(i \<mapsto> r))"
    using ok r i by (intro maps_ok_move) (auto simp: table_ok_def item_record_def)
  moreover have "map_of (ino_by_path (replace_ino_record i r t)) = ?inos(?p \<mapsto> i)"
    "map_of (path_by_ino (replace_ino_record i r t)) = (map_of (path_by_ino t))(i \<mapsto> ?p)"
    "map_of (record_by_ino (replace_ino_record i r t)) = (map_of (record_by_ino t))(i \<mapsto> r)"
    "next_ino (replace_ino_record i r t) = next_ino t"
    by (auto simp: replace_ino_record_def Let_def split: option.splits)
  moreover have "kids_ok (children_by_parent_ino (replace_ino_record i r t))"
    using ok i by (auto simp: replace_ino_record_def Let_def table_ok_def
        intro!: kids_ok_push kids_ok_retain split: option.splits)
  ultimately show ?thesis by (simp add: table_ok_def)
qed

lemma table_ok_insert:
  assumes "table_ok t" "item_record r" "next_ino t \<noteq> - 1"
  shows "table_ok (snd (insert_or_update r t))"
proof (cases "known_ino r t")
  case (Some i)
  with assms show ?thesis by (simp add: insert_or_update_def table_ok_replace known_inoD)
next
  case None
  let ?t1 = "t\<lparr>next_ino := next_ino t + 1\<rparr>"
  have "table_ok (bind_ino (next_ino t) r ?t1)"
    using assms table_ok_allocate[OF assms(1,3)] next_ino_step[OF assms(3)] next_ino_fresh[OF assms(1)]
    by (intro table_ok_bind) simp_all
  with None next_ino_fresh[OF assms(1)] show ?thesis
    by (simp add: insert_or_update_def allocate_ino_def Let_def table_ok_def kids_ok_push)
qed

lemma table_ok_remove:
  assumes "table_ok t" "i \<noteq> ROOT_INO"
  shows "table_ok (remove_ino i t)"
proof -
  let ?inos = "\<lambda>q. if map_of (path_by_ino t) i = Some q \<and> map_of (ino_by_path t) q = Some i
     then None else map_of (ino_by_path t) q"
  have "maps_ok (next_ino t) ((map_of (path_by_ino t))(i := None)) ?inos ((map_of (record_by_ino t))(i := None))"
    using assms by (intro maps_ok_remove) (auto simp: table_ok_def)
  moreover have "map_of (ino_by_path (remove_ino i t)) = ?inos"
    "map_of (path_by_ino (remove_ino i t)) = (map_of (path_by_ino t))(i := None)"
    "map_of (record_by_ino (remove_ino i t)) = (map_of (record_by_ino t))(i := None)"
    "next_ino (remove_ino i t) = next_ino t"
    by (auto simp: remove_ino_def Let_def split: option.splits)
  moreover have "kids_ok (children_by_parent_ino (remove_ino i t))"
  proof -
    have "set (AList.delete i (children_by_parent_ino t)) \<subseteq> set (children_by_parent_ino t)"
      by (auto simp: AList.delete_eq)
    then show ?thesis using assms(1)
      by (fastforce simp: remove_ino_def Let_def table_ok_def kids_ok_def retain_not_def split: option.splits)
  qed
  ultimately show ?thesis by (simp add: table_ok_def)
qed

lemma table_ok_resize: "table_ok t \<Longrightarrow> table_ok (update_size f i t)"
  by (auto simp: table_ok_def maps_ok_def update_size_def resize_def split: option.splits)

lemma refresh_records_ok:
  assumes "table_ok t" "\<forall>r\<in>set rs. item_record r" "unat (next_ino t) + length rs < 2 ^ 64"
    and "\<forall>(i, r)\<in>set cs. i \<noteq> ROOT_INO"
    and "refresh_records rs cs t = (cs', t')"
  shows "table_ok t' \<and> (\<forall>(i, r)\<in>set cs'. i \<noteq> ROOT_INO)"
  using assms
proof (induction rs arbitrary: cs t)
  case Nil
  then show ?case by simp
next
  case (Cons r rs)
  have ne: "next_ino t \<noteq> - 1"
  proof
    assume "next_ino t = - 1"
    then have "unat (next_ino t) = 2 ^ 64 - 1" by (simp add: unsigned_minus_1_eq_mask mask_eq_exp_minus_1)
    with Cons.prems(3) show False by simp
  qed
  have next': "unat (next_ino t + 1) = Suc (unat (next_ino t))"
    using ne unatSuc[of "next_ino t"] by (simp add: add.commute) (metis add.commute add_eq_0_iff)
  show ?case
  proof (cases "known_ino r t")
    case (Some i)
    have "table_ok (bind_ino i r t)"
      using Cons.prems Some by (intro table_ok_bind) (auto dest: known_inoD)
    with Cons.prems Some show ?thesis
      by (intro Cons.IH[of "bind_ino i r t" "cs @ [(i, r)]"])
        (auto simp: bind_ino_def dest: known_inoD)
  next
    case None
    let ?t = "bind_ino (next_ino t) r (t\<lparr>next_ino := next_ino t + 1\<rparr>)"
    have "table_ok ?t"
      using Cons.prems table_ok_allocate[OF Cons.prems(1) ne] next_ino_step[OF ne] next_ino_fresh[OF Cons.prems(1)]
      by (intro table_ok_bind) simp_all
    moreover have "unat (next_ino ?t) + length rs < 2 ^ 64"
      using Cons.prems(3) next' by (simp add: bind_ino_def)
    moreover have "refresh_records rs (cs @ [(next_ino t, r)]) ?t = (cs', t')"
      using Cons.prems(5) None by (simp add: allocate_ino_def)
    ultimately show ?thesis
      using Cons.prems next_ino_fresh(2)[OF Cons.prems(1)]
      by (intro Cons.IH[of ?t "cs @ [(next_ino t, r)]"]) auto
  qed
qed

lemma table_ok_refresh:
  assumes "table_ok t" "\<forall>r\<in>set rs. item_record r" "unat (next_ino t) + length rs < 2 ^ 64"
  shows "table_ok (refresh_children parent rs t)"
proof (cases "ino_for_path parent t")
  case None
  with assms show ?thesis by (simp add: refresh_children_def)
next
  case (Some pi)
  obtain cs t1 where run: "refresh_records rs [] t = (cs, t1)" by (cases "refresh_records rs [] t")
  have t1: "table_ok t1" "\<forall>(i, r)\<in>set cs. i \<noteq> ROOT_INO"
    using refresh_records_ok[OF assms _ run] by simp_all
  define step where "step = (\<lambda>t' (i, r :: file_record). if i \<in> fst ` set cs then t'
      else forget_path i (m_path (metadata r)) t')"
  have loop: "table_ok (foldl step s prev)"
    if "table_ok s" "\<forall>(i, r)\<in>set prev. i \<noteq> ROOT_INO" for s prev
    using that
  proof (induction prev arbitrary: s)
    case (Cons x prev)
    then show ?case by (cases x) (auto simp: step_def table_ok_forget)
  qed simp
  let ?t2 = "case map_of (children_by_parent_ino t1) pi of None \<Rightarrow> t1 | Some previous \<Rightarrow> foldl step t1 previous"
  have t2: "table_ok ?t2"
    using t1(1) loop by (auto split: option.split dest: kids_ok_get simp: table_ok_def)
  have "refresh_children parent rs t = ?t2\<lparr>children_by_parent_ino :=
                AList.update pi cs (children_by_parent_ino ?t2)\<rparr>"
    using Some run unfolding step_def by (simp add: refresh_children_def Let_def)
  moreover have "kids_ok (AList.update pi cs (children_by_parent_ino ?t2))"
    using t2 t1(2) by (intro kids_ok_update) (auto simp: table_ok_def)
  ultimately show ?thesis using t2 by (simp add: table_ok_def)
qed

text \<open>The table built from the records of the database.\<close>

lemma unat_add_one: "unat (i :: u64) + 1 < 2 ^ 64 \<Longrightarrow> unat (i + 1) = unat i + 1"
  using unat_add_lem[of i 1] by simp

lemma number_records_ok:
  assumes "maps_ok i (map_of paths) (map_of inos) (map_of recs)" "\<forall>r\<in>set rs. item_record r"
    "2 \<le> unat i" "unat i + length rs < 2 ^ 64" "\<forall>(j, r)\<in>set recs. j \<noteq> ROOT_INO"
  shows "maps_ok (i + of_nat (length rs))
      (map_of (foldl (\<lambda>m (i, r). AList.update i (m_path (metadata r)) m) paths (number_records i rs)))
      (map_of (foldl (\<lambda>m (i, r). AList.update (m_path (metadata r)) i m) inos (number_records i rs)))
      (map_of (foldl (\<lambda>m (i, r). AList.update i r m) recs (number_records i rs))) \<and>
    (\<forall>(j, r)\<in>set (foldl (\<lambda>m (i, r). AList.update i r m) recs (number_records i rs)). j \<noteq> ROOT_INO)"
  using assms
proof (induction rs arbitrary: i paths inos recs)
  case Nil
  then show ?case by simp
next
  case (Cons r rs)
  let ?p = "m_path (metadata r)"
  have step: "unat (i + 1) = unat i + 1" using Cons.prems(4) by (intro unat_add_one) simp
  then have less: "i < i + 1" by (simp add: word_less_nat_alt)
  have fresh: "map_of paths i = None"
    using Cons.prems(1) by (cases "map_of paths i") (auto simp: maps_ok_def)
  have "i \<noteq> ROOT_INO" using Cons.prems(3) by auto
  then have a: "\<forall>(j, r)\<in>set (AList.update i r recs). j \<noteq> ROOT_INO"
    using Cons.prems(5) set_update_kids[of i r recs] by blast
  have b: "maps_ok (i + 1) (map_of (AList.update i ?p paths)) (map_of (AList.update ?p i inos))
      (map_of (AList.update i r recs))"
    unfolding map_of_update using Cons.prems(2) fresh less
    by (intro maps_ok_bind maps_ok_limit[OF Cons.prems(1)]) (auto simp: item_record_def)
  have len: "i + of_nat (length (r # rs)) = (i + 1) + of_nat (length rs)"
    by (simp add: add.assoc)
  have c: "\<forall>r\<in>set rs. item_record r" "2 \<le> unat (i + 1)" "unat (i + 1) + length rs < 2 ^ 64"
    using Cons.prems step by simp_all
  show ?case unfolding number_records.simps foldl_Cons prod.case len by (rule Cons.IH[OF b c a])
qed

lemma table_ok_new:
  assumes "\<forall>r\<in>set records. item_record r" "length records + 2 < 2 ^ 64"
  shows "table_ok (new_table records)"
proof -
  let ?rs = "sort_key (\<lambda>r. m_path (metadata r)) records"
  let ?recs = "foldl (\<lambda>m (i, r). AList.update i r m) [] (number_records 2 ?rs)"
  have init: "maps_ok 2 (map_of [(ROOT_INO, ''/'')]) (map_of [(''/'', ROOT_INO)]) (map_of ([] :: (u64 \<times> file_record) list))"
    by (auto simp: maps_ok_def split: if_splits)
  have kids: "kids_ok (foldl (\<lambda>m (i, r). push_child (q r) (i, r) m) kids xs)"
    if "kids_ok kids" "\<forall>(i, r)\<in>set xs. i \<noteq> ROOT_INO" for q kids and xs :: "(u64 \<times> file_record) list"
    using that
  proof (induction xs arbitrary: kids)
    case (Cons x xs)
    then show ?case by (cases x) (auto intro: kids_ok_push)
  qed simp
  have sorted: "kids_ok (map (\<lambda>(i, cs). (i, sort_child_records cs)) k)" if "kids_ok k" for k
    using that by (fastforce simp: kids_ok_def sort_child_records_def)
  have "unat (2 :: u64) = 2" by simp
  then show ?thesis
    using number_records_ok[OF init, of ?rs] assms
    unfolding new_table_def Let_def table_ok_def
    by (simp add: ac_simps) (intro sorted kids, auto simp: kids_ok_def)
qed

section \<open>Listings\<close>

lemma children_for_ino_live:
  "(i, r) \<in> set (children_for_ino dir t) \<Longrightarrow>
   map_of (record_by_ino t) i = Some r \<and> map_of (ino_by_path t) (m_path (metadata r)) = Some i"
  by (auto simp: children_for_ino_def sort_child_records_def live_child_def map_filter_def
      split: option.splits if_splits)

lemma children_for_ino_sorted: "sorted (map child_key (children_for_ino dir t))"
  by (simp add: children_for_ino_def sort_child_records_def)

section \<open>Properties\<close>

definition sample_item :: "string \<Rightarrow> string \<Rightarrow> file_record" where
  "sample_item i path = row_to_record (sample_row i None path None Dirty)"

definition sample_table :: inode_table where
  "sample_table = new_table [sample_item ''b'' ''/b'', sample_item ''a'' ''/a'']"

lemma sample_table_ok: "table_ok sample_table"
proof -
  have "\<forall>r\<in>set [sample_item ''b'' ''/b'', sample_item ''a'' ''/a'']. item_record r" by code_simp
  moreover have "length [sample_item ''b'' ''/b'', sample_item ''a'' ''/a''] + 2 < 2 ^ 64" by simp
  ultimately show ?thesis unfolding sample_table_def by (rule table_ok_new)
qed

text \<open>C37: the table built from any list of item records is consistent (a path leads to a number
  that leads back to it, a record's number is that of its path, numbers in use are below the
  counter, the root is inode 1), and every change keeps it so: inserting, replacing, resizing,
  removing and refreshing a directory, as long as the 64-bit counter does not run out.\<close>

theorem inode_table_consistent:
  assumes "\<forall>r\<in>set records. item_record r" "length records + 2 < 2 ^ 64"
    and "table_ok t" "item_record r" "i \<noteq> ROOT_INO" "i < next_ino t" "\<forall>r\<in>set rs. item_record r"
    and "unat (next_ino t) + length rs + 1 < 2 ^ 64"
  shows "table_ok (new_table records) \<and> table_ok (snd (insert_or_update r t)) \<and>
    table_ok (replace_ino_record i r t) \<and> table_ok (set_size i sz t) \<and> table_ok (replace_size i sz t) \<and>
    table_ok (remove_ino i t) \<and> table_ok (refresh_children parent rs t)"
proof (intro conjI)
  have "next_ino t \<noteq> - 1"
  proof
    assume "next_ino t = - 1"
    then have "unat (next_ino t) = 2 ^ 64 - 1" by (simp add: unsigned_minus_1_eq_mask mask_eq_exp_minus_1)
    with assms(8) show False by simp
  qed
  with assms show "table_ok (snd (insert_or_update r t))" by (intro table_ok_insert)
  show "table_ok (refresh_children parent rs t)" using assms by (intro table_ok_refresh) simp_all
qed (use assms in \<open>auto simp: set_size_def replace_size_def
    intro: table_ok_new table_ok_replace table_ok_resize table_ok_remove\<close>)

lemma inode_table_consistent_witness:
  "table_ok (snd (insert_or_update (sample_item ''c'' ''/c'') sample_table))"
proof -
  have "item_record (sample_item ''c'' ''/c'')" "next_ino sample_table = 4" by code_simp+
  then show ?thesis
    using sample_table_ok inode_table_consistent[of "[]" sample_table "sample_item ''c'' ''/c''" 2 "[]"] by simp
qed

text \<open>Looking up a path again gives the same inode number: inserting a record whose path
  already names the same remote item keeps its number, any other record gets a number that was
  never in use, and afterwards the path and the number of the record lead to each other.\<close>

lemma inode_number_stable:
  assumes ok: "table_ok t" and r: "item_record r" and ins: "insert_or_update r t = (i, t')"
  shows "(case known_ino r t of Some j \<Rightarrow> i = j | None \<Rightarrow> i = next_ino t \<and> path_for_ino i t = None) \<and>
    ino_for_path (m_path (metadata r)) t' = Some i \<and> path_for_ino i t' = Some (m_path (metadata r)) \<and>
    record_for_ino i t' = Some r"
proof -
  have can: "normalize_cloud_path (m_path (metadata r)) = m_path (metadata r)"
    using r by (simp add: item_record_def canonical_def)
  show ?thesis
  proof (cases "known_ino r t")
    case None
    with ins next_ino_fresh[OF ok] can show ?thesis
      by (auto simp: insert_or_update_def allocate_ino_def Let_def bind_ino_def path_for_ino_def
          ino_for_path_def record_for_ino_def)
  next
    case (Some j)
    with ins can show ?thesis
      by (auto simp: insert_or_update_def replace_ino_record_def Let_def path_for_ino_def
          ino_for_path_def record_for_ino_def split: option.splits)
  qed
qed

lemma inode_number_stable_witness:
  "ino_for_path ''/c'' (snd (insert_or_update (sample_item ''c'' ''/c'') sample_table)) =
    Some (fst (insert_or_update (sample_item ''c'' ''/c'') sample_table))"
proof -
  have "item_record (sample_item ''c'' ''/c'')" "m_path (metadata (sample_item ''c'' ''/c'')) = ''/c''"
    by code_simp+
  then show ?thesis
    using inode_number_stable[OF sample_table_ok _ prod.collapse[symmetric], of "sample_item ''c'' ''/c''"] by metis
qed

text \<open>A directory listing is sorted (directories first, then by lower-cased name, then by
  name) and holds only live entries: the number of each entry is the one its path leads to, and
  the record shown is the current record of that number.\<close>

lemma listing_live_and_sorted:
  "sorted (map child_key (children_for_ino dir t)) \<and>
   (\<forall>(i, r)\<in>set (children_for_ino dir t). record_for_ino i t = Some r \<and>
      map_of (ino_by_path t) (m_path (metadata r)) = Some i)"
  using children_for_ino_sorted children_for_ino_live by (auto simp: record_for_ino_def)

lemma listing_live_and_sorted_witness:
  "map fst (children_for_ino ROOT_INO sample_table) = [2, 3] \<and>
   sorted (map child_key (children_for_ino ROOT_INO sample_table))"
  by (rule conjI) (code_simp, rule listing_live_and_sorted[THEN conjunct1])

end
