(* ===== verification/Session.thy ===== *)
theory Session
  imports Recovery Inodes
begin

text \<open>
  crates/twodrive-fs/src/filesystem/{mod,reads}.rs and probes.rs: the state of one mounted file
  system (the inode table, the open handles, the upload queue) over the world, the lookups every
  handler starts with, and the read handles.  One dispatcher thread runs the handlers, so a
  handler is a function on this state.  A HashMap of handles is an association list.  An open
  handle holds a shared lock on its cache file; the lock is taken when the handle is made and
  given back when the last handle of the file is closed.  The progress display of an upload
  (ActivityGuard) is not part of the state.
\<close>

section \<open>The mounted file system\<close>

record read_handle =
  rh_open_attr :: file_attr
  rh_ino :: u64
  rh_cache_path :: string
  rh_guard :: "string option"
  rh_unlinked :: bool
  rh_deferred :: "file_record option"
  rh_generation :: int

record write_handle =
  wh_ino :: u64
  wh_path :: string
  wh_record_remote_id :: string
  wh_cache_path :: string
  wh_uploaded :: bool
  wh_changed :: bool
  wh_created_new_record :: bool
  wh_unlinked :: bool
  wh_base_etag :: "string option"

record 'c mount =
  fs_world :: "'c world"
  fs_cache_dir :: string
  fs_inodes :: inode_table
  fs_queue :: upload_queue
  fs_read_handles :: "(u64 \<times> read_handle) list"
  fs_write_handles :: "(u64 \<times> write_handle) list"
  fs_next_fh :: u64
  fs_directory_handles :: "(u64 \<times> (u64 \<times> file_type \<times> string) list) list"

abbreviation fs_db :: "'c mount \<Rightarrow> db" where
  "fs_db m \<equiv> w_db (fs_world m)"

abbreviation fs_disk :: "'c mount \<Rightarrow> disk" where
  "fs_disk m \<equiv> w_disk (fs_world m)"

section \<open>Handlers as actions\<close>

type_synonym ('e, 'c, 'a) fsact = "'c mount \<Rightarrow> ('e fault + 'a) \<times> 'c mount"

definition fs_return :: "'a \<Rightarrow> ('e, 'c, 'a) fsact" where
  "fs_return a m = (Inr a, m)"

definition fs_fail :: "'e fault \<Rightarrow> ('e, 'c, 'a) fsact" where
  "fs_fail e m = (Inl e, m)"

definition fs_bind :: "('e, 'c, 'a) fsact \<Rightarrow> ('a \<Rightarrow> ('e, 'c, 'b) fsact) \<Rightarrow> ('e, 'c, 'b) fsact" where
  "fs_bind f k m = (case f m of (Inl e, m') \<Rightarrow> (Inl e, m') | (Inr a, m') \<Rightarrow> k a m')"

definition fs_get :: "('c mount \<Rightarrow> 'a) \<Rightarrow> ('e, 'c, 'a) fsact" where
  "fs_get f m = (Inr (f m), m)"

definition fs_put :: "('c mount \<Rightarrow> 'c mount) \<Rightarrow> ('e, 'c, unit) fsact" where
  "fs_put f m = (Inr (), f m)"

text \<open>A step of the world (a database operation, a file operation, a backend call).\<close>

definition on_world :: "('e, 'c, 'a) act \<Rightarrow> ('e, 'c, 'a) fsact" where
  "on_world f m = (case f (fs_world m) of (r, w) \<Rightarrow> (r, m\<lparr>fs_world := w\<rparr>))"

text \<open>match action { Ok(..), Err(..) }\<close>

definition fs_try :: "('e, 'c, 'a) fsact \<Rightarrow> ('e, 'c, 'e fault + 'a) fsact" where
  "fs_try f m = (case f m of (r, m') \<Rightarrow> (Inr r, m'))"

definition fs_some :: "string \<Rightarrow> 'a option \<Rightarrow> ('e, 'c, 'a) fsact" where
  "fs_some msg x = (case x of None \<Rightarrow> fs_fail (Bail msg) | Some a \<Rightarrow> fs_return a)"

abbreviation on_inodes :: "(inode_table \<Rightarrow> inode_table) \<Rightarrow> 'c mount \<Rightarrow> 'c mount" where
  "on_inodes f m \<equiv> m\<lparr>fs_inodes := f (fs_inodes m)\<rparr>"

definition insert_inode :: "file_record \<Rightarrow> ('e, 'c, u64) fsact" where
  "insert_inode r m = (case insert_or_update r (fs_inodes m) of (i, t) \<Rightarrow> (Inr i, m\<lparr>fs_inodes := t\<rparr>))"

text \<open>UploadPool::enqueue and enqueue_delete; a send fails only when the workers are gone.\<close>

definition fs_send :: "upload_command \<Rightarrow> ('e, 'c, unit) fsact" where
  "fs_send c m =
     (case send c (fs_queue m) of
        (Inl _, q) \<Rightarrow> (Inl (Bail ''upload worker stopped''), m\<lparr>fs_queue := q\<rparr>)
      | (Inr _, q) \<Rightarrow> (Inr (), m\<lparr>fs_queue := q\<rparr>))"

named_theorems run_simps \<open>unfolding of handler actions\<close>

lemmas [run_simps] = fs_bind_def fs_return_def fs_fail_def fs_get_def fs_put_def on_world_def
  fs_some_def fs_try_def

section \<open>Opening the mount\<close>

text \<open>finish_pending_releases, its error handed on.\<close>

definition try_releases :: "('e, 'c, unit) act" where
  "try_releases w =
     (case finish_pending_releases (w_db w, w_disk w) of
        (Inl e, d, k) \<Rightarrow> (Inl (DbFault e), w\<lparr>w_db := d, w_disk := k\<rparr>)
      | (Inr _, d, k) \<Rightarrow> (Inr (), w\<lparr>w_db := d, w_disk := k\<rparr>))"

definition new_with_upload_concurrency :: "string \<Rightarrow> 'c world \<Rightarrow> ('e fault + 'c mount) \<times> 'c world" where
  "new_with_upload_concurrency cache_dir w =
     (case try_releases w of
        (Inl e, w') \<Rightarrow> (Inl e, w')
      | (Inr _, w') \<Rightarrow>
          (Inr \<lparr>fs_world = w', fs_cache_dir = cache_dir, fs_inodes = new_table (all_records (w_db w)),
                fs_queue = \<lparr>q_pending = [], q_channel = [], q_open = True\<rparr>, fs_read_handles = [],
                fs_write_handles = [], fs_next_fh = 1, fs_directory_handles = []\<rparr>, w'))"

section \<open>Records and attributes\<close>

text \<open>The current row of the inode's identity, not of its path.\<close>

definition live_record :: "u64 \<Rightarrow> 'c mount \<Rightarrow> file_record option" where
  "live_record ino m =
     (if ino = ROOT_INO then None
      else (case record_for_ino ino (fs_inodes m) of
              None \<Rightarrow> None
            | Some cached \<Rightarrow> get_by_remote_id (m_remote_id (metadata cached)) (fs_db m)))"

definition find_handle :: "('h \<Rightarrow> bool) \<Rightarrow> (u64 \<times> 'h) list \<Rightarrow> 'h option" where
  "find_handle p hs = map_option snd (List.find (\<lambda>(_, h). p h) hs)"

definition unlinked_file_attr :: "u64 \<Rightarrow> node option \<Rightarrow> u64 option \<Rightarrow> int \<Rightarrow> file_attr option" where
  "unlinked_file_attr ino n mtime now =
     (case n of
        None \<Rightarrow> None
      | Some Faulty \<Rightarrow> None
      | Some f \<Rightarrow>
          Some ((root_attr now)\<lparr>a_ino := ino, a_size := node_len f, a_blocks := div_ceil (node_len f) 512,
            a_kind := RegularType, a_perm := 420, a_nlink := 0,
            a_time := (case mtime of None \<Rightarrow> 0 | Some t \<Rightarrow> uint t)\<rparr>))"

text \<open>The attributes of a descriptor whose name is gone: those at the open, with the file's length.\<close>

definition unlinked_read_attr :: "disk \<Rightarrow> read_handle \<Rightarrow> file_attr" where
  "unlinked_read_attr k h =
     (let attr = (rh_open_attr h)\<lparr>a_nlink := 0\<rparr> in
      case rh_guard h of
        None \<Rightarrow> attr
      | Some path \<Rightarrow>
          (case k path of
             None \<Rightarrow> attr
           | Some Faulty \<Rightarrow> attr
           | Some n \<Rightarrow> attr\<lparr>a_size := node_len n, a_blocks := div_ceil (node_len n) 512\<rparr>))"

definition attr_for_ino :: "u64 \<Rightarrow> 'c mount \<Rightarrow> file_attr option" where
  "attr_for_ino ino m =
     (if ino = ROOT_INO then Some (root_attr (w_now (fs_world m)))
      else (case live_record ino m of
              Some rec \<Rightarrow>
                let rec = (if find_handle (\<lambda>h. wh_ino h = ino) (fs_write_handles m) \<noteq> None
                           then (case record_for_ino ino (fs_inodes m) of None \<Rightarrow> rec | Some r \<Rightarrow> r)
                           else rec)
                in Some (attr_for_record ino rec)
            | None \<Rightarrow>
                (case find_handle (\<lambda>h. rh_ino h = ino) (fs_read_handles m) of
                   Some h \<Rightarrow> Some (unlinked_read_attr (fs_disk m) h)
                 | None \<Rightarrow>
                     (case find_handle (\<lambda>h. wh_ino h = ino) (fs_write_handles m) of
                        None \<Rightarrow> None
                      | Some h \<Rightarrow> unlinked_file_attr ino (fs_disk m (wh_cache_path h))
                                   (w_mtime (fs_world m) (wh_cache_path h)) (w_now (fs_world m))))))"

definition refresh_child_records :: "string \<Rightarrow> 'c mount \<Rightarrow> 'c mount" where
  "refresh_child_records parent_path m =
     on_inodes (refresh_children parent_path (list_children parent_path (fs_db m))) m"

definition refresh_record :: "file_record \<Rightarrow> 'c mount \<Rightarrow> file_record" where
  "refresh_record r m =
     (case get_by_remote_id (m_remote_id (metadata r)) (fs_db m) of None \<Rightarrow> r | Some r' \<Rightarrow> r')"

definition live_refreshed :: "u64 \<Rightarrow> 'c mount \<Rightarrow> file_record option" where
  "live_refreshed ino m = map_option (\<lambda>r. refresh_record r m) (live_record ino m)"

text \<open>The set of running downloads excludes a second one; the dispatcher itself never has one open.\<close>

definition ensure_cached :: "('e, 'c) backend \<Rightarrow> file_record \<Rightarrow> ('e, 'c, string) fsact" where
  "ensure_cached be r m = on_world (hydrate_record be (fs_cache_dir m) r) m"

section \<open>Locks of open handles\<close>

definition lock_node :: "node \<Rightarrow> node" where
  "lock_node n = (case n of RegularFile len Free \<Rightarrow> RegularFile len Locked | _ \<Rightarrow> n)"

definition unlock_node :: "node \<Rightarrow> node" where
  "unlock_node n = (case n of RegularFile len Locked \<Rightarrow> RegularFile len Free | _ \<Rightarrow> n)"

definition guarded_path :: "string \<Rightarrow> 'c mount \<Rightarrow> bool" where
  "guarded_path path m =
     (list_ex (\<lambda>(_, h). rh_guard h = Some path) (fs_read_handles m) \<or>
      list_ex (\<lambda>(_, h). wh_cache_path h = path) (fs_write_handles m))"

abbreviation on_disk :: "(disk \<Rightarrow> disk) \<Rightarrow> 'c mount \<Rightarrow> 'c mount" where
  "on_disk f m \<equiv> m\<lparr>fs_world := (fs_world m)\<lparr>w_disk := f (w_disk (fs_world m))\<rparr>\<rparr>"

definition lock_shared :: "string \<Rightarrow> 'c mount \<Rightarrow> 'c mount" where
  "lock_shared path m = on_disk (\<lambda>k. k(path := map_option lock_node (k path))) m"

definition unlock_shared :: "string \<Rightarrow> 'c mount \<Rightarrow> 'c mount" where
  "unlock_shared path m =
     (if guarded_path path m then m else on_disk (\<lambda>k. k(path := map_option unlock_node (k path))) m)"

definition unlock_guard :: "string option \<Rightarrow> 'c mount \<Rightarrow> 'c mount" where
  "unlock_guard g m = (case g of None \<Rightarrow> m | Some path \<Rightarrow> unlock_shared path m)"

text \<open>File::open and lock_shared: the file must be there; the handle then holds the lock.\<close>

definition open_guard :: "string \<Rightarrow> ('e, 'c, unit) fsact" where
  "open_guard path =
     fs_bind (on_world (open_shared path)) (\<lambda>found.
       if found then fs_put (lock_shared path) else fs_fail IoFault)"

section \<open>Read handles\<close>

definition add_read_handle :: "read_handle \<Rightarrow> ('e, 'c, u64) fsact" where
  "add_read_handle h m =
     (Inr (fs_next_fh m), m\<lparr>fs_next_fh := fs_next_fh m + 1,
        fs_read_handles := AList.update (fs_next_fh m) h (fs_read_handles m)\<rparr>)"

definition open_read_handle :: "u64 \<Rightarrow> string \<Rightarrow> ('e, 'c, u64) fsact" where
  "open_read_handle ino cache_path =
     fs_bind (fs_get (attr_for_ino ino)) (\<lambda>found.
     fs_bind (fs_some ''read inode does not exist'' found) (\<lambda>open_attr.
     fs_bind (open_guard cache_path) (\<lambda>_.
       add_read_handle \<lparr>rh_open_attr = open_attr, rh_ino = ino, rh_cache_path = cache_path,
         rh_guard = Some cache_path, rh_unlinked = False, rh_deferred = None, rh_generation = 0\<rparr>)))"

text \<open>read_at and read_slice: the number of bytes a read of a file returns.\<close>

definition bytes_at :: "node \<Rightarrow> u64 \<Rightarrow> u32 \<Rightarrow> u64" where
  "bytes_at n offset sz = (if node_len n \<le> offset then 0 else min (node_len n - offset) (ucast sz))"

definition read_bytes :: "string \<Rightarrow> u64 \<Rightarrow> u32 \<Rightarrow> ('e, 'c, u64) fsact" where
  "read_bytes path offset sz m =
     (case fs_disk m path of
        Some (RegularFile len a) \<Rightarrow>
          if a = OpenFails then (Inl IoFault, m) else (Inr (bytes_at (RegularFile len a) offset sz), m)
      | _ \<Rightarrow> (Inl IoFault, m))"

definition read_open_handle :: "u64 \<Rightarrow> u64 \<Rightarrow> u32 \<Rightarrow> ('e, 'c, u64) fsact" where
  "read_open_handle fh offset sz m =
     (case map_of (fs_read_handles m) fh of
        Some h \<Rightarrow>
          (case rh_guard h of
             None \<Rightarrow> (Inl (Bail ''read is still deferred''), m)
           | Some path \<Rightarrow> read_bytes path offset sz m)
      | None \<Rightarrow>
          (case map_of (fs_write_handles m) fh of
             None \<Rightarrow> (Inl (Bail ''open file handle does not exist''), m)
           | Some h \<Rightarrow> read_bytes (wh_cache_path h) offset sz m))"

text \<open>Opening a file and sync_all or sync_data: it succeeds when the file can be opened.\<close>

definition sync_file :: "string \<Rightarrow> ('e, 'c, unit) fsact" where
  "sync_file path m =
     (case fs_disk m path of
        Some (RegularFile _ a) \<Rightarrow> if a = OpenFails then (Inl IoFault, m) else (Inr (), m)
      | _ \<Rightarrow> (Inl IoFault, m))"

definition sync_read_handle :: "u64 \<Rightarrow> ('e, 'c, unit) fsact" where
  "sync_read_handle fh m =
     (case map_of (fs_read_handles m) fh of
        None \<Rightarrow> (Inl (Bail ''read handle does not exist''), m)
      | Some h \<Rightarrow> if rh_deferred h \<noteq> None then (Inr (), m) else sync_file (rh_cache_path h) m)"

definition remove_cache_act :: "string \<Rightarrow> ('e, 'c, unit) act" where
  "remove_cache_act path w =
     (case remove_unreferenced_cache path (w_db w, w_disk w) of
        (Inl e, d, k) \<Rightarrow> (Inl (DbFault e), w\<lparr>w_db := d, w_disk := k\<rparr>)
      | (Inr _, d, k) \<Rightarrow> (Inr (), w\<lparr>w_db := d, w_disk := k\<rparr>))"

definition still_open :: "string \<Rightarrow> 'c mount \<Rightarrow> bool" where
  "still_open path m =
     (list_ex (\<lambda>(_, h). rh_cache_path h = path) (fs_read_handles m) \<or>
      list_ex (\<lambda>(_, h). wh_cache_path h = path) (fs_write_handles m))"

definition cleanup_unlinked_cache :: "string \<Rightarrow> ('e, 'c, unit) fsact" where
  "cleanup_unlinked_cache path =
     fs_bind (fs_get (\<lambda>m. List.find (\<lambda>p. d_cache_path p = Some path \<or> d_upload_cache_path p = Some path)
               (pending_deletes (fs_db m)))) (\<lambda>waiting.
     fs_bind (fs_get (still_open path)) (\<lambda>still_open.
     case waiting of
       Some p \<Rightarrow> fs_send (Delete (d_remote_id p))
     | None \<Rightarrow> if still_open then fs_return () else on_world (remove_cache_act path)))"

definition release_read_handle :: "u64 \<Rightarrow> ('e, 'c, unit) fsact" where
  "release_read_handle fh m =
     (case map_of (fs_read_handles m) fh of
        None \<Rightarrow> (Inr (), m)
      | Some h \<Rightarrow>
          fs_bind (fs_put (\<lambda>m. unlock_guard (rh_guard h)
              (m\<lparr>fs_read_handles := AList.delete fh (fs_read_handles m)\<rparr>))) (\<lambda>_.
          fs_bind (if rh_unlinked h then cleanup_unlinked_cache (rh_cache_path h) else fs_return ()) (\<lambda>_.
            on_world try_releases)) m)"

section \<open>Readers that must not start a download\<close>

record request =
  rq_process_text :: string
  rq_executable_name :: "string option"

definition contains :: "string \<Rightarrow> string \<Rightarrow> bool" where
  "contains s t = list_ex (\<lambda>i. take (length t) (drop i s) = t) [0..<Suc (length s)]"

definition indexer_hints :: "string list" where
  "indexer_hints =
     [''thumbnail'', ''thumbnailer'', ''tracker-extract'', ''tracker-miner'', ''tracker3'',
      ''localsearch'', ''evince-thumbnailer'', ''ffmpegthumbnailer'', ''totem-video-thumbnailer'',
      ''gdk-pixbuf-thumbnailer'', ''gnome-epub-thumbnailer'']"

definition is_thumbnail_or_indexer_request :: "request \<Rightarrow> bool" where
  "is_thumbnail_or_indexer_request req =
     (let process = map rust_lower (rq_process_text req) in
      process \<noteq> [] \<and>
      (list_ex (contains process) indexer_hints \<or>
       (contains process ''soffice'' \<or> contains process ''libreoffice'') \<and>
       (contains process ''--headless'' \<or> contains process ''--convert-to'' \<or>
        contains process ''thumbnail'')))"

definition should_defer_hydration :: "disk \<Rightarrow> request \<Rightarrow> file_record \<Rightarrow> bool" where
  "should_defer_hydration k req r = (\<not> has_existing_cache k r \<and> is_thumbnail_or_indexer_request req)"

text \<open>O_ACCMODE = 3, O_EXCL = 0o200, O_TRUNC = 0o1000, O_NOATIME = 0o1000000.\<close>

definition has_flag :: "u32 \<Rightarrow> u32 \<Rightarrow> bool" where
  "has_flag flags b = (and flags b \<noteq> 0)"

definition O_EXCL :: u32 where "O_EXCL = 128"
definition O_TRUNC :: u32 where "O_TRUNC = 512"
definition O_NOATIME :: u32 where "O_NOATIME = 262144"

definition read_only :: "u32 \<Rightarrow> bool" where
  "read_only flags = (and flags 3 = 0)"

definition is_gio_probe_open :: "u32 \<Rightarrow> string \<Rightarrow> bool" where
  "is_gio_probe_open flags executable =
     (read_only flags \<and> has_flag flags O_NOATIME \<and> executable \<in> {''gio'', ''nautilus''})"

definition is_gio_metadata_probe :: "request \<Rightarrow> u32 \<Rightarrow> bool" where
  "is_gio_metadata_probe req flags =
     (if \<not> has_flag flags O_NOATIME then False
      else (case rq_executable_name req of None \<Rightarrow> False | Some n \<Rightarrow> is_gio_probe_open flags n))"

section \<open>Requests and releases\<close>

lemma send_effect:
  assumes "q_open q" "command_key c = Some k"
  shows "\<exists>q'. send c q = (Inr (), q') \<and> map_of (q_pending q') k \<noteq> None \<and> q_open q'"
  using assms by (auto simp: send_def update_conv')

lemma finish_releases_spares:
  assumes wf: "wf_db d" and r: "file_by_id i d = Some r" "f_state r \<noteq> Cached"
    and run: "finish_pending_releases (d, k) = (res, d', k')"
  shows "file_by_id i d' = Some r" "f_cache_path r = Some p \<Longrightarrow> k' p = k p" "wf_db d'"
proof -
  have safe: "reclaim_safe (d, k) (snd (finish_pending_releases (d, k)))"
    unfolding finish_pending_releases_def by (rule reclaim_pending.all_safe) (simp add: wf)
  have wf': "wf_db (fst (snd (finish_pending_releases (d, k))))"
    unfolding finish_pending_releases_def by (rule reclaim_pending.all_wf) (simp add: wf)
  note safe = safe[unfolded run snd_conv] and wf' = wf'[unfolded run fst_conv snd_conv]
  show row: "file_by_id i d' = Some r" by (rule reclaim_safe_row[OF safe wf' r])
  show "wf_db d'" by (rule wf')
  show "k' p = k p" if "f_cache_path r = Some p"
  proof -
    have "cache_referenced p d'"
      using file_by_id_SomeD[OF row] that by (auto simp: cache_referenced_def table_simps)
    with safe show ?thesis by simp
  qed
qed

section \<open>Open files and reclamation\<close>

text \<open>A file with a lock survives every reclaiming operation, at its length.\<close>

abbreviation locked_at :: "string \<Rightarrow> u64 \<Rightarrow> db \<times> disk \<Rightarrow> bool" where
  "locked_at p len s \<equiv> snd s p = Some (RegularFile len Locked)"

lemma locked_release: "locked_at p len s \<Longrightarrow> locked_at p len (snd (release_cached_record cutoff i s))"
  by (auto simp: release_cached_record_def open_and_lock_def split: prod.split option.split node.split access.split)

lemma locked_remove: "locked_at p len s \<Longrightarrow> locked_at p len (snd (remove_unreferenced_cache q s))"
  by (auto simp: remove_unreferenced_cache_def open_and_lock_def
      split: prod.split option.split node.split access.split)

lemma locked_record: "locked_at p len s \<Longrightarrow> locked_at p len (snd (release_record r s))"
  by (simp add: release_record_def locked_release)

lemma locked_reclaimed:
  assumes "locked_at p len (d, k)"
  shows "locked_at p len (snd (prune_cache now older (d, k)))"
    "locked_at p len (snd (prune_retired_cache dir (d, k)))"
    "locked_at p len (snd (finish_pending_releases (d, k)))"
    "locked_at p len (snd (release_path path (d, k)))"
proof -
  show "locked_at p len (snd (prune_cache now older (d, k)))"
    unfolding prune_cache_def Let_def prod.case
    by (rule reclaim_all_inv[where Q = "locked_at p len"]) (use assms in \<open>auto intro: locked_release\<close>)
  show "locked_at p len (snd (prune_retired_cache dir (d, k)))"
    unfolding prune_retired_cache_def prod.case
    by (rule reclaim_all_inv[where Q = "locked_at p len"]) (use assms in \<open>auto intro: locked_remove\<close>)
  show "locked_at p len (snd (finish_pending_releases (d, k)))"
    unfolding finish_pending_releases_def
    by (rule reclaim_all_inv[where Q = "locked_at p len"])
      (use assms in \<open>auto intro: locked_record split: option.split\<close>)
  have "locked_at p len (snd (reclaim_all release_record rs n (d', k)))" for rs n d'
    by (rule reclaim_all_inv[where Q = "locked_at p len"]) (use assms in \<open>auto intro: locked_record\<close>)
  then show "locked_at p len (snd (release_path path (d, k)))"
    using assms release_path_unfold[of path d _ k] by (cases "get_by_path path d") (auto simp: release_path_def)
qed

lemma open_read_handle_locks:
  assumes "open_read_handle ino p m = (Inr fh, m')" "fs_disk m p = Some (RegularFile len Free)"
  shows "fs_disk m' p = Some (RegularFile len Locked)"
  using assms
  by (auto simp: open_read_handle_def fs_bind_def fs_get_def fs_some_def fs_fail_def fs_return_def open_guard_def
      on_world_def open_shared_def fs_put_def lock_shared_def lock_node_def add_read_handle_def
      split: option.splits)

text \<open>A small mount: the sample database, its numbers, and a handle that writes the local file.\<close>

definition sample_writer :: write_handle where
  "sample_writer = \<lparr>wh_ino = 5, wh_path = ''/D/t'', wh_record_remote_id = ''l1'', wh_cache_path = ''/c/l1'',
     wh_uploaded = False, wh_changed = True, wh_created_new_record = True, wh_unlinked = False,
     wh_base_etag = None\<rparr>"

abbreviation sample_record :: "string \<Rightarrow> string option \<Rightarrow> string \<Rightarrow> string option \<Rightarrow> file_state \<Rightarrow> file_record" where
  "sample_record i c p cache st \<equiv> row_to_record (sample_row i c p cache st)"

definition sample_inodes :: inode_table where
  "sample_inodes =
     (let a = sample_record ''f1'' (Some ''f1'') ''/D/a'' (Some ''/c/f1'') Dirty;
          b = sample_record ''f2'' (Some ''f2'') ''/D/b'' (Some ''/c/f2'') Cached;
          t = sample_record ''l1'' None ''/D/t'' (Some ''/c/l1'') Dirty;
          dir = row_to_record ((sample_row ''d1'' (Some ''d1'') ''/D'' None Cached)\<lparr>f_is_dir := True\<rparr>) in
      \<lparr>next_ino = 6, path_by_ino = [(1, ''/''), (2, ''/D''), (3, ''/D/a''), (4, ''/D/b''), (5, ''/D/t'')],
       ino_by_path = [(''/'', 1), (''/D'', 2), (''/D/a'', 3), (''/D/b'', 4), (''/D/t'', 5)],
       record_by_ino = [(2, dir), (3, a), (4, b), (5, t)],
       children_by_parent_ino = [(1, [(2, dir)]), (2, [(3, a), (4, b), (5, t)])]\<rparr>)"

definition sample_mount :: "unit mount" where
  "sample_mount =
     \<lparr>fs_world = sample_world\<lparr>w_disk := [''/c'' \<mapsto> Directory 0, ''/c/f2'' \<mapsto> RegularFile 3 Free,
        ''/c/l1'' \<mapsto> RegularFile 9 Locked]\<rparr>,
      fs_cache_dir = ''/c'', fs_inodes = sample_inodes,
      fs_queue = \<lparr>q_pending = [], q_channel = [], q_open = True\<rparr>, fs_read_handles = [],
      fs_write_handles = [(7, sample_writer)], fs_next_fh = 8, fs_directory_handles = []\<rparr>"




end
