(* ===== verification/HandleWrites.thy ===== *)
theory HandleWrites
  imports Session
begin

text \<open>
  crates/twodrive-fs/src/filesystem/writes.rs: handles that write.  Creating or opening a file
  makes a handle on its cache file; the first write claims the row against the version the handle
  was opened on; closing the handle makes the edit durable (file synced, row dirty with the
  length of the file) and asks for an upload.
\<close>

section \<open>File operations\<close>

text \<open>OpenOptions create_new, create, and set_len of an open file.\<close>

definition create_new_file :: "string \<Rightarrow> ('e, 'c, unit) act" where
  "create_new_file path w =
     (case w_disk w path of
        None \<Rightarrow> (Inr (), w\<lparr>w_disk := (w_disk w)(path \<mapsto> RegularFile 0 Free)\<rparr>)
      | Some _ \<Rightarrow> (Inl IoFault, w))"

definition open_or_create :: "string \<Rightarrow> ('e, 'c, unit) act" where
  "open_or_create path w =
     (case w_disk w path of
        None \<Rightarrow> (Inr (), w\<lparr>w_disk := (w_disk w)(path \<mapsto> RegularFile 0 Free)\<rparr>)
      | Some (RegularFile _ a) \<Rightarrow> if a = OpenFails then (Inl IoFault, w) else (Inr (), w)
      | Some _ \<Rightarrow> (Inl IoFault, w))"

definition set_len :: "string \<Rightarrow> u64 \<Rightarrow> ('e, 'c, unit) act" where
  "set_len path n w =
     (case w_disk w path of
        Some (RegularFile _ a) \<Rightarrow>
          if a = OpenFails then (Inl IoFault, w)
          else (Inr (), w\<lparr>w_disk := (w_disk w)(path \<mapsto> RegularFile n a)\<rparr>)
      | _ \<Rightarrow> (Inl IoFault, w))"

text \<open>write_slice of cache_io.rs: the file grows to the end of the written slice.\<close>

definition write_slice :: "string \<Rightarrow> u64 \<Rightarrow> u64 \<Rightarrow> ('e, 'c, unit) act" where
  "write_slice path offset count w =
     (case w_disk w path of
        Some (RegularFile len a) \<Rightarrow>
          if a = OpenFails then (Inl IoFault, w)
          else (Inr (), w\<lparr>w_disk := (w_disk w)(path \<mapsto>
                  RegularFile (if count = 0 then len else max len (offset + count)) a)\<rparr>)
      | _ \<Rightarrow> (Inl IoFault, w))"

text \<open>An early return drops the open file and with it the lock.\<close>

definition or_unlock :: "string \<Rightarrow> ('e, 'c, 'a) fsact \<Rightarrow> ('e, 'c, 'a) fsact" where
  "or_unlock path f m =
     (case f m of (Inr a, m') \<Rightarrow> (Inr a, m') | (Inl e, m') \<Rightarrow> (Inl e, unlock_shared path m'))"

section \<open>New handles\<close>

definition add_write_handle :: "write_handle \<Rightarrow> ('e, 'c, u64) fsact" where
  "add_write_handle h m =
     (Inr (fs_next_fh m), m\<lparr>fs_next_fh := fs_next_fh m + 1,
        fs_write_handles := AList.update (fs_next_fh m) h (fs_write_handles m)\<rparr>)"

definition cache_file_of :: "string \<Rightarrow> string \<Rightarrow> string" where
  "cache_file_of cache_dir remote_id = cache_dir @ ''/'' @ sanitize_cache_name remote_id"

text \<open>A failed insert is rolled back: the row, then the file.\<close>

definition roll_back_create :: "string \<Rightarrow> string \<Rightarrow> ('e, 'c, unit) act" where
  "roll_back_create remote_id cache_path =
     act_bind (attempt (db_try (remove_by_remote_id remote_id))) (\<lambda>_. discard_file cache_path)"

definition create_new_upload ::
    "string \<Rightarrow> string \<Rightarrow> u32 \<Rightarrow> ('e, 'c, u64 \<times> u64 \<times> file_attr) fsact" where
  "create_new_upload uniq path mode m =
     (let temporary_remote_id = ''local-upload-'' @ uniq;
          cache_path = cache_file_of (fs_cache_dir m) temporary_remote_id in
      fs_bind (on_world (make_dirs (fs_cache_dir m))) (\<lambda>_.
      fs_bind (on_world (create_new_file cache_path)) (\<lambda>_.
      fs_bind (open_guard cache_path) (\<lambda>_.
      or_unlock cache_path
        (fs_bind (fs_try (on_world (at_now (\<lambda>now.
            db_try (create_local_file_with_mode now temporary_remote_id path cache_path mode))))) (\<lambda>created.
         case created of
           Inl err \<Rightarrow>
             fs_bind (on_world (roll_back_create temporary_remote_id cache_path)) (\<lambda>_. fs_fail err)
         | Inr r \<Rightarrow>
             fs_bind (insert_inode r) (\<lambda>ino.
             fs_bind (add_write_handle \<lparr>wh_ino = ino, wh_path = path,
                 wh_record_remote_id = temporary_remote_id, wh_cache_path = cache_path,
                 wh_uploaded = False, wh_changed = True, wh_created_new_record = True,
                 wh_unlinked = False, wh_base_etag = None\<rparr>) (\<lambda>fh.
               fs_return (ino, fh, attr_for_record ino r)))))))) m)"

definition create_overwrite_upload ::
    "('e, 'c) backend \<Rightarrow> file_record \<Rightarrow> bool \<Rightarrow> ('e, 'c, u64 \<times> u64 \<times> file_attr) fsact" where
  "create_overwrite_upload be r trunc =
     (let remote_id = m_remote_id (metadata r) in
      if m_is_dir (metadata r) then fs_fail (Bail ''cannot overwrite a directory as a file'')
      else
        fs_bind (fs_get (\<lambda>m. ino_for_path (m_path (metadata r)) (fs_inodes m))) (\<lambda>found.
        fs_bind (fs_some ''existing inode disappeared'' found) (\<lambda>ino.
        fs_bind (fs_get fs_cache_dir) (\<lambda>dir.
        fs_bind (on_world (make_dirs dir)) (\<lambda>_.
        fs_bind (if trunc
                 then fs_return (case r_cache_path r of Some p \<Rightarrow> p | None \<Rightarrow> cache_file_of dir remote_id)
                 else ensure_cached be r) (\<lambda>cache_path.
        fs_bind (on_world (open_or_create cache_path)) (\<lambda>_.
        fs_bind (open_guard cache_path) (\<lambda>_.
        or_unlock cache_path
          (fs_bind (fs_get (\<lambda>m. path_exists (fs_disk m) cache_path)) (\<lambda>there.
           if \<not> there then fs_fail (Bail ''cache was released while opening; retry the save'')
           else
           fs_bind (if trunc then on_world (set_len cache_path 0) else fs_return ()) (\<lambda>_.
           fs_bind (if trunc
                    then on_world (at_now (\<lambda>now. db_do (\<lambda>d.
                           mark_state remote_id Writing (mark_cached now remote_id cache_path d))))
                    else fs_return ()) (\<lambda>_.
           fs_bind (fs_get (\<lambda>m. get_by_remote_id remote_id (fs_db m))) (\<lambda>current.
           fs_bind (fs_some ''overwrite record disappeared'' current) (\<lambda>updated.
           fs_bind (fs_put (on_inodes (replace_ino_record ino updated))) (\<lambda>_.
           fs_bind (add_write_handle \<lparr>wh_ino = ino, wh_path = m_path (metadata r),
               wh_record_remote_id = remote_id, wh_cache_path = cache_path, wh_uploaded = False,
               wh_changed = trunc, wh_created_new_record = False, wh_unlinked = False,
               wh_base_etag = record_upload_etag r\<rparr>) (\<lambda>fh.
             fs_return (ino, fh, attr_for_record ino updated)))))))))))))))))"

definition create_upload_with_mode ::
    "('e, 'c) backend \<Rightarrow> string \<Rightarrow> u64 \<Rightarrow> string option \<Rightarrow> u32 \<Rightarrow> u32 \<Rightarrow>
     ('e, 'c, u64 \<times> u64 \<times> file_attr) fsact" where
  "create_upload_with_mode be uniq parent name flags mode =
     fs_bind (fs_get (\<lambda>m. path_for_ino parent (fs_inodes m))) (\<lambda>found.
     fs_bind (fs_some ''parent inode does not exist'' found) (\<lambda>parent_path.
     fs_bind (fs_get (live_record parent)) (\<lambda>parent_record.
     if (case parent_record of None \<Rightarrow> False | Some r \<Rightarrow> \<not> m_is_dir (metadata r))
     then fs_fail (Bail ''parent is not a directory'')
     else
     fs_bind (fs_some ''file name is not valid UTF-8'' name) (\<lambda>name.
     if name = [] \<or> CHR ''/'' \<in> set name then fs_fail (Bail ''invalid file name'')
     else
       let path = join_cloud_path parent_path name in
       fs_bind (fs_get (\<lambda>m. get_by_path path (fs_db m))) (\<lambda>existing.
       case existing of
         Some r \<Rightarrow>
           if has_flag flags O_EXCL then fs_fail (Bail ''path already exists'')
           else create_overwrite_upload be r (has_flag flags O_TRUNC)
       | None \<Rightarrow> create_new_upload uniq path mode)))))"

section \<open>Writing and closing\<close>

definition set_write_handle :: "u64 \<Rightarrow> (write_handle \<Rightarrow> write_handle) \<Rightarrow> 'c mount \<Rightarrow> 'c mount" where
  "set_write_handle fh f m =
     (case map_of (fs_write_handles m) fh of
        None \<Rightarrow> m
      | Some h \<Rightarrow> m\<lparr>fs_write_handles := AList.update fh (f h) (fs_write_handles m)\<rparr>)"

definition begin_handle_write :: "u64 \<Rightarrow> ('e, 'c, unit) fsact" where
  "begin_handle_write fh =
     fs_bind (fs_get (\<lambda>m. map_of (fs_write_handles m) fh)) (\<lambda>found.
     fs_bind (fs_some ''write handle does not exist'' found) (\<lambda>h.
     if wh_changed h \<or> wh_unlinked h then fs_return ()
     else
       fs_bind (fs_get (\<lambda>m. get_by_remote_id (wh_record_remote_id h) (fs_db m))) (\<lambda>current.
       fs_bind (fs_some ''write target disappeared'' current) (\<lambda>r.
       if r_cache_path r \<noteq> Some (wh_cache_path h) \<or> record_upload_etag r \<noteq> wh_base_etag h
       then fs_fail (Bail ''write target changed since open; reopen before writing'')
       else
         fs_bind (on_world (db_ask (begin_cached_write r))) (\<lambda>begun.
         if \<not> begun
         then fs_fail (Bail ''write target changed while claiming its baseline; reopen before writing'')
         else fs_put (set_write_handle fh (\<lambda>h. h\<lparr>wh_changed := True\<rparr>)))))))"

definition file_len :: "string \<Rightarrow> ('e, 'c, u64) fsact" where
  "file_len path m =
     (case fs_disk m path of
        None \<Rightarrow> (Inl IoFault, m) | Some Faulty \<Rightarrow> (Inl IoFault, m) | Some n \<Rightarrow> (Inr (node_len n), m))"

definition queue_upload_handle :: "u64 \<Rightarrow> ('e, 'c, unit) fsact" where
  "queue_upload_handle fh =
     fs_bind (fs_get (\<lambda>m. map_of (fs_write_handles m) fh)) (\<lambda>found.
     case found of
       None \<Rightarrow> fs_return ()
     | Some h \<Rightarrow>
         if wh_uploaded h then fs_return ()
         else if \<not> wh_changed h then fs_return ()
         else if wh_unlinked h then fs_put (set_write_handle fh (\<lambda>h. h\<lparr>wh_uploaded := True\<rparr>))
         else
           fs_bind (sync_file (wh_cache_path h)) (\<lambda>_.
           fs_bind (file_len (wh_cache_path h)) (\<lambda>len.
           fs_bind (on_world (at_now (\<lambda>now.
               db_try (mark_dirty_with_size now (wh_record_remote_id h) len)))) (\<lambda>_.
           fs_bind (fs_get (\<lambda>m. get_by_remote_id (wh_record_remote_id h) (fs_db m))) (\<lambda>current.
           fs_bind (fs_some ''closed upload record disappeared'' current) (\<lambda>r.
           fs_bind (fs_put (on_inodes (replace_ino_record (wh_ino h) r))) (\<lambda>_.
           fs_bind (fs_send (Upload (wh_record_remote_id h))) (\<lambda>_.
             fs_put (set_write_handle fh (\<lambda>h. h\<lparr>wh_uploaded := True\<rparr>))))))))))"

definition sync_handle :: "u64 \<Rightarrow> ('e, 'c, unit) fsact" where
  "sync_handle fh =
     fs_bind (fs_get (\<lambda>m. map_of (fs_write_handles m) fh)) (\<lambda>found.
     fs_bind (fs_some ''write handle does not exist'' found) (\<lambda>h. sync_file (wh_cache_path h)))"

definition sync_cached_record :: "u64 \<Rightarrow> ('e, 'c, unit) fsact" where
  "sync_cached_record ino =
     fs_bind (fs_get (live_refreshed ino)) (\<lambda>found.
     fs_bind (fs_some ''file record does not exist'' found) (\<lambda>r.
     fs_bind (fs_some ''file has no local cache to sync'' (r_cache_path r)) sync_file))"

definition truncate_without_handle :: "('e, 'c) backend \<Rightarrow> u64 \<Rightarrow> u64 \<Rightarrow> ('e, 'c, unit) fsact" where
  "truncate_without_handle be ino len =
     fs_bind (fs_get (live_refreshed ino)) (\<lambda>found.
     fs_bind (fs_some ''truncate record does not exist'' found) (\<lambda>r.
     let remote_id = m_remote_id (metadata r) in
     if m_is_dir (metadata r) then fs_fail (Bail ''cannot truncate a directory'')
     else
       fs_bind (fs_get fs_cache_dir) (\<lambda>dir.
       fs_bind (on_world (make_dirs dir)) (\<lambda>_.
       fs_bind (if len = 0
                then fs_return (case r_cache_path r of Some p \<Rightarrow> p | None \<Rightarrow> cache_file_of dir remote_id)
                else ensure_cached be r) (\<lambda>cache_path.
       fs_bind (on_world (open_or_create cache_path)) (\<lambda>_.
       fs_bind (on_world (set_len cache_path len)) (\<lambda>_.
       fs_bind (on_world (at_now (\<lambda>now. db_do (mark_cached now remote_id cache_path)))) (\<lambda>_.
       fs_bind (on_world (at_now (\<lambda>now. db_try (mark_dirty_with_size now remote_id len)))) (\<lambda>_.
       fs_bind (fs_put (on_inodes (replace_size ino len))) (\<lambda>_.
         fs_send (Upload remote_id)))))))))))"

section \<open>Effects\<close>

abbreviation edited_row :: "u64 \<Rightarrow> 'c mount \<Rightarrow> file_row \<Rightarrow> file_row" where
  "edited_row len m r \<equiv> r\<lparr>f_state := Dirty, f_size := clamp_size len, f_modified_unix := w_now (fs_world m)\<rparr>"

lemma queue_upload_handle_effect:
  assumes h: "map_of (fs_write_handles m) fh = Some h" "\<not> wh_uploaded h" "wh_changed h" "\<not> wh_unlinked h"
    and bytes: "fs_disk m (wh_cache_path h) = Some (RegularFile len a)" "a \<noteq> OpenFails"
    and row: "file_by_id (wh_record_remote_id h) (fs_db m) = Some r"
    and q: "send (Upload (wh_record_remote_id h)) (fs_queue m) = (Inr (), q)"
  shows "queue_upload_handle fh m = (Inr (),
    m\<lparr>fs_world := (fs_world m)\<lparr>w_db := touch_files (at_id (wh_record_remote_id h)) (edited_row len m) (fs_db m)\<rparr>,
      fs_inodes := replace_ino_record (wh_ino h) (row_to_record (edited_row len m r)) (fs_inodes m), fs_queue := q,
      fs_write_handles := AList.update fh (h\<lparr>wh_uploaded := True\<rparr>) (fs_write_handles m)\<rparr>)"
proof -
  have n: "sql_count (at_id (wh_record_remote_id h)) (t_files (fs_db m)) \<noteq> 0"
    using file_by_id_SomeD[OF row] by (auto simp: sql_count_0 at_id_def)
  have at: "at_id (wh_record_remote_id h) r" using file_by_id_SomeD[OF row] by (simp add: at_id_def)
  show ?thesis
    using h bytes row n q at
    by (simp add: queue_upload_handle_def run_simps sync_file_def file_len_def at_now_def db_try_def
        mark_dirty_with_size_def get_by_remote_id_def file_by_id_touch node_len_def fs_send_def
        set_write_handle_def)
qed

lemma begin_handle_write_unfold:
  assumes h: "map_of (fs_write_handles m) fh = Some h" "\<not> wh_changed h" "\<not> wh_unlinked h"
  shows "begin_handle_write fh m =
    (case file_by_id (wh_record_remote_id h) (fs_db m) of
       None \<Rightarrow> (Inl (Bail ''write target disappeared''), m)
     | Some r \<Rightarrow>
         if f_cache_path r \<noteq> Some (wh_cache_path h) \<or> record_upload_etag (row_to_record r) \<noteq> wh_base_etag h
         then (Inl (Bail ''write target changed since open; reopen before writing''), m)
         else
           (case begin_cached_write (row_to_record r) (fs_db m) of
              (True, d) \<Rightarrow> (Inr (), set_write_handle fh (\<lambda>h. h\<lparr>wh_changed := True\<rparr>)
                                       (m\<lparr>fs_world := (fs_world m)\<lparr>w_db := d\<rparr>\<rparr>))
            | (False, d) \<Rightarrow> (Inl (Bail ''write target changed while claiming its baseline; reopen before writing''),
                m\<lparr>fs_world := (fs_world m)\<lparr>w_db := d\<rparr>\<rparr>)))"
  using h by (simp add: begin_handle_write_def run_simps get_by_remote_id_def db_ask_def
      split: option.splits prod.splits bool.splits)

section \<open>Properties\<close>

text \<open>The first write through a handle claims the row against the version the handle was
  opened on: it succeeds only when the row still has the handle's cache file and that version, and
  then the row is being written; a refusal changes nothing.\<close>

lemma write_claims_its_baseline:
  fixes res :: "'e fault + unit"
  assumes wf: "wf_db (fs_db m)" and h: "map_of (fs_write_handles m) fh = Some h" "\<not> wh_changed h" "\<not> wh_unlinked h"
    and run: "begin_handle_write fh m = (res, m')"
  shows "if res = Inr ()
    then \<exists>r. file_by_id (wh_record_remote_id h) (fs_db m) = Some r \<and> f_cache_path r = Some (wh_cache_path h) \<and>
      record_upload_etag (row_to_record r) = wh_base_etag h \<and>
      file_by_id (wh_record_remote_id h) (fs_db m') = Some (r\<lparr>f_state := Writing\<rparr>) \<and>
      map_of (fs_write_handles m') fh = Some (h\<lparr>wh_changed := True\<rparr>)
    else m' = m"
proof (cases "file_by_id (wh_record_remote_id h) (fs_db m)")
  case None
  with run show ?thesis by (auto simp: begin_handle_write_unfold[OF h])
next
  case (Some r)
  let ?rec = "row_to_record r"
  have id: "f_remote_id r = wh_record_remote_id h" using file_by_id_SomeD[OF Some] by simp
  obtain ok d where c: "begin_cached_write ?rec (fs_db m) = (ok, d)" by (cases "begin_cached_write ?rec (fs_db m)")
  have refused: "d = fs_db m" if "\<not> ok"
    using cached_write.claim_refused[OF wf, of ?rec] c that by simp
  have granted: "file_by_id (wh_record_remote_id h) d = Some (r\<lparr>f_state := Writing\<rparr>)" if "ok"
  proof -
    from that cached_write.claim_granted[OF wf, of ?rec] c obtain q where
      "q \<in> set (t_files (fs_db m))" "f_remote_id q = f_remote_id r"
      "sql_first (\<lambda>x. f_remote_id x = f_remote_id r) (t_files d) = Some (q\<lparr>f_state := Writing\<rparr>)"
      by auto
    moreover from this have "q = r" using file_by_id_unique[OF wf Some] id by simp
    ultimately show ?thesis by (simp add: file_by_id_def id)
  qed
  from run Some c granted refused h show ?thesis
    by (cases ok) (auto simp: begin_handle_write_unfold[OF h] set_write_handle_def split: if_splits)
qed

lemma write_claims_its_baseline_witness:
  "let m = sample_mount\<lparr>fs_write_handles := [(7, sample_writer\<lparr>wh_changed := False\<rparr>)]\<rparr> in
   (if fst ((begin_handle_write 7 :: (unit, unit, unit) fsact) m) = Inr ()
    then map_option f_state (file_by_id ''l1'' (fs_db (snd ((begin_handle_write 7 :: (unit, unit, unit) fsact) m)))) = Some Writing
    else snd ((begin_handle_write 7 :: (unit, unit, unit) fsact) m) = m)"
proof -
  let ?m = "sample_mount\<lparr>fs_write_handles := [(7, sample_writer\<lparr>wh_changed := False\<rparr>)]\<rparr>"
  let ?h = "sample_writer\<lparr>wh_changed := False\<rparr>"
  have "fs_db ?m = sample_db" by code_simp
  then have "wf_db (fs_db ?m)" by (simp only:) code_simp
  moreover have "map_of (fs_write_handles ?m) 7 = Some ?h" "\<not> wh_changed ?h" "\<not> wh_unlinked ?h"
    "wh_record_remote_id ?h = ''l1''"
    by (simp_all add: sample_writer_def)
  ultimately show ?thesis
    using write_claims_its_baseline[of ?m 7 ?h, OF _ _ _ _ prod.collapse[symmetric]]
    by (auto simp: Let_def split: if_splits)
qed

end
