(* ===== verification/Namespace.thy ===== *)
theory Namespace
  imports HandleWrites
begin

text \<open>
  crates/twodrive-fs/src/filesystem/mutations.rs: names.  A deletion commits a tombstone, takes
  the number out of the inode table and tells open handles; a rename either moves a record with
  everything below it or replaces the target file, whose identity the source takes over.
\<close>

section \<open>Deleting\<close>

text \<open>upload_commit_lock only orders this transaction with those of the upload workers.\<close>

definition delete_record :: "u64 \<Rightarrow> file_record \<Rightarrow> ('e, 'c, unit) fsact" where
  "delete_record ino r =
     fs_bind (on_world (at_now (\<lambda>now. db_try (queue_pending_delete now r)))) (\<lambda>p.
     fs_bind (fs_put (on_inodes (remove_ino ino))) (\<lambda>_.
     fs_bind (fs_try (fs_send (Delete (d_remote_id p)))) (\<lambda>_. fs_return ())))"

abbreviation map_handles :: "('h \<Rightarrow> bool) \<Rightarrow> ('h \<Rightarrow> 'h) \<Rightarrow> (u64 \<times> 'h) list \<Rightarrow> (u64 \<times> 'h) list" where
  "map_handles p f hs \<equiv> map (\<lambda>(fh, h). (fh, if p h then f h else h)) hs"

definition mark_writers :: "(write_handle \<Rightarrow> bool) \<Rightarrow> (write_handle \<Rightarrow> write_handle) \<Rightarrow> 'c mount \<Rightarrow> 'c mount" where
  "mark_writers p f m = m\<lparr>fs_write_handles := map_handles p f (fs_write_handles m)\<rparr>"

definition mark_readers :: "(read_handle \<Rightarrow> bool) \<Rightarrow> (read_handle \<Rightarrow> read_handle) \<Rightarrow> 'c mount \<Rightarrow> 'c mount" where
  "mark_readers p f m = m\<lparr>fs_read_handles := map_handles p f (fs_read_handles m)\<rparr>"

definition writes_to :: "string \<Rightarrow> write_handle \<Rightarrow> bool" where
  "writes_to remote_id h = (wh_record_remote_id h = remote_id)"

definition reads_from :: "u64 \<Rightarrow> read_handle \<Rightarrow> bool" where
  "reads_from ino h = (rh_ino h = ino)"

definition unlink_record_with_open_handles :: "u64 \<Rightarrow> file_record \<Rightarrow> ('e, 'c, bool) fsact" where
  "unlink_record_with_open_handles ino r =
     (let i = m_remote_id (metadata r) in
      fs_bind (fs_get (\<lambda>m. find_handle (writes_to i) (fs_write_handles m) = None \<and>
                           find_handle (reads_from ino) (fs_read_handles m) = None)) (\<lambda>closed.
      if closed then fs_return False
      else
        fs_bind (delete_record ino r) (\<lambda>_.
        fs_bind (fs_put (mark_writers (writes_to i) (\<lambda>h. h\<lparr>wh_unlinked := True\<rparr>))) (\<lambda>_.
        fs_bind (fs_put (mark_readers (reads_from ino) (\<lambda>h. h\<lparr>rh_unlinked := True\<rparr>))) (\<lambda>_.
          fs_return True)))))"

section \<open>Directories\<close>

definition create_directory ::
    "string \<Rightarrow> u64 \<Rightarrow> string option \<Rightarrow> u32 \<Rightarrow> ('e, 'c, u64 \<times> file_attr) fsact" where
  "create_directory uniq parent name mode =
     fs_bind (fs_get (\<lambda>m. path_for_ino parent (fs_inodes m))) (\<lambda>found.
     fs_bind (fs_some ''parent inode does not exist'' found) (\<lambda>parent_path.
     fs_bind (fs_some ''directory name is not valid UTF-8'' name) (\<lambda>name.
     if name = [] \<or> CHR ''/'' \<in> set name then fs_fail (Bail ''invalid directory name'')
     else
       let path = join_cloud_path parent_path name; local_id = ''local-upload-'' @ uniq in
       fs_bind (fs_get (\<lambda>m. get_by_path path (fs_db m))) (\<lambda>existing.
       if existing \<noteq> None then fs_fail (Bail ''path already exists'')
       else
         fs_bind (on_world (at_now (\<lambda>now.
             db_try (create_local_directory_with_mode now local_id path mode)))) (\<lambda>r.
         fs_bind (insert_inode r) (\<lambda>ino.
         fs_bind (fs_send (Upload local_id)) (\<lambda>_. fs_return (ino, attr_for_record ino r))))))))"

section \<open>Renaming\<close>

text \<open>A cloud refresh has already moved this identity to the new name.\<close>

definition rename_already_moved :: "string \<Rightarrow> string \<Rightarrow> string \<Rightarrow> string \<Rightarrow> 'c mount \<Rightarrow> 'c mount" where
  "rename_already_moved parent_path newparent_path i new_path m =
     mark_writers (\<lambda>h. writes_to i h \<and> \<not> wh_unlinked h) (\<lambda>h. h\<lparr>wh_path := new_path\<rparr>)
       (refresh_child_records newparent_path (refresh_child_records parent_path m))"

definition take_over :: "string \<Rightarrow> file_record \<Rightarrow> write_handle \<Rightarrow> write_handle" where
  "take_over new_path target h =
     h\<lparr>wh_path := new_path, wh_record_remote_id := m_remote_id (metadata target),
       wh_created_new_record := (r_cloud_remote_id target = None),
       wh_base_etag := (if wh_uploaded h then wh_base_etag h else record_upload_etag target)\<rparr>"

definition rename_onto ::
    "u64 \<Rightarrow> file_record \<Rightarrow> file_record \<Rightarrow> string \<Rightarrow> ('e, 'c, unit) fsact" where
  "rename_onto ino r target new_path =
     (let i = m_remote_id (metadata r); j = m_remote_id (metadata target) in
      if m_is_dir (metadata target) \<or> m_is_dir (metadata r)
      then fs_fail (Bail ''cannot replace directories during rename'')
      else
        fs_bind (fs_get (\<lambda>m. ino_for_path (m_path (metadata target)) (fs_inodes m))) (\<lambda>found.
        fs_bind (fs_some ''target inode does not exist'' found) (\<lambda>target_ino.
        fs_bind (on_world (at_now (\<lambda>now. db_try (replace_file_locally now i j new_path)))) (\<lambda>updated.
        fs_bind (fs_put (on_inodes (remove_ino target_ino))) (\<lambda>_.
        fs_bind (fs_put (on_inodes (replace_ino_record ino updated))) (\<lambda>_.
        fs_bind (fs_put (mark_writers (writes_to j) (\<lambda>h. h\<lparr>wh_unlinked := True\<rparr>))) (\<lambda>_.
        fs_bind (fs_put (mark_readers (reads_from target_ino) (\<lambda>h. h\<lparr>rh_unlinked := True\<rparr>))) (\<lambda>_.
        fs_bind (fs_put (mark_writers (writes_to i) (take_over new_path target))) (\<lambda>_.
        fs_bind (case r_cloud_remote_id r of
                   None \<Rightarrow> fs_return ()
                 | Some c \<Rightarrow> if r_cloud_remote_id target = Some c then fs_return ()
                             else fs_send (Delete c)) (\<lambda>_.
        fs_bind (fs_send (Upload (m_remote_id (metadata updated)))) (\<lambda>_.
        fs_bind (case r_cache_path target of
                   None \<Rightarrow> fs_return ()
                 | Some cache \<Rightarrow> if r_cache_path updated = Some cache then fs_return ()
                                 else fs_bind (fs_try (cleanup_unlinked_cache cache)) (\<lambda>_. fs_return ()))
          (\<lambda>_. fs_return ()))))))))))))"

definition renumber_moved :: "file_record list \<Rightarrow> inode_table \<Rightarrow> inode_table" where
  "renumber_moved moved t =
     fold (\<lambda>r t. case ino_for_remote_id (m_remote_id (metadata r)) t of
                   None \<Rightarrow> t | Some i \<Rightarrow> replace_ino_record i r t) moved t"

definition rename_subtree :: "file_record \<Rightarrow> string \<Rightarrow> ('e, 'c, unit) fsact" where
  "rename_subtree r new_path =
     (let i = m_remote_id (metadata r) in
      fs_bind (fs_get (\<lambda>m. List.find (\<lambda>(_, h). writes_to i h \<and> \<not> wh_uploaded h) (fs_write_handles m)))
        (\<lambda>active.
      fs_bind (on_world (at_now (\<lambda>now. db_try (move_subtree_and_queue now i new_path)))) (\<lambda>_.
      fs_bind (case active of
                 None \<Rightarrow> fs_return ()
               | Some (fh, _) \<Rightarrow> fs_put (set_write_handle fh (\<lambda>h. h\<lparr>wh_path := new_path\<rparr>))) (\<lambda>_.
      fs_bind (fs_get (\<lambda>m. get_by_remote_id i (fs_db m))) (\<lambda>current.
      fs_bind (fs_some ''locally renamed record disappeared'' current) (\<lambda>moved.
      fs_bind (fs_get (\<lambda>m. list_descendants new_path (fs_db m))) (\<lambda>below.
      fs_bind (fs_put (on_inodes (renumber_moved (moved # below)))) (\<lambda>_.
        fs_send (Upload i)))))))))"

definition rename_record ::
    "u64 \<Rightarrow> string option \<Rightarrow> u64 \<Rightarrow> string option \<Rightarrow> ('e, 'c, unit) fsact" where
  "rename_record parent name newparent newname =
     fs_bind (fs_get (\<lambda>m. path_for_ino parent (fs_inodes m))) (\<lambda>found.
     fs_bind (fs_some ''source parent inode does not exist'' found) (\<lambda>parent_path.
     fs_bind (fs_get (\<lambda>m. path_for_ino newparent (fs_inodes m))) (\<lambda>found.
     fs_bind (fs_some ''target parent inode does not exist'' found) (\<lambda>newparent_path.
     fs_bind (fs_some ''source name is not valid UTF-8'' name) (\<lambda>name.
     fs_bind (fs_some ''target name is not valid UTF-8'' newname) (\<lambda>newname.
     let path = join_cloud_path parent_path name; new_path = join_cloud_path newparent_path newname in
     if path = new_path then fs_return ()
     else
       fs_bind (fs_get (\<lambda>m. ino_for_path path (fs_inodes m))) (\<lambda>found.
       fs_bind (fs_some ''source inode does not exist'' found) (\<lambda>ino.
       fs_bind (fs_get (live_refreshed ino)) (\<lambda>found.
       fs_bind (fs_some ''source record does not exist'' found) (\<lambda>r.
       fs_bind (fs_get (\<lambda>m. get_by_path new_path (fs_db m))) (\<lambda>target.
       case target of
         None \<Rightarrow> rename_subtree r new_path
       | Some t \<Rightarrow>
           if m_remote_id (metadata t) = m_remote_id (metadata r)
           then fs_put (rename_already_moved parent_path newparent_path (m_remote_id (metadata r)) new_path)
           else rename_onto ino r t new_path)))))))))))"

section \<open>Effects\<close>

lemma record_for_removed [simp]: "record_for_ino ino (remove_ino ino t) = None"
  by (simp add: record_for_ino_def remove_ino_def Let_def)

text \<open>A deletion that finds the row: the row is gone, its tombstone queued, the worker told.\<close>

lemma delete_record_effect:
  assumes wf: "wf_db (fs_db m)" and row: "file_by_id (m_remote_id (metadata r)) (fs_db m) = Some q"
    and open_queue: "q_open (fs_queue m)"
  obtains d' q' where "delete_record ino r m = (Inr () :: 'e fault + unit,
      m\<lparr>fs_world := (fs_world m)\<lparr>w_db := d'\<rparr>, fs_inodes := remove_ino ino (fs_inodes m), fs_queue := q'\<rparr>)"
    "file_by_id (f_remote_id q) d' = None"
    "\<exists>p\<in>set (t_deletes d'). d_local_id p = Some (f_remote_id q) \<and> d_cloud_remote_id p = f_cloud_remote_id q"
    "map_of (q_pending q') (''delete:'' @ f_remote_id q) \<noteq> None"
proof -
  obtain e p where run: "queue_pending_delete (w_now (fs_world m)) r (fs_db m) =
      (Inr (tombstone (w_now (fs_world m)) q), recompute_pin_inheritance e)"
    and e: "wf_db e" "file_by_id (f_remote_id q) e = None" "p \<in> set (t_deletes e)"
      "d_local_id p = Some (f_remote_id q)" "d_cloud_remote_id p = f_cloud_remote_id q"
    using queue_delete_effect[OF wf row] by blast
  obtain q' where q': "send (Delete (f_remote_id q)) (fs_queue m) = (Inr (), q')"
      "map_of (q_pending q') (''delete:'' @ f_remote_id q) \<noteq> None"
    using send_effect[OF open_queue, of "Delete (f_remote_id q)"] by (auto simp: command_key_def)
  have "d_remote_id (tombstone (w_now (fs_world m)) q) = f_remote_id q" by simp
  then have "delete_record ino r m = (Inr () :: 'e fault + unit,
      m\<lparr>fs_world := (fs_world m)\<lparr>w_db := recompute_pin_inheritance e\<rparr>,
        fs_inodes := remove_ino ino (fs_inodes m), fs_queue := q'\<rparr>)"
    using run q'(1) by (simp add: delete_record_def run_simps at_now_def db_try_def fs_send_def)
  then show ?thesis
    by (rule that) (use e q'(2) in \<open>auto simp: file_by_id_recompute\<close>)
qed

text \<open>The end of a rename onto a file: requests and the cleanup of the superseded cache change
  neither a row nor a handle.\<close>

definition tail_keeps :: "('e, 'c, 'a) fsact \<Rightarrow> bool" where
  "tail_keeps f = (\<forall>m. t_files (fs_db (snd (f m))) = t_files (fs_db m) \<and>
     fs_write_handles (snd (f m)) = fs_write_handles m \<and> fs_read_handles (snd (f m)) = fs_read_handles m \<and>
     (q_open (fs_queue m) \<longrightarrow> q_open (fs_queue (snd (f m)))))"

definition succeeds :: "('e, 'c, 'a) fsact \<Rightarrow> bool" where
  "succeeds f = (\<forall>m. q_open (fs_queue m) \<longrightarrow> (\<exists>a. fst (f m) = Inr a))"

named_theorems tail_intros \<open>the steps after the commit of a rename\<close>

lemma tail_basic [tail_intros]:
  "tail_keeps (fs_return a)" "tail_keeps (fs_get f)" "tail_keeps (fs_send c)"
  by (auto simp: tail_keeps_def fs_return_def fs_get_def fs_send_def send_def split: prod.split sum.split
      option.splits if_splits)

lemma succeeds_basic [tail_intros]:
  "succeeds (fs_return a)" "succeeds (fs_try f)" "succeeds (fs_send (Upload i))" "succeeds (fs_send (Delete i))"
  by (auto simp: succeeds_def fs_return_def fs_try_def fs_send_def send_def command_key_def
      split: prod.split sum.split option.splits if_splits)

lemma succeeds_bind [tail_intros]:
  "tail_keeps f \<Longrightarrow> succeeds f \<Longrightarrow> (\<And>a. succeeds (k a)) \<Longrightarrow> succeeds (fs_bind f k)"
  by (simp add: succeeds_def tail_keeps_def fs_bind_def split: prod.split sum.split)
    (metis fst_conv snd_conv sum.distinct(1))

lemma succeeds_cases [tail_intros]:
  "succeeds f \<Longrightarrow> succeeds g \<Longrightarrow> succeeds (if b then f else g)"
  "succeeds f \<Longrightarrow> (\<And>a. succeeds (k a)) \<Longrightarrow> succeeds (case x of None \<Rightarrow> f | Some a \<Rightarrow> k a)"
  by (auto split: option.split)

lemma tail_bind [tail_intros]: "tail_keeps f \<Longrightarrow> (\<And>a. tail_keeps (k a)) \<Longrightarrow> tail_keeps (fs_bind f k)"
  by (simp add: tail_keeps_def fs_bind_def split: prod.split sum.split) (metis snd_conv)

lemma tail_try [tail_intros]: "tail_keeps f \<Longrightarrow> tail_keeps (fs_try f)"
  by (simp add: tail_keeps_def fs_try_def split: prod.split) (metis snd_conv)

lemma tail_cases [tail_intros]:
  "tail_keeps f \<Longrightarrow> tail_keeps g \<Longrightarrow> tail_keeps (if b then f else g)"
  "tail_keeps f \<Longrightarrow> (\<And>a. tail_keeps (k a)) \<Longrightarrow> tail_keeps (case x of None \<Rightarrow> f | Some a \<Rightarrow> k a)"
  by (auto split: option.split)

lemma tail_remove [tail_intros]: "tail_keeps (on_world (remove_cache_act p))"
  by (auto simp: tail_keeps_def on_world_def remove_cache_act_def remove_unreferenced_cache_def
      split: prod.split sum.split option.split node.split lock_outcome.split)

lemma tail_cleanup [tail_intros]: "tail_keeps (cleanup_unlinked_cache p)"
  unfolding cleanup_unlinked_cache_def by (intro tail_intros)


abbreviation redirected :: "string \<Rightarrow> string \<Rightarrow> string \<Rightarrow> file_record \<Rightarrow> write_handle \<Rightarrow> write_handle" where
  "redirected i j p target h \<equiv>
     (let h1 = (if writes_to j h then h\<lparr>wh_unlinked := True\<rparr> else h)
      in if writes_to i h1 then take_over p target h1 else h1)"

lemma rename_onto_effect:
  assumes wf: "wf_db (fs_db m)" and s: "file_by_id i (fs_db m) = Some rs" "\<not> f_is_dir rs"
    and t: "file_by_id j (fs_db m) = Some rt" "\<not> f_is_dir rt" "f_path rt = normalize_cloud_path p" and ij: "i \<noteq> j"
    and known: "ino_for_path (f_path rt) (fs_inodes m) = Some target_ino" and q: "q_open (fs_queue m)"
  obtains e m' where "rename_onto ino (row_to_record rs) (row_to_record rt) p m = (Inr () :: 'e fault + unit, m')"
     "wf_db e" "file_by_id i e = None"
    "file_by_id j e = Some (replaced_row (w_now (fs_world m)) (normalize_cloud_path p) (row_to_record rs) rt)"
    "t_files (fs_db m') = t_files (recompute_pin_inheritance e)"
    "fs_write_handles m' = map (\<lambda>(fh, h). (fh, redirected i j p (row_to_record rt) h)) (fs_write_handles m)"
proof -
  let ?now = "w_now (fs_world m)" and ?p = "normalize_cloud_path p"
  obtain e where e: "tx_replace_file ?now i j ?p (fs_db m) = Inr (None, e)" "wf_db e" "file_by_id i e = None"
      "file_by_id j e = Some (replaced_row ?now ?p (row_to_record rs) rt)"
    using replace_file_effect[OF wf s t ij] by blast
  define upd where "upd = row_to_record (repin_row (t_files e) (replaced_row ?now ?p (row_to_record rs) rt))"
  have rep: "replace_file_locally ?now i j p (fs_db m) = (Inr upd, recompute_pin_inheritance e)"
    using e by (simp add: replace_file_locally_def run_tx_def read_back_def get_by_remote_id_def
        file_by_id_recompute upd_def)
  have ids: "m_remote_id (metadata (row_to_record rs)) = i" "m_remote_id (metadata (row_to_record rt)) = j"
      "\<not> m_is_dir (metadata (row_to_record rs))" "\<not> m_is_dir (metadata (row_to_record rt))"
    using file_by_id_SomeD[OF s(1)] file_by_id_SomeD[OF t(1)] s(2) t(2) by (simp_all add: row_to_record_def)
  have ino: "ino_for_path (m_path (metadata (row_to_record rt))) (fs_inodes m) = Some target_ino"
    using known by (simp add: row_to_record_def)
  define rest where "rest = (fs_bind (case r_cloud_remote_id (row_to_record rs) of
                   None \<Rightarrow> fs_return ()
                 | Some c \<Rightarrow> if r_cloud_remote_id (row_to_record rt) = Some c then fs_return ()
                             else fs_send (Delete c)) (\<lambda>_.
        fs_bind (fs_send (Upload (m_remote_id (metadata upd)))) (\<lambda>_.
        fs_bind (case r_cache_path (row_to_record rt) of
                   None \<Rightarrow> fs_return ()
                 | Some cache \<Rightarrow> if r_cache_path upd = Some cache then fs_return ()
                                 else fs_bind (fs_try (cleanup_unlinked_cache cache)) (\<lambda>_. fs_return ()))
          (\<lambda>_. fs_return ()))) :: ('e, 'a, unit) fsact)"
  have tail: "tail_keeps rest" "succeeds rest" unfolding rest_def by (intro tail_intros)+
  define m3 where "m3 = mark_writers (writes_to i) (take_over p (row_to_record rt))
     (mark_readers (reads_from target_ino) (\<lambda>h. h\<lparr>rh_unlinked := True\<rparr>)
     (mark_writers (writes_to j) (\<lambda>h. h\<lparr>wh_unlinked := True\<rparr>)
     (on_inodes (replace_ino_record ino upd) (on_inodes (remove_ino target_ino)
       (m\<lparr>fs_world := (fs_world m)\<lparr>w_db := recompute_pin_inheritance e\<rparr>\<rparr>)))))"
  have run: "rename_onto ino (row_to_record rs) (row_to_record rt) p m = rest m3"
    using ids ino rep
    by (simp add: rename_onto_def Let_def fs_bind_def fs_get_def fs_some_def fs_return_def on_world_def
        at_now_def db_try_def fs_put_def rest_def m3_def split: option.split)
  have "q_open (fs_queue m3)" by (simp add: m3_def q mark_writers_def mark_readers_def)
  then have "fst (rest m3) = Inr ()" using tail(2) by (auto simp: succeeds_def)
  define m' where "m' = snd (rest m3)"
  have run': "rename_onto ino (row_to_record rs) (row_to_record rt) p m = (Inr () :: 'e fault + unit, m')"
    using run \<open>fst (rest m3) = Inr ()\<close> by (simp add: m'_def prod_eq_iff)
  from tail(1) have m': "t_files (fs_db m') = t_files (fs_db m3)" "fs_write_handles m' = fs_write_handles m3"
    by (simp_all add: tail_keeps_def m'_def)
  show ?thesis
  proof (rule that[OF run' e(2-4)])
    show "t_files (fs_db m') = t_files (recompute_pin_inheritance e)"
      by (simp add: m'(1) m3_def mark_writers_def mark_readers_def)
    show "fs_write_handles m' = map (\<lambda>(fh, h). (fh, redirected i j p (row_to_record rt) h)) (fs_write_handles m)"
      by (auto simp: m'(2) m3_def mark_writers_def mark_readers_def Let_def)
  qed
qed

section \<open>Properties\<close>

text \<open>C26: a rename onto a file keeps the target's identity: the source row is gone, the target row
  has the bytes of the source under its own cloud identity and version, every handle that wrote the
  source now writes the target, and every handle that wrote the old target is unlinked.\<close>

theorem rename_onto_takes_target:
  assumes wf: "wf_db (fs_db m)" and s: "file_by_id i (fs_db m) = Some rs" "\<not> f_is_dir rs"
    and t: "file_by_id j (fs_db m) = Some rt" "\<not> f_is_dir rt" "f_path rt = normalize_cloud_path p" and ij: "i \<noteq> j"
    and known: "ino_for_path (f_path rt) (fs_inodes m) = Some target_ino" and q: "q_open (fs_queue m)"
  shows "\<exists>m'. rename_onto ino (row_to_record rs) (row_to_record rt) p m = (Inr () :: 'e fault + unit, m') \<and>
    file_by_id i (fs_db m') = None \<and>
    (\<exists>rt'. file_by_id j (fs_db m') = Some rt' \<and> f_path rt' = f_path rt \<and> f_cache_path rt' = f_cache_path rs \<and>
       f_cloud_remote_id rt' = f_cloud_remote_id rt \<and> f_etag rt' = f_etag rt) \<and>
    (\<forall>fh h. (fh, h) \<in> set (fs_write_handles m) \<longrightarrow> (\<exists>h'. (fh, h') \<in> set (fs_write_handles m') \<and>
       wh_cache_path h' = wh_cache_path h \<and>
       (if wh_record_remote_id h = i
        then wh_record_remote_id h' = j \<and> wh_path h' = p \<and> wh_unlinked h' = wh_unlinked h
        else if wh_record_remote_id h = j then wh_unlinked h' else h' = h)))"
proof -
  obtain e m' where run: "rename_onto ino (row_to_record rs) (row_to_record rt) p m = (Inr () :: 'e fault + unit, m')"
    and e: "wf_db e" "file_by_id i e = None"
    "file_by_id j e = Some (replaced_row (w_now (fs_world m)) (normalize_cloud_path p) (row_to_record rs) rt)"
    "t_files (fs_db m') = t_files (recompute_pin_inheritance e)"
    "fs_write_handles m' = map (\<lambda>(fh, h). (fh, redirected i j p (row_to_record rt) h)) (fs_write_handles m)"
    by (rule rename_onto_effect[OF wf s t ij known q])
  have rows: "file_by_id x (fs_db m') = map_option (repin_row (t_files e)) (file_by_id x e)" for x
    using file_by_id_recompute[OF e(1), of x] by (simp add: file_by_id_def e(4))
  have id: "m_remote_id (metadata (row_to_record rt)) = j"
    using file_by_id_SomeD[OF t(1)] by (simp add: row_to_record_def)
  have "\<exists>rt'. file_by_id j (fs_db m') = Some rt' \<and> f_path rt' = f_path rt \<and> f_cache_path rt' = f_cache_path rs \<and>
       f_cloud_remote_id rt' = f_cloud_remote_id rt \<and> f_etag rt' = f_etag rt"
    using e(3) t(3) by (simp add: rows replaced_row_def)
  moreover have "\<exists>h'. (fh, h') \<in> set (fs_write_handles m') \<and> wh_cache_path h' = wh_cache_path h \<and>
       (if wh_record_remote_id h = i
        then wh_record_remote_id h' = j \<and> wh_path h' = p \<and> wh_unlinked h' = wh_unlinked h
        else if wh_record_remote_id h = j then wh_unlinked h' else h' = h)"
    if "(fh, h) \<in> set (fs_write_handles m)" for fh h
  proof (intro exI conjI)
    show "(fh, redirected i j p (row_to_record rt) h) \<in> set (fs_write_handles m')"
      using that by (force simp: e(5))
  qed (use ij id in \<open>auto simp: writes_to_def take_over_def Let_def\<close>)
  ultimately show ?thesis using run e(2) rows by (intro exI[of _ m']) auto
qed

lemma rename_onto_takes_target_witness:
  "\<exists>m'. (rename_onto 5 (sample_record ''l1'' None ''/D/t'' (Some ''/c/l1'') Dirty)
       (sample_record ''f2'' (Some ''f2'') ''/D/b'' (Some ''/c/f2'') Cached) ''/D/b'' :: (unit, unit, unit) fsact)
     sample_mount = (Inr (), m') \<and> file_by_id ''l1'' (fs_db m') = None"
proof -
  let ?s = "sample_row ''l1'' None ''/D/t'' (Some ''/c/l1'') Dirty"
  let ?t = "sample_row ''f2'' (Some ''f2'') ''/D/b'' (Some ''/c/f2'') Cached"
  have "fs_db sample_mount = sample_db" by code_simp
  moreover have "wf_db sample_db" "file_by_id ''l1'' sample_db = Some ?s" "\<not> f_is_dir ?s"
    "file_by_id ''f2'' sample_db = Some ?t" "\<not> f_is_dir ?t" "f_path ?t = normalize_cloud_path ''/D/b''"
    "ino_for_path (f_path ?t) (fs_inodes sample_mount) = Some 4" "q_open (fs_queue sample_mount)"
    by code_simp+
  ultimately show ?thesis
    using rename_onto_takes_target[of sample_mount "''l1''" ?s "''f2''" ?t "''/D/b''" 4 5] by auto
qed

end
