(* ===== verification/Fuse.thy ===== *)
theory Fuse
  imports Namespace
begin

text \<open>
  crates/twodrive-fs/src/filesystem/fuse.rs: the handlers of the FUSE session, with their error
  numbers.  statfs only passes on the numbers of the operating system and is left out.  A read of
  a handle whose bytes are still in the cloud is answered by a job of the read pool, so that the
  dispatcher stays free: read hands the job over and run_read_job is its body.
\<close>

datatype errno = ENOENT | EIO | EBADF | ENOTDIR | EISDIR | EINVAL | ENOTEMPTY | ENODATA | EOPNOTSUPP | ECANCELED

type_synonym ('c, 'a) handler = "'c mount \<Rightarrow> (errno + 'a) \<times> 'c mount"

text \<open>match result { Ok(..) => reply, Err(err) => reply.error(EIO) }\<close>

definition or_eio :: "('e, 'c, 'a) fsact \<Rightarrow> ('c, 'a) handler" where
  "or_eio f m = (case f m of (Inl _, m') \<Rightarrow> (Inl EIO, m') | (Inr a, m') \<Rightarrow> (Inr a, m'))"

text \<open>An action that never calls the cloud has no cloud error; any type will do.\<close>

type_synonym ('c, 'a) local_fsact = "(unit, 'c, 'a) fsact"

abbreviation local_eio :: "('c, 'a) local_fsact \<Rightarrow> ('c, 'a) handler" where
  "local_eio \<equiv> or_eio"

section \<open>Names and attributes\<close>

definition reply_attr :: "u64 \<Rightarrow> ('c, file_attr) handler" where
  "reply_attr ino m = (case attr_for_ino ino m of None \<Rightarrow> (Inl ENOENT, m) | Some a \<Rightarrow> (Inr a, m))"

definition lookup_ino :: "file_record \<Rightarrow> string \<Rightarrow> 'c mount \<Rightarrow> u64 \<times> 'c mount" where
  "lookup_ino r path m =
     (case (case ino_for_path path (fs_inodes m) of
              None \<Rightarrow> None
            | Some i \<Rightarrow>
                (case record_for_ino i (fs_inodes m) of
                   None \<Rightarrow> None
                 | Some cached \<Rightarrow>
                     if m_remote_id (metadata cached) = m_remote_id (metadata r) then Some i else None)) of
        Some i \<Rightarrow> (i, m)
      | None \<Rightarrow> (case insert_or_update r (fs_inodes m) of (i, t) \<Rightarrow> (i, m\<lparr>fs_inodes := t\<rparr>)))"

definition lookup :: "u64 \<Rightarrow> string option \<Rightarrow> ('c, file_attr) handler" where
  "lookup parent name m =
     (case path_for_ino parent (fs_inodes m) of
        None \<Rightarrow> (Inl ENOENT, m)
      | Some parent_path \<Rightarrow>
          (case name of
             None \<Rightarrow> (Inl EINVAL, m)
           | Some n \<Rightarrow>
               let path = join_cloud_path parent_path n in
               (case get_by_path path (fs_db m) of
                  Some r \<Rightarrow> (case lookup_ino r path m of (i, m') \<Rightarrow> reply_attr i m')
                | None \<Rightarrow>
                    (case ino_for_path path (fs_inodes m) of
                       None \<Rightarrow> (Inl ENOENT, m)
                     | Some i \<Rightarrow> if live_record i m = None then (Inl ENOENT, m) else reply_attr i m))))"

definition getattr :: "u64 \<Rightarrow> ('c, file_attr) handler" where
  "getattr ino = reply_attr ino"

definition set_mode_step :: "u64 \<Rightarrow> u32 option \<Rightarrow> ('c, unit) handler" where
  "set_mode_step ino mode m =
     (case mode of
        None \<Rightarrow> (Inr (), m)
      | Some mode \<Rightarrow>
          (case live_record ino m of
             None \<Rightarrow> (Inl (if ino = ROOT_INO then EOPNOTSUPP else ENOENT), m)
           | Some r \<Rightarrow>
               (case set_local_mode (m_remote_id (metadata r)) mode (fs_db m) of
                  (Inl _, d) \<Rightarrow> (Inl EIO, m\<lparr>fs_world := (fs_world m)\<lparr>w_db := d\<rparr>\<rparr>)
                | (Inr _, d) \<Rightarrow>
                    (Inr (), on_inodes (replace_ino_record ino (r\<lparr>r_local_mode := Some (permission_bits mode)\<rparr>))
                       (m\<lparr>fs_world := (fs_world m)\<lparr>w_db := d\<rparr>\<rparr>)))))"

definition set_size_step :: "('e, 'c) backend \<Rightarrow> u64 \<Rightarrow> u64 option \<Rightarrow> u64 option \<Rightarrow> ('c, unit) handler" where
  "set_size_step be ino len fh m =
     (case len of
        None \<Rightarrow> (Inr (), m)
      | Some len \<Rightarrow>
          or_eio
            (fs_bind
              (case (case fh of None \<Rightarrow> None | Some fh \<Rightarrow>
                       map_option (\<lambda>_. fh) (map_of (fs_write_handles m) fh)) of
                 Some fh \<Rightarrow>
                   fs_bind (begin_handle_write fh) (\<lambda>_.
                   fs_bind (fs_get (\<lambda>m. map_of (fs_write_handles m) fh)) (\<lambda>found.
                   fs_bind (fs_some ''write handle does not exist'' found) (\<lambda>h.
                     on_world (set_len (wh_cache_path h) len))))
               | None \<Rightarrow> truncate_without_handle be ino len)
              (\<lambda>_. fs_put (on_inodes (replace_size ino len)))) m)"

definition setattr ::
    "('e, 'c) backend \<Rightarrow> u64 \<Rightarrow> u32 option \<Rightarrow> u64 option \<Rightarrow> u64 option \<Rightarrow> ('c, file_attr) handler" where
  "setattr be ino mode len fh m =
     (case set_mode_step ino mode m of
        (Inl e, m1) \<Rightarrow> (Inl e, m1)
      | (Inr _, m1) \<Rightarrow>
          (case set_size_step be ino len fh m1 of
             (Inl e, m2) \<Rightarrow> (Inl e, m2)
           | (Inr _, m2) \<Rightarrow> reply_attr ino m2))"

section \<open>Directories\<close>

definition listing :: "u64 \<Rightarrow> string \<Rightarrow> inode_table \<Rightarrow> (u64 \<times> file_type \<times> string) list" where
  "listing ino path t =
     (ino, DirectoryType, ''.'')
     # (case parent_ino path t of None \<Rightarrow> ROOT_INO | Some p \<Rightarrow> p, DirectoryType, ''..'')
     # map (\<lambda>(i, r). (i, file_type (metadata r), m_name (metadata r))) (children_for_ino ino t)"

definition opendir :: "u64 \<Rightarrow> ('c, u64) handler" where
  "opendir ino m =
     (case path_for_ino ino (fs_inodes m) of
        None \<Rightarrow> (Inl ENOENT, m)
      | Some path \<Rightarrow>
          (let m1 = refresh_child_records path m; fh = fs_next_fh m1 in
           (Inr fh, m1\<lparr>fs_next_fh := fh + 1,
              fs_directory_handles := AList.update fh (listing ino path (fs_inodes m1))
                (fs_directory_handles m1)\<rparr>)))"

text \<open>reply.add answers true when the buffer is full and the entry was not added.\<close>

fun add_entries :: "nat \<Rightarrow> nat \<Rightarrow> 'x list \<Rightarrow> (nat \<times> 'x) list" where
  "add_entries room i [] = []"
| "add_entries room i (x # xs) =
     (case room of 0 \<Rightarrow> [] | Suc left \<Rightarrow> (Suc i, x) # add_entries left (Suc i) xs)"

definition readdir :: "nat \<Rightarrow> u64 \<Rightarrow> int \<Rightarrow> 'c mount \<Rightarrow> errno + (nat \<times> u64 \<times> file_type \<times> string) list" where
  "readdir room fh offset m =
     (if offset < 0 then Inl EINVAL
      else (case map_of (fs_directory_handles m) fh of
              None \<Rightarrow> Inl EBADF
            | Some entries \<Rightarrow> Inr (add_entries room (nat offset) (drop (nat offset) entries))))"

definition releasedir :: "u64 \<Rightarrow> ('c, unit) handler" where
  "releasedir fh m = (Inr (), m\<lparr>fs_directory_handles := AList.delete fh (fs_directory_handles m)\<rparr>)"

section \<open>Opening and reading\<close>

definition open_deferred :: "u64 \<Rightarrow> file_record \<Rightarrow> ('c, u64) handler" where
  "open_deferred ino r m =
     (case download_generation (m_remote_id (metadata r)) (fs_db m) of
        Inl _ \<Rightarrow> (Inl EIO, m)
      | Inr generation \<Rightarrow>
          local_eio (add_read_handle \<lparr>rh_open_attr = attr_for_record ino r, rh_ino = ino,
            rh_cache_path = download_cache_path (fs_cache_dir m) (m_remote_id (metadata r)) generation,
            rh_guard = None, rh_unlinked = False, rh_deferred = Some r, rh_generation = generation\<rparr>) m)"

definition open_file :: "('e, 'c) backend \<Rightarrow> request \<Rightarrow> u64 \<Rightarrow> u32 \<Rightarrow> ('c, u64) handler" where
  "open_file be req ino flags m =
     (case live_record ino m of
        None \<Rightarrow> (Inl ENOENT, m)
      | Some rec \<Rightarrow>
          if m_is_dir (metadata rec) then (Inl EISDIR, m)
          else
            (case local_eio (on_world (reconcile_cached_record (refresh_record rec m))) m of
               (Inl e, m1) \<Rightarrow> (Inl e, m1)
             | (Inr r, m1) \<Rightarrow>
                 if \<not> read_only flags
                 then (case or_eio (create_overwrite_upload be r (has_flag flags O_TRUNC)) m1 of
                         (Inl e, m2) \<Rightarrow> (Inl e, m2)
                       | (Inr (_, fh, _), m2) \<Rightarrow> (Inr fh, m2))
                 else if should_defer_hydration (fs_disk m1) req r \<or>
                         \<not> has_existing_cache (fs_disk m1) r \<and> is_gio_metadata_probe req flags
                 then (Inl ENODATA, m1)
                 else if has_existing_cache (fs_disk m1) r
                 then local_eio (open_read_handle ino (the (r_cache_path r))) m1
                 else open_deferred ino r m1))"

datatype read_reply = Bytes u64 | Job u64 file_record int

definition read_file ::
    "('e, 'c) backend \<Rightarrow> request \<Rightarrow> u64 \<Rightarrow> u64 \<Rightarrow> int \<Rightarrow> u32 \<Rightarrow> ('c, read_reply) handler" where
  "read_file be req ino fh offset len m =
     (if offset < 0 then (Inl EINVAL, m)
      else
        (case (case map_of (fs_read_handles m) fh of None \<Rightarrow> None | Some h \<Rightarrow>
                 map_option (\<lambda>r. (h, refresh_record r m)) (rh_deferred h)) of
           Some (h, r) \<Rightarrow>
             if should_defer_hydration (fs_disk m) req r then (Inl ENODATA, m)
             else (Inr (Job fh r (rh_generation h)), m)
         | None \<Rightarrow>
             if map_of (fs_read_handles m) fh \<noteq> None \<or> map_of (fs_write_handles m) fh \<noteq> None
             then local_eio (fs_bind (read_open_handle fh (word_of_int offset) len) (\<lambda>n. fs_return (Bytes n))) m
             else
               (case live_record ino m of
                  None \<Rightarrow> (Inl ENOENT, m)
                | Some rec \<Rightarrow>
                    if m_is_dir (metadata rec) then (Inl EISDIR, m)
                    else
                      (let r = refresh_record rec m in
                       if should_defer_hydration (fs_disk m) req r then (Inl ENODATA, m)
                       else or_eio (fs_bind (ensure_cached be r) (\<lambda>path.
                              fs_bind (read_bytes path (word_of_int offset) len) (\<lambda>n.
                                fs_return (Bytes n)))) m))))"

definition set_read_handle :: "u64 \<Rightarrow> (read_handle \<Rightarrow> read_handle) \<Rightarrow> 'c mount \<Rightarrow> 'c mount" where
  "set_read_handle fh f m =
     (case map_of (fs_read_handles m) fh of
        None \<Rightarrow> m
      | Some h \<Rightarrow> m\<lparr>fs_read_handles := AList.update fh (f h) (fs_read_handles m)\<rparr>)"

definition fault_errno :: "'e fault \<Rightarrow> errno" where
  "fault_errno e = (case e of Cancelled \<Rightarrow> ECANCELED | _ \<Rightarrow> EIO)"

text \<open>A handle that was closed meanwhile only lives in the job, and its lock ends with it.\<close>

definition fill_guard :: "('e, 'c) backend \<Rightarrow> u64 \<Rightarrow> file_record \<Rightarrow> int \<Rightarrow> ('e, 'c, string) fsact" where
  "fill_guard be fh r generation =
     fs_bind (fs_get (\<lambda>m. case map_of (fs_read_handles m) fh of None \<Rightarrow> None | Some h \<Rightarrow> rh_guard h)) (\<lambda>held.
     case held of
       Some path \<Rightarrow> fs_return path
     | None \<Rightarrow>
         fs_bind (fs_get fs_cache_dir) (\<lambda>dir.
         fs_bind (on_world (hydrate_generation be dir r generation)) (\<lambda>path.
         fs_bind (open_guard path) (\<lambda>_.
         fs_bind (fs_put (\<lambda>m. unlock_shared path (set_read_handle fh (\<lambda>h. h\<lparr>rh_guard := Some path\<rparr>) m))) (\<lambda>_.
           fs_return path)))))"

definition run_read_job ::
    "('e, 'c) backend \<Rightarrow> u64 \<Rightarrow> file_record \<Rightarrow> int \<Rightarrow> u64 \<Rightarrow> u32 \<Rightarrow> ('c, u64) handler" where
  "run_read_job be fh r generation offset len m =
     (case fs_bind (fill_guard be fh r generation) (\<lambda>path. read_bytes path offset len) m of
        (Inl e, m') \<Rightarrow> (Inl (fault_errno e), m')
      | (Inr n, m') \<Rightarrow> (Inr n, m'))"

section \<open>Writing and closing\<close>

definition write_file :: "u64 \<Rightarrow> int \<Rightarrow> u32 \<Rightarrow> ('c, u32) handler" where
  "write_file fh offset count m =
     (if offset < 0 then (Inl EINVAL, m)
      else
        (case (if count = 0 then (Inr (), m) else local_eio (begin_handle_write fh) m) of
           (Inl e, m1) \<Rightarrow> (Inl e, m1)
         | (Inr _, m1) \<Rightarrow>
             (case map_of (fs_write_handles m1) fh of
                None \<Rightarrow> (Inl EBADF, m1)
              | Some h \<Rightarrow>
                  local_eio (fs_bind (on_world (write_slice (wh_cache_path h) (word_of_int offset) (ucast count))) (\<lambda>_.
                    fs_bind (fs_put (on_inodes (set_size (wh_ino h) (word_of_int offset + ucast count)))) (\<lambda>_.
                      fs_return count))) m1)))"

text \<open>flush, and fsync with either kind of synchronisation, open and synchronise the same file.\<close>

definition fsync :: "u64 \<Rightarrow> u64 \<Rightarrow> ('c, unit) handler" where
  "fsync ino fh m =
     local_eio (if map_of (fs_write_handles m) fh \<noteq> None then sync_handle fh
             else if map_of (fs_read_handles m) fh \<noteq> None then sync_read_handle fh
             else sync_cached_record ino) m"

definition flush :: "u64 \<Rightarrow> u64 \<Rightarrow> ('c, unit) handler" where
  "flush ino fh = fsync ino fh"

definition drop_write_handle :: "u64 \<Rightarrow> 'c mount \<Rightarrow> 'c mount" where
  "drop_write_handle fh m =
     (case map_of (fs_write_handles m) fh of
        None \<Rightarrow> m
      | Some h \<Rightarrow> unlock_shared (wh_cache_path h)
                    (m\<lparr>fs_write_handles := AList.delete fh (fs_write_handles m)\<rparr>))"

definition release :: "u64 \<Rightarrow> ('c, unit) handler" where
  "release fh m =
     (if map_of (fs_read_handles m) fh \<noteq> None then local_eio (release_read_handle fh) m
      else
        (let unlinked = (case map_of (fs_write_handles m) fh of
                           None \<Rightarrow> None
                         | Some h \<Rightarrow> if wh_unlinked h then Some (wh_cache_path h) else None);
             m1 = snd ((queue_upload_handle fh :: ('c, unit) local_fsact) m);
             m2 = drop_write_handle fh m1;
             m3 = snd ((on_world finish_releases :: ('c, unit) local_fsact) m2)
         in (Inr (), case unlinked of None \<Rightarrow> m3 | Some path \<Rightarrow> snd ((cleanup_unlinked_cache path :: ('c, unit) local_fsact) m3))))"

section \<open>Creating, deleting, renaming\<close>

definition mkdir :: "string \<Rightarrow> u64 \<Rightarrow> string option \<Rightarrow> u32 \<Rightarrow> u32 \<Rightarrow> ('c, file_attr) handler" where
  "mkdir uniq parent name mode umask =
     local_eio (fs_bind (create_directory uniq parent name (and mode (not umask))) (\<lambda>(_, attr). fs_return attr))"

definition named_record ::
    "u64 \<Rightarrow> string option \<Rightarrow> 'c mount \<Rightarrow> errno + (u64 \<times> file_record)" where
  "named_record parent name m =
     (case path_for_ino parent (fs_inodes m) of
        None \<Rightarrow> Inl ENOENT
      | Some parent_path \<Rightarrow>
          (case name of
             None \<Rightarrow> Inl EINVAL
           | Some n \<Rightarrow>
               (case ino_for_path (join_cloud_path parent_path n) (fs_inodes m) of
                  None \<Rightarrow> Inl ENOENT
                | Some ino \<Rightarrow>
                    (case live_refreshed ino m of None \<Rightarrow> Inl ENOENT | Some r \<Rightarrow> Inr (ino, r)))))"

definition unlink :: "u64 \<Rightarrow> string option \<Rightarrow> ('c, unit) handler" where
  "unlink parent name m =
     (case named_record parent name m of
        Inl e \<Rightarrow> (Inl e, m)
      | Inr (ino, r) \<Rightarrow>
          if m_is_dir (metadata r) then (Inl EISDIR, m)
          else
            (case local_eio (unlink_record_with_open_handles ino r) m of
               (Inl e, m1) \<Rightarrow> (Inl e, m1)
             | (Inr True, m1) \<Rightarrow> (Inr (), m1)
             | (Inr False, m1) \<Rightarrow> local_eio (delete_record ino r) m1))"

definition rmdir :: "u64 \<Rightarrow> string option \<Rightarrow> ('c, unit) handler" where
  "rmdir parent name m =
     (case named_record parent name m of
        Inl e \<Rightarrow> (Inl e, m)
      | Inr (ino, r) \<Rightarrow>
          if \<not> m_is_dir (metadata r) then (Inl ENOTDIR, m)
          else if children_for_ino ino (fs_inodes m) \<noteq> [] then (Inl ENOTEMPTY, m)
          else local_eio (delete_record ino r) m)"

definition rename :: "u64 \<Rightarrow> string option \<Rightarrow> u64 \<Rightarrow> string option \<Rightarrow> ('c, unit) handler" where
  "rename parent name newparent newname = local_eio (rename_record parent name newparent newname)"

definition create ::
    "('e, 'c) backend \<Rightarrow> string \<Rightarrow> u64 \<Rightarrow> string option \<Rightarrow> u32 \<Rightarrow> u32 \<Rightarrow> u32 \<Rightarrow> ('c, u64 \<times> file_attr) handler" where
  "create be uniq parent name mode umask flags =
     or_eio (fs_bind (create_upload_with_mode be uniq parent name flags (and mode (not umask))) (\<lambda>(_, fh, attr).
       fs_return (fh, attr)))"

section \<open>Reading a directory in rounds\<close>

text \<open>A reader goes on at the offset of the last entry it was given, with room for so many entries.\<close>

fun read_rounds :: "nat \<Rightarrow> nat \<Rightarrow> u64 \<Rightarrow> nat \<Rightarrow> 'c mount \<Rightarrow> (nat \<times> u64 \<times> file_type \<times> string) list" where
  "read_rounds 0 room fh offset m = []"
| "read_rounds (Suc n) room fh offset m =
     (case readdir room fh (int offset) m of
        Inl _ \<Rightarrow> []
      | Inr [] \<Rightarrow> []
      | Inr (e # es) \<Rightarrow> (e # es) @ read_rounds n room fh (fst (last (e # es))) m)"

lemma add_entries_eq: "add_entries room i xs = zip [Suc i..<Suc (i + room)] xs"
proof (induction room arbitrary: i xs)
  case 0
  then show ?case by (cases xs) simp_all
next
  case (Suc room)
  then show ?case
    by (cases xs) (simp_all add: upt_conv_Cons del: upt_Suc)
qed

lemma read_rounds_rest:
  assumes "map_of (fs_directory_handles m) fh = Some entries" "0 < room"
  shows "length entries - offset \<le> n \<Longrightarrow>
    read_rounds n room fh offset m = zip [Suc offset..<Suc (length entries)] (drop offset entries)"
proof (induction n arbitrary: offset)
  case 0
  then show ?case by simp
next
  case (Suc n)
  define xs where "xs = drop offset entries"
  have rd: "readdir room fh (int offset) m = Inr (zip [Suc offset..<Suc (offset + room)] xs)"
    using assms by (simp add: readdir_def add_entries_eq xs_def del: upt_Suc)
  show ?case
  proof (cases "offset < length entries")
    case False
    then show ?thesis using rd by (simp add: xs_def del: upt_Suc)
  next
    case True
    define k where "k = min room (length xs)"
    define es where "es = zip [Suc offset..<Suc (offset + room)] xs"
    have k: "0 < k" "offset + k \<le> length entries" using True assms(2) by (auto simp: k_def xs_def)
    have "es = take k (zip [Suc offset..<Suc (length entries)] xs)"
      by (rule nth_equalityI) (auto simp: es_def k_def xs_def simp del: upt_Suc)
    moreover have "es \<noteq> []" using k by (auto simp: es_def k_def simp del: upt_Suc)
    moreover have "fst (last es) = offset + k"
    proof -
      have "length es = k" by (simp add: es_def k_def del: upt_Suc)
      then have "last es = es ! (k - 1)" using \<open>es \<noteq> []\<close> by (simp add: last_conv_nth)
      moreover have "k - 1 < room" "k - 1 < length xs" using k(1) unfolding k_def by linarith+
      ultimately have "fst (last es) = [Suc offset..<Suc (offset + room)] ! (k - 1)"
        by (simp add: es_def del: upt_Suc)
      with \<open>k - 1 < room\<close> k(1) show ?thesis by (simp del: upt_Suc)
    qed
    moreover have "read_rounds n room fh (offset + k) m =
        zip [Suc (offset + k)..<Suc (length entries)] (drop (offset + k) entries)"
      by (rule Suc.IH) (use Suc.prems k in simp)
    moreover have "zip [Suc (offset + k)..<Suc (length entries)] (drop (offset + k) entries) =
        drop k (zip [Suc offset..<Suc (length entries)] xs)"
      by (simp add: drop_zip xs_def add.commute del: upt_Suc)
    moreover have "read_rounds (Suc n) room fh offset m = es @ read_rounds n room fh (fst (last es)) m"
      using rd \<open>es \<noteq> []\<close> by (simp add: es_def[symmetric] split: list.split del: upt_Suc)
    ultimately have "read_rounds (Suc n) room fh offset m =
        take k (zip [Suc offset..<Suc (length entries)] xs) @ drop k (zip [Suc offset..<Suc (length entries)] xs)"
      by (simp del: upt_Suc append_take_drop_id)
    then show ?thesis by (simp add: xs_def del: upt_Suc)
  qed
qed

section \<open>Lookups\<close>

lemma lookup_ino_known:
  assumes ok: "table_ok (fs_inodes m)" and r: "item_record r" "normalize_cloud_path path = m_path (metadata r)"
    and room: "unat (next_ino (fs_inodes m)) + 1 < 2 ^ 64"
    and run: "lookup_ino r path m = (i, m')"
  shows "i \<noteq> ROOT_INO \<and> fs_world m' = fs_world m \<and> fs_write_handles m' = fs_write_handles m \<and>
    (\<exists>c. record_for_ino i (fs_inodes m') = Some c \<and> m_remote_id (metadata c) = m_remote_id (metadata r))"
proof -
  let ?t = "fs_inodes m"
  have same: "ino_for_path path ?t = ino_for_path (m_path (metadata r)) ?t"
    using r by (simp add: ino_for_path_def item_record_def canonical_def)
  have ki: "(case ino_for_path path ?t of None \<Rightarrow> None
      | Some i \<Rightarrow> (case record_for_ino i ?t of None \<Rightarrow> None
         | Some cached \<Rightarrow> if m_remote_id (metadata cached) = m_remote_id (metadata r) then Some i else None)) =
      known_ino r ?t"
    by (simp add: same known_ino_def record_for_ino_def split: option.split)
  show ?thesis
  proof (cases "known_ino r ?t")
    case (Some j)
    with run have "i = j" "m' = m" by (auto simp: lookup_ino_def ki)
    moreover have "j \<noteq> ROOT_INO" by (rule known_inoD(2)[OF ok r(1) Some])
    moreover obtain c where "record_for_ino j ?t = Some c" "m_remote_id (metadata c) = m_remote_id (metadata r)"
      using Some by (auto simp: known_ino_def record_for_ino_def split: option.splits if_splits)
    ultimately show ?thesis by auto
  next
    case None
    with run have "i = next_ino ?t" and m': "m' = m\<lparr>fs_inodes := snd (insert_or_update r ?t)\<rparr>"
      by (auto simp: lookup_ino_def ki insert_or_update_def allocate_ino_def Let_def)
    moreover have "record_for_ino (next_ino ?t) (snd (insert_or_update r ?t)) = Some r"
      by (simp add: insert_or_update_def None allocate_ino_def Let_def record_for_ino_def bind_ino_def)
    ultimately show ?thesis using next_ino_fresh(2)[OF ok] by simp
  qed
qed

section \<open>Opening never downloads\<close>

definition cloud_idle :: "('e, 'c, 'a) fsact \<Rightarrow> bool" where
  "cloud_idle f = (\<forall>m. w_cloud (fs_world (snd (f m))) = w_cloud (fs_world m))"

lemma idle_bind: "cloud_idle f \<Longrightarrow> (\<And>a. cloud_idle (k a)) \<Longrightarrow> cloud_idle (fs_bind f k)"
  by (simp add: cloud_idle_def fs_bind_def split: prod.split sum.split) (metis snd_conv)

lemma idle_basic:
  "cloud_idle (fs_return a)" "cloud_idle (fs_fail e)" "cloud_idle (fs_get f)"
  "cloud_idle (fs_some msg x)" "cloud_idle (add_read_handle h)"
  by (simp_all add: cloud_idle_def fs_return_def fs_fail_def fs_get_def fs_some_def add_read_handle_def split: option.split)

lemma idle_reconcile: "cloud_idle (on_world (reconcile_cached_record r))"
  by (simp add: cloud_idle_def on_world_def reconcile_cached_record_def act_bind_def db_ask_def read_db_def
      act_fail_def act_return_def split: prod.split sum.split option.split)

lemma idle_open_guard: "cloud_idle (open_guard p)"
  unfolding open_guard_def
  by (rule idle_bind) (auto simp: cloud_idle_def on_world_def open_shared_def fs_put_def fs_fail_def lock_shared_def
      split: option.split node.split prod.split)

lemma idle_open_read: "cloud_idle (open_read_handle ino p)"
  unfolding open_read_handle_def by (intro idle_bind idle_basic idle_open_guard)

lemma idle_eio: "cloud_idle f \<Longrightarrow> w_cloud (fs_world (snd (or_eio f m))) = w_cloud (fs_world m)"
  by (simp add: cloud_idle_def or_eio_def split: prod.split sum.split) (metis snd_conv)

section \<open>Readers that must not start a download\<close>

lemma reconcile_stays_uncached:
  assumes r: "get_by_remote_id (m_remote_id (metadata r)) (w_db w) = Some r" "\<not> has_existing_cache (w_disk w) r"
    and run: "reconcile_cached_record r w = (Inr r', w')"
  shows "\<not> has_existing_cache (w_disk w') r'"
proof (cases "r' = r \<and> w' = w")
  case False
  let ?i = "m_remote_id (metadata r)"
  from run False have r': "get_by_remote_id ?i (snd (invalidate_cached_snapshot r (w_db w))) = Some r'"
      and w': "w_disk w' = w_disk w"
    by (auto simp: reconcile_cached_record_def act_bind_def db_ask_def read_db_def act_return_def act_fail_def
        split: if_splits prod.splits option.splits)
  from r(1) obtain q where q: "file_by_id ?i (w_db w) = Some q" "r = row_to_record q"
    by (auto simp: get_by_remote_id_def)
  have "snd (invalidate_cached_snapshot r (w_db w)) = touch_files (snapshot_guard r (w_db w)) detach_cache (w_db w)"
    by (simp add: invalidate_cached_snapshot_def claim_row_def)
  then have "r' = row_to_record (if snapshot_guard r (w_db w) q then detach_cache q else q)"
    using r' q(1) by (auto simp: get_by_remote_id_def file_by_id_touch detach_cache_def)
  then show ?thesis
    using r(2) q(2) w' by (auto simp: has_existing_cache_def detach_cache_def row_to_record_def)
qed (use r in simp)

lemma indexer_open:
  assumes req: "is_thumbnail_or_indexer_request req" and ro: "read_only flags"
    and r: "live_record ino m = Some r" "\<not> m_is_dir (metadata r)" "\<not> has_existing_cache (fs_disk m) r"
  shows "fst (open_file be req ino flags m) \<in> {Inl ENODATA, Inl EIO}"
proof -
  have row: "get_by_remote_id (m_remote_id (metadata r)) (fs_db m) = Some r"
  proof -
    obtain c :: file_record where c: "get_by_remote_id (m_remote_id (metadata c)) (fs_db m) = Some r"
      using r(1) by (cases "record_for_ino ino (fs_inodes m)") (simp_all add: live_record_def split: if_splits)
    then have "m_remote_id (metadata r) = m_remote_id (metadata c)"
      by (auto simp: get_by_remote_id_def row_to_record_def dest!: file_by_id_SomeD)
    with c show ?thesis by simp
  qed
  then have refresh: "refresh_record r m = r" by (simp add: refresh_record_def)
  obtain res :: "unit fault + file_record" and w where c: "reconcile_cached_record r (fs_world m) = (res, w)" by fastforce
  show ?thesis
  proof (cases res)
    case (Inl e)
    then show ?thesis
      using r c by (simp add: open_file_def refresh or_eio_def on_world_def)
  next
    case (Inr r')
    have "\<not> has_existing_cache (w_disk w) r'"
      by (rule reconcile_stays_uncached[of r "fs_world m"]) (use row r(3) c Inr in simp_all)
    then show ?thesis
      using r c Inr req ro
      by (simp add: open_file_def refresh or_eio_def on_world_def should_defer_hydration_def)
  qed
qed

lemma indexer_read:
  assumes req: "is_thumbnail_or_indexer_request req" and pos: "0 \<le> offset"
    and h: "map_of (fs_read_handles m) fh = Some h" "rh_deferred h = Some r"
      "\<not> has_existing_cache (fs_disk m) (refresh_record r m)"
  shows "read_file be req ino fh offset len m = (Inl ENODATA, m)"
  using assms by (simp add: read_file_def should_defer_hydration_def)
lemma map_handles_all:
  "(fh, h) \<in> set (map_handles p f hs) \<Longrightarrow> \<exists>h0. (fh, h0) \<in> set hs \<and> h = (if p h0 then f h0 else h0)"
  by auto

lemma read_only_open_idle:
  fixes be :: "('e, 'c) backend"
  assumes "read_only flags"
  shows "w_cloud (fs_world (snd (open_file be req ino flags m))) = w_cloud (fs_world m)"
proof (cases "live_record ino m")
  case None
  then show ?thesis by (simp add: open_file_def)
next
  case (Some rec)
  let ?c = "or_eio (on_world (reconcile_cached_record (refresh_record rec m)) :: ('c, file_record) local_fsact) m"
  obtain res m1 where c: "?c = (res, m1)" by fastforce
  have m1: "w_cloud (fs_world m1) = w_cloud (fs_world m)"
    using idle_eio[of "on_world (reconcile_cached_record (refresh_record rec m)) :: ('c, file_record) local_fsact" m,
      OF idle_reconcile] c by simp
  show ?thesis
  proof (cases res)
    case (Inl e)
    with Some c m1 show ?thesis by (simp add: open_file_def)
  next
    case (Inr r)
    have "w_cloud (fs_world (snd (open_deferred ino r m1))) = w_cloud (fs_world m1)"
      by (simp add: open_deferred_def idle_eio[OF idle_basic(5)] split: sum.split)
    moreover have "w_cloud (fs_world (snd (local_eio (open_read_handle ino p) m1))) = w_cloud (fs_world m1)" for p
      by (rule idle_eio[OF idle_open_read])
    ultimately show ?thesis using Some c m1 Inr assms by (simp add: open_file_def)
  qed
qed

section \<open>Properties\<close>

text \<open>C2: closing a handle that wrote makes the edit durable: the row is dirty with the length of
  the file on disk and the current time, the bytes are still there, the handle is gone, and an
  upload of the row is requested.\<close>

theorem closed_edit_is_durable:
  assumes wf: "wf_db (fs_db m)"
    and h: "map_of (fs_read_handles m) fh = None" "map_of (fs_write_handles m) fh = Some h"
      "\<not> wh_uploaded h" "wh_changed h" "\<not> wh_unlinked h"
    and bytes: "fs_disk m (wh_cache_path h) = Some (RegularFile len a)" "a \<noteq> OpenFails"
    and row: "file_by_id (wh_record_remote_id h) (fs_db m) = Some r" "f_cache_path r = Some (wh_cache_path h)"
    and q: "q_open (fs_queue m)"
  shows "\<exists>m' r' a'. release fh m = (Inr (), m') \<and> map_of (fs_write_handles m') fh = None \<and>
    file_by_id (wh_record_remote_id h) (fs_db m') = Some r' \<and> f_state r' = Dirty \<and>
    f_cache_path r' = Some (wh_cache_path h) \<and> f_size r' = clamp_size len \<and>
    f_modified_unix r' = w_now (fs_world m) \<and>
    fs_disk m' (wh_cache_path h) = Some (RegularFile len a') \<and>
    map_of (q_pending (fs_queue m')) (''upload:'' @ wh_record_remote_id h) \<noteq> None"
proof -
  let ?i = "wh_record_remote_id h" and ?p = "wh_cache_path h"
  let ?f = "\<lambda>r. r\<lparr>f_state := Dirty, f_size := clamp_size len, f_modified_unix := w_now (fs_world m)\<rparr>"
  let ?d = "touch_files (at_id ?i) ?f (fs_db m)"
  obtain q1 where q1: "send (Upload ?i) (fs_queue m) = (Inr (), q1)"
      "map_of (q_pending q1) (''upload:'' @ ?i) \<noteq> None"
    using send_effect[OF q, of "Upload ?i"] by (auto simp: command_key_def)
  define m1 where "m1 = m\<lparr>fs_world := (fs_world m)\<lparr>w_db := ?d\<rparr>,
      fs_inodes := replace_ino_record (wh_ino h) (row_to_record (?f r)) (fs_inodes m), fs_queue := q1,
      fs_write_handles := AList.update fh (h\<lparr>wh_uploaded := True\<rparr>) (fs_write_handles m)\<rparr>"
  have run: "queue_upload_handle fh m = (Inr () :: unit fault + unit, m1)"
    unfolding m1_def by (rule queue_upload_handle_effect[OF h(2-5) bytes row(1) q1(1)])
  define m2 where "m2 = drop_write_handle fh m1"
  have m2: "w_db (fs_world m2) = ?d" "fs_queue m2 = q1" "map_of (fs_write_handles m2) fh = None"
      "\<exists>a'. fs_disk m2 ?p = Some (RegularFile len a')"
    using bytes by (auto simp: m2_def drop_write_handle_def m1_def unlock_shared_def unlock_node_def
        split: access.splits)
  have d: "wf_db ?d" by (rule wf_touch_files[OF wf]) simp_all
  have r': "file_by_id ?i ?d = Some (?f r)"
    using row(1) file_by_id_SomeD[OF row(1)] by (simp add: file_by_id_touch at_id_def)
  obtain res d3 k3 where fin: "finish_pending_releases (?d, fs_disk m2) = (res, d3, k3)" by (metis prod_cases3)
  note spared = finish_releases_spares[OF d r' _ fin]
  have "release fh m = (Inr (), m2\<lparr>fs_world := (fs_world m2)\<lparr>w_db := d3, w_disk := k3\<rparr>\<rparr>)"
    using h fin m2(1) by (simp add: release_def run m2_def[symmetric] on_world_def finish_releases_def)
  then show ?thesis using spared row(2) m2 q1(2) by auto
qed

lemma closed_edit_is_durable_witness:
  "\<exists>m' r'. release 7 sample_mount = (Inr (), m') \<and> file_by_id ''l1'' (fs_db m') = Some r' \<and>
     f_state r' = Dirty \<and> f_size r' = clamp_size 9"
proof -
  let ?r = "sample_row ''l1'' None ''/D/t'' (Some ''/c/l1'') Dirty"
  have "fs_db sample_mount = sample_db" by code_simp
  moreover have "wf_db sample_db" "file_by_id ''l1'' sample_db = Some ?r" "f_cache_path ?r = Some ''/c/l1''"
    "q_open (fs_queue sample_mount)" "fs_disk sample_mount ''/c/l1'' = Some (RegularFile 9 Locked)"
    by code_simp+
  moreover have "map_of (fs_read_handles sample_mount) 7 = None"
    "map_of (fs_write_handles sample_mount) 7 = Some sample_writer"
    by (simp_all add: sample_mount_def)
  moreover have "\<not> wh_uploaded sample_writer" "wh_changed sample_writer" "\<not> wh_unlinked sample_writer"
    "wh_cache_path sample_writer = ''/c/l1''" "wh_record_remote_id sample_writer = ''l1''"
    by (simp_all add: sample_writer_def)
  ultimately show ?thesis
    using closed_edit_is_durable[of sample_mount 7 sample_writer 9 Locked ?r] by auto
qed

text \<open>C25: deleting a file by name succeeds and is durable: the row and its number are gone, a
  tombstone with its local and cloud identity waits in the database, the worker is told, no byte is
  removed yet, and every handle that is open on the file is marked unlinked.\<close>

theorem unlink_leaves_tombstone:
  assumes wf: "wf_db (fs_db m)" and name: "named_record parent name m = Inr (ino, r)" "\<not> m_is_dir (metadata r)"
    and row: "file_by_id (m_remote_id (metadata r)) (fs_db m) = Some q" and q: "q_open (fs_queue m)"
  shows "\<exists>m'. unlink parent name m = (Inr (), m') \<and> file_by_id (f_remote_id q) (fs_db m') = None \<and>
    record_for_ino ino (fs_inodes m') = None \<and> fs_disk m' = fs_disk m \<and>
    (\<exists>p\<in>set (t_deletes (fs_db m')). d_local_id p = Some (f_remote_id q) \<and>
       d_cloud_remote_id p = f_cloud_remote_id q) \<and>
    map_of (q_pending (fs_queue m')) (''delete:'' @ f_remote_id q) \<noteq> None \<and>
    (\<forall>(fh, h)\<in>set (fs_write_handles m'). wh_record_remote_id h = f_remote_id q \<longrightarrow> wh_unlinked h) \<and>
    (\<forall>(fh, h)\<in>set (fs_read_handles m'). rh_ino h = ino \<longrightarrow> rh_unlinked h)"
proof -
  let ?i = "m_remote_id (metadata r)"
  have id: "f_remote_id q = ?i" using file_by_id_SomeD[OF row] by simp
  obtain d' q' where del: "delete_record ino r m = (Inr () :: unit fault + unit,
      m\<lparr>fs_world := (fs_world m)\<lparr>w_db := d'\<rparr>, fs_inodes := remove_ino ino (fs_inodes m), fs_queue := q'\<rparr>)"
    and d': "file_by_id (f_remote_id q) d' = None"
    "\<exists>p\<in>set (t_deletes d'). d_local_id p = Some (f_remote_id q) \<and> d_cloud_remote_id p = f_cloud_remote_id q"
    "map_of (q_pending q') (''delete:'' @ f_remote_id q) \<noteq> None"
    by (rule delete_record_effect[OF wf row q])
  show ?thesis
  proof (cases "find_handle (writes_to ?i) (fs_write_handles m) = None \<and>
      find_handle (reads_from ino) (fs_read_handles m) = None")
    case True
    then have "\<forall>(fh, h)\<in>set (fs_write_handles m). wh_record_remote_id h \<noteq> f_remote_id q"
      "\<forall>(fh, h)\<in>set (fs_read_handles m). rh_ino h \<noteq> ino"
      by (auto simp: find_handle_def find_None_iff writes_to_def reads_from_def id)
    with True show ?thesis
      using name d' by (force simp: unlink_def unlink_record_with_open_handles_def Let_def run_simps or_eio_def del)
  next
    case False
    then show ?thesis
      using name d' id
      by (auto simp: unlink_def unlink_record_with_open_handles_def Let_def run_simps or_eio_def del
          mark_writers_def mark_readers_def writes_to_def reads_from_def)
  qed
qed


lemma unlink_leaves_tombstone_witness:
  "\<exists>m'. unlink 2 (Some ''b'') sample_mount = (Inr (), m') \<and> file_by_id ''f2'' (fs_db m') = None"
proof -
  let ?q = "sample_row ''f2'' (Some ''f2'') ''/D/b'' (Some ''/c/f2'') Cached"
  have "fs_db sample_mount = sample_db" by code_simp
  moreover have "wf_db sample_db" "named_record 2 (Some ''b'') sample_mount = Inr (4, row_to_record ?q)"
    "\<not> m_is_dir (metadata (row_to_record ?q))"
    "file_by_id (m_remote_id (metadata (row_to_record ?q))) sample_db = Some ?q" "f_remote_id ?q = ''f2''"
    "q_open (fs_queue sample_mount)"
    by code_simp+
  ultimately show ?thesis
    using unlink_leaves_tombstone[of sample_mount 2 "Some ''b''" 4 "row_to_record ?q" ?q] by auto
qed

text \<open>A lookup of an existing name answers the attributes of the row that owns the path now,
  under a number that leads to this row.\<close>

lemma lookup_answers_current_row:
  assumes ok: "table_ok (fs_inodes m)" "unat (next_ino (fs_inodes m)) + 1 < 2 ^ 64"
    and parent: "path_for_ino parent (fs_inodes m) = Some p"
    and row: "get_by_path (join_cloud_path p n) (fs_db m) = Some r" "item_record r"
      "get_by_remote_id (m_remote_id (metadata r)) (fs_db m) = Some r"
    and idle: "fs_write_handles m = []"
  shows "\<exists>i m'. lookup parent (Some n) m = (Inr (attr_for_record i r), m') \<and> i \<noteq> ROOT_INO \<and>
    live_record i m' = Some r \<and> fs_world m' = fs_world m"
proof -
  obtain i m' where run: "lookup_ino r (join_cloud_path p n) m = (i, m')" by fastforce
  have path: "normalize_cloud_path (join_cloud_path p n) = m_path (metadata r)"
    using row(1) by (auto simp: get_by_path_def row_to_record_def dest!: sql_first_SomeD)
  from lookup_ino_known[OF ok(1) row(2) path ok(2) run] obtain c where
    i: "i \<noteq> ROOT_INO" "fs_world m' = fs_world m" "fs_write_handles m' = []"
      "record_for_ino i (fs_inodes m') = Some c" "m_remote_id (metadata c) = m_remote_id (metadata r)"
    by (auto simp: idle)
  then have live: "live_record i m' = Some r" using row(3) by (simp add: live_record_def)
  with i have "attr_for_ino i m' = Some (attr_for_record i r)"
    by (simp add: attr_for_ino_def find_handle_def)
  with parent row(1) run have "lookup parent (Some n) m = (Inr (attr_for_record i r), m')"
    by (simp add: lookup_def Let_def reply_attr_def)
  with i live show ?thesis by blast
qed

lemma lookup_answers_current_row_witness:
  "\<exists>i m'. lookup 2 (Some ''b'') (sample_mount\<lparr>fs_write_handles := []\<rparr>) =
     (Inr (attr_for_record i (sample_record ''f2'' (Some ''f2'') ''/D/b'' (Some ''/c/f2'') Cached)), m')"
proof -
  let ?m = "sample_mount\<lparr>fs_write_handles := []\<rparr>"
  let ?r = "sample_record ''f2'' (Some ''f2'') ''/D/b'' (Some ''/c/f2'') Cached"
  have "table_ok (fs_inodes ?m)"
    by (simp add: sample_mount_def sample_inodes_def Let_def table_ok_def maps_ok_def kids_ok_def
        row_to_record_def sample_row_def)
  moreover have "fs_db ?m = sample_db" by code_simp
  moreover have "unat (next_ino (fs_inodes ?m)) + 1 < 2 ^ 64"
    by (simp add: sample_mount_def sample_inodes_def Let_def)
  moreover have "path_for_ino 2 (fs_inodes ?m) = Some ''/D''"
    "get_by_path (join_cloud_path ''/D'' ''b'') sample_db = Some ?r" "item_record ?r"
    "get_by_remote_id (m_remote_id (metadata ?r)) sample_db = Some ?r"
    by code_simp+
  ultimately show ?thesis
    using lookup_answers_current_row[of ?m 2 "''/D''" "''b''" ?r] by auto
qed

text \<open>Reading a directory in rounds, with room for at least one entry in each, yields the
  listing of the opened directory once, in order, with consecutive offsets.\<close>

lemma directory_read_is_complete:
  assumes "map_of (fs_directory_handles m) fh = Some entries" "0 < room" "length entries \<le> n"
  shows "map snd (read_rounds n room fh 0 m) = entries \<and>
    map fst (read_rounds n room fh 0 m) = [1..<Suc (length entries)]"
  using assms by (simp add: read_rounds_rest del: upt_Suc)

lemma directory_read_is_complete_witness:
  "map snd (read_rounds 9 2 8 0 (snd (opendir 2 sample_mount))) =
     [(2, DirectoryType, ''.''), (1, DirectoryType, ''..''), (3, RegularType, ''a''),
      (4, RegularType, ''b''), (5, RegularType, ''t'')]"
proof -
  have "map_of (fs_directory_handles (snd (opendir 2 sample_mount))) 8 =
     Some [(2, DirectoryType, ''.''), (1, DirectoryType, ''..''), (3, RegularType, ''a''),
      (4, RegularType, ''b''), (5, RegularType, ''t'')]" by code_simp
  from directory_read_is_complete[OF this, of 2 9] show ?thesis by simp
qed

text \<open>Opening a file for reading never calls the cloud, and a thumbnailer or indexer that meets
  a file without bytes on this machine gets an error instead of a download, at the open and at a
  read through a handle it was given.\<close>

lemma opening_never_downloads:
  fixes be :: "('e, 'c) backend"
  assumes "read_only flags"
  shows "w_cloud (fs_world (snd (open_file be req ino flags m))) = w_cloud (fs_world m) \<and>
    (is_thumbnail_or_indexer_request req \<and> live_record ino m = Some r \<and> \<not> m_is_dir (metadata r) \<and>
       \<not> has_existing_cache (fs_disk m) r \<longrightarrow>
       fst (open_file be req ino flags m) \<in> {Inl ENODATA, Inl EIO}) \<and>
    (is_thumbnail_or_indexer_request req \<and> 0 \<le> offset \<and> map_of (fs_read_handles m) fh = Some h \<and>
       rh_deferred h = Some r' \<and> \<not> has_existing_cache (fs_disk m) (refresh_record r' m) \<longrightarrow>
       read_file be req ino fh offset len m = (Inl ENODATA, m))"
  using read_only_open_idle[OF assms] indexer_open[OF _ assms] indexer_read by blast

lemma opening_never_downloads_witness:
  "w_cloud (fs_world (snd (open_file logging_backend \<lparr>rq_process_text = ''tracker-miner'', rq_executable_name = None\<rparr>
     4 0 \<lparr>fs_world = replay_world, fs_cache_dir = ''/c'', fs_inodes = sample_inodes,
       fs_queue = \<lparr>q_pending = [], q_channel = [], q_open = True\<rparr>, fs_read_handles = [], fs_write_handles = [],
       fs_next_fh = 8, fs_directory_handles = []\<rparr>))) = w_cloud replay_world"
  using opening_never_downloads[of 0 logging_backend] by (simp add: read_only_def)

end
