(* ===== verification/Mounts.thy ===== *)
theory Mounts
  imports Fuse
begin

text \<open>
  The mounted file system as a transition system: the handlers of Fuse, the jobs of the read pool
  and the other threads.  The laws the handlers need of the database are a locale over those of
  synchronisation and recovery; its interpretation on the database invariant gives the invariant of
  every reachable mount.
\<close>

section \<open>Invariants of handlers\<close>

named_theorems fs_intros \<open>preservation by handler actions\<close>

definition fs_keeps :: "(db \<Rightarrow> bool) \<Rightarrow> ('c mount \<Rightarrow> 'a \<times> 'c mount) \<Rightarrow> bool" where
  "fs_keeps I f = (\<forall>m. I (fs_db m) \<longrightarrow> I (fs_db (snd (f m))))"

lemma fs_keepsD: "fs_keeps I f \<Longrightarrow> I (fs_db m) \<Longrightarrow> I (fs_db (snd (f m)))"
  by (simp add: fs_keeps_def)

lemma fs_keeps_basic [fs_intros]:
  "fs_keeps I (fs_return a)" "fs_keeps I (fs_fail e)" "fs_keeps I (fs_get f)" "fs_keeps I (fs_some msg x)"
  "fs_keeps I (insert_inode r)" "fs_keeps I (fs_send c)" "fs_keeps I (add_read_handle h)"
  "fs_keeps I (add_write_handle h')" "fs_keeps I (sync_file p)" "fs_keeps I (file_len p)"
  by (auto simp: fs_keeps_def fs_return_def fs_fail_def fs_get_def fs_some_def insert_inode_def fs_send_def
      add_read_handle_def add_write_handle_def sync_file_def file_len_def
      split: option.split prod.split sum.split node.split)

lemma fs_keeps_bind [fs_intros]:
  "fs_keeps I f \<Longrightarrow> (\<And>a. fs_keeps I (k a)) \<Longrightarrow> fs_keeps I (fs_bind f k)"
  by (simp add: fs_keeps_def fs_bind_def split: prod.split sum.split) (metis snd_conv)

lemma fs_keeps_try [fs_intros]: "fs_keeps I f \<Longrightarrow> fs_keeps I (fs_try f)"
  by (simp add: fs_keeps_def fs_try_def split: prod.split) (metis snd_conv)

lemma fs_keeps_world [fs_intros]: "act_keeps (db_prop I) f \<Longrightarrow> fs_keeps I (on_world f)"
  by (simp add: fs_keeps_def act_keeps_def on_world_def split: prod.split) (metis snd_conv)

lemma fs_keeps_put [fs_intros]: "(\<And>m. fs_db (f m) = fs_db m) \<Longrightarrow> fs_keeps I (fs_put f)"
  by (simp add: fs_keeps_def fs_put_def)

lemma fs_keeps_cases [fs_intros]:
  "fs_keeps I f \<Longrightarrow> fs_keeps I g \<Longrightarrow> fs_keeps I (if b then f else g)"
  "fs_keeps I f \<Longrightarrow> (\<And>a. fs_keeps I (k a)) \<Longrightarrow> fs_keeps I (case x of None \<Rightarrow> f | Some a \<Rightarrow> k a)"
  "(\<And>a. fs_keeps I (j a)) \<Longrightarrow> (\<And>b. fs_keeps I (k' b)) \<Longrightarrow> fs_keeps I (case y of Inl a \<Rightarrow> j a | Inr b \<Rightarrow> k' b)"
  "(\<And>a b. fs_keeps I (l a b)) \<Longrightarrow> fs_keeps I (case z of (a, b) \<Rightarrow> l a b)"
  by (auto split: option.split sum.split prod.split)

lemma eio_keeps: "fs_keeps I f \<Longrightarrow> I (fs_db m) \<Longrightarrow> I (fs_db (snd (or_eio f m)))"
  by (simp add: fs_keeps_def or_eio_def split: prod.split sum.split) (metis snd_conv)

lemma reply_attr_db [simp]: "fs_db (snd (reply_attr ino m)) = fs_db m"
  by (simp add: reply_attr_def split: option.split)

text \<open>A handler goes on after a step that succeeded.\<close>

lemma then_keeps:
  assumes "I (fs_db (snd (f m)))"
    and "\<And>e m'. I (fs_db m') \<Longrightarrow> I (fs_db (snd (g e m')))" "\<And>a m'. I (fs_db m') \<Longrightarrow> I (fs_db (snd (k a m')))"
  shows "I (fs_db (snd (case f m of (Inl e, m') \<Rightarrow> g e m' | (Inr a, m') \<Rightarrow> k a m')))"
  using assms by (simp split: prod.split sum.split) (metis snd_conv)

lemma fs_keeps_at: "(\<And>m. fs_keeps I (F m)) \<Longrightarrow> fs_keeps I (\<lambda>m. F m m)"
  by (simp add: fs_keeps_def)

lemma fs_keeps_case_at:
  "(\<And>h. fs_keeps I (F h)) \<Longrightarrow> fs_keeps I (\<lambda>m. case g m of None \<Rightarrow> (Inr a, m) | Some h \<Rightarrow> F h m)"
  by (simp add: fs_keeps_def split: option.split)

lemma fs_db_puts [simp]:
  "fs_db (lock_shared p m) = fs_db m" "fs_db (unlock_shared p m) = fs_db m" "fs_db (unlock_guard g m) = fs_db m"
  "fs_db (set_write_handle fh f m) = fs_db m" "fs_db (set_read_handle fh f' m) = fs_db m"
  "fs_db (mark_writers q f m) = fs_db m" "fs_db (mark_readers q' f' m) = fs_db m"
  "fs_db (refresh_child_records p m) = fs_db m" "fs_db (rename_already_moved a b i p m) = fs_db m"
  "fs_db (drop_write_handle fh m) = fs_db m"
  by (auto simp: lock_shared_def unlock_shared_def unlock_guard_def set_write_handle_def set_read_handle_def
      mark_writers_def mark_readers_def refresh_child_records_def rename_already_moved_def
      drop_write_handle_def split: option.split)

lemma fs_keeps_unlock [fs_intros]: "fs_keeps I f \<Longrightarrow> fs_keeps I (or_unlock p f)"
  by (simp add: fs_keeps_def or_unlock_def split: prod.split sum.split) (metis snd_conv)

lemma act_keeps_files [keeps_intros]:
  "act_keeps (db_prop I) (create_new_file p)" "act_keeps (db_prop I) (open_or_create p)"
  "act_keeps (db_prop I) (set_len p n)" "act_keeps (db_prop I) (write_slice p x y)"
  by (auto simp: act_keeps_def create_new_file_def open_or_create_def set_len_def write_slice_def
      split: option.split node.split)

text \<open>The database operations of the handlers, over those of synchronisation and recovery.\<close>

locale session_store = work_store +
  assumes started: "I d \<Longrightarrow> I (snd (begin_cached_write rec d))"
    and edited: "I d \<Longrightarrow> I (snd (mark_dirty_with_size now i n d))"
    and created: "I d \<Longrightarrow> I (snd (create_local_file_with_mode now i p c mode d))"
    and rolled_back: "I d \<Longrightarrow> I (snd (remove_by_remote_id i d))"
    and made: "I d \<Longrightarrow> I (snd (create_local_directory_with_mode now i p mode d))"
    and unlinked: "I d \<Longrightarrow> I (snd (queue_pending_delete now rec d))"
    and replaced: "I d \<Longrightarrow> I (snd (replace_file_locally now i j p d))"
    and moved: "I d \<Longrightarrow> I (snd (move_subtree_and_queue now i p d))"
    and mode_set: "I d \<Longrightarrow> I (snd (set_local_mode i mode d))"
    and unreferenced: "I d \<Longrightarrow> remove_unreferenced_cache p (d, k) = (res, d', k') \<Longrightarrow> I d'"
begin

lemma keeps_try_releases [keeps_intros]: "act_keeps (db_prop I) try_releases"
  by (auto simp: act_keeps_def try_releases_def split: prod.split sum.split dest: release)

lemma keeps_remove_cache [keeps_intros]: "act_keeps (db_prop I) (remove_cache_act p)"
  by (auto simp: act_keeps_def remove_cache_act_def split: prod.split sum.split dest: unreferenced)

lemma fs_open_guard [fs_intros]: "fs_keeps I (open_guard p)"
  unfolding open_guard_def by (intro fs_intros keeps_intros) simp_all

lemma fs_ensure [fs_intros]: "backend_keeps (db_prop I) be \<Longrightarrow> fs_keeps I (ensure_cached be r)"
  unfolding ensure_cached_def[abs_def] by (rule fs_keeps_at) (intro fs_intros keeps_intros)

lemma fs_roll_back [keeps_intros]: "act_keeps (db_prop I) (roll_back_create i p)"
  unfolding roll_back_create_def by (intro keeps_intros rolled_back)

lemma fs_create_new [fs_intros]: "fs_keeps I (create_new_upload u p mode)"
  unfolding create_new_upload_def[abs_def] Let_def
  by (rule fs_keeps_at) (intro fs_intros keeps_intros created)

lemma fs_overwrite [fs_intros]:
  "backend_keeps (db_prop I) be \<Longrightarrow> fs_keeps I (create_overwrite_upload be r t)"
  unfolding create_overwrite_upload_def Let_def
  by (intro fs_intros keeps_intros mark attach) simp_all

lemma fs_create_upload [fs_intros]:
  "backend_keeps (db_prop I) be \<Longrightarrow> fs_keeps I (create_upload_with_mode be u i name flags mode)"
  unfolding create_upload_with_mode_def Let_def by (intro fs_intros)

lemma fs_begin_write [fs_intros]: "fs_keeps I (begin_handle_write fh)"
  unfolding begin_handle_write_def by (intro fs_intros keeps_intros started) simp_all

lemma fs_queue_upload [fs_intros]: "fs_keeps I (queue_upload_handle fh)"
  unfolding queue_upload_handle_def by (intro fs_intros keeps_intros edited) simp_all

lemma fs_sync [fs_intros]:
  "fs_keeps I (sync_handle fh)" "fs_keeps I (sync_cached_record ino)" "fs_keeps I (sync_read_handle fh)"
  unfolding sync_handle_def sync_cached_record_def
  by (intro fs_intros | auto simp: fs_keeps_def sync_read_handle_def sync_file_def split: option.split node.split)+

lemma fs_truncate [fs_intros]:
  "backend_keeps (db_prop I) be \<Longrightarrow> fs_keeps I (truncate_without_handle be ino n)"
  unfolding truncate_without_handle_def Let_def by (intro fs_intros keeps_intros attach edited) simp_all

lemma fs_delete [fs_intros]: "fs_keeps I (delete_record ino r)"
  unfolding delete_record_def by (intro fs_intros keeps_intros unlinked) simp_all

lemma fs_unlink_open [fs_intros]: "fs_keeps I (unlink_record_with_open_handles ino r)"
  unfolding unlink_record_with_open_handles_def Let_def by (intro fs_intros) simp_all

lemma fs_mkdir [fs_intros]: "fs_keeps I (create_directory u i name mode)"
  unfolding create_directory_def Let_def by (intro fs_intros keeps_intros made)

lemma fs_cleanup [fs_intros]: "fs_keeps I (cleanup_unlinked_cache p)"
  unfolding cleanup_unlinked_cache_def by (intro fs_intros keeps_intros)

lemma fs_rename_onto [fs_intros]: "fs_keeps I (rename_onto ino r t p)"
  unfolding rename_onto_def Let_def by (intro fs_intros keeps_intros replaced) simp_all

lemma fs_rename [fs_intros]: "fs_keeps I (rename_record i n j n')"
  unfolding rename_record_def rename_subtree_def Let_def by (intro fs_intros keeps_intros moved) simp_all

lemma fs_release_read [fs_intros]: "fs_keeps I (release_read_handle fh)"
  unfolding release_read_handle_def[abs_def]
  by (rule fs_keeps_case_at) (intro fs_intros keeps_intros, simp_all)

lemma fs_read_bytes [fs_intros]: "fs_keeps I (read_bytes p x y)" "fs_keeps I (read_open_handle fh x y)"
  by (auto simp: fs_keeps_def read_bytes_def read_open_handle_def split: option.split node.split)

lemma fs_open_read [fs_intros]: "fs_keeps I (open_read_handle ino p)"
  unfolding open_read_handle_def by (intro fs_intros)

lemma fs_fill [fs_intros]: "backend_keeps (db_prop I) be \<Longrightarrow> fs_keeps I (fill_guard be fh r g)"
  unfolding fill_guard_def by (intro fs_intros keeps_intros) simp_all

end


section \<open>The session\<close>

text \<open>What may happen to a mounted file system: a handler, a job of the read pool, or a change of
  the world and the queue by the other threads, of which only the invariant is known.\<close>

inductive fs_step :: "(db \<Rightarrow> bool) \<Rightarrow> ('e, 'c) backend \<Rightarrow> 'c mount \<Rightarrow> 'c mount \<Rightarrow> bool"
  for I :: "db \<Rightarrow> bool" and be :: "('e, 'c) backend" where
  lookup: "fs_step I be m (snd (lookup parent name m))"
| setattr: "fs_step I be m (snd (setattr be ino mode len fh m))"
| opendir: "fs_step I be m (snd (opendir ino m))"
| releasedir: "fs_step I be m (snd (releasedir fh m))"
| open_file: "fs_step I be m (snd (open_file be req ino flags m))"
| read_file: "fs_step I be m (snd (read_file be req ino fh offset count m))"
| read_job: "fs_step I be m (snd (run_read_job be fh r generation pos count m))"
| write_file: "fs_step I be m (snd (write_file fh offset count m))"
| fsync: "fs_step I be m (snd (fsync ino fh m))"
| release: "fs_step I be m (snd (release fh m))"
| mkdir: "fs_step I be m (snd (mkdir uniq parent name perm umask m))"
| unlink: "fs_step I be m (snd (unlink parent name m))"
| rmdir: "fs_step I be m (snd (rmdir parent name m))"
| rename: "fs_step I be m (snd (rename parent name newparent newname m))"
| create: "fs_step I be m (snd (create be uniq parent name perm umask flags m))"
| others: "I (w_db w) \<Longrightarrow> fs_step I be m (m\<lparr>fs_world := w, fs_queue := q\<rparr>)"

inductive reachable_mount :: "(db \<Rightarrow> bool) \<Rightarrow> ('e, 'c) backend \<Rightarrow> 'c mount \<Rightarrow> bool"
  for I :: "db \<Rightarrow> bool" and be :: "('e, 'c) backend" where
  opened: "I (w_db w) \<Longrightarrow> new_with_upload_concurrency dir w = ((Inr m, w') :: ('e fault + 'c mount) \<times> 'c world) \<Longrightarrow> reachable_mount I be m"
| step: "reachable_mount I be m \<Longrightarrow> fs_step I be m m' \<Longrightarrow> reachable_mount I be m'"

context session_store
begin

lemma eio: "fs_keeps I f \<Longrightarrow> I (fs_db m) \<Longrightarrow> I (fs_db (snd (or_eio f m)))"
  by (rule eio_keeps)

lemma kept: "fs_keeps I f \<Longrightarrow> I (fs_db m) \<Longrightarrow> I (fs_db (snd (f m)))"
  by (rule fs_keepsD)

lemma step_keeps:
  fixes be :: "('e, 'c) backend"
  assumes be: "backend_keeps (db_prop I) be"
  shows "fs_step I be m m' \<Longrightarrow> I (fs_db m) \<Longrightarrow> I (fs_db m')"
proof (induction rule: fs_step.induct)
  case (lookup m parent name)
  then show ?case
    by (auto simp: lookup_def lookup_ino_def reply_attr_def Let_def split: option.split prod.split)
next
  case (setattr m ino mode len fh)
  have mode: "I (fs_db (snd (set_mode_step ino mode m)))"
    using setattr mode_set
    by (auto simp: set_mode_step_def split: option.split prod.split sum.split) (metis snd_conv)+
  have len: "I (fs_db (snd (set_size_step be ino len fh m1)))" if "I (fs_db m1)" for m1
  proof (cases len)
    case (Some n)
    show ?thesis unfolding set_size_step_def Some option.case
      by (rule eio[OF _ that]) (intro fs_intros keeps_intros be, simp_all)
  qed (simp add: set_size_step_def that)
  show ?case unfolding setattr_def
  proof (rule then_keeps[where I = I])
    show "I (fs_db (snd (case set_size_step be ino len fh m1 of (Inl e, m2) \<Rightarrow> (Inl e, m2)
        | (Inr x, m2) \<Rightarrow> reply_attr ino m2)))" if "I (fs_db m1)" for m1
      by (rule then_keeps[where I = I]) (simp_all add: len that)
  qed (simp_all add: mode)
next
  case (opendir m ino)
  then show ?case by (simp add: opendir_def Let_def refresh_child_records_def split: option.split)
next
  case (releasedir m fh)
  then show ?case by (simp add: releasedir_def)
next
  case (open_file m req ino flags)
  have first: "I (fs_db (snd (local_eio (on_world (reconcile_cached_record r)) m)))" for r
    by (rule eio[OF _ open_file]) (intro fs_intros keeps_intros)
  have opened: "I (fs_db (snd (or_eio (create_overwrite_upload be r t) m1)))"
      "I (fs_db (snd (local_eio (open_read_handle ino p) m1)))"
      "I (fs_db (snd (open_deferred ino r m1)))" if "I (fs_db m1)" for r t p m1
    by (simp_all add: that open_deferred_def eio[OF fs_overwrite[OF be] that] eio[OF fs_open_read that]
        eio[OF fs_keeps_basic(7) that] split: sum.split)
  show ?case
  proof (cases "live_record ino m")
    case (Some rec)
    show ?thesis
      using open_file
      by (auto simp: open_file_def Some opened intro!: then_keeps[where I = I] first)
  qed (simp add: open_file_def open_file)
next
  case (read_file m req ino fh offset count)
  have "I (fs_db (snd (local_eio (fs_bind (read_open_handle fh x count) (\<lambda>n. fs_return (Bytes n))) m)))" for x
    by (rule eio[OF _ read_file]) (intro fs_intros)
  moreover have "I (fs_db (snd (or_eio (fs_bind (ensure_cached be r) (\<lambda>path.
      fs_bind (read_bytes path x count) (\<lambda>n. fs_return (Bytes n)))) m)))" for r x
    by (rule eio[OF _ read_file]) (intro fs_intros be)
  ultimately show ?case
    using read_file by (simp add: read_file_def Let_def split: option.split)
next
  case (read_job m fh r generation pos count)
  have "I (fs_db (snd (fs_bind (fill_guard be fh r generation) (\<lambda>path. read_bytes path pos count) m)))"
    by (rule kept[OF _ read_job]) (intro fs_intros be)
  then show ?case unfolding run_read_job_def by (rule then_keeps[where I = I]) simp_all
next
  case (write_file m fh offset count)
  have "I (fs_db (snd (if count = 0 then (Inr (), m) else local_eio (begin_handle_write fh) m)))"
    by (simp add: eio[OF fs_begin_write write_file] write_file)
  moreover have "I (fs_db (snd (local_eio (fs_bind (on_world (write_slice p x y)) (\<lambda>_.
      fs_bind (fs_put (on_inodes t)) (\<lambda>_. fs_return count))) m1)))" if "I (fs_db m1)" for p x y t m1
    by (rule eio[OF _ that]) (intro fs_intros keeps_intros, simp)
  ultimately show ?case
    using write_file by (auto simp: write_file_def intro!: then_keeps[where I = I] split: option.split)
next
  case (fsync m ino fh)
  show ?case unfolding fsync_def by (rule eio[OF _ fsync]) (intro fs_intros)
next
  case (release m fh)
  have "I (fs_db (snd (local_eio (release_read_handle fh) m)))"
    by (rule eio[OF fs_release_read release])
  moreover have "I (fs_db (snd ((queue_upload_handle fh :: ('c, unit) local_fsact) m)))"
    by (rule kept[OF fs_queue_upload release])
  moreover have "I (fs_db (snd ((on_world finish_releases :: ('c, unit) local_fsact) m1)))" if "I (fs_db m1)" for m1
    by (rule kept[OF _ that]) (intro fs_intros keeps_intros)
  moreover have "I (fs_db (snd ((cleanup_unlinked_cache p :: ('c, unit) local_fsact) m1)))" if "I (fs_db m1)" for m1 p
    by (rule kept[OF fs_cleanup that])
  ultimately show ?case by (simp add: release_def Let_def split: option.split)
next
  case (mkdir m uniq parent name perm umask)
  show ?case unfolding mkdir_def by (rule eio[OF _ mkdir]) (intro fs_intros)
next
  case (unlink m parent name)
  have first: "I (fs_db (snd (local_eio (unlink_record_with_open_handles ino r) m)))" for ino r
    by (rule eio[OF fs_unlink_open unlink])
  have closed: "I (fs_db (snd (local_eio (delete_record ino r) m1)))" if "I (fs_db m1)" for ino r m1
    by (rule eio[OF fs_delete that])
  show ?case
  proof (cases "named_record parent name m")
    case (Inr p)
    obtain ino r where p: "p = (ino, r)" by (cases p)
    obtain res m1 where c: "local_eio (unlink_record_with_open_handles ino r) m = (res, m1)" by fastforce
    then have "I (fs_db m1)" using first[of ino r] by simp
    then show ?thesis
      using unlink by (cases res) (auto simp: unlink_def Inr p c closed split: bool.split)
  qed (simp add: unlink_def unlink)
next
  case (rmdir m parent name)
  have "I (fs_db (snd (local_eio (delete_record ino r) m)))" for ino r
    by (rule eio[OF fs_delete rmdir])
  with rmdir show ?case by (auto simp: rmdir_def split: prod.split sum.split)
next
  case (rename m parent name newparent newname)
  show ?case unfolding rename_def by (rule eio[OF fs_rename rename])
next
  case (create m uniq parent name perm umask flags)
  show ?case unfolding create_def by (rule eio[OF _ create]) (intro fs_intros be)
next
  case (others w m q)
  then show ?case by simp
qed

end

interpretation session_wf: session_store wf_db
proof unfold_locales
  show "wf_db d'" if "wf_db d" "remove_unreferenced_cache p (d, k) = (res, d', k')" for d p k res d' k'
    using reclaim_retired.step_wf[of "(d, k)" p] that by simp
qed (simp_all add: wf_cache_claims wf_create_file wf_remove_by_remote_id wf_create_directory
    wf_queue_pending_delete wf_replace_file_locally wf_move_subtree_and_queue wf_set_mode)

section \<open>Properties\<close>



end
