(* ===== verification/LocalPaths.thy ===== *)
theory LocalPaths
  imports Prelude
begin

text \<open>
  Local paths: std::path::Path as the code uses it, and what the local file system answers.  A
  path is the list of its components; its text is the canonical one (a path that was written with
  doubled slashes has the components, and so the text, of the plain path).  The file system is a
  record of the functions of std::fs the code calls.
\<close>

section \<open>Paths\<close>

record local_path =
  lp_absolute :: bool
  lp_names :: "string list"

definition lp_components :: "local_path \<Rightarrow> string list" where
  "lp_components p = (if lp_absolute p then [''/''] else []) @ lp_names p"

definition lp_parent :: "local_path \<Rightarrow> local_path option" where
  "lp_parent p = (if lp_names p = [] then None else Some (p\<lparr>lp_names := butlast (lp_names p)\<rparr>))"

definition lp_starts_with :: "local_path \<Rightarrow> local_path \<Rightarrow> bool" where
  "lp_starts_with p root =
     (take (length (lp_components root)) (lp_components p) = lp_components root)"

text \<open>Path::strip_prefix: what is left is relative, unless nothing was removed.\<close>

definition lp_strip_prefix :: "local_path \<Rightarrow> local_path \<Rightarrow> local_path option" where
  "lp_strip_prefix p root =
     (if \<not> lp_starts_with p root then None
      else if lp_components root = [] then Some p
      else Some \<lparr>lp_absolute = False, lp_names = drop (length (lp_components root)) (lp_components p)\<rparr>)"

definition lp_join :: "local_path \<Rightarrow> string \<Rightarrow> local_path" where
  "lp_join p name = p\<lparr>lp_names := lp_names p @ [name]\<rparr>"

definition lp_count :: "local_path \<Rightarrow> nat" where
  "lp_count p = length (lp_components p)"

text \<open>Path::join: an absolute path replaces the base.\<close>

definition lp_append :: "local_path \<Rightarrow> local_path \<Rightarrow> local_path" where
  "lp_append base p =
     (if lp_absolute p \<or> lp_components base = [] then p
      else base\<lparr>lp_names := lp_names base @ filter (\<lambda>n. n \<noteq> ''.'') (lp_names p)\<rparr>)"

text \<open>Path::ancestors, the path itself first.\<close>

fun lp_prefixes :: "nat \<Rightarrow> local_path \<Rightarrow> local_path list" where
  "lp_prefixes 0 p = [p\<lparr>lp_names := []\<rparr>]"
| "lp_prefixes (Suc n) p = p\<lparr>lp_names := take (Suc n) (lp_names p)\<rparr> # lp_prefixes n p"

definition lp_ancestors :: "local_path \<Rightarrow> local_path list" where
  "lp_ancestors p = lp_prefixes (length (lp_names p)) p"

text \<open>Path::file_name: none for a path that ends in a parent component.\<close>

definition lp_file_name :: "local_path \<Rightarrow> string option" where
  "lp_file_name p =
     (if lp_names p = [] \<or> last (lp_names p) \<in> {''..'', ''.''} then None else Some (last (lp_names p)))"

text \<open>to_string_lossy and Path::new; a dot component counts only at the start of a relative path.\<close>

definition slashed :: "string list \<Rightarrow> string" where
  "slashed names = concat (map (Cons (CHR ''/'')) names)"

definition lp_text :: "local_path \<Rightarrow> string" where
  "lp_text p =
     (if lp_absolute p then (if lp_names p = [] then ''/'' else slashed (lp_names p))
      else drop 1 (slashed (lp_names p)))"

definition lp_of_text :: "string \<Rightarrow> local_path" where
  "lp_of_text s =
     (let parts = split_on (CHR ''/'') s;
          names = filter (\<lambda>n. n \<noteq> [] \<and> n \<noteq> ''.'') parts;
          rooted = (take 1 s = ''/'') in
      \<lparr>lp_absolute = rooted,
       lp_names = (if \<not> rooted \<and> take 1 parts = [''.''] then ''.'' # names else names)\<rparr>)"

section \<open>The file system\<close>

datatype io_kind = NotFound | OtherIo

datatype node_type = RegularNode | DirectoryNode | SymlinkNode | SpecialNode

text \<open>Length and modification time; None when the time is unavailable or before the epoch.\<close>

record file_meta =
  fm_type :: node_type
  fm_len :: u64
  fm_modified :: "(u64 \<times> u32) option"

record local_fs =
  lf_symlink_metadata :: "local_path \<Rightarrow> io_kind + file_meta"
  lf_metadata :: "local_path \<Rightarrow> io_kind + file_meta"
  lf_read_dir :: "local_path \<Rightarrow> io_kind + (io_kind + string) list"
  lf_canonicalize :: "local_path \<Rightarrow> io_kind + local_path"

text \<open>Path::exists and Path::is_file follow links and answer no on every error.\<close>

definition local_exists :: "local_fs \<Rightarrow> local_path \<Rightarrow> bool" where
  "local_exists fs p = (case lf_metadata fs p of Inl e \<Rightarrow> False | Inr m \<Rightarrow> True)"

definition local_is_file :: "local_fs \<Rightarrow> local_path \<Rightarrow> bool" where
  "local_is_file fs p = (case lf_metadata fs p of Inl e \<Rightarrow> False | Inr m \<Rightarrow> fm_type m = RegularNode)"

section \<open>Facts\<close>

lemma lp_eq_components:
  "CHR ''/'' \<notin> set (concat (lp_names p)) \<Longrightarrow> CHR ''/'' \<notin> set (concat (lp_names q)) \<Longrightarrow>
   lp_components p = lp_components q \<Longrightarrow> p = q"
  by (cases p; cases q) (auto simp: lp_components_def split: if_splits)

lemma starts_with_refl [simp]: "lp_starts_with p p"
  by (simp add: lp_starts_with_def)

lemma starts_with_iff: "lp_starts_with p root \<longleftrightarrow> prefix (lp_components root) (lp_components p)"
  unfolding lp_starts_with_def by (metis append_eq_conv_conj append_take_drop_id prefixE prefixI)

lemma starts_with_trans: "lp_starts_with a b \<Longrightarrow> lp_starts_with b c \<Longrightarrow> lp_starts_with a c"
  unfolding starts_with_iff by (rule prefix_order.trans)

lemma starts_with_join [simp]: "lp_starts_with (lp_join p n) p"
  by (simp add: starts_with_iff lp_join_def lp_components_def)

lemma starts_with_comparable:
  "lp_starts_with p a \<Longrightarrow> lp_starts_with p b \<Longrightarrow> lp_starts_with a b \<or> lp_starts_with b a"
  unfolding starts_with_iff using prefix_same_cases by blast

definition plain_name :: "string \<Rightarrow> bool" where
  "plain_name n = (n \<noteq> [] \<and> n \<noteq> ''.'' \<and> CHR ''/'' \<notin> set n)"

lemma split_slashed:
  "List.list_all plain_name ns \<Longrightarrow> split_on (CHR ''/'') (slashed ns) = [] # ns"
proof (induction ns)
  case (Cons n ns)
  then have n: "CHR ''/'' \<notin> set n" by (simp add: plain_name_def)
  have "split_on (CHR ''/'') (n @ slashed ns) = n # tl (split_on (CHR ''/'') (slashed ns))"
  proof (cases ns)
    case Nil
    then show ?thesis using n by (simp add: slashed_def split_on_none)
  next
    case (Cons m ms)
    then have "slashed ns = CHR ''/'' # m @ slashed ms" by (simp add: slashed_def)
    then show ?thesis using n by (simp add: split_on_append)
  qed
  with Cons show ?case by (simp add: slashed_def)
qed (simp add: slashed_def)

text \<open>A rooted path of plain names is recovered from its text.\<close>

lemma text_round_trip:
  assumes "lp_absolute p" "List.list_all plain_name (lp_names p)"
  shows "lp_of_text (lp_text p) = p"
proof -
  have f: "filter (\<lambda>n. n \<noteq> [] \<and> n \<noteq> ''.'') (lp_names p) = lp_names p"
    using assms(2) by (auto simp: filter_id_conv list_all_iff plain_name_def)
  have h: "take 1 (slashed (lp_names p)) = ''/''" if "lp_names p \<noteq> []"
    using that by (cases "lp_names p") (simp_all add: slashed_def)
  show ?thesis
  proof (cases "lp_names p = []")
    case True
    with assms(1) show ?thesis by (cases p) (simp add: lp_of_text_def lp_text_def Let_def)
  next
    case False
    with assms(1) h f split_slashed[OF assms(2)] show ?thesis
      by (cases p) (simp add: lp_of_text_def lp_text_def Let_def)
  qed
qed

lemma text_inj:
  "lp_absolute p \<Longrightarrow> List.list_all plain_name (lp_names p) \<Longrightarrow> lp_absolute q \<Longrightarrow>
   List.list_all plain_name (lp_names q) \<Longrightarrow> lp_text p = lp_text q \<Longrightarrow> p = q"
  using text_round_trip by metis

end
