(* ===== verification/Config.thy ===== *)
theory Config
  imports LocalPaths Paths Domain
begin

text \<open>
  crates/twodrive-core/src/config/mod.rs and config/onedrive.rs: the configuration with its
  defaults and the intervals derived from it, and AppPaths of paths.rs.  The TOML text of a
  configuration is the record it encodes; the environment is a parameter.
\<close>

type_synonym u8 = "8 word"

section \<open>Records\<close>

record graph_config =
  gc_client_id :: string
  gc_tenant :: string
  gc_redirect_uri :: string
  gc_scopes :: "string list"

record cache_config =
  cc_retain_for :: string
  cc_max_size :: string

record power_config =
  pc_ac_sync_interval :: string
  pc_battery_sync_interval :: string
  pc_ac_download_concurrency :: u8
  pc_battery_download_concurrency :: u8
  pc_ac_upload_concurrency :: u8
  pc_battery_upload_concurrency :: u8

record known_folder_config =
  kc_local :: string
  kc_remote :: string

record known_folders_config =
  kf_enabled :: bool
  kf_mode :: string
  kf_debounce :: string
  kf_rescan_interval :: string
  kf_startup_scan :: bool
  kf_upload_deletes :: bool
  kf_exclude_names :: "string list"
  kf_upload_rate_window :: string
  kf_max_file_uploads :: u32
  kf_max_project_uploads :: u32
  kf_upload_rate_roots :: "string list"
  kf_exclude_suffixes :: "string list"
  kf_folders :: "known_folder_config list"

record config =
  c_graph :: graph_config
  c_cache :: cache_config
  c_power :: power_config
  c_known_folders :: known_folders_config

section \<open>Defaults\<close>

definition DEFAULT_GRAPH_CLIENT_ID :: string where
  "DEFAULT_GRAPH_CLIENT_ID = ''178705ac-2286-441b-9652-1a4d86be2c51''"

text \<open>Placeholders of old templates stand for the public identifier.\<close>

definition deserialize_client_id :: "string \<Rightarrow> string" where
  "deserialize_client_id value =
     (if trim value \<in> {[], ''PASTE_AZURE_APP_CLIENT_ID_HERE'', ''YOUR_AZURE_APP_CLIENT_ID''}
      then DEFAULT_GRAPH_CLIENT_ID else value)"

definition default_graph :: graph_config where
  "default_graph = \<lparr>gc_client_id = DEFAULT_GRAPH_CLIENT_ID, gc_tenant = ''common'',
     gc_redirect_uri = ''http://localhost:53682'',
     gc_scopes = [''Files.ReadWrite'', ''User.Read'', ''offline_access'', ''openid'', ''profile'']\<rparr>"

definition default_cache :: cache_config where
  "default_cache = \<lparr>cc_retain_for = ''30d'', cc_max_size = ''20GiB''\<rparr>"

definition default_power :: power_config where
  "default_power = \<lparr>pc_ac_sync_interval = ''15m'', pc_battery_sync_interval = ''60m'',
     pc_ac_download_concurrency = 4, pc_battery_download_concurrency = 1,
     pc_ac_upload_concurrency = 4, pc_battery_upload_concurrency = 2\<rparr>"

definition default_known_folder :: known_folder_config where
  "default_known_folder = \<lparr>kc_local = [], kc_remote = ''/''\<rparr>"

definition default_known_folders :: known_folders_config where
  "default_known_folders = \<lparr>kf_enabled = False, kf_mode = ''upload_only'', kf_debounce = ''5s'',
     kf_rescan_interval = ''15m'', kf_startup_scan = True, kf_upload_deletes = False,
     kf_exclude_names = [''node_modules''], kf_upload_rate_window = ''20s'',
     kf_max_file_uploads = 25, kf_max_project_uploads = 180, kf_upload_rate_roots = [],
     kf_exclude_suffixes = [''.crdownload'', ''.part'', ''.tmp'', ''.download'', ''.temp'', ''.partial'',
       ''.filepart'', ''.opdownload'', ''.aria2'', ''.!qB'', ''.swp'', ''.swo'', ''.swx'', ''.bak''],
     kf_folders = [\<lparr>kc_local = ''~/Pictures'', kc_remote = ''/Pictures''\<rparr>,
       \<lparr>kc_local = ''~/Downloads'', kc_remote = ''/Downloads''\<rparr>]\<rparr>"

definition default_config :: config where
  "default_config = \<lparr>c_graph = default_graph, c_cache = default_cache, c_power = default_power,
     c_known_folders = default_known_folders\<rparr>"

section \<open>Files and intervals\<close>

text \<open>The configuration file: absent, unreadable or the record it encodes.\<close>

datatype config_error = IoFailed | ParseFailed | HomeNotSet | LoginNotConfigured

type_synonym config_file = "(config_error + config) option"

definition save_config :: "config \<Rightarrow> config_file \<Rightarrow> config_file" where
  "save_config c file = Some (Inr c)"

definition load_or_create :: "config_file \<Rightarrow> (config_error + config) \<times> config_file" where
  "load_or_create file =
     (case file of
        None \<Rightarrow> (Inr default_config, save_config default_config file)
      | Some r \<Rightarrow> (r, file))"

definition map_ok :: "('a \<Rightarrow> 'b) \<Rightarrow> 'e + 'a \<Rightarrow> 'e + 'b" where
  "map_ok f r = and_then r (\<lambda>a. Inr (f a))"

definition cache_retain_seconds :: "config \<Rightarrow> db_error + int" where
  "cache_retain_seconds c = parse_duration_seconds (cc_retain_for (c_cache c))"

definition known_folder_debounce_seconds :: "config \<Rightarrow> db_error + u64" where
  "known_folder_debounce_seconds c =
     map_ok (\<lambda>v. of_int (max v 1)) (parse_duration_seconds (kf_debounce (c_known_folders c)))"

definition known_folder_rescan_seconds :: "config \<Rightarrow> db_error + u64" where
  "known_folder_rescan_seconds c =
     map_ok (\<lambda>v. if v \<le> 0 then 0 else of_int (max v 30))
       (parse_duration_seconds (kf_rescan_interval (c_known_folders c)))"

definition known_folder_upload_rate_seconds :: "config \<Rightarrow> db_error + u64" where
  "known_folder_upload_rate_seconds c =
     map_ok (\<lambda>v. of_int (max v 1)) (parse_duration_seconds (kf_upload_rate_window (c_known_folders c)))"

definition validate_graph_login :: "config \<Rightarrow> config_error + unit" where
  "validate_graph_login c =
     (if trim (gc_client_id (c_graph c)) = [] \<or>
         gc_client_id (c_graph c) = ''PASTE_AZURE_APP_CLIENT_ID_HERE''
      then Inl LoginNotConfigured else Inr ())"

section \<open>Application directories\<close>

record app_paths =
  ap_config_dir :: local_path
  ap_config_path :: local_path
  ap_data_dir :: local_path
  ap_cache_dir :: local_path
  ap_db_path :: local_path
  ap_mount_dir :: local_path
  ap_token_path :: local_path

definition env_dir :: "(string \<Rightarrow> string option) \<Rightarrow> string \<Rightarrow> local_path \<Rightarrow> local_path" where
  "env_dir env var fallback = (case env var of Some v \<Rightarrow> lp_of_text v | None \<Rightarrow> fallback)"

definition discover :: "(string \<Rightarrow> string option) \<Rightarrow> config_error + app_paths" where
  "discover env =
     (case env ''HOME'' of
        None \<Rightarrow> Inl HomeNotSet
      | Some h \<Rightarrow>
          let home = lp_of_text h;
              config_dir = lp_join (env_dir env ''XDG_CONFIG_HOME'' (lp_join home ''.config'')) ''twodrive'';
              data_dir = lp_join (env_dir env ''XDG_DATA_HOME''
                           (lp_append home (lp_of_text ''.local/share''))) ''twodrive'' in
          Inr \<lparr>ap_config_dir = config_dir, ap_config_path = lp_join config_dir ''config.toml'',
            ap_data_dir = data_dir, ap_cache_dir = lp_join data_dir ''cache'',
            ap_db_path = lp_join data_dir ''twodrive.sqlite3'',
            ap_mount_dir = env_dir env ''TWODRIVE_MOUNT_DIR'' (lp_append home (lp_of_text ''TwoDrive/OneDrive'')),
            ap_token_path = lp_join config_dir ''tokens.json''\<rparr>)"

section \<open>Facts\<close>

lemma map_ok_Inr: "map_ok f r = Inr b \<longleftrightarrow> (\<exists>a. r = Inr a \<and> b = f a)"
  by (cases r) (auto simp: map_ok_def)

lemma deserialize_client_id_idem:
  "deserialize_client_id (deserialize_client_id v) = deserialize_client_id v"
  by (simp add: deserialize_client_id_def)

text \<open>A client identifier that was read from a file passes the login check.\<close>

lemma read_client_id_valid:
  assumes "gc_client_id (c_graph c) = deserialize_client_id v"
  shows "validate_graph_login c = Inr ()"
proof -
  have "trim DEFAULT_GRAPH_CLIENT_ID = DEFAULT_GRAPH_CLIENT_ID" by code_simp
  moreover have "trim ''PASTE_AZURE_APP_CLIENT_ID_HERE'' = ''PASTE_AZURE_APP_CLIENT_ID_HERE''"
    by code_simp
  ultimately show ?thesis
    using assms by (auto simp: validate_graph_login_def deserialize_client_id_def DEFAULT_GRAPH_CLIENT_ID_def
        split: if_splits)
qed

text \<open>Intervals never come out as zero or wrapped: the saturated number of seconds fits.\<close>

lemma of_int_seconds: "0 \<le> v \<Longrightarrow> v \<le> i64_max \<Longrightarrow> uint (of_int v :: u64) = v"
  by (simp add: word_of_int_eq_iff uint_word_of_int_eq take_bit_int_eq_self_iff)

lemma interval_bounds:
  "known_folder_debounce_seconds c = Inr d \<Longrightarrow> 1 \<le> uint d \<and> uint d \<le> i64_max"
  "known_folder_upload_rate_seconds c = Inr d \<Longrightarrow> 1 \<le> uint d \<and> uint d \<le> i64_max"
  "known_folder_rescan_seconds c = Inr d \<Longrightarrow> d = 0 \<or> 30 \<le> uint d \<and> uint d \<le> i64_max"
proof -
  have b: "0 \<le> max v k \<and> max v k \<le> i64_max"
    if "parse_duration_seconds t = Inr v" "k \<in> {1, 30}" for t v and k :: int
    using parse_duration_range[OF that(1)] that(2) by auto
  show "known_folder_debounce_seconds c = Inr d \<Longrightarrow> 1 \<le> uint d \<and> uint d \<le> i64_max"
    using b[of _ _ 1] by (auto simp: known_folder_debounce_seconds_def map_ok_Inr of_int_seconds)
  show "known_folder_upload_rate_seconds c = Inr d \<Longrightarrow> 1 \<le> uint d \<and> uint d \<le> i64_max"
    using b[of _ _ 1] by (auto simp: known_folder_upload_rate_seconds_def map_ok_Inr of_int_seconds)
  show "known_folder_rescan_seconds c = Inr d \<Longrightarrow> d = 0 \<or> 30 \<le> uint d \<and> uint d \<le> i64_max"
    using b[of _ _ 30] by (auto simp: known_folder_rescan_seconds_def map_ok_Inr of_int_seconds)
qed

lemma default_intervals:
  "known_folder_debounce_seconds default_config = Inr 5"
  "known_folder_rescan_seconds default_config = Inr 900"
  "known_folder_upload_rate_seconds default_config = Inr 20"
  "cache_retain_seconds default_config = Inr 2592000"
  by code_simp+

end
