(* ===== verification/Rate.thy ===== *)
theory Rate
  imports LocalPaths "HOL-Library.AList"
begin

text \<open>
  crates/twodrive-daemon/src/known_folders/rate.rs: the sliding-window budget for repeated
  uploads of known folders.  An Instant is a number of time
  units (duration_since saturates at zero, as subtraction of natural numbers does), a HashMap an
  association list read with map_of; the file system is a parameter that says what a path names.
  The main facts: in any window a file is admitted at most max_file_uploads_per_window times, and
  the first change of a file in a window is always admitted.
\<close>

section \<open>Configuration\<close>

datatype entry_kind = FileEntry | DirEntry | OtherEntry

type_synonym probe = "local_path \<Rightarrow> entry_kind option"

record file_snapshot =
  snap_size :: u64
  snap_modified_unix :: int
  snap_modified_nanos :: u32

record upload_job =
  job_local :: local_path
  job_remote :: string
  job_snapshot :: file_snapshot

text \<open>The configured roots after expand_known_folder_home, None where it fails.\<close>

record rate_config =
  file_max :: u32
  project_max :: u32
  rate_roots :: "local_path option list"
  folder_roots :: "local_path option list"

definition MAX_PROJECT_DEPTH :: nat where
  "MAX_PROJECT_DEPTH = 8"

definition MAX_PROJECT_SEARCHES_PER_WINDOW :: nat where
  "MAX_PROJECT_SEARCHES_PER_WINDOW = 8"

definition PROJECT_MARKERS :: "string list" where
  "PROJECT_MARKERS =
     [''.git'', ''package.json'', ''Cargo.toml'', ''pyproject.toml'', ''go.mod'', ''pom.xml'',
      ''build.gradle'', ''build.gradle.kts'']"

section \<open>State\<close>

type_synonym instant = nat

record upload_rate =
  ur_files :: "(string \<times> instant list) list"
  ur_projects :: "(local_path \<times> instant list) list"
  ur_admitted :: "(string \<times> (file_snapshot \<times> instant)) list"
  ur_project_cache :: "(local_path \<times> (local_path option \<times> instant)) list"
  ur_local_paths :: "(string \<times> local_path) list"
  ur_repeat_history :: "(string \<times> instant list) list"
  ur_recent_repeats :: "instant list"
  ur_project_searches :: "instant list"
  ur_last_prune :: "instant option"

definition new_rate :: upload_rate where
  "new_rate = \<lparr>ur_files = [], ur_projects = [], ur_admitted = [], ur_project_cache = [],
     ur_local_paths = [], ur_repeat_history = [], ur_recent_repeats = [], ur_project_searches = [],
     ur_last_prune = None\<rparr>"

definition expire :: "instant \<Rightarrow> nat \<Rightarrow> instant list \<Rightarrow> instant list" where
  "expire now window events = dropWhile (\<lambda>t. window \<le> now - t) events"

text \<open>Iterator::max_by_key: the last of the greatest.\<close>

fun max_by_key :: "('a \<Rightarrow> nat) \<Rightarrow> 'a list \<Rightarrow> 'a option" where
  "max_by_key key [] = None"
| "max_by_key key (x # xs) =
     (case max_by_key key xs of
        None \<Rightarrow> Some x
      | Some y \<Rightarrow> if key x \<le> key y then Some y else Some x)"

definition explicit_project_root :: "local_path \<Rightarrow> rate_config \<Rightarrow> local_path option" where
  "explicit_project_root path cfg =
     max_by_key lp_count
       (filter (\<lambda>root. lp_absolute root \<and> lp_starts_with path root) (List.map_filter id (rate_roots cfg)))"

definition entry_or_default :: "'k \<Rightarrow> ('k \<times> 'v list) list \<Rightarrow> 'v list" where
  "entry_or_default k m = (case map_of m k of None \<Rightarrow> [] | Some v \<Rightarrow> v)"

definition fresh_events :: "instant \<Rightarrow> nat \<Rightarrow> instant list \<Rightarrow> bool" where
  "fresh_events now window events = (events \<noteq> [] \<and> now - last events < window)"

definition prune_rate :: "instant \<Rightarrow> nat \<Rightarrow> upload_rate \<Rightarrow> upload_rate" where
  "prune_rate now window s =
     (if (case ur_last_prune s of None \<Rightarrow> True | Some before \<Rightarrow> window \<le> now - before)
      then
        let files = filter (\<lambda>(_, ev). fresh_events now window ev) (ur_files s) in
        s\<lparr>ur_files := files,
          ur_projects := filter (\<lambda>(_, ev). fresh_events now window ev) (ur_projects s),
          ur_admitted := filter (\<lambda>(_, (_, t)). now - t < window) (ur_admitted s),
          ur_project_cache := filter (\<lambda>(_, (_, t)). now - t < window) (ur_project_cache s),
          ur_local_paths := filter (\<lambda>(f, _). map_of files f \<noteq> None) (ur_local_paths s),
          ur_repeat_history := filter (\<lambda>(f, _). map_of files f \<noteq> None) (ur_repeat_history s),
          ur_last_prune := Some now\<rparr>
      else s)"

section \<open>Project roots\<close>

definition project_owner :: "rate_config \<Rightarrow> nat \<Rightarrow> instant \<Rightarrow> upload_rate \<Rightarrow> local_path \<Rightarrow> local_path option" where
  "project_owner cfg window now s path =
     (case explicit_project_root path cfg of
        Some root \<Rightarrow> Some root
      | None \<Rightarrow>
          (case lp_parent path of
             None \<Rightarrow> None
           | Some parent \<Rightarrow>
               (case map_of (ur_project_cache s) parent of
                  None \<Rightarrow> None
                | Some (root, checked) \<Rightarrow> if now - checked < window then root else None)))"

definition has_marker :: "probe \<Rightarrow> local_path \<Rightarrow> bool" where
  "has_marker fs directory =
     list_ex (\<lambda>marker. case fs (lp_join directory marker) of
         Some FileEntry \<Rightarrow> True
       | Some DirEntry \<Rightarrow> marker = ''.git''
       | _ \<Rightarrow> False) PROJECT_MARKERS"

definition search_project :: "probe \<Rightarrow> local_path \<Rightarrow> local_path \<Rightarrow> local_path option" where
  "search_project fs source parent =
     List.find (has_marker fs)
       (takeWhile (\<lambda>dir. lp_starts_with dir source) (take MAX_PROJECT_DEPTH (lp_ancestors parent)))"

definition cache_project :: "local_path \<Rightarrow> local_path option \<Rightarrow> instant \<Rightarrow> upload_rate \<Rightarrow> upload_rate" where
  "cache_project parent root now s =
     s\<lparr>ur_project_cache := AList.update parent (root, now) (ur_project_cache s)\<rparr>"

definition project_root ::
    "probe \<Rightarrow> rate_config \<Rightarrow> nat \<Rightarrow> instant \<Rightarrow> local_path \<Rightarrow> upload_rate \<Rightarrow> local_path option \<times> upload_rate" where
  "project_root fs cfg window now path s =
     (case lp_parent path of
        None \<Rightarrow> (None, s)
      | Some parent \<Rightarrow>
          (case (case map_of (ur_project_cache s) parent of
                   Some (root, checked) \<Rightarrow> if now - checked < window then Some root else None
                 | None \<Rightarrow> None) of
             Some root \<Rightarrow> (root, s)
           | None \<Rightarrow>
               (case explicit_project_root path cfg of
                  Some root \<Rightarrow> (Some root, cache_project parent (Some root) now s)
                | None \<Rightarrow>
                    (let source = max_by_key lp_count
                           (filter (lp_starts_with path) (List.map_filter id (folder_roots cfg)));
                         s1 = s\<lparr>ur_project_searches := expire now window (ur_project_searches s)\<rparr>
                     in case source of
                          None \<Rightarrow> (None, cache_project parent None now s1)
                        | Some src \<Rightarrow>
                            if MAX_PROJECT_SEARCHES_PER_WINDOW \<le> length (ur_project_searches s1)
                            then (None, cache_project parent None now s1)
                            else
                              let s2 = s1\<lparr>ur_project_searches := ur_project_searches s1 @ [now]\<rparr>;
                                  found = search_project fs src parent
                              in (found, cache_project parent found now s2)))))"

section \<open>Admission\<close>

definition already_admitted :: "upload_job \<Rightarrow> upload_rate \<Rightarrow> bool" where
  "already_admitted job s =
     (case map_of (ur_admitted s) (job_remote job) of
        None \<Rightarrow> False | Some (snap, _) \<Rightarrow> snap = job_snapshot job)"

definition limits_off :: "rate_config \<Rightarrow> bool" where
  "limits_off cfg = (file_max cfg = 0 \<and> project_max cfg = 0)"

text \<open>The repeats of the files of a project, as its first budget log.\<close>

definition project_history ::
    "rate_config \<Rightarrow> nat \<Rightarrow> instant \<Rightarrow> local_path \<Rightarrow> upload_rate \<Rightarrow> instant list" where
  "project_history cfg window now root s =
     sort (filter (\<lambda>t. now - t < window)
       (concat (map snd (filter (\<lambda>(file, _).
            case map_of (ur_local_paths s) file of
              None \<Rightarrow> False
            | Some path \<Rightarrow> project_owner cfg window now s path = Some root) (ur_repeat_history s)))))"

definition find_project ::
    "probe \<Rightarrow> rate_config \<Rightarrow> nat \<Rightarrow> instant \<Rightarrow> upload_job \<Rightarrow> bool \<Rightarrow> bool \<Rightarrow> upload_rate \<Rightarrow>
     local_path option \<times> upload_rate" where
  "find_project fs cfg window now job repeated hot s =
     (let project = (if repeated \<and> 0 < project_max cfg
                     then project_owner cfg window now s (job_local job) else None) in
      if repeated \<and> 0 < project_max cfg \<and> hot \<and> project = None
      then
        (case project_root fs cfg window now (job_local job) s of
           (None, s1) \<Rightarrow> (None, s1)
         | (Some root, s1) \<Rightarrow>
             (Some root, s1\<lparr>ur_projects :=
                AList.update root (project_history cfg window now root s1) (ur_projects s1)\<rparr>))
      else (project, s))"

definition admit :: "rate_config \<Rightarrow> nat \<Rightarrow> instant \<Rightarrow> upload_job \<Rightarrow> bool \<Rightarrow> local_path option \<Rightarrow> upload_rate \<Rightarrow> upload_rate" where
  "admit cfg window now job repeated project s =
     (let f = job_remote job;
          events = (if file_max cfg = 0 then [] else entry_or_default f (ur_files s)) @ [now];
          s1 = s\<lparr>ur_files := AList.update f events (ur_files s)\<rparr>;
          s2 = (if repeated
                then
                  let repeats = ur_recent_repeats s1 @ [now] in
                  s1\<lparr>ur_repeat_history := AList.update f
                       (expire now window (entry_or_default f (ur_repeat_history s1)) @ [now])
                       (ur_repeat_history s1),
                     ur_recent_repeats :=
                       drop (length repeats - unat (max (project_max cfg) 1)) repeats\<rparr>
                else s1);
          s3 = (case project of
                  None \<Rightarrow> s2
                | Some p \<Rightarrow> s2\<lparr>ur_projects :=
                    AList.update p (entry_or_default p (ur_projects s2) @ [now]) (ur_projects s2)\<rparr>)
      in s3\<lparr>ur_admitted := AList.update f (job_snapshot job, now) (ur_admitted s3)\<rparr>)"

definition acquire ::
    "probe \<Rightarrow> rate_config \<Rightarrow> nat \<Rightarrow> instant \<Rightarrow> upload_job \<Rightarrow> bool \<Rightarrow> upload_rate \<Rightarrow> bool \<times> upload_rate" where
  "acquire fs cfg window now job changed s =
     (if \<not> changed \<or> limits_off cfg then (True, s)
      else
        let s1 = prune_rate now window s;
            f = job_remote job in
        if already_admitted job s1 then (True, s1)
        else
          let events = expire now window (entry_or_default f (ur_files s1));
              repeated = (events \<noteq> []);
              file_hot = (0 < file_max cfg \<and> unat (file_max cfg) \<le> length events);
              s2 = s1\<lparr>ur_files := AList.update f events (ur_files s1),
                      ur_local_paths := AList.update f (job_local job) (ur_local_paths s1),
                      ur_recent_repeats := expire now window (ur_recent_repeats s1)\<rparr>;
              aggregate_hot = (0 < project_max cfg \<and> unat (project_max cfg) \<le> length (ur_recent_repeats s2))
          in (case find_project fs cfg window now job repeated (file_hot \<or> aggregate_hot) s2 of
                (project, s3) \<Rightarrow>
                  if file_hot then (False, s3)
                  else
                    (case project of
                       None \<Rightarrow> (True, admit cfg window now job repeated None s3)
                     | Some p \<Rightarrow>
                         let pev = expire now window (entry_or_default p (ur_projects s3));
                             s4 = s3\<lparr>ur_projects := AList.update p pev (ur_projects s3)\<rparr> in
                         if unat (project_max cfg) \<le> length pev then (False, s4)
                         else (True, admit cfg window now job repeated (Some p) s4))))"

section \<open>The file budget\<close>

text \<open>Whether a call consumes budget when it is admitted: neither a first upload nor a retry.\<close>

definition charged :: "rate_config \<Rightarrow> nat \<Rightarrow> instant \<Rightarrow> upload_job \<Rightarrow> bool \<Rightarrow> upload_rate \<Rightarrow> bool" where
  "charged cfg window now job changed s =
     (changed \<and> \<not> limits_off cfg \<and> \<not> already_admitted job (prune_rate now window s))"

text \<open>The states a sequence of calls at non-decreasing times reaches, with the times at which
  changes of file f were admitted.\<close>

inductive rate_trace :: "probe \<Rightarrow> rate_config \<Rightarrow> nat \<Rightarrow> string \<Rightarrow> upload_rate \<Rightarrow> instant \<Rightarrow> instant list \<Rightarrow> bool"
  for fs cfg window f where
  start: "rate_trace fs cfg window f new_rate 0 []"
| call: "rate_trace fs cfg window f s t log \<Longrightarrow> t \<le> now \<Longrightarrow>
    acquire fs cfg window now job changed s = (ok, s') \<Longrightarrow>
    rate_trace fs cfg window f s' now
      (if ok \<and> charged cfg window now job changed s \<and> job_remote job = f then log @ [now] else log)"

definition events_of :: "string \<Rightarrow> upload_rate \<Rightarrow> instant list" where
  "events_of f s = entry_or_default f (ur_files s)"

definition keys_ok :: "upload_rate \<Rightarrow> bool" where
  "keys_ok s = distinct (map fst (ur_files s))"

lemma map_of_filter_key:
  "distinct (map fst m) \<Longrightarrow>
   map_of (filter (\<lambda>(k, v). P k v) m) k = (case map_of m k of None \<Rightarrow> None | Some v \<Rightarrow> if P k v then Some v else None)"
  by (induction m) (auto simp: map_of_eq_None_iff split: option.splits dest!: map_of_SomeD)

lemma events_of_update: "ur_files s' = AList.update g ev (ur_files s) \<Longrightarrow>
    events_of f s' = (if f = g then ev else events_of f s)"
  by (simp add: events_of_def entry_or_default_def update_conv')

lemma keys_ok_update: "keys_ok s \<Longrightarrow> ur_files s' = AList.update g ev (ur_files s) \<Longrightarrow> keys_ok s'"
  by (simp add: keys_ok_def distinct_update)

lemma events_of_prune:
  assumes "keys_ok s"
  shows "events_of f (prune_rate now window s) = events_of f s \<or>
    (events_of f (prune_rate now window s) = [] \<and> \<not> fresh_events now window (events_of f s))"
proof -
  let ?m = "filter (\<lambda>(_, ev). fresh_events now window ev) (ur_files s)"
  have m: "map_of ?m f = (case map_of (ur_files s) f of None \<Rightarrow> None
      | Some v \<Rightarrow> if fresh_events now window v then Some v else None)"
    using assms by (intro map_of_filter_key) (simp add: keys_ok_def)
  have "ur_files (prune_rate now window s) = ur_files s \<or> ur_files (prune_rate now window s) = ?m"
    by (simp add: prune_rate_def Let_def)
  then show ?thesis
  proof
    assume "ur_files (prune_rate now window s) = ?m"
    then show ?thesis
      by (cases "map_of (ur_files s) f") (simp_all add: events_of_def entry_or_default_def m)
  qed (simp add: events_of_def)
qed

lemma keys_ok_prune: "keys_ok s \<Longrightarrow> keys_ok (prune_rate now window s)"
  by (simp add: keys_ok_def prune_rate_def Let_def distinct_map_filter)

lemma project_root_files: "ur_files (snd (project_root fs cfg window now path s)) = ur_files s"
  by (simp add: project_root_def cache_project_def Let_def split: option.split prod.split)

lemma find_project_files: "ur_files (snd (find_project fs cfg window now job rep hot s)) = ur_files s"
  using project_root_files[of fs cfg window now "job_local job" s]
  by (auto simp: find_project_def Let_def split: option.splits prod.splits)

lemma admit_files: "ur_files (admit cfg window now job rep project s) =
    AList.update (job_remote job)
      ((if file_max cfg = 0 then [] else events_of (job_remote job) s) @ [now]) (ur_files s)"
  by (simp add: admit_def events_of_def Let_def split: option.split)

text \<open>What a call does to the log of a file.\<close>

lemma acquire_files:
  assumes run: "acquire fs cfg window now job changed s = (ok, s')" and keys: "keys_ok s"
  defines "s1 \<equiv> prune_rate now window s"
  shows "keys_ok s'"
    and "\<not> charged cfg window now job changed s \<or> job_remote job \<noteq> f \<Longrightarrow>
      events_of f s' = events_of f s \<or> events_of f s' = events_of f s1"
    and "charged cfg window now job changed s \<Longrightarrow> job_remote job = f \<Longrightarrow> 0 < file_max cfg \<Longrightarrow>
      (if ok then events_of f s' = expire now window (events_of f s1) @ [now] \<and>
           length (expire now window (events_of f s1)) < unat (file_max cfg)
       else events_of f s' = expire now window (events_of f s1))"
proof -
  let ?g = "job_remote job"
  let ?ev = "expire now window (events_of ?g s1)"
  let ?hot = "0 < file_max cfg \<and> unat (file_max cfg) \<le> length ?ev"
  have k1: "keys_ok s1" using keys by (simp add: s1_def keys_ok_prune)
  consider (free) "\<not> changed \<or> limits_off cfg" | (again) "changed" "\<not> limits_off cfg" "already_admitted job s1"
    | (charge) "charged cfg window now job changed s"
    by (auto simp: charged_def s1_def)
  then have "keys_ok s' \<and>
    (\<not> charged cfg window now job changed s \<and> (s' = s \<or> s' = s1) \<or>
     charged cfg window now job changed s \<and>
     (ok \<and> \<not> ?hot \<and> (\<forall>f. events_of f s' = (if f = ?g then (if file_max cfg = 0 then [] else ?ev) @ [now] else events_of f s1)) \<or>
      \<not> ok \<and> (\<forall>f. events_of f s' = (if f = ?g then ?ev else events_of f s1))))"
  proof cases
    case free
    with run keys show ?thesis by (auto simp: acquire_def charged_def)
  next
    case again
    with run k1 show ?thesis by (auto simp: acquire_def charged_def s1_def Let_def)
  next
    case charge
    then have c: "changed" "\<not> limits_off cfg" "\<not> already_admitted job s1"
      by (simp_all add: charged_def s1_def)
    let ?s2 = "s1\<lparr>ur_files := AList.update ?g ?ev (ur_files s1),
                      ur_local_paths := AList.update ?g (job_local job) (ur_local_paths s1),
                      ur_recent_repeats := expire now window (ur_recent_repeats s1)\<rparr>"
    let ?agg = "0 < project_max cfg \<and> unat (project_max cfg) \<le> length (ur_recent_repeats ?s2)"
    obtain p s3 where fp: "find_project fs cfg window now job (?ev \<noteq> []) (?hot \<or> ?agg) ?s2 = (p, s3)"
      by (cases "find_project fs cfg window now job (?ev \<noteq> []) (?hot \<or> ?agg) ?s2")
    have s3: "ur_files s3 = AList.update ?g ?ev (ur_files s1)"
      using find_project_files[of fs cfg window now job "?ev \<noteq> []" "?hot \<or> ?agg" ?s2] fp by simp
    have acq: "(ok, s') = (if ?hot then (False, s3)
        else (case p of
           None \<Rightarrow> (True, admit cfg window now job (?ev \<noteq> []) None s3)
         | Some q \<Rightarrow>
             let pev = expire now window (entry_or_default q (ur_projects s3));
                 s4 = s3\<lparr>ur_projects := AList.update q pev (ur_projects s3)\<rparr> in
             if unat (project_max cfg) \<le> length pev then (False, s4)
             else (True, admit cfg window now job (?ev \<noteq> []) (Some q) s4)))"
      using run c fp unfolding acquire_def s1_def[symmetric] Let_def events_of_def by simp
    have e3: "events_of f s3 = (if f = ?g then ?ev else events_of f s1)" for f
      by (rule events_of_update[OF s3])
    have k3: "keys_ok s3" by (rule keys_ok_update[OF k1 s3])
    have files: "ur_files s' = AList.update ?g ((if file_max cfg = 0 then [] else ?ev) @ [now]) (ur_files s3)" if "ok"
      using acq that e3[of ?g] by (auto simp: admit_files Let_def events_of_def split: if_splits option.splits)
    have files0: "ur_files s' = ur_files s3" if "\<not> ok"
      using acq that by (auto simp: Let_def split: if_splits option.splits)
    have "\<not> ?hot" if "ok" using acq that by (auto split: if_splits)
    moreover have "ok \<Longrightarrow> keys_ok s'" using keys_ok_update[OF k3 files] .
    moreover have "\<not> ok \<Longrightarrow> keys_ok s'" using k3 files0 by (simp add: keys_ok_def)
    moreover have "ok \<Longrightarrow> events_of f s' = (if f = ?g then (if file_max cfg = 0 then [] else ?ev) @ [now] else events_of f s1)" for f
      using events_of_update[OF files, of f] e3 by simp
    moreover have "\<not> ok \<Longrightarrow> events_of f s' = (if f = ?g then ?ev else events_of f s1)" for f
      using files0 e3[of f] by (simp add: events_of_def)
    ultimately show ?thesis using charge by (cases ok) simp_all
  qed
  then show "keys_ok s'"
    and "\<not> charged cfg window now job changed s \<or> job_remote job \<noteq> f \<Longrightarrow>
      events_of f s' = events_of f s \<or> events_of f s' = events_of f s1"
    and "charged cfg window now job changed s \<Longrightarrow> job_remote job = f \<Longrightarrow> 0 < file_max cfg \<Longrightarrow>
      (if ok then events_of f s' = expire now window (events_of f s1) @ [now] \<and>
           length (expire now window (events_of f s1)) < unat (file_max cfg)
       else events_of f s' = expire now window (events_of f s1))"
    by auto
qed

text \<open>The log is what has left the window, followed by the events the state remembers.\<close>

definition budget :: "nat \<Rightarrow> nat \<Rightarrow> instant list \<Rightarrow> bool" where
  "budget window m log = (\<forall>a. length (filter (\<lambda>t. a \<le> t \<and> t < a + window) log) \<le> m)"

definition log_ok :: "nat \<Rightarrow> nat \<Rightarrow> instant \<Rightarrow> instant list \<Rightarrow> instant list \<Rightarrow> bool" where
  "log_ok window m now log ev =
     (sorted log \<and> (\<forall>t\<in>set log. t \<le> now) \<and> length ev \<le> m \<and> budget window m log \<and>
      (\<exists>old. log = old @ ev \<and> (\<forall>t\<in>set old. window \<le> now - t)))"

lemma log_okI:
  "sorted log \<Longrightarrow> \<forall>t\<in>set log. t \<le> now \<Longrightarrow> length ev \<le> m \<Longrightarrow> budget window m log \<Longrightarrow>
   log = old @ ev \<Longrightarrow> \<forall>t\<in>set old. window \<le> now - t \<Longrightarrow> log_ok window m now log ev"
  unfolding log_ok_def by blast

lemma log_ok_later:
  assumes "log_ok window m t log ev" "t \<le> now"
  shows "log_ok window m now log ev"
proof -
  obtain old where old: "log = old @ ev" "\<forall>x\<in>set old. window \<le> t - x"
    using assms(1) by (auto simp: log_ok_def)
  have "\<forall>x\<in>set old. window \<le> now - x" using old(2) assms(2) by fastforce
  moreover have "\<forall>x\<in>set log. x \<le> now" using assms by (auto simp: log_ok_def)
  ultimately show ?thesis using assms(1) old(1) by (intro log_okI[of _ _ _ _ _ old]) (simp_all add: log_ok_def)
qed

lemma log_ok_forget:
  assumes "log_ok window m now log ev" "\<not> fresh_events now window ev"
  shows "log_ok window m now log []"
proof (cases "ev = []")
  case False
  obtain old where old: "log = old @ ev" "\<forall>t\<in>set old. window \<le> now - t" and s: "sorted log"
    using assms(1) by (auto simp: log_ok_def)
  have "window \<le> now - t" if "t \<in> set ev" for t
  proof -
    have "ev = butlast ev @ [last ev]" using False by simp
    then have "t \<le> last ev"
      using s old(1) that sorted_append[of "butlast ev" "[last ev]"] by (metis append_is_Nil_conv
          insert_iff list.set(2) order_refl set_ConsD sorted_append Un_iff set_append list.set_intros(1) empty_iff list.set(1))
    moreover have "window \<le> now - last ev" using assms(2) False by (simp add: fresh_events_def)
    ultimately show ?thesis by linarith
  qed
  with old assms(1) show ?thesis unfolding log_ok_def by auto
qed (use assms in simp)

lemma log_ok_expire:
  assumes "log_ok window m now log ev"
  shows "log_ok window m now log (expire now window ev)"
proof -
  obtain old where old: "log = old @ ev" "\<forall>t\<in>set old. window \<le> now - t"
    using assms by (auto simp: log_ok_def)
  let ?P = "\<lambda>t. window \<le> now - t"
  have "log = (old @ takeWhile ?P ev) @ expire now window ev"
    by (simp add: old(1) expire_def)
  moreover have "\<forall>t\<in>set (old @ takeWhile ?P ev). window \<le> now - t"
    using old(2) by (auto dest: set_takeWhileD)
  moreover have "length (expire now window ev) \<le> length ev"
    by (simp add: expire_def length_dropWhile_le)
  ultimately show ?thesis using assms
    by (intro log_okI[where old = "old @ takeWhile ?P ev"]) (auto simp: log_ok_def)
qed

lemma budget_push:
  assumes b: "budget window m log" and le: "\<forall>t\<in>set log. t \<le> now"
    and few: "length (filter (\<lambda>t. now - t < window) log) < m"
  shows "budget window m (log @ [now])"
  unfolding budget_def
proof
  fix a
  show "length (filter (\<lambda>t. a \<le> t \<and> t < a + window) (log @ [now])) \<le> m"
  proof (cases "a \<le> now \<and> now < a + window")
    case True
    have "length (filter (\<lambda>t. a \<le> t \<and> t < a + window) log) \<le> length (filter (\<lambda>t. now - t < window) log)"
      using le True
    proof (induction log)
      case (Cons x xs)
      then show ?case by auto
    qed simp
    with few True show ?thesis by simp
  next
    case False
    then have "filter (\<lambda>t. a \<le> t \<and> t < a + window) (log @ [now]) = filter (\<lambda>t. a \<le> t \<and> t < a + window) log"
      by auto
    with b show ?thesis unfolding budget_def by metis
  qed
qed

lemma log_ok_push:
  assumes ok: "log_ok window m now log ev" and few: "length ev < m"
  shows "log_ok window m now (log @ [now]) (ev @ [now])"
proof -
  obtain old where old: "log = old @ ev" "\<forall>t\<in>set old. window \<le> now - t"
    using ok by (auto simp: log_ok_def)
  have "filter (\<lambda>t. now - t < window) old = []"
    using old(2) by (auto simp: filter_empty_conv not_less)
  then have "length (filter (\<lambda>t. now - t < window) log) \<le> length ev" by (simp add: old(1))
  then have "budget window m (log @ [now])" using ok few by (intro budget_push) (auto simp: log_ok_def)
  moreover have "sorted (log @ [now])" using ok by (simp add: log_ok_def sorted_append)
  ultimately show ?thesis using ok few old by (simp add: log_ok_def)
qed

lemma rate_trace_log:
  assumes "0 < file_max cfg"
  shows "rate_trace fs cfg window f s t log \<Longrightarrow>
    keys_ok s \<and> log_ok window (unat (file_max cfg)) t log (events_of f s)"
proof (induction rule: rate_trace.induct)
  case start
  show ?case by (simp add: keys_ok_def new_rate_def events_of_def entry_or_default_def log_ok_def budget_def)
next
  case (call s t log now job changed ok s')
  let ?m = "unat (file_max cfg)"
  let ?s1 = "prune_rate now window s"
  have k: "keys_ok s" and l: "log_ok window ?m now log (events_of f s)"
    using call.IH log_ok_later[OF _ call.hyps(2)] by auto
  have l1: "log_ok window ?m now log (events_of f ?s1)"
    using events_of_prune[OF k, of f now window] l log_ok_forget[OF l] by auto
  note le = log_ok_expire[OF l1]
  note acq = acquire_files[OF call.hyps(3) k]
  show ?case
  proof (cases "charged cfg window now job changed s \<and> job_remote job = f")
    case True
    then show ?thesis using acq(1) acq(3)[of f] assms le log_ok_push[OF le] by (cases ok) auto
  next
    case False
    then show ?thesis using acq(1) acq(2)[of f] l l1 by auto
  qed
qed

section \<open>Properties\<close>

definition sample_cfg :: rate_config where
  "sample_cfg = \<lparr>file_max = 2, project_max = 3, rate_roots = [Some \<lparr>lp_absolute = True, lp_names = [''s'']\<rparr>],
     folder_roots = []\<rparr>"

definition sample_job :: "nat \<Rightarrow> upload_job" where
  "sample_job n = \<lparr>job_local = \<lparr>lp_absolute = True, lp_names = [''s'', ''f'']\<rparr>, job_remote = ''/f'',
     job_snapshot = \<lparr>snap_size = of_nat n, snap_modified_unix = 1, snap_modified_nanos = 0\<rparr>\<rparr>"

text \<open>C36: the sliding window holds: over any sequence of calls at non-decreasing times, every
  window of the configured length contains at most max_file_uploads_per_window admitted changes
  of a file, however pruning and expiry interleave with the calls.\<close>

theorem file_budget_holds:
  assumes "rate_trace fs cfg window f s t log" "0 < file_max cfg"
  shows "length (filter (\<lambda>t. a \<le> t \<and> t < a + window) log) \<le> unat (file_max cfg)"
  using rate_trace_log[OF assms(2,1)] by (simp add: log_ok_def budget_def)

lemma file_budget_holds_witness:
  "length (filter (\<lambda>t. 0 \<le> t \<and> t < 0 + 20) [5]) \<le> unat (file_max sample_cfg)"
proof -
  let ?run = "acquire (\<lambda>_. None) sample_cfg 20 5 (sample_job 1) True new_rate"
  have "?run = (fst ?run, snd ?run)" by simp
  from rate_trace.call[OF rate_trace.start _ this, of "''/f''"]
  have "rate_trace (\<lambda>_. None) sample_cfg 20 ''/f'' (snd ?run) 5
      (if fst ?run \<and> charged sample_cfg 20 5 (sample_job 1) True new_rate \<and> job_remote (sample_job 1) = ''/f''
       then [] @ [5] else [])" by simp
  moreover have "fst ?run \<and> charged sample_cfg 20 5 (sample_job 1) True new_rate \<and> job_remote (sample_job 1) = ''/f''"
    by code_simp
  ultimately have "rate_trace (\<lambda>_. None) sample_cfg 20 ''/f'' (snd ?run) 5 [5]" by simp
  from file_budget_holds[OF this, of 0] show ?thesis by (simp add: sample_cfg_def)
qed

text \<open>The limits only slow down repeated changes: a first upload is always admitted, and so is
  the first change of a file within a window, whatever the budgets of other files and projects.\<close>

lemma first_change_admitted:
  assumes "keys_ok s" and "expire now window (events_of (job_remote job) s) = []"
  shows "fst (acquire fs cfg window now job changed s)"
proof -
  let ?s1 = "prune_rate now window s"
  have "expire now window (events_of (job_remote job) ?s1) = []"
    using events_of_prune[OF assms(1), of "job_remote job" now window] assms(2) by (auto simp: expire_def)
  then have e: "expire now window (entry_or_default (job_remote job) (ur_files ?s1)) = []"
    by (simp add: events_of_def)
  have cold: "\<not> (0 < file_max cfg \<and> unat (file_max cfg) \<le> length ([] :: instant list))"
    by (simp add: word_less_nat_alt) auto
  have "find_project fs cfg window now job False hot u = (None, u)" for hot u
    by (simp add: find_project_def)
  then show ?thesis unfolding acquire_def Let_def e using cold by auto
qed

lemma first_change_admitted_witness:
  "fst (acquire (\<lambda>_. None) sample_cfg 20 30 (sample_job 2) True
     (snd (acquire (\<lambda>_. None) sample_cfg 20 5 (sample_job 1) True new_rate)))"
  by (rule first_change_admitted) code_simp+

end
