(* ===== verification/KnownFolders.thy ===== *)
theory KnownFolders
  imports Config Rate
begin

text \<open>
  crates/twodrive-core/src/known_folders.rs and crates/twodrive-daemon/src/known_folders/scan.rs:
  which local folders may be uploaded, which files below them are excluded, where a file goes in
  the cloud, and the scan that turns changed files into upload jobs.  A walk over directories is
  bounded by fuel; a tree whose nesting the fuel covers is walked completely.
\<close>

section \<open>Strings\<close>

definition starts_with :: "string \<Rightarrow> string \<Rightarrow> bool" where
  "starts_with s p = (take (length p) s = p)"

definition ends_with :: "string \<Rightarrow> string \<Rightarrow> bool" where
  "ends_with s p = starts_with (rev s) (rev p)"

definition strip_suffix :: "string \<Rightarrow> string \<Rightarrow> string option" where
  "strip_suffix p s = (if ends_with s p then Some (take (length s - length p) s) else None)"

text \<open>str::lines: a carriage return counts only before a line feed.\<close>

definition rust_lines :: "string \<Rightarrow> string list" where
  "rust_lines s =
     (let parts = split_on (CHR 0x0A) s in
      map (\<lambda>l. case strip_suffix [CHR 0x0D] l of None \<Rightarrow> l | Some l' \<Rightarrow> l') (butlast parts) @
      (if last parts = [] then [] else [last parts]))"

definition split_once :: "char \<Rightarrow> string \<Rightarrow> (string \<times> string) option" where
  "split_once c s =
     (case dropWhile (\<lambda>x. x \<noteq> c) s of
        [] \<Rightarrow> None
      | _ # rest \<Rightarrow> Some (takeWhile (\<lambda>x. x \<noteq> c) s, rest))"

section \<open>Sources\<close>

datatype known_folder_source_state =
  Ready | Missing | BrokenSymlink | Symlink | NotDirectory | Unsafe | Unavailable

fun source_as_str :: "known_folder_source_state \<Rightarrow> string" where
  "source_as_str Ready = ''ready''"
| "source_as_str Missing = ''missing''"
| "source_as_str BrokenSymlink = ''broken_symlink''"
| "source_as_str Symlink = ''symlink''"
| "source_as_str NotDirectory = ''not_directory''"
| "source_as_str Unsafe = ''unsafe''"
| "source_as_str Unavailable = ''unavailable''"

fun source_message :: "known_folder_source_state \<Rightarrow> string" where
  "source_message Ready = ''Source directory is available.''"
| "source_message Missing =
     ''Source directory does not exist. Choose its current location in TwoDrive Settings.''"
| "source_message BrokenSymlink =
     ''Source is a broken symbolic link. Choose a local directory in TwoDrive Settings.''"
| "source_message Symlink =
     ''Symbolic links are skipped by uploads. Choose a local directory in TwoDrive Settings.''"
| "source_message NotDirectory =
     ''Source is not a directory. Choose a local directory in TwoDrive Settings.''"
| "source_message Unsafe =
     ''Choose an absolute local directory outside the TwoDrive mount, rather than the home directory or filesystem root.''"
| "source_message Unavailable =
     ''Source cannot be read. Check access permissions or choose another directory in TwoDrive Settings.''"

definition expand_home :: "string \<Rightarrow> local_path \<Rightarrow> local_path" where
  "expand_home value home =
     (if value = ''~'' then home
      else case strip_prefix ''~/'' value of
             Some relative \<Rightarrow> lp_append home (lp_of_text relative)
           | None \<Rightarrow> lp_of_text value)"

text \<open>The home directory is None when HOME is not set.\<close>

definition expand_known_folder_home :: "local_path option \<Rightarrow> string \<Rightarrow> config_error + local_path" where
  "expand_known_folder_home home value =
     (case home of None \<Rightarrow> Inl HomeNotSet | Some h \<Rightarrow> Inr (expand_home value h))"

definition fs_root :: local_path where
  "fs_root = \<lparr>lp_absolute = True, lp_names = []\<rparr>"

definition unwrap_or :: "'a \<Rightarrow> 'e + 'a \<Rightarrow> 'a" where
  "unwrap_or a r = (case r of Inl e \<Rightarrow> a | Inr b \<Rightarrow> b)"

definition inspect_known_folder_source ::
    "local_fs \<Rightarrow> local_path \<Rightarrow> local_path \<Rightarrow> local_path \<Rightarrow> known_folder_source_state" where
  "inspect_known_folder_source fs local home mount =
     (if \<not> lp_absolute local \<or> local = fs_root \<or> local = home \<or>
         lp_starts_with local mount \<or> lp_starts_with mount local then Unsafe
      else case lf_symlink_metadata fs local of
        Inl NotFound \<Rightarrow> Missing
      | Inl OtherIo \<Rightarrow> Unavailable
      | Inr meta \<Rightarrow>
          if fm_type meta = SymlinkNode then
            (case lf_metadata fs local of
               Inr m \<Rightarrow> Symlink
             | Inl NotFound \<Rightarrow> BrokenSymlink
             | Inl OtherIo \<Rightarrow> Unavailable)
          else if fm_type meta \<noteq> DirectoryNode then NotDirectory
          else case lf_canonicalize fs local of
            Inl e \<Rightarrow> Unavailable
          | Inr resolved \<Rightarrow>
              let home' = unwrap_or home (lf_canonicalize fs home);
                  mount' = unwrap_or mount (lf_canonicalize fs mount) in
              if resolved = fs_root \<or> resolved = home' \<or>
                 lp_starts_with resolved mount' \<or> lp_starts_with mount' resolved then Unsafe
              else case lf_read_dir fs local of Inl e \<Rightarrow> Unavailable | Inr es \<Rightarrow> Ready)"

definition system_directory_key :: "string \<Rightarrow> string option" where
  "system_directory_key remote =
     map_of [(''/Pictures'', ''XDG_PICTURES_DIR''), (''/Downloads'', ''XDG_DOWNLOAD_DIR''),
       (''/Documents'', ''XDG_DOCUMENTS_DIR''), (''/Videos'', ''XDG_VIDEOS_DIR''),
       (''/Templates'', ''XDG_TEMPLATES_DIR''), (''/Music'', ''XDG_MUSIC_DIR''),
       (''/Desktop'', ''XDG_DESKTOP_DIR'')] remote"

fun unescape :: "string \<Rightarrow> string option" where
  "unescape [] = Some []"
| "unescape (ch # rest) =
     (if ch = CHR 0x5C then
        (case rest of
           [] \<Rightarrow> None
         | next # rest' \<Rightarrow>
             if next \<in> {CHR 0x5C, CHR 0x22, CHR ''$'', CHR 0x60}
             then map_option (Cons next) (unescape rest') else None)
      else map_option (Cons ch) (unescape rest))"

definition has_expansion :: "string \<Rightarrow> bool" where
  "has_expansion s = list_ex (\<lambda>c. c = CHR ''$'' \<or> c = CHR 0x60) s"

definition decoded_directory :: "string \<Rightarrow> local_path \<Rightarrow> local_path option" where
  "decoded_directory decoded home =
     (if decoded = ''$HOME'' \<or> starts_with decoded ''$HOME/'' then
        (let relative = dropWhile (\<lambda>c. c = CHR ''/'') (drop 5 decoded) in
         if has_expansion relative then None else Some (lp_append home (lp_of_text relative)))
      else if has_expansion decoded then None
      else if lp_absolute (lp_of_text decoded) then Some (lp_of_text decoded) else None)"

definition parse_system_directory :: "string \<Rightarrow> string \<Rightarrow> local_path \<Rightarrow> local_path option" where
  "parse_system_directory data key home =
     Option.bind
       (List.find (\<lambda>(name, value). trim name = key)
          (rev (List.map_filter (\<lambda>line. split_once (CHR ''='') (trim line)) (rust_lines data))))
       (\<lambda>(name, value).
          Option.bind (strip_prefix [CHR 0x22] (trim value)) (\<lambda>v.
          Option.bind (strip_suffix [CHR 0x22] v) (\<lambda>v.
          Option.bind (unescape v) (\<lambda>decoded. decoded_directory decoded home))))"

record known_folder_diagnostic =
  kd_index :: nat
  kd_configured_local :: string
  kd_local :: local_path
  kd_remote :: string
  kd_state :: known_folder_source_state
  kd_message :: string
  kd_system_directory :: "local_path option"
  kd_warnings :: "string list"

definition folder_warnings :: "known_folder_config \<Rightarrow> local_path \<Rightarrow> local_path \<Rightarrow> local_path option \<Rightarrow> string list" where
  "folder_warnings folder local home system =
     (if trim (kc_remote folder) = []
      then [''Cloud destination is empty; this mapping is skipped.''] else []) @
     (case system of
        None \<Rightarrow> []
      | Some sys \<Rightarrow>
          if sys = home
          then [''The system special directory points to your home directory. Repair its XDG setting separately; TwoDrive keeps the explicit source.'']
          else if sys \<noteq> local
          then [''The system special directory differs from this upload source. If you renamed the source, choose its current location; custom mappings may be intentional.'']
          else [])"

text \<open>user_dirs is the content of user-dirs.dirs, empty when it cannot be read.\<close>

definition diagnose ::
    "local_fs \<Rightarrow> local_path \<Rightarrow> local_path \<Rightarrow> string \<Rightarrow> nat \<Rightarrow> known_folder_config \<Rightarrow> known_folder_diagnostic" where
  "diagnose fs home mount user_dirs index folder =
     (let local = expand_home (kc_local folder) home;
          state = inspect_known_folder_source fs local home mount;
          remote = normalize_cloud_path (kc_remote folder);
          system = Option.bind (system_directory_key remote)
                     (\<lambda>key. parse_system_directory user_dirs key home) in
      \<lparr>kd_index = index, kd_configured_local = kc_local folder, kd_local = local, kd_remote = remote,
       kd_state = state, kd_message = source_message state, kd_system_directory = system,
       kd_warnings = folder_warnings folder local home system\<rparr>)"

definition known_folder_diagnostics ::
    "local_fs \<Rightarrow> local_path option \<Rightarrow> string \<Rightarrow> config \<Rightarrow> app_paths \<Rightarrow> config_error + known_folder_diagnostic list" where
  "known_folder_diagnostics fs home user_dirs cfg paths =
     (case home of
        None \<Rightarrow> Inl HomeNotSet
      | Some h \<Rightarrow>
          Inr (map (\<lambda>(i, folder). diagnose fs h (ap_mount_dir paths) user_dirs i folder)
                 (List.enumerate 0 (kf_folders (c_known_folders cfg)))))"

section \<open>Roots and exclusions\<close>

record known_folder_root =
  root_local :: local_path
  root_remote :: string

definition configured_known_folders ::
    "local_fs \<Rightarrow> local_path option \<Rightarrow> string \<Rightarrow> config \<Rightarrow> app_paths \<Rightarrow> config_error + known_folder_root list" where
  "configured_known_folders fs home user_dirs cfg paths =
     and_then (known_folder_diagnostics fs home user_dirs cfg paths) (\<lambda>ds.
       Inr (map (\<lambda>d. \<lparr>root_local = kd_local d, root_remote = kd_remote d\<rparr>)
         (filter (\<lambda>d. kd_state d = Ready \<and>
            trim (kc_remote (kf_folders (c_known_folders cfg) ! kd_index d)) \<noteq> []) ds)))"

definition skip_name :: "string \<Rightarrow> config \<Rightarrow> bool" where
  "skip_name name cfg =
     (name \<in> set (kf_exclude_names (c_known_folders cfg)) \<or>
      name = ''.'' \<or> name = ''..'' \<or>
      (starts_with name ''.'' \<and> name \<noteq> ''.'') \<or>
      starts_with name ''~$'' \<or> ends_with name ''~'' \<or> ends_with name ''.swp'' \<or>
      ends_with name ''.swo'' \<or> ends_with name ''.swx'' \<or>
      name \<in> {''Thumbs.db'', ''desktop.ini'', ''.DS_Store''} \<or>
      list_ex (ends_with name) (kf_exclude_suffixes (c_known_folders cfg)))"

definition should_skip :: "local_path \<Rightarrow> config \<Rightarrow> bool" where
  "should_skip path cfg = list_ex (\<lambda>name. skip_name name cfg) (lp_components path)"

definition relative_to :: "local_path \<Rightarrow> local_path \<Rightarrow> local_path" where
  "relative_to root path = (case lp_strip_prefix path root of Some r \<Rightarrow> r | None \<Rightarrow> path)"

definition ok_values :: "('e + 'a) list \<Rightarrow> 'a list" where
  "ok_values rs = List.map_filter (\<lambda>r. case r of Inl e \<Rightarrow> None | Inr a \<Rightarrow> Some a) rs"

definition should_skip_source :: "local_path option \<Rightarrow> local_path \<Rightarrow> config \<Rightarrow> bool" where
  "should_skip_source home path cfg =
     (let root = max_by_key lp_count
           (filter (lp_starts_with path)
             (ok_values (map (\<lambda>f. expand_known_folder_home home (kc_local f)) (kf_folders (c_known_folders cfg))))) in
      should_skip (case root of None \<Rightarrow> path | Some r \<Rightarrow> relative_to r path) cfg)"

text \<open>What the rate limiter reads of the configuration.\<close>

definition rate_config_of :: "local_path option \<Rightarrow> config \<Rightarrow> rate_config" where
  "rate_config_of home cfg =
     (let expand = (\<lambda>s. case expand_known_folder_home home s of Inl e \<Rightarrow> None | Inr p \<Rightarrow> Some p);
          k = c_known_folders cfg in
      \<lparr>file_max = kf_max_file_uploads k, project_max = kf_max_project_uploads k,
       rate_roots = map expand (kf_upload_rate_roots k),
       folder_roots = map (expand \<circ> kc_local) (kf_folders k)\<rparr>)"

section \<open>The scan\<close>

datatype kf_fault = KfIo | OutsideRoot | BadNumber | NotPersisted | NoHome | BadInterval

definition from_metadata :: "int \<Rightarrow> file_meta \<Rightarrow> file_snapshot" where
  "from_metadata now m =
     \<lparr>snap_size = fm_len m,
      snap_modified_unix = (case fm_modified m of Some (s, n) \<Rightarrow> sint s | None \<Rightarrow> now),
      snap_modified_nanos = (case fm_modified m of Some (s, n) \<Rightarrow> n | None \<Rightarrow> 0)\<rparr>"

text \<open>None when the path is not below the root.\<close>

definition remote_path_for :: "known_folder_root \<Rightarrow> local_path \<Rightarrow> string option" where
  "remote_path_for root path =
     map_option (\<lambda>relative. normalize_cloud_path
         (foldl (\<lambda>remote part. if part = [] then remote else join_cloud_path remote part)
            (root_remote root) (lp_components relative)))
       (lp_strip_prefix path (root_local root))"

text \<open>In scan.rs the parent is None only for a path without a slash.\<close>

definition parent_remote_path :: "string \<Rightarrow> string option" where
  "parent_remote_path path =
     (let p = normalize_cloud_path path in
      map_option (\<lambda>i. if take i p = [] then ''/'' else take i p) (rfind (CHR ''/'') p))"

text \<open>The shared shape of collect_local_path and baseline_path: skip, look, descend, visit.\<close>

primrec walk_entries ::
    "(local_path \<Rightarrow> 's \<Rightarrow> (kf_fault + 's) option) \<Rightarrow> local_path \<Rightarrow> (io_kind + string) list \<Rightarrow> 's \<Rightarrow> (kf_fault + 's) option" where
  "walk_entries f path [] s = Some (Inr s)"
| "walk_entries f path (e # es) s =
     (case e of
        Inl err \<Rightarrow> Some (Inl KfIo)
      | Inr name \<Rightarrow>
          (case f (lp_join path name) s of
             None \<Rightarrow> None
           | Some (Inl err) \<Rightarrow> Some (Inl err)
           | Some (Inr s') \<Rightarrow> walk_entries f path es s'))"

primrec walk ::
    "nat \<Rightarrow> local_fs \<Rightarrow> config \<Rightarrow> local_path \<Rightarrow> (local_path \<Rightarrow> file_meta \<Rightarrow> 's \<Rightarrow> kf_fault + 's) \<Rightarrow>
     local_path \<Rightarrow> 's \<Rightarrow> (kf_fault + 's) option" where
  "walk 0 fs cfg root visit path s = None"
| "walk (Suc n) fs cfg root visit path s =
     (if should_skip (relative_to root path) cfg then Some (Inr s)
      else case lf_symlink_metadata fs path of
        Inl NotFound \<Rightarrow> Some (Inr s)
      | Inl OtherIo \<Rightarrow> Some (Inl KfIo)
      | Inr m \<Rightarrow>
          (case fm_type m of
             SymlinkNode \<Rightarrow> Some (Inr s)
           | DirectoryNode \<Rightarrow>
               (case lf_read_dir fs path of
                  Inl e \<Rightarrow> Some (Inl KfIo)
                | Inr es \<Rightarrow> walk_entries (walk n fs cfg root visit) path es s)
           | RegularNode \<Rightarrow> Some (visit path m s)
           | SpecialNode \<Rightarrow> Some (Inr s)))"

text \<open>files is the table of the snapshots that were uploaded.\<close>

definition collect_file ::
    "int \<Rightarrow> known_folder_root \<Rightarrow> (string \<times> file_snapshot) list \<Rightarrow> local_path \<Rightarrow> file_meta \<Rightarrow>
     upload_job list \<Rightarrow> kf_fault + upload_job list" where
  "collect_file now root files path m jobs =
     (let snapshot = from_metadata now m in
      if map_of files (lp_text path) = Some snapshot then Inr jobs
      else case remote_path_for root path of
             None \<Rightarrow> Inl OutsideRoot
           | Some remote \<Rightarrow>
               Inr (jobs @ [\<lparr>job_local = path, job_remote = remote, job_snapshot = snapshot\<rparr>]))"

definition collect_local_path ::
    "nat \<Rightarrow> local_fs \<Rightarrow> int \<Rightarrow> config \<Rightarrow> known_folder_root \<Rightarrow> local_path \<Rightarrow> (string \<times> file_snapshot) list \<Rightarrow>
     upload_job list \<Rightarrow> (kf_fault + upload_job list) option" where
  "collect_local_path n fs now cfg root path files jobs =
     walk n fs cfg (root_local root) (collect_file now root files) path jobs"

definition baseline_file ::
    "int \<Rightarrow> local_path \<Rightarrow> file_meta \<Rightarrow> (string \<times> file_snapshot) list \<Rightarrow> kf_fault + (string \<times> file_snapshot) list" where
  "baseline_file now path m files =
     (let key = lp_text path in
      Inr (if map_of files key = None then AList.update key (from_metadata now m) files else files))"

definition baseline_path ::
    "nat \<Rightarrow> local_fs \<Rightarrow> int \<Rightarrow> config \<Rightarrow> local_path \<Rightarrow> local_path \<Rightarrow> (string \<times> file_snapshot) list \<Rightarrow>
     (kf_fault + (string \<times> file_snapshot) list) option" where
  "baseline_path n fs now cfg root path files = walk n fs cfg root (baseline_file now) path files"

section \<open>What a scan finds\<close>

text \<open>A tree nested at most n levels below a path: the fuel n walks it completely.\<close>

primrec fits :: "local_fs \<Rightarrow> nat \<Rightarrow> local_path \<Rightarrow> bool" where
  "fits fs 0 path = False"
| "fits fs (Suc n) path =
     (case lf_symlink_metadata fs path of
        Inl e \<Rightarrow> True
      | Inr m \<Rightarrow> (case lf_read_dir fs path of
            Inl e \<Rightarrow> True
          | Inr es \<Rightarrow> fm_type m \<noteq> DirectoryNode \<or> list_all (\<lambda>name. fits fs n (lp_join path name)) (ok_values es)))"

text \<open>The files a walk from a path reaches: through directories only, past no excluded name.\<close>

inductive scan_file :: "local_fs \<Rightarrow> config \<Rightarrow> local_path \<Rightarrow> local_path \<Rightarrow> local_path \<Rightarrow> file_meta \<Rightarrow> bool"
  for fs cfg root where
  found: "\<not> should_skip (relative_to root p) cfg \<Longrightarrow> lf_symlink_metadata fs p = Inr m \<Longrightarrow>
    fm_type m = RegularNode \<Longrightarrow> scan_file fs cfg root p p m"
| below: "\<not> should_skip (relative_to root p) cfg \<Longrightarrow> lf_symlink_metadata fs p = Inr d \<Longrightarrow>
    fm_type d = DirectoryNode \<Longrightarrow> lf_read_dir fs p = Inr es \<Longrightarrow> Inr name \<in> set es \<Longrightarrow>
    scan_file fs cfg root (lp_join p name) q m \<Longrightarrow> scan_file fs cfg root p q m"

inductive_cases scan_fileE: "scan_file fs cfg root p q m"

lemma set_ok_values: "a \<in> set (ok_values rs) \<longleftrightarrow> Inr a \<in> set rs"
  unfolding ok_values_def by (induction rs) (auto simp: List.map_filter_simps split: sum.splits)

lemma scan_file_directory:
  assumes "\<not> should_skip (relative_to root p) cfg" "lf_symlink_metadata fs p = Inr d"
    "fm_type d = DirectoryNode" "lf_read_dir fs p = Inr es"
  shows "scan_file fs cfg root p q m \<longleftrightarrow> (\<exists>name\<in>set (ok_values es). scan_file fs cfg root (lp_join p name) q m)"
  using assms by (subst scan_file.simps) (auto simp: set_ok_values)

lemma scan_file_not_skipped:
  "scan_file fs cfg root p q m \<Longrightarrow> \<not> should_skip (relative_to root q) cfg \<and>
     lf_symlink_metadata fs q = Inr m \<and> fm_type m = RegularNode \<and> lp_starts_with q p"
proof (induction rule: scan_file.induct)
  case (below p d es name q m)
  then show ?case using starts_with_trans[OF _ starts_with_join] by blast
qed simp

lemma walk_entries_total:
  "(\<And>name s. name \<in> set (ok_values es) \<Longrightarrow> f (lp_join path name) s \<noteq> None) \<Longrightarrow> walk_entries f path es s \<noteq> None"
proof (induction es arbitrary: s)
  case (Cons e es)
  show ?case
  proof (cases e)
    case (Inr name)
    then have "f (lp_join path name) s \<noteq> None" by (intro Cons.prems) (simp add: set_ok_values)
    moreover have "walk_entries f path es t \<noteq> None" for t
      by (rule Cons.IH, rule Cons.prems) (simp add: set_ok_values)
    ultimately show ?thesis using Inr by (auto split: option.splits sum.splits)
  qed simp
qed simp

lemma walk_total: "fits fs n path \<Longrightarrow> walk n fs cfg root visit path s \<noteq> None"
proof (induction n arbitrary: path s)
  case (Suc n)
  have "walk_entries (walk n fs cfg root visit) path es t \<noteq> None"
    if "lf_symlink_metadata fs path = Inr m" "fm_type m = DirectoryNode" "lf_read_dir fs path = Inr es" for m es t
    by (rule walk_entries_total, rule Suc.IH) (use Suc.prems that in \<open>auto simp: list_all_iff\<close>)
  then show ?case by (auto split: sum.splits io_kind.splits node_type.splits)
qed simp

text \<open>
  What a visitor adds depends on the file alone; the walk then adds it for every file it reaches.
  items s is what an accumulator holds.
\<close>

lemma walk_entries_adds:
  assumes "\<And>p s s'. f p s = Some (Inr s') \<Longrightarrow> items s' = items s \<union> J p"
  shows "walk_entries f path es s = Some (Inr s') \<Longrightarrow>
    items s' = items s \<union> (\<Union>name\<in>set (ok_values es). J (lp_join path name))"
proof (induction es arbitrary: s)
  case (Cons e es)
  from Cons.prems obtain name t where e: "e = Inr name" "f (lp_join path name) s = Some (Inr t)"
    "walk_entries f path es t = Some (Inr s')"
    by (auto split: sum.splits option.splits)
  from Cons.IH[OF e(3)] assms[OF e(2)] e(1) show ?case
    by (auto simp: ok_values_def List.map_filter_simps)
qed (simp add: ok_values_def List.map_filter_simps)

lemma walk_adds:
  fixes items :: "'s \<Rightarrow> 'a set"
  assumes visit: "\<And>p m s s'. visit p m s = Inr s' \<Longrightarrow> items s' = items s \<union> K p m"
  shows "walk n fs cfg root visit path s = Some (Inr s') \<Longrightarrow>
    items s' = items s \<union> {x. \<exists>q m. scan_file fs cfg root path q m \<and> x \<in> K q m}"
proof (induction n arbitrary: path s s')
  case (Suc n)
  let ?J = "\<lambda>path. {x. \<exists>q m. scan_file fs cfg root path q m \<and> x \<in> K q m}"
  have none: "?J path = {}" if "\<not> (\<exists>q m. scan_file fs cfg root path q m)" using that by blast
  show ?case
  proof (cases "should_skip (relative_to root path) cfg")
    case True
    then have "?J path = {}" by (intro none) (auto elim: scan_fileE)
    with True Suc.prems show ?thesis by auto
  next
    case go: False
    show ?thesis
    proof (cases "lf_symlink_metadata fs path")
      case (Inl e)
      then have "?J path = {}" by (intro none) (auto elim: scan_fileE)
      with Inl go Suc.prems show ?thesis by (auto split: io_kind.splits)
    next
      case m: (Inr m)
      show ?thesis
      proof (cases "fm_type m")
        case RegularNode
        then have "?J path = K path m" using go m
          by (auto elim: scan_fileE intro: scan_file.found)
        moreover have "items s' = items s \<union> K path m"
          by (rule visit) (use Suc.prems go m RegularNode in simp)
        ultimately show ?thesis by simp
      next
        case DirectoryNode
        with Suc.prems go m obtain es where es: "lf_read_dir fs path = Inr es"
          "walk_entries (walk n fs cfg root visit) path es s = Some (Inr s')"
          by (auto split: sum.splits)
        have "?J path = (\<Union>name\<in>set (ok_values es). ?J (lp_join path name))"
          using go m DirectoryNode es(1)
          by (auto simp: scan_file_directory)
        with walk_entries_adds[where f = "walk n fs cfg root visit" and items = items and J = ?J, OF _ es(2)] Suc.IH
        show ?thesis by simp
      next
        case SymlinkNode
        then have "?J path = {}" using m by (intro none) (auto elim: scan_fileE)
        with SymlinkNode go m Suc.prems show ?thesis by auto
      next
        case SpecialNode
        then have "?J path = {}" using m by (intro none) (auto elim: scan_fileE)
        with SpecialNode go m Suc.prems show ?thesis by auto
      qed
    qed
  qed
qed simp

definition changed_job ::
    "int \<Rightarrow> known_folder_root \<Rightarrow> (string \<times> file_snapshot) list \<Rightarrow> local_path \<Rightarrow> file_meta \<Rightarrow> upload_job \<Rightarrow> bool" where
  "changed_job now root files q m job =
     (map_of files (lp_text q) \<noteq> Some (from_metadata now m) \<and> job_local job = q \<and>
      job_snapshot job = from_metadata now m \<and> remote_path_for root q = Some (job_remote job))"

lemma collect_file_adds:
  "collect_file now root files q m jobs = Inr jobs' \<Longrightarrow> set jobs' = set jobs \<union> {job. changed_job now root files q m job}"
  by (auto simp: collect_file_def Let_def changed_job_def split: if_splits option.splits)

section \<open>Where a file goes\<close>

definition under :: "local_path \<Rightarrow> string list \<Rightarrow> local_path" where
  "under p names = p\<lparr>lp_names := lp_names p @ names\<rparr>"

lemma strip_under: "lp_absolute p \<Longrightarrow> lp_strip_prefix (under p names) p = Some \<lparr>lp_absolute = False, lp_names = names\<rparr>"
  by (simp add: lp_strip_prefix_def starts_with_iff under_def lp_components_def)

definition join_part :: "string \<Rightarrow> string \<Rightarrow> string" where
  "join_part remote part = (if part = [] then remote else join_cloud_path remote part)"

lemma foldl_join_parts:
  assumes "List.list_all clean_name (cs @ names)" "cs = [] \<Longrightarrow> names = [] \<or> \<not> is_white (hd (hd names))"
  shows "foldl join_part (path_of cs) names = path_of (cs @ names)"
  using assms
proof (induction names arbitrary: cs)
  case (Cons n names)
  then have n: "List.list_all clean_name (cs @ [n])" by simp
  then have "n \<noteq> []" by (simp add: clean_name_def)
  with n Cons.prems have "join_part (path_of cs) n = path_of (cs @ [n])"
    using join_path_of[OF n] by (simp add: join_part_def)
  with Cons.prems Cons.IH[of "cs @ [n]"] show ?case by simp
qed simp

lemma remote_path_under:
  assumes "lp_absolute (root_local root)" "root_remote root = path_of cs"
    and "List.list_all clean_name (cs @ names)" "cs = [] \<Longrightarrow> names = [] \<or> \<not> is_white (hd (hd names))"
  shows "remote_path_for root (under (root_local root) names) = Some (path_of (cs @ names))"
  using assms foldl_join_parts[OF assms(3,4)] normalize_path_of[OF assms(3)]
  by (simp add: remote_path_for_def strip_under lp_components_def join_part_def[abs_def])

lemma remote_path_defined:
  "lp_starts_with path (root_local root) \<Longrightarrow> remote_path_for root path \<noteq> None"
  by (simp add: remote_path_for_def lp_strip_prefix_def)

text \<open>Trailing white space is lost on the way: two files of one folder can share a cloud path.\<close>

definition sample_root :: known_folder_root where
  "sample_root = \<lparr>root_local = \<lparr>lp_absolute = True, lp_names = [''d'']\<rparr>, root_remote = ''/D''\<rparr>"

lemma remote_paths_collide:
  "remote_path_for sample_root (under (root_local sample_root) [''a '']) =
   remote_path_for sample_root (under (root_local sample_root) [''a''])"
  by code_simp

section \<open>Properties\<close>

text \<open>C23: a scan of a directory tree ends, and unless the file system reports an error it queues an
  upload for exactly the regular files that it reaches through directories that are not excluded
  and whose size or modification time differs from the last upload; a link is never followed and
  no path below the root with an excluded name is queued.\<close>

theorem scan_queues_changed_files:
  assumes "fits fs n path"
  shows "\<exists>r. collect_local_path n fs now cfg root path files [] = Some r \<and>
    (case r of
       Inl e \<Rightarrow> True
     | Inr jobs \<Rightarrow>
         set jobs = {job. \<exists>q m. scan_file fs cfg (root_local root) path q m \<and> changed_job now root files q m job} \<and>
         list_all (\<lambda>job. \<not> should_skip (relative_to (root_local root) (job_local job)) cfg) jobs)"
proof -
  have "collect_local_path n fs now cfg root path files [] \<noteq> None"
    unfolding collect_local_path_def by (rule walk_total[OF assms])
  then obtain r where r: "collect_local_path n fs now cfg root path files [] = Some r" by auto
  have s: "set jobs = {job. \<exists>q m. scan_file fs cfg (root_local root) path q m \<and> changed_job now root files q m job}"
    if "r = Inr jobs" for jobs
    using walk_adds[where items = set and K = "\<lambda>q m. {job. changed_job now root files q m job}",
        OF collect_file_adds r[unfolded collect_local_path_def that]] by simp
  have "list_all (\<lambda>job. \<not> should_skip (relative_to (root_local root) (job_local job)) cfg) jobs"
    if "r = Inr jobs" for jobs
    using s[OF that] scan_file_not_skipped by (auto simp: list_all_iff changed_job_def)
  with r s show ?thesis by (auto split: sum.split)
qed

definition sample_meta :: "node_type \<Rightarrow> file_meta" where
  "sample_meta k = \<lparr>fm_type = k, fm_len = 3, fm_modified = Some (7, 0)\<rparr>"

definition sample_stat :: "local_path \<Rightarrow> io_kind + file_meta" where
  "sample_stat p =
     (if lp_names p = [''d''] then Inr (sample_meta DirectoryNode)
      else if lp_names p \<in> {[''d'', ''a''], [''d'', ''.x'']} then Inr (sample_meta RegularNode)
      else Inl NotFound)"

definition sample_fs :: local_fs where
  "sample_fs = \<lparr>lf_symlink_metadata = sample_stat, lf_metadata = sample_stat,
     lf_read_dir = (\<lambda>p. if lp_names p = [''d''] then Inr [Inr ''a'', Inr ''.x''] else Inl OtherIo),
     lf_canonicalize = Inr\<rparr>"

lemma scan_queues_changed_files_witness:
  "\<exists>jobs. collect_local_path 2 sample_fs 0 default_config sample_root (root_local sample_root) [] [] = Some (Inr jobs) \<and>
     set jobs = {job. \<exists>q m. scan_file sample_fs default_config (root_local sample_root) (root_local sample_root) q m \<and>
       changed_job 0 sample_root [] q m job} \<and> map job_remote jobs = [''/D/a'']"
proof -
  have "fits sample_fs 2 (root_local sample_root)" by code_simp
  from scan_queues_changed_files[OF this, of 0 default_config sample_root "[]"] obtain r where
    r: "collect_local_path 2 sample_fs 0 default_config sample_root (root_local sample_root) [] [] = Some r"
    "case r of Inl e \<Rightarrow> True | Inr jobs \<Rightarrow> set jobs = {job. \<exists>q m.
        scan_file sample_fs default_config (root_local sample_root) (root_local sample_root) q m \<and>
        changed_job 0 sample_root [] q m job} \<and>
        list_all (\<lambda>job. \<not> should_skip (relative_to (root_local sample_root) (job_local job)) default_config) jobs"
    by blast
  have "map_option (map_ok (map job_remote))
     (collect_local_path 2 sample_fs 0 default_config sample_root (root_local sample_root) [] []) = Some (Inr [''/D/a''])"
    by code_simp
  then obtain jobs where "r = Inr jobs" "map job_remote jobs = [''/D/a'']"
    using r(1) by (auto simp: map_ok_Inr)
  with r show ?thesis by simp
qed

text \<open>On clean names the cloud mirrors the local tree: a file goes below the root's cloud folder
  under its own relative names, so files at different places of a root have different cloud
  paths.\<close>

lemma uploads_mirror_tree:
  assumes "lp_absolute (root_local root)" "root_remote root = path_of cs"
    and "list_all clean_name (cs @ names)" "list_all clean_name (cs @ names')" "cs \<noteq> []"
  shows "remote_path_for root (under (root_local root) names) = Some (path_of (cs @ names)) \<and>
    (remote_path_for root (under (root_local root) names) =
       remote_path_for root (under (root_local root) names') \<longleftrightarrow> names = names')"
proof -
  have "remote_path_for root (under (root_local root) xs) = Some (path_of (cs @ xs))"
    if "list_all clean_name (cs @ xs)" for xs
    using remote_path_under[OF assms(1,2) that] assms(5) by blast
  with assms(3,4) path_of_inj[OF assms(3,4)] show ?thesis by auto
qed

lemma uploads_mirror_tree_witness:
  "remote_path_for sample_root (under (root_local sample_root) [''a'', ''b'']) = Some (path_of [''D'', ''a'', ''b''])"
proof -
  have "root_remote sample_root = path_of [''D'']" "list_all clean_name ([''D''] @ [''a'', ''b''])"
    "list_all clean_name ([''D''] @ [''c''])" "lp_absolute (root_local sample_root)"
    by code_simp+
  from uploads_mirror_tree[OF this(4,1,2,3)] show ?thesis by simp
qed

text \<open>A folder is offered for upload only from a place that cannot feed back: an absolute
  directory that is not a link, neither the home directory nor the root of the file system, and
  neither above nor below the mounted drive, as it is written and after links are resolved.\<close>

lemma configured_roots_are_outside_mount:
  assumes "configured_known_folders fs (Some home) user_dirs cfg paths = Inr roots" "r \<in> set roots"
  shows "\<exists>resolved mount'. lf_canonicalize fs (root_local r) = Inr resolved \<and>
    mount' = unwrap_or (ap_mount_dir paths) (lf_canonicalize fs (ap_mount_dir paths)) \<and>
    lp_absolute (root_local r) \<and> root_local r \<noteq> home \<and> resolved \<noteq> fs_root \<and>
    \<not> lp_starts_with (root_local r) (ap_mount_dir paths) \<and> \<not> lp_starts_with (ap_mount_dir paths) (root_local r) \<and>
    \<not> lp_starts_with resolved mount' \<and> \<not> lp_starts_with mount' resolved \<and>
    (\<exists>m. lf_symlink_metadata fs (root_local r) = Inr m \<and> fm_type m = DirectoryNode)"
proof -
  have "inspect_known_folder_source fs (root_local r) home (ap_mount_dir paths) = Ready"
    using assms by (auto simp: configured_known_folders_def known_folder_diagnostics_def diagnose_def Let_def)
  then show ?thesis
    by (auto simp: inspect_known_folder_source_def Let_def split: if_splits sum.splits io_kind.splits)
qed

definition sample_paths :: app_paths where
  "sample_paths = \<lparr>ap_config_dir = fs_root, ap_config_path = fs_root, ap_data_dir = fs_root,
     ap_cache_dir = fs_root, ap_db_path = fs_root, ap_mount_dir = lp_join fs_root ''m'', ap_token_path = fs_root\<rparr>"

definition sample_config :: config where
  "sample_config = default_config\<lparr>c_known_folders :=
     default_known_folders\<lparr>kf_folders := [\<lparr>kc_local = ''/d'', kc_remote = ''D''\<rparr>, \<lparr>kc_local = ''~'', kc_remote = ''H''\<rparr>]\<rparr>\<rparr>"

lemma configured_roots_are_outside_mount_witness:
  "configured_known_folders sample_fs (Some (lp_join fs_root ''h'')) [] sample_config sample_paths = Inr [sample_root] \<and>
   \<not> lp_starts_with (root_local sample_root) (ap_mount_dir sample_paths)"
proof -
  have c: "configured_known_folders sample_fs (Some (lp_join fs_root ''h'')) [] sample_config sample_paths = Inr [sample_root]"
    by code_simp
  from configured_roots_are_outside_mount[OF this, of sample_root] c show ?thesis by auto
qed

end
