(* ===== verification/KnownState.thy ===== *)
theory KnownState
  imports KnownFolders
begin

text \<open>
  crates/twodrive-daemon/src/known_folders/state.rs and store.rs: what the daemon remembers of the
  known folders, in memory and in known-folders-state.sqlite3.  A HashMap is an association list
  with distinct keys (its order stands for the unspecified order of iteration), a table the list
  of its rows with integer columns, a transaction one change of the tables.  The main fact: after
  every operation that reports success a restart loads what memory holds.
\<close>

section \<open>State\<close>

record pending_upload =
  pu_remote_path :: string
  pu_snapshot :: file_snapshot

text \<open>ks_storage says that the connection is open.\<close>

record known_folder_state =
  ks_rate_deferred :: bool
  ks_rate :: upload_rate
  ks_storage :: bool
  ks_baseline_initialized :: bool
  ks_files :: "(string \<times> file_snapshot) list"
  ks_pending :: "(string \<times> pending_upload) list"

definition default_state :: known_folder_state where
  "default_state = \<lparr>ks_rate_deferred = False, ks_rate = new_rate, ks_storage = False,
     ks_baseline_initialized = False, ks_files = [], ks_pending = []\<rparr>"

definition outside_path :: "local_path \<Rightarrow> string \<Rightarrow> bool" where
  "outside_path path k = (k \<noteq> lp_text path \<and> \<not> starts_with k (lp_text path @ ''/''))"

definition remove_path :: "local_path \<Rightarrow> known_folder_state \<Rightarrow> known_folder_state" where
  "remove_path path s =
     s\<lparr>ks_files := filter (\<lambda>(k, _). outside_path path k) (ks_files s),
       ks_pending := filter (\<lambda>(k, _). outside_path path k) (ks_pending s)\<rparr>"

definition prune_missing_pending :: "local_fs \<Rightarrow> known_folder_state \<Rightarrow> nat \<times> known_folder_state" where
  "prune_missing_pending fs s =
     (let missing = filter (\<lambda>k. \<not> local_is_file fs (lp_of_text k)) (map fst (ks_pending s)) in
      (length missing,
       foldl (\<lambda>s k. s\<lparr>ks_pending := AList.delete k (ks_pending s), ks_files := AList.delete k (ks_files s)\<rparr>) s missing))"

section \<open>Tables\<close>

type_synonym number_row = "int \<times> int \<times> int"

record known_folder_store =
  db_baseline :: "bool option"
  db_files :: "(string \<times> number_row) list"
  db_pending :: "(string \<times> string \<times> number_row) list"

text \<open>The old JSON file holds the serialised part of the state.\<close>

record legacy_state =
  ls_baseline :: bool
  ls_files :: "(string \<times> file_snapshot) list"
  ls_pending :: "(string \<times> pending_upload) list"

record known_folder_dir =
  dir_store :: "known_folder_store option"
  dir_legacy :: "(kf_fault + legacy_state) option"

definition empty_store :: known_folder_store where
  "empty_store = \<lparr>db_baseline = None, db_files = [], db_pending = []\<rparr>"

definition open_store :: "known_folder_dir \<Rightarrow> known_folder_dir" where
  "open_store d = (case dir_store d of None \<Rightarrow> d\<lparr>dir_store := Some empty_store\<rparr> | Some st \<Rightarrow> d)"

definition store_of :: "known_folder_dir \<Rightarrow> known_folder_store" where
  "store_of d = (case dir_store d of None \<Rightarrow> empty_store | Some st \<Rightarrow> st)"

text \<open>Binding a u64 above i64::MAX fails, and so does reading a number outside the field's range.\<close>

definition number_params :: "file_snapshot \<Rightarrow> kf_fault + number_row" where
  "number_params s =
     (if snap_size s \<le> 0x7FFFFFFFFFFFFFFF
      then Inr (uint (snap_size s), snap_modified_unix s, uint (snap_modified_nanos s))
      else Inl BadNumber)"

definition read_numbers :: "number_row \<Rightarrow> kf_fault + file_snapshot" where
  "read_numbers row =
     (case row of (a, b, c) \<Rightarrow>
        if a < 0 \<or> c < 0 \<or> 2 ^ 32 \<le> c then Inl BadNumber
        else Inr \<lparr>snap_size = of_int a, snap_modified_unix = b, snap_modified_nanos = of_int c\<rparr>)"

definition pending_params :: "pending_upload \<Rightarrow> kf_fault + string \<times> number_row" where
  "pending_params p = map_ok (Pair (pu_remote_path p)) (number_params (pu_snapshot p))"

definition read_pending :: "string \<times> number_row \<Rightarrow> kf_fault + pending_upload" where
  "read_pending row =
     map_ok (\<lambda>s. \<lparr>pu_remote_path = fst row, pu_snapshot = s\<rparr>) (read_numbers (snd row))"

text \<open>A loop over keyed entries that converts each value and inserts the result by its key.\<close>

definition convert :: "('a \<Rightarrow> 'e + 'b) \<Rightarrow> (string \<times> 'a) list \<Rightarrow> (string \<times> 'b) list \<Rightarrow> 'e + (string \<times> 'b) list" where
  "convert f rows = fold_result (\<lambda>(k, v) m. map_ok (\<lambda>b. AList.update k b m) (f v)) rows"

section \<open>Operations of the store\<close>

definition save ::
    "known_folder_state \<Rightarrow> known_folder_dir \<Rightarrow> (kf_fault + unit) \<times> known_folder_state \<times> known_folder_dir" where
  "save s d =
     (let d1 = (if ks_storage s then d else open_store d);
          s1 = s\<lparr>ks_storage := True\<rparr> in
      case and_then (convert number_params (ks_files s) []) (\<lambda>fs.
             map_ok (Pair fs) (convert pending_params (ks_pending s) [])) of
        Inl e \<Rightarrow> (Inl e, s1, d1)
      | Inr (fs, ps) \<Rightarrow>
          (Inr (), s1, d1\<lparr>dir_store := Some \<lparr>db_baseline = Some (ks_baseline_initialized s),
             db_files = fs, db_pending = ps\<rparr>\<rparr>))"

definition adopt_nanos :: "local_fs \<Rightarrow> int \<Rightarrow> string \<Rightarrow> file_snapshot \<Rightarrow> file_snapshot" where
  "adopt_nanos fs now local snapshot =
     (case lf_symlink_metadata fs (lp_of_text local) of
        Inl e \<Rightarrow> snapshot
      | Inr m \<Rightarrow>
          let current = from_metadata now m in
          if snap_size current = snap_size snapshot \<and> snap_modified_unix current = snap_modified_unix snapshot
          then snapshot\<lparr>snap_modified_nanos := snap_modified_nanos current\<rparr> else snapshot)"

definition load_legacy ::
    "local_fs \<Rightarrow> int \<Rightarrow> known_folder_dir \<Rightarrow> (kf_fault + known_folder_state) \<times> known_folder_dir" where
  "load_legacy fs now d =
     (case dir_legacy d of
        None \<Rightarrow> (Inr default_state, d)
      | Some (Inl e) \<Rightarrow> (Inl e, d)
      | Some (Inr old) \<Rightarrow>
          let s = default_state\<lparr>ks_baseline_initialized := ls_baseline old,
                    ks_files := map (\<lambda>(k, v). (k, adopt_nanos fs now k v)) (ls_files old),
                    ks_pending := ls_pending old\<rparr> in
          (case save s d of
             (Inl e, s', d') \<Rightarrow> (Inl e, d')
           | (Inr u, s', d') \<Rightarrow> (Inr s', d')))"

definition load_store :: "bool \<Rightarrow> known_folder_store \<Rightarrow> kf_fault + known_folder_state" where
  "load_store baseline st =
     and_then (convert read_numbers (db_files st) []) (\<lambda>fs.
     and_then (convert read_pending (db_pending st) []) (\<lambda>ps.
       Inr (default_state\<lparr>ks_storage := True, ks_baseline_initialized := baseline,
         ks_files := fs, ks_pending := ps\<rparr>)))"

definition load ::
    "local_fs \<Rightarrow> int \<Rightarrow> known_folder_dir \<Rightarrow> (kf_fault + known_folder_state) \<times> known_folder_dir" where
  "load fs now d =
     (case Option.bind (dir_store d) db_baseline of
        Some baseline \<Rightarrow> (load_store baseline (store_of d), d)
      | None \<Rightarrow> load_legacy fs now d)"

definition job_key :: "upload_job \<Rightarrow> string" where
  "job_key job = lp_text (job_local job)"

definition job_pending :: "upload_job \<Rightarrow> pending_upload" where
  "job_pending job = \<lparr>pu_remote_path = job_remote job, pu_snapshot = job_snapshot job\<rparr>"

definition queue_uploads ::
    "upload_job list \<Rightarrow> known_folder_state \<Rightarrow> known_folder_dir \<Rightarrow>
     (kf_fault + unit) \<times> known_folder_state \<times> known_folder_dir" where
  "queue_uploads jobs s d =
     (case (if ks_storage s then (Inr (), s, d) else save s d) of
        (Inl e, s1, d1) \<Rightarrow> (Inl e, s1, d1)
      | (Inr u, s1, d1) \<Rightarrow>
          (case convert pending_params (map (\<lambda>j. (job_key j, job_pending j)) jobs) (db_pending (store_of d1)) of
             Inl e \<Rightarrow> (Inl e, s1, d1)
           | Inr ps \<Rightarrow>
               (Inr (),
                s1\<lparr>ks_pending := foldl (\<lambda>m j. AList.update (job_key j) (job_pending j) m) (ks_pending s1) jobs\<rparr>,
                d1\<lparr>dir_store := Some ((store_of d1)\<lparr>db_pending := ps\<rparr>)\<rparr>)))"

definition complete_upload ::
    "string \<Rightarrow> file_snapshot \<Rightarrow> known_folder_state \<Rightarrow> known_folder_dir \<Rightarrow>
     (kf_fault + unit) \<times> known_folder_state \<times> known_folder_dir" where
  "complete_upload local snapshot s d =
     (if \<not> ks_storage s then (Inl NotPersisted, s, d)
      else case number_params snapshot of
        Inl e \<Rightarrow> (Inl e, s, d)
      | Inr row \<Rightarrow>
          (Inr (),
           s\<lparr>ks_files := AList.update local snapshot (ks_files s),
             ks_pending := AList.delete local (ks_pending s)\<rparr>,
           d\<lparr>dir_store := Some ((store_of d)
              \<lparr>db_files := AList.update local row (db_files (store_of d)),
               db_pending := AList.delete local (db_pending (store_of d))\<rparr>)\<rparr>))"

section \<open>Memory and tables\<close>

text \<open>A table holds a map: the same keys in the same order, each value under its conversion.\<close>

definition stored :: "('a \<Rightarrow> 'e + 'b) \<Rightarrow> (string \<times> 'a) list \<Rightarrow> (string \<times> 'b) list \<Rightarrow> bool" where
  "stored f m rows = list_all2 (\<lambda>(k, v) (k', r). k = k' \<and> f v = Inr r) m rows"

lemma stored_Nil [simp]: "stored f [] rows \<longleftrightarrow> rows = []"
  by (simp add: stored_def)

lemma stored_Cons [simp]:
  "stored f ((k, v) # m) rows \<longleftrightarrow> (\<exists>r rows'. rows = (k, r) # rows' \<and> f v = Inr r \<and> stored f m rows')"
  by (auto simp: stored_def list_all2_Cons1)

lemma stored_update:
  "stored f m rows \<Longrightarrow> f v = Inr r \<Longrightarrow> stored f (AList.update k v m) (AList.update k r rows)"
  by (induction m arbitrary: rows) auto

lemma stored_delete: "stored f m rows \<Longrightarrow> stored f (AList.delete k m) (AList.delete k rows)"
  by (induction m arbitrary: rows) auto

lemma convert_simps [simp]:
  "convert f [] m = Inr m"
  "convert f ((k, v) # rows) m = and_then (f v) (\<lambda>b. convert f rows (AList.update k b m))"
  by (cases "f v"; simp add: convert_def map_ok_def)+

lemma convert_stored:
  "convert f kvs rows = Inr rows' \<Longrightarrow> stored f m rows \<Longrightarrow>
   stored f (foldl (\<lambda>m (k, v). AList.update k v m) m kvs) rows'"
proof (induction kvs arbitrary: m rows)
  case (Cons kv kvs)
  obtain k v where kv: "kv = (k, v)" by (cases kv)
  with Cons.prems(1) obtain b where b: "f v = Inr b" "convert f kvs (AList.update k b rows) = Inr rows'"
    by (auto simp: and_then_Inr_iff)
  from Cons.IH[OF b(2) stored_update[OF Cons.prems(2) b(1)]] kv show ?case by simp
qed simp

lemma foldl_update_new:
  "distinct (map fst m) \<Longrightarrow> fst ` set acc \<inter> fst ` set m = {} \<Longrightarrow>
   foldl (\<lambda>m (k, v). AList.update k v m) acc m = acc @ m"
proof (induction m arbitrary: acc)
  case (Cons kv m)
  obtain k v where kv: "kv = (k, v)" by (cases kv)
  have "AList.update k v acc = acc @ [(k, v)]"
    using Cons.prems(2) kv by (induction acc) auto
  with Cons.prems Cons.IH[of "acc @ [(k, v)]"] kv show ?case by auto
qed simp

lemma convert_inverse:
  assumes "\<And>v r. f v = Inr r \<Longrightarrow> g r = Inr v"
  shows "stored f m rows \<Longrightarrow> convert g rows acc = Inr (foldl (\<lambda>m (k, v). AList.update k v m) acc m)"
proof (induction m arbitrary: rows acc)
  case (Cons kv m)
  then show ?case using assms by (cases kv) auto
qed (simp add: stored_def)

lemma read_number_params: "number_params s = Inr r \<Longrightarrow> read_numbers r = Inr s"
proof -
  have "uint (snap_modified_nanos s) < 4294967296"
    using unsigned_less[of "snap_modified_nanos s"] by simp
  moreover assume "number_params s = Inr r"
  ultimately show ?thesis
    by (cases s) (auto simp: number_params_def read_numbers_def split: if_splits)
qed

lemma read_pending_params: "pending_params p = Inr r \<Longrightarrow> read_pending r = Inr p"
  by (cases p) (auto simp: pending_params_def read_pending_def map_ok_Inr dest: read_number_params)

definition kf_ok :: "known_folder_state \<Rightarrow> bool" where
  "kf_ok s = (distinct (map fst (ks_files s)) \<and> distinct (map fst (ks_pending s)))"

definition agrees :: "known_folder_state \<Rightarrow> known_folder_dir \<Rightarrow> bool" where
  "agrees s d =
     (ks_storage s \<and>
      (\<exists>st. dir_store d = Some st \<and> db_baseline st = Some (ks_baseline_initialized s) \<and>
        stored number_params (ks_files s) (db_files st) \<and> stored pending_params (ks_pending s) (db_pending st)))"

lemma agrees_save:
  assumes "kf_ok s" "save s d = (Inr u, s', d')"
  shows "agrees s' d' \<and> s' = s\<lparr>ks_storage := True\<rparr>"
proof -
  from assms(2) obtain fs ps where r: "convert number_params (ks_files s) [] = Inr fs"
    "convert pending_params (ks_pending s) [] = Inr ps" "s' = s\<lparr>ks_storage := True\<rparr>"
    "dir_store d' = Some \<lparr>db_baseline = Some (ks_baseline_initialized s), db_files = fs, db_pending = ps\<rparr>"
    by (auto simp: save_def Let_def and_then_Inr_iff map_ok_Inr split: sum.splits prod.splits)
  have "stored number_params (ks_files s) fs" "stored pending_params (ks_pending s) ps"
    using convert_stored[OF r(1), of "[]"] convert_stored[OF r(2), of "[]"] assms(1)
    by (simp_all add: foldl_update_new kf_ok_def)
  with r show ?thesis by (simp add: agrees_def)
qed

lemma kf_ok_save: "kf_ok s \<Longrightarrow> save s d = (r, s', d') \<Longrightarrow> kf_ok s'"
  by (auto simp: save_def Let_def kf_ok_def split: sum.splits prod.splits)

definition queued :: "upload_job list \<Rightarrow> (string \<times> pending_upload) list \<Rightarrow> (string \<times> pending_upload) list" where
  "queued jobs m = foldl (\<lambda>m j. AList.update (job_key j) (job_pending j) m) m jobs"

lemma queued_foldl:
  "foldl (\<lambda>m (k, v). AList.update k v m) m (map (\<lambda>j. (job_key j, job_pending j)) jobs) = queued jobs m"
  by (induction jobs arbitrary: m) (simp_all add: queued_def)

lemma queued_simps [simp]:
  "queued [] m = m" "queued (j # jobs) m = queued jobs (AList.update (job_key j) (job_pending j) m)"
  by (simp_all add: queued_def)

lemma distinct_queued: "distinct (map fst m) \<Longrightarrow> distinct (map fst (queued jobs m))"
  by (induction jobs arbitrary: m) (simp_all add: distinct_update)

lemma queue_uploads_ok:
  assumes "kf_ok s" "ks_storage s \<Longrightarrow> agrees s d" "queue_uploads jobs s d = (Inr u, s', d')"
  shows "agrees s' d' \<and> kf_ok s' \<and>
    s' = s\<lparr>ks_storage := True, ks_pending := queued jobs (ks_pending s)\<rparr>"
proof -
  define s1 where "s1 = s\<lparr>ks_storage := True\<rparr>"
  obtain d1 where d1: "(if ks_storage s then (Inr (), s, d) else save s d) = (Inr (), s1, d1)"
    and agr: "agrees s1 d1"
    using assms agrees_save[OF assms(1)]
    by (auto simp: queue_uploads_def s1_def split: sum.splits prod.splits if_splits)
  from assms(3) d1 obtain ps where
    ps: "convert pending_params (map (\<lambda>j. (job_key j, job_pending j)) jobs) (db_pending (store_of d1)) = Inr ps"
    and s': "s' = s1\<lparr>ks_pending := queued jobs (ks_pending s1)\<rparr>"
    and d': "d' = d1\<lparr>dir_store := Some ((store_of d1)\<lparr>db_pending := ps\<rparr>)\<rparr>"
    unfolding queue_uploads_def d1 by (auto simp: queued_def split: sum.splits)
  from agr obtain st where st: "dir_store d1 = Some st" "store_of d1 = st"
    "db_baseline st = Some (ks_baseline_initialized s1)"
    "stored number_params (ks_files s1) (db_files st)" "stored pending_params (ks_pending s1) (db_pending st)"
    by (auto simp: agrees_def store_of_def)
  have "stored pending_params (queued jobs (ks_pending s1)) ps"
    using convert_stored[OF ps[unfolded st(2)] st(5)] unfolding queued_foldl .
  with st s' d' assms(1) distinct_queued show ?thesis
    by (simp add: agrees_def s1_def kf_ok_def)
qed

lemma complete_upload_ok:
  assumes "kf_ok s" "agrees s d" "complete_upload local snapshot s d = (Inr u, s', d')"
  shows "agrees s' d' \<and> kf_ok s' \<and>
    s' = s\<lparr>ks_files := AList.update local snapshot (ks_files s), ks_pending := AList.delete local (ks_pending s)\<rparr>"
  using assms
  by (auto simp: complete_upload_def agrees_def store_of_def kf_ok_def stored_update stored_delete
      distinct_update distinct_delete split: sum.splits if_splits)

text \<open>What a restart makes of a state: the session's rate history is gone.\<close>

definition restarted :: "known_folder_state \<Rightarrow> known_folder_state" where
  "restarted s = s\<lparr>ks_rate_deferred := False, ks_rate := new_rate\<rparr>"

lemma load_agrees:
  assumes "agrees s d" "kf_ok s"
  shows "load fs now d = (Inr (restarted s), d)"
proof -
  obtain st where st: "ks_storage s" "dir_store d = Some st" "db_baseline st = Some (ks_baseline_initialized s)"
    "stored number_params (ks_files s) (db_files st)" "stored pending_params (ks_pending s) (db_pending st)"
    using assms(1) by (auto simp: agrees_def)
  have "convert read_numbers (db_files st) [] = Inr (ks_files s)"
    "convert read_pending (db_pending st) [] = Inr (ks_pending s)"
    using convert_inverse[OF read_number_params st(4)] convert_inverse[OF read_pending_params st(5)] assms(2)
    by (simp_all add: foldl_update_new kf_ok_def)
  with st show ?thesis
    by (cases s) (simp add: load_def load_store_def store_of_def default_state_def restarted_def map_ok_def)
qed

lemma agrees_storage: "agrees s d \<Longrightarrow> ks_storage s"
  by (simp add: agrees_def)

text \<open>What every operation of the daemon keeps: the tables are those of memory once they exist.\<close>

definition consistent :: "known_folder_state \<Rightarrow> known_folder_dir \<Rightarrow> bool" where
  "consistent s d = (kf_ok s \<and> (ks_storage s \<longrightarrow> agrees s d))"

section \<open>Properties\<close>

definition sample_snapshot :: file_snapshot where
  "sample_snapshot = \<lparr>snap_size = 3, snap_modified_unix = 7, snap_modified_nanos = 1\<rparr>"

definition sample_state :: known_folder_state where
  "sample_state = default_state\<lparr>ks_files := [(''/d/a'', sample_snapshot)],
     ks_pending := [(''/d/b'', \<lparr>pu_remote_path = ''/D/b'', pu_snapshot = sample_snapshot\<rparr>)]\<rparr>"

definition empty_dir :: known_folder_dir where
  "empty_dir = \<lparr>dir_store = None, dir_legacy = None\<rparr>"

text \<open>C38: the state survives a restart: what save wrote is what load reads, the uploaded snapshots
  and the queued uploads with their cloud paths, whatever the tables and the old JSON file held
  before; only the rate history of the session is dropped.\<close>

theorem save_load_round_trip:
  assumes "kf_ok s" "save s d = (Inr u, s', d')"
  shows "load fs now d' = (Inr (restarted (s\<lparr>ks_storage := True\<rparr>)), d')"
  using agrees_save[OF assms] kf_ok_save[OF assms] by (auto intro!: load_agrees)

lemma save_load_round_trip_witness:
  "load sample_fs 0 (snd (snd (save sample_state empty_dir))) =
     (Inr (restarted (sample_state\<lparr>ks_storage := True\<rparr>)), snd (snd (save sample_state empty_dir)))"
proof -
  have "kf_ok sample_state" by code_simp
  moreover have "fst (save sample_state empty_dir) = Inr ()" by code_simp
  then have "save sample_state empty_dir = (Inr (), fst (snd (save sample_state empty_dir)), snd (snd (save sample_state empty_dir)))"
    by (simp add: prod_eq_iff)
  ultimately show ?thesis by (rule save_load_round_trip)
qed

end
