(* ===== verification/KnownUploads.thy ===== *)
theory KnownUploads
  imports KnownState Recovery
begin

text \<open>
  crates/twodrive-daemon/src/known_folders/uploads.rs: one upload of a local file, and a batch of
  uploads on several threads.  A batch is a step relation: a worker takes a job through the rate
  limiter, a worker finishes an upload, the main thread records a result; every interleaving of
  them is a run.  The local files are a function of the world, so they may change whenever the
  world does: while the cloud is called.  The progress display is left out.
\<close>

section \<open>One upload\<close>

definition current_snapshot ::
    "('c world \<Rightarrow> local_fs) \<Rightarrow> local_path \<Rightarrow> ('e, 'c, file_snapshot) act" where
  "current_snapshot lf path w =
     (case lf_metadata (lf w) path of
        Inl e \<Rightarrow> (Inl IoFault, w)
      | Inr m \<Rightarrow> (Inr (from_metadata (w_now w) m), w))"

definition accept_dir :: "metadata_entry \<Rightarrow> ('e, 'c, unit) act" where
  "accept_dir entry =
     (if m_is_dir entry then import_entry entry else act_fail (Bail ''remote parent is a file''))"

definition create_remote_dir :: "('e, 'c) backend \<Rightarrow> string \<Rightarrow> ('e, 'c, unit) act" where
  "create_remote_dir be current =
     act_bind (cloud_try (create_folder be current)) (\<lambda>created.
       case created of
         Inr entry \<Rightarrow> import_entry entry
       | Inl err \<Rightarrow>
           act_bind (cloud_call (get_metadata_by_path be current)) (\<lambda>found.
             case found of
               None \<Rightarrow> act_fail (CloudFault err)
             | Some entry \<Rightarrow> accept_dir entry))"

fun ensure_parts :: "('e, 'c) backend \<Rightarrow> string \<Rightarrow> string list \<Rightarrow> ('e, 'c, unit) act" where
  "ensure_parts be current [] = act_return ()"
| "ensure_parts be current (part # parts) =
     (let current = join_cloud_path current part in
      act_bind (read_db (get_by_path current)) (\<lambda>row.
        case row of
          Some r \<Rightarrow>
            if m_is_dir (metadata r) then ensure_parts be current parts
            else act_fail (Bail ''remote parent is a file'')
        | None \<Rightarrow>
            act_bind (cloud_call (get_metadata_by_path be current)) (\<lambda>found.
              act_bind (case found of
                  Some entry \<Rightarrow> accept_dir entry
                | None \<Rightarrow> create_remote_dir be current) (\<lambda>_.
                ensure_parts be current parts))))"

definition ensure_remote_dir :: "('e, 'c) backend \<Rightarrow> string \<Rightarrow> ('e, 'c, unit) act" where
  "ensure_remote_dir be remote_dir =
     (let dir = normalize_cloud_path remote_dir in
      if dir = ''/'' then act_return ()
      else ensure_parts be ''/'' (split_on (CHR ''/'') (trim_slashes dir)))"

definition upload_known_folder_file ::
    "('e, 'c) backend \<Rightarrow> ('c world \<Rightarrow> local_fs) \<Rightarrow> upload_job \<Rightarrow> ('e, 'c, metadata_entry) act" where
  "upload_known_folder_file be lf job =
     act_bind (current_snapshot lf (job_local job)) (\<lambda>before.
     if before \<noteq> job_snapshot job then act_fail (Bail ''local file changed before upload started'')
     else
       act_bind (case parent_remote_path (job_remote job) of
           None \<Rightarrow> act_return ()
         | Some parent \<Rightarrow> ensure_remote_dir be parent) (\<lambda>_.
       act_bind (read_db (get_by_path (job_remote job))) (\<lambda>existing.
       act_bind (cloud_call (upload_file_with_version be (job_remote job) (lp_text (job_local job))
           (Option.bind existing r_cloud_remote_id) (map_option (\<lambda>r. m_etag (metadata r)) existing))) (\<lambda>uploaded.
       act_bind (current_snapshot lf (job_local job)) (\<lambda>after.
         if after \<noteq> job_snapshot job then act_fail (Bail ''local file changed while uploading'')
         else act_return uploaded)))))"

section \<open>A batch\<close>

text \<open>
  Jobs not yet taken, jobs being uploaded, finished jobs the main thread has not seen (None for
  an error, which is only printed), and the state the main thread and the limiter share.
\<close>

record 'c batch =
  b_queue :: "(upload_job \<times> bool) list"
  b_flight :: "upload_job list"
  b_results :: "(upload_job \<times> metadata_entry option) list"
  b_deferred :: nat
  b_stopped :: bool
  b_state :: known_folder_state
  b_dir :: known_folder_dir
  b_world :: "'c world"

text \<open>The rate limiter looks at a path without following links.\<close>

definition probe_of :: "local_fs \<Rightarrow> probe" where
  "probe_of fs p =
     (case lf_symlink_metadata fs p of
        Inl e \<Rightarrow> None
      | Inr m \<Rightarrow> Some (case fm_type m of RegularNode \<Rightarrow> FileEntry | DirectoryNode \<Rightarrow> DirEntry | _ \<Rightarrow> OtherEntry))"

definition upload_workers :: "config \<Rightarrow> nat" where
  "upload_workers cfg = unat (max (pc_ac_upload_concurrency (c_power cfg)) 1)"

text \<open>A worker takes the next job; the limiter admits or defers it at the instant now.\<close>

definition worker_take ::
    "('c world \<Rightarrow> local_fs) \<Rightarrow> rate_config \<Rightarrow> nat \<Rightarrow> instant \<Rightarrow> 'c batch \<Rightarrow> 'c batch" where
  "worker_take lf rates window now b =
     (case b_queue b of
        [] \<Rightarrow> b
      | (job, changed) # rest \<Rightarrow>
          (case acquire (probe_of (lf (b_world b))) rates window now job changed (ks_rate (b_state b)) of
             (allowed, rate) \<Rightarrow>
               let b' = b\<lparr>b_queue := rest, b_state := (b_state b)\<lparr>ks_rate := rate\<rparr>\<rparr> in
               if allowed then b'\<lparr>b_flight := b_flight b' @ [job]\<rparr>
               else b'\<lparr>b_deferred := Suc (b_deferred b')\<rparr>))"

text \<open>Worker i finishes; after the main thread has stopped nobody receives the result.\<close>

definition worker_finish ::
    "('e, 'c) backend \<Rightarrow> ('c world \<Rightarrow> local_fs) \<Rightarrow> nat \<Rightarrow> 'c batch \<Rightarrow> 'c batch" where
  "worker_finish be lf i b =
     (case upload_known_folder_file be lf (b_flight b ! i) (b_world b) of
        (r, w) \<Rightarrow> b\<lparr>b_flight := take i (b_flight b) @ drop (Suc i) (b_flight b), b_world := w,
          b_results := (if b_stopped b then b_results b
            else b_results b @ [(b_flight b ! i, case r of Inl e \<Rightarrow> None | Inr entry \<Rightarrow> Some entry)])\<rparr>)"

definition stop_batch :: "'c batch \<Rightarrow> 'c batch" where
  "stop_batch b = b\<lparr>b_stopped := True, b_results := []\<rparr>"

text \<open>The main thread records the next result.\<close>

definition commit_result :: "'c batch \<Rightarrow> 'c batch" where
  "commit_result b =
     (case b_results b of
        [] \<Rightarrow> b
      | (job, None) # rest \<Rightarrow> b\<lparr>b_results := rest\<rparr>
      | (job, Some uploaded) # rest \<Rightarrow>
          (case (import_entry uploaded :: (unit, 'c, unit) act) (b_world b) of
             (Inl e, w) \<Rightarrow> stop_batch (b\<lparr>b_world := w\<rparr>)
           | (Inr u, w) \<Rightarrow>
               (case complete_upload (job_key job) (job_snapshot job) (b_state b) (b_dir b) of
                  (Inl e, s, d) \<Rightarrow> stop_batch (b\<lparr>b_world := w, b_state := s, b_dir := d\<rparr>)
                | (Inr u, s, d) \<Rightarrow> b\<lparr>b_results := rest, b_world := w, b_state := s, b_dir := d\<rparr>)))"

definition job_changed :: "known_folder_state \<Rightarrow> upload_job \<Rightarrow> bool" where
  "job_changed s job =
     (case map_of (ks_files s) (job_key job) of None \<Rightarrow> False | Some previous \<Rightarrow> previous \<noteq> job_snapshot job)"

definition new_batch :: "upload_job list \<Rightarrow> known_folder_state \<Rightarrow> known_folder_dir \<Rightarrow> 'c world \<Rightarrow> 'c batch" where
  "new_batch jobs s d w =
     \<lparr>b_queue = map (\<lambda>j. (j, job_changed s j)) jobs, b_flight = [], b_results = [], b_deferred = 0,
      b_stopped = False, b_state = s, b_dir = d, b_world = w\<rparr>"

text \<open>
  The runs of a batch.  The log holds the uploads that ended without an error, each with the
  world it started in and the world it ended in.
\<close>

type_synonym 'c upload_log = "(upload_job \<times> 'c world \<times> 'c world) list"

inductive batch_run ::
    "('e, 'c) backend \<Rightarrow> ('c world \<Rightarrow> local_fs) \<Rightarrow> rate_config \<Rightarrow> nat \<Rightarrow> nat \<Rightarrow> 'c batch \<Rightarrow> 'c batch \<Rightarrow> 'c upload_log \<Rightarrow> bool"
  for be lf rates window workers b0 where
  start: "batch_run be lf rates window workers b0 b0 []"
| take: "batch_run be lf rates window workers b0 b log \<Longrightarrow> length (b_flight b) < workers \<Longrightarrow>
    batch_run be lf rates window workers b0 (worker_take lf rates window now b) log"
| finish: "batch_run be lf rates window workers b0 b log \<Longrightarrow> i < length (b_flight b) \<Longrightarrow>
    upload_known_folder_file be lf (b_flight b ! i) (b_world b) = (r, w) \<Longrightarrow>
    batch_run be lf rates window workers b0 (worker_finish be lf i b)
      (case r of Inl e \<Rightarrow> log | Inr entry \<Rightarrow> log @ [(b_flight b ! i, b_world b, w)])"
| commit: "batch_run be lf rates window workers b0 b log \<Longrightarrow>
    batch_run be lf rates window workers b0 (commit_result b) log"

definition batch_done :: "'c batch \<Rightarrow> bool" where
  "batch_done b = (b_queue b = [] \<and> b_flight b = [] \<and> b_results b = [])"

definition batch_result :: "'c batch \<Rightarrow> (kf_fault + unit) \<times> known_folder_state" where
  "batch_result b =
     (if b_stopped b then (Inl KfIo, b_state b)
      else
        (let s = (if 0 < b_deferred b then (b_state b)\<lparr>ks_rate_deferred := True\<rparr> else b_state b) in
         (Inr (), if ks_pending s = [] then s\<lparr>ks_rate_deferred := False\<rparr> else s)))"

text \<open>The jobs that are started: those whose source is not excluded now.\<close>

definition wanted_jobs :: "local_path option \<Rightarrow> config \<Rightarrow> upload_job list \<Rightarrow> upload_job list" where
  "wanted_jobs home cfg jobs = filter (\<lambda>j. \<not> should_skip_source home (job_local j) cfg) jobs"

text \<open>An Instant counts nanoseconds.\<close>

definition window_of :: "u64 \<Rightarrow> nat" where
  "window_of seconds = unat seconds * 1000000000"

inductive process_known_folder_uploads ::
    "('e, 'c) backend \<Rightarrow> ('c world \<Rightarrow> local_fs) \<Rightarrow> local_path option \<Rightarrow> config \<Rightarrow> upload_job list \<Rightarrow>
     known_folder_state \<times> known_folder_dir \<times> 'c world \<Rightarrow> 'c upload_log \<Rightarrow> kf_fault + unit \<Rightarrow>
     known_folder_state \<times> known_folder_dir \<times> 'c world \<Rightarrow> bool"
  for be lf home cfg jobs where
  nothing: "wanted_jobs home cfg jobs = [] \<Longrightarrow>
    process_known_folder_uploads be lf home cfg jobs (s, d, w) [] (Inr ()) (s, d, w)"
| not_queued: "wanted_jobs home cfg jobs \<noteq> [] \<Longrightarrow>
    queue_uploads (wanted_jobs home cfg jobs) s d = (Inl e, s', d') \<Longrightarrow>
    process_known_folder_uploads be lf home cfg jobs (s, d, w) [] (Inl e) (s', d', w)"
| bad_interval: "wanted_jobs home cfg jobs \<noteq> [] \<Longrightarrow>
    queue_uploads (wanted_jobs home cfg jobs) s d = (Inr u, s', d') \<Longrightarrow>
    known_folder_upload_rate_seconds cfg = Inl e \<Longrightarrow>
    process_known_folder_uploads be lf home cfg jobs (s, d, w) [] (Inl BadInterval) (s', d', w)"
| uploads: "wanted_jobs home cfg jobs \<noteq> [] \<Longrightarrow>
    queue_uploads (wanted_jobs home cfg jobs) s d = (Inr u, s', d') \<Longrightarrow>
    known_folder_upload_rate_seconds cfg = Inr seconds \<Longrightarrow>
    batch_run be lf (rate_config_of home cfg) (window_of seconds) (upload_workers cfg)
      (new_batch (wanted_jobs home cfg jobs) s' d' w) b log \<Longrightarrow> batch_done b \<Longrightarrow>
    process_known_folder_uploads be lf home cfg jobs (s, d, w) log (fst (batch_result b))
      (snd (batch_result b), b_dir b, b_world b)"

section \<open>Retries\<close>

definition retry_jobs :: "local_fs \<Rightarrow> int \<Rightarrow> known_folder_state \<Rightarrow> upload_job list" where
  "retry_jobs fs now s =
     List.map_filter (\<lambda>(local, p).
         case lf_metadata fs (lp_of_text local) of
           Inl e \<Rightarrow> None
         | Inr m \<Rightarrow> Some \<lparr>job_local = lp_of_text local, job_remote = pu_remote_path p,
             job_snapshot = from_metadata now m\<rparr>) (ks_pending s)"

definition retire_excluded :: "local_path option \<Rightarrow> config \<Rightarrow> known_folder_state \<Rightarrow> known_folder_state" where
  "retire_excluded home cfg s =
     s\<lparr>ks_pending := filter (\<lambda>(k, v). \<not> should_skip_source home (lp_of_text k) cfg) (ks_pending s),
       ks_files := filter (\<lambda>(k, v). \<not> should_skip_source home (lp_of_text k) cfg) (ks_files s)\<rparr>"

text \<open>The bookkeeping before a retry: exclusions and files that are gone, saved when they mattered.\<close>

definition prepare_retry ::
    "local_fs \<Rightarrow> local_path option \<Rightarrow> config \<Rightarrow> known_folder_state \<Rightarrow> known_folder_dir \<Rightarrow>
     (kf_fault + unit) \<times> known_folder_state \<times> known_folder_dir" where
  "prepare_retry fs home cfg s d =
     (let s1 = snd (prune_missing_pending fs (retire_excluded home cfg s)) in
      if (length (ks_files s), length (ks_pending s)) \<noteq> (length (ks_files s1), length (ks_pending s1))
      then save s1 d else (Inr (), s1, d))"

inductive retry_known_folder_uploads ::
    "('e, 'c) backend \<Rightarrow> ('c world \<Rightarrow> local_fs) \<Rightarrow> local_path option \<Rightarrow> config \<Rightarrow>
     known_folder_state \<times> known_folder_dir \<times> 'c world \<Rightarrow> 'c upload_log \<Rightarrow> kf_fault + unit \<Rightarrow>
     known_folder_state \<times> known_folder_dir \<times> 'c world \<Rightarrow> bool"
  for be lf home cfg where
  idle: "ks_pending s = [] \<Longrightarrow>
    retry_known_folder_uploads be lf home cfg (s, d, w) [] (Inr ()) (s\<lparr>ks_rate_deferred := False\<rparr>, d, w)"
| not_saved: "ks_pending s \<noteq> [] \<Longrightarrow> prepare_retry (lf w) home cfg s d = (Inl e, s', d') \<Longrightarrow>
    retry_known_folder_uploads be lf home cfg (s, d, w) [] (Inl e) (s', d', w)"
| retry: "ks_pending s \<noteq> [] \<Longrightarrow> prepare_retry (lf w) home cfg s d = (Inr u, s', d') \<Longrightarrow>
    process_known_folder_uploads be lf home cfg (retry_jobs (lf w) (w_now w) s')
      (s'\<lparr>ks_rate_deferred := False\<rparr>, d', w) log r t \<Longrightarrow>
    retry_known_folder_uploads be lf home cfg (s, d, w) log r t"

section \<open>Invariant of a batch\<close>

lemma map_of_queued_other: "k \<notin> job_key ` set jobs \<Longrightarrow> map_of (queued jobs m) k = map_of m k"
  by (induction jobs arbitrary: m) (simp_all add: update_conv')

lemma map_of_queued:
  "inj_on job_key (set jobs) \<Longrightarrow> j \<in> set jobs \<Longrightarrow> map_of (queued jobs m) (job_key j) = Some (job_pending j)"
proof (induction jobs arbitrary: m)
  case (Cons x jobs)
  have inj: "inj_on job_key (set jobs)" using Cons.prems(1) by (auto simp: inj_on_def)
  show ?case
  proof (cases "j \<in> set jobs")
    case True
    then show ?thesis using Cons.IH[OF inj True] by simp
  next
    case False
    with Cons.prems have "j = x" "job_key j \<notin> job_key ` set jobs" by (auto simp: inj_on_def)
    then show ?thesis by (simp add: map_of_queued_other update_conv')
  qed
qed simp

definition confirmed :: "upload_job \<Rightarrow> 'c upload_log \<Rightarrow> bool" where
  "confirmed job log = (\<exists>u u'. (job, u, u') \<in> set log)"

text \<open>A job is still queued with its snapshot, or its upload was confirmed and recorded.\<close>

definition accounted :: "known_folder_state \<Rightarrow> 'c upload_log \<Rightarrow> upload_job \<Rightarrow> bool" where
  "accounted s log job =
     (map_of (ks_pending s) (job_key job) = Some (job_pending job) \<or>
      (map_of (ks_files s) (job_key job) = Some (job_snapshot job) \<and> confirmed job log))"

definition batch_inv :: "upload_job list \<Rightarrow> 'c upload_log \<Rightarrow> 'c batch \<Rightarrow> bool" where
  "batch_inv jobs log b =
     (kf_ok (b_state b) \<and> agrees (b_state b) (b_dir b) \<and>
      fst ` set (b_queue b) \<subseteq> set jobs \<and> set (b_flight b) \<subseteq> set jobs \<and>
      (\<forall>(job, r)\<in>set (b_results b). job \<in> set jobs \<and> (r \<noteq> None \<longrightarrow> confirmed job log)) \<and>
      (\<forall>job\<in>set jobs. accounted (b_state b) log job))"

lemma confirmed_append: "confirmed job log \<Longrightarrow> confirmed job (log @ log')"
  by (auto simp: confirmed_def)

lemma accounted_append: "accounted s log job \<Longrightarrow> accounted s (log @ log') job"
  by (auto simp: accounted_def confirmed_append)

lemma agrees_rate [simp]: "agrees (s\<lparr>ks_rate := r\<rparr>) d = agrees s d" "kf_ok (s\<lparr>ks_rate := r\<rparr>) = kf_ok s"
  "agrees (s\<lparr>ks_rate_deferred := x\<rparr>) d = agrees s d" "kf_ok (s\<lparr>ks_rate_deferred := x\<rparr>) = kf_ok s"
  by (simp_all add: agrees_def kf_ok_def)

lemma accounted_rate [simp]: "accounted (s\<lparr>ks_rate := r\<rparr>) log job = accounted s log job"
  by (simp add: accounted_def)

lemma inv_take: "batch_inv jobs log b \<Longrightarrow> batch_inv jobs log (worker_take lf rates window now b)"
  by (auto simp: batch_inv_def worker_take_def Let_def image_subset_iff split: list.splits prod.splits)

lemma inv_append: "batch_inv jobs log b \<Longrightarrow> batch_inv jobs (log @ log') b"
  by (fastforce simp: batch_inv_def confirmed_append accounted_append)

lemma inv_finish:
  assumes "batch_inv jobs log b" "i < length (b_flight b)"
    and "upload_known_folder_file be lf (b_flight b ! i) (b_world b) = (r, w)"
  shows "batch_inv jobs (case r of Inl e \<Rightarrow> log | Inr entry \<Rightarrow> log @ [(b_flight b ! i, b_world b, w)])
    (worker_finish be lf i b)"
proof -
  let ?log = "case r of Inl e \<Rightarrow> log | Inr entry \<Rightarrow> log @ [(b_flight b ! i, b_world b, w)]"
  have inv: "batch_inv jobs ?log b" using assms(1) by (auto simp: inv_append split: sum.split)
  have job: "b_flight b ! i \<in> set jobs" using assms(1,2) nth_mem by (auto simp: batch_inv_def)
  have c: "r = Inr e \<Longrightarrow> confirmed (b_flight b ! i) ?log" for e by (auto simp: confirmed_def)
  have "set (take i (b_flight b) @ drop (Suc i) (b_flight b)) \<subseteq> set (b_flight b)"
    using set_take_subset set_drop_subset by fastforce
  with inv job c assms(3) show ?thesis
    by (auto simp: batch_inv_def worker_finish_def split: sum.split)
qed

lemma inv_commit:
  assumes inj: "inj_on job_key (set jobs)" and inv: "batch_inv jobs log b"
  shows "batch_inv jobs log (commit_result b)"
proof (cases "b_results b")
  case Nil
  then show ?thesis using inv by (simp add: commit_result_def)
next
  case (Cons jr rest)
  obtain job r where jr: "jr = (job, r)" by (cases jr)
  show ?thesis
  proof (cases r)
    case None
    then show ?thesis using inv Cons jr by (auto simp: batch_inv_def commit_result_def)
  next
    case (Some e)
    obtain ir w where ir: "(import_entry e :: (unit, 'a, unit) act) (b_world b) = (ir, w)" by fastforce
    obtain cr s d where cr: "complete_upload (job_key job) (job_snapshot job) (b_state b) (b_dir b) = (cr, s, d)"
      by (metis prod_cases3)
    have job: "job \<in> set jobs" "confirmed job log" using inv Cons jr Some by (auto simp: batch_inv_def)
    consider (import) x where "ir = Inl x" | (fail) y x where "ir = Inr y" "cr = Inl x" | (ok) y z where "ir = Inr y" "cr = Inr z"
      by (cases ir; cases cr) auto
    then show ?thesis
    proof cases
      case import
      then show ?thesis using inv Cons jr Some ir by (simp add: batch_inv_def commit_result_def stop_batch_def)
    next
      case fail
      have "s = b_state b" "d = b_dir b" using cr fail by (auto simp: complete_upload_def split: if_splits sum.splits)
      then show ?thesis using inv Cons jr Some ir cr fail
        by (simp add: batch_inv_def commit_result_def stop_batch_def)
    next
      case ok
      have c: "agrees s d" "kf_ok s" "s = (b_state b)\<lparr>ks_files := AList.update (job_key job) (job_snapshot job) (ks_files (b_state b)),
          ks_pending := AList.delete (job_key job) (ks_pending (b_state b))\<rparr>"
        using complete_upload_ok[of "b_state b" "b_dir b" _ _ _ s d] inv cr ok by (auto simp: batch_inv_def)
      have "accounted s log j" if "j \<in> set jobs" for j
      proof (cases "j = job")
        case True
        then show ?thesis using c(3) job(2) by (simp add: accounted_def update_conv')
      next
        case False
        with inj that job(1) have "job_key j \<noteq> job_key job" by (auto simp: inj_on_def)
        moreover have "accounted (b_state b) log j" using inv that by (simp add: batch_inv_def)
        ultimately show ?thesis using c(3) by (simp add: accounted_def update_conv' delete_conv')
      qed
      with c inv Cons jr Some ir cr ok show ?thesis by (auto simp: batch_inv_def commit_result_def)
    qed
  qed
qed

lemma inv_run:
  "batch_run be lf rates window workers b0 b log \<Longrightarrow> inj_on job_key (set jobs) \<Longrightarrow> batch_inv jobs [] b0 \<Longrightarrow>
   batch_inv jobs log b"
  by (induction rule: batch_run.induct) (auto intro: inv_take inv_finish inv_commit)

lemma inv_new:
  assumes "consistent s d" "inj_on job_key (set jobs)" "queue_uploads jobs s d = (Inr u, s', d')"
  shows "batch_inv jobs [] (new_batch jobs s' d' w)"
proof -
  have q: "agrees s' d'" "kf_ok s'" "ks_pending s' = queued jobs (ks_pending s)"
    using queue_uploads_ok[OF _ _ assms(3)] assms(1) by (auto simp: consistent_def)
  then show ?thesis using map_of_queued[OF assms(2)]
    by (auto simp: batch_inv_def new_batch_def accounted_def)
qed

text \<open>No more uploads run than the configuration allows.\<close>

lemma flight_bound:
  "batch_run be lf rates window workers (new_batch jobs s d w) b log \<Longrightarrow> length (b_flight b) \<le> workers"
proof (induction rule: batch_run.induct)
  case (take b log now)
  then show ?case by (auto simp: worker_take_def Let_def split: list.split prod.split)
next
  case (finish b log i r w)
  then show ?case by (auto simp: worker_finish_def split: prod.split)
next
  case (commit b log)
  then show ?case
    by (auto simp: commit_result_def stop_batch_def split: list.split prod.split option.split sum.split)
qed (simp add: new_batch_def)

section \<open>What a confirmed upload means\<close>

lemma act_bind_Inr: "act_bind m k w = (Inr b, w') \<longleftrightarrow> (\<exists>a v. m w = (Inr a, v) \<and> k a v = (Inr b, w'))"
  by (auto simp: act_bind_def split: prod.splits sum.splits)

lemma act_if_fail: "(if c then act_fail e else m) w = (Inr b, w') \<longleftrightarrow> \<not> c \<and> m w = (Inr b, w')"
  by (simp add: act_fail_def)

lemma snapshot_Inr:
  "current_snapshot lf p w = (Inr s, w') \<longleftrightarrow> w' = w \<and> (\<exists>m. lf_metadata (lf w) p = Inr m \<and> s = from_metadata (w_now w) m)"
  by (auto simp: current_snapshot_def split: sum.splits)

lemma read_db_Inr: "read_db f w = (Inr a, w') \<longleftrightarrow> a = f (w_db w) \<and> w' = w"
  by (auto simp: read_db_def)

lemma cloud_call_Inr: "cloud_call f w = (Inr a, w') \<longleftrightarrow> f w = (Inr a, w')"
  by (auto simp: cloud_call_def split: prod.splits sum.splits)

definition snapshot_at :: "('c world \<Rightarrow> local_fs) \<Rightarrow> local_path \<Rightarrow> 'c world \<Rightarrow> file_snapshot option" where
  "snapshot_at lf p w =
     (case lf_metadata (lf w) p of Inl e \<Rightarrow> None | Inr m \<Rightarrow> Some (from_metadata (w_now w) m))"

lemma confirmed_snapshot:
  assumes "upload_known_folder_file be lf job w = (Inr e, w')"
  shows "snapshot_at lf (job_local job) w = Some (job_snapshot job) \<and>
    snapshot_at lf (job_local job) w' = Some (job_snapshot job)"
  using assms unfolding upload_known_folder_file_def
  by (auto simp: act_bind_Inr act_if_fail snapshot_Inr act_return_def snapshot_at_def)

lemma log_snapshots:
  "batch_run be lf rates window workers b0 b log \<Longrightarrow> (job, u, u') \<in> set log \<Longrightarrow>
   \<exists>e. upload_known_folder_file be lf job u = (Inr e, u')"
  by (induction rule: batch_run.induct) (auto split: sum.splits)

section \<open>Operations keep the tables up to date\<close>

lemma batch_result_fields:
  "kf_ok (snd (batch_result b)) = kf_ok (b_state b)" "agrees (snd (batch_result b)) d = agrees (b_state b) d"
  "ks_files (snd (batch_result b)) = ks_files (b_state b)" "ks_pending (snd (batch_result b)) = ks_pending (b_state b)"
  by (auto simp: batch_result_def Let_def kf_ok_def agrees_def)

lemma take_consistent:
  "kf_ok (b_state (worker_take lf rates window now b)) = kf_ok (b_state b)"
  "agrees (b_state (worker_take lf rates window now b)) (b_dir (worker_take lf rates window now b)) =
   agrees (b_state b) (b_dir b)"
  by (auto simp: worker_take_def Let_def split: list.split prod.split)

lemma commit_consistent:
  assumes "kf_ok (b_state b)" "agrees (b_state b) (b_dir b)"
  shows "kf_ok (b_state (commit_result b)) \<and> agrees (b_state (commit_result b)) (b_dir (commit_result b))"
proof -
  have "kf_ok s \<and> agrees s d"
    if c: "complete_upload k v (b_state b) (b_dir b) = (r, s, d)" for k v r s d
  proof (cases r)
    case (Inl e)
    then have "s = b_state b" "d = b_dir b" using c by (auto simp: complete_upload_def split: if_splits sum.splits)
    then show ?thesis using assms by simp
  next
    case (Inr u)
    then show ?thesis using complete_upload_ok[OF assms] c by blast
  qed
  then show ?thesis using assms
    by (auto simp: commit_result_def stop_batch_def split: list.split prod.split option.split sum.split)
qed

lemma run_consistent:
  "batch_run be lf rates window workers b0 b log \<Longrightarrow> kf_ok (b_state b0) \<Longrightarrow> agrees (b_state b0) (b_dir b0) \<Longrightarrow>
   kf_ok (b_state b) \<and> agrees (b_state b) (b_dir b)"
proof (induction rule: batch_run.induct)
  case (take b log now)
  then show ?case by (simp add: take_consistent)
next
  case (finish b log i r w)
  then show ?case by (simp add: worker_finish_def split: prod.split)
next
  case (commit b log)
  then show ?case using commit_consistent by blast
qed simp

lemma process_consistent:
  assumes "process_known_folder_uploads be lf home cfg jobs (s, d, w) log (Inr u) (s', d', w')"
    and "consistent s d"
  shows "consistent s' d'"
  using assms(1)
proof cases
  case nothing
  then show ?thesis using assms(2) by simp
next
  case (uploads u2 s2 d2 secs b)
  then have "kf_ok s2" "agrees s2 d2"
    using queue_uploads_ok[of s d _ u2 s2 d2] assms(2) by (auto simp: consistent_def)
  then have "kf_ok (b_state b) \<and> agrees (b_state b) (b_dir b)"
    by (intro run_consistent[OF uploads(8)]) (simp_all add: new_batch_def)
  then show ?thesis using uploads by (simp add: consistent_def batch_result_fields)
qed

text \<open>
  The keys of the state are the texts of the paths they were made from; then the jobs of a retry
  have different keys.
\<close>

definition plain_keys :: "known_folder_state \<Rightarrow> bool" where
  "plain_keys s = (List.list_all (\<lambda>(k, _). lp_text (lp_of_text k) = k) (ks_pending s))"

lemma set_map_filter: "set (List.map_filter f xs) = {y. \<exists>x\<in>set xs. f x = Some y}"
  by (induction xs) (auto simp: List.map_filter_simps split: option.splits)

lemma inj_retry_jobs:
  assumes "kf_ok s" "plain_keys s"
  shows "inj_on job_key (set (retry_jobs fs now s))"
proof (rule inj_onI)
  fix a b assume a: "a \<in> set (retry_jobs fs now s)" and b: "b \<in> set (retry_jobs fs now s)" and eq: "job_key a = job_key b"
  define mk :: "string \<Rightarrow> pending_upload \<Rightarrow> file_meta \<Rightarrow> upload_job" where "mk = (\<lambda>k p m. \<lparr>job_local = lp_of_text k, job_remote = pu_remote_path p,
      job_snapshot = from_metadata now m\<rparr>)"
  have ex: "\<exists>k p m. (k, p) \<in> set (ks_pending s) \<and> lf_metadata fs (lp_of_text k) = Inr m \<and> j = mk k p m"
    if "j \<in> set (retry_jobs fs now s)" for j
    using that unfolding retry_jobs_def mk_def set_map_filter
    by (auto split: sum.splits) blast
  from ex[OF a] obtain k p m where a': "(k, p) \<in> set (ks_pending s)" "lf_metadata fs (lp_of_text k) = Inr m" "a = mk k p m" by blast
  from ex[OF b] obtain k' p' m' where b': "(k', p') \<in> set (ks_pending s)" "lf_metadata fs (lp_of_text k') = Inr m'" "b = mk k' p' m'" by blast
  have key: "lp_text (lp_of_text x) = x" if "(x, y) \<in> set (ks_pending s)" for x y
    using assms(2) that by (auto simp: plain_keys_def list_all_iff)
  have "lp_text (lp_of_text k) = lp_text (lp_of_text k')" using a'(3) b'(3) eq by (simp add: mk_def job_key_def)
  then have "k = k'" unfolding key[OF a'(1)] key[OF b'(1)] .
  then show "a = b" using a' b' assms(1) by (auto simp: kf_ok_def dest: eq_key_imp_eq_value)
qed

lemma kf_ok_filter: "kf_ok s \<Longrightarrow>
  kf_ok (s\<lparr>ks_pending := filter P (ks_pending s), ks_files := filter Q (ks_files s)\<rparr>)"
  by (simp add: kf_ok_def distinct_map_filter)

lemma kf_ok_prune: "kf_ok s \<Longrightarrow> kf_ok (snd (prune_missing_pending fs s))"
proof -
  have "kf_ok s \<Longrightarrow> kf_ok (foldl (\<lambda>s k. s\<lparr>ks_pending := AList.delete k (ks_pending s),
      ks_files := AList.delete k (ks_files s)\<rparr>) s ks)" for ks s
    by (induction ks arbitrary: s) (simp_all add: kf_ok_def distinct_delete)
  moreover assume "kf_ok s"
  ultimately show ?thesis by (simp add: prune_missing_pending_def Let_def)
qed

text \<open>A filter that keeps the length keeps the list.\<close>

lemma length_filter_same: "length (filter P xs) = length xs \<Longrightarrow> filter P xs = xs"
  by (metis filter_id_conv length_filter_less order_less_irrefl)

lemma delete_shorter: "length (AList.delete k m) \<le> length m \<and> (length (AList.delete k m) = length m \<longrightarrow> AList.delete k m = m)"
  unfolding AList.delete_eq using length_filter_same length_filter_le by blast

lemma prune_same:
  "length (ks_pending (snd (prune_missing_pending fs s))) \<le> length (ks_pending s) \<and>
   length (ks_files (snd (prune_missing_pending fs s))) \<le> length (ks_files s) \<and>
   (length (ks_pending (snd (prune_missing_pending fs s))) = length (ks_pending s) \<longrightarrow>
    length (ks_files (snd (prune_missing_pending fs s))) = length (ks_files s) \<longrightarrow>
    snd (prune_missing_pending fs s) = s)"
proof -
  define f :: "known_folder_state \<Rightarrow> string \<Rightarrow> known_folder_state" where
    "f = (\<lambda>s k. s\<lparr>ks_pending := AList.delete k (ks_pending s), ks_files := AList.delete k (ks_files s)\<rparr>)"
  have "length (ks_pending (foldl f s ks)) \<le> length (ks_pending s) \<and>
      length (ks_files (foldl f s ks)) \<le> length (ks_files s) \<and>
      (length (ks_pending (foldl f s ks)) = length (ks_pending s) \<longrightarrow>
       length (ks_files (foldl f s ks)) = length (ks_files s) \<longrightarrow> foldl f s ks = s)" for ks s
  proof (induction ks arbitrary: s)
    case (Cons k ks)
    have "length (ks_pending (f s k)) \<le> length (ks_pending s)" "length (ks_files (f s k)) \<le> length (ks_files s)"
      and same: "length (ks_pending (f s k)) = length (ks_pending s) \<Longrightarrow>
        length (ks_files (f s k)) = length (ks_files s) \<Longrightarrow> f s k = s"
      using delete_shorter[of k "ks_pending s"] delete_shorter[of k "ks_files s"] by (auto simp: f_def)
    with Cons.IH[of "f s k"] show ?case
      by (metis (no_types, lifting) foldl_Cons le_antisym order_trans)
  qed simp
  then show ?thesis by (simp add: prune_missing_pending_def Let_def f_def)
qed

lemma prepare_retry_consistent:
  assumes "prepare_retry fs home cfg s d = (Inr u, s', d')" "consistent s d"
  shows "consistent s' d'"
proof -
  let ?r = "retire_excluded home cfg s"
  define s1 where "s1 = snd (prune_missing_pending fs ?r)"
  have ok: "kf_ok s1" using assms(2) kf_ok_prune kf_ok_filter
    by (simp add: s1_def retire_excluded_def consistent_def)
  show ?thesis
  proof (cases "(length (ks_files s), length (ks_pending s)) \<noteq> (length (ks_files s1), length (ks_pending s1))")
    case True
    then have "save s1 d = (Inr u, s', d')" using assms(1) by (simp add: prepare_retry_def s1_def Let_def)
    from agrees_save[OF ok this] kf_ok_save[OF ok this] show ?thesis
      by (auto simp: consistent_def)
  next
    case False
    have le: "length (ks_pending ?r) \<le> length (ks_pending s)" "length (ks_files ?r) \<le> length (ks_files s)"
      by (simp_all add: retire_excluded_def)
    with False prune_same[of fs ?r] have "s1 = ?r" "length (ks_pending ?r) = length (ks_pending s)"
      "length (ks_files ?r) = length (ks_files s)" by (auto simp: s1_def)
    moreover from this have "?r = s"
      using length_filter_same[of "\<lambda>(k, v). \<not> should_skip_source home (lp_of_text k) cfg" "ks_pending s"]
        length_filter_same[of "\<lambda>(k, v). \<not> should_skip_source home (lp_of_text k) cfg" "ks_files s"]
      by (simp add: retire_excluded_def)
    ultimately have "s1 = s" by simp
    with False assms show ?thesis by (simp add: prepare_retry_def s1_def Let_def)
  qed
qed

lemma retry_consistent:
  assumes "retry_known_folder_uploads be lf home cfg (s, d, w) log (Inr u) (s', d', w')" "consistent s d"
  shows "consistent s' d'"
  using assms(1)
proof cases
  case idle
  then show ?thesis using assms(2) by (simp add: consistent_def)
next
  case (retry u2 s2 d2)
  have "consistent (s2\<lparr>ks_rate_deferred := False\<rparr>) d2"
    using prepare_retry_consistent[OF retry(2) assms(2)] by (simp add: consistent_def)
  then show ?thesis by (rule process_consistent[OF retry(3)])
qed

section \<open>Properties\<close>

text \<open>C20: no queued upload is lost, in whatever order the workers and the main thread run and
  wherever the process is killed: after every step of a batch each of its jobs is still queued
  with its cloud path and snapshot, or the snapshot is recorded as uploaded after an upload that
  reported success and left the local file exactly as the snapshot says before and after it; and
  a restart at that point loads this very state.\<close>

theorem queued_upload_survives_crash:
  assumes "consistent s d" "inj_on job_key (set jobs)" "queue_uploads jobs s d = (Inr u, s1, d1)"
    and "batch_run be lf rates window workers (new_batch jobs s1 d1 w) b log"
  shows "load fs now (b_dir b) = (Inr (restarted (b_state b)), b_dir b) \<and>
    List.list_all (\<lambda>job.
      map_of (ks_pending (b_state b)) (job_key job) = Some (job_pending job) \<or>
      (map_of (ks_files (b_state b)) (job_key job) = Some (job_snapshot job) \<and>
       list_ex (\<lambda>(j, before, after). j = job \<and>
         snapshot_at lf (job_local job) before = Some (job_snapshot job) \<and>
         snapshot_at lf (job_local job) after = Some (job_snapshot job)) log)) jobs"
proof -
  have inv: "batch_inv jobs log b"
    by (rule inv_run[OF assms(4,2) inv_new[OF assms(1-3)]])
  have "list_ex (\<lambda>(j, before, after). j = job \<and> snapshot_at lf (job_local job) before = Some (job_snapshot job) \<and>
      snapshot_at lf (job_local job) after = Some (job_snapshot job)) log" if conf: "confirmed job log" for job
  proof -
    from conf obtain u u' where l: "(job, u, u') \<in> set log" by (auto simp: confirmed_def)
    with log_snapshots[OF assms(4) l] confirmed_snapshot[of be lf job u] show ?thesis
      by (force simp: list_ex_iff)
  qed
  with inv have "List.list_all (\<lambda>job. map_of (ks_pending (b_state b)) (job_key job) = Some (job_pending job) \<or>
      (map_of (ks_files (b_state b)) (job_key job) = Some (job_snapshot job) \<and>
       list_ex (\<lambda>(j, before, after). j = job \<and> snapshot_at lf (job_local job) before = Some (job_snapshot job) \<and>
         snapshot_at lf (job_local job) after = Some (job_snapshot job)) log)) jobs"
    unfolding list_all_iff batch_inv_def accounted_def by blast
  then show ?thesis using load_agrees[of "b_state b" "b_dir b"] inv by (simp add: batch_inv_def)
qed

definition quiet_job :: upload_job where
  "quiet_job = \<lparr>job_local = lp_of_text ''/d/a'', job_remote = ''/a'', job_snapshot = from_metadata 0 (sample_meta RegularNode)\<rparr>"

definition quiet_files :: "unit world \<Rightarrow> local_fs" where
  "quiet_files w = sample_fs"

lemma queued_upload_survives_crash_witness:
  "\<exists>b :: unit batch. b_results b \<noteq> [] \<and>
     load sample_fs 0 (b_dir b) = (Inr (restarted (b_state b)), b_dir b)"
proof -
  let ?q = "queue_uploads [quiet_job] default_state empty_dir"
  let ?b0 = "new_batch [quiet_job] (fst (snd ?q)) (snd (snd ?q)) sample_world :: unit batch"
  let ?b1 = "worker_take quiet_files (rate_config_of None default_config) 20 1 ?b0"
  let ?u = "upload_known_folder_file refusing_backend quiet_files (b_flight ?b1 ! 0) (b_world ?b1)"
  have q: "?q = (Inr (), fst (snd ?q), snd (snd ?q))"
    by (simp add: prod_eq_iff) code_simp
  have c: "consistent default_state empty_dir" by (simp add: consistent_def kf_ok_def default_state_def)
  have run1: "batch_run refusing_backend quiet_files (rate_config_of None default_config) 20 4 ?b0 ?b1 []"
    by (rule batch_run.take[OF batch_run.start]) (simp add: new_batch_def)
  have flight: "b_flight ?b1 = [quiet_job]" and stopped: "\<not> b_stopped ?b1" by code_simp+
  have "?u = (fst ?u, snd ?u)" by simp
  from batch_run.finish[OF run1 _ this] flight
  have run: "batch_run refusing_backend quiet_files (rate_config_of None default_config) 20 4 ?b0
      (worker_finish refusing_backend quiet_files 0 ?b1)
      (case fst ?u of Inl e \<Rightarrow> [] | Inr entry \<Rightarrow> [] @ [(b_flight ?b1 ! 0, b_world ?b1, snd ?u)])" by simp
  have "b_results (worker_finish refusing_backend quiet_files 0 ?b1) \<noteq> []"
    using stopped by (simp add: worker_finish_def split: prod.split)
  moreover have inj: "inj_on job_key (set [quiet_job])" by simp
  note queued_upload_survives_crash[OF c inj q run, of sample_fs 0, THEN conjunct1]
  ultimately show ?thesis by blast
qed

text \<open>C24: an upload is confirmed only if the local file has the queued size and modification time
  both before the transfer and after it; it then answers what the cloud answered, and the transfer
  was offered the identity and version the database held for the path at that moment.\<close>

theorem changed_file_is_not_confirmed:
  assumes "upload_known_folder_file be lf job w = (Inr e, w')"
  shows "snapshot_at lf (job_local job) w = Some (job_snapshot job) \<and>
    snapshot_at lf (job_local job) w' = Some (job_snapshot job) \<and>
    (\<exists>v existing. existing = get_by_path (job_remote job) (w_db v) \<and>
      upload_file_with_version be (job_remote job) (lp_text (job_local job))
        (Option.bind existing r_cloud_remote_id) (map_option (\<lambda>r. m_etag (metadata r)) existing) v = (Inr e, w'))"
proof -
  have "\<exists>v. upload_file_with_version be (job_remote job) (lp_text (job_local job))
      (Option.bind (get_by_path (job_remote job) (w_db v)) r_cloud_remote_id)
      (map_option (\<lambda>r. m_etag (metadata r)) (get_by_path (job_remote job) (w_db v))) v = (Inr e, w')"
    using assms unfolding upload_known_folder_file_def
    by (auto simp: act_bind_Inr act_if_fail snapshot_Inr act_return_def read_db_Inr cloud_call_Inr)
  with confirmed_snapshot[OF assms] show ?thesis by blast
qed

lemma changed_file_is_not_confirmed_witness:
  "snapshot_at quiet_files (job_local quiet_job) sample_world = Some (job_snapshot quiet_job)"
proof -
  let ?u = "upload_known_folder_file refusing_backend quiet_files quiet_job sample_world"
  have "fst ?u = Inr (new_file ''up'' ''/a'' 3 8 ''e8'')" by code_simp
  then have "?u = (Inr (new_file ''up'' ''/a'' 3 8 ''e8''), snd ?u)" by (simp add: prod_eq_iff)
  from changed_file_is_not_confirmed[OF this] show ?thesis by simp
qed

end
