(* ===== verification/KnownWatch.thy ===== *)
theory KnownWatch
  imports KnownUploads
begin

text \<open>
  crates/twodrive-daemon/src/known_folders/events.rs, the scans of scan.rs that start uploads, and
  the loop of mod.rs.  The watcher thread puts file system events into a bounded channel and raises
  a flag when one does not fit; the main loop turns the flag into a scan of all roots, an event
  into a set of paths to scan once they are quiet, and scans again from time to time.  An event of
  the notify crate has the kinds the code tells apart.  The main fact: whatever was reported as
  added is in the channel, in the set that is being collected, flagged, or has been scanned since.
\<close>

section \<open>Events\<close>

datatype rename_mode = RenameTo | RenameBoth | OtherRename

datatype modify_kind = ModifyData | ModifyAny | ModifyName rename_mode | OtherModify

datatype event_kind = CreateEvent | ModifyEvent modify_kind | OtherEvent

record watch_event =
  ev_kind :: event_kind
  ev_paths :: "local_path list"
  ev_need_rescan :: bool

text \<open>What the channel carries: an error of the watcher, or an event.\<close>

type_synonym watch_message = "unit + watch_event"

definition MAX_PENDING_PATHS :: nat where
  "MAX_PENDING_PATHS = 1024"

definition relevant_path :: "known_folder_root list \<Rightarrow> config \<Rightarrow> local_path \<Rightarrow> bool" where
  "relevant_path roots cfg path =
     list_ex (\<lambda>root. case lp_strip_prefix path (root_local root) of
         None \<Rightarrow> False
       | Some relative \<Rightarrow> \<not> should_skip relative cfg) roots"

definition relevant_event :: "known_folder_root list \<Rightarrow> config \<Rightarrow> watch_event \<Rightarrow> bool" where
  "relevant_event roots cfg event = list_ex (relevant_path roots cfg) (ev_paths event)"

definition is_addition_event :: "watch_event \<Rightarrow> bool" where
  "is_addition_event event =
     (case ev_kind event of
        CreateEvent \<Rightarrow> True
      | ModifyEvent ModifyData \<Rightarrow> True
      | ModifyEvent ModifyAny \<Rightarrow> True
      | ModifyEvent (ModifyName mode) \<Rightarrow> mode = RenameTo \<or> mode = RenameBoth
      | _ \<Rightarrow> False)"

definition create_or_modify :: "event_kind \<Rightarrow> bool" where
  "create_or_modify kind = (case kind of CreateEvent \<Rightarrow> True | ModifyEvent k \<Rightarrow> True | OtherEvent \<Rightarrow> False)"

definition send_bounded :: "watch_message \<Rightarrow> watch_message list \<times> bool \<Rightarrow> watch_message list \<times> bool" where
  "send_bounded message q =
     (if length (fst q) < MAX_PENDING_PATHS then (fst q @ [message], snd q) else (fst q, True))"

text \<open>The channel and the overflow flag.\<close>

definition enqueue_watch_event ::
    "known_folder_root list \<Rightarrow> config \<Rightarrow> watch_message \<Rightarrow> watch_message list \<times> bool \<Rightarrow> watch_message list \<times> bool" where
  "enqueue_watch_event roots cfg message q =
     (case message of
        Inl err \<Rightarrow> send_bounded message q
      | Inr event \<Rightarrow>
          if ev_need_rescan event then send_bounded message (fst q, True)
          else if \<not> create_or_modify (ev_kind event) \<or> \<not> relevant_event roots cfg event then q
          else send_bounded message q)"

text \<open>One path of an addition; the set of pending paths is a list without repetitions.\<close>

definition add_pending ::
    "known_folder_root list \<Rightarrow> config \<Rightarrow> local_path list \<Rightarrow> local_path \<Rightarrow> local_path list" where
  "add_pending roots cfg pending path =
     (if \<not> relevant_path roots cfg path \<or> list_ex (lp_starts_with path) pending then pending
      else
        let others = filter (\<lambda>child. \<not> lp_starts_with child path) pending in
        if MAX_PENDING_PATHS \<le> length others then remdups (map root_local roots)
        else path # others)"

definition queue_addition_event ::
    "watch_event \<Rightarrow> known_folder_root list \<Rightarrow> config \<Rightarrow> local_path list \<Rightarrow> bool \<times> local_path list" where
  "queue_addition_event event roots cfg pending =
     (if \<not> is_addition_event event then (False, pending)
      else (relevant_event roots cfg event, foldl (add_pending roots cfg) pending (ev_paths event)))"

definition event_touches_pending :: "watch_event \<Rightarrow> local_path list \<Rightarrow> bool" where
  "event_touches_pending event pending =
     list_ex (\<lambda>path. list_ex (\<lambda>p. lp_starts_with path p \<or> lp_starts_with p path) pending) (ev_paths event)"

text \<open>
  One round of wait_for_relevant_quiet: a message that arrived at the instant now, within the
  remaining time.  The loop has a time up to which it waits, moved by messages that matter, and a
  deadline.
\<close>

definition quiet_deadline :: "instant \<Rightarrow> nat \<Rightarrow> instant" where
  "quiet_deadline started debounce = started + max debounce (30 * 1000000000)"

definition quiet_round ::
    "known_folder_root list \<Rightarrow> config \<Rightarrow> nat \<Rightarrow> instant \<Rightarrow> watch_message \<Rightarrow> instant \<times> local_path list \<Rightarrow>
     instant \<times> local_path list" where
  "quiet_round roots cfg debounce now message q =
     (case message of
        Inl err \<Rightarrow> q
      | Inr event \<Rightarrow>
          (case queue_addition_event event roots cfg (snd q) of
             (hit, pending) \<Rightarrow>
               (if hit \<or> (relevant_event roots cfg event \<and> event_touches_pending event pending)
                then now + debounce else fst q, pending)))"

text \<open>The messages with the instants at which they are received; the rest stays in the channel.\<close>

fun wait_for_relevant_quiet ::
    "known_folder_root list \<Rightarrow> config \<Rightarrow> nat \<Rightarrow> instant \<Rightarrow> (instant \<times> watch_message) list \<Rightarrow>
     instant \<times> local_path list \<Rightarrow> local_path list \<times> (instant \<times> watch_message) list" where
  "wait_for_relevant_quiet roots cfg debounce deadline [] q = (snd q, [])"
| "wait_for_relevant_quiet roots cfg debounce deadline ((now, message) # rest) q =
     (if min (fst q) deadline < now then (snd q, (now, message) # rest)
      else wait_for_relevant_quiet roots cfg debounce deadline rest (quiet_round roots cfg debounce now message q))"

section \<open>Scans\<close>

text \<open>
  Collecting the jobs of a set of pending paths: a path that is gone is forgotten, the others are
  scanned.  The result has the state, the jobs and whether something was forgotten; fuel bounds the
  depth of the directories.
\<close>

fun collect_pending ::
    "nat \<Rightarrow> local_fs \<Rightarrow> int \<Rightarrow> config \<Rightarrow> known_folder_root list \<Rightarrow> local_path list \<Rightarrow>
     known_folder_state \<times> upload_job list \<times> bool \<Rightarrow> (kf_fault + known_folder_state \<times> upload_job list \<times> bool) option" where
  "collect_pending n fs now cfg roots [] acc = Some (Inr acc)"
| "collect_pending n fs now cfg roots (path # rest) (s, jobs, removed) =
     (case List.find (\<lambda>root. lp_starts_with path (root_local root)) roots of
        None \<Rightarrow> collect_pending n fs now cfg roots rest (s, jobs, removed)
      | Some root \<Rightarrow>
          if \<not> local_exists fs path
          then collect_pending n fs now cfg roots rest (remove_path path s, jobs, True)
          else (case collect_local_path n fs now cfg root path (ks_files s) jobs of
              None \<Rightarrow> None
            | Some (Inl e) \<Rightarrow> Some (Inl e)
            | Some (Inr jobs') \<Rightarrow> collect_pending n fs now cfg roots rest (s, jobs', removed)))"

inductive sync_known_folder_paths ::
    "('e, 'c) backend \<Rightarrow> ('c world \<Rightarrow> local_fs) \<Rightarrow> local_path option \<Rightarrow> config \<Rightarrow> known_folder_root list \<Rightarrow> local_path list \<Rightarrow>
     known_folder_state \<times> known_folder_dir \<times> 'c world \<Rightarrow> kf_fault + unit \<Rightarrow>
     known_folder_state \<times> known_folder_dir \<times> 'c world \<Rightarrow> bool"
  for be lf home cfg roots pending where
  unread: "collect_pending n (lf w) (w_now w) cfg roots pending (s, [], False) = Some (Inl e) \<Longrightarrow>
    sync_known_folder_paths be lf home cfg roots pending (s, d, w) (Inl e) (s, d, w)"
| failed: "collect_pending n (lf w) (w_now w) cfg roots pending (s, [], False) = Some (Inr (s1, jobs, removed)) \<Longrightarrow>
    process_known_folder_uploads be lf home cfg jobs (s1, d, w) log (Inl e) t \<Longrightarrow>
    sync_known_folder_paths be lf home cfg roots pending (s, d, w) (Inl e) t"
| kept: "collect_pending n (lf w) (w_now w) cfg roots pending (s, [], False) = Some (Inr (s1, jobs, False)) \<Longrightarrow>
    process_known_folder_uploads be lf home cfg jobs (s1, d, w) log (Inr u) t \<Longrightarrow>
    sync_known_folder_paths be lf home cfg roots pending (s, d, w) (Inr ()) t"
| saved: "collect_pending n (lf w) (w_now w) cfg roots pending (s, [], False) = Some (Inr (s1, jobs, True)) \<Longrightarrow>
    process_known_folder_uploads be lf home cfg jobs (s1, d, w) log (Inr u) (s2, d2, w2) \<Longrightarrow>
    save s2 d2 = (r, s3, d3) \<Longrightarrow>
    sync_known_folder_paths be lf home cfg roots pending (s, d, w) r (s3, d3, w2)"

inductive sync_known_folder_root ::
    "('e, 'c) backend \<Rightarrow> ('c world \<Rightarrow> local_fs) \<Rightarrow> local_path option \<Rightarrow> config \<Rightarrow> app_paths \<Rightarrow> known_folder_root \<Rightarrow>
     known_folder_state \<times> known_folder_dir \<times> 'c world \<Rightarrow> kf_fault + unit \<Rightarrow>
     known_folder_state \<times> known_folder_dir \<times> 'c world \<Rightarrow> bool"
  for be lf home cfg paths root where
  no_home: "home = None \<Longrightarrow> sync_known_folder_root be lf home cfg paths root t (Inl NoHome) t"
| not_ready: "home = Some h \<Longrightarrow>
    inspect_known_folder_source (lf w) (root_local root) h (ap_mount_dir paths) \<noteq> Ready \<Longrightarrow>
    sync_known_folder_root be lf home cfg paths root (s, d, w) (Inr ()) (s, d, w)"
| unread: "home = Some h \<Longrightarrow>
    inspect_known_folder_source (lf w) (root_local root) h (ap_mount_dir paths) = Ready \<Longrightarrow>
    collect_local_path n (lf w) (w_now w) cfg root (root_local root) (ks_files s) [] = Some (Inl e) \<Longrightarrow>
    sync_known_folder_root be lf home cfg paths root (s, d, w) (Inl e) (s, d, w)"
| scanned: "home = Some h \<Longrightarrow>
    inspect_known_folder_source (lf w) (root_local root) h (ap_mount_dir paths) = Ready \<Longrightarrow>
    collect_local_path n (lf w) (w_now w) cfg root (root_local root) (ks_files s) [] = Some (Inr jobs) \<Longrightarrow>
    process_known_folder_uploads be lf home cfg jobs (s, d, w) log r t \<Longrightarrow>
    sync_known_folder_root be lf home cfg paths root (s, d, w) r t"

section \<open>The watch loop\<close>

text \<open>
  The channel, the overflow flag, and the set that is collected while the loop waits for quiet; a
  loop that is not collecting is at its top.
\<close>

record watch =
  wt_channel :: "watch_message list"
  wt_overflow :: bool
  wt_collecting :: bool
  wt_pending :: "local_path list"

definition new_watch :: watch where
  "new_watch = \<lparr>wt_channel = [], wt_overflow = False, wt_collecting = False, wt_pending = []\<rparr>"

definition watch_report :: "known_folder_root list \<Rightarrow> config \<Rightarrow> watch_message \<Rightarrow> watch \<Rightarrow> watch" where
  "watch_report roots cfg message wt =
     (case enqueue_watch_event roots cfg message (wt_channel wt, wt_overflow wt) of
        (channel, overflow) \<Rightarrow> wt\<lparr>wt_channel := channel, wt_overflow := overflow\<rparr>)"

text \<open>At the top of the loop: an event that adds something starts to collect, others are dropped.\<close>

definition watch_take :: "known_folder_root list \<Rightarrow> config \<Rightarrow> watch \<Rightarrow> watch" where
  "watch_take roots cfg wt =
     (case wt_channel wt of
        [] \<Rightarrow> wt
      | Inl err # rest \<Rightarrow> wt\<lparr>wt_channel := rest\<rparr>
      | Inr event # rest \<Rightarrow>
          (case queue_addition_event event roots cfg (wt_pending wt) of
             (hit, pending) \<Rightarrow> wt\<lparr>wt_channel := rest, wt_pending := pending, wt_collecting := hit\<rparr>))"

text \<open>While it waits: one round of wait_for_relevant_quiet; its timer does not matter here.\<close>

definition watch_absorb :: "known_folder_root list \<Rightarrow> config \<Rightarrow> nat \<Rightarrow> instant \<Rightarrow> instant \<Rightarrow> watch \<Rightarrow> watch" where
  "watch_absorb roots cfg debounce quiet now wt =
     (case wt_channel wt of
        [] \<Rightarrow> wt
      | message # rest \<Rightarrow>
          wt\<lparr>wt_channel := rest,
             wt_pending := snd (quiet_round roots cfg debounce now message (quiet, wt_pending wt))\<rparr>)"

definition covers :: "local_path list \<Rightarrow> local_path \<Rightarrow> bool" where
  "covers pending path = list_ex (lp_starts_with path) pending"

definition added_paths :: "known_folder_root list \<Rightarrow> config \<Rightarrow> watch_message \<Rightarrow> local_path set" where
  "added_paths roots cfg message =
     (case message of
        Inl err \<Rightarrow> {}
      | Inr event \<Rightarrow> if is_addition_event event then {p \<in> set (ev_paths event). relevant_path roots cfg p} else {})"

text \<open>
  Runs of the loop with the paths that were reported as added and not scanned since: a scan of the
  roots settles what is below a root, a scan of the collected set what it covers.
\<close>

inductive watch_run :: "known_folder_root list \<Rightarrow> config \<Rightarrow> watch \<Rightarrow> local_path set \<Rightarrow> bool"
  for roots cfg where
  start: "watch_run roots cfg new_watch {}"
| report: "watch_run roots cfg wt unseen \<Longrightarrow>
    watch_run roots cfg (watch_report roots cfg message wt) (unseen \<union> added_paths roots cfg message)"
| overflow: "watch_run roots cfg wt unseen \<Longrightarrow> \<not> wt_collecting wt \<Longrightarrow> wt_overflow wt \<Longrightarrow>
    watch_run roots cfg (wt\<lparr>wt_overflow := False\<rparr>) {p \<in> unseen. \<not> covers (map root_local roots) p}"
| rescan: "watch_run roots cfg wt unseen \<Longrightarrow> \<not> wt_collecting wt \<Longrightarrow>
    watch_run roots cfg wt {p \<in> unseen. \<not> covers (map root_local roots) p}"
| take: "watch_run roots cfg wt unseen \<Longrightarrow> \<not> wt_collecting wt \<Longrightarrow>
    watch_run roots cfg (watch_take roots cfg wt) unseen"
| absorb: "watch_run roots cfg wt unseen \<Longrightarrow> wt_collecting wt \<Longrightarrow>
    watch_run roots cfg (watch_absorb roots cfg debounce quiet now wt) unseen"
| scan: "watch_run roots cfg wt unseen \<Longrightarrow> wt_collecting wt \<Longrightarrow>
    watch_run roots cfg (wt\<lparr>wt_collecting := False, wt_pending := []\<rparr>)
      {p \<in> unseen. \<not> covers (wt_pending wt) p}"

section \<open>The set of pending paths\<close>

lemma covers_iff: "covers P x \<longleftrightarrow> (\<exists>p\<in>set P. lp_starts_with x p)"
  by (simp add: covers_def list_ex_iff)

lemma covers_trans: "covers P y \<Longrightarrow> lp_starts_with x y \<Longrightarrow> covers P x"
  by (auto simp: covers_iff intro: starts_with_trans)

lemma covers_remdups [simp]: "covers (remdups P) = covers P"
  by (rule ext) (simp add: covers_iff)

abbreviation root_paths :: "known_folder_root list \<Rightarrow> local_path list" where
  "root_paths roots \<equiv> map root_local roots"

lemma relevant_covered: "relevant_path roots cfg p \<Longrightarrow> covers (root_paths roots) p"
  by (auto simp: relevant_path_def covers_iff list_ex_iff lp_strip_prefix_def split: option.splits if_splits)

definition below_roots :: "known_folder_root list \<Rightarrow> local_path list \<Rightarrow> bool" where
  "below_roots roots P = List.list_all (covers (root_paths roots)) P"

lemma below_roots_covers: "below_roots roots P \<Longrightarrow> covers P x \<Longrightarrow> covers (root_paths roots) x"
  by (auto simp: below_roots_def list_all_iff covers_iff intro: starts_with_trans) (meson starts_with_trans)

lemma add_cases:
  obtains (same) "add_pending roots cfg P p = P" "relevant_path roots cfg p \<Longrightarrow> covers P p"
  | (roots) "add_pending roots cfg P p = remdups (root_paths roots)"
  | (new) "add_pending roots cfg P p = p # filter (\<lambda>child. \<not> lp_starts_with child p) P"
      "relevant_path roots cfg p" "\<not> covers P p"
      "length (filter (\<lambda>child. \<not> lp_starts_with child p) P) < MAX_PENDING_PATHS"
proof (cases "\<not> relevant_path roots cfg p \<or> covers P p")
  case True
  then show ?thesis using that(1) by (auto simp: add_pending_def covers_def)
next
  case False
  then show ?thesis using that(2,3)
    by (cases "MAX_PENDING_PATHS \<le> length (filter (\<lambda>child. \<not> lp_starts_with child p) P)")
      (simp_all add: add_pending_def covers_def Let_def)
qed

lemma add_below: "below_roots roots P \<Longrightarrow> below_roots roots (add_pending roots cfg P p)"
  by (cases roots cfg P p rule: add_cases)
    (auto simp: below_roots_def list_all_iff relevant_covered, auto simp: covers_iff intro: starts_with_refl)

lemma add_covers:
  assumes "below_roots roots P" "covers P x"
  shows "covers (add_pending roots cfg P p) x"
proof (cases roots cfg P p rule: add_cases)
  case roots
  then show ?thesis using below_roots_covers[OF assms] by simp
next
  case new
  from assms(2) obtain q where "q \<in> set P" "lp_starts_with x q" by (auto simp: covers_iff)
  with new show ?thesis by (cases "lp_starts_with q p") (auto simp: covers_iff intro: starts_with_trans)
qed (use assms in simp)

lemma add_covers_new: "relevant_path roots cfg p \<Longrightarrow> covers (add_pending roots cfg P p) p"
  using relevant_covered[of roots cfg p]
  by (auto simp: add_pending_def Let_def covers_iff list_ex_iff)

lemma fold_add:
  assumes "below_roots roots P"
  shows "below_roots roots (foldl (add_pending roots cfg) P ps) \<and>
    (covers P x \<longrightarrow> covers (foldl (add_pending roots cfg) P ps) x) \<and>
    (x \<in> set ps \<longrightarrow> relevant_path roots cfg x \<longrightarrow> covers (foldl (add_pending roots cfg) P ps) x)"
  using assms
proof (induction ps arbitrary: P)
  case (Cons p ps)
  from Cons.IH[OF add_below[OF Cons.prems]] add_covers[OF Cons.prems] add_covers_new show ?case
    by auto
qed simp

lemma queue_addition:
  assumes "below_roots roots P" "queue_addition_event event roots cfg P = (hit, P')"
  shows "below_roots roots P'" "covers P x \<Longrightarrow> covers P' x"
    "x \<in> added_paths roots cfg (Inr event) \<Longrightarrow> covers P' x \<and> hit"
  using assms fold_add[OF assms(1), of cfg "ev_paths event" x]
  by (auto simp: queue_addition_event_def added_paths_def relevant_event_def list_ex_iff split: if_splits)

text \<open>The set stays bounded: the paths that fit, or the roots.\<close>

lemma add_bound: "length P \<le> max MAX_PENDING_PATHS (length roots) \<Longrightarrow>
  length (add_pending roots cfg P p) \<le> max MAX_PENDING_PATHS (length roots)"
  using length_remdups_leq[of "root_paths roots"] by (auto simp: add_pending_def Let_def)

lemma fold_add_bound: "length P \<le> max MAX_PENDING_PATHS (length roots) \<Longrightarrow>
  length (foldl (add_pending roots cfg) P ps) \<le> max MAX_PENDING_PATHS (length roots)"
  by (induction ps arbitrary: P) (simp_all add: add_bound)

definition antichain :: "local_path list \<Rightarrow> bool" where
  "antichain P = (\<forall>p\<in>set P. \<forall>q\<in>set P. lp_starts_with p q \<longrightarrow> p = q)"

lemma add_antichain: "antichain P \<Longrightarrow> antichain (root_paths roots) \<Longrightarrow> antichain (add_pending roots cfg P p)"
  by (auto simp: add_pending_def Let_def antichain_def list_ex_iff)

lemma fold_add_antichain:
  "antichain P \<Longrightarrow> antichain (root_paths roots) \<Longrightarrow> antichain (foldl (add_pending roots cfg) P ps)"
  by (induction ps arbitrary: P) (simp_all add: add_antichain)

section \<open>Invariant of the watch loop\<close>

lemma queue_nothing: "queue_addition_event event roots cfg P = (False, P') \<Longrightarrow> P' = P"
proof -
  have "list_ex (relevant_path roots cfg) ps \<or> foldl (add_pending roots cfg) P ps = P" for ps
    by (induction ps) (auto simp: add_pending_def)
  then show "queue_addition_event event roots cfg P = (False, P') \<Longrightarrow> P' = P"
    by (auto simp: queue_addition_event_def relevant_event_def split: if_splits)
qed

definition waiting :: "known_folder_root list \<Rightarrow> config \<Rightarrow> watch \<Rightarrow> local_path \<Rightarrow> bool" where
  "waiting roots cfg wt x =
     (wt_overflow wt \<or> list_ex (\<lambda>m. x \<in> added_paths roots cfg m) (wt_channel wt) \<or>
      (wt_collecting wt \<and> covers (wt_pending wt) x))"

definition watch_ok :: "known_folder_root list \<Rightarrow> watch \<Rightarrow> bool" where
  "watch_ok roots wt =
     (below_roots roots (wt_pending wt) \<and> length (wt_pending wt) \<le> max MAX_PENDING_PATHS (length roots) \<and>
      length (wt_channel wt) \<le> MAX_PENDING_PATHS \<and> (wt_collecting wt \<or> wt_pending wt = []))"

lemma added_sent:
  assumes "x \<in> added_paths roots cfg message" "enqueue_watch_event roots cfg message (c, f) = (c', f')"
  shows "f' \<or> message \<in> set c'"
  using assms
  by (auto simp: added_paths_def enqueue_watch_event_def send_bounded_def relevant_event_def list_ex_iff
      is_addition_event_def create_or_modify_def split: sum.splits if_splits event_kind.splits modify_kind.splits)

lemma enqueue_keeps:
  "enqueue_watch_event roots cfg message (c, f) = (c', f') \<Longrightarrow>
   set c \<subseteq> set c' \<and> (f \<longrightarrow> f') \<and> (length c \<le> MAX_PENDING_PATHS \<longrightarrow> length c' \<le> MAX_PENDING_PATHS)"
  by (auto simp: enqueue_watch_event_def send_bounded_def split: sum.splits if_splits)

lemma report_ok: "watch_ok roots wt \<Longrightarrow> watch_ok roots (watch_report roots cfg m wt)"
  using enqueue_keeps[of roots cfg m "wt_channel wt" "wt_overflow wt"]
  by (auto simp: watch_ok_def watch_report_def split: prod.split)

lemma report_waiting:
  assumes "waiting roots cfg wt x \<or> x \<in> added_paths roots cfg m"
  shows "waiting roots cfg (watch_report roots cfg m wt) x"
proof -
  obtain c' f' where e: "enqueue_watch_event roots cfg m (wt_channel wt, wt_overflow wt) = (c', f')" by fastforce
  show ?thesis using assms added_sent[OF _ e] enqueue_keeps[OF e] e
    by (auto simp: waiting_def watch_report_def list_ex_iff)
qed

lemma queue_bound:
  "queue_addition_event event roots cfg P = (hit, P') \<Longrightarrow> length P \<le> max MAX_PENDING_PATHS (length roots) \<Longrightarrow>
   length P' \<le> max MAX_PENDING_PATHS (length roots)"
  using fold_add_bound[of P roots cfg "ev_paths event"] by (auto simp: queue_addition_event_def split: if_splits)

lemma take_ok:
  assumes "watch_ok roots wt" "\<not> wt_collecting wt"
  shows "watch_ok roots (watch_take roots cfg wt) \<and>
    (waiting roots cfg wt x \<longrightarrow> waiting roots cfg (watch_take roots cfg wt) x)"
proof (cases "wt_channel wt")
  case (Cons m rest)
  show ?thesis
  proof (cases m)
    case (Inl e)
    then show ?thesis using Cons assms by (auto simp: watch_take_def watch_ok_def waiting_def added_paths_def)
  next
    case (Inr ev)
    obtain hit P' where q: "queue_addition_event ev roots cfg (wt_pending wt) = (hit, P')" by fastforce
    have ok: "below_roots roots (wt_pending wt)" "wt_pending wt = []" using assms by (auto simp: watch_ok_def)
    show ?thesis
      using Cons Inr q assms queue_addition[OF ok(1) q] queue_bound[OF q] queue_nothing[of ev roots cfg "wt_pending wt" P'] ok
      by (cases hit) (auto simp: watch_take_def watch_ok_def waiting_def)
  qed
qed (use assms in \<open>simp add: watch_take_def\<close>)

lemma absorb_ok:
  assumes "watch_ok roots wt" "wt_collecting wt"
  shows "watch_ok roots (watch_absorb roots cfg debounce quiet now wt) \<and>
    (waiting roots cfg wt x \<longrightarrow> waiting roots cfg (watch_absorb roots cfg debounce quiet now wt) x)"
proof (cases "wt_channel wt")
  case (Cons m rest)
  show ?thesis
  proof (cases m)
    case (Inl e)
    then show ?thesis using Cons assms
      by (auto simp: watch_absorb_def quiet_round_def watch_ok_def waiting_def added_paths_def)
  next
    case (Inr ev)
    obtain hit P' where q: "queue_addition_event ev roots cfg (wt_pending wt) = (hit, P')" by fastforce
    have ok: "below_roots roots (wt_pending wt)" using assms by (simp add: watch_ok_def)
    show ?thesis
      using Cons Inr q assms queue_addition[OF ok q] queue_bound[OF q]
      by (auto simp: watch_absorb_def quiet_round_def watch_ok_def waiting_def)
  qed
qed (use assms in \<open>simp add: watch_absorb_def\<close>)

lemma watch_run_inv:
  "watch_run roots cfg wt unseen \<Longrightarrow>
   watch_ok roots wt \<and> (\<forall>x\<in>unseen. waiting roots cfg wt x \<and> covers (root_paths roots) x)"
proof (induction rule: watch_run.induct)
  case start
  then show ?case by (simp add: watch_ok_def new_watch_def below_roots_def MAX_PENDING_PATHS_def)
next
  case (report wt unseen message)
  have "covers (root_paths roots) x" if "x \<in> added_paths roots cfg message" for x
    using that relevant_covered by (auto simp: added_paths_def split: sum.splits if_splits)
  with report show ?case using report_ok report_waiting by blast
next
  case (overflow wt unseen)
  then show ?case by (auto simp: watch_ok_def)
next
  case (take wt unseen)
  then show ?case using take_ok by blast
next
  case (absorb wt unseen debounce quiet now)
  then show ?case using absorb_ok by blast
next
  case (scan wt unseen)
  then show ?case by (auto simp: watch_ok_def waiting_def below_roots_def)
qed auto

section \<open>The daemon\<close>

text \<open>run_known_folder_sync up to the loop, and one round of it, over the shared state.\<close>

type_synonym 'c daemon = "known_folder_state \<times> known_folder_dir \<times> 'c world"

inductive sync_roots ::
    "('e, 'c) backend \<Rightarrow> ('c world \<Rightarrow> local_fs) \<Rightarrow> local_path option \<Rightarrow> config \<Rightarrow> app_paths \<Rightarrow> known_folder_root list \<Rightarrow>
     'c daemon \<Rightarrow> kf_fault + unit \<Rightarrow> 'c daemon \<Rightarrow> bool"
  for be lf home cfg paths where
  all_done: "sync_roots be lf home cfg paths [] t (Inr ()) t"
| stopped: "sync_known_folder_root be lf home cfg paths root t (Inl e) t' \<Longrightarrow>
    sync_roots be lf home cfg paths (root # roots) t (Inl e) t'"
| next_root: "sync_known_folder_root be lf home cfg paths root t (Inr u) t' \<Longrightarrow>
    sync_roots be lf home cfg paths roots t' r t'' \<Longrightarrow>
    sync_roots be lf home cfg paths (root # roots) t r t''"

text \<open>The first baseline: every file that is there counts as uploaded.\<close>

fun baseline_roots ::
    "nat \<Rightarrow> local_fs \<Rightarrow> int \<Rightarrow> config \<Rightarrow> known_folder_root list \<Rightarrow> (string \<times> file_snapshot) list \<Rightarrow>
     (kf_fault + (string \<times> file_snapshot) list) option" where
  "baseline_roots n fs now cfg [] files = Some (Inr files)"
| "baseline_roots n fs now cfg (root # roots) files =
     (case baseline_path n fs now cfg (root_local root) (root_local root) files of
        Some (Inr files') \<Rightarrow> baseline_roots n fs now cfg roots files'
      | r \<Rightarrow> r)"

definition initialize_baseline ::
    "nat \<Rightarrow> local_fs \<Rightarrow> int \<Rightarrow> config \<Rightarrow> known_folder_root list \<Rightarrow> known_folder_state \<Rightarrow> known_folder_dir \<Rightarrow>
     ((kf_fault + unit) \<times> known_folder_state \<times> known_folder_dir) option" where
  "initialize_baseline n fs now cfg roots s d =
     (if ks_baseline_initialized s then Some (Inr (), s, d)
      else
        (case baseline_roots n fs now cfg roots (ks_files s) of
           None \<Rightarrow> None
         | Some (Inl e) \<Rightarrow> Some (Inl e, s, d)
         | Some (Inr files) \<Rightarrow> Some (save (s\<lparr>ks_files := files, ks_baseline_initialized := True\<rparr>) d)))"

inductive daemon_run ::
    "('e, 'c) backend \<Rightarrow> ('c world \<Rightarrow> local_fs) \<Rightarrow> local_path option \<Rightarrow> config \<Rightarrow> app_paths \<Rightarrow> known_folder_root list \<Rightarrow>
     known_folder_dir \<Rightarrow> 'c daemon \<Rightarrow> bool"
  for be lf home cfg paths roots d0 where
  started: "load (lf w0) (w_now w0) d0 = (Inr s, d) \<Longrightarrow>
    retry_known_folder_uploads be lf home cfg (s, d, w) log (Inr u) (s1, d1, w1) \<Longrightarrow>
    initialize_baseline n (lf w1) (w_now w1) cfg roots s1 d1 = Some (Inr v, s2, d2) \<Longrightarrow>
    (if kf_startup_scan (c_known_folders cfg)
     then sync_roots be lf home cfg paths roots (s2, d2, w1) (Inr ()) t else t = (s2, d2, w1)) \<Longrightarrow>
    daemon_run be lf home cfg paths roots d0 t"
| scan_roots: "daemon_run be lf home cfg paths roots d0 t \<Longrightarrow>
    sync_roots be lf home cfg paths roots t (Inr u) t' \<Longrightarrow> daemon_run be lf home cfg paths roots d0 t'"
| scan_paths: "daemon_run be lf home cfg paths roots d0 t \<Longrightarrow>
    sync_known_folder_paths be lf home cfg roots pending t (Inr u) t' \<Longrightarrow>
    daemon_run be lf home cfg paths roots d0 t'"
| retried: "daemon_run be lf home cfg paths roots d0 t \<Longrightarrow>
    retry_known_folder_uploads be lf home cfg t log (Inr u) t' \<Longrightarrow>
    daemon_run be lf home cfg paths roots d0 t'"
| elsewhere: "daemon_run be lf home cfg paths roots d0 (s, d, w) \<Longrightarrow>
    daemon_run be lf home cfg paths roots d0 (s, d, w')"

section \<open>The daemon keeps its tables\<close>

text \<open>What no operation takes back, whether it succeeds or not.\<close>

definition grows :: "known_folder_state \<Rightarrow> known_folder_state \<Rightarrow> bool" where
  "grows s s' =
     ((kf_ok s \<longrightarrow> kf_ok s') \<and> (ks_storage s \<longrightarrow> ks_storage s') \<and>
      ks_baseline_initialized s' = ks_baseline_initialized s)"

named_theorems grows_intros \<open>operations that only grow the state\<close>

lemma grows_refl [grows_intros]: "grows s s"
  by (simp add: grows_def)

lemma grows_trans: "grows s t \<Longrightarrow> grows t u \<Longrightarrow> grows s u"
  by (simp add: grows_def)

lemma grows_rate [grows_intros]: "grows s (s\<lparr>ks_rate := r\<rparr>)" "grows s (s\<lparr>ks_rate_deferred := x\<rparr>)"
  by (simp_all add: grows_def)

lemma grows_save: "save s d = (r, s', d') \<Longrightarrow> grows s s'"
  by (auto simp: save_def Let_def grows_def kf_ok_def split: sum.splits prod.splits)

lemma grows_queue: "queue_uploads jobs s d = (r, s', d') \<Longrightarrow> grows s s'"
proof -
  assume q: "queue_uploads jobs s d = (r, s', d')"
  obtain r1 s1 d1 where s1: "(if ks_storage s then (Inr (), s, d) else save s d) = (r1, s1, d1)"
    by (metis prod_cases3)
  then have "grows s s1" using grows_save[of s d r1 s1 d1] grows_refl by (auto split: if_splits)
  moreover have "s' = s1 \<or> s' = s1\<lparr>ks_pending := queued jobs (ks_pending s1)\<rparr>"
    using q unfolding queue_uploads_def s1 by (auto simp: queued_def split: sum.splits)
  then have "grows s1 s'" using distinct_queued by (auto simp: grows_def kf_ok_def)
  ultimately show ?thesis by (rule grows_trans)
qed

lemma grows_complete: "complete_upload k v s d = (r, s', d') \<Longrightarrow> grows s s'"
  by (auto simp: complete_upload_def grows_def kf_ok_def distinct_update distinct_delete split: if_splits sum.splits)

lemma grows_run: "batch_run be lf rates window workers b0 b log \<Longrightarrow> grows (b_state b0) (b_state b)"
proof (induction rule: batch_run.induct)
  case (take b log now)
  then show ?case by (auto simp: worker_take_def Let_def grows_def split: list.split prod.split)
next
  case (finish b log i r w)
  then show ?case by (simp add: worker_finish_def split: prod.split)
next
  case (commit b log)
  have "grows (b_state b) (b_state (commit_result b))"
    by (auto simp: commit_result_def stop_batch_def grows_refl dest: grows_complete
        split: list.split prod.split option.split sum.split)
  with commit show ?case by (blast intro: grows_trans)
qed (rule grows_refl)

lemma grows_result: "grows (b_state b) (snd (batch_result b))"
  by (auto simp: batch_result_def Let_def grows_def kf_ok_def)

lemma grows_process:
  "process_known_folder_uploads be lf home cfg jobs t log r t' \<Longrightarrow> grows (fst t) (fst t')"
proof (induction rule: process_known_folder_uploads.induct)
  case (uploads s d u s' d' seconds w b log)
  have "grows s' (b_state b)" using grows_run[OF uploads(4)] by (simp add: new_batch_def)
  then show ?case using grows_queue[OF uploads(2)] grows_result[of b] by (auto intro: grows_trans)
qed (auto simp: grows_refl dest: grows_queue)

lemma grows_prune: "grows s (snd (prune_missing_pending fs s))"
proof -
  have "grows s (foldl (\<lambda>s k. s\<lparr>ks_pending := AList.delete k (ks_pending s),
      ks_files := AList.delete k (ks_files s)\<rparr>) s ks)" for ks
    by (induction ks arbitrary: s) (simp_all add: grows_def kf_ok_def distinct_delete)
  then show ?thesis by (simp add: prune_missing_pending_def Let_def)
qed

lemma grows_filter: "grows s (retire_excluded home cfg s)" "grows s (remove_path path s)"
  by (simp_all add: grows_def kf_ok_def retire_excluded_def remove_path_def distinct_map_filter)

lemma grows_prepare: "prepare_retry fs home cfg s d = (r, s', d') \<Longrightarrow> grows s s'"
proof -
  assume p: "prepare_retry fs home cfg s d = (r, s', d')"
  have g: "grows s (snd (prune_missing_pending fs (retire_excluded home cfg s)))"
    by (rule grows_trans[OF grows_filter(1) grows_prune])
  then show ?thesis using p grows_trans[OF g grows_save] by (auto simp: prepare_retry_def Let_def split: if_splits)
qed

lemma grows_retry: "retry_known_folder_uploads be lf home cfg t log r t' \<Longrightarrow> grows (fst t) (fst t')"
proof (induction rule: retry_known_folder_uploads.induct)
  case (retry s w d u s' d' log r t)
  have "grows s' (fst t)"
    using grows_trans[OF grows_rate(2) grows_process[OF retry(3), unfolded fst_conv]] .
  then show ?case using grows_prepare[OF retry(2)] by (auto intro: grows_trans)
qed (auto simp: grows_rate dest: grows_prepare)

lemma collect_pending_state:
  "collect_pending n fs now cfg roots pending (s, jobs, removed) = Some (Inr (s', jobs', removed')) \<Longrightarrow>
   grows s s' \<and> (removed' \<or> (s' = s \<and> \<not> removed))"
proof (induction n fs now cfg roots pending "(s, jobs, removed)" arbitrary: s jobs removed rule: collect_pending.induct)
  case (2 n fs now cfg roots path rest s jobs removed)
  show ?case
  proof (cases "List.find (\<lambda>root. lp_starts_with path (root_local root)) roots")
    case None
    then show ?thesis using 2 by simp
  next
    case (Some root)
    show ?thesis
    proof (cases "local_exists fs path")
      case True
      with Some 2(4) obtain j where "collect_local_path n fs now cfg root path (ks_files s) jobs = Some (Inr j)"
        by (auto split: option.splits sum.splits)
      with True Some 2(3)[OF Some] 2(4) show ?thesis by simp
    next
      case False
      with Some 2(4) have "grows (remove_path path s) s' \<and> removed'"
        using 2(2)[OF Some] by simp
      then show ?thesis using grows_filter(2) grows_trans by blast
    qed
  qed
qed (simp add: grows_refl)

lemma consistent_sync_paths:
  assumes "sync_known_folder_paths be lf home cfg roots pending (s, d, w) (Inr u) (s', d', w')" "consistent s d"
  shows "consistent s' d'" "grows s s'"
proof -
  have "consistent s' d' \<and> grows s s'"
    using assms(1)
  proof cases
    case (kept n s1 jobs log v)
    have "s1 = s" using collect_pending_state[OF kept(2)] by simp
    then show ?thesis using process_consistent[OF kept(3)] grows_process[OF kept(3)] assms(2) by simp
  next
    case (saved n s1 jobs log v s2 d2)
    have g: "grows s s1" using collect_pending_state[OF saved(1)] by simp
    have g2: "grows s1 s2" using grows_process[OF saved(2)] by simp
    have "kf_ok s2" using g g2 assms(2) by (simp add: grows_def consistent_def)
    with agrees_save[OF this saved(3)] kf_ok_save[OF this saved(3)] show ?thesis
      using grows_trans[OF grows_trans[OF g g2] grows_save[OF saved(3)]] by (auto simp: consistent_def)
  qed
  then show "consistent s' d'" "grows s s'" by simp_all
qed

lemma consistent_sync_root:
  assumes "sync_known_folder_root be lf home cfg paths root (s, d, w) (Inr u) (s', d', w')" "consistent s d"
  shows "consistent s' d' \<and> grows s s'"
  using assms(1)
proof cases
  case (scanned h n jobs log)
  then show ?thesis using process_consistent[OF _ assms(2)] grows_process by fastforce
qed (use assms(2) grows_refl in auto)

lemma consistent_sync_roots:
  "sync_roots be lf home cfg paths roots t r t' \<Longrightarrow> r = Inr u \<Longrightarrow> consistent (fst t) (fst (snd t)) \<Longrightarrow>
   consistent (fst t') (fst (snd t')) \<and> grows (fst t) (fst t')"
proof (induction rule: sync_roots.induct)
  case (next_root root t v t' roots r t'')
  obtain s d w s' d' w' where t: "t = (s, d, w)" "t' = (s', d', w')" by (metis prod_cases3)
  from consistent_sync_root[of be lf home cfg paths root s d w v s' d' w'] next_root t
  show ?case using grows_trans by auto
qed (simp_all add: grows_refl)

lemma walk_entries_keeps:
  assumes "\<And>p s s'. P s \<Longrightarrow> f p s = Some (Inr s') \<Longrightarrow> P s'"
  shows "P s \<Longrightarrow> walk_entries f path es s = Some (Inr s') \<Longrightarrow> P s'"
proof (induction es arbitrary: s)
  case (Cons e es)
  then show ?case using assms by (auto split: sum.splits option.splits)
qed simp

lemma walk_keeps:
  assumes "\<And>p m s s'. P s \<Longrightarrow> visit p m s = Inr s' \<Longrightarrow> P s'"
  shows "P s \<Longrightarrow> walk n fs cfg root visit path s = Some (Inr s') \<Longrightarrow> P s'"
proof (induction n arbitrary: path s s')
  case (Suc n)
  have entries: "walk_entries (walk n fs cfg root visit) path es t = Some (Inr t') \<Longrightarrow> P t \<Longrightarrow> P t'" for path es t t'
    using walk_entries_keeps[of P "walk n fs cfg root visit" t path es t'] Suc.IH by blast
  show ?case
  proof (cases "should_skip (relative_to root path) cfg")
    case True
    then show ?thesis using Suc.prems by simp
  next
    case go: False
    show ?thesis
    proof (cases "lf_symlink_metadata fs path")
      case (Inl e)
      then show ?thesis using Suc.prems go by (cases e) simp_all
    next
      case m: (Inr m)
      show ?thesis
      proof (cases "fm_type m")
        case RegularNode
        then show ?thesis using assms[of s path m s'] Suc.prems go m by simp
      next
        case DirectoryNode
        with Suc.prems go m obtain es where "walk_entries (walk n fs cfg root visit) path es s = Some (Inr s')"
          by (cases "lf_read_dir fs path") simp_all
        then show ?thesis using entries Suc.prems(1) by blast
      qed (use Suc.prems go m in simp_all)
    qed
  qed
qed simp

lemma fault_option_cases:
  obtains "x = None" | e where "x = Some (Inl e)" | a where "x = Some (Inr a)"
  by (cases x) (auto, metis sum.exhaust)

lemma baseline_file_distinct:
  assumes "distinct (map fst s)" "baseline_file now p m s = Inr s'"
  shows "distinct (map fst s')"
proof -
  have "s' = (if map_of s (lp_text p) = None then AList.update (lp_text p) (from_metadata now m) s else s)"
    using assms(2) unfolding baseline_file_def Let_def by (rule sum.inject(2)[THEN iffD1, symmetric])
  then show ?thesis using assms(1) distinct_update[OF assms(1)] by (cases "map_of s (lp_text p) = None") (simp_all only: if_True if_False simp_thms)
qed

lemma distinct_baseline:
  "baseline_roots n fs now cfg roots files = Some (Inr files') \<Longrightarrow> distinct (map fst files) \<Longrightarrow> distinct (map fst files')"
proof (induction roots arbitrary: files)
  case (Cons root roots)
  then obtain f where f: "baseline_path n fs now cfg (root_local root) (root_local root) files = Some (Inr f)"
    "baseline_roots n fs now cfg roots f = Some (Inr files')"
    unfolding baseline_roots.simps
    by (cases "baseline_path n fs now cfg (root_local root) (root_local root) files" rule: fault_option_cases) simp_all
  have w: "walk n fs cfg (root_local root) (baseline_file now) (root_local root) files = Some (Inr f)"
    using f(1) by (simp only: baseline_path_def)
  have "distinct (map fst f)"
    using walk_keeps[of "\<lambda>m. distinct (map fst m)" "baseline_file now", OF baseline_file_distinct Cons.prems(2) w] .
  then show ?case by (rule Cons.IH[OF f(2)])
qed simp

lemma initialize_consistent:
  assumes "initialize_baseline n fs now cfg roots s d = Some (Inr u, s', d')" "consistent s d"
    and "ks_baseline_initialized s \<Longrightarrow> ks_storage s"
  shows "consistent s' d' \<and> ks_storage s'"
proof (cases "ks_baseline_initialized s")
  case True
  then show ?thesis using assms by (simp add: initialize_baseline_def)
next
  case False
  with assms(1) obtain files where f: "baseline_roots n fs now cfg roots (ks_files s) = Some (Inr files)"
    "save (s\<lparr>ks_files := files, ks_baseline_initialized := True\<rparr>) d = (Inr u, s', d')"
    by (auto simp: initialize_baseline_def split: option.splits sum.splits)
  have ok: "kf_ok (s\<lparr>ks_files := files, ks_baseline_initialized := True\<rparr>)"
    using distinct_baseline[OF f(1)] assms(2) by (simp add: consistent_def kf_ok_def)
  from agrees_save[OF ok f(2)] kf_ok_save[OF ok f(2)] show ?thesis by (auto simp: consistent_def)
qed

text \<open>A directory an earlier run can have left: tables of some state, or an old file with a map.\<close>

definition good_dir :: "known_folder_dir \<Rightarrow> bool" where
  "good_dir d =
     (case Option.bind (dir_store d) db_baseline of
        Some b \<Rightarrow> (\<exists>s. kf_ok s \<and> agrees s d)
      | None \<Rightarrow>
          (case dir_legacy d of
             Some (Inr old) \<Rightarrow> distinct (map fst (ls_files old)) \<and> distinct (map fst (ls_pending old))
           | _ \<Rightarrow> True))"

lemma load_consistent:
  assumes "good_dir d" "load fs now d = (Inr s, d')"
  shows "consistent s d' \<and> (ks_baseline_initialized s \<longrightarrow> ks_storage s)"
proof (cases "Option.bind (dir_store d) db_baseline")
  case (Some b)
  with assms(1) obtain s0 where "kf_ok s0" "agrees s0 d" by (auto simp: good_dir_def)
  with load_agrees[of s0 d fs now] assms(2) have "s = restarted s0" "d' = d" "kf_ok s0" "agrees s0 d" by auto
  then show ?thesis by (auto simp: consistent_def kf_ok_def agrees_def restarted_def)
next
  case None
  with assms(2) have l: "load_legacy fs now d = (Inr s, d')" by (simp add: load_def)
  consider (fresh) "s = default_state" | (old) old s0 u where "dir_legacy d = Some (Inr old)"
    "s0 = default_state\<lparr>ks_baseline_initialized := ls_baseline old,
       ks_files := map (\<lambda>(k, v). (k, adopt_nanos fs now k v)) (ls_files old), ks_pending := ls_pending old\<rparr>"
    "save s0 d = (Inr u, s, d')"
    using l by (auto simp: load_legacy_def Let_def split: option.splits sum.splits prod.splits)
  then show ?thesis
  proof cases
    case fresh
    then show ?thesis by (simp add: consistent_def kf_ok_def default_state_def)
  next
    case old
    have "kf_ok s0" using old(1,2) assms(1) None
      by (simp add: kf_ok_def good_dir_def comp_def split_def)
    from agrees_save[OF this old(3)] kf_ok_save[OF this old(3)] show ?thesis by (auto simp: consistent_def)
  qed
qed

lemma daemon_consistent:
  "daemon_run be lf home cfg paths roots d0 t \<Longrightarrow> good_dir d0 \<Longrightarrow>
   consistent (fst t) (fst (snd t)) \<and> ks_storage (fst t)"
proof (induction rule: daemon_run.induct)
  case (started w0 s d w log u s1 d1 w1 n v s2 d2 t)
  have l: "consistent s d" "ks_baseline_initialized s \<longrightarrow> ks_storage s"
    using load_consistent[OF started(5,1)] by simp_all
  have "consistent s1 d1" using retry_consistent[OF started(2) l(1)] .
  moreover have "ks_baseline_initialized s1 \<longrightarrow> ks_storage s1"
    using grows_retry[OF started(2)] l(2) by (simp add: grows_def)
  ultimately have "consistent s2 d2 \<and> ks_storage s2" using initialize_consistent[OF started(3)] by blast
  then show ?case using started(4) consistent_sync_roots[of be lf home cfg paths roots "(s2, d2, w1)" _ t]
    by (auto simp: grows_def split: if_splits)
next
  case (scan_roots t u t')
  then show ?case using consistent_sync_roots[OF scan_roots(2)] by (auto simp: grows_def)
next
  case (scan_paths t pending u t')
  obtain s d w s' d' w' where t: "t = (s, d, w)" "t' = (s', d', w')" by (metis prod_cases3)
  then show ?case using scan_paths consistent_sync_paths[of be lf home cfg roots pending s d w u s' d' w']
    by (simp add: grows_def)
next
  case (retried t log u t')
  obtain s d w s' d' w' where t: "t = (s, d, w)" "t' = (s', d', w')" by (metis prod_cases3)
  then show ?case using retried retry_consistent[of be lf home cfg s d w log u s' d' w'] grows_retry[OF retried(2)]
    by (simp add: grows_def)
qed auto

section \<open>Properties\<close>

text \<open>C22: no addition is lost between the watcher and the scans, however the two threads interleave:
  a path that was reported as added below a root and is not excluded is in the bounded channel, or
  has set the overflow flag, or is covered by the set that is being collected, unless a scan that
  covers it has started since.  The channel never holds more than 1024 messages and the collected
  set never more than 1024 paths or the roots.\<close>

theorem no_addition_lost:
  assumes "watch_run roots cfg wt unseen"
  shows "unseen \<subseteq> {x. wt_overflow wt \<or> list_ex (\<lambda>m. x \<in> added_paths roots cfg m) (wt_channel wt) \<or>
      (wt_collecting wt \<and> covers (wt_pending wt) x)} \<and>
    length (wt_channel wt) \<le> 1024 \<and> length (wt_pending wt) \<le> max 1024 (length roots)"
  using watch_run_inv[OF assms] by (auto simp: waiting_def watch_ok_def MAX_PENDING_PATHS_def)

definition sample_event :: watch_event where
  "sample_event = \<lparr>ev_kind = CreateEvent, ev_paths = [under (root_local sample_root) [''a'']], ev_need_rescan = False\<rparr>"

lemma no_addition_lost_witness:
  "wt_collecting (watch_take [sample_root] default_config (watch_report [sample_root] default_config (Inr sample_event) new_watch)) \<and>
   covers (wt_pending (watch_take [sample_root] default_config (watch_report [sample_root] default_config (Inr sample_event) new_watch)))
     (under (root_local sample_root) [''a''])"
proof -
  let ?w1 = "watch_report [sample_root] default_config (Inr sample_event) new_watch"
  let ?w2 = "watch_take [sample_root] default_config ?w1"
  have "\<not> wt_collecting ?w1" by code_simp
  with watch_run.take[OF watch_run.report[OF watch_run.start]]
  have run: "watch_run [sample_root] default_config ?w2 ({} \<union> added_paths [sample_root] default_config (Inr sample_event))"
    by blast
  have "relevant_path [sample_root] default_config (under (root_local sample_root) [''a''])" by code_simp
  then have "under (root_local sample_root) [''a''] \<in> added_paths [sample_root] default_config (Inr sample_event)"
    by (simp add: added_paths_def sample_event_def is_addition_event_def)
  moreover have "wt_overflow ?w2 = False" "wt_channel ?w2 = []" "wt_collecting ?w2" by code_simp+
  ultimately show ?thesis using no_addition_lost[OF run] by auto
qed

text \<open>C21: the tables are always those of memory: in every state the daemon's loop reaches from a
  directory an earlier run left, through retries, scans of paths and roots and any changes of the
  world around it, a restart loads the uploaded snapshots and queued uploads the daemon has.\<close>

theorem daemon_state_survives_restart:
  assumes "daemon_run be lf home cfg paths roots d0 (s, d, w)" "good_dir d0"
  shows "load fs now d = (Inr (restarted s), d)"
  using daemon_consistent[OF assms] by (auto simp: consistent_def intro: load_agrees)

lemma daemon_state_survives_restart_witness:
  "\<exists>s d. ks_files s \<noteq> [] \<and> load sample_fs 0 d = (Inr (restarted s), d)"
proof -
  let ?cfg = "default_config\<lparr>c_known_folders := default_known_folders\<lparr>kf_startup_scan := False\<rparr>\<rparr>"
  let ?i = "initialize_baseline 2 sample_fs 100 ?cfg [sample_root] default_state empty_dir"
  have i: "map_option fst ?i = Some (Inr ())" "map_option (\<lambda>i. ks_files (fst (snd i)) \<noteq> []) ?i = Some True"
    by code_simp+
  then obtain s d where sd: "?i = Some (Inr (), s, d)" "ks_files s \<noteq> []" by auto
  have dead: "default_state\<lparr>ks_rate_deferred := False\<rparr> = default_state" by (simp add: default_state_def)
  have load: "load (quiet_files sample_world) (w_now sample_world) empty_dir = (Inr default_state, empty_dir)"
    by (simp add: load_def load_legacy_def empty_dir_def)
  have retry: "retry_known_folder_uploads refusing_backend quiet_files None ?cfg
      (default_state, empty_dir, sample_world) [] (Inr ()) (default_state, empty_dir, sample_world)"
    using retry_known_folder_uploads.idle[of default_state refusing_backend quiet_files None ?cfg empty_dir sample_world] dead
    by (simp add: default_state_def)
  have "daemon_run refusing_backend quiet_files None ?cfg sample_paths [sample_root] empty_dir (s, d, sample_world)"
    by (rule daemon_run.started[OF load retry, of 2 "[sample_root]" "()" s d])
      (use sd in \<open>simp_all add: quiet_files_def sample_world_def\<close>)
  moreover have "good_dir empty_dir" by (simp add: good_dir_def empty_dir_def)
  ultimately have "load sample_fs 0 d = (Inr (restarted s), d)" by (rule daemon_state_survives_restart)
  with sd show ?thesis by blast
qed

end
