(* ===== verification/GraphPaths.thy ===== *)
theory GraphPaths
  imports World
begin

text \<open>
  crates/twodrive-backend/src/onedrive/paths.rs and the URL builders of onedrive/upload.rs: which
  names OneDrive accepts, the percent encoding of a cloud path, and the Graph addresses of items.
  Percent decoding is the standard's, to state that an address names exactly the path it was
  built from.
\<close>

abbreviation graph_root :: string where
  "graph_root \<equiv> ''https://graph.microsoft.com/v1.0''"

section \<open>Accepted names\<close>

text \<open>char::is_control on U+0000 .. U+00FF.\<close>

definition is_control :: "char \<Rightarrow> bool" where
  "is_control c = (let n = of_char c :: nat in n < 32 \<or> (127 \<le> n \<and> n < 160))"

definition quote_mark :: char where
  "quote_mark = char_of (34 :: nat)"

definition backslash :: char where
  "backslash = char_of (92 :: nat)"

definition forbidden :: "char \<Rightarrow> bool" where
  "forbidden c = (is_control c \<or> c \<in> set ([quote_mark] @ ''*:<>?'' @ [backslash, CHR ''|'']))"

definition validate_graph_file_path :: "string \<Rightarrow> 'e fault + unit" where
  "validate_graph_file_path path =
     (if list_ex (\<lambda>name. list_ex forbidden name) (split_on (CHR ''/'') path)
      then Inl (Bail (''unsupported OneDrive file name in '' @ path @ ''; rename characters '' @ [quote_mark] @
             '' * : < > ? '' @ [backslash] @ '' | before syncing; local content is preserved''))
      else Inr ())"

section \<open>Percent encoding\<close>

definition is_unreserved :: "nat \<Rightarrow> bool" where
  "is_unreserved b =
     ((48 \<le> b \<and> b \<le> 57) \<or> (65 \<le> b \<and> b \<le> 90) \<or> (97 \<le> b \<and> b \<le> 122) \<or> b \<in> {45, 46, 95, 126})"

definition upper_hex :: "nat \<Rightarrow> char" where
  "upper_hex n = (if n < 10 then char_of (48 + n) else char_of (55 + n))"

definition encode_byte :: "nat \<Rightarrow> string" where
  "encode_byte b =
     (if is_unreserved b then [char_of b]
      else [CHR ''%'', upper_hex (b div 16), upper_hex (b mod 16)])"

definition percent_encode_path_segment :: "string \<Rightarrow> string" where
  "percent_encode_path_segment segment = concat (map encode_byte (utf8 segment))"

fun join_with :: "string \<Rightarrow> string list \<Rightarrow> string" where
  "join_with sep [] = []"
| "join_with sep [x] = x"
| "join_with sep (x # y # xs) = x @ sep @ join_with sep (y # xs)"

definition encode_graph_path :: "string \<Rightarrow> string" where
  "encode_graph_path path =
     join_with ''/'' (map percent_encode_path_segment
       (filter (\<lambda>segment. segment \<noteq> [])
         (split_on (CHR ''/'') (dropWhile (\<lambda>c. c = CHR ''/'') (normalize_cloud_path path)))))"

section \<open>Addresses\<close>

definition split_cloud_parent_name :: "string \<Rightarrow> 'e fault + string \<times> string" where
  "split_cloud_parent_name given =
     (let path = normalize_cloud_path given in
      if path = ''/'' then Inl (Bail ''root path does not have a parent/name'')
      else
        (let (parent, name) =
               (case rfind (CHR ''/'') path of
                  Some index \<Rightarrow> if index = 0 then (''/'', drop 1 path) else (take index path, drop (index + 1) path)
                | None \<Rightarrow> (''/'', path))
         in if name = [] then Inl (Bail ''path does not include a name'') else Inr (parent, name)))"

definition graph_parent_lookup_url :: "string \<Rightarrow> string" where
  "graph_parent_lookup_url given =
     (let parent = normalize_cloud_path given in
      if parent = ''/'' then graph_root @ ''/me/drive/root''
      else graph_root @ ''/me/drive/root:/'' @ encode_graph_path parent)"

definition simple_upload_url :: "string \<Rightarrow> string option \<Rightarrow> string" where
  "simple_upload_url path remote_id =
     (case remote_id of
        Some i \<Rightarrow> graph_root @ ''/me/drive/items/'' @ encode_graph_path i @ ''/content''
      | None \<Rightarrow> graph_root @ ''/me/drive/root:/'' @ encode_graph_path path @ '':/content'')"

text \<open>An Option<&str> filtered to text that is not blank.\<close>

definition not_blank :: "string option \<Rightarrow> string option" where
  "not_blank s = (case s of None \<Rightarrow> None | Some x \<Rightarrow> if trim x = [] then None else Some x)"

definition upload_session_create_url :: "string option \<Rightarrow> string option \<Rightarrow> string \<Rightarrow> 'e fault + string" where
  "upload_session_create_url remote_id parent_id name =
     (case not_blank remote_id of
        Some i \<Rightarrow> Inr (graph_root @ ''/me/drive/items/'' @ i @ ''/createUploadSession'')
      | None \<Rightarrow>
          (case not_blank parent_id of
             None \<Rightarrow> Inl (Bail ''new upload session requires a parent item id'')
           | Some p \<Rightarrow>
               if name = [] then Inl (Bail ''new upload session requires a file name'')
               else Inr (graph_root @ ''/me/drive/items/'' @ p @ '':/'' @ percent_encode_path_segment name @
                      '':/createUploadSession'')))"

section \<open>Decoding\<close>

text \<open>What a receiver reads: %XX is the byte XX, any other character stands for itself.\<close>

definition hex_value :: "char \<Rightarrow> nat" where
  "hex_value c = (let n = of_char c :: nat in if n < 58 then n - 48 else n - 55)"

fun percent_decode :: "string \<Rightarrow> nat list" where
  "percent_decode [] = []"
| "percent_decode (c # s) =
     (if c = CHR ''%'' then
        (case s of h # l # r \<Rightarrow> (16 * hex_value h + hex_value l) # percent_decode r | _ \<Rightarrow> [])
      else of_char c # percent_decode s)"

lemma of_char_char_of: "n < 256 \<Longrightarrow> (of_char (char_of (n :: nat) :: char) :: nat) = n"
  by simp

lemma hex_value_upper: "n < 16 \<Longrightarrow> hex_value (upper_hex n) = n"
  by (simp add: hex_value_def upper_hex_def Let_def)

lemma percent_decode_byte: "b < 256 \<Longrightarrow> percent_decode (encode_byte b @ s) = b # percent_decode s"
proof (cases "is_unreserved b")
  case True
  assume "b < 256"
  moreover have "(char_of b :: char) \<noteq> CHR ''%''"
  proof
    assume "(char_of b :: char) = CHR ''%''"
    from arg_cong[OF this, of "of_char :: char \<Rightarrow> nat"] \<open>b < 256\<close> have "b = 37" by simp
    with True show False by (simp add: is_unreserved_def)
  qed
  ultimately show ?thesis using True by (simp add: encode_byte_def)
next
  case False
  assume "b < 256"
  then have "b div 16 < 16" "b mod 16 < 16" by auto
  with False show ?thesis by (simp add: encode_byte_def hex_value_upper)
qed

lemma utf8_char_bytes: "b \<in> set (utf8_char c) \<Longrightarrow> b < 256"
proof -
  have "(of_char c :: nat) < 256" by (rule nat_of_char_less_256)
  moreover assume "b \<in> set (utf8_char c)"
  moreover have "(of_char c :: nat) div 64 \<le> 255 div 64" using nat_of_char_less_256[of c] by (intro div_le_mono) linarith
  moreover have "(of_char c :: nat) mod 64 < 64" by simp
  ultimately show ?thesis by (auto simp: utf8_char_def Let_def split: if_splits)
qed

lemma utf8_bytes: "b \<in> set (utf8 s) \<Longrightarrow> b < 256"
  using utf8_char_bytes by (auto simp: utf8_def)

lemma percent_decode_bytes: "\<forall>b\<in>set bs. b < 256 \<Longrightarrow> percent_decode (concat (map encode_byte bs) @ s) = bs @ percent_decode s"
  by (induction bs) (simp_all add: percent_decode_byte)

lemma percent_decode_encode: "percent_decode (percent_encode_path_segment s) = utf8 s"
  using percent_decode_bytes[of "utf8 s" "[]"] utf8_bytes by (simp add: percent_encode_path_segment_def)

text \<open>UTF-8 separates the scalars: the first byte tells the length, the bytes the number.\<close>

lemma utf8_char_prefix_free:
  assumes "utf8_char c @ x = utf8_char d @ y"
  shows "c = d \<and> x = y"
proof -
  have n: "(of_char c :: nat) < 256" "(of_char d :: nat) < 256" by (rule nat_of_char_less_256)+
  have eq: "c = d" if "(of_char c :: nat) = of_char d" using that by simp
  show ?thesis
  proof (cases "(of_char c :: nat) < 128"; cases "(of_char d :: nat) < 128")
    assume "\<not> (of_char c :: nat) < 128" "\<not> (of_char d :: nat) < 128"
    then have p: "(of_char c :: nat) div 64 = of_char d div 64" "(of_char c :: nat) mod 64 = of_char d mod 64" "x = y"
      using assms by (auto simp: utf8_char_def Let_def)
    have "(of_char c :: nat) = of_char d"
      by (subst (1 2) div_mult_mod_eq[symmetric, of _ 64]) (simp only: p)
    with p(3) eq show ?thesis by simp
  qed (use assms n eq in \<open>auto simp: utf8_char_def Let_def\<close>)
qed

lemma utf8_char_not_Nil [simp]: "utf8_char c \<noteq> []"
  by (simp add: utf8_char_def Let_def)

lemma utf8_inj: "utf8 s = utf8 t \<Longrightarrow> s = t"
proof (induction s arbitrary: t)
  case Nil
  then show ?case by (cases t) (simp_all add: utf8_def)
next
  case (Cons c s)
  then obtain d u where t: "t = d # u" by (cases t) (auto simp: utf8_def)
  have "utf8_char c @ utf8 s = utf8_char d @ utf8 u" using Cons.prems t by (simp add: utf8_def)
  from utf8_char_prefix_free[OF this] Cons.IH[of u] t show ?case by simp
qed

text \<open>The characters of an encoded segment.\<close>

definition url_safe :: "char \<Rightarrow> bool" where
  "url_safe c = (is_unreserved (of_char c) \<or> c = CHR ''%'')"

lemma encode_byte_safe: "b < 256 \<Longrightarrow> c \<in> set (encode_byte b) \<Longrightarrow> url_safe c"
proof -
  have hex: "url_safe (upper_hex n)" if "n < 16" for n
    using that by (auto simp: upper_hex_def url_safe_def is_unreserved_def)
  assume "b < 256" "c \<in> set (encode_byte b)"
  moreover from this have "b div 16 < 16" "b mod 16 < 16" by auto
  ultimately show ?thesis by (auto simp: encode_byte_def hex url_safe_def[of "char_of b"] url_safe_def[of "CHR ''%''"] split: if_splits)
qed

lemma encoded_safe: "c \<in> set (percent_encode_path_segment s) \<Longrightarrow> url_safe c"
  using encode_byte_safe utf8_bytes by (auto simp: percent_encode_path_segment_def)

lemma slash_not_safe: "\<not> url_safe (CHR ''/'')"
  by (simp add: url_safe_def is_unreserved_def)

lemma encoded_no_slash: "CHR ''/'' \<notin> set (percent_encode_path_segment s)"
  using encoded_safe slash_not_safe by blast

lemma encoded_eq_Nil: "percent_encode_path_segment s = [] \<longleftrightarrow> s = []"
proof
  assume "percent_encode_path_segment s = []"
  then have "utf8 s = utf8 []" using percent_decode_encode[of s] by (simp add: utf8_def)
  then show "s = []" by (rule utf8_inj)
qed (simp add: percent_encode_path_segment_def utf8_def)

section \<open>What an address names\<close>

lemma encode_path_of:
  assumes "List.list_all clean_name cs"
  shows "encode_graph_path (path_of cs) = join_with ''/'' (map percent_encode_path_segment cs)"
proof (cases cs)
  case Nil
  have "normalize_cloud_path ''/'' = ''/''" using normalize_path_of[of "[]"] by (simp add: path_of_def)
  with Nil show ?thesis by (simp add: encode_graph_path_def path_of_def)
next
  case (Cons c ds)
  have c: "c \<noteq> []" "hd c \<noteq> CHR ''/''" using assms Cons clean_name_hd by (auto simp: clean_name_def)
  have "split_on (CHR ''/'') (c @ enc ds) = c # ds" using slash_split_path[OF assms] Cons by simp
  moreover have "dropWhile (\<lambda>x. x = CHR ''/'') (path_of cs) = c @ enc ds"
    using Cons c by (cases c) (simp_all add: path_of_def)
  moreover have "filter (\<lambda>x. x \<noteq> []) cs = cs"
    using assms by (intro filter_True) (auto simp: list_all_iff clean_name_def)
  ultimately show ?thesis
    using normalize_path_of[OF assms] Cons unfolding encode_graph_path_def by simp
qed

lemma split_join_with:
  "xs \<noteq> [] \<Longrightarrow> \<forall>x\<in>set xs. c \<notin> set x \<Longrightarrow> split_on c (join_with [c] xs) = xs"
proof (induction "[c]" xs rule: join_with.induct)
  case (3 x y xs)
  then show ?case by (simp add: split_on_append)
qed (simp_all add: split_on_none)

lemma set_join_with: "set (join_with sep xs) \<subseteq> set sep \<union> (\<Union>x\<in>set xs. set x)"
  by (induction sep xs rule: join_with.induct) auto

text \<open>The Graph address of a cloud path consists of unreserved characters, percent signs and the
  slashes between the names, and its decoded segments are the bytes of exactly the names of the
  path; so no name can add a segment, a query or a fragment to the address, and two paths never
  share one.\<close>

lemma graph_address_names_path:
  assumes "List.list_all clean_name cs"
  shows "(\<forall>c\<in>set (encode_graph_path (path_of cs)). url_safe c \<or> c = CHR ''/'') \<and>
    (cs \<noteq> [] \<longrightarrow> map percent_decode (split_on (CHR ''/'') (encode_graph_path (path_of cs))) = map utf8 cs) \<and>
    (\<forall>ds. List.list_all clean_name ds \<longrightarrow> encode_graph_path (path_of cs) = encode_graph_path (path_of ds) \<longrightarrow> cs = ds)"
proof -
  have decode: "map percent_decode (split_on (CHR ''/'') (encode_graph_path (path_of xs))) = map utf8 xs"
    if "List.list_all clean_name xs" "xs \<noteq> []" for xs
    using that encoded_no_slash by (simp add: encode_path_of split_join_with percent_decode_encode)
  have safe: "url_safe c \<or> c = CHR ''/''" if "c \<in> set (encode_graph_path (path_of cs))" for c
    using that set_join_with[of "''/''" "map percent_encode_path_segment cs"] encoded_safe
    unfolding encode_path_of[OF assms] by auto
  have nil: "encode_graph_path (path_of xs) = [] \<longleftrightarrow> xs = []" if "List.list_all clean_name xs" for xs
    using that by (cases xs rule: remdups_adj.cases) (auto simp: encode_path_of encoded_eq_Nil clean_name_def)
  have inj: "cs = ds"
    if ds: "List.list_all clean_name ds" and eq: "encode_graph_path (path_of cs) = encode_graph_path (path_of ds)" for ds
  proof (cases "cs = [] \<or> ds = []")
    case True
    moreover have "cs = [] \<longleftrightarrow> ds = []" using nil[OF assms] nil[OF ds] eq by metis
    ultimately show ?thesis by blast
  next
    case False
    then have "map utf8 cs = map percent_decode (split_on (CHR ''/'') (encode_graph_path (path_of cs)))"
      using decode[OF assms] by simp
    also have "\<dots> = map utf8 ds" unfolding eq using decode[OF ds] False by simp
    finally have "map utf8 cs = map utf8 ds" .
    moreover have "inj utf8" by (rule injI) (rule utf8_inj)
    ultimately show ?thesis by (simp only: inj_map_eq_map)
  qed
  show ?thesis using safe decode[OF assms] inj by blast
qed

lemma graph_address_names_path_witness:
  "map percent_decode (split_on (CHR ''/'') (encode_graph_path (path_of [''a b'', ''c?d'']))) = map utf8 [''a b'', ''c?d'']"
proof -
  have "List.list_all clean_name [''a b'', ''c?d'']" by code_simp
  from graph_address_names_path[OF this] show ?thesis by blast
qed

end
