(* ===== verification/GraphHttp.thy ===== *)
theory GraphHttp
  imports GraphPaths Config
begin

text \<open>
  The OneDrive client's state and its HTTP layer: crates/twodrive-core/src/credentials.rs,
  crates/twodrive-backend/src/onedrive/http.rs and the credentials of onedrive/auth.rs.  The
  client lives in the world's cloud component, beside the service itself.  The record web is
  what the code calls but does not contain: reqwest's exchange of a request for a response, the
  passing of time, the writes of files, and the parsers of dates and addresses.  Other
  threads may run during each of these.  Every exchange is noted in the client's log, which no
  code reads: it is what the theorems speak of.
\<close>

section \<open>Requests\<close>

datatype http_method = GET | PUT | POST | PATCH | DELETE

text \<open>The three reqwest clients: for Graph, for browsing (no redirects) and without credentials.\<close>

datatype http_client = MainClient | BrowseClient | BareClient

text \<open>Contents are not modelled: bytes of a file by its path, start and length, or a number of bytes.\<close>

datatype body = NoBody | JsonBody json | FormBody "(string \<times> string) list" | FileBody string nat nat | Bytes nat

record request =
  rq_client :: http_client
  rq_method :: http_method
  rq_url :: string
  rq_bearer :: "string option"
  rq_headers :: "(string \<times> string) list"
  rq_body :: body

definition plain_request :: "http_method \<Rightarrow> string \<Rightarrow> request" where
  "plain_request method url =
     \<lparr>rq_client = MainClient, rq_method = method, rq_url = url, rq_bearer = None, rq_headers = [], rq_body = NoBody\<rparr>"

definition graph_request :: "http_method \<Rightarrow> string \<Rightarrow> string \<Rightarrow> request" where
  "graph_request method url token = (plain_request method url)\<lparr>rq_bearer := Some token\<rparr>"

section \<open>The client\<close>

record token_data =
  tk_access :: string
  tk_refresh :: "string option"
  tk_expires_at_unix :: int

record persisted_upload_session =
  us_upload_url :: string
  us_source_size :: nat
  us_source_modified_unix :: int
  us_remote_id :: "string option"
  us_if_match :: "string option"

type_synonym session_map = "string \<rightharpoonup> persisted_upload_session"

record 'n client =
  cl_token :: token_data
  cl_token_file :: "token_data option"
  cl_sessions :: session_map
  cl_session_file :: "session_map option"
  cl_browse_retry_until :: "nat option"
  cl_instant :: nat
  cl_log :: "(request \<times> (transport_kind + response)) list"
  cl_net :: 'n

text \<open>What url::Url::parse yields, as far as the code looks.\<close>

record url =
  url_scheme :: string
  url_host :: "string option"
  url_port :: "nat option"
  url_username :: string
  url_password :: "string option"
  url_fragment :: "string option"
  url_path :: string

datatype private_file = TokenFile | SessionFile

text \<open>Replaced and synced, not replaced, or replaced with an error from the last sync.\<close>

datatype save_outcome = Saved | NotSaved | SavedUnsynced

record 'n web =
  send :: "request \<Rightarrow> 'n client world \<Rightarrow> (transport_kind + response) \<times> 'n client world"
  pause :: "nat \<Rightarrow> 'n client world \<Rightarrow> 'n client world"
  save_file :: "private_file \<Rightarrow> 'n client world \<Rightarrow> save_outcome \<times> 'n client world"
  write_bytes :: "string \<Rightarrow> nat \<Rightarrow> 'n client world \<Rightarrow> bool \<times> 'n client world"
  parse_rfc2822 :: "string \<Rightarrow> int option"
  parse_rfc3339 :: "string \<Rightarrow> int option"
  parse_url :: "string \<Rightarrow> url option"
  path_segments :: "string list \<Rightarrow> string"
  web_config :: graph_config

datatype graph_error =
    Refused request_failure | NoResponse transport_failure | RawRequest transport_kind | BadBody

type_synonym ('n, 'a) gact = "(graph_error, 'n client, 'a) act"

definition client :: "('n client \<Rightarrow> 'a) \<Rightarrow> ('n, 'a) gact" where
  "client f = read_world (\<lambda>w. f (w_cloud w))"

definition update_client :: "('n client \<Rightarrow> 'n client) \<Rightarrow> ('n, unit) gact" where
  "update_client f w = (Inr (), w\<lparr>w_cloud := f (w_cloud w)\<rparr>)"

definition from_result :: "graph_error fault + 'a \<Rightarrow> ('n, 'a) gact" where
  "from_result r w = (r, w)"

definition map_fault :: "('e fault \<Rightarrow> 'e fault) \<Rightarrow> ('e, 'c, 'a) act \<Rightarrow> ('e, 'c, 'a) act" where
  "map_fault f m w = (case m w of (Inl e, w') \<Rightarrow> (Inl (f e), w') | (Inr a, w') \<Rightarrow> (Inr a, w'))"

definition ensure :: "bool \<Rightarrow> string \<Rightarrow> ('n, unit) gact" where
  "ensure b message = (if b then act_return () else act_fail (Bail message))"

definition note_exchange :: "request \<Rightarrow> transport_kind + response \<Rightarrow> 'n client world \<Rightarrow> 'n client world" where
  "note_exchange req answer w = w\<lparr>w_cloud := (w_cloud w)\<lparr>cl_log := cl_log (w_cloud w) @ [(req, answer)]\<rparr>\<rparr>"

definition exchange :: "'n web \<Rightarrow> request \<Rightarrow> ('n, transport_kind + response) gact" where
  "exchange web req w = (case send web req w of (answer, w') \<Rightarrow> (Inr answer, note_exchange req answer w'))"

text \<open>Response::json: the body is read to its end and decoded.\<close>

definition json_body :: "(json \<Rightarrow> 'a option) \<Rightarrow> response \<Rightarrow> ('n, 'a) gact" where
  "json_body decode r =
     (case rs_break r of
        Some k \<Rightarrow> act_fail (CloudFault (RawRequest k))
      | None \<Rightarrow>
          (case Option.bind (rs_json r) decode of
             None \<Rightarrow> act_fail (CloudFault BadBody) | Some x \<Rightarrow> act_return x))"

section \<open>Delays\<close>

definition parse_retry_after_seconds :: "(string \<Rightarrow> int option) \<Rightarrow> int \<Rightarrow> string \<Rightarrow> nat option" where
  "parse_retry_after_seconds rfc2822 now v =
     (case parse_u64 (trim v) of
        Some seconds \<Rightarrow> Some (1000 * unat seconds)
      | None \<Rightarrow> map_option (\<lambda>date. 1000 * nat (max (date - now) 0)) (rfc2822 v))"

definition retry_after :: "'n web \<Rightarrow> int \<Rightarrow> response \<Rightarrow> nat option" where
  "retry_after web now r =
     Option.bind (header r ''retry-after'') (parse_retry_after_seconds (parse_rfc2822 web) now)"

definition retry_after_delay :: "'n web \<Rightarrow> int \<Rightarrow> response \<Rightarrow> nat \<Rightarrow> nat" where
  "retry_after_delay web now r k = (case retry_after web now r of None \<Rightarrow> 250 * k | Some d \<Rightarrow> d)"

text \<open>
  checked_delay sleeps in slices of at most 100 ms and asks between them.  seen is the time that
  has passed at least; a sleep lasts at least as long as it was asked to.
\<close>

definition elapsed :: "nat \<Rightarrow> nat \<Rightarrow> 'n client world \<Rightarrow> nat" where
  "elapsed seen start w = max seen (cl_instant (w_cloud w) - start)"

definition slice :: "nat \<Rightarrow> nat \<Rightarrow> nat" where
  "slice delay past = min (delay - past) 100"

lemma delay_shrinks:
  "\<not> delay \<le> elapsed seen start w \<Longrightarrow>
   delay - (elapsed seen start w' + slice delay (elapsed seen start w')) < delay - seen"
proof -
  have less: "delay - (e + slice delay e) < delay - seen" if "seen < delay" "seen \<le> e" for e
    using that by (auto simp: slice_def min_def)
  assume "\<not> delay \<le> elapsed seen start w"
  then show ?thesis using less by (simp add: elapsed_def)
qed

function delay_rounds ::
    "'n web \<Rightarrow> ('n, unit) gact \<Rightarrow> nat \<Rightarrow> nat \<Rightarrow> nat \<Rightarrow> 'n client world \<Rightarrow> (graph_error fault + unit) \<times> 'n client world" where
  "delay_rounds web chk start delay seen w =
     (if delay \<le> elapsed seen start w then chk w
      else
        (case chk w of
           (Inl e, w') \<Rightarrow> (Inl e, w')
         | (Inr _, w') \<Rightarrow>
             delay_rounds web chk start delay
               (elapsed seen start w' + slice delay (elapsed seen start w'))
               (pause web (slice delay (elapsed seen start w')) w')))"
  by pat_completeness auto

termination
  by (relation "measure (\<lambda>(web, chk, start, delay, seen, w). delay - seen)")
     (simp_all only: in_measure case_prod_conv wf_measure delay_shrinks not_False_eq_True)

declare delay_rounds.simps [simp del]

definition checked_delay :: "'n web \<Rightarrow> nat \<Rightarrow> ('n, unit) gact \<Rightarrow> ('n, unit) gact" where
  "checked_delay web delay chk w = delay_rounds web chk (cl_instant (w_cloud w)) delay 0 w"

section \<open>Retries\<close>

definition is_transient :: "response \<Rightarrow> bool" where
  "is_transient r = (rs_status r = 429 \<or> is_server_error r)"

definition build_fault :: "request_operation \<Rightarrow> graph_error fault \<Rightarrow> graph_error fault" where
  "build_fault operation err =
     (case err of
        CloudFault (Refused f) \<Rightarrow> err
      | CloudFault (NoResponse f) \<Rightarrow> err
      | _ \<Rightarrow> CloudFault (NoResponse \<lparr>tf_operation = operation, tf_code = ''request-build''\<rparr>))"

fun retry_attempts ::
    "'n web \<Rightarrow> request_operation \<Rightarrow> ('n, request) gact \<Rightarrow> ('n, unit) gact \<Rightarrow> bool \<Rightarrow> nat list \<Rightarrow>
     graph_error fault option \<Rightarrow> ('n, response option) gact" where
  "retry_attempts web operation build chk optional [] last_error =
     act_fail (case last_error of None \<Rightarrow> Bail ''Graph request failed'' | Some e \<Rightarrow> e)"
| "retry_attempts web operation build chk optional (k # ks) last_error =
     act_bind chk (\<lambda>_.
     act_bind (map_fault (build_fault operation) build) (\<lambda>req.
     act_bind (exchange web req) (\<lambda>answer.
       case answer of
         Inr r \<Rightarrow>
           if is_success r then act_return (Some r)
           else if optional \<and> rs_status r = 404 then act_return None
           else
             at_now (\<lambda>now.
               let delay = (if is_transient r then retry_after_delay web now r k
                            else case retry_after web now r of None \<Rightarrow> 0 | Some d \<Rightarrow> d);
                   err = CloudFault (Refused (response_failure (parse_rfc2822 web) r operation delay)) in
               if \<not> is_transient r \<or> k = 3 \<or> 30000 < delay then act_fail err
               else act_bind (checked_delay web delay chk) (\<lambda>_.
                      retry_attempts web operation build chk optional ks (Some err)))
       | Inl kind \<Rightarrow>
           act_bind (checked_delay web (250 * k) chk) (\<lambda>_.
             retry_attempts web operation build chk optional ks
               (Some (CloudFault (NoResponse (transport_request kind operation))))))))"

definition retry_impl ::
    "'n web \<Rightarrow> request_operation \<Rightarrow> ('n, request) gact \<Rightarrow> ('n, unit) gact \<Rightarrow> bool \<Rightarrow> ('n, response option) gact" where
  "retry_impl web operation build chk optional = retry_attempts web operation build chk optional [1, 2, 3] None"

definition response_or_missing :: "('n, response option) gact \<Rightarrow> ('n, response) gact" where
  "response_or_missing m =
     act_bind m (\<lambda>r. case r of None \<Rightarrow> act_fail (Bail ''missing HTTP response'') | Some r \<Rightarrow> act_return r)"

definition retry_request_named :: "'n web \<Rightarrow> request_operation \<Rightarrow> request \<Rightarrow> ('n, response) gact" where
  "retry_request_named web operation req =
     response_or_missing (retry_impl web operation (act_return req) (act_return ()) False)"

definition retry_request_checked :: "'n web \<Rightarrow> request \<Rightarrow> ('n, unit) gact \<Rightarrow> ('n, response) gact" where
  "retry_request_checked web req chk = response_or_missing (retry_impl web Graph (act_return req) chk False)"

definition retry_request :: "'n web \<Rightarrow> request \<Rightarrow> ('n, response) gact" where
  "retry_request web req = retry_request_checked web req (act_return ())"

definition retry_optional_request_named ::
    "'n web \<Rightarrow> request_operation \<Rightarrow> ('n, request) gact \<Rightarrow> ('n, response option) gact" where
  "retry_optional_request_named web operation build = retry_impl web operation build (act_return ()) True"

definition retry_optional_request :: "'n web \<Rightarrow> ('n, request) gact \<Rightarrow> ('n, response option) gact" where
  "retry_optional_request web build = retry_optional_request_named web Graph build"

section \<open>Credentials\<close>

definition save_token :: "'n web \<Rightarrow> token_data \<Rightarrow> ('n, unit) gact" where
  "save_token web token w =
     (case save_file web TokenFile w of
        (outcome, w') \<Rightarrow>
          (if outcome = Saved then Inr () else Inl IoFault,
           if outcome = NotSaved then w'
           else w'\<lparr>w_cloud := (w_cloud w')\<lparr>cl_token_file := Some token\<rparr>\<rparr>))"

definition token_url :: "graph_config \<Rightarrow> string" where
  "token_url config = ''https://login.microsoftonline.com/'' @ gc_tenant config @ ''/oauth2/v2.0/token''"

fun as_i64 :: "json \<Rightarrow> int option" where
  "as_i64 (JNumber (PosInt n)) = (if uint n \<le> i64_max then Some (uint n) else None)"
| "as_i64 (JNumber (NegInt n)) = Some n"
| "as_i64 _ = None"

text \<open>TokenResponse, and the time it makes of expires_in: i64 addition wraps.\<close>

definition wrap_i64 :: "int \<Rightarrow> int" where
  "wrap_i64 n = sint (word_of_int n :: 64 word)"

definition token_response :: "int \<Rightarrow> json \<Rightarrow> token_data option" where
  "token_response now v =
     Option.bind (struct_members [''access_token'', ''refresh_token'', ''expires_in''] 3 v) (\<lambda>m.
     Option.bind (string_member m ''access_token'') (\<lambda>access.
     Option.bind (optional_member as_str m ''refresh_token'') (\<lambda>refresh.
     Option.bind (optional_member as_i64 m ''expires_in'') (\<lambda>expires.
       Some \<lparr>tk_access = access, tk_refresh = refresh,
             tk_expires_at_unix = wrap_i64 (now + (case expires of None \<Rightarrow> 3600 | Some e \<Rightarrow> e))\<rparr>))))"

definition token_request :: "'n web \<Rightarrow> request_operation \<Rightarrow> request \<Rightarrow> string \<Rightarrow> ('n, token_data) gact" where
  "token_request web operation req label =
     act_bind (retry_request_named web operation req) (\<lambda>r.
       case rs_break r of
         Some k \<Rightarrow> act_fail (CloudFault (RawRequest k))
       | None \<Rightarrow>
           if \<not> is_success r then act_fail (Bail (label @ '' failed with HTTP '' @ status_text r))
           else at_now (\<lambda>now. json_body (token_response now) r))"

definition refresh_token_request :: "graph_config \<Rightarrow> string \<Rightarrow> request" where
  "refresh_token_request config refresh =
     (plain_request POST (token_url config))\<lparr>rq_client := BrowseClient, rq_body := FormBody
        [(''client_id'', gc_client_id config), (''scope'', join_with '' '' (gc_scopes config)),
         (''refresh_token'', refresh), (''grant_type'', ''refresh_token'')]\<rparr>"

definition refresh_stored :: "'n web \<Rightarrow> string \<Rightarrow> ('n, token_data) gact" where
  "refresh_stored web refresh =
     token_request web TokenRefresh (refresh_token_request (web_config web) refresh) ''OAuth refresh''"

text \<open>A refreshed token is saved, then used; without a new refresh token the old one stays.\<close>

definition adopt_token :: "'n web \<Rightarrow> string \<Rightarrow> ('n, token_data) gact" where
  "adopt_token web refresh =
     act_bind (refresh_stored web refresh) (\<lambda>answer.
     let token = (if tk_refresh answer = None then answer\<lparr>tk_refresh := Some refresh\<rparr> else answer) in
     act_bind (save_token web token) (\<lambda>_.
     act_bind (update_client (\<lambda>c. c\<lparr>cl_token := token\<rparr>)) (\<lambda>_. act_return token)))"

definition access_token :: "'n web \<Rightarrow> ('n, string) gact" where
  "access_token web =
     act_bind (client cl_token) (\<lambda>token. at_now (\<lambda>now.
       if now + 60 < tk_expires_at_unix token then act_return (tk_access token)
       else
         (case tk_refresh token of
            None \<Rightarrow> act_fail (Bail ''access token expired and no refresh token is stored'')
          | Some refresh \<Rightarrow> act_bind (adopt_token web refresh) (\<lambda>t. act_return (tk_access t)))))"

definition refresh_rejected_token :: "'n web \<Rightarrow> string \<Rightarrow> ('n, unit) gact" where
  "refresh_rejected_token web rejected =
     act_bind (client cl_token) (\<lambda>token.
       if tk_access token \<noteq> rejected then act_return ()
       else
         (case tk_refresh token of
            None \<Rightarrow> act_fail (Bail ''reauthentication_required'')
          | Some refresh \<Rightarrow> act_bind (adopt_token web refresh) (\<lambda>_. act_return ())))"

text \<open>TokenStore::delete: a missing file is fine, a failed removal is an error.\<close>

definition forget_credentials :: "bool \<Rightarrow> ('n, unit) gact" where
  "forget_credentials can_remove =
     act_bind (update_client (\<lambda>c. c\<lparr>cl_token := \<lparr>tk_access = [], tk_refresh = None, tk_expires_at_unix = 0\<rparr>\<rparr>)) (\<lambda>_.
     act_bind (client cl_token_file) (\<lambda>stored.
       if stored = None then act_return ()
       else if \<not> can_remove then act_fail IoFault
       else update_client (\<lambda>c. c\<lparr>cl_token_file := None\<rparr>)))"

definition get_with_retry :: "'n web \<Rightarrow> string \<Rightarrow> ('n, response) gact" where
  "get_with_retry web url =
     act_bind (access_token web) (\<lambda>token. retry_request web (graph_request GET url token))"

definition get_range_with_retry ::
    "'n web \<Rightarrow> string \<Rightarrow> nat \<Rightarrow> nat \<Rightarrow> ('n, unit) gact \<Rightarrow> ('n, response) gact" where
  "get_range_with_retry web url start finish chk =
     act_bind chk (\<lambda>_.
     act_bind (access_token web) (\<lambda>token.
       retry_request_checked web
         ((graph_request GET url token)\<lparr>rq_headers :=
            [(''Range'', ''bytes='' @ decimal start @ ''-'' @ decimal finish)]\<rparr>) chk))"

section \<open>What the steps keep\<close>

text \<open>An action whose results have a property.\<close>

definition yields :: "('a \<Rightarrow> bool) \<Rightarrow> ('e, 'c, 'a) act \<Rightarrow> bool" where
  "yields R m = (\<forall>w a w'. m w = (Inr a, w') \<longrightarrow> R a)"

lemma yields_return: "R a \<Longrightarrow> yields R (act_return a)"
  by (simp add: yields_def act_return_def)

lemma yields_bind: "(\<And>a. yields R (k a)) \<Longrightarrow> yields R (act_bind m k)"
  by (auto simp: yields_def act_bind_def split: prod.splits sum.splits)

lemma yields_fail: "yields R (act_fail e)"
  by (simp add: yields_def act_fail_def)

lemma yields_True [simp]: "yields (\<lambda>_. True) m"
  by (simp add: yields_def)

lemma keeps_map_fault [keeps_intros]: "act_keeps P m \<Longrightarrow> act_keeps P (map_fault f m)"
  by (auto simp: act_keeps_def map_fault_def split: prod.splits sum.splits)

lemma yields_map_fault: "yields R m \<Longrightarrow> yields R (map_fault f m)"
  by (auto simp: yields_def map_fault_def split: prod.splits sum.splits)

lemma keeps_client [keeps_intros]: "act_keeps P (client f)"
  by (simp add: client_def keeps_intros)

lemma keeps_from_result [keeps_intros]: "act_keeps P (from_result r)"
  by (simp add: act_keeps_def from_result_def)

lemma yields_from_result: "yields (\<lambda>a. r = Inr a) (from_result r)"
  by (simp add: yields_def from_result_def)

lemma keeps_ensure [keeps_intros]: "act_keeps P (ensure b m)"
  by (simp add: ensure_def keeps_intros)

lemma keeps_json_body [keeps_intros]: "act_keeps P (json_body f r)"
  by (auto simp: json_body_def keeps_intros split: option.splits)

lemma keeps_bind_yields:
  "act_keeps P m \<Longrightarrow> yields R m \<Longrightarrow> (\<And>a. R a \<Longrightarrow> act_keeps P (k a)) \<Longrightarrow> act_keeps P (act_bind m k)"
  by (simp add: act_keeps_def yields_def act_bind_def split: prod.split sum.split) (metis snd_conv)

lemma keeps_let [keeps_intros]: "act_keeps P (f x) \<Longrightarrow> act_keeps P (let y = x in f y)"
  by simp

lemma delay_rounds_inv:
  assumes "\<And>w. P w \<Longrightarrow> P (snd (chk w))" "\<And>n w. P w \<Longrightarrow> P (pause web n w)" "P w"
  shows "P (snd (delay_rounds web chk start delay seen w))"
  using assms
proof (induction web chk start delay seen w rule: delay_rounds.induct)
  case (1 web chk start delay seen w)
  obtain r w' where r: "chk w = (r, w')" by (cases "chk w")
  have w': "P w'" using 1(2)[OF 1(4)] by (simp only: r snd_conv)
  show ?case
  proof (cases "delay \<le> elapsed seen start w")
    case True
    with r w' show ?thesis by (subst delay_rounds.simps) simp
  next
    case later: False
    show ?thesis
    proof (cases r)
      case (Inl e)
      with later r w' show ?thesis by (subst delay_rounds.simps) simp
    next
      case (Inr u)
      have "P (snd (delay_rounds web chk start delay (elapsed seen start w' + slice delay (elapsed seen start w'))
          (pause web (slice delay (elapsed seen start w')) w')))"
        by (rule 1(1)[OF later r[symmetric] Inr 1(2,3)]) (auto intro: 1(3) w')
      with later r Inr show ?thesis by (subst delay_rounds.simps) simp
    qed
  qed
qed

text \<open>
  A property P of worlds that the other threads keep, that depends on the client through its log
  and its network only, and that a request R may be noted under; refreshing the token is one.
\<close>

locale web_steps =
  fixes web :: "'n web" and P :: "'n client world \<Rightarrow> bool"
    and R :: "request \<Rightarrow> transport_kind + response \<Rightarrow> bool"
  assumes send_keeps: "P w \<Longrightarrow> P (snd (send web req w))"
    and pause_keeps: "P w \<Longrightarrow> P (pause web delay w)"
    and save_keeps: "P w \<Longrightarrow> P (snd (save_file web f w))"
    and client_frame: "P w \<Longrightarrow> cl_log c = cl_log (w_cloud w) \<Longrightarrow> cl_net c = cl_net (w_cloud w) \<Longrightarrow> P (w\<lparr>w_cloud := c\<rparr>)"
    and note_keeps: "P w \<Longrightarrow> R req answer \<Longrightarrow> P (note_exchange req answer w)"
    and refresh_noted: "R (refresh_token_request (web_config web) refresh) answer"
begin

lemma keeps_exchange: "(\<And>answer. R req answer) \<Longrightarrow> act_keeps P (exchange web req)"
  using send_keeps note_keeps by (auto simp: act_keeps_def exchange_def split: prod.splits) (metis snd_conv)

lemma keeps_update: "(\<And>c. cl_log (f c) = cl_log c) \<Longrightarrow> (\<And>c. cl_net (f c) = cl_net c) \<Longrightarrow> act_keeps P (update_client f)"
  using client_frame by (simp add: act_keeps_def update_client_def)

lemma keeps_delay: "act_keeps P chk \<Longrightarrow> act_keeps P (checked_delay web delay chk)"
  unfolding checked_delay_def using pause_keeps by (auto simp: act_keeps_def intro: delay_rounds_inv)

lemma keeps_retry_attempts:
  assumes "act_keeps P chk" "act_keeps P build" "yields (\<lambda>req. \<forall>answer. R req answer) build"
  shows "act_keeps P (retry_attempts web operation build chk optional ks last_error)"
proof (induction ks arbitrary: last_error)
  case Nil
  show ?case by (simp add: keeps_intros)
next
  case (Cons k ks)
  show ?case
    unfolding retry_attempts.simps
    by (intro keeps_bind assms(1) keeps_bind_yields[OF keeps_map_fault[OF assms(2)] yields_map_fault[OF assms(3)]]
          keeps_exchange keeps_sum keeps_if keeps_return keeps_now keeps_let keeps_fail keeps_delay Cons.IH) auto
qed

lemma keeps_retry_impl:
  "act_keeps P chk \<Longrightarrow> act_keeps P build \<Longrightarrow> yields (\<lambda>req. \<forall>answer. R req answer) build \<Longrightarrow>
   act_keeps P (retry_impl web operation build chk optional)"
  unfolding retry_impl_def by (rule keeps_retry_attempts)

lemma keeps_response_or_missing: "act_keeps P m \<Longrightarrow> act_keeps P (response_or_missing m)"
  unfolding response_or_missing_def by (intro keeps_bind keeps_option keeps_fail keeps_return)

lemma keeps_retry_request_checked:
  "(\<And>answer. R req answer) \<Longrightarrow> act_keeps P chk \<Longrightarrow> act_keeps P (retry_request_checked web req chk)"
  unfolding retry_request_checked_def
  by (intro keeps_response_or_missing keeps_retry_impl keeps_return yields_return) auto

lemma keeps_retry_request: "(\<And>answer. R req answer) \<Longrightarrow> act_keeps P (retry_request web req)"
  by (simp add: retry_request_def keeps_retry_request_checked keeps_return)

lemma keeps_retry_optional_named:
  "act_keeps P build \<Longrightarrow> yields (\<lambda>req. \<forall>answer. R req answer) build \<Longrightarrow>
   act_keeps P (retry_optional_request_named web operation build)"
  by (simp add: retry_optional_request_named_def keeps_retry_impl keeps_return)

lemma keeps_save_token: "act_keeps P (save_token web token)"
proof (unfold act_keeps_def, intro allI impI)
  fix w assume "P w"
  then have "P (snd (save_file web TokenFile w))" by (rule save_keeps)
  then show "P (snd (save_token web token w))"
    using client_frame by (auto simp: save_token_def split: prod.split)
qed

lemma keeps_adopt_token: "act_keeps P (adopt_token web refresh)"
  unfolding adopt_token_def refresh_stored_def token_request_def retry_request_named_def Let_def
  by (intro keeps_bind keeps_response_or_missing keeps_retry_impl keeps_return yields_return allI
        keeps_option keeps_fail keeps_if keeps_now keeps_json_body keeps_save_token keeps_update)
     (auto intro: refresh_noted)

lemma keeps_access_token: "act_keeps P (access_token web)"
  unfolding access_token_def
  by (intro keeps_bind keeps_client keeps_now keeps_if keeps_return keeps_option keeps_fail keeps_adopt_token)

lemma keeps_refresh_rejected: "act_keeps P (refresh_rejected_token web rejected)"
  unfolding refresh_rejected_token_def
  by (intro keeps_bind keeps_client keeps_now keeps_if keeps_return keeps_option keeps_fail keeps_adopt_token)

lemma keeps_get_with_retry:
  "(\<And>token answer. R (graph_request GET url token) answer) \<Longrightarrow> act_keeps P (get_with_retry web url)"
  unfolding get_with_retry_def by (intro keeps_bind keeps_access_token keeps_retry_request) auto

end

end
