(* ===== verification/GraphUpload.thy ===== *)
theory GraphUpload
  imports GraphHttp
begin

text \<open>
  crates/twodrive-backend/src/onedrive/model.rs and upload.rs: the drive items of Graph, the
  store of upload sessions, and the session loop that sends a large file in fragments, resumes
  where the service says, and gives up when it does not advance.
\<close>

section \<open>Drive items\<close>

record drive_item =
  gi_id :: string
  gi_name :: "string option"
  gi_size :: "json_number option"
  gi_last_modified :: "string option"
  gi_etag :: "string option"
  gi_folder :: "json option"
  gi_deleted :: "json option"
  gi_parent_path :: "string option"

text \<open>GraphParentReference has one member; the item takes its path.\<close>

definition parent_reference :: "json \<Rightarrow> string option option" where
  "parent_reference v =
     Option.bind (struct_members [''path''] 1 v) (\<lambda>m. optional_member as_str m ''path'')"

definition drive_item :: "json \<Rightarrow> drive_item option" where
  "drive_item v =
     Option.bind (struct_members [''id'', ''name'', ''size'', ''lastModifiedDateTime'', ''eTag'', ''folder'',
       ''deleted'', ''parentReference''] 8 v) (\<lambda>m.
     Option.bind (string_member m ''id'') (\<lambda>i.
     Option.bind (optional_member as_str m ''name'') (\<lambda>name.
     Option.bind (optional_member as_number m ''size'') (\<lambda>sz.
     Option.bind (optional_member as_str m ''lastModifiedDateTime'') (\<lambda>modified.
     Option.bind (optional_member as_str m ''eTag'') (\<lambda>etag.
     Option.bind (optional_member Some m ''folder'') (\<lambda>folder.
     Option.bind (optional_member Some m ''deleted'') (\<lambda>deleted.
     Option.bind (optional_member parent_reference m ''parentReference'') (\<lambda>parent.
       Some \<lparr>gi_id = i, gi_name = name, gi_size = sz, gi_last_modified = modified, gi_etag = etag,
             gi_folder = folder, gi_deleted = deleted, gi_parent_path = Option.bind parent (\<lambda>p. p)\<rparr>)))))))))"

text \<open>The time of an item, and the entry made of it at a path; a size that is no u64 yields none.\<close>

definition item_modified :: "(string \<Rightarrow> int option) \<Rightarrow> int \<Rightarrow> drive_item \<Rightarrow> int" where
  "item_modified rfc3339 now g =
     (case Option.bind (gi_last_modified g) rfc3339 of None \<Rightarrow> now | Some t \<Rightarrow> t)"

definition item_size :: "drive_item \<Rightarrow> u64 option" where
  "item_size g = (case gi_size g of None \<Rightarrow> Some 0 | Some n \<Rightarrow> number_as_u64 n)"

definition entry_at :: "(string \<Rightarrow> int option) \<Rightarrow> int \<Rightarrow> string \<Rightarrow> drive_item \<Rightarrow> metadata_entry option" where
  "entry_at rfc3339 now path g =
     (let modified = item_modified rfc3339 now g; etag = (case gi_etag g of None \<Rightarrow> [] | Some e \<Rightarrow> e) in
      if gi_folder g \<noteq> None then Some (new_dir (gi_id g) path modified etag)
      else map_option (\<lambda>sz. new_file (gi_id g) path sz modified etag) (item_size g))"

definition item_parent :: "drive_item \<Rightarrow> string" where
  "item_parent g =
     (case Option.bind (gi_parent_path g) (strip_prefix ''/drive/root:'') of
        None \<Rightarrow> ''/'' | Some p \<Rightarrow> if p = [] then ''/'' else p)"

definition into_metadata :: "(string \<Rightarrow> int option) \<Rightarrow> int \<Rightarrow> drive_item \<Rightarrow> metadata_entry option" where
  "into_metadata rfc3339 now g =
     (case gi_name g of
        None \<Rightarrow> None
      | Some name \<Rightarrow>
          if name = [] then None else entry_at rfc3339 now (join_cloud_path (item_parent g) name) g)"

definition into_metadata_at_path ::
    "(string \<Rightarrow> int option) \<Rightarrow> int \<Rightarrow> string \<Rightarrow> drive_item \<Rightarrow> metadata_entry option" where
  "into_metadata_at_path rfc3339 now path g = entry_at rfc3339 now (normalize_cloud_path path) g"

text \<open>The entry of a response, at the path that was asked for, or an error with a text.\<close>

definition entry_or :: "'n web \<Rightarrow> string \<Rightarrow> string \<Rightarrow> response \<Rightarrow> ('n, metadata_entry) gact" where
  "entry_or web path message r =
     act_bind (json_body drive_item r) (\<lambda>g. at_now (\<lambda>now.
       case into_metadata_at_path (parse_rfc3339 web) now path g of
         None \<Rightarrow> act_fail (Bail message) | Some e \<Rightarrow> act_return e))"

section \<open>Stored sessions\<close>

definition save_sessions :: "'n web \<Rightarrow> ('n, unit) gact" where
  "save_sessions web w =
     (case save_file web SessionFile w of
        (outcome, w') \<Rightarrow>
          (if outcome = Saved then Inr () else Inl IoFault,
           if outcome = NotSaved then w'
           else w'\<lparr>w_cloud := (w_cloud w')\<lparr>cl_session_file := Some (cl_sessions (w_cloud w'))\<rparr>\<rparr>))"

definition matching_upload_session ::
    "string \<Rightarrow> nat \<Rightarrow> int \<Rightarrow> string option \<Rightarrow> string option \<Rightarrow> ('n, persisted_upload_session option) gact" where
  "matching_upload_session key sz modified remote_id if_match =
     client (\<lambda>c.
       case cl_sessions c key of
         None \<Rightarrow> None
       | Some s \<Rightarrow>
           if us_source_size s = sz \<and> us_source_modified_unix s = modified \<and>
              us_remote_id s = remote_id \<and> us_if_match s = if_match
           then Some s else None)"

definition save_upload_session :: "'n web \<Rightarrow> string \<Rightarrow> persisted_upload_session \<Rightarrow> ('n, unit) gact" where
  "save_upload_session web key session =
     act_bind (update_client (\<lambda>c. c\<lparr>cl_sessions := (cl_sessions c)(key \<mapsto> session)\<rparr>)) (\<lambda>_. save_sessions web)"

definition remove_upload_session :: "'n web \<Rightarrow> string \<Rightarrow> ('n, unit) gact" where
  "remove_upload_session web key =
     act_bind (client (\<lambda>c. cl_sessions c key)) (\<lambda>found.
       if found = None then act_return ()
       else act_bind (update_client (\<lambda>c. c\<lparr>cl_sessions := (cl_sessions c)(key := None)\<rparr>)) (\<lambda>_.
              save_sessions web))"

section \<open>Fragments\<close>

abbreviation simple_upload_max :: nat where
  "simple_upload_max \<equiv> 10485760"

abbreviation upload_fragment_size :: nat where
  "upload_fragment_size \<equiv> 10485760"

definition uses_upload_session :: "nat \<Rightarrow> bool" where
  "uses_upload_session sz = (simple_upload_max < sz)"

definition with_if_match :: "string option \<Rightarrow> request \<Rightarrow> request" where
  "with_if_match if_match req =
     (case not_blank if_match of
        None \<Rightarrow> req | Some etag \<Rightarrow> req\<lparr>rq_headers := rq_headers req @ [(''If-Match'', etag)]\<rparr>)"

definition upload_request :: "string \<Rightarrow> string \<Rightarrow> string option \<Rightarrow> body \<Rightarrow> request" where
  "upload_request url token if_match content =
     with_if_match if_match ((graph_request PUT url token)\<lparr>
       rq_headers := [(''Content-Type'', ''application/octet-stream'')], rq_body := content\<rparr>)"

definition upload_session_request_body :: json where
  "upload_session_request_body =
     JObject [(''item'', JObject [(''@microsoft.graph.conflictBehavior'', JString ''replace'')])]"

text \<open>GraphUploadSession and GraphUploadStatus.\<close>

definition upload_session_url :: "json \<Rightarrow> string option" where
  "upload_session_url v = Option.bind (struct_members [''uploadUrl''] 1 v) (\<lambda>m. string_member m ''uploadUrl'')"

definition upload_status :: "json \<Rightarrow> string list option" where
  "upload_status v =
     Option.bind (struct_members [''nextExpectedRanges''] 0 v) (\<lambda>m.
       case map_of m ''nextExpectedRanges'' of
         None \<Rightarrow> Some []
       | Some x \<Rightarrow> Option.bind (as_array x) (read_all as_str))"

fun first_expected_offset :: "string list \<Rightarrow> nat option" where
  "first_expected_offset [] = None"
| "first_expected_offset (r # ranges) =
     (case parse_u64 (trim (hd (split_on (CHR ''-'') r))) of
        Some start \<Rightarrow> Some (unat start) | None \<Rightarrow> first_expected_offset ranges)"

definition query_upload_offset :: "'n web \<Rightarrow> string \<Rightarrow> ('n, nat option) gact" where
  "query_upload_offset web upload_url =
     act_bind (exchange web (plain_request GET upload_url)) (\<lambda>answer.
       case answer of
         Inl kind \<Rightarrow> act_fail (CloudFault (RawRequest kind))
       | Inr r \<Rightarrow>
           if rs_status r = 404 \<or> rs_status r = 410 then act_return None
           else if \<not> is_success r
           then act_fail (Bail (''Graph upload status request failed with HTTP '' @ status_text r))
           else act_bind (json_body upload_status r) (\<lambda>ranges. act_return (first_expected_offset ranges)))"

definition content_range :: "nat \<Rightarrow> nat \<Rightarrow> nat \<Rightarrow> string" where
  "content_range offset finish total_size =
     ''bytes '' @ decimal offset @ ''-'' @ decimal finish @ ''/'' @ decimal total_size"

definition fragment_request :: "string \<Rightarrow> string \<Rightarrow> nat \<Rightarrow> nat \<Rightarrow> nat \<Rightarrow> request" where
  "fragment_request upload_url source_path offset len total_size =
     (plain_request PUT upload_url)\<lparr>
       rq_headers := [(''Content-Range'', content_range offset (offset + len - 1) total_size),
                      (''Content-Type'', ''application/octet-stream'')],
       rq_body := FileBody source_path offset len\<rparr>"

text \<open>What the attempts for one fragment come to.\<close>

datatype fragment_outcome = Uploaded metadata_entry | NextOffset "nat option" "graph_error fault option"

definition sleep :: "'n web \<Rightarrow> nat \<Rightarrow> ('n, unit) gact" where
  "sleep web delay w = (Inr (), pause web delay w)"

text \<open>After a failure: the service's offset if it is known and further, or a delay and the next attempt.\<close>

definition unless_advanced ::
    "'n web \<Rightarrow> string \<Rightarrow> nat \<Rightarrow> graph_error fault \<Rightarrow> nat \<Rightarrow> ('n, fragment_outcome) gact \<Rightarrow> ('n, fragment_outcome) gact" where
  "unless_advanced web upload_url offset err delay again =
     act_bind (attempt (query_upload_offset web upload_url)) (\<lambda>found.
       case found of
         Inr (Some server_offset) \<Rightarrow>
           if offset < server_offset then act_return (NextOffset (Some server_offset) (Some err))
           else act_bind (sleep web delay) (\<lambda>_. again)
       | _ \<Rightarrow> act_bind (sleep web delay) (\<lambda>_. again))"

definition http_fault :: "response \<Rightarrow> graph_error fault" where
  "http_fault r = Bail (''HTTP '' @ status_text r @ '': '' @ body_text r)"

fun fragment_attempts ::
    "'n web \<Rightarrow> string \<Rightarrow> string \<Rightarrow> nat \<Rightarrow> nat \<Rightarrow> (nat \<Rightarrow> nat \<Rightarrow> ('n, unit) gact) \<Rightarrow> request \<Rightarrow> nat list \<Rightarrow>
     graph_error fault option \<Rightarrow> ('n, fragment_outcome) gact" where
  "fragment_attempts web upload_url cloud_path offset total_size progress req [] last_error =
     act_return (NextOffset None last_error)"
| "fragment_attempts web upload_url cloud_path offset total_size progress req (k # ks) last_error =
     act_bind (exchange web req) (\<lambda>answer.
       case answer of
         Inr r \<Rightarrow>
           if rs_status r = 200 \<or> rs_status r = 201 then
             act_bind (json_body drive_item r) (\<lambda>g.
             act_bind (progress total_size total_size) (\<lambda>_. at_now (\<lambda>now.
               case into_metadata_at_path (parse_rfc3339 web) now cloud_path g of
                 None \<Rightarrow> act_fail (Bail ''Graph upload session response did not include file metadata'')
               | Some entry \<Rightarrow> act_return (Uploaded entry))))
           else if rs_status r = 202 then
             act_bind (json_body upload_status r) (\<lambda>ranges.
               act_return (NextOffset (first_expected_offset ranges) last_error))
           else if rs_status r = 416 then
             act_bind (query_upload_offset web upload_url) (\<lambda>found. act_return (NextOffset found last_error))
           else if is_transient r then
             at_now (\<lambda>now.
               unless_advanced web upload_url offset (http_fault r)
                 (retry_after_delay web now r k)
                 (fragment_attempts web upload_url cloud_path offset total_size progress req ks
                    (Some (http_fault r))))
           else act_fail (Bail (''Graph upload fragment failed with HTTP '' @ status_text r @ '': '' @ body_text r))
       | Inl kind \<Rightarrow>
           unless_advanced web upload_url offset (CloudFault (RawRequest kind)) (250 * k)
             (fragment_attempts web upload_url cloud_path offset total_size progress req ks
                (Some (CloudFault (RawRequest kind)))))"

text \<open>
  seek and read_exact on the open file: the bytes of the file at the path, or those it had when
  it was opened if the path is gone.
\<close>

definition file_length :: "nat \<Rightarrow> string \<Rightarrow> 'c world \<Rightarrow> nat" where
  "file_length opened path w =
     (case w_disk w path of Some (RegularFile len _) \<Rightarrow> unat len | _ \<Rightarrow> opened)"

definition fragment_round ::
    "'n web \<Rightarrow> string \<Rightarrow> string \<Rightarrow> string \<Rightarrow> nat \<Rightarrow> nat \<Rightarrow> (nat \<Rightarrow> nat \<Rightarrow> ('n, unit) gact) \<Rightarrow> nat \<Rightarrow>
     ('n, fragment_outcome) gact" where
  "fragment_round web upload_url cloud_path source_path opened total_size progress offset =
     (let len = min (total_size - offset) upload_fragment_size in
      act_bind (read_world (file_length opened source_path)) (\<lambda>available.
        if available < offset + len then act_fail IoFault
        else fragment_attempts web upload_url cloud_path offset total_size progress
               (fragment_request upload_url source_path offset len total_size) [1, 2, 3] None))"

function session_rounds ::
    "'n web \<Rightarrow> string \<Rightarrow> string \<Rightarrow> string \<Rightarrow> nat \<Rightarrow> nat \<Rightarrow> (nat \<Rightarrow> nat \<Rightarrow> ('n, unit) gact) \<Rightarrow> nat \<Rightarrow> nat \<Rightarrow>
     'n client world \<Rightarrow> (graph_error fault + metadata_entry) \<times> 'n client world" where
  "session_rounds web upload_url cloud_path source_path opened total_size progress offset stalled w =
     (if total_size \<le> offset then (Inl (Bail ''Graph upload session ended without final file metadata''), w)
      else
        (case fragment_round web upload_url cloud_path source_path opened total_size progress offset w of
           (Inl e, w') \<Rightarrow> (Inl e, w')
         | (Inr (Uploaded entry), w') \<Rightarrow> (Inr entry, w')
         | (Inr (NextOffset None last_error), w') \<Rightarrow>
             (Inl (case last_error of None \<Rightarrow> Bail ''Graph upload fragment failed'' | Some e \<Rightarrow> e), w')
         | (Inr (NextOffset (Some next_offset) _), w') \<Rightarrow>
             if next_offset \<le> offset then
               (if 3 \<le> stalled + 1
                then (Inl (Bail ''Graph upload session did not advance after three attempts''), w')
                else session_rounds web upload_url cloud_path source_path opened total_size progress offset (stalled + 1) w')
             else
               (case progress (min next_offset total_size) total_size w' of
                  (Inl e, w'') \<Rightarrow> (Inl e, w'')
                | (Inr _, w'') \<Rightarrow>
                    session_rounds web upload_url cloud_path source_path opened total_size progress
                      (min next_offset total_size) 0 w'')))"
  by pat_completeness auto

termination
  by (relation "measures [\<lambda>(web, u, c, s, opened, total_size, p, offset, stalled, w). total_size - offset,
                          \<lambda>(web, u, c, s, opened, total_size, p, offset, stalled, w). 3 - stalled]") auto

declare session_rounds.simps [simp del]

lemma session_rounds_inv:
  assumes "\<And>offset w. P w \<Longrightarrow> P (snd (fragment_round web u c s opened t progress offset w))"
    "\<And>a b w. P w \<Longrightarrow> P (snd (progress a b w))" "P w"
  shows "P (snd (session_rounds web u c s opened t progress offset stalled w))"
  using assms
proof (induction web u c s opened t progress offset stalled w rule: session_rounds.induct)
  case (1 web u c s opened t progress offset stalled w)
  show ?case
  proof (cases "t \<le> offset")
    case True
    with 1(5) show ?thesis by (subst session_rounds.simps) simp
  next
    case False
    obtain r w1 where r: "fragment_round web u c s opened t progress offset w = (r, w1)"
      by (cases "fragment_round web u c s opened t progress offset w")
    have w1: "P w1" using 1(3)[OF 1(5), of offset] by (simp only: r snd_conv)
    have step: "P (snd (session_rounds web u c s opened t progress offset (stalled + 1) w1))"
      if "r = Inr out" "out = NextOffset found l" "found = Some n" "n \<le> offset" "\<not> 3 \<le> stalled + 1" for out found l n
      by (rule 1(1)[OF False r[symmetric] that]) (auto intro: 1(3,4) w1)
    have further: "P (snd (session_rounds web u c s opened t progress (min n t) 0 w2))"
      if "r = Inr out" "out = NextOffset found l" "found = Some n" "\<not> n \<le> offset"
        "progress (min n t) t w1 = (p, w2)" "p = Inr x" for out found l n p w2 x
      by (rule 1(2)[OF False r[symmetric] that(1-4) that(5)[symmetric] that(6)])
         (use 1(3,4) 1(4)[OF w1, of "min n t" t] that(5) in auto)
    have stop: "P w2" if "progress (min n t) t w1 = (p, w2)" for n p w2
      using 1(4)[OF w1, of "min n t" t] that by simp
    show ?thesis
      using False r w1 step further stop
      by (subst session_rounds.simps) (auto split: sum.split fragment_outcome.split option.split prod.split)
  qed
qed

text \<open>File::open of a file that can be read.\<close>

definition open_length :: "string \<Rightarrow> 'c world \<Rightarrow> nat option" where
  "open_length path w =
     (case w_disk w path of
        Some (RegularFile len a) \<Rightarrow> if a = OpenFails then None else Some (unat len)
      | _ \<Rightarrow> None)"

definition upload_session_file ::
    "'n web \<Rightarrow> string \<Rightarrow> string \<Rightarrow> string \<Rightarrow> nat \<Rightarrow> nat \<Rightarrow> (nat \<Rightarrow> nat \<Rightarrow> ('n, unit) gact) \<Rightarrow>
     ('n, metadata_entry) gact" where
  "upload_session_file web upload_url cloud_path source_path total_size initial_offset progress =
     act_bind (read_world (open_length source_path)) (\<lambda>opened.
       case opened of
         None \<Rightarrow> act_fail IoFault
       | Some len \<Rightarrow>
           let offset = min initial_offset total_size in
           act_bind (if 0 < offset then progress offset total_size else act_return ()) (\<lambda>_.
             session_rounds web upload_url cloud_path source_path len total_size progress offset 0))"

end
