(* ===== verification/GraphBackend.thy ===== *)
theory GraphBackend
  imports GraphUpload
begin

text \<open>
  crates/twodrive-backend/src/onedrive/mod.rs: the operations of OneDrive behind the trait
  CloudBackend, and the backend record they make.  A loop whose length the service decides (the
  pages of a delta, the ranges of a download) takes a bound on its rounds; the caller's progress
  callbacks are arguments.
\<close>

section \<open>Construction\<close>

text \<open>
  GraphBackend::from_paths on a read configuration: a stored token is needed; the sessions are
  those another backend of the process already shares, or those of the file.
\<close>

definition from_paths :: "config \<Rightarrow> session_map option \<Rightarrow> 'n client \<Rightarrow> graph_error fault + 'n client" where
  "from_paths config shared c =
     (case validate_graph_login config of
        Inl _ \<Rightarrow> Inl (Bail ''set graph.client_id before running login'')
      | Inr _ \<Rightarrow>
          (case cl_token_file c of
             None \<Rightarrow> Inl (Bail ''not logged in; run twodrive login first'')
           | Some token \<Rightarrow>
               Inr (c\<lparr>cl_token := token, cl_browse_retry_until := None,
                      cl_sessions := (case shared of
                          Some m \<Rightarrow> m
                        | None \<Rightarrow> (case cl_session_file c of None \<Rightarrow> Map.empty | Some m \<Rightarrow> m))\<rparr>)))"

section \<open>Metadata\<close>

abbreviation item_url :: "string \<Rightarrow> string" where
  "item_url remote_id \<equiv> graph_root @ ''/me/drive/items/'' @ remote_id"

definition optional_get :: "'n web \<Rightarrow> string \<Rightarrow> ('n, response option) gact" where
  "optional_get web url =
     retry_optional_request web (act_bind (access_token web) (\<lambda>token. act_return (graph_request GET url token)))"

definition graph_get_metadata :: "'n web \<Rightarrow> string \<Rightarrow> ('n, metadata_entry option) gact" where
  "graph_get_metadata web remote_id =
     act_bind (optional_get web (item_url remote_id)) (\<lambda>found.
       case found of
         None \<Rightarrow> act_return None
       | Some r \<Rightarrow>
           act_bind (json_body drive_item r) (\<lambda>g. at_now (\<lambda>now.
             act_return (into_metadata (parse_rfc3339 web) now g))))"

definition graph_get_metadata_by_path :: "'n web \<Rightarrow> string \<Rightarrow> ('n, metadata_entry option) gact" where
  "graph_get_metadata_by_path web given =
     (let path = normalize_cloud_path given in
      act_bind (optional_get web (graph_root @ ''/me/drive/root:/'' @ encode_graph_path path)) (\<lambda>found.
        case found of
          None \<Rightarrow> act_return None
        | Some r \<Rightarrow>
            act_bind (json_body drive_item r) (\<lambda>g. at_now (\<lambda>now.
              act_return (into_metadata_at_path (parse_rfc3339 web) now path g)))))"

text \<open>GraphDeltaResponse.\<close>

record delta_page =
  dp_value :: "drive_item list"
  dp_next_link :: "string option"
  dp_delta_link :: "string option"

definition delta_page :: "json \<Rightarrow> delta_page option" where
  "delta_page v =
     Option.bind (struct_members [''value'', ''@odata.nextLink'', ''@odata.deltaLink''] 3 v) (\<lambda>m.
     Option.bind (map_of m ''value'') (\<lambda>items.
     Option.bind (Option.bind (as_array items) (read_all drive_item)) (\<lambda>gs.
     Option.bind (optional_member as_str m ''@odata.nextLink'') (\<lambda>next_link.
     Option.bind (optional_member as_str m ''@odata.deltaLink'') (\<lambda>link.
       Some \<lparr>dp_value = gs, dp_next_link = next_link, dp_delta_link = link\<rparr>)))))"

definition add_item :: "(string \<Rightarrow> int option) \<Rightarrow> int \<Rightarrow> drive_item \<Rightarrow> delta_result \<Rightarrow> delta_result" where
  "add_item rfc3339 now g d =
     (if gi_deleted g \<noteq> None then d\<lparr>dr_deleted_remote_ids := dr_deleted_remote_ids d @ [gi_id g]\<rparr>
      else
        (case into_metadata rfc3339 now g of
           None \<Rightarrow> d | Some e \<Rightarrow> d\<lparr>dr_entries := dr_entries d @ [e]\<rparr>))"

fun delta_pages :: "'n web \<Rightarrow> nat \<Rightarrow> string \<Rightarrow> delta_result \<Rightarrow> ('n, delta_result) gact" where
  "delta_pages web 0 url d = act_fail (Bail ''more delta pages than the bound'')"
| "delta_pages web (Suc n) url d =
     act_bind (get_with_retry web url) (\<lambda>r.
     act_bind (json_body delta_page r) (\<lambda>page. at_now (\<lambda>now.
       let d = fold (add_item (parse_rfc3339 web) now) (dp_value page) d in
       case dp_next_link page of
         Some next_url \<Rightarrow> delta_pages web n next_url d
       | None \<Rightarrow> act_return (d\<lparr>dr_delta_link := dp_delta_link page\<rparr>))))"

definition empty_delta :: delta_result where
  "empty_delta = \<lparr>dr_entries = [], dr_deleted_remote_ids = [], dr_delta_link = None\<rparr>"

definition graph_list_delta :: "'n web \<Rightarrow> nat \<Rightarrow> string option \<Rightarrow> ('n, delta_result) gact" where
  "graph_list_delta web bound link =
     delta_pages web bound
       (case link of None \<Rightarrow> graph_root @ ''/me/drive/root/delta'' | Some l \<Rightarrow> l) empty_delta"

definition graph_list_all :: "'n web \<Rightarrow> nat \<Rightarrow> ('n, metadata_entry list) gact" where
  "graph_list_all web bound = act_bind (graph_list_delta web bound None) (\<lambda>d. act_return (dr_entries d))"

section \<open>Downloads\<close>

text \<open>
  write_all on the target: more bytes at its end.  The file may be gone from its path; the
  outcome of the write is the web's.
\<close>

definition append_bytes :: "string \<Rightarrow> nat \<Rightarrow> 'c world \<Rightarrow> 'c world" where
  "append_bytes path n w =
     (case w_disk w path of
        Some (RegularFile len a) \<Rightarrow> w\<lparr>w_disk := (w_disk w)(path \<mapsto> RegularFile (len + of_nat n) a)\<rparr>
      | _ \<Rightarrow> w)"

definition write_all :: "'n web \<Rightarrow> string \<Rightarrow> nat \<Rightarrow> ('n, unit) gact" where
  "write_all web path n w =
     (case write_bytes web path n w of
        (False, w') \<Rightarrow> (Inl IoFault, w')
      | (True, w') \<Rightarrow> (Inr (), append_bytes path n w'))"

text \<open>The reads of one ranged response, with the bytes done so far; a read of nothing ends it.\<close>

fun copy_chunks ::
    "'n web \<Rightarrow> string \<Rightarrow> nat \<Rightarrow> (nat \<Rightarrow> ('n, unit) gact) \<Rightarrow> transport_kind option \<Rightarrow> nat list \<Rightarrow> nat \<Rightarrow>
     ('n, nat) gact" where
  "copy_chunks web target sz progress broken [] bytes_done =
     act_bind (progress bytes_done) (\<lambda>_. if broken = None then act_return bytes_done else act_fail IoFault)"
| "copy_chunks web target sz progress broken (n # ns) bytes_done =
     act_bind (progress bytes_done) (\<lambda>_.
       if n = 0 then act_return bytes_done
       else
         act_bind (write_all web target n) (\<lambda>_.
         act_bind (progress (bytes_done + n)) (\<lambda>_.
           if sz \<le> bytes_done + n then act_return (bytes_done + n)
           else copy_chunks web target sz progress broken ns (bytes_done + n))))"

abbreviation range_chunk :: nat where
  "range_chunk \<equiv> 4194304"

fun download_rounds ::
    "'n web \<Rightarrow> nat \<Rightarrow> string \<Rightarrow> string \<Rightarrow> nat \<Rightarrow> (nat \<Rightarrow> ('n, unit) gact) \<Rightarrow> nat \<Rightarrow> ('n, nat) gact" where
  "download_rounds web bound url target sz progress bytes_done =
     (if sz \<le> bytes_done then act_return bytes_done
      else
        (case bound of
           0 \<Rightarrow> act_fail (Bail ''more download rounds than the bound'')
         | Suc n \<Rightarrow>
             act_bind (get_range_with_retry web url bytes_done (min (bytes_done + range_chunk - 1) (sz - 1))
                         (progress bytes_done)) (\<lambda>r.
             act_bind (copy_chunks web target sz progress (rs_break r) (rs_chunks r) bytes_done) (\<lambda>now_done.
               download_rounds web n url target sz progress now_done))))"

declare download_rounds.simps [simp del]

definition graph_download_sized_to ::
    "'n web \<Rightarrow> nat \<Rightarrow> (nat \<Rightarrow> ('n, unit) gact) \<Rightarrow> string \<Rightarrow> u64 \<Rightarrow> string \<Rightarrow> ('n, u64) gact" where
  "graph_download_sized_to web bound progress remote_id sz target =
     (if sz = 0 then act_return 0
      else
        act_bind (download_rounds web bound (item_url remote_id @ ''/content'') target (unat sz) progress 0) (\<lambda>n.
          act_return (of_nat n)))"

section \<open>Uploads\<close>

text \<open>fs::metadata, and fs::read of a whole file.\<close>

definition metadata_length :: "string \<Rightarrow> 'c world \<Rightarrow> nat option" where
  "metadata_length path w =
     (case w_disk w path of None \<Rightarrow> None | Some Faulty \<Rightarrow> None | Some n \<Rightarrow> Some (unat (node_len n)))"

definition modified_seconds :: "string \<Rightarrow> 'c world \<Rightarrow> int" where
  "modified_seconds path w = (case w_mtime w path of None \<Rightarrow> 0 | Some t \<Rightarrow> sint t)"

definition create_session_request :: "string \<Rightarrow> string \<Rightarrow> string option \<Rightarrow> request" where
  "create_session_request url token if_match =
     with_if_match if_match ((graph_request POST url token)\<lparr>rq_body := JsonBody upload_session_request_body\<rparr>)"

definition start_upload_session ::
    "'n web \<Rightarrow> string \<Rightarrow> string \<Rightarrow> nat \<Rightarrow> int \<Rightarrow> string option \<Rightarrow> string option \<Rightarrow> ('n, string \<times> nat) gact" where
  "start_upload_session web key path sz modified remote_id if_match =
     act_bind (attempt (remove_upload_session web key)) (\<lambda>_.
     act_bind (access_token web) (\<lambda>token.
     act_bind (from_result (split_cloud_parent_name path)) (\<lambda>(parent_path, name).
     act_bind (if remote_id \<noteq> None then act_return None
               else act_bind (get_with_retry web (graph_parent_lookup_url parent_path)) (\<lambda>r.
                    act_bind (json_body drive_item r) (\<lambda>g. act_return (Some (gi_id g))))) (\<lambda>parent_id.
     act_bind (from_result (upload_session_create_url remote_id parent_id name)) (\<lambda>url.
     act_bind (retry_request web (create_session_request url token if_match)) (\<lambda>r.
     act_bind (json_body upload_session_url r) (\<lambda>upload_url.
     act_bind (save_upload_session web key
         \<lparr>us_upload_url = upload_url, us_source_size = sz, us_source_modified_unix = modified,
          us_remote_id = remote_id, us_if_match = if_match\<rparr>) (\<lambda>_.
       act_return (upload_url, 0)))))))))"

definition resume_upload_session :: "'n web \<Rightarrow> persisted_upload_session option \<Rightarrow> nat \<Rightarrow> ('n, (string \<times> nat) option) gact" where
  "resume_upload_session web persisted sz =
     (case persisted of
        None \<Rightarrow> act_return None
      | Some s \<Rightarrow>
          act_bind (query_upload_offset web (us_upload_url s)) (\<lambda>found.
            act_return (case found of
                None \<Rightarrow> None
              | Some offset \<Rightarrow> if offset < sz then Some (us_upload_url s, offset) else None)))"

definition simple_upload ::
    "'n web \<Rightarrow> string \<Rightarrow> string \<Rightarrow> string option \<Rightarrow> string option \<Rightarrow> nat \<Rightarrow> (nat \<Rightarrow> nat \<Rightarrow> ('n, unit) gact) \<Rightarrow>
     ('n, metadata_entry) gact" where
  "simple_upload web path source_path remote_id if_match sz progress =
     act_bind (access_token web) (\<lambda>token.
     act_bind (read_world (open_length source_path)) (\<lambda>content.
       case content of
         None \<Rightarrow> act_fail IoFault
       | Some len \<Rightarrow>
           act_bind (retry_request web (upload_request (simple_upload_url path remote_id) token if_match
                       (FileBody source_path 0 len))) (\<lambda>r.
           act_bind (entry_or web path ''Graph upload response did not include file metadata'' r) (\<lambda>entry.
           act_bind (progress sz sz) (\<lambda>_. act_return entry)))))"

definition session_upload ::
    "'n web \<Rightarrow> string \<Rightarrow> string \<Rightarrow> string option \<Rightarrow> string option \<Rightarrow> nat \<Rightarrow> int \<Rightarrow> (nat \<Rightarrow> nat \<Rightarrow> ('n, unit) gact) \<Rightarrow>
     ('n, metadata_entry) gact" where
  "session_upload web path source_path remote_id if_match sz modified progress =
     (let key = normalize_cloud_path path in
      act_bind (matching_upload_session key sz modified remote_id if_match) (\<lambda>persisted.
      act_bind (resume_upload_session web persisted sz) (\<lambda>resumed.
      act_bind (case resumed of
          Some found \<Rightarrow> act_return found
        | None \<Rightarrow> start_upload_session web key path sz modified remote_id if_match) (\<lambda>(upload_url, offset).
      act_bind (upload_session_file web upload_url path source_path sz offset progress) (\<lambda>entry.
      act_bind (attempt (remove_upload_session web key)) (\<lambda>_. act_return entry))))))"

definition graph_upload_file_with_version ::
    "'n web \<Rightarrow> (nat \<Rightarrow> nat \<Rightarrow> ('n, unit) gact) \<Rightarrow> string \<Rightarrow> string \<Rightarrow> string option \<Rightarrow> string option \<Rightarrow>
     ('n, metadata_entry) gact" where
  "graph_upload_file_with_version web progress path source_path remote_id if_match =
     act_bind (from_result (validate_graph_file_path path)) (\<lambda>_.
     act_bind (read_world (\<lambda>w. (metadata_length source_path w, modified_seconds source_path w))) (\<lambda>(found, modified).
       case found of
         None \<Rightarrow> act_fail IoFault
       | Some sz \<Rightarrow>
           if \<not> uses_upload_session sz then simple_upload web path source_path remote_id if_match sz progress
           else session_upload web path source_path remote_id if_match sz modified progress))"

definition graph_upload_with_etag :: "'n web \<Rightarrow> string \<Rightarrow> nat \<Rightarrow> string option \<Rightarrow> ('n, metadata_entry) gact" where
  "graph_upload_with_etag web path len if_match =
     act_bind (from_result (validate_graph_file_path path)) (\<lambda>_.
     act_bind (access_token web) (\<lambda>token.
     act_bind (retry_request web (upload_request (simple_upload_url path None) token if_match (Bytes len))) (\<lambda>r.
       entry_or web path ''Graph upload response did not include file metadata'' r)))"

definition graph_upload :: "'n web \<Rightarrow> string \<Rightarrow> nat \<Rightarrow> ('n, metadata_entry) gact" where
  "graph_upload web path len =
     act_bind (from_result (validate_graph_file_path path)) (\<lambda>_.
     act_bind (access_token web) (\<lambda>token.
     act_bind (retry_request web (upload_request (simple_upload_url path None) token None (Bytes len))) (\<lambda>r.
       entry_or web path ''Graph upload response did not include file metadata'' r)))"

section \<open>Changes\<close>

definition graph_create_folder :: "'n web \<Rightarrow> string \<Rightarrow> ('n, metadata_entry) gact" where
  "graph_create_folder web path =
     act_bind (from_result (validate_graph_file_path path)) (\<lambda>_.
     act_bind (access_token web) (\<lambda>token.
     act_bind (from_result (split_cloud_parent_name path)) (\<lambda>(parent_path, name).
     let url = (if parent_path = ''/'' then graph_root @ ''/me/drive/root/children''
                else graph_root @ ''/me/drive/root:/'' @ encode_graph_path parent_path @ '':/children'');
         content = JObject [(''name'', JString name), (''folder'', JObject []),
                            (''@microsoft.graph.conflictBehavior'', JString ''fail'')] in
     act_bind (retry_request web ((graph_request POST url token)\<lparr>rq_body := JsonBody content\<rparr>)) (\<lambda>r.
       entry_or web path ''Graph create folder response did not include metadata'' r))))"

definition graph_rename :: "'n web \<Rightarrow> string \<Rightarrow> string \<Rightarrow> ('n, metadata_entry) gact" where
  "graph_rename web remote_id new_path =
     act_bind (from_result (validate_graph_file_path new_path)) (\<lambda>_.
     act_bind (access_token web) (\<lambda>token.
     act_bind (from_result (split_cloud_parent_name new_path)) (\<lambda>(parent_path, name).
     act_bind (get_with_retry web (graph_parent_lookup_url parent_path)) (\<lambda>r.
     act_bind (json_body drive_item r) (\<lambda>parent.
     let content = JObject [(''name'', JString name),
                            (''parentReference'', JObject [(''id'', JString (gi_id parent))])] in
     act_bind (retry_request web ((graph_request PATCH (item_url remote_id) token)\<lparr>rq_body := JsonBody content\<rparr>)) (\<lambda>r.
       entry_or web new_path ''Graph rename response did not include metadata'' r))))))"

definition graph_delete :: "'n web \<Rightarrow> string \<Rightarrow> ('n, unit) gact" where
  "graph_delete web remote_id =
     act_bind (retry_optional_request_named web DriveItemDelete
         (act_bind (access_token web) (\<lambda>token. act_return (graph_request DELETE (item_url remote_id) token)))) (\<lambda>_.
       act_return ())"

section \<open>The backend\<close>

definition fault_text :: "graph_error fault \<Rightarrow> string" where
  "fault_text err =
     (case err of
        CloudFault (Refused f) \<Rightarrow> failure_text f
      | CloudFault (NoResponse f) \<Rightarrow> transport_text f
      | Bail s \<Rightarrow> s
      | _ \<Rightarrow> [])"

definition graph_is_conflict_error :: "graph_error fault \<Rightarrow> bool" where
  "graph_is_conflict_error err =
     (contains_text ''HTTP 412'' (fault_text err) \<or> contains_text ''Precondition Failed'' (fault_text err))"

definition graph_failure_info :: "graph_error fault \<Rightarrow> request_failure option" where
  "graph_failure_info err = (case err of CloudFault (Refused f) \<Rightarrow> Some f | _ \<Rightarrow> None)"

definition graph_bad_name :: "graph_error fault \<Rightarrow> bool" where
  "graph_bad_name err = contains_text ''unsupported OneDrive file name'' (fault_text err)"

text \<open>impl CloudBackend for GraphBackend.\<close>

definition onedrive ::
    "'n web \<Rightarrow> nat \<Rightarrow> (nat \<Rightarrow> ('n, unit) gact) \<Rightarrow> (nat \<Rightarrow> nat \<Rightarrow> ('n, unit) gact) \<Rightarrow>
     (graph_error fault, 'n client) backend" where
  "onedrive web bound downloading uploading =
     \<lparr>list_all = graph_list_all web bound, list_delta = graph_list_delta web bound,
      get_metadata = graph_get_metadata web, get_metadata_by_path = graph_get_metadata_by_path web,
      download_sized_to = graph_download_sized_to web bound downloading,
      upload_file_with_version = graph_upload_file_with_version web uploading,
      create_folder = graph_create_folder web, rename_item = graph_rename web,
      delete_item = graph_delete web, is_conflict_error = graph_is_conflict_error,
      failure_info = graph_failure_info, bad_name = graph_bad_name\<rparr>"

section \<open>Two oddities\<close>

text \<open>The error of an unacceptable name quotes the name, so a name can make it look like a conflict.\<close>

lemma name_taken_for_conflict:
  "case validate_graph_file_path ''/HTTP 412?'' of
     Inl err \<Rightarrow> graph_is_conflict_error err \<and> graph_bad_name err | Inr _ \<Rightarrow> False"
  by code_simp

end
