(* ===== verification/GraphTrace.thy ===== *)
theory GraphTrace
  imports GraphUpload
begin

text \<open>
  What an action sends.  does T m says that every run of m extends the log by exchanges that T
  accepts together with its result; the rules follow the structure of the code.  With them: a
  request is repeated only after a transient failure, and the fragments of an upload follow the
  offsets the service announces.
\<close>

type_synonym trace = "(request \<times> (transport_kind + response)) list"

abbreviation log_of :: "'n client world \<Rightarrow> trace" where
  "log_of w \<equiv> cl_log (w_cloud w)"

definition does :: "(trace \<Rightarrow> graph_error fault + 'a \<Rightarrow> bool) \<Rightarrow> ('n, 'a) gact \<Rightarrow> bool" where
  "does T m = (\<forall>w. \<exists>xs. log_of (snd (m w)) = log_of w @ xs \<and> T xs (fst (m w)))"

text \<open>The log is the calling thread's own: nothing else writes to it.\<close>

definition quiet :: "'n web \<Rightarrow> bool" where
  "quiet web =
     ((\<forall>req w. log_of (snd (send web req w)) = log_of w) \<and> (\<forall>n w. log_of (pause web n w) = log_of w) \<and>
      (\<forall>f w. log_of (snd (save_file web f w)) = log_of w) \<and>
      (\<forall>p n w. log_of (snd (write_bytes web p n w)) = log_of w))"

definition silent :: "('n, 'a) gact \<Rightarrow> bool" where
  "silent m = (\<forall>w. log_of (snd (m w)) = log_of w)"

lemma doesD: "does T m \<Longrightarrow> m w = (r, w') \<Longrightarrow> \<exists>xs. log_of w' = log_of w @ xs \<and> T xs r"
  unfolding does_def by (metis fst_conv snd_conv)

lemma does_mono: "does T m \<Longrightarrow> (\<And>xs r. T xs r \<Longrightarrow> T' xs r) \<Longrightarrow> does T' m"
  unfolding does_def by blast

lemma does_silent: "silent m \<Longrightarrow> (\<And>r. T [] r) \<Longrightarrow> does T m"
  by (auto simp: does_def silent_def)

lemma does_return: "T [] (Inr a) \<Longrightarrow> does T (act_return a)"
  by (auto simp: does_def act_return_def)

lemma does_fail: "T [] (Inl e) \<Longrightarrow> does T (act_fail e)"
  by (auto simp: does_def act_fail_def)

lemma does_bind:
  assumes "does S m" "\<And>xs e. S xs (Inl e) \<Longrightarrow> T xs (Inl e)"
    and "\<And>xs a. S xs (Inr a) \<Longrightarrow> does (\<lambda>ys r. T (xs @ ys) r) (k a)"
  shows "does T (act_bind m k)"
proof (unfold does_def, intro allI)
  fix w
  obtain r w1 where r: "m w = (r, w1)" by (cases "m w")
  then obtain xs where xs: "log_of w1 = log_of w @ xs" "S xs r" using doesD[OF assms(1)] by blast
  show "\<exists>ys. log_of (snd (act_bind m k w)) = log_of w @ ys \<and> T ys (fst (act_bind m k w))"
  proof (cases r)
    case (Inl e)
    with r xs assms(2) show ?thesis by (auto simp: act_bind_def)
  next
    case (Inr a)
    with xs assms(3)[of xs a] obtain ys where "log_of (snd (k a w1)) = log_of w1 @ ys" "T (xs @ ys) (fst (k a w1))"
      unfolding does_def by blast
    with r xs Inr show ?thesis by (auto simp: act_bind_def)
  qed
qed

lemma does_silent_bind:
  "silent m \<Longrightarrow> (\<And>e. T [] (Inl e)) \<Longrightarrow> (\<And>a. does T (k a)) \<Longrightarrow> does T (act_bind m k)"
  by (rule does_bind[where S = "\<lambda>xs _. xs = []"]) (auto simp: does_silent)

lemma does_exchange: "quiet web \<Longrightarrow> (\<And>answer. T [(req, answer)] (Inr answer)) \<Longrightarrow> does T (exchange web req)"
  by (auto simp: does_def quiet_def exchange_def note_exchange_def split: prod.split)
     (metis snd_conv)

lemma does_attempt: "does S m \<Longrightarrow> (\<And>xs r. S xs r \<Longrightarrow> T xs (Inr r)) \<Longrightarrow> does T (attempt m)"
  by (simp add: does_def attempt_def split: prod.split) (metis fst_conv snd_conv)

lemma does_exchange_bind:
  "quiet web \<Longrightarrow> (\<And>answer. does (\<lambda>ys. T ((req, answer) # ys)) (k answer)) \<Longrightarrow> does T (act_bind (exchange web req) k)"
  by (rule does_bind[OF does_exchange[where T = "\<lambda>xs r. \<exists>answer. xs = [(req, answer)] \<and> r = Inr answer"]]) auto

lemma does_sum:
  "(\<And>a. x = Inl a \<Longrightarrow> does T (m a)) \<Longrightarrow> (\<And>b. x = Inr b \<Longrightarrow> does T (n b)) \<Longrightarrow>
   does T (case x of Inl a \<Rightarrow> m a | Inr b \<Rightarrow> n b)"
  by (cases x) auto

lemma does_now: "(\<And>n. does T (f n)) \<Longrightarrow> does T (at_now f)"
  by (simp add: does_def at_now_def)

lemma does_if: "(b \<Longrightarrow> does T m) \<Longrightarrow> (\<not> b \<Longrightarrow> does T n) \<Longrightarrow> does T (if b then m else n)"
  by simp

named_theorems silent_intros \<open>actions that send nothing\<close>

lemma silent_basic [silent_intros]:
  "silent (act_return a)" "silent (act_fail e)" "silent (client f)" "silent (read_world g)" "silent (from_result r)"
  "silent (read_db h)"
  by (simp_all add: silent_def act_return_def act_fail_def client_def read_world_def from_result_def read_db_def)

lemma silent_bind [silent_intros]: "silent m \<Longrightarrow> (\<And>a. silent (k a)) \<Longrightarrow> silent (act_bind m k)"
  by (simp add: silent_def act_bind_def split: prod.split sum.split) (metis snd_conv)

lemma silent_json_body [silent_intros]: "silent (json_body f r)"
  by (auto simp: json_body_def silent_intros split: option.splits)

lemma silent_now [silent_intros]: "(\<And>n. silent (f n)) \<Longrightarrow> silent (at_now f)"
  by (simp add: silent_def at_now_def)

lemma silent_delay: "quiet web \<Longrightarrow> silent chk \<Longrightarrow> silent (checked_delay web delay chk)"
  unfolding silent_def checked_delay_def
proof
  fix w
  assume "quiet web" "\<forall>w. log_of (snd (chk w)) = log_of w"
  then show "log_of (snd (delay_rounds web chk (cl_instant (w_cloud w)) delay 0 w)) = log_of w"
    by (intro delay_rounds_inv[of "\<lambda>v. log_of v = log_of w"]) (simp_all add: quiet_def)
qed

lemma silent_sleep: "quiet web \<Longrightarrow> silent (sleep web delay)"
  by (simp add: silent_def sleep_def quiet_def)

section \<open>Repeated requests\<close>

definition transient_answer :: "transport_kind + response \<Rightarrow> bool" where
  "transient_answer answer = (case answer of Inl _ \<Rightarrow> True | Inr r \<Rightarrow> is_transient r)"

text \<open>The exchanges of one request that is tried a number of times, and what they come to.\<close>

definition retried ::
    "request \<Rightarrow> request_operation \<Rightarrow> bool \<Rightarrow> nat \<Rightarrow> trace \<Rightarrow> graph_error fault + response option \<Rightarrow> bool" where
  "retried req operation optional n xs result =
     (length xs \<le> n \<and> (\<forall>(q, answer)\<in>set xs. q = req) \<and>
      (\<forall>(q, answer)\<in>set (butlast xs). transient_answer answer) \<and>
      (case result of
         Inr (Some r) \<Rightarrow> xs \<noteq> [] \<and> snd (last xs) = Inr r \<and> is_success r
       | Inr None \<Rightarrow> optional \<and> (\<exists>r. xs \<noteq> [] \<and> snd (last xs) = Inr r \<and> rs_status r = 404)
       | Inl err \<Rightarrow>
           (\<forall>r. xs \<noteq> [] \<and> snd (last xs) = Inr r \<and> \<not> is_transient r \<longrightarrow>
              (\<exists>f. err = CloudFault (Refused f) \<and> rf_status f = rs_status r \<and> rf_operation f = operation))))"

lemma inner_errors_status [simp]:
  "rf_status (inner_errors n error f) = rf_status f" "rf_operation (inner_errors n error f) = rf_operation f"
  by (induction n error f rule: inner_errors.induct) (simp_all add: Let_def split: option.split)

lemma response_failure_status [simp]:
  "rf_status (response_failure p r operation d) = rs_status r"
  "rf_operation (response_failure p r operation d) = operation"
  by (simp_all add: response_failure_def failure_body_def new_failure_def Let_def split: option.split)

lemma retried_Cons:
  "transient_answer answer \<Longrightarrow> retried req operation optional n ys r \<Longrightarrow> retried req operation optional (Suc n) ((req, answer) # ys) r"
  by (auto simp: retried_def transient_answer_def split: sum.splits option.splits)

lemma does_retry:
  assumes "quiet web" "silent chk"
  shows "does (retried req operation optional (length ks)) (retry_attempts web operation (act_return req) chk optional ks last_error)"
proof (induction ks arbitrary: last_error)
  case Nil
  show ?case by (simp add: does_fail retried_def)
next
  case (Cons k ks)
  have build: "map_fault (build_fault operation) (act_return req) = act_return req"
    by (rule ext) (simp add: map_fault_def act_return_def)
  have again: "does (\<lambda>ys. retried req operation optional (Suc (length ks)) ((req, answer) # ys))
      (act_bind (checked_delay web delay chk) (\<lambda>_. retry_attempts web operation (act_return req) chk optional ks err))"
    if "transient_answer answer" for answer delay err
  proof (rule does_silent_bind[OF silent_delay[OF assms]])
    show "retried req operation optional (Suc (length ks)) [(req, answer)] (Inl e)" for e
      using that by (auto simp: retried_def transient_answer_def)
    show "does (\<lambda>ys. retried req operation optional (Suc (length ks)) ((req, answer) # ys))
      (retry_attempts web operation (act_return req) chk optional ks err)"
      using Cons.IH by (rule does_mono) (rule retried_Cons[OF that])
  qed
  have step: "does (retried req operation optional (Suc (length ks))) (act_bind (exchange web req) (\<lambda>answer. k' answer))"
    if "\<And>answer. does (\<lambda>ys. retried req operation optional (Suc (length ks)) ((req, answer) # ys)) (k' answer)" for k'
    by (rule does_exchange_bind[OF assms(1) that])
  show ?case
    unfolding retry_attempts.simps build act_simps list.size add_0_right add_Suc_right Let_def
    by (rule does_silent_bind[OF assms(2)], simp add: retried_def, rule step,
        intro does_sum does_if does_return does_now does_fail again)
       (auto simp: retried_def transient_answer_def)
qed

section \<open>The offsets of an upload\<close>

text \<open>
  The service answers a fragment or a status query with the ranges it still expects.  The offset
  a client may send from is the start, moved by every announcement that is further.
\<close>

definition announced :: "transport_kind + response \<Rightarrow> nat option" where
  "announced answer =
     (case answer of
        Inl _ \<Rightarrow> None
      | Inr r \<Rightarrow>
          if is_success r \<and> rs_break r = None
          then (case Option.bind (rs_json r) upload_status of
                  None \<Rightarrow> None | Some ranges \<Rightarrow> first_expected_offset ranges)
          else None)"

definition moved :: "nat \<Rightarrow> nat \<Rightarrow> transport_kind + response \<Rightarrow> nat" where
  "moved total_size offset answer =
     (case announced answer of None \<Rightarrow> offset | Some n \<Rightarrow> max offset (min n total_size))"

definition next_fragment :: "string \<Rightarrow> string \<Rightarrow> nat \<Rightarrow> nat \<Rightarrow> request" where
  "next_fragment upload_url source_path total_size offset =
     fragment_request upload_url source_path offset (min (total_size - offset) upload_fragment_size) total_size"

text \<open>
  A conforming client: it asks for the status, or sends the fragment at the current offset while
  the file is not complete.
\<close>

fun conforms :: "string \<Rightarrow> string \<Rightarrow> nat \<Rightarrow> nat \<Rightarrow> trace \<Rightarrow> bool" where
  "conforms upload_url source_path total_size offset [] = True"
| "conforms upload_url source_path total_size offset ((req, answer) # xs) =
     ((req = plain_request GET upload_url \<or>
       (offset < total_size \<and> req = next_fragment upload_url source_path total_size offset)) \<and>
      conforms upload_url source_path total_size (moved total_size offset answer) xs)"

definition offset_after :: "nat \<Rightarrow> nat \<Rightarrow> trace \<Rightarrow> nat" where
  "offset_after total_size offset xs = foldl (\<lambda>n (_, answer). moved total_size n answer) offset xs"

lemma conforms_append:
  "conforms u s t offset (xs @ ys) = (conforms u s t offset xs \<and> conforms u s t (offset_after t offset xs) ys)"
  by (induction u s t offset xs rule: conforms.induct) (auto simp: offset_after_def)

lemma offset_after_simps [simp]:
  "offset_after t offset [] = offset"
  "offset_after t offset ((req, answer) # xs) = offset_after t (moved t offset answer) xs"
  "offset_after t offset (xs @ ys) = offset_after t (offset_after t offset xs) ys"
  by (simp_all add: offset_after_def)

definition complete_answer :: "transport_kind + response \<Rightarrow> bool" where
  "complete_answer answer = (case answer of Inl _ \<Rightarrow> False | Inr r \<Rightarrow> rs_status r = 200 \<or> rs_status r = 201)"

text \<open>What the attempts for one fragment, and the whole session, may send and answer.\<close>

definition fragment_trace ::
    "string \<Rightarrow> string \<Rightarrow> string \<Rightarrow> nat \<Rightarrow> nat \<Rightarrow> trace \<Rightarrow> graph_error fault + fragment_outcome \<Rightarrow> bool" where
  "fragment_trace u s cloud_path t offset xs result =
     (conforms u s t offset xs \<and>
      (case result of
         Inr (Uploaded entry) \<Rightarrow>
           xs \<noteq> [] \<and> complete_answer (snd (last xs)) \<and> (\<exists>n<t. fst (last xs) = next_fragment u s t n) \<and>
           m_path entry = normalize_cloud_path (normalize_cloud_path cloud_path)
       | Inr (NextOffset (Some n) _) \<Rightarrow> offset_after t offset xs = max offset (min n t)
       | _ \<Rightarrow> True))"

definition session_trace ::
    "string \<Rightarrow> string \<Rightarrow> string \<Rightarrow> nat \<Rightarrow> nat \<Rightarrow> trace \<Rightarrow> graph_error fault + metadata_entry \<Rightarrow> bool" where
  "session_trace u s cloud_path t offset xs result =
     (conforms u s t offset xs \<and>
      (\<forall>entry. result = Inr entry \<longrightarrow>
         xs \<noteq> [] \<and> complete_answer (snd (last xs)) \<and> (\<exists>n<t. fst (last xs) = next_fragment u s t n) \<and>
         m_path entry = normalize_cloud_path (normalize_cloud_path cloud_path)))"

lemma does_query:
  assumes "quiet web"
  shows "does (\<lambda>xs r. \<exists>answer. xs = [(plain_request GET u, answer)] \<and>
           announced answer = (case r of Inr found \<Rightarrow> found | Inl _ \<Rightarrow> None)) (query_upload_offset web u)"
  unfolding query_upload_offset_def
proof (rule does_exchange_bind[OF assms])
  fix answer
  let ?T = "\<lambda>ys r. \<exists>a. (plain_request GET u, answer) # ys = [(plain_request GET u, a)] \<and>
      announced a = (case r of Inr found \<Rightarrow> found | Inl _ \<Rightarrow> None)"
  show "does ?T (case answer of Inl kind \<Rightarrow> act_fail (CloudFault (RawRequest kind))
      | Inr r \<Rightarrow> if rs_status r = 404 \<or> rs_status r = 410 then act_return None
          else if \<not> is_success r then act_fail (Bail (''Graph upload status request failed with HTTP '' @ status_text r))
          else act_bind (json_body upload_status r) (\<lambda>ranges. act_return (first_expected_offset ranges)))"
  proof (cases answer)
    case (Inl kind)
    then show ?thesis by (simp add: does_fail announced_def)
  next
    case (Inr r)
    consider "rs_status r = 404 \<or> rs_status r = 410" | "rs_status r \<noteq> 404 \<and> rs_status r \<noteq> 410" "\<not> is_success r"
      | "rs_status r \<noteq> 404 \<and> rs_status r \<noteq> 410" "is_success r" by blast
    then show ?thesis
    proof cases
      case 1
      then have "\<not> is_success r" by (auto simp: is_success_def)
      with 1 Inr show ?thesis by (auto intro!: does_return simp: announced_def)
    next
      case 2
      with Inr show ?thesis by (auto intro!: does_fail simp: announced_def)
    next
      case 3
      show ?thesis
      proof (cases "rs_break r = None \<and> Option.bind (rs_json r) upload_status \<noteq> None")
        case True
        with 3 Inr show ?thesis by (auto intro!: does_return simp: announced_def json_body_def)
      next
        case False
        with 3 Inr show ?thesis
          by (auto intro!: does_fail simp: announced_def json_body_def split: option.splits Option.bind_splits)
      qed
    qed
  qed
qed

lemma entry_path:
  "into_metadata_at_path p now path g = Some entry \<Longrightarrow> m_path entry = normalize_cloud_path (normalize_cloud_path path)"
  by (auto simp: into_metadata_at_path_def entry_at_def new_dir_def new_file_def new_entry_def Let_def
           split: if_splits)

lemma not_announced: "\<not> is_success r \<Longrightarrow> moved t offset (Inr r) = offset"
  by (simp add: moved_def announced_def)

lemma transient_not_success: "is_transient r \<Longrightarrow> \<not> is_success r"
  using order.trans[of 500 "rs_status r" 299]
  by (auto simp: is_transient_def is_success_def is_server_error_def)

lemma does_unless_advanced:
  assumes "quiet web" "does (fragment_trace u s c t offset) again" "offset < t"
  shows "does (fragment_trace u s c t offset) (unless_advanced web u offset err delay again)"
  unfolding unless_advanced_def
proof (rule does_bind[OF does_attempt[OF does_query[OF assms(1)], where T = "\<lambda>xs r. \<exists>answer found.
      xs = [(plain_request GET u, answer)] \<and> r = Inr found \<and>
      announced answer = (case found of Inr n \<Rightarrow> n | Inl _ \<Rightarrow> None)"]])
  fix xs and found :: "graph_error fault + nat option"
  assume "\<exists>answer f. xs = [(plain_request GET u, answer)] \<and> (Inr found :: graph_error fault + _) = Inr f \<and>
      announced answer = (case f of Inr n \<Rightarrow> n | Inl _ \<Rightarrow> None)"
  then obtain answer where xs: "xs = [(plain_request GET u, answer)]"
    and a: "announced answer = (case found of Inr n \<Rightarrow> n | Inl _ \<Rightarrow> None)" by auto
  have waits: "does (\<lambda>ys. fragment_trace u s c t offset (xs @ ys)) (act_bind (sleep web delay) (\<lambda>_. again))"
    if "moved t offset answer = offset"
  proof (rule does_silent_bind[OF silent_sleep[OF assms(1)]])
    show "fragment_trace u s c t offset (xs @ []) (Inl e)" for e by (simp add: fragment_trace_def xs)
    show "does (\<lambda>ys. fragment_trace u s c t offset (xs @ ys)) again"
      using assms(2) by (rule does_mono)
        (auto simp: fragment_trace_def xs that split: sum.splits fragment_outcome.splits option.splits)
  qed
  show "does (\<lambda>ys. fragment_trace u s c t offset (xs @ ys)) (case found of
       Inr (Some server_offset) \<Rightarrow> if offset < server_offset then act_return (NextOffset (Some server_offset) (Some err))
         else act_bind (sleep web delay) (\<lambda>_. again)
     | _ \<Rightarrow> act_bind (sleep web delay) (\<lambda>_. again))"
  proof (cases "\<exists>n. found = Inr (Some n) \<and> offset < n")
    case True
    then show ?thesis using a by (auto intro!: does_return simp: fragment_trace_def xs moved_def)
  next
    case False
    have "moved t offset answer = offset"
      using a False assms(3) by (auto simp: moved_def split: sum.splits option.splits)
    from waits[OF this] False show ?thesis by (auto split: sum.split option.split)
  qed
qed auto

lemma does_fragment_attempts:
  assumes "quiet web" "\<And>a b. silent (progress a b)" "offset < t" "req = next_fragment u s t offset"
  shows "does (fragment_trace u s c t offset) (fragment_attempts web u c offset t progress req ks last_error)"
proof (induction ks arbitrary: last_error)
  case Nil
  show ?case by (simp add: does_return fragment_trace_def)
next
  case (Cons k ks)
  have prepend: "does (\<lambda>ys. fragment_trace u s c t offset ((req, answer) # ys)) m"
    if "does (fragment_trace u s c t offset) m" "moved t offset answer = offset" for m answer
    using that(1) by (rule does_mono)
      (auto simp: fragment_trace_def that(2) assms split: sum.splits fragment_outcome.splits option.splits)
  have again: "does (\<lambda>ys. fragment_trace u s c t offset ((req, answer) # ys))
      (unless_advanced web u offset err delay (fragment_attempts web u c offset t progress req ks l))"
    if "moved t offset answer = offset" for answer err delay l
    by (rule prepend[OF does_unless_advanced[OF assms(1) Cons.IH assms(3)] that])
  show ?case
    unfolding fragment_attempts.simps
  proof (rule does_exchange_bind[OF assms(1)], rule does_sum, goal_cases)
    case (1 answer kind)
    then show ?case by (intro again) (simp add: moved_def announced_def)
  next
    case (2 answer r)
    note answer = 2
    let ?T = "\<lambda>ys. fragment_trace u s c t offset ((req, answer) # ys)"
    have fails: "?T [] (Inl e)" for e using assms(3,4) by (simp add: fragment_trace_def)
    show ?case
    proof (intro does_if, goal_cases)
      case 1
      then have "complete_answer answer" using answer by (simp add: complete_answer_def)
      then have returns: "?T [] (Inr (Uploaded entry))"
        if "into_metadata_at_path (parse_rfc3339 web) now c g = Some entry" for now g entry
        using that assms(3,4) entry_path by (auto simp: fragment_trace_def)
      show ?case
        by (intro does_silent_bind[OF silent_json_body] does_silent_bind[OF assms(2)] does_now fails)
           (auto split: option.split intro!: does_return does_fail fails returns)
    next
      case 2
      then have ok: "is_success r" by (simp add: is_success_def)
      show ?case
      proof (cases "rs_break r = None \<and> Option.bind (rs_json r) upload_status \<noteq> None")
        case True
        then have m: "moved t offset answer = (case first_expected_offset (the (Option.bind (rs_json r) upload_status)) of
            None \<Rightarrow> offset | Some n \<Rightarrow> max offset (min n t))"
          using ok answer by (auto simp: moved_def announced_def)
        with True show ?thesis using assms(3,4)
          by (auto intro!: does_return simp: json_body_def fragment_trace_def split: option.splits)
      next
        case False
        then show ?thesis
          by (auto intro!: does_fail fails simp: json_body_def split: option.splits Option.bind_splits)
      qed
    next
      case 3
      then have "moved t offset answer = offset"
        using not_announced[of r t offset] answer by (simp add: is_success_def)
      then have query: "?T [(plain_request GET u, a)] (Inr (NextOffset found l))" if "announced a = found" for a found l
        using that assms(3,4) by (auto simp: fragment_trace_def moved_def split: option.splits)
      moreover have "?T [(plain_request GET u, a)] (Inl e)" for a e
        using assms(3,4) by (simp add: fragment_trace_def)
      ultimately show ?case
        by (intro does_bind[OF does_query[OF assms(1)]]) (auto intro!: does_return)
    next
      case 4
      then have "moved t offset answer = offset"
        using not_announced[of r t offset] transient_not_success answer by simp
      then show ?case by (intro does_now again)
    next
      case 5
      show ?case by (rule does_fail) (rule fails)
    qed
  qed
qed

lemma does_fragment_round:
  assumes "quiet web" "\<And>a b. silent (progress a b)" "offset < t"
  shows "does (fragment_trace u s c t offset) (fragment_round web u c s opened t progress offset)"
  unfolding fragment_round_def Let_def
  by (intro does_silent_bind[OF silent_basic(4)] does_if does_fail does_fragment_attempts assms)
     (simp_all add: fragment_trace_def next_fragment_def)

lemma session_trace_append:
  "fragment_trace u s c t offset xs (Inr (NextOffset (Some n) l)) \<Longrightarrow>
   session_trace u s c t (max offset (min n t)) ys r \<Longrightarrow> session_trace u s c t offset (xs @ ys) r"
  by (auto simp: session_trace_def fragment_trace_def conforms_append)

lemma session_rounds_trace:
  assumes "quiet web" "\<And>a b. silent (progress a b)"
  shows "\<exists>xs. log_of (snd (session_rounds web u c s opened t progress offset stalled w)) = log_of w @ xs \<and>
    session_trace u s c t offset xs (fst (session_rounds web u c s opened t progress offset stalled w))"
  using assms
proof (induction web u c s opened t progress offset stalled w rule: session_rounds.induct)
  case (1 web u c s opened t progress offset stalled w)
  let ?run = "session_rounds web u c s opened t progress offset stalled w"
  let ?goal = "\<lambda>r. \<exists>xs. log_of (snd r) = log_of w @ xs \<and> session_trace u s c t offset xs (fst r)"
  show ?case
  proof (cases "t \<le> offset")
    case True
    then show ?thesis by (subst (1 2) session_rounds.simps) (auto simp: session_trace_def)
  next
    case False
    obtain r w1 where r: "fragment_round web u c s opened t progress offset w = (r, w1)"
      by (cases "fragment_round web u c s opened t progress offset w")
    have d: "does (fragment_trace u s c t offset) (fragment_round web u c s opened t progress offset)"
      using False by (intro does_fragment_round 1) simp
    obtain xs where xs: "log_of w1 = log_of w @ xs" "fragment_trace u s c t offset xs r"
      using doesD[OF d r] by blast
    have ends: "?goal (Inl e, w1)" for e
      using xs by (auto simp: fragment_trace_def session_trace_def)
    have goes_on: "?goal (session_rounds web u c s opened t progress (max offset (min n t)) stalled' w2)"
      if "\<exists>ys. log_of (snd (session_rounds web u c s opened t progress (max offset (min n t)) stalled' w2)) = log_of w2 @ ys \<and>
          session_trace u s c t (max offset (min n t)) ys
            (fst (session_rounds web u c s opened t progress (max offset (min n t)) stalled' w2))"
        and "log_of w2 = log_of w1" "r = Inr (NextOffset (Some n) l)" for n l stalled' w2
      using that xs session_trace_append[OF xs(2)[unfolded that(3)]] by (metis append_assoc)
    show ?thesis
    proof (cases r)
      case (Inl e)
      with ends False r show ?thesis by (subst (1 2) session_rounds.simps) simp
    next
      case (Inr out)
      show ?thesis
      proof (cases out)
        case (Uploaded entry)
        with xs have "?goal (Inr entry, w1)" by (auto simp: Inr fragment_trace_def session_trace_def)
        with False r Inr Uploaded show ?thesis by (subst (1 2) session_rounds.simps) simp
      next
        case (NextOffset found last_error)
        show ?thesis
        proof (cases found)
          case None
          with ends False r Inr NextOffset show ?thesis by (subst (1 2) session_rounds.simps) simp
        next
          case (Some n)
          have out: "r = Inr (NextOffset (Some n) last_error)" by (simp add: Inr NextOffset Some)
          show ?thesis
          proof (cases "n \<le> offset")
            case True
            then have same: "max offset (min n t) = offset" by simp
            have "?goal (session_rounds web u c s opened t progress offset (stalled + 1) w1)" if "\<not> 3 \<le> stalled + 1"
              using goes_on[of n "stalled + 1" w1] 1(1)[OF False r[symmetric] Inr NextOffset Some True that 1(3,4)] out
              by (simp add: same)
            with True Some ends False r Inr NextOffset show ?thesis by (subst (1 2) session_rounds.simps) simp
          next
            case further: False
            obtain p w2 where p: "progress (min n t) t w1 = (p, w2)" by (cases "progress (min n t) t w1")
            then have w2: "log_of w2 = log_of w1" using 1(4)[of "min n t" t] unfolding silent_def by (metis snd_conv)
            show ?thesis
            proof (cases p)
              case (Inl e)
              have "?goal (Inl e, w2)" using ends[of e] w2 by simp
              with further Some False r Inr NextOffset p Inl show ?thesis
                by (subst (1 2) session_rounds.simps) (simp add: \<open>r = Inr out\<close>)
            next
              case ok: (Inr x)
              have same: "max offset (min n t) = min n t" using further False by simp
              have "?goal (session_rounds web u c s opened t progress (min n t) 0 w2)"
                using goes_on[of n 0 w2] w2 out
                  1(2)[OF False r[symmetric] \<open>r = Inr out\<close> NextOffset Some further p[symmetric] ok 1(3,4)]
                by (simp add: same)
              with further Some False r NextOffset p ok show ?thesis
                by (subst (1 2) session_rounds.simps) (simp add: \<open>r = Inr out\<close>)
            qed
          qed
        qed
      qed
    qed
  qed
qed

lemma does_upload_session_file:
  assumes "quiet web" "\<And>a b. silent (progress a b)"
  shows "does (session_trace u s c t (min initial t)) (upload_session_file web u c s t initial progress)"
proof -
  have rounds: "does (session_trace u s c t offset) (session_rounds web u c s opened t progress offset 0)"
    for opened offset t
    unfolding does_def using session_rounds_trace[where progress = progress, OF assms] by blast
  show ?thesis
    unfolding upload_session_file_def Let_def
    by (rule does_silent_bind[OF silent_basic(4)])
       (auto simp: session_trace_def split: option.split
             intro!: does_fail does_silent_bind[OF assms(2)] rounds does_silent_bind[OF silent_basic(1)])
qed

section \<open>A service with a script\<close>

text \<open>
  A web whose service answers from a list, beside any other state, for concrete runs: time passes
  as asked, files are written, and no date or address parses.
\<close>

type_synonym 'm script = "'m \<times> (transport_kind + response) list"

definition scripted_send :: "request \<Rightarrow> 'm script client world \<Rightarrow> (transport_kind + response) \<times> 'm script client world" where
  "scripted_send req w =
     (case cl_net (w_cloud w) of
        (m, []) \<Rightarrow> (Inl Timeout, w)
      | (m, answer # rest) \<Rightarrow> (answer, w\<lparr>w_cloud := (w_cloud w)\<lparr>cl_net := (m, rest)\<rparr>\<rparr>))"

definition scripted_web :: "'m script web" where
  "scripted_web =
     \<lparr>send = scripted_send,
      pause = (\<lambda>n w. w\<lparr>w_cloud := (w_cloud w)\<lparr>cl_instant := cl_instant (w_cloud w) + n\<rparr>\<rparr>),
      save_file = (\<lambda>_ w. (Saved, w)), write_bytes = (\<lambda>_ _ w. (True, w)),
      parse_rfc2822 = (\<lambda>_. None), parse_rfc3339 = (\<lambda>_. None), parse_url = (\<lambda>_. None),
      path_segments = (\<lambda>_. []),
      web_config = \<lparr>gc_client_id = ''id'', gc_tenant = ''common'', gc_redirect_uri = [], gc_scopes = []\<rparr>\<rparr>"

definition plain_response :: "u16 \<Rightarrow> json option \<Rightarrow> response" where
  "plain_response status v =
     \<lparr>rs_status = status, rs_headers = [], rs_length = None, rs_chunks = [], rs_break = None, rs_text = [], rs_json = v\<rparr>"

definition scripted_client :: "'m script \<Rightarrow> 'm script client" where
  "scripted_client script =
     \<lparr>cl_token = \<lparr>tk_access = ''token'', tk_refresh = None, tk_expires_at_unix = 1000\<rparr>, cl_token_file = None,
      cl_sessions = Map.empty, cl_session_file = None, cl_browse_retry_until = None, cl_instant = 0,
      cl_log = [], cl_net = script\<rparr>"

definition scripted_world :: "disk \<Rightarrow> 'm script \<Rightarrow> 'm script client world" where
  "scripted_world disk script =
     \<lparr>w_db = empty_db, w_disk = disk, w_mtime = (\<lambda>_. None), w_now = 100, w_cloud = scripted_client script\<rparr>"

lemma quiet_scripted: "quiet scripted_web"
  by (auto simp: quiet_def scripted_web_def scripted_send_def split: list.split prod.split)

section \<open>Properties\<close>

text \<open>C10: A request is sent at most three times, and again only after an answer that says nothing of
  its effect: no response, a throttle or an error of the server.  A success is the last answer; a
  missing item is reported as such only where the caller allows it; any other refusal ends the
  attempts at once and is reported with the status the service gave.\<close>

theorem retry_repeats_only_transient:
  assumes "quiet web" "silent chk"
  shows "\<exists>xs. log_of (snd (retry_impl web operation (act_return req) chk optional w)) = log_of w @ xs \<and>
    length xs \<le> 3 \<and> (\<forall>(q, answer)\<in>set xs. q = req) \<and> (\<forall>(q, answer)\<in>set (butlast xs). transient_answer answer) \<and>
    (case fst (retry_impl web operation (act_return req) chk optional w) of
       Inr (Some r) \<Rightarrow> xs \<noteq> [] \<and> snd (last xs) = Inr r \<and> is_success r
     | Inr None \<Rightarrow> optional \<and> (\<exists>r. xs \<noteq> [] \<and> snd (last xs) = Inr r \<and> rs_status r = 404)
     | Inl err \<Rightarrow>
         (\<forall>r. xs \<noteq> [] \<and> snd (last xs) = Inr r \<and> \<not> is_transient r \<longrightarrow>
            (\<exists>f. err = CloudFault (Refused f) \<and> rf_status f = rs_status r \<and> rf_operation f = operation)))"
proof -
  have "length [1, 2, 3 :: nat] = 3" by simp
  from does_retry[OF assms, of req operation optional "[1, 2, 3]" None, unfolded this] show ?thesis
    unfolding does_def retry_impl_def retried_def by blast
qed

lemma retry_repeats_only_transient_witness:
  "\<exists>xs. log_of (snd (retry_impl scripted_web Graph (act_return (plain_request GET ''u'')) (act_return ()) False
      (scripted_world Map.empty ((), [Inr (plain_response 503 None), Inr (plain_response 200 None)])))) = xs \<and> length xs \<le> 3"
  using retry_repeats_only_transient[OF quiet_scripted silent_basic(1)[of "()"],
      of Graph "plain_request GET ''u''" False
         "scripted_world Map.empty ((), [Inr (plain_response 503 None), Inr (plain_response 200 None)])"]
  by (auto simp: scripted_world_def scripted_client_def)

text \<open>C8: An upload session sends nothing but status queries and the fragment at the offset that the
  service's own announcements allow, each inside the file, not empty and at most ten mebibytes,
  and it never goes back.  It always ends; it succeeds only when the last thing sent was a
  fragment that the service answered with a finished file, and the entry is at the path that was
  uploaded.\<close>

theorem upload_follows_service:
  assumes "quiet web" "\<And>a b. silent (progress a b)"
  shows "\<exists>xs. log_of (snd (upload_session_file web upload_url cloud_path source_path total_size initial progress w)) =
      log_of w @ xs \<and>
    conforms upload_url source_path total_size (min initial total_size) xs \<and>
    (\<forall>entry. fst (upload_session_file web upload_url cloud_path source_path total_size initial progress w) = Inr entry \<longrightarrow>
       xs \<noteq> [] \<and> complete_answer (snd (last xs)) \<and>
       (\<exists>n<total_size. fst (last xs) = next_fragment upload_url source_path total_size n) \<and>
       m_path entry = normalize_cloud_path (normalize_cloud_path cloud_path))"
  using does_upload_session_file[where progress = progress, OF assms] unfolding does_def session_trace_def by blast

lemma upload_follows_service_witness:
  "\<exists>xs. log_of (snd (upload_session_file scripted_web ''u'' ''/a'' ''/c/a'' 5 2 (\<lambda>_ _. act_return ())
      (scripted_world [''/c/a'' \<mapsto> RegularFile 5 Free] ((), [Inr (plain_response 202 None)])))) = xs \<and>
    conforms ''u'' ''/c/a'' 5 2 xs"
  using upload_follows_service[OF quiet_scripted, of "\<lambda>_ _. act_return ()" "''u''" "''/a''" "''/c/a''" 5 2
      "scripted_world [''/c/a'' \<mapsto> RegularFile 5 Free] ((), [Inr (plain_response 202 None)])"]
  by (auto simp: silent_basic scripted_world_def scripted_client_def)

end
