(* ===== verification/GraphContract.thy ===== *)
theory GraphContract
  imports GraphBackend GraphTrace
begin

text \<open>
  What the OneDrive backend promises: credentials go to Graph only, a request is repeated only
  after a transient failure, an upload session follows the service's offsets, and the backend is
  one that the synchronisation of crates/twodrive-fs can rely on.
\<close>

section \<open>What the operations keep\<close>

text \<open>The scheme, the host and the slash after it are Graph's.\<close>

definition to_graph :: "string \<Rightarrow> bool" where
  "to_graph url = prefix (graph_root @ ''/'') url"

lemma graph_urls [simp]: "to_graph (graph_parent_lookup_url p)" "to_graph (simple_upload_url p j)"
  by (auto simp: to_graph_def graph_parent_lookup_url_def simple_upload_url_def Let_def split: option.split)

lemma create_url: "upload_session_create_url i q name = Inr url \<Longrightarrow> to_graph url"
  by (auto simp: to_graph_def upload_session_create_url_def split: option.splits if_splits)

lemma request_urls [simp]:
  "rq_url (graph_request m u t) = u" "rq_url (upload_request u t e b) = u" "rq_url (create_session_request u t e) = u"
  by (simp_all add: graph_request_def plain_request_def upload_request_def with_if_match_def
        create_session_request_def split: option.split)

text \<open>Every request to Graph and every request without credentials may be noted.\<close>

locale graph_steps = web_steps web P R
  for web :: "'n web" and P :: "'n client world \<Rightarrow> bool" and R :: "request \<Rightarrow> transport_kind + response \<Rightarrow> bool" +
  assumes write_keeps: "P w \<Longrightarrow> P (snd (write_bytes web path n w))"
    and disk_frame: "P w \<Longrightarrow> P (w\<lparr>w_disk := d\<rparr>)"
    and graph_noted: "to_graph (rq_url req) \<Longrightarrow> R req answer"
    and plain_noted: "rq_bearer req = None \<Longrightarrow> R req answer"
begin

lemma keeps_graph_get: "to_graph url \<Longrightarrow> act_keeps P (get_with_retry web url)"
  by (intro keeps_get_with_retry graph_noted) (simp add: graph_request_def plain_request_def)

lemma keeps_graph_retry: "to_graph (rq_url req) \<Longrightarrow> act_keeps P (retry_request web req)"
  by (intro keeps_retry_request graph_noted)

lemma keeps_optional_get: "to_graph url \<Longrightarrow> act_keeps P (optional_get web url)"
  unfolding optional_get_def retry_optional_request_def
  by (intro keeps_retry_optional_named keeps_bind keeps_access_token keeps_return yields_bind yields_return allI graph_noted)
     (simp add: graph_request_def plain_request_def)

lemma keeps_entry_or: "act_keeps P (entry_or web path message r)"
  unfolding entry_or_def by (intro keeps_bind keeps_json_body keeps_now keeps_option keeps_fail keeps_return)

lemma keeps_get_metadata: "act_keeps P (graph_get_metadata web i)"
  unfolding graph_get_metadata_def
  by (intro keeps_bind keeps_optional_get keeps_option keeps_return keeps_json_body keeps_now) (simp_all add: to_graph_def)

lemma keeps_get_metadata_by_path: "act_keeps P (graph_get_metadata_by_path web p)"
  unfolding graph_get_metadata_by_path_def Let_def
  by (intro keeps_bind keeps_optional_get keeps_option keeps_return keeps_json_body keeps_now) (simp_all add: to_graph_def)

lemma keeps_write_all: "act_keeps P (write_all web path n)"
proof (unfold act_keeps_def, intro allI impI)
  fix w assume "P w"
  then have w: "P (snd (write_bytes web path n w))" by (rule write_keeps)
  moreover have "P (append_bytes path n v)" if "P v" for v
    using that disk_frame by (simp add: append_bytes_def split: option.split node.split)
  ultimately show "P (snd (write_all web path n w))"
    by (auto simp: write_all_def split: prod.split bool.split)
qed

lemma keeps_copy_chunks:
  "(\<And>n. act_keeps P (progress n)) \<Longrightarrow> act_keeps P (copy_chunks web target sz progress broken ns k)"
proof (induction ns arbitrary: k)
  case Nil
  then show ?case unfolding copy_chunks.simps by (intro keeps_bind keeps_if keeps_return keeps_fail)
next
  case (Cons n ns)
  then show ?case unfolding copy_chunks.simps by (intro keeps_bind keeps_if keeps_return keeps_write_all) auto
qed

lemma keeps_range:
  "to_graph url \<Longrightarrow> act_keeps P chk \<Longrightarrow> act_keeps P (get_range_with_retry web url a b chk)"
  unfolding get_range_with_retry_def
  by (intro keeps_bind keeps_access_token keeps_retry_request_checked graph_noted)
     (auto simp: graph_request_def plain_request_def)

lemma keeps_download_rounds:
  "to_graph url \<Longrightarrow> (\<And>n. act_keeps P (progress n)) \<Longrightarrow>
   act_keeps P (download_rounds web bound url target sz progress k)"
proof (induction bound arbitrary: k)
  case 0
  then show ?case by (subst download_rounds.simps) (simp add: keeps_intros)
next
  case (Suc bound)
  show ?case
    by (subst download_rounds.simps)
       (auto intro!: keeps_bind keeps_range keeps_copy_chunks keeps_return Suc)
qed

lemma keeps_download:
  "(\<And>n. act_keeps P (progress n)) \<Longrightarrow> act_keeps P (graph_download_sized_to web bound progress i sz target)"
  unfolding graph_download_sized_to_def
  by (intro keeps_if keeps_return keeps_bind keeps_download_rounds) (simp_all add: to_graph_def)

lemma keeps_save_sessions: "act_keeps P (save_sessions web)"
proof (unfold act_keeps_def, intro allI impI)
  fix w assume "P w"
  then have "P (snd (save_file web SessionFile w))" by (rule save_keeps)
  then show "P (snd (save_sessions web w))"
    using client_frame by (auto simp: save_sessions_def split: prod.split)
qed

lemma keeps_query: "act_keeps P (query_upload_offset web u)"
  unfolding query_upload_offset_def
  by (intro keeps_bind keeps_exchange keeps_sum keeps_fail keeps_if keeps_return keeps_json_body plain_noted)
     (simp add: plain_request_def)

lemma keeps_sleep: "act_keeps P (sleep web delay)"
  using pause_keeps by (simp add: act_keeps_def sleep_def)

lemma keeps_unless_advanced: "act_keeps P again \<Longrightarrow> act_keeps P (unless_advanced web u offset err delay again)"
  unfolding unless_advanced_def
  by (intro keeps_bind keeps_attempt keeps_query keeps_sum keeps_option keeps_if keeps_return keeps_sleep)

lemma keeps_fragment_attempts:
  assumes "\<And>a b. act_keeps P (progress a b)" "rq_bearer req = None"
  shows "act_keeps P (fragment_attempts web u c offset t progress req ks l)"
proof (induction ks arbitrary: l)
  case Nil
  show ?case by (simp add: keeps_return)
next
  case (Cons k ks)
  show ?case
    unfolding fragment_attempts.simps
    by (intro keeps_bind keeps_exchange keeps_sum keeps_if keeps_json_body keeps_query keeps_return keeps_fail
          keeps_now keeps_option keeps_unless_advanced Cons.IH assms plain_noted)
qed

lemma keeps_fragment_round:
  "(\<And>a b. act_keeps P (progress a b)) \<Longrightarrow> act_keeps P (fragment_round web u c s opened t progress offset)"
  unfolding fragment_round_def Let_def
  by (intro keeps_bind keeps_read_world keeps_if keeps_fail keeps_fragment_attempts)
     (simp_all add: fragment_request_def plain_request_def)

lemma keeps_upload_session_file:
  assumes "\<And>a b. act_keeps P (progress a b)"
  shows "act_keeps P (upload_session_file web u c s t initial progress)"
proof -
  have "act_keeps P (session_rounds web u c s opened t progress offset stalled)" for opened offset stalled
    unfolding act_keeps_def
    using session_rounds_inv[of P] keeps_fragment_round[OF assms] assms by (simp add: act_keeps_def)
  then show ?thesis
    unfolding upload_session_file_def Let_def
    by (intro keeps_bind keeps_read_world keeps_option keeps_fail keeps_if keeps_return assms)
qed

lemma keeps_remove_session: "act_keeps P (remove_upload_session web key)"
  unfolding remove_upload_session_def
  by (intro keeps_bind keeps_client keeps_if keeps_return keeps_update keeps_save_sessions) (simp_all add: to_graph_def)

lemma keeps_save_session: "act_keeps P (save_upload_session web key session)"
  unfolding save_upload_session_def by (intro keeps_bind keeps_update keeps_save_sessions) (simp_all add: to_graph_def)

lemma keeps_start_session: "act_keeps P (start_upload_session web key path sz modified i e)"
  unfolding start_upload_session_def
  by (intro keeps_bind keeps_attempt keeps_remove_session keeps_access_token keeps_from_result keeps_prod
        keeps_if keeps_return keeps_graph_get keeps_json_body keeps_save_session
        keeps_bind_yields[OF keeps_from_result yields_from_result] keeps_graph_retry)
     (simp_all only: graph_urls request_urls create_url)

lemma keeps_upload_file:
  assumes "\<And>a b. act_keeps P (progress a b)"
  shows "act_keeps P (graph_upload_file_with_version web progress path source i e)"
  unfolding graph_upload_file_with_version_def simple_upload_def session_upload_def Let_def
    resume_upload_session_def matching_upload_session_def
  by (intro keeps_bind keeps_from_result keeps_read_world keeps_prod keeps_option keeps_fail keeps_if
        keeps_access_token keeps_graph_retry keeps_entry_or keeps_return keeps_client keeps_query
        keeps_start_session keeps_upload_session_file keeps_attempt keeps_remove_session assms)
     simp_all

lemma keeps_create_folder: "act_keeps P (graph_create_folder web path)"
  unfolding graph_create_folder_def Let_def
  by (intro keeps_bind keeps_from_result keeps_access_token keeps_prod keeps_graph_retry keeps_entry_or) (simp_all add: to_graph_def)

lemma keeps_rename: "act_keeps P (graph_rename web i path)"
  unfolding graph_rename_def Let_def
  by (intro keeps_bind keeps_from_result keeps_access_token keeps_prod keeps_graph_get keeps_json_body
        keeps_graph_retry keeps_entry_or) (simp_all add: to_graph_def[of "rq_url r" for r] to_graph_def[of "CHR ''h'' # r" for r])

lemma keeps_delete: "act_keeps P (graph_delete web i)"
  unfolding graph_delete_def
  by (intro keeps_bind keeps_retry_optional_named keeps_access_token keeps_return yields_bind yields_return allI
        graph_noted) (simp_all add: to_graph_def)

text \<open>The links of a delta are the service's own.\<close>

lemma keeps_delta_pages:
  assumes "\<And>req answer. R req answer"
  shows "act_keeps P (delta_pages web bound url d)"
proof (induction bound arbitrary: url d)
  case 0
  show ?case by (simp add: keeps_fail)
next
  case (Suc bound)
  show ?case
    unfolding delta_pages.simps Let_def
    by (intro keeps_bind keeps_get_with_retry assms keeps_json_body keeps_now keeps_option keeps_return Suc)
qed

lemma backend_contract:
  assumes "\<And>req answer. R req answer" "\<And>n. act_keeps P (downloading n)" "\<And>a b. act_keeps P (uploading a b)"
  shows "backend_keeps P (onedrive web bound downloading uploading)"
  using keeps_get_metadata keeps_get_metadata_by_path keeps_download[OF assms(2)] keeps_upload_file[OF assms(3)]
    keeps_create_folder keeps_rename keeps_delete keeps_delta_pages[OF assms(1)]
    keeps_bind[OF keeps_delta_pages[OF assms(1)] keeps_return]
  by (simp add: backend_keeps_def onedrive_def graph_list_all_def graph_list_delta_def act_keeps_def)

end

section \<open>Credentials\<close>

definition confined_request :: "request \<Rightarrow> bool" where
  "confined_request req = (rq_bearer req = None \<or> to_graph (rq_url req))"

definition confined :: "('n, 'a) gact \<Rightarrow> bool" where
  "confined m = does (\<lambda>xs r. List.list_all (\<lambda>(req, answer). confined_request req) xs) m"

definition log_extends :: "trace \<Rightarrow> 'n client world \<Rightarrow> bool" where
  "log_extends l w = (\<exists>xs. log_of w = l @ xs \<and> List.list_all (\<lambda>(req, answer). confined_request req) xs)"

lemma confined_steps: "quiet web \<Longrightarrow> graph_steps web (log_extends l) (\<lambda>req answer. confined_request req)"
  by unfold_locales
     (auto simp: quiet_def log_extends_def note_exchange_def confined_request_def refresh_token_request_def plain_request_def)

lemma confinedI:
  fixes m :: "('n, 'a) gact"
  shows "(\<And>l. act_keeps (log_extends l) m) \<Longrightarrow> confined m"
proof (unfold confined_def does_def, intro allI)
  fix w :: "'n client world"
  assume "\<And>l. act_keeps (log_extends l) m"
  then have "act_keeps (log_extends (log_of w)) m" .
  moreover have "log_extends (log_of w) w" by (simp add: log_extends_def)
  ultimately show "\<exists>xs. log_of (snd (m w)) = log_of w @ xs \<and> List.list_all (\<lambda>(req, answer). confined_request req) xs"
    by (simp add: act_keeps_def log_extends_def)
qed

lemma silent_extends: "silent m \<Longrightarrow> act_keeps (log_extends l) m"
  by (simp add: silent_def act_keeps_def log_extends_def)

text \<open>C9: No operation on an item sends the access token anywhere but to Graph: not to the address of
  an upload session, not to the service that issues tokens, and not where a path, an item id or
  an answer of the service could point.\<close>

theorem credentials_stay_with_graph:
  assumes "quiet web" "\<And>n. silent (downloading n)" "\<And>a b. silent (uploading a b)"
    and "be = onedrive web bound downloading uploading"
  shows "confined (get_metadata be i) \<and> confined (get_metadata_by_path be p) \<and>
    confined (download_sized_to be i sz target) \<and> confined (upload_file_with_version be p source j etag) \<and>
    confined (create_folder be p) \<and> confined (rename_item be i p) \<and> confined (delete_item be i)"
proof -
  note steps = confined_steps[OF assms(1)]
  note keeps = silent_extends[OF assms(2)] silent_extends[OF assms(3)]
  show ?thesis
    unfolding assms(4) onedrive_def backend.select_convs
    by (intro conjI confinedI graph_steps.keeps_get_metadata[OF steps] graph_steps.keeps_get_metadata_by_path[OF steps]
          graph_steps.keeps_download[OF steps] graph_steps.keeps_upload_file[OF steps]
          graph_steps.keeps_create_folder[OF steps] graph_steps.keeps_rename[OF steps] graph_steps.keeps_delete[OF steps]
          keeps)
qed

lemma credentials_stay_with_graph_witness:
  "confined (upload_file_with_version (onedrive (scripted_web :: unit script web) 3 (\<lambda>_. act_return ()) (\<lambda>_ _. act_return ()))
     ''/a'' ''/c/a'' None None)"
  using credentials_stay_with_graph[where downloading = "\<lambda>_. act_return ()" and uploading = "\<lambda>_ _. act_return ()",
      OF quiet_scripted silent_basic(1) silent_basic(1) refl] by blast

section \<open>The contract of the backend\<close>

text \<open>The threads that run while the client waits keep a property of the database.\<close>

definition web_keeps :: "(db \<Rightarrow> bool) \<Rightarrow> 'n web \<Rightarrow> bool" where
  "web_keeps Q web =
     ((\<forall>req w. Q (w_db w) \<longrightarrow> Q (w_db (snd (send web req w)))) \<and> (\<forall>n w. Q (w_db w) \<longrightarrow> Q (w_db (pause web n w))) \<and>
      (\<forall>f w. Q (w_db w) \<longrightarrow> Q (w_db (snd (save_file web f w)))) \<and>
      (\<forall>p n w. Q (w_db w) \<longrightarrow> Q (w_db (snd (write_bytes web p n w)))))"

lemma database_steps: "web_keeps Q web \<Longrightarrow> graph_steps web (db_prop Q) (\<lambda>_ _. True)"
  by unfold_locales (auto simp: web_keeps_def note_exchange_def)

lemma web_keeps_scripted: "web_keeps Q scripted_web"
  by (auto simp: web_keeps_def scripted_web_def scripted_send_def split: list.split prod.split)

interpretation scripted: graph_steps "scripted_web :: unit script web" "db_prop wf_db" "\<lambda>_ _. True"
  by (rule database_steps) (rule web_keeps_scripted)



end
