(* ===== verification/CloudIndex.thy ===== *)
theory CloudIndex
  imports Store
begin

text \<open>
  crates/twodrive-core/src/database/cloud.rs: the metadata index of the cloud browser.  Pages
  of a delta query are staged; a commit applies the staged items to the index, removes the
  deleted folders bottom-up and stores the cursor.  A row's body column is the JSON text of its
  item; the model stores the item.  The main facts: the deletion loop ends, it removes deleted
  items only and leaves no childless tombstone, and a commit touches one account's drive only.
\<close>

section \<open>Tables\<close>

record identity =
  account :: string
  drive :: string

record indexed_item =
  i_id :: string
  i_parent :: "string option"
  i_name :: string
  i_kind :: string
  i_size :: u64
  i_etag :: string
  i_modified :: "string option"
  i_deleted :: bool

record download_task =
  task_identity :: identity
  task_item :: indexed_item
  task_state :: string
  task_done :: u64
  task_error :: "string option"

type_synonym 'a keyed = "(identity \<times> string) \<times> 'a"

record cloud_db =
  cl_items :: "indexed_item keyed list"
  cl_stage :: "indexed_item keyed list"
  cl_delta :: "(identity \<times> string) list"
  cl_tasks :: "download_task keyed list"

text \<open>INSERT OR REPLACE on a table with a primary key.\<close>

definition replace_row :: "'k \<times> 'v \<Rightarrow> ('k \<times> 'v) list \<Rightarrow> ('k \<times> 'v) list" where
  "replace_row row rows = sql_delete (\<lambda>r. fst r = fst row) rows @ [row]"

definition owned :: "identity \<Rightarrow> 'a keyed \<Rightarrow> bool" where
  "owned who r = (fst (fst r) = who)"

section \<open>Operations\<close>

definition cloud_delta :: "identity \<Rightarrow> cloud_db \<Rightarrow> string option" where
  "cloud_delta who d = map_option snd (sql_first (\<lambda>r. fst r = who) (cl_delta d))"

definition cloud_begin :: "identity \<Rightarrow> cloud_db \<Rightarrow> cloud_db" where
  "cloud_begin who d = d\<lparr>cl_stage := sql_delete (owned who) (cl_stage d)\<rparr>"

definition cloud_stage :: "identity \<Rightarrow> indexed_item list \<Rightarrow> cloud_db \<Rightarrow> cloud_db" where
  "cloud_stage who items d =
     d\<lparr>cl_stage := foldl (\<lambda>rows it. replace_row ((who, i_id it), it) rows) (cl_stage d) items\<rparr>"

text \<open>The rows a pass of the loop deletes: tombstones without children in the same drive.\<close>

definition childless :: "identity \<Rightarrow> indexed_item keyed list \<Rightarrow> indexed_item keyed \<Rightarrow> bool" where
  "childless who rows r =
     (owned who r \<and> i_deleted (snd r) \<and>
      \<not> sql_exists (\<lambda>c. fst (fst c) = fst (fst r) \<and> i_parent (snd c) = Some (snd (fst r))) rows)"

function prune_deleted :: "identity \<Rightarrow> indexed_item keyed list \<Rightarrow> indexed_item keyed list" where
  "prune_deleted who rows =
     (if sql_count (childless who rows) rows = 0 then rows
      else prune_deleted who (sql_delete (childless who rows) rows))"
  by pat_completeness auto
termination
proof (relation "measure (\<lambda>(_, rows). length rows)")
  fix who and rows :: "indexed_item keyed list"
  assume "sql_count (childless who rows) rows \<noteq> 0"
  then have "0 < length (filter (childless who rows) rows)" by (simp add: sql_count_def)
  then have "length (filter (\<lambda>r. \<not> childless who rows r) rows) < length rows"
    using sum_length_filter_compl[of "childless who rows" rows] by linarith
  then show "((who, sql_delete (childless who rows) rows), who, rows) \<in> measure (\<lambda>(_, rows). length rows)"
    by (simp add: sql_delete_def)
qed simp

declare prune_deleted.simps [simp del]

definition staged :: "identity \<Rightarrow> bool \<Rightarrow> cloud_db \<Rightarrow> indexed_item keyed list" where
  "staged who del d = filter (\<lambda>r. owned who r \<and> i_deleted (snd r) = del) (cl_stage d)"

definition apply_stage :: "identity \<Rightarrow> bool \<Rightarrow> cloud_db \<Rightarrow> indexed_item keyed list" where
  "apply_stage who replace d =
     (let base = (if replace then sql_delete (owned who) (cl_items d) else cl_items d);
          merged = foldl (\<lambda>rows r. replace_row r rows) base (staged who False d) in
      sql_update (\<lambda>r. owned who r \<and> snd (fst r) \<in> (snd \<circ> fst) ` set (staged who True d))
        (\<lambda>r. (fst r, (snd r)\<lparr>i_deleted := True\<rparr>)) merged)"

definition cloud_commit :: "identity \<Rightarrow> string \<Rightarrow> bool \<Rightarrow> cloud_db \<Rightarrow> (db_error + unit) \<times> cloud_db" where
  "cloud_commit who link replace d =
     (if link = [] then (Inl MissingDeltaLink, d)
      else (Inr (),
        d\<lparr>cl_items := prune_deleted who (apply_stage who replace d),
          cl_delta := replace_row (who, link) (cl_delta d),
          cl_stage := sql_delete (owned who) (cl_stage d)\<rparr>))"

definition cloud_items :: "identity \<Rightarrow> cloud_db \<Rightarrow> indexed_item list" where
  "cloud_items who d = map snd (sort_key (\<lambda>r. snd (fst r)) (filter (owned who) (cl_items d)))"

definition cloud_task_save :: "download_task \<Rightarrow> cloud_db \<Rightarrow> cloud_db" where
  "cloud_task_save t d =
     d\<lparr>cl_tasks := replace_row ((task_identity t, i_id (task_item t)), t) (cl_tasks d)\<rparr>"

definition cloud_tasks :: "identity \<Rightarrow> cloud_db \<Rightarrow> download_task list" where
  "cloud_tasks who d = map snd (sort_key (\<lambda>r. snd (fst r)) (filter (owned who) (cl_tasks d)))"

section \<open>INSERT OR REPLACE\<close>

lemma set_replace_row: "set (replace_row row rows) = insert row {r \<in> set rows. fst r \<noteq> fst row}"
  by (auto simp: replace_row_def set_sql_delete)

lemma distinct_replace_row: "distinct (map fst rows) \<Longrightarrow> distinct (map fst (replace_row row rows))"
  by (auto simp: replace_row_def distinct_map_sql_delete set_sql_delete)

lemma distinct_fold_replace:
  "distinct (map fst rows) \<Longrightarrow> distinct (map fst (foldl (\<lambda>rows r. replace_row r rows) rows xs))"
  by (induction xs arbitrary: rows) (simp_all add: distinct_replace_row)

lemma set_fold_replace:
  "distinct (map fst xs) \<Longrightarrow>
   set (foldl (\<lambda>rows r. replace_row r rows) rows xs) = set xs \<union> {r \<in> set rows. fst r \<notin> fst ` set xs}"
proof (induction xs arbitrary: rows)
  case (Cons x xs)
  then show ?case by (auto simp: set_replace_row)
qed simp

section \<open>The deletion loop\<close>

lemma prune_subset: "set (prune_deleted who rows) \<subseteq> set rows"
proof (induction who rows rule: prune_deleted.induct)
  case (1 who rows)
  then show ?case by (subst prune_deleted.simps) (auto simp: set_sql_delete)
qed

lemma prune_removed: "r \<in> set rows \<Longrightarrow> r \<notin> set (prune_deleted who rows) \<Longrightarrow> owned who r \<and> i_deleted (snd r)"
proof (induction who rows rule: prune_deleted.induct)
  case (1 who rows)
  show ?case
  proof (cases "sql_count (childless who rows) rows = 0 \<or> childless who rows r")
    case True
    with 1 show ?thesis by (auto simp: prune_deleted.simps[of who rows] childless_def split: if_splits)
  next
    case False
    then have "r \<in> set (sql_delete (childless who rows) rows)" using 1 by (simp add: set_sql_delete)
    with 1 False show ?thesis by (simp add: prune_deleted.simps[of who rows])
  qed
qed

lemma prune_no_childless: "r \<in> set (prune_deleted who rows) \<Longrightarrow> \<not> childless who (prune_deleted who rows) r"
proof (induction who rows rule: prune_deleted.induct)
  case (1 who rows)
  show ?case
  proof (cases "sql_count (childless who rows) rows = 0")
    case True
    with 1 show ?thesis by (simp add: prune_deleted.simps[of who rows] sql_count_0)
  next
    case False
    then have "prune_deleted who rows = prune_deleted who (sql_delete (childless who rows) rows)"
      by (simp add: prune_deleted.simps[of who rows])
    with 1 False show ?thesis by simp
  qed
qed

text \<open>A deleted item all of whose descendants are deleted goes, when the parents form a forest.\<close>

lemma prune_has_child:
  assumes "r \<in> set (prune_deleted who rows)" "owned who r" "i_deleted (snd r)"
  shows "\<exists>c\<in>set (prune_deleted who rows). owned who c \<and> i_parent (snd c) = Some (snd (fst r))"
  using prune_no_childless[OF assms(1)] assms(2,3)
  by (auto simp: childless_def owned_def table_simps)

lemma prune_live_descendant:
  fixes rank :: "string \<Rightarrow> nat"
  assumes forest: "\<And>c p. c \<in> set rows \<Longrightarrow> i_parent (snd c) = Some p \<Longrightarrow> rank (snd (fst c)) < rank p"
    and r: "r \<in> set (prune_deleted who rows)" "owned who r" "i_deleted (snd r)"
  shows "\<exists>c\<in>set (prune_deleted who rows). owned who c \<and> \<not> i_deleted (snd c) \<and> rank (snd (fst c)) < rank (snd (fst r))"
  using r
proof (induction "rank (snd (fst r))" arbitrary: r rule: less_induct)
  case less
  obtain c where c: "c \<in> set (prune_deleted who rows)" "owned who c" "i_parent (snd c) = Some (snd (fst r))"
    using prune_has_child[OF less.prems] by blast
  have lt: "rank (snd (fst c)) < rank (snd (fst r))"
    using forest[OF _ c(3)] c(1) prune_subset by blast
  show ?case
  proof (cases "i_deleted (snd c)")
    case True
    then obtain e where "e \<in> set (prune_deleted who rows)" "owned who e" "\<not> i_deleted (snd e)"
        "rank (snd (fst e)) < rank (snd (fst c))"
      using less.hyps[OF lt c(1,2)] by blast
    with lt show ?thesis by (meson less_trans)
  next
    case False
    with c lt show ?thesis by blast
  qed
qed

section \<open>The commit\<close>

definition cloud_ok :: "cloud_db \<Rightarrow> bool" where
  "cloud_ok d = (distinct (map fst (cl_items d)) \<and> distinct (map fst (cl_stage d)) \<and>
     distinct (map fst (cl_delta d)) \<and> distinct (map fst (cl_tasks d)))"

lemma distinct_fst_eq: "distinct (map fst xs) \<Longrightarrow> (k, a) \<in> set xs \<Longrightarrow> (k, b) \<in> set xs \<Longrightarrow> a = b"
  by (rule eq_key_imp_eq_value)

lemma apply_stage_live:
  assumes ok: "cloud_ok d" and r: "r \<in> set (cl_stage d)" "owned who r" "\<not> i_deleted (snd r)"
  shows "r \<in> set (apply_stage who rebuild d)"
proof -
  have d: "distinct (map fst (staged who False d))" "distinct (map fst (cl_stage d))"
    using ok by (simp_all add: cloud_ok_def staged_def distinct_map_filter)
  let ?base = "if rebuild then sql_delete (owned who) (cl_items d) else cl_items d"
  have in_merged: "r \<in> set (foldl (\<lambda>rows r. replace_row r rows) ?base (staged who False d))"
    using r unfolding set_fold_replace[OF d(1)] by (simp add: staged_def)
  have "snd (fst r) \<notin> (snd \<circ> fst) ` set (staged who True d)"
  proof
    assume "snd (fst r) \<in> (snd \<circ> fst) ` set (staged who True d)"
    then obtain q where q: "q \<in> set (cl_stage d)" "owned who q" "i_deleted (snd q)" "snd (fst q) = snd (fst r)"
      by (auto simp: staged_def)
    then have "fst q = fst r" using r(2) by (simp add: owned_def prod_eq_iff)
    then have "snd q = snd r" using distinct_fst_eq[OF d(2), of "fst r" "snd q" "snd r"] q(1) r(1)
      by (metis prod.collapse)
    with q(3) r(3) show False by simp
  qed
  then show ?thesis using in_merged by (auto simp: apply_stage_def Let_def set_sql_update)
qed

lemma apply_stage_others:
  assumes "cloud_ok d" "\<not> owned who r"
  shows "r \<in> set (apply_stage who rebuild d) \<longleftrightarrow> r \<in> set (cl_items d)"
proof -
  have d: "distinct (map fst (staged who False d))"
    using assms(1) by (simp add: cloud_ok_def staged_def distinct_map_filter)
  have "fst r \<notin> fst ` set (staged who False d)"
    using assms(2) by (auto simp: staged_def owned_def)
  then have "r \<in> set (foldl (\<lambda>rows r. replace_row r rows)
      (if rebuild then sql_delete (owned who) (cl_items d) else cl_items d) (staged who False d)) \<longleftrightarrow> r \<in> set (cl_items d)"
    using assms(2) unfolding set_fold_replace[OF d] by (auto simp: set_sql_delete)
  moreover have "owned who (fst q, x) = owned who q" for q :: "indexed_item keyed" and x :: indexed_item
    by (simp add: owned_def)
  ultimately show ?thesis using assms(2)
    by (auto simp: apply_stage_def Let_def set_sql_update image_iff split: if_splits)
qed

lemma apply_stage_distinct: "cloud_ok d \<Longrightarrow> distinct (map fst (apply_stage who rebuild d))"
  unfolding apply_stage_def Let_def
  by (subst map_key_sql_update) (auto intro!: distinct_fold_replace distinct_map_sql_delete simp: cloud_ok_def)

lemma prune_distinct: "distinct (map fst rows) \<Longrightarrow> distinct (map fst (prune_deleted who rows))"
proof (induction who rows rule: prune_deleted.induct)
  case (1 who rows)
  then show ?case by (cases "sql_count (childless who rows) rows = 0")
      (simp_all add: prune_deleted.simps[of who rows] distinct_map_sql_delete)
qed

lemma cloud_ok_commit: "cloud_ok d \<Longrightarrow> cloud_ok (snd (cloud_commit who link rebuild d))"
  using prune_distinct[OF apply_stage_distinct[of d who rebuild], of who]
  by (auto simp: cloud_commit_def cloud_ok_def distinct_replace_row distinct_map_sql_delete)

lemma sql_first_replace_row: "sql_first (\<lambda>r. fst r = fst row) (replace_row row rows) = Some row"
proof -
  have "sql_first (\<lambda>r. fst r = fst row) (sql_delete (\<lambda>r. fst r = fst row) rows) = None"
    by (auto simp: sql_first_None_iff set_sql_delete)
  then show ?thesis by (simp add: replace_row_def sql_first_append) (simp add: sql_first_def)
qed

section \<open>Properties\<close>

definition sample_id :: identity where
  "sample_id = \<lparr>account = ''a'', drive = ''d''\<rparr>"

definition sample_cloud_item :: "string \<Rightarrow> string option \<Rightarrow> bool \<Rightarrow> indexed_item" where
  "sample_cloud_item i parent del =
     \<lparr>i_id = i, i_parent = parent, i_name = i, i_kind = ''folder'', i_size = 0, i_etag = ''v1'',
      i_modified = None, i_deleted = del\<rparr>"

definition sample_cloud :: cloud_db where
  "sample_cloud =
     cloud_stage sample_id [sample_cloud_item ''x'' (Some ''r'') False, sample_cloud_item ''p'' (Some ''r'') True]
       \<lparr>cl_items = [((sample_id, ''r''), sample_cloud_item ''r'' None False),
                   ((sample_id, ''p''), sample_cloud_item ''p'' (Some ''r'') False)],
        cl_stage = [], cl_delta = [], cl_tasks = []\<rparr>"

text \<open>A commit with a cursor succeeds, stores the cursor and empties the stage of the account's
  drive; every live staged item is in the index with its staged body, a tombstone stays only
  while it has children, and no row of another account or drive changes.\<close>

lemma cloud_commit_applies_stage:
  assumes ok: "cloud_ok d" and link: "link \<noteq> []"
    and run: "cloud_commit who link rebuild d = (res, d')"
  shows "res = Inr () \<and> cloud_delta who d' = Some link \<and> (\<forall>r\<in>set (cl_stage d'). \<not> owned who r) \<and>
    (\<forall>r\<in>set (cl_stage d). owned who r \<and> \<not> i_deleted (snd r) \<longrightarrow> r \<in> set (cl_items d')) \<and>
    (\<forall>r\<in>set (cl_items d'). owned who r \<and> i_deleted (snd r) \<longrightarrow>
       (\<exists>c\<in>set (cl_items d'). owned who c \<and> i_parent (snd c) = Some (snd (fst r)))) \<and>
    (\<forall>r. \<not> owned who r \<longrightarrow> (r \<in> set (cl_items d') \<longleftrightarrow> r \<in> set (cl_items d)))"
proof -
  let ?rows = "apply_stage who rebuild d"
  from run link have res: "res = Inr ()" and items: "cl_items d' = prune_deleted who ?rows"
    and delta: "cl_delta d' = replace_row (who, link) (cl_delta d)"
    and stage: "cl_stage d' = sql_delete (owned who) (cl_stage d)"
    by (auto simp: cloud_commit_def)
  have "cloud_delta who d' = Some link"
    using sql_first_replace_row[of "(who, link)"] by (simp add: cloud_delta_def delta)
  moreover have "r \<in> set (cl_items d')" if "r \<in> set (cl_stage d)" "owned who r" "\<not> i_deleted (snd r)" for r
    using apply_stage_live[OF ok that] prune_removed[of r ?rows who] that items by auto
  moreover have "r \<in> set (cl_items d') \<longleftrightarrow> r \<in> set (cl_items d)" if "\<not> owned who r" for r
    using apply_stage_others[OF ok that] prune_removed[of r ?rows who] prune_subset[of who ?rows] that items by auto
  ultimately show ?thesis
    using res stage prune_has_child[of _ who ?rows] by (auto simp: items set_sql_delete)
qed

lemma cloud_commit_applies_stage_witness:
  "cloud_delta sample_id (snd (cloud_commit sample_id ''cursor'' False sample_cloud)) = Some ''cursor''"
proof -
  have "cloud_ok sample_cloud" by code_simp
  from cloud_commit_applies_stage[OF this _ prod.collapse[symmetric], of "''cursor''" sample_id False]
  show ?thesis by simp
qed

text \<open>The deletion loop of a commit ends with no dead subtree: when the parents of the rows
  form a forest, every tombstone left has a live item somewhere below it.\<close>

lemma tombstones_have_live_descendants:
  fixes rank :: "string \<Rightarrow> nat"
  assumes run: "cloud_commit who link rebuild d = (Inr (), d')"
    and forest: "\<forall>c\<in>set (apply_stage who rebuild d). \<forall>p. i_parent (snd c) = Some p \<longrightarrow>
      rank (snd (fst c)) < rank p"
    and r: "r \<in> set (cl_items d')" "owned who r" "i_deleted (snd r)"
  shows "\<exists>c\<in>set (cl_items d'). owned who c \<and> \<not> i_deleted (snd c) \<and> rank (snd (fst c)) < rank (snd (fst r))"
proof -
  have "cl_items d' = prune_deleted who (apply_stage who rebuild d)"
    using run by (auto simp: cloud_commit_def split: if_splits)
  then show ?thesis
    using prune_live_descendant[of "apply_stage who rebuild d" rank r who] forest r by simp
qed

definition sample_nested :: cloud_db where
  "sample_nested =
     \<lparr>cl_items = [((sample_id, ''p''), sample_cloud_item ''p'' None False),
                 ((sample_id, ''c''), sample_cloud_item ''c'' (Some ''p'') False)],
      cl_stage = [((sample_id, ''p''), sample_cloud_item ''p'' None True)], cl_delta = [], cl_tasks = []\<rparr>"

lemma tombstones_have_live_descendants_witness:
  "\<exists>c\<in>set (cl_items (snd (cloud_commit sample_id ''l'' False sample_nested))).
     owned sample_id c \<and> \<not> i_deleted (snd c)"
proof -
  let ?rank = "\<lambda>i. if i = ''p'' then 1 else 0 :: nat"
  let ?p = "((sample_id, ''p''), sample_cloud_item ''p'' None True)"
  have run: "cloud_commit sample_id ''l'' False sample_nested =
      (Inr (), snd (cloud_commit sample_id ''l'' False sample_nested))"
    by (simp add: cloud_commit_def)
  have "set (apply_stage sample_id False sample_nested) = {?p, ((sample_id, ''c''), sample_cloud_item ''c'' (Some ''p'') False)}"
    by (simp add: apply_stage_def sample_nested_def staged_def sql_update_def owned_def sample_cloud_item_def)
  then have forest: "\<forall>c\<in>set (apply_stage sample_id False sample_nested). \<forall>p. i_parent (snd c) = Some p \<longrightarrow>
      ?rank (snd (fst c)) < ?rank p"
    by (auto simp: sample_cloud_item_def)
  have p: "?p \<in> set (cl_items (snd (cloud_commit sample_id ''l'' False sample_nested)))" by code_simp
  have "owned sample_id ?p" "i_deleted (snd ?p)" by code_simp+
  then obtain c where "c \<in> set (cl_items (snd (cloud_commit sample_id ''l'' False sample_nested)))"
      "owned sample_id c" "\<not> i_deleted (snd c)"
    using tombstones_have_live_descendants[OF run forest p] by blast
  then show ?thesis by auto
qed

end
