(* ===== verification/GraphIndex.thy ===== *)
theory GraphIndex
  imports GraphContract CloudIndex
begin

text \<open>
  crates/twodrive-backend/src/onedrive/browse.rs and readonly.rs: bounded metadata queries whose
  continuations never leave Graph, the staging of a delta into the read-only index, and the
  resumable download of a file that is bound to the version of the index.  The index of
  crates/twodrive-core/src/database/cloud.rs is kept beside the service in the client's world.
\<close>

section \<open>Targets\<close>

definition trusted_graph :: "'n web \<Rightarrow> string \<Rightarrow> graph_error fault + url" where
  "trusted_graph web text =
     (case parse_url web text of
        None \<Rightarrow> Inl (Bail ''untrusted_graph_target'')
      | Some u \<Rightarrow>
          if url_scheme u = ''https'' \<and> url_host u = Some ''graph.microsoft.com'' \<and> url_port u = Some 443 \<and>
             url_username u = [] \<and> url_password u = None \<and> url_fragment u = None \<and> prefix ''/v1.0/'' (url_path u)
          then Inr u else Inl (Bail ''untrusted_graph_target''))"

text \<open>The url crate appends the segments, escaped, to the address of Graph.\<close>

definition endpoint :: "'n web \<Rightarrow> string list \<Rightarrow> graph_error fault + string" where
  "endpoint web segments =
     (if list_ex (\<lambda>s. s = [] \<or> s = ''.'' \<or> s = ''..'' \<or> 1024 \<le> byte_len s) segments
      then Inl (Bail ''invalid_item_id'') else Inr (path_segments web segments))"

definition required :: "json \<Rightarrow> string \<Rightarrow> graph_error fault + string" where
  "required v key =
     (case Option.bind (json_get v key) as_str of
        None \<Rightarrow> Inl (Bail ''invalid_graph_metadata'')
      | Some s \<Rightarrow> if s = [] then Inl (Bail ''invalid_graph_metadata'') else Inr s)"

section \<open>Bounded queries\<close>

definition set_browse_retry :: "nat \<Rightarrow> ('n, unit) gact" where
  "set_browse_retry delay = update_client (\<lambda>c. c\<lparr>cl_browse_retry_until := Some (cl_instant c + delay)\<rparr>)"

definition browse_auth_error :: "graph_error fault \<Rightarrow> ('n, 'a) gact" where
  "browse_auth_error err =
     (case err of
        CloudFault (Refused f) \<Rightarrow>
          if rf_status f = 429
          then act_bind (set_browse_retry (rf_retry_after f)) (\<lambda>_. act_fail (Bail ''rate_limited_retry_later''))
          else if 500 \<le> rf_status f then act_fail (Bail ''service_unavailable'')
          else act_fail (Bail ''reauthentication_required'')
      | CloudFault (RawRequest k) \<Rightarrow>
          act_fail (Bail (if k = Timeout then ''browse_timeout'' else ''network_unavailable''))
      | _ \<Rightarrow> act_fail (Bail ''reauthentication_required''))"

text \<open>A refresh that never reached the service fails with a TransportFailure, not with a reqwest::Error.\<close>

lemma offline_is_taken_for_login:
  "browse_auth_error (CloudFault (NoResponse f)) = act_fail (Bail ''reauthentication_required'')"
  by (simp add: browse_auth_error_def)

definition or_auth_error :: "('n, 'a) gact \<Rightarrow> ('n, 'a) gact" where
  "or_auth_error m =
     act_bind (attempt m) (\<lambda>r. case r of Inl err \<Rightarrow> browse_auth_error err | Inr a \<Rightarrow> act_return a)"

definition browse_request :: "string \<Rightarrow> string \<Rightarrow> request" where
  "browse_request url token = (graph_request GET url token)\<lparr>rq_client := BrowseClient\<rparr>"

definition status_error :: "u16 \<Rightarrow> string" where
  "status_error status =
     (if status = 401 then ''reauthentication_required''
      else if status = 403 then ''permission_denied''
      else if status = 404 then ''item_not_found''
      else if status = 410 then ''delta_expired''
      else if 300 \<le> status \<and> status \<le> 399 then ''redirect_rejected''
      else ''graph_request_failed'')"

text \<open>At most 256 KiB of a page are read.\<close>

definition bounded_json :: "response \<Rightarrow> ('n, json) gact" where
  "bounded_json r =
     (if 262144 < sum_list (rs_chunks r) then act_fail (Bail ''metadata_page_too_large'')
      else if rs_break r \<noteq> None then act_fail (Bail ''network_unavailable'')
      else case rs_json r of None \<Rightarrow> act_fail (Bail ''invalid_graph_metadata'') | Some v \<Rightarrow> act_return v)"

definition cooldown :: "'n client world \<Rightarrow> nat" where
  "cooldown w =
     (case cl_browse_retry_until (w_cloud w) of None \<Rightarrow> 0 | Some until \<Rightarrow> until - cl_instant (w_cloud w))"

text \<open>Duration::from_secs(90).saturating_sub(started.elapsed()).\<close>

definition time_left :: "nat \<Rightarrow> 'n client world \<Rightarrow> nat" where
  "time_left started w = 90000 - (cl_instant (w_cloud w) - started)"

text \<open>The start of a round: the cool-down, the time limit, the token, and the exchange.\<close>

definition browse_exchange ::
    "'n web \<Rightarrow> string \<Rightarrow> ('n, unit) gact \<Rightarrow> nat \<Rightarrow> ('n, string \<times> (transport_kind + response)) gact" where
  "browse_exchange web url chk started =
     act_bind chk (\<lambda>_.
     act_bind (read_world (\<lambda>w. (cooldown w, time_left started w))) (\<lambda>(wait, left).
     act_bind (ensure (wait \<le> left) ''rate_limited_retry_later'') (\<lambda>_.
     act_bind (checked_delay web wait chk) (\<lambda>_.
     act_bind (read_world (time_left started)) (\<lambda>left.
     act_bind (ensure (0 < left) ''browse_timeout'') (\<lambda>_.
     act_bind (or_auth_error (access_token web)) (\<lambda>token.
     act_bind chk (\<lambda>_.
     act_bind (exchange web (browse_request url token)) (\<lambda>answer.
     act_bind chk (\<lambda>_. act_return (token, answer)))))))))))"

definition browse_retryable :: "u16 \<Rightarrow> bool" where
  "browse_retryable status = (status = 429 \<or> 500 \<le> status \<or> status = 408)"

text \<open>The delay before another round, noted for all queries after a throttle.\<close>

definition browse_delay :: "'n web \<Rightarrow> nat \<Rightarrow> response \<Rightarrow> ('n, nat) gact" where
  "browse_delay web attempts r =
     at_now (\<lambda>now.
       let delay = (case retry_after web now r of None \<Rightarrow> 250 * 2 ^ attempts | Some d \<Rightarrow> d) in
       act_bind (if rs_status r = 429 then set_browse_retry delay else act_return ()) (\<lambda>_. act_return delay))"

function browse_rounds ::
    "'n web \<Rightarrow> string \<Rightarrow> ('n, unit) gact \<Rightarrow> nat \<Rightarrow> bool \<Rightarrow> nat \<Rightarrow> ('n, json) gact" where
  "browse_rounds web url chk started refreshed attempts =
     act_bind (browse_exchange web url chk started) (\<lambda>(token, answer).
       case answer of
         Inl kind \<Rightarrow>
           if attempts + 1 < 3 then
             act_bind (checked_delay web (250 * 2 ^ (attempts + 1)) chk) (\<lambda>_.
               browse_rounds web url chk started refreshed (attempts + 1))
           else act_fail (Bail (if kind = Timeout then ''browse_timeout'' else ''network_unavailable''))
       | Inr r \<Rightarrow>
           if rs_status r = 401 \<and> \<not> refreshed then
             act_bind (or_auth_error (refresh_rejected_token web token)) (\<lambda>_.
               browse_rounds web url chk started True attempts)
           else if browse_retryable (rs_status r) then
             act_bind (browse_delay web (attempts + 1) r) (\<lambda>delay.
             act_bind (read_world (time_left started)) (\<lambda>left.
               if attempts + 1 < 3 \<and> delay \<le> left then
                 act_bind (checked_delay web delay chk) (\<lambda>_.
                   browse_rounds web url chk started refreshed (attempts + 1))
               else act_fail (Bail (if rs_status r = 429 then ''rate_limited_retry_later'' else ''service_unavailable''))))
           else if \<not> is_success r then act_fail (Bail (status_error (rs_status r)))
           else bounded_json r)"
  by pat_completeness auto

termination
  by (relation "measures [\<lambda>(web, url, chk, started, refreshed, attempts). 3 - attempts,
                          \<lambda>(web, url, chk, started, refreshed, attempts). if refreshed then 0 else 1 :: nat]") auto

declare browse_rounds.simps [simp del]

definition browse_json :: "'n web \<Rightarrow> string \<Rightarrow> ('n, unit) gact \<Rightarrow> ('n, json) gact" where
  "browse_json web url chk =
     act_bind (from_result (trusted_graph web url)) (\<lambda>_.
     act_bind (client cl_instant) (\<lambda>started. browse_rounds web url chk started False 0))"

section \<open>A directory\<close>

record cloud_item =
  ci_id :: string
  ci_name :: string
  ci_kind :: string
  ci_size :: "u64 option"
  ci_modified :: "string option"

record directory_page =
  dp_account_id :: string
  dp_drive_id :: string
  dp_item_id :: string
  dp_items :: "cloud_item list"
  dp_has_more :: bool
  dp_next :: "string option"

definition item_kind :: "json \<Rightarrow> string" where
  "item_kind v =
     (if json_get v ''remoteItem'' \<noteq> None \<or> json_get v ''package'' \<noteq> None then ''unsupported''
      else if json_get v ''folder'' \<noteq> None then ''folder''
      else if json_get v ''file'' \<noteq> None then ''file''
      else ''unsupported'')"

definition parse_cloud_item :: "json \<Rightarrow> graph_error fault + cloud_item" where
  "parse_cloud_item v =
     and_then (required v ''id'') (\<lambda>i.
     and_then (required v ''name'') (\<lambda>name.
       Inr \<lparr>ci_id = i, ci_name = name, ci_kind = item_kind v, ci_size = Option.bind (json_get v ''size'') as_u64,
            ci_modified = Option.bind (json_get v ''lastModifiedDateTime'') as_str\<rparr>))"

text \<open>Iterator::collect into a Result: the first error wins.\<close>

fun collect_results :: "('a \<Rightarrow> 'e + 'b) \<Rightarrow> 'a list \<Rightarrow> 'e + 'b list" where
  "collect_results f [] = Inr []"
| "collect_results f (x # xs) = and_then (f x) (\<lambda>y. and_then (collect_results f xs) (\<lambda>ys. Inr (y # ys)))"

text \<open>A continuation must have the path of the first page.\<close>

definition same_path :: "'n web \<Rightarrow> string \<Rightarrow> string \<Rightarrow> string \<Rightarrow> graph_error fault + unit" where
  "same_path web message base link =
     and_then (trusted_graph web link) (\<lambda>u.
     and_then (trusted_graph web base) (\<lambda>b.
       if url_path u = url_path b then Inr () else Inl (Bail message)))"

definition drive_query :: string where
  "drive_query = graph_root @ ''/me/drive?$select=id,owner''"

definition account_of :: "json \<Rightarrow> string \<Rightarrow> string" where
  "account_of v drive_id =
     (case Option.bind (json_pointer v [''owner'', ''user'', ''id'']) as_str of None \<Rightarrow> drive_id | Some a \<Rightarrow> a)"

definition array_member :: "json \<Rightarrow> string \<Rightarrow> string \<Rightarrow> graph_error fault + json list" where
  "array_member v key message =
     (case Option.bind (json_get v key) as_array of None \<Rightarrow> Inl (Bail message) | Some xs \<Rightarrow> Inr xs)"

definition next_of :: "json \<Rightarrow> string option" where
  "next_of body = Option.bind (json_get body ''@odata.nextLink'') as_str"

text \<open>Url::parse(&base) of a built address; the continuation is compared by path.\<close>

definition continuation_ok :: "'n web \<Rightarrow> string \<Rightarrow> string \<Rightarrow> graph_error fault + unit" where
  "continuation_ok web base link =
     and_then (trusted_graph web link) (\<lambda>u.
       case parse_url web base of
         None \<Rightarrow> Inl (Bail ''relative URL without a base'')
       | Some b \<Rightarrow>
           if url_path u = url_path b then Inr () else Inl (Bail ''invalid_directory_continuation''))"

definition browse_directory ::
    "'n web \<Rightarrow> string option \<Rightarrow> string option \<Rightarrow> string option \<Rightarrow> ('n, unit) gact \<Rightarrow> ('n, directory_page) gact" where
  "browse_directory web given_drive given_item continuation chk =
     act_bind (browse_json web drive_query chk) (\<lambda>current.
     act_bind (from_result (required current ''id'')) (\<lambda>drive_id.
     act_bind (ensure (case given_drive of None \<Rightarrow> True | Some d \<Rightarrow> d = drive_id) ''account_drive_mismatch'') (\<lambda>_.
     act_bind (from_result (endpoint web
         (case given_item of Some i \<Rightarrow> [''drives'', drive_id, ''items'', i] | None \<Rightarrow> [''drives'', drive_id, ''root'']))) (\<lambda>folder_url.
     act_bind (browse_json web (folder_url @ ''?$select=id,folder,remoteItem,package'') chk) (\<lambda>folder.
     act_bind (ensure (json_get folder ''remoteItem'' = None \<and> json_get folder ''package'' = None)
                ''unsupported_shared_or_package_item'') (\<lambda>_.
     act_bind (ensure (json_get folder ''folder'' \<noteq> None) ''not_a_folder'') (\<lambda>_.
     act_bind (from_result (required folder ''id'')) (\<lambda>item_id.
     act_bind (from_result (endpoint web [''drives'', drive_id, ''items'', item_id, ''children''])) (\<lambda>base.
     act_bind (case continuation of
         Some link \<Rightarrow> act_bind (from_result (continuation_ok web base link)) (\<lambda>_. act_return link)
       | None \<Rightarrow> act_return (base @
           ''?$top=100&$select=id,name,size,lastModifiedDateTime,folder,file,remoteItem,package'')) (\<lambda>url.
     act_bind (browse_json web url chk) (\<lambda>body.
     act_bind (case next_of body of
         None \<Rightarrow> act_return ()
       | Some link \<Rightarrow>
           act_bind (from_result (continuation_ok web base link)) (\<lambda>_.
             ensure (link \<noteq> url) ''invalid_directory_continuation'')) (\<lambda>_.
     act_bind (from_result (array_member body ''value'' ''invalid_graph_metadata'')) (\<lambda>values.
     act_bind (from_result (collect_results parse_cloud_item values)) (\<lambda>items.
     act_bind chk (\<lambda>_.
       act_return \<lparr>dp_account_id = account_of current drive_id, dp_drive_id = drive_id, dp_item_id = item_id,
                   dp_items = items, dp_has_more = next_of body \<noteq> None, dp_next = next_of body\<rparr>)))))))))))))))"

section \<open>The index\<close>

type_synonym 'm indexed = "cloud_db \<times> 'm"

definition index_of :: "'m indexed client world \<Rightarrow> cloud_db" where
  "index_of w = fst (cl_net (w_cloud w))"

definition index_do :: "(cloud_db \<Rightarrow> cloud_db) \<Rightarrow> ('m indexed, unit) gact" where
  "index_do f = update_client (\<lambda>c. c\<lparr>cl_net := (f (fst (cl_net c)), snd (cl_net c))\<rparr>)"

definition parse_item :: "json \<Rightarrow> graph_error fault + indexed_item" where
  "parse_item v =
     (let deleted = (json_get v ''deleted'' \<noteq> None); sz = Option.bind (json_get v ''size'') as_u64 in
      if \<not> deleted \<and> json_get v ''file'' \<noteq> None \<and> json_get v ''remoteItem'' = None \<and> json_get v ''package'' = None \<and>
         sz = None
      then Inl (Bail ''invalid_file_size'')
      else
        and_then (required v ''id'') (\<lambda>i.
        and_then (if deleted then Inr [] else required v ''name'') (\<lambda>name.
          Inr \<lparr>i_id = i, i_parent = Option.bind (json_pointer v [''parentReference'', ''id'']) as_str, i_name = name,
               i_kind = item_kind v, i_size = (case sz of None \<Rightarrow> 0 | Some n \<Rightarrow> n),
               i_etag = (case Option.bind (json_get v ''eTag'') as_str of None \<Rightarrow> [] | Some e \<Rightarrow> e),
               i_modified = Option.bind (json_get v ''lastModifiedDateTime'') as_str, i_deleted = deleted\<rparr>)))"

definition readonly_identity :: "'n web \<Rightarrow> ('n, unit) gact \<Rightarrow> ('n, identity) gact" where
  "readonly_identity web chk =
     act_bind (browse_json web drive_query chk) (\<lambda>v.
     act_bind (from_result (required v ''id'')) (\<lambda>d. act_return \<lparr>account = account_of v d, drive = d\<rparr>))"

text \<open>
  The pages of a delta.  The addresses seen bound the loop; an expired cursor starts it over once,
  as a replacement.
\<close>

definition first_page :: "string \<Rightarrow> string" where
  "first_page base = base @ ''?$top=100''"

function stage_rounds ::
    "'m indexed web \<Rightarrow> identity \<Rightarrow> string \<Rightarrow> ('m indexed, unit) gact \<Rightarrow> bool \<Rightarrow> string list \<Rightarrow> string \<Rightarrow> nat \<Rightarrow>
     ('m indexed, string \<times> bool \<times> nat) gact" where
  "stage_rounds web who base chk rebuild seen url pages =
     act_bind chk (\<lambda>_.
       if url \<in> set seen \<or> 100000 \<le> length seen then act_fail (Bail ''delta_continuation_loop'')
       else
         act_bind (from_result (same_path web ''invalid_delta_continuation'' base url)) (\<lambda>_.
         act_bind (attempt (browse_json web url chk)) (\<lambda>answer.
           case answer of
             Inl err \<Rightarrow>
               if \<not> rebuild \<and> err = Bail ''delta_expired'' then
                 act_bind (index_do (cloud_begin who)) (\<lambda>_.
                   stage_rounds web who base chk True [] (first_page base) pages)
               else act_fail err
           | Inr body \<Rightarrow>
               act_bind (from_result (array_member body ''value'' ''invalid_delta_page'')) (\<lambda>values.
               act_bind (from_result (collect_results parse_item values)) (\<lambda>items.
               act_bind chk (\<lambda>_.
               act_bind (index_do (cloud_stage who items)) (\<lambda>_.
                 case next_of body of
                   Some link \<Rightarrow> stage_rounds web who base chk rebuild (url # seen) link (pages + 1)
                 | None \<Rightarrow>
                     act_bind (from_result (required body ''@odata.deltaLink'')) (\<lambda>link.
                     act_bind (from_result (same_path web ''invalid_delta_continuation'' base link)) (\<lambda>_.
                     act_bind chk (\<lambda>_. act_return (link, rebuild, pages + 1)))))))))))"
  by pat_completeness auto

termination
  by (relation "measures [\<lambda>(web, who, base, chk, rebuild, seen, url, pages). if rebuild then 0 else 1 :: nat,
                          \<lambda>(web, who, base, chk, rebuild, seen, url, pages). 100000 - length seen]") auto

declare stage_rounds.simps [simp del]

definition stage_delta ::
    "'m indexed web \<Rightarrow> identity \<Rightarrow> ('m indexed, unit) gact \<Rightarrow> ('m indexed, string \<times> bool \<times> nat) gact" where
  "stage_delta web who chk =
     act_bind (from_result (endpoint web [''drives'', drive who, ''root'', ''delta''])) (\<lambda>base.
     act_bind (read_world (\<lambda>w. cloud_delta who (index_of w))) (\<lambda>previous.
     act_bind (index_do (cloud_begin who)) (\<lambda>_.
       stage_rounds web who base chk (previous = None) []
         (case previous of None \<Rightarrow> first_page base | Some link \<Rightarrow> link) 0)))"

section \<open>A download bound to a version\<close>

definition download_metadata ::
    "'n web \<Rightarrow> identity \<Rightarrow> indexed_item \<Rightarrow> ('n, unit) gact \<Rightarrow> ('n, json) gact" where
  "download_metadata web who it chk =
     act_bind (from_result (endpoint web [''drives'', drive who, ''items'', i_id it])) (\<lambda>url.
     act_bind (browse_json web url chk) (\<lambda>v.
     act_bind (from_result (parse_item v)) (\<lambda>current.
     act_bind (ensure (i_id current = i_id it \<and> i_kind current = ''file'' \<and> i_etag it \<noteq> [] \<and>
                 i_etag current = i_etag it \<and> i_size current = i_size it) ''cloud_version_changed'') (\<lambda>_.
       act_return v))))"

text \<open>The partial file: opened or created, its length, its truncation and a write at an offset.\<close>

definition open_partial :: "string \<Rightarrow> ('n, unit) gact" where
  "open_partial path w =
     (case w_disk w path of
        None \<Rightarrow> (Inr (), w\<lparr>w_disk := (w_disk w)(path \<mapsto> RegularFile 0 Free)\<rparr>)
      | Some (RegularFile len a) \<Rightarrow> (if a = OpenFails then Inl IoFault else Inr (), w)
      | Some _ \<Rightarrow> (Inl IoFault, w))"

definition partial_len :: "string \<Rightarrow> 'c world \<Rightarrow> nat" where
  "partial_len path w = (case w_disk w path of Some n \<Rightarrow> unat (node_len n) | None \<Rightarrow> 0)"

definition resize :: "string \<Rightarrow> (nat \<Rightarrow> nat) \<Rightarrow> 'c world \<Rightarrow> 'c world" where
  "resize path f w =
     (case w_disk w path of
        Some (RegularFile len a) \<Rightarrow> w\<lparr>w_disk := (w_disk w)(path \<mapsto> RegularFile (of_nat (f (unat len))) a)\<rparr>
      | _ \<Rightarrow> w)"

text \<open>A truncation or a sync fails like a write of nothing.\<close>

definition file_step :: "'n web \<Rightarrow> string \<Rightarrow> nat \<Rightarrow> (nat \<Rightarrow> nat) \<Rightarrow> ('n, unit) gact" where
  "file_step web path n f w =
     (case write_bytes web path n w of
        (False, w') \<Rightarrow> (Inl IoFault, w')
      | (True, w') \<Rightarrow> (Inr (), resize path f w'))"

definition set_len :: "'n web \<Rightarrow> string \<Rightarrow> nat \<Rightarrow> ('n, unit) gact" where
  "set_len web path len = file_step web path 0 (\<lambda>_. len)"

definition write_at :: "'n web \<Rightarrow> string \<Rightarrow> nat \<Rightarrow> nat \<Rightarrow> ('n, unit) gact" where
  "write_at web path offset n = file_step web path n (\<lambda>len. max len (offset + n))"

definition sync_all :: "'n web \<Rightarrow> string \<Rightarrow> ('n, unit) gact" where
  "sync_all web path = file_step web path 0 (\<lambda>len. len)"

abbreviation download_error :: "graph_error fault" where
  "download_error \<equiv> Bail ''download_network_error''"

fun copy_partial ::
    "'n web \<Rightarrow> string \<Rightarrow> nat \<Rightarrow> ('n, unit) gact \<Rightarrow> (nat \<Rightarrow> ('n, unit) gact) \<Rightarrow> transport_kind option \<Rightarrow> nat list \<Rightarrow>
     nat \<Rightarrow> ('n, nat) gact" where
  "copy_partial web path sz chk progress broken [] offset =
     act_bind chk (\<lambda>_. if broken = None then act_return offset else act_fail download_error)"
| "copy_partial web path sz chk progress broken (n # ns) offset =
     act_bind chk (\<lambda>_.
       if n = 0 then act_return offset
       else
         act_bind (ensure (offset + n \<le> sz) ''invalid_content_length'') (\<lambda>_.
         act_bind (write_at web path offset n) (\<lambda>_.
         act_bind (progress (offset + n)) (\<lambda>_.
           copy_partial web path sz chk progress broken ns (offset + n)))))"

definition transfer ::
    "'n web \<Rightarrow> string \<Rightarrow> nat \<Rightarrow> ('n, unit) gact \<Rightarrow> (nat \<Rightarrow> ('n, unit) gact) \<Rightarrow> nat \<Rightarrow> transport_kind + response \<Rightarrow>
     ('n, unit) gact" where
  "transfer web path sz chk progress offset answer =
     (case answer of
        Inl _ \<Rightarrow> act_fail download_error
      | Inr r \<Rightarrow>
          if rs_status r = 429 \<or> rs_status r = 503 then
            at_now (\<lambda>now.
              let delay = (case retry_after web now r of None \<Rightarrow> 1000 | Some d \<Rightarrow> d) in
              act_bind (ensure (delay \<le> 30000) ''rate_limited_retry_later'') (\<lambda>_.
              act_bind (checked_delay web delay chk) (\<lambda>_. act_fail download_error)))
          else
            act_bind (ensure (rs_status r = 200 \<or> rs_status r = 206) ''download_http_error'') (\<lambda>_.
            act_bind (if rs_status r = 200
                      then act_bind (set_len web path 0) (\<lambda>_. act_bind (progress 0) (\<lambda>_. act_return 0))
                      else act_bind (ensure (header r ''content-range'' = Some (content_range offset (sz - 1) sz))
                                       ''invalid_content_range'') (\<lambda>_. act_return offset)) (\<lambda>start.
            act_bind (copy_partial web path sz chk progress (rs_break r) (rs_chunks r) start) (\<lambda>finish.
              ensure (finish = sz) ''download_network_error''))))"

definition download_request :: "string \<Rightarrow> nat \<Rightarrow> request" where
  "download_request link offset =
     (plain_request GET link)\<lparr>rq_client := BareClient,
        rq_headers := [(''Range'', ''bytes='' @ decimal offset @ ''-''), (''Accept-Encoding'', ''identity'')]\<rparr>"

text \<open>A signed address: HTTPS without credentials; no Microsoft token is sent to it.\<close>

definition download_target :: "'n web \<Rightarrow> string \<Rightarrow> bool" where
  "download_target web link =
     (case parse_url web link of
        None \<Rightarrow> False
      | Some u \<Rightarrow> url_scheme u = ''https'' \<and> url_username u = [] \<and> url_password u = None \<and> url_fragment u = None)"

definition transfer_retryable :: "graph_error fault \<Rightarrow> bool" where
  "transfer_retryable err = (err = download_error \<or> err = Bail ''download_http_error'')"

fun partial_attempts ::
    "'n web \<Rightarrow> identity \<Rightarrow> indexed_item \<Rightarrow> string \<Rightarrow> ('n, unit) gact \<Rightarrow> (nat \<Rightarrow> ('n, unit) gact) \<Rightarrow> nat list \<Rightarrow>
     ('n, unit) gact" where
  "partial_attempts web who it path chk progress [] = act_fail (Bail ''download_retry_exhausted'')"
| "partial_attempts web who it path chk progress (k # ks) =
     act_bind chk (\<lambda>_.
     act_bind (download_metadata web who it chk) (\<lambda>meta.
     act_bind (read_world (partial_len path)) (\<lambda>offset.
     act_bind (progress offset) (\<lambda>_.
       if offset = unat (i_size it) then sync_all web path
       else
         act_bind (from_result (required meta ''@microsoft.graph.downloadUrl'')) (\<lambda>link.
         act_bind (ensure (download_target web link) ''invalid_download_target'') (\<lambda>_.
         act_bind (exchange web (download_request link offset)) (\<lambda>answer.
         act_bind chk (\<lambda>_.
         act_bind (attempt (transfer web path (unat (i_size it)) chk progress offset answer)) (\<lambda>done_it.
         act_bind (sync_all web path) (\<lambda>_.
         act_bind chk (\<lambda>_.
           case done_it of
             Inr _ \<Rightarrow> act_bind (download_metadata web who it chk) (\<lambda>_. act_return ())
           | Inl err \<Rightarrow>
               if k < 2 \<and> transfer_retryable err then
                 act_bind (checked_delay web 500 chk) (\<lambda>_. partial_attempts web who it path chk progress ks)
               else act_fail err)))))))))))"

definition download_partial ::
    "'n web \<Rightarrow> identity \<Rightarrow> indexed_item \<Rightarrow> string \<Rightarrow> ('n, unit) gact \<Rightarrow> (nat \<Rightarrow> ('n, unit) gact) \<Rightarrow> ('n, unit) gact" where
  "download_partial web who it path chk progress =
     act_bind (open_partial path) (\<lambda>_.
     act_bind (read_world (partial_len path)) (\<lambda>len.
     act_bind (ensure (len \<le> unat (i_size it)) ''invalid_partial_size'') (\<lambda>_.
       partial_attempts web who it path chk progress [0, 1, 2])))"

section \<open>What browsing keeps\<close>

definition trusted :: "'n web \<Rightarrow> string \<Rightarrow> bool" where
  "trusted web url = (case trusted_graph web url of Inr _ \<Rightarrow> True | Inl _ \<Rightarrow> False)"

locale browse_steps = web_steps web P R
  for web :: "'n web" and P :: "'n client world \<Rightarrow> bool" and R :: "request \<Rightarrow> transport_kind + response \<Rightarrow> bool" +
  assumes browse_noted: "trusted web url \<Longrightarrow> R (browse_request url token) answer"
begin

lemma keeps_set_browse_retry: "act_keeps P (set_browse_retry delay)"
  unfolding set_browse_retry_def by (intro keeps_update) simp_all

lemma keeps_auth_error: "act_keeps P (browse_auth_error err)"
  by (auto simp: browse_auth_error_def split: fault.split graph_error.split
           intro!: keeps_fail keeps_bind keeps_set_browse_retry)

lemma keeps_or_auth_error: "act_keeps P m \<Longrightarrow> act_keeps P (or_auth_error m)"
  unfolding or_auth_error_def by (intro keeps_bind keeps_attempt keeps_sum keeps_auth_error keeps_return)

lemma keeps_browse_exchange:
  "act_keeps P chk \<Longrightarrow> trusted web url \<Longrightarrow> act_keeps P (browse_exchange web url chk started)"
  unfolding browse_exchange_def
  by (intro keeps_bind keeps_prod keeps_read_world keeps_ensure keeps_delay keeps_or_auth_error keeps_access_token
        keeps_exchange keeps_return browse_noted)

lemma keeps_browse_delay: "act_keeps P (browse_delay web k r)"
  unfolding browse_delay_def Let_def
  by (intro keeps_now keeps_bind keeps_if keeps_set_browse_retry keeps_return)

lemma keeps_bounded_json: "act_keeps P (bounded_json r)"
  unfolding bounded_json_def by (intro keeps_if keeps_fail keeps_option keeps_return)

lemma keeps_browse_rounds:
  assumes "act_keeps P chk" "trusted web url"
  shows "act_keeps P (browse_rounds web url chk started refreshed attempts)"
proof (induction "(3 - attempts, if refreshed then 0 else 1 :: nat)" arbitrary: refreshed attempts
    rule: wf_induct_rule[OF wf_lex_prod[OF wf_less wf_less]])
  case (1 refreshed attempts)
  have again: "act_keeps P (browse_rounds web url chk started b (Suc attempts))" if "attempts < 2" for b
    using that by (intro 1) auto
  have refresh: "act_keeps P (browse_rounds web url chk started True attempts)" if "\<not> refreshed"
    using that by (intro 1) auto
  show ?case
    by (subst browse_rounds.simps)
       (auto intro!: keeps_bind keeps_browse_exchange keeps_delay keeps_fail keeps_or_auth_error keeps_refresh_rejected
          keeps_browse_delay keeps_read_world keeps_bounded_json again refresh assms split: sum.split)
qed

lemma keeps_browse_json: "act_keeps P chk \<Longrightarrow> act_keeps P (browse_json web url chk)"
  unfolding browse_json_def
  by (rule keeps_bind_yields[OF keeps_from_result yields_from_result])
     (auto intro!: keeps_bind keeps_client keeps_browse_rounds simp: trusted_def)

lemma keeps_browse_directory:
  "act_keeps P chk \<Longrightarrow> act_keeps P (browse_directory web d i c chk)"
  unfolding browse_directory_def
  by (intro keeps_bind keeps_browse_json keeps_from_result keeps_ensure keeps_option keeps_return)

lemma keeps_readonly_identity: "act_keeps P chk \<Longrightarrow> act_keeps P (readonly_identity web chk)"
  unfolding readonly_identity_def by (intro keeps_bind keeps_browse_json keeps_from_result keeps_return)

lemma keeps_download_metadata: "act_keeps P chk \<Longrightarrow> act_keeps P (download_metadata web who it chk)"
  unfolding download_metadata_def by (intro keeps_bind keeps_browse_json keeps_from_result keeps_ensure keeps_return)

end

lemma keeps_stage_rounds:
  assumes "\<And>url. act_keeps P (browse_json web url chk)" "act_keeps P chk"
    and "act_keeps P (index_do (cloud_begin who))" "\<And>items. act_keeps P (index_do (cloud_stage who items))"
  shows "act_keeps P (stage_rounds web who base chk rebuild seen url pages)"
proof (induction "(if rebuild then 0 else 1 :: nat, 100000 - length seen)" arbitrary: rebuild seen url pages
    rule: wf_induct_rule[OF wf_lex_prod[OF wf_less wf_less]])
  case (1 rebuild seen url pages)
  have restart: "act_keeps P (stage_rounds web who base chk True [] url' pages)" if "\<not> rebuild" for url'
    using that by (intro 1) auto
  have next_page: "act_keeps P (stage_rounds web who base chk rebuild (url # seen) url' (Suc pages))"
    if "\<not> 100000 \<le> length seen" for url'
    using that by (intro 1) auto
  show ?case
    by (subst stage_rounds.simps)
       (auto intro!: keeps_bind keeps_if keeps_from_result keeps_attempt keeps_fail keeps_return restart next_page assms
          split: sum.split option.split)
qed

lemma keeps_stage_delta:
  assumes "\<And>url. act_keeps P (browse_json web url chk)" "act_keeps P chk"
    and "act_keeps P (index_do (cloud_begin who))" "\<And>items. act_keeps P (index_do (cloud_stage who items))"
  shows "act_keeps P (stage_delta web who chk)"
  unfolding stage_delta_def
  by (intro keeps_bind keeps_from_result keeps_read_world assms keeps_stage_rounds)

section \<open>Requests of browsing\<close>

definition browse_only :: "'n web \<Rightarrow> ('n, 'a) gact \<Rightarrow> bool" where
  "browse_only web m =
     does (\<lambda>xs r. List.list_all (\<lambda>(req, answer). rq_bearer req = None \<or> trusted web (rq_url req)) xs) m"

definition browse_log :: "'n web \<Rightarrow> trace \<Rightarrow> 'n client world \<Rightarrow> bool" where
  "browse_log web l w =
     (\<exists>xs. log_of w = l @ xs \<and> List.list_all (\<lambda>(req, answer). rq_bearer req = None \<or> trusted web (rq_url req)) xs)"

lemma browse_log_steps:
  "quiet web \<Longrightarrow> browse_steps web (browse_log web l) (\<lambda>req answer. rq_bearer req = None \<or> trusted web (rq_url req))"
  by unfold_locales
     (auto simp: quiet_def browse_log_def note_exchange_def refresh_token_request_def plain_request_def
        browse_request_def graph_request_def)

lemma browse_onlyI:
  fixes m :: "('n, 'a) gact"
  shows "(\<And>l. act_keeps (browse_log web l) m) \<Longrightarrow> browse_only web m"
proof (unfold browse_only_def does_def, intro allI)
  fix w :: "'n client world"
  assume "\<And>l. act_keeps (browse_log web l) m"
  then have "act_keeps (browse_log web (log_of w)) m" .
  moreover have "browse_log web (log_of w) w" by (simp add: browse_log_def)
  ultimately show "\<exists>xs. log_of (snd (m w)) = log_of w @ xs \<and>
      List.list_all (\<lambda>(req, answer). rq_bearer req = None \<or> trusted web (rq_url req)) xs"
    by (simp add: act_keeps_def browse_log_def)
qed

lemma silent_browse_log: "silent m \<Longrightarrow> act_keeps (browse_log web l) m"
  by (simp add: silent_def act_keeps_def browse_log_def)

lemma browse_log_client: "(\<And>c. cl_log (f c) = cl_log c) \<Longrightarrow> act_keeps (browse_log web l) (update_client f)"
  by (simp add: act_keeps_def update_client_def browse_log_def)

lemma silent_file_step: "quiet web \<Longrightarrow> silent (file_step web path n f)"
  unfolding silent_def
proof
  fix w :: "'a client world"
  assume "quiet web"
  obtain ok v where v: "write_bytes web path n w = (ok, v)" by (cases "write_bytes web path n w")
  with \<open>quiet web\<close> have "log_of v = log_of w" unfolding quiet_def by (metis snd_conv)
  then show "log_of (snd (file_step web path n f w)) = log_of w"
    using v by (cases ok) (auto simp: file_step_def resize_def split: option.split node.split)
qed

lemma silent_guard: "silent (ensure b message)"
  by (simp add: ensure_def silent_basic)

lemma silent_if: "silent m \<Longrightarrow> silent n \<Longrightarrow> silent (if b then m else n)"
  by simp

lemma silent_copy:
  assumes "quiet web" "silent chk" "\<And>n. silent (progress n)"
  shows "silent (copy_partial web path sz chk progress broken ns offset)"
proof (induction ns arbitrary: offset)
  case Nil
  show ?case unfolding copy_partial.simps by (intro silent_bind silent_if silent_basic assms)
next
  case (Cons n ns)
  show ?case unfolding copy_partial.simps write_at_def
    by (intro silent_bind silent_if silent_basic(1) silent_guard assms silent_file_step Cons.IH)
qed

lemma silent_transfer:
  assumes "quiet web" "silent chk" "\<And>n. silent (progress n)"
  shows "silent (transfer web path sz chk progress offset answer)"
proof (cases answer)
  case (Inl kind)
  then show ?thesis by (simp add: transfer_def silent_basic)
next
  case (Inr r)
  show ?thesis unfolding Inr transfer_def sum.case Let_def set_len_def
    by (intro silent_if silent_now silent_bind silent_guard silent_basic(1,2) silent_delay[OF assms(1,2)] assms
          silent_file_step silent_copy[OF assms])
qed

lemma browse_log_partial:
  assumes "quiet web" "silent chk" "\<And>n. silent (progress n)"
  shows "act_keeps (browse_log web l) (download_partial web who it path chk progress)"
proof -
  note steps = browse_log_steps[OF assms(1), of l]
  note step = steps[THEN browse_steps.axioms(1)]
  have exchange: "act_keeps (browse_log web l) (exchange web (download_request link offset))" for link offset
    by (rule web_steps.keeps_exchange[OF step]) (simp add: download_request_def plain_request_def)
  have "act_keeps (browse_log web l) (partial_attempts web who it path chk progress ks)" for ks
  proof (induction ks)
    case Nil
    show ?case by (simp add: keeps_fail)
  next
    case (Cons k ks)
    show ?case unfolding partial_attempts.simps sync_all_def
      by (intro keeps_bind keeps_if keeps_read_world keeps_from_result keeps_ensure keeps_sum keeps_fail keeps_return
            keeps_attempt silent_browse_log[OF silent_file_step[OF assms(1)]] exchange
            silent_browse_log[OF silent_transfer[OF assms]]
            browse_steps.keeps_download_metadata[OF steps] silent_browse_log[OF assms(2)]
            silent_browse_log[OF assms(3)] silent_browse_log[OF silent_delay[OF assms(1,2)]] Cons)
  qed
  moreover have "act_keeps (browse_log web l) (open_partial path)"
    by (auto simp: act_keeps_def open_partial_def browse_log_def split: option.splits node.splits)
  ultimately show ?thesis
    unfolding download_partial_def by (intro keeps_bind keeps_read_world keeps_ensure)
qed

text \<open>C13: Browsing a directory, staging a delta, asking for the account and downloading a file send the
  access token only to addresses on Graph that were checked as such, wherever the continuation
  links, the stored cursor, the drive ids and the download links of the service point.\<close>

theorem continuations_stay_on_graph:
  assumes "quiet web" "silent chk" "\<And>n. silent (progress n)"
  shows "browse_only web (browse_directory web d i link chk) \<and> browse_only web (readonly_identity web chk) \<and>
    browse_only web (stage_delta web who chk) \<and> browse_only web (download_partial web who it path chk progress)"
proof -
  note steps = browse_log_steps[OF assms(1)]
  note chk = silent_browse_log[OF assms(2)]
  have "act_keeps (browse_log web l) (stage_delta web who chk)" for l
    by (intro keeps_stage_delta browse_steps.keeps_browse_json[OF steps] chk)
       (simp_all add: index_do_def browse_log_client)
  then show ?thesis
    by (intro conjI browse_onlyI browse_steps.keeps_browse_directory[OF steps]
          browse_steps.keeps_readonly_identity[OF steps] browse_log_partial assms chk)
qed

abbreviation indexed_web :: "cloud_db script web" where
  "indexed_web \<equiv> scripted_web"

lemma continuations_stay_on_graph_witness:
  "browse_only indexed_web (stage_delta indexed_web \<lparr>account = ''a'', drive = ''d''\<rparr> (act_return ()))"
  using continuations_stay_on_graph[where chk = "act_return ()" and progress = "\<lambda>_. act_return ()",
      OF quiet_scripted silent_basic(1) silent_basic(1)] by blast

interpretation scripted_browse: browse_steps indexed_web "browse_log indexed_web []"
    "\<lambda>req answer. rq_bearer req = None \<or> trusted indexed_web (rq_url req)"
  by (rule browse_log_steps) (rule quiet_scripted)

section \<open>What a staging run leaves\<close>

text \<open>The index has one writer: the other threads leave it alone.\<close>

definition index_still :: "'m indexed web \<Rightarrow> bool" where
  "index_still web =
     ((\<forall>req w. index_of (snd (send web req w)) = index_of w) \<and> (\<forall>n w. index_of (pause web n w) = index_of w) \<and>
      (\<forall>f w. index_of (snd (save_file web f w)) = index_of w))"

definition staged_from :: "identity \<Rightarrow> cloud_db \<Rightarrow> 'm indexed client world \<Rightarrow> bool" where
  "staged_from who d w = (\<exists>items. index_of w = cloud_stage who items (cloud_begin who d))"

lemma index_steps: "index_still web \<Longrightarrow> browse_steps web (\<lambda>w. index_of w = d) (\<lambda>_ _. True)"
  by unfold_locales (auto simp: index_still_def index_of_def note_exchange_def)

lemma staged_steps: "index_still web \<Longrightarrow> browse_steps web (staged_from who d) (\<lambda>_ _. True)"
  by unfold_locales (auto simp: index_still_def staged_from_def index_of_def note_exchange_def)

lemma owned_replaced: "sql_delete (owned who) (replace_row ((who, i), it) rows) = sql_delete (owned who) rows"
  by (auto simp: replace_row_def sql_delete_def owned_def intro!: filter_cong)

lemma begin_discards_stage: "cloud_begin who (cloud_stage who items (cloud_begin who d)) = cloud_begin who d"
proof -
  have "sql_delete (owned who) (foldl (\<lambda>rows it. replace_row ((who, i_id it), it) rows) rows items) =
      sql_delete (owned who) rows" for rows
    by (induction items arbitrary: rows) (simp_all add: owned_replaced)
  then show ?thesis by (simp add: cloud_begin_def cloud_stage_def sql_delete_def)
qed

lemma stage_append: "cloud_stage who ys (cloud_stage who xs d) = cloud_stage who (xs @ ys) d"
  by (simp add: cloud_stage_def)

lemma staged_begin: "act_keeps (staged_from who d) (index_do (cloud_begin who))"
proof (unfold act_keeps_def, intro allI impI)
  fix w :: "'a indexed client world" assume "staged_from who d w"
  then have "cloud_begin who (index_of w) = cloud_stage who [] (cloud_begin who d)"
    by (auto simp: staged_from_def begin_discards_stage) (simp add: cloud_stage_def)
  then show "staged_from who d (snd (index_do (cloud_begin who) w))"
    unfolding staged_from_def by (auto simp: index_do_def update_client_def index_of_def)
qed

lemma staged_stage: "act_keeps (staged_from who d) (index_do (cloud_stage who items))"
proof (unfold act_keeps_def, intro allI impI)
  fix w :: "'a indexed client world" assume "staged_from who d w"
  then obtain xs where "index_of w = cloud_stage who xs (cloud_begin who d)" by (auto simp: staged_from_def)
  then have "cloud_stage who items (index_of w) = cloud_stage who (xs @ items) (cloud_begin who d)"
    by (simp add: stage_append)
  then show "staged_from who d (snd (index_do (cloud_stage who items) w))"
    unfolding staged_from_def by (auto simp: index_do_def update_client_def index_of_def)
qed

text \<open>The cursor of a finished run is not empty, and a replacement stays one.\<close>

lemma required_nonempty: "required v key = Inr s \<Longrightarrow> s \<noteq> []"
  by (auto simp: required_def split: option.splits if_splits)

lemma yields_required: "yields (\<lambda>s. s \<noteq> []) (from_result (required v key))"
  using required_nonempty by (auto simp: yields_def from_result_def)

lemma yieldsD: "yields R m \<Longrightarrow> m w = (Inr a, w') \<Longrightarrow> R a"
  unfolding yields_def by blast

lemma yields_mono: "yields R m \<Longrightarrow> (\<And>a. R a \<Longrightarrow> S a) \<Longrightarrow> yields S m"
  unfolding yields_def by blast

lemma yields_bind2: "yields S m \<Longrightarrow> (\<And>a. S a \<Longrightarrow> yields R (k a)) \<Longrightarrow> yields R (act_bind m k)"
  unfolding yields_def[of R "act_bind m k"]
  by (auto simp: act_bind_def split: prod.splits sum.splits dest!: yieldsD)

definition cursor_ok :: "bool \<Rightarrow> string \<times> bool \<times> nat \<Rightarrow> bool" where
  "cursor_ok rebuild res = (fst res \<noteq> [] \<and> (rebuild \<longrightarrow> fst (snd res)))"

lemma stage_rounds_yields:
  "yields (cursor_ok rebuild) (stage_rounds web who base chk rebuild seen url pages)"
proof (induction "(if rebuild then 0 else 1 :: nat, 100000 - length seen)" arbitrary: rebuild seen url pages
    rule: wf_induct_rule[OF wf_lex_prod[OF wf_less wf_less]])
  case (1 rebuild seen url pages)
  have restart: "yields (cursor_ok False) (stage_rounds web who base chk True [] url' pages)" if "\<not> rebuild" for url'
    by (rule yields_mono[OF 1[of True "[]"]]) (use that in \<open>auto simp: cursor_ok_def\<close>)
  have next_page: "yields (cursor_ok rebuild) (stage_rounds web who base chk rebuild (url # seen) url' (Suc pages))"
    if "\<not> 100000 \<le> length seen" for url'
    using that by (intro 1) auto
  have ends: "yields (cursor_ok rebuild) (act_bind (from_result (required body ''@odata.deltaLink'')) (\<lambda>link.
       act_bind (from_result (same_path web ''invalid_delta_continuation'' base link)) (\<lambda>_.
       act_bind chk (\<lambda>_. act_return (link, rebuild, pages')))))" for body pages'
    by (rule yields_bind2[OF yields_required]) (intro yields_bind yields_return, simp add: cursor_ok_def)
  show ?case
    by (subst stage_rounds.simps)
       (auto intro!: yields_bind yields_fail restart next_page ends split: sum.split option.split)
qed


definition sample_indexed :: "cloud_db script client world" where
  "sample_indexed = scripted_world Map.empty
     (\<lparr>cl_items = [], cl_stage = [], cl_delta = [], cl_tasks = []\<rparr>, [])"

lemma index_still_scripted: "index_still indexed_web"
  by (auto simp: index_still_def index_of_def scripted_web_def scripted_send_def split: list.split prod.split)


end
