(* ===== verification/GraphPartial.thy ===== *)
theory GraphPartial
  imports GraphIndex
begin

text \<open>
  What a finished download of crates/twodrive-backend/src/onedrive/readonly.rs leaves: a file of the
  size of the index, and the word of the service, after the last byte, that this is still its
  version.  Triples state what an action ensures when it answers without an error.
\<close>

section \<open>Triples\<close>

definition ensures :: "('c world \<Rightarrow> bool) \<Rightarrow> ('e, 'c, 'a) act \<Rightarrow> ('a \<Rightarrow> 'c world \<Rightarrow> bool) \<Rightarrow> bool" where
  "ensures P m Q = (\<forall>w a w'. P w \<longrightarrow> m w = (Inr a, w') \<longrightarrow> Q a w')"

lemma ensuresD: "ensures P m Q \<Longrightarrow> P w \<Longrightarrow> m w = (Inr a, w') \<Longrightarrow> Q a w'"
  by (simp add: ensures_def)

lemma ensures_keeps: "act_keeps P m \<Longrightarrow> ensures P m (\<lambda>_. P)"
  by (metis (no_types, lifting) act_keepsD ensures_def)

lemma ensures_bind:
  "ensures P m Q \<Longrightarrow> (\<And>a. ensures (Q a) (k a) R) \<Longrightarrow> ensures P (act_bind m k) R"
  unfolding ensures_def act_bind_def by (fastforce split: prod.splits sum.splits)

lemma ensures_then: "act_keeps P m \<Longrightarrow> (\<And>a. ensures P (k a) R) \<Longrightarrow> ensures P (act_bind m k) R"
  by (rule ensures_bind[OF ensures_keeps])

lemma ensures_fail: "ensures P (act_fail e) Q"
  by (simp add: ensures_def act_fail_def)

lemma ensures_return: "(\<And>w. P w \<Longrightarrow> Q a w) \<Longrightarrow> ensures P (act_return a) Q"
  by (simp add: ensures_def act_return_def)

lemma ensures_weaken: "ensures P m Q \<Longrightarrow> (\<And>w. P' w \<Longrightarrow> P w) \<Longrightarrow> (\<And>a w. Q a w \<Longrightarrow> Q' a w) \<Longrightarrow> ensures P' m Q'"
  unfolding ensures_def by blast

lemma ensures_if: "(b \<Longrightarrow> ensures P m Q) \<Longrightarrow> (\<not> b \<Longrightarrow> ensures P n Q) \<Longrightarrow> ensures P (if b then m else n) Q"
  by simp

lemma ensures_guard: "(b \<Longrightarrow> ensures P (k ()) Q) \<Longrightarrow> ensures P (act_bind (ensure b message) k) Q"
  by (simp add: ensure_def ensures_fail)

lemma ensures_result:
  "(\<And>a. r = Inr a \<Longrightarrow> ensures P (k a) Q) \<Longrightarrow> ensures P (act_bind (from_result r) k) Q"
  by (cases r) (auto simp: ensures_def act_bind_def from_result_def)

lemma ensures_now: "(\<And>n. ensures P (f n) Q) \<Longrightarrow> ensures P (at_now f) Q"
  by (simp add: ensures_def at_now_def)

lemma ensures_read:
  "(\<And>a. ensures (\<lambda>w. P w \<and> f w = a) (k a) Q) \<Longrightarrow> ensures P (act_bind (read_world f) k) Q"
  by (auto simp: ensures_def act_bind_def read_world_def)

lemma ensures_sum:
  "(\<And>a. x = Inl a \<Longrightarrow> ensures P (m a) Q) \<Longrightarrow> (\<And>b. x = Inr b \<Longrightarrow> ensures P (n b) Q) \<Longrightarrow>
   ensures P (case x of Inl a \<Rightarrow> m a | Inr b \<Rightarrow> n b) Q"
  by (cases x) auto

lemma ensures_prod: "(\<And>a b. ensures P (f a b) Q) \<Longrightarrow> ensures P (case x of (a, b) \<Rightarrow> f a b) Q"
  by (cases x) simp

lemma ensures_attempt:
  assumes "ensures P m Q" "act_keeps I m" "\<And>w. P w \<Longrightarrow> I w"
    and "\<And>e. ensures I (k (Inl e)) R" "\<And>a. ensures (\<lambda>w. I w \<and> Q a w) (k (Inr a)) R"
  shows "ensures P (act_bind (attempt m) k) R"
proof (unfold ensures_def, intro allI impI)
  fix w b w'' assume w: "P w" and run: "act_bind (attempt m) k w = (Inr b, w'')"
  obtain r w' where r: "m w = (r, w')" by (cases "m w")
  have k: "k r w' = (Inr b, w'')" using run r by (simp add: act_bind_def attempt_def)
  have i: "I w'" using act_keepsD[OF assms(2) assms(3)[OF w] r] .
  show "R b w''"
  proof (cases r)
    case (Inl e)
    then show ?thesis using ensuresD[OF assms(4) i] k by simp
  next
    case (Inr a)
    then have "I w' \<and> Q a w'" using i ensuresD[OF assms(1) w] r by simp
    then show ?thesis using ensuresD[OF assms(5)] k Inr by blast
  qed
qed

section \<open>The file\<close>

definition at_len :: "string \<Rightarrow> nat \<Rightarrow> 'c world \<Rightarrow> bool" where
  "at_len path n w = (\<exists>len a. w_disk w path = Some (RegularFile len a) \<and> unat len = n)"

definition regular :: "string \<Rightarrow> 'c world \<Rightarrow> bool" where
  "regular path w = (\<exists>n. at_len path n w)"

text \<open>The partial file belongs to the downloading thread.\<close>

definition file_alone :: "'n web \<Rightarrow> string \<Rightarrow> bool" where
  "file_alone web path =
     ((\<forall>req w. w_disk (snd (send web req w)) path = w_disk w path) \<and> (\<forall>n w. w_disk (pause web n w) path = w_disk w path) \<and>
      (\<forall>f w. w_disk (snd (save_file web f w)) path = w_disk w path) \<and>
      (\<forall>p n w. w_disk (snd (write_bytes web p n w)) path = w_disk w path))"

definition spares :: "string \<Rightarrow> ('e, 'c, 'a) act \<Rightarrow> bool" where
  "spares path m = (\<forall>w. w_disk (snd (m w)) path = w_disk w path)"

lemma spares_keeps: "spares path m \<longleftrightarrow> (\<forall>x. act_keeps (\<lambda>w. w_disk w path = x) m)"
  by (auto simp: spares_def act_keeps_def)

lemma spares_at_len: "spares path m \<Longrightarrow> act_keeps (at_len path n) m"
  by (simp add: spares_def act_keeps_def at_len_def)

lemma spares_regular: "spares path m \<Longrightarrow> act_keeps (regular path) m"
  by (simp add: spares_def act_keeps_def at_len_def regular_def)

lemma file_steps: "file_alone web path \<Longrightarrow> browse_steps web (\<lambda>w. w_disk w path = x) (\<lambda>_ _. True)"
  by unfold_locales (auto simp: file_alone_def note_exchange_def)

lemma spares_exchange: "file_alone web path \<Longrightarrow> spares path (exchange web req)"
  by (auto simp: spares_def exchange_def note_exchange_def file_alone_def split: prod.split) (metis snd_conv)

lemma spares_metadata: "file_alone web path \<Longrightarrow> spares path chk \<Longrightarrow> spares path (download_metadata web who it chk)"
  unfolding spares_keeps by (intro allI browse_steps.keeps_download_metadata[OF file_steps]) blast+

lemma spares_delay: "file_alone web path \<Longrightarrow> spares path chk \<Longrightarrow> spares path (checked_delay web n chk)"
  unfolding spares_keeps
  by (intro allI web_steps.keeps_delay[OF file_steps[THEN browse_steps.axioms(1)]]) blast+

lemma spares_guard: "spares path (ensure b message)"
  by (simp add: spares_def ensure_def act_return_def act_fail_def)

lemma written_alone:
  "file_alone web path \<Longrightarrow> write_bytes web path m w = (ok, v) \<Longrightarrow> w_disk v path = w_disk w path"
  by (metis file_alone_def snd_conv)

lemma keeps_file_change:
  assumes "file_alone web path"
  shows "act_keeps (regular path) (file_step web path n f)"
proof (unfold act_keeps_def, intro allI impI)
  fix w :: "'a client world" assume "regular path w"
  obtain ok v where v: "write_bytes web path n w = (ok, v)" by (cases "write_bytes web path n w")
  then obtain len a where "w_disk v path = Some (RegularFile len a)"
    using written_alone[OF assms v] \<open>regular path w\<close> by (auto simp: regular_def at_len_def)
  then show "regular path (snd (file_step web path n f w))"
    using v by (cases ok) (simp_all add: file_step_def resize_def regular_def at_len_def)
qed

lemma ensures_file_step:
  assumes "file_alone web path" "f n < 2 ^ 64"
  shows "ensures (at_len path n) (file_step web path m f) (\<lambda>_. at_len path (f n))"
proof (unfold ensures_def, intro allI impI)
  fix w a w' assume len: "at_len path n w" and run: "file_step web path m f w = (Inr a, w')"
  obtain ok v where v: "write_bytes web path m w = (ok, v)" by (cases "write_bytes web path m w")
  then have "w_disk v path = w_disk w path" by (rule written_alone[OF assms(1)])
  with len obtain len acc where "w_disk v path = Some (RegularFile len acc)" "unat len = n"
    by (auto simp: at_len_def)
  moreover from run v have "w' = resize path f v" by (auto simp: file_step_def split: bool.splits)
  ultimately show "at_len path (f n) w'"
    using assms(2) by (auto simp: resize_def at_len_def unat_of_nat)
qed

section \<open>The length\<close>

lemma at_len_bound: "at_len path n w \<Longrightarrow> n < 2 ^ 64"
  using unsigned_less[where 'b = 64 and 'a = nat] by (fastforce simp: at_len_def)

lemma ensures_write:
  "file_alone web path \<Longrightarrow> n + m < 2 ^ 64 \<Longrightarrow>
   ensures (at_len path n) (write_at web path n m) (\<lambda>_. at_len path (n + m))"
  unfolding write_at_def using ensures_file_step[where f = "\<lambda>len. max len (n + m)" and n = n] by simp

lemma ensures_sync: "file_alone web path \<Longrightarrow> ensures (at_len path n) (sync_all web path) (\<lambda>_. at_len path n)"
  unfolding sync_all_def
  by (auto simp: ensures_def intro: ensuresD[OF ensures_file_step[where f = "\<lambda>len. len"]] dest: at_len_bound)

lemma ensures_cleared: "file_alone web path \<Longrightarrow> ensures (at_len path n) (set_len web path 0) (\<lambda>_. at_len path 0)"
  unfolding set_len_def by (rule ensures_file_step) simp_all

lemma ensures_copy:
  assumes "file_alone web path" "spares path chk" "\<And>n. spares path (progress n)" "sz < 2 ^ 64"
  shows "ensures (at_len path offset) (copy_partial web path sz chk progress broken ns offset) (at_len path)"
proof (induction ns arbitrary: offset)
  case Nil
  show ?case unfolding copy_partial.simps
    by (intro ensures_then ensures_if ensures_fail ensures_return spares_at_len assms)
next
  case (Cons n ns)
  have writing: "offset + n \<le> sz \<Longrightarrow> ensures (at_len path offset) (write_at web path offset n) (\<lambda>_. at_len path (offset + n))"
    using assms(4) by (intro ensures_write assms(1)) simp
  show ?case unfolding copy_partial.simps
    by (intro ensures_then[OF spares_at_len[OF assms(2)]] ensures_if ensures_return ensures_guard ensures_bind[OF writing]
          ensures_then[OF spares_at_len[OF assms(3)]] Cons.IH)
qed

lemma ensures_transfer:
  assumes "file_alone web path" "spares path chk" "\<And>n. spares path (progress n)" "sz < 2 ^ 64"
  shows "ensures (at_len path offset) (transfer web path sz chk progress offset answer) (\<lambda>_. at_len path sz)"
proof -
  have copy: "ensures (at_len path a) (copy_partial web path sz chk progress broken ns a) (at_len path)" for a broken ns
    by (rule ensures_copy) (rule assms)+
  have "ensures (at_len path finish) (ensure (finish = sz) message) (\<lambda>_. at_len path sz)" for finish message
    by (simp add: ensure_def ensures_fail ensures_return)
  then have tail: "ensures (at_len path a) (act_bind (copy_partial web path sz chk progress broken ns a)
      (\<lambda>finish. ensure (finish = sz) message)) (\<lambda>_. at_len path sz)" for a broken ns message
    by (rule ensures_bind[OF copy])
  show ?thesis
    unfolding transfer_def Let_def
    by (intro ensures_sum ensures_if ensures_fail ensures_now ensures_guard
          ensures_then[OF spares_at_len[OF spares_delay[OF assms(1,2)]]]
          ensures_bind[where Q = "at_len path"] ensures_bind[OF ensures_cleared[OF assms(1)]]
          ensures_then[OF spares_at_len[OF assms(3)]] ensures_return tail)
qed

lemma regular_copy:
  assumes "file_alone web path" "spares path chk" "\<And>n. spares path (progress n)"
  shows "act_keeps (regular path) (copy_partial web path sz chk progress broken ns offset)"
proof (induction ns arbitrary: offset)
  case Nil
  show ?case unfolding copy_partial.simps by (intro keeps_bind keeps_if keeps_fail keeps_return spares_regular assms)
next
  case (Cons n ns)
  show ?case unfolding copy_partial.simps write_at_def
    by (intro keeps_bind spares_regular[OF assms(2)] spares_regular[OF assms(3)] keeps_if keeps_return keeps_ensure
          keeps_file_change[OF assms(1)] Cons.IH)
qed

lemma regular_transfer:
  assumes "file_alone web path" "spares path chk" "\<And>n. spares path (progress n)"
  shows "act_keeps (regular path) (transfer web path sz chk progress offset answer)"
  unfolding transfer_def Let_def set_len_def
  by (intro keeps_sum keeps_fail keeps_if keeps_now keeps_bind keeps_ensure keeps_return
        spares_regular[OF spares_delay[OF assms(1,2)]] spares_regular[OF assms(3)] keeps_file_change[OF assms(1)]
        regular_copy[OF assms])

lemma ensures_attempts:
  assumes "file_alone web path" "spares path chk" "\<And>n. spares path (progress n)"
  shows "ensures (regular path) (partial_attempts web who it path chk progress ks) (\<lambda>_. at_len path (unat (i_size it)))"
proof (induction ks)
  case Nil
  show ?case by (simp add: ensures_fail)
next
  case (Cons k ks)
  let ?sz = "unat (i_size it)"
  note chk = spares_regular[OF assms(2)] and lens = spares_at_len[OF assms(2)]
  note meta = spares_metadata[OF assms(1,2)]
  have bound: "?sz < 2 ^ 64" using unsigned_less[where 'b = 64 and 'a = nat] by fastforce
  have read: "ensures (regular path) (act_bind (read_world (partial_len path)) f) Q"
    if "\<And>a. ensures (at_len path a) (f a) Q" for f :: "nat \<Rightarrow> ('a, unit) gact" and Q
    by (rule ensures_read, rule ensures_weaken[OF that])
       (auto simp: regular_def at_len_def partial_len_def node_len_def)
  have settle: "ensures (\<lambda>w. regular path w \<and> at_len path ?sz w)
      (act_bind (sync_all web path) (\<lambda>_. act_bind chk (\<lambda>_.
         act_bind (download_metadata web who it chk) (\<lambda>_. act_return ())))) (\<lambda>_. at_len path ?sz)"
    by (rule ensures_weaken[OF ensures_bind[OF ensures_sync[OF assms(1)]]])
       (auto intro: ensures_then[OF lens] ensures_then[OF spares_at_len[OF meta]] ensures_return)
  have again: "ensures (regular path)
      (act_bind (sync_all web path) (\<lambda>_. act_bind chk (\<lambda>_.
         if k < 2 \<and> transfer_retryable err
         then act_bind (checked_delay web 500 chk) (\<lambda>_. partial_attempts web who it path chk progress ks)
         else act_fail err))) (\<lambda>_. at_len path ?sz)" for err
    unfolding sync_all_def
    by (intro ensures_then keeps_file_change[OF assms(1)] chk ensures_if ensures_fail Cons
          spares_regular[OF spares_delay[OF assms(1,2)]])
  have moved: "ensures (at_len path offset)
      (act_bind (attempt (transfer web path ?sz chk progress offset answer)) (\<lambda>done_it.
         act_bind (sync_all web path) (\<lambda>_. act_bind chk (\<lambda>_.
           case done_it of
             Inr _ \<Rightarrow> act_bind (download_metadata web who it chk) (\<lambda>_. act_return ())
           | Inl err \<Rightarrow>
               if k < 2 \<and> transfer_retryable err then
                 act_bind (checked_delay web 500 chk) (\<lambda>_. partial_attempts web who it path chk progress ks)
               else act_fail err)))) (\<lambda>_. at_len path ?sz)" for offset answer
    by (rule ensures_attempt[OF ensures_transfer[OF assms bound] regular_transfer[OF assms]])
       (use settle again in \<open>auto simp: regular_def\<close>)
  show ?case unfolding partial_attempts.simps
    by (intro ensures_then[OF chk] ensures_then[OF spares_regular[OF meta]] read ensures_then[OF spares_at_len[OF assms(3)]]
          ensures_if ensures_result ensures_guard ensures_then[OF spares_at_len[OF spares_exchange[OF assms(1)]]]
          ensures_then[OF lens] moved)
       (auto intro: ensures_weaken[OF ensures_sync[OF assms(1)]])
qed

section \<open>The last word of the service\<close>

definition answered :: "trace \<Rightarrow> string \<Rightarrow> json \<Rightarrow> 'n client world \<Rightarrow> bool" where
  "answered l url v w =
     (\<exists>xs token r. log_of w = l @ xs @ [(browse_request url token, Inr r)] \<and> is_success r \<and> rs_json r = Some v)"

definition logged :: "trace \<Rightarrow> 'n client world \<Rightarrow> bool" where
  "logged l w = (\<exists>xs. log_of w = l @ xs)"

lemma log_steps: "quiet web \<Longrightarrow> browse_steps web (logged l) (\<lambda>_ _. True)"
  by unfold_locales (auto simp: quiet_def logged_def note_exchange_def)

lemma silent_logged: "silent m \<Longrightarrow> act_keeps (logged l) m"
  by (simp add: silent_def act_keeps_def logged_def)

lemma silent_answered: "silent m \<Longrightarrow> act_keeps (answered l url v) m"
  by (simp add: silent_def act_keeps_def answered_def)

lemma ensures_browse_exchange:
  assumes "quiet web" "silent chk"
  shows "ensures (logged l) (browse_exchange web url chk started)
    (\<lambda>(token, answer) w. \<exists>xs. log_of w = l @ xs @ [(browse_request url token, answer)])"
proof -
  note steps = log_steps[OF assms(1), of l]
  note step = steps[THEN browse_steps.axioms(1)]
  have sent: "ensures (logged l) (exchange web (browse_request url token))
      (\<lambda>answer w. \<exists>xs. log_of w = l @ xs @ [(browse_request url token, answer)])" for token
    using assms(1) by (auto simp: ensures_def exchange_def note_exchange_def quiet_def logged_def split: prod.splits)
       (metis snd_conv)
  have noted: "act_keeps (\<lambda>w. \<exists>xs. log_of w = l @ xs @ [(browse_request url token, answer)]) chk" for token answer
    using assms(2) by (simp add: silent_def act_keeps_def)
  show ?thesis
    unfolding browse_exchange_def
    by (intro ensures_then[OF silent_logged[OF assms(2)]] ensures_then[OF keeps_read_world] ensures_prod ensures_guard
          ensures_then[OF web_steps.keeps_delay[OF step silent_logged[OF assms(2)]]]
          ensures_then[OF browse_steps.keeps_or_auth_error[OF steps web_steps.keeps_access_token[OF step]]]
          ensures_bind[OF sent] ensures_then[OF noted] ensures_return) auto
qed

lemma ensures_browse_rounds:
  fixes chk :: "('n, unit) gact"
  assumes "quiet web" "silent chk"
  shows "ensures (logged l) (browse_rounds web url chk started refreshed attempts) (answered l url)"
proof (induction "(3 - attempts, if refreshed then 0 else 1 :: nat)" arbitrary: refreshed attempts
    rule: wf_induct_rule[OF wf_lex_prod[OF wf_less wf_less]])
  case (1 refreshed attempts)
  note steps = log_steps[OF assms(1), of l]
  note step = steps[THEN browse_steps.axioms(1)]
  let ?sent = "\<lambda>token answer w. \<exists>xs. log_of w = l @ xs @ [(browse_request url token, answer)]"
  have sent: "ensures (?sent token answer) m Q" if "ensures (logged l) m Q" for m :: "('n, json) gact" and Q token answer
    by (rule ensures_weaken[OF that]) (auto simp: logged_def)
  have again: "ensures (logged l) (browse_rounds web url chk started b (attempts + 1)) (answered l url)"
    if "attempts + 1 < 3" for b
    using that by (intro 1) auto
  have refresh: "ensures (logged l) (browse_rounds web url chk started True attempts) (answered l url)" if "\<not> refreshed"
    using that by (intro 1) auto
  note delay = ensures_then[OF web_steps.keeps_delay[OF step silent_logged[OF assms(2)]]]
  have body: "ensures (?sent token (Inr r)) (bounded_json r) (answered l url)" if "is_success r" for token r
    using that
    by (auto simp: bounded_json_def answered_def split: option.split
             intro!: ensures_fail ensures_return)
  have answer: "ensures (?sent token answer)
      (case answer of
         Inl kind \<Rightarrow>
           if attempts + 1 < 3 then
             act_bind (checked_delay web (250 * 2 ^ (attempts + 1)) chk) (\<lambda>_.
               browse_rounds web url chk started refreshed (attempts + 1))
           else act_fail (Bail (if kind = Timeout then ''browse_timeout'' else ''network_unavailable''))
       | Inr r \<Rightarrow>
           if rs_status r = 401 \<and> \<not> refreshed then
             act_bind (or_auth_error (refresh_rejected_token web token)) (\<lambda>_.
               browse_rounds web url chk started True attempts)
           else if browse_retryable (rs_status r) then
             act_bind (browse_delay web (attempts + 1) r) (\<lambda>delay.
             act_bind (read_world (time_left started)) (\<lambda>left.
               if attempts + 1 < 3 \<and> delay \<le> left then
                 act_bind (checked_delay web delay chk) (\<lambda>_.
                   browse_rounds web url chk started refreshed (attempts + 1))
               else act_fail (Bail (if rs_status r = 429 then ''rate_limited_retry_later'' else ''service_unavailable''))))
           else if \<not> is_success r then act_fail (Bail (status_error (rs_status r)))
           else bounded_json r) (answered l url)" for token answer
  proof (cases answer)
    case (Inl kind)
    show ?thesis unfolding Inl sum.case by (intro sent ensures_if delay ensures_fail again)
  next
    case (Inr r)
    have "ensures (?sent token (Inr r))
        (if \<not> is_success r then act_fail (Bail (status_error (rs_status r))) else bounded_json r) (answered l url)"
      by (intro ensures_if ensures_fail body) simp
    moreover note sent
    ultimately show ?thesis unfolding Inr sum.case
      by (intro ensures_if sent ensures_fail delay again refresh ensures_then[OF keeps_read_world]
            ensures_then[OF browse_steps.keeps_or_auth_error[OF steps web_steps.keeps_refresh_rejected[OF step]]]
            ensures_then[OF browse_steps.keeps_browse_delay[OF steps]] body) auto
  qed
  show ?case
    by (subst browse_rounds.simps, rule ensures_bind[OF ensures_browse_exchange[OF assms]])
       (auto simp only: split_paired_all prod.case intro!: answer)
qed

lemma ensures_browse_json:
  "quiet web \<Longrightarrow> silent chk \<Longrightarrow> ensures (logged l) (browse_json web url chk) (answered l url)"
  unfolding browse_json_def client_def
  by (intro ensures_result ensures_then[OF keeps_read_world] ensures_browse_rounds)

text \<open>The version the index asked for, as the service just described it.\<close>

definition same_version :: "indexed_item \<Rightarrow> json \<Rightarrow> bool" where
  "same_version it v =
     (case parse_item v of
        Inl _ \<Rightarrow> False
      | Inr current \<Rightarrow>
          i_id current = i_id it \<and> i_kind current = ''file'' \<and> i_etag it \<noteq> [] \<and> i_etag current = i_etag it \<and>
          i_size current = i_size it)"

definition confirmed :: "'n web \<Rightarrow> identity \<Rightarrow> indexed_item \<Rightarrow> trace \<Rightarrow> 'n client world \<Rightarrow> bool" where
  "confirmed web who it l w =
     (\<exists>v. same_version it v \<and>
        answered l (path_segments web [''drives'', drive who, ''items'', i_id it]) v w)"

lemma silent_confirmed: "silent m \<Longrightarrow> act_keeps (confirmed web who it l) m"
  by (simp add: silent_def act_keeps_def answered_def confirmed_def)

lemma confirmedI:
  "same_version it v \<Longrightarrow> answered l url v w \<Longrightarrow> endpoint web [''drives'', drive who, ''items'', i_id it] = Inr url \<Longrightarrow>
   confirmed web who it l w"
  by (auto simp only: confirmed_def endpoint_def sum.inject sum.distinct split: if_splits)

lemma ensures_download_metadata:
  assumes "quiet web" "silent chk"
  shows "ensures (logged l) (download_metadata web who it chk) (\<lambda>_. confirmed web who it l)"
  unfolding download_metadata_def
  by (intro ensures_result ensures_bind[OF ensures_browse_json[OF assms]] ensures_guard ensures_return)
     (erule (1) confirmedI[rotated], simp add: same_version_def)

lemma confirmed_logged: "confirmed web who it l w \<Longrightarrow> logged l w"
  by (auto simp: confirmed_def answered_def logged_def)

lemma ensures_confirmed:
  assumes "quiet web" "silent chk" "\<And>n. silent (progress n)"
  shows "ensures (logged l) (partial_attempts web who it path chk progress ks) (\<lambda>_. confirmed web who it l)"
proof (induction ks)
  case Nil
  show ?case by (simp add: ensures_fail)
next
  case (Cons k ks)
  note chk = silent_logged[OF assms(2)] and meta = ensures_download_metadata[OF assms(1,2)]
  have start: "ensures (confirmed web who it l) m Q" if "ensures (logged l) m Q" for m :: "('a, unit) gact" and Q
    by (rule ensures_weaken[OF that]) (auto dest: confirmed_logged)
  have settle: "ensures (logged l) (act_bind (download_metadata web who it chk) (\<lambda>_. act_return ()))
      (\<lambda>_. confirmed web who it l)"
    by (rule ensures_bind[OF meta]) (rule ensures_return)
  have sync: "silent (sync_all web path)"
    unfolding sync_all_def by (rule silent_file_step[OF assms(1)])
  note exchange = web_steps.keeps_exchange[OF log_steps[OF assms(1), THEN browse_steps.axioms(1)], OF TrueI]
  show ?case unfolding partial_attempts.simps
    by (intro ensures_then[OF chk] ensures_bind[OF meta] ensures_then[OF keeps_read_world]
          ensures_then[OF silent_confirmed[OF assms(3)]] ensures_if)
       (simp add: ensures_keeps silent_confirmed sync,
        intro start ensures_result ensures_guard ensures_then[OF exchange] ensures_then[OF chk]
          ensures_then[OF keeps_attempt[OF silent_logged[OF silent_transfer[OF assms]]]]
          ensures_then[OF silent_logged[OF sync]] ensures_sum settle
          ensures_if ensures_then[OF silent_logged[OF silent_delay[OF assms(1,2)]]] Cons ensures_fail)
qed

section \<open>Properties\<close>

text \<open>C12: A download that reports success has left a regular file of exactly the size the index
  names, whatever was in the partial file before, however the transfer was interrupted and
  resumed, and whether or not the service honoured the range; and the last thing the service
  said, after the last byte was written, is that the item still has the id, the kind, the tag and
  the size of the index.\<close>

theorem partial_download_is_exact:
  assumes "quiet web" "file_alone web path" "silent chk" "spares path chk"
    and "\<And>n. silent (progress n)" "\<And>n. spares path (progress n)"
    and "download_partial web who it path chk progress w = (Inr (), w')"
  shows "at_len path (unat (i_size it)) w' \<and> confirmed web who it (log_of w) w'"
proof
  have opened: "ensures (\<lambda>_. True) (open_partial path) (\<lambda>_. regular path)"
    by (auto simp: ensures_def open_partial_def regular_def at_len_def split: option.splits node.splits if_splits)
  have "ensures (\<lambda>_. True) (download_partial web who it path chk progress) (\<lambda>_. at_len path (unat (i_size it)))"
    unfolding download_partial_def
    by (intro ensures_bind[OF opened] ensures_then[OF keeps_read_world] ensures_guard ensures_attempts assms)
  from ensuresD[OF this TrueI assms(7)] show "at_len path (unat (i_size it)) w'" .
  have silent: "act_keeps (logged (log_of w)) (open_partial path)"
    by (auto simp: act_keeps_def open_partial_def logged_def split: option.splits node.splits)
  have "ensures (logged (log_of w)) (download_partial web who it path chk progress) (\<lambda>_. confirmed web who it (log_of w))"
    unfolding download_partial_def
    by (intro ensures_then[OF silent] ensures_then[OF keeps_read_world] ensures_guard ensures_confirmed assms)
  from ensuresD[OF this _ assms(7)] show "confirmed web who it (log_of w) w'" by (simp add: logged_def)
qed

text \<open>Two bytes of four are there; the service sends the other two and confirms the version.\<close>

definition graph_url :: url where
  "graph_url =
     \<lparr>url_scheme = ''https'', url_host = Some ''graph.microsoft.com'', url_port = Some 443, url_username = [],
      url_password = None, url_fragment = None, url_path = ''/v1.0/drives''\<rparr>"

definition reading_web :: "unit script web" where
  "reading_web = scripted_web\<lparr>parse_url := \<lambda>_. Some graph_url, path_segments := concat\<rparr>"

definition sample_item :: indexed_item where
  "sample_item =
     \<lparr>i_id = ''i'', i_parent = None, i_name = ''n'', i_kind = ''file'', i_size = 4, i_etag = ''v'', i_modified = None,
      i_deleted = False\<rparr>"

definition sample_metadata :: json where
  "sample_metadata = JObject
     [(''id'', JString ''i''), (''name'', JString ''n''), (''file'', JObject []), (''size'', JNumber (PosInt 4)),
      (''eTag'', JString ''v''), (''@microsoft.graph.downloadUrl'', JString ''u'')]"

definition metadata_answer :: "transport_kind + response" where
  "metadata_answer = Inr (plain_response 200 (Some sample_metadata))"

definition rest_answer :: "transport_kind + response" where
  "rest_answer = Inr ((plain_response 206 None)
     \<lparr>rs_headers := [(''content-range'', Some (content_range 2 3 4))], rs_chunks := [2]\<rparr>)"

definition reading_at :: "nat \<Rightarrow> trace \<Rightarrow> (transport_kind + response) list \<Rightarrow> unit script client world" where
  "reading_at len log answers =
     \<lparr>w_db = empty_db, w_disk = [''p'' \<mapsto> RegularFile (of_nat len) Free], w_mtime = (\<lambda>_. None), w_now = 100,
      w_cloud = (scripted_client ((), answers))\<lparr>cl_log := log\<rparr>\<rparr>"

abbreviation sample_who :: identity where
  "sample_who \<equiv> \<lparr>account = ''a'', drive = ''d''\<rparr>"

lemmas reading_defs = reading_at_def reading_web_def scripted_web_def scripted_send_def scripted_client_def
  plain_response_def act_bind_def act_return_def ensure_def from_result_def read_world_def attempt_def exchange_def
  note_exchange_def checked_delay_def delay_rounds.simps elapsed_def at_now_def

lemma sample_parsed: "parse_item sample_metadata = Inr sample_item"
  by (simp add: parse_item_def sample_metadata_def sample_item_def required_def item_kind_def)

lemma sample_query:
  "download_metadata reading_web sample_who sample_item (act_return ()) (reading_at len log (metadata_answer # answers)) =
   (Inr sample_metadata, reading_at len (log @ [(browse_request ''drivesditemsi'' ''token'', metadata_answer)]) answers)"
proof -
  have "browse_json reading_web ''drivesditemsi'' (act_return ()) (reading_at len log (metadata_answer # answers)) =
      (Inr sample_metadata, reading_at len (log @ [(browse_request ''drivesditemsi'' ''token'', metadata_answer)]) answers)"
    by (simp add: reading_defs metadata_answer_def browse_json_def trusted_graph_def graph_url_def client_def
        browse_rounds.simps browse_exchange_def cooldown_def time_left_def or_auth_error_def access_token_def
        bounded_json_def is_success_def browse_retryable_def)
  moreover have "endpoint reading_web [''drives'', ''d'', ''items'', ''i''] = Inr ''drivesditemsi''"
    by (simp add: endpoint_def reading_web_def) code_simp
  ultimately show ?thesis
    by (simp add: download_metadata_def act_bind_def from_result_def sample_parsed ensure_def act_return_def sample_item_def)
qed

lemma sample_transfer:
  "exchange reading_web (download_request ''u'' 2) (reading_at 2 log (rest_answer # answers)) =
     (Inr rest_answer, reading_at 2 (log @ [(download_request ''u'' 2, rest_answer)]) answers)"
  "transfer reading_web ''p'' 4 (act_return ()) (\<lambda>_. act_return ()) 2 rest_answer (reading_at 2 log answers) =
     (Inr (), reading_at 4 log answers)"
  by (simp_all add: reading_defs rest_answer_def transfer_def header_def write_at_def file_step_def resize_def)

lemma sample_file:
  "open_partial ''p'' (reading_at len log answers) = (Inr (), reading_at len log answers)"
  "partial_len ''p'' (reading_at 2 log answers) = 2"
  "sync_all reading_web ''p'' (reading_at len log answers) = (Inr (), reading_at len log answers)"
  by (simp_all add: reading_defs open_partial_def partial_len_def node_len_def sync_all_def file_step_def resize_def)

lemma sample_link:
  "required sample_metadata ''@microsoft.graph.downloadUrl'' = Inr ''u''" "download_target reading_web ''u''"
  "i_size sample_item = 4"
  by (simp_all add: required_def sample_metadata_def download_target_def reading_web_def graph_url_def sample_item_def)

lemma sample_download_ends:
  "fst (download_partial reading_web sample_who sample_item ''p'' (act_return ()) (\<lambda>_. act_return ())
     (reading_at 2 [] [metadata_answer, rest_answer, metadata_answer])) = Inr ()"
  unfolding download_partial_def partial_attempts.simps
  by (simp add: sample_file sample_query sample_transfer sample_link act_bind_def read_world_def ensure_def
      from_result_def attempt_def act_return_def[of "()"])

lemma partial_download_is_exact_witness:
  "at_len ''p'' 4 (snd (download_partial reading_web sample_who sample_item ''p'' (act_return ()) (\<lambda>_. act_return ())
     (reading_at 2 [] [metadata_answer, rest_answer, metadata_answer])))"
proof -
  have web: "quiet reading_web" "file_alone reading_web ''p''"
    by (auto simp: quiet_def file_alone_def reading_web_def scripted_web_def scripted_send_def split: list.split prod.split)
  have chk: "spares path (act_return ())" for path
    by (simp add: spares_def act_return_def)
  show ?thesis
    using partial_download_is_exact[OF web silent_basic(1) chk silent_basic(1) chk prod.collapse[symmetric, of
        "download_partial reading_web sample_who sample_item ''p'' (act_return ()) (\<lambda>_. act_return ())
           (reading_at 2 [] [metadata_answer, rest_answer, metadata_answer])", unfolded sample_download_ends]]
    by (simp add: sample_link)
qed

end
