(* ===== verification/PeerIdentity.thy ===== *)
theory PeerIdentity
  imports Conflicts
begin

text \<open>
  crates/twodrive-peer/src/identity.rs and crypto.rs: the identity of a device, the presence it
  publishes, and the sealed envelopes of control messages.  The primitives (Ed25519, X25519,
  XChaCha20-Poly1305, HKDF, SHA-256), hex, semver and the JSON text of a derived type are code of other crates: the
  record peer_lib.  Random bytes are arguments.
\<close>

section \<open>Values\<close>

type_synonym bytes = string

text \<open>str::as_bytes.\<close>

definition as_bytes :: "string \<Rightarrow> bytes" where
  "as_bytes s = map char_of (utf8 s)"

record version =
  v_major :: nat
  v_minor :: nat
  v_patch :: nat
  v_pre :: string
  v_build :: string

record presence =
  pr_protocol :: "8 word"
  pr_device :: string
  pr_signing :: string
  pr_encryption :: string
  pr_session :: string
  pr_issued :: int
  pr_expires :: int
  pr_version :: string
  pr_platform :: string
  pr_signature :: string

record envelope_header =
  h_protocol :: "8 word"
  h_id :: string
  h_from :: string
  h_to :: string
  h_from_session :: string
  h_to_session :: string
  h_issued :: int
  h_expires :: int
  h_ephemeral :: string
  h_nonce :: string

record envelope =
  header_of :: envelope_header
  ciphertext :: string

datatype message =
    Hello string | HelloAck string | Ping string | Pong string | StatusRequest
  | Status string string nat | UpdateAvailable string

record signed =
  sg_message :: message
  sg_signature :: string

record release_info =
  r_schema :: "8 word"
  r_product :: string
  r_version :: version
  r_platform :: string
  r_file :: string
  r_size :: u64
  r_sha256 :: string
  r_signature :: string

record stored_keys =
  st_version :: "8 word"
  st_signing :: bytes
  st_encryption :: bytes

section \<open>Other crates\<close>

record 'a codec =
  to_vec :: "'a \<Rightarrow> bytes"
  from_slice :: "bytes \<Rightarrow> 'a option"

record peer_lib =
  hex_encode :: "bytes \<Rightarrow> string"
  hex_decode :: "string \<Rightarrow> bytes option"
  sha256 :: "bytes \<Rightarrow> bytes"
  ed_public :: "bytes \<Rightarrow> bytes"
  ed_sign :: "bytes \<Rightarrow> bytes \<Rightarrow> bytes"
  ed_verify :: "bytes \<Rightarrow> bytes \<Rightarrow> bytes \<Rightarrow> bool"
  x_public :: "bytes \<Rightarrow> bytes"
  x_shared :: "bytes \<Rightarrow> bytes \<Rightarrow> bytes option"
  hkdf :: "bytes \<Rightarrow> bytes \<Rightarrow> bytes \<Rightarrow> bytes option"
  aead_encrypt :: "bytes \<Rightarrow> bytes \<Rightarrow> bytes \<Rightarrow> bytes \<Rightarrow> bytes option"
  aead_decrypt :: "bytes \<Rightarrow> bytes \<Rightarrow> bytes \<Rightarrow> bytes \<Rightarrow> bytes option"
  parse_version :: "string \<Rightarrow> version option"
  show_version :: "version \<Rightarrow> string"
  later :: "version \<Rightarrow> version \<Rightarrow> bool"
  presence_codec :: "presence codec"
  header_codec :: "envelope_header codec"
  envelope_codec :: "envelope codec"
  message_codec :: "message codec"
  signed_codec :: "signed codec"
  release_codec :: "release_info codec"
  package_version :: string
  platform :: string

text \<open>What the code relies on: decoding undoes encoding, a signature of a key verifies under its
  public half, both sides of an exchange agree on the secret, and decryption undoes encryption.\<close>

definition codec_ok :: "'a codec \<Rightarrow> bool" where
  "codec_ok k = (\<forall>x. from_slice k (to_vec k x) = Some x)"

definition codecs_ok :: "peer_lib \<Rightarrow> bool" where
  "codecs_ok lib =
     (codec_ok (presence_codec lib) \<and> codec_ok (header_codec lib) \<and> codec_ok (envelope_codec lib) \<and>
      codec_ok (message_codec lib) \<and> codec_ok (signed_codec lib) \<and> codec_ok (release_codec lib) \<and>
      (\<forall>b. hex_decode lib (hex_encode lib b) = Some b))"

definition primitives_ok :: "peer_lib \<Rightarrow> bool" where
  "primitives_ok lib =
     ((\<forall>k data. ed_verify lib (ed_public lib k) data (ed_sign lib k data)) \<and>
      (\<forall>a b. x_shared lib a (x_public lib b) = x_shared lib b (x_public lib a)) \<and>
      (\<forall>k n a msg ct. aead_encrypt lib k n a msg = Some ct \<longrightarrow> aead_decrypt lib k n a ct = Some msg) \<and>
      (\<forall>k. length (ed_public lib k) = 32) \<and> (\<forall>k. length (x_public lib k) = 32))"

section \<open>Identity\<close>

text \<open>32 random bytes in hex.\<close>

definition nonce :: "peer_lib \<Rightarrow> bytes \<Rightarrow> string" where
  "nonce lib random = hex_encode lib random"

definition is_lower_hex :: "char \<Rightarrow> bool" where
  "is_lower_hex c = (is_ascii_digit c \<or> (97 \<le> (of_char c :: nat) \<and> (of_char c :: nat) \<le> 102))"

definition valid_id :: "string \<Rightarrow> bool" where
  "valid_id value = (byte_len value = 64 \<and> List.list_all is_lower_hex value)"

definition bytes32 :: "peer_lib \<Rightarrow> string \<Rightarrow> string + bytes" where
  "bytes32 lib value =
     (case hex_decode lib value of
        None \<Rightarrow> Inl ''hex''
      | Some b \<Rightarrow> if length b = 32 then Inr b else Inl ''invalid key length'')"

record device_keys =
  signing_key :: bytes
  secret_key :: bytes

definition load_keys :: "stored_keys \<Rightarrow> string + device_keys" where
  "load_keys s =
     (if st_version s = 1 then Inr \<lparr>signing_key = st_signing s, secret_key = st_encryption s\<rparr>
      else Inl ''unsupported local identity version'')"

definition stored_of :: "device_keys \<Rightarrow> stored_keys" where
  "stored_of keys = \<lparr>st_version = 1, st_signing = signing_key keys, st_encryption = secret_key keys\<rparr>"

definition id_of :: "peer_lib \<Rightarrow> device_keys \<Rightarrow> string" where
  "id_of lib keys = hex_encode lib (sha256 lib (ed_public lib (signing_key keys)))"

definition sign :: "peer_lib \<Rightarrow> device_keys \<Rightarrow> bytes \<Rightarrow> string" where
  "sign lib keys data = hex_encode lib (ed_sign lib (signing_key keys) data)"

definition shared_secret :: "peer_lib \<Rightarrow> device_keys \<Rightarrow> string \<Rightarrow> string + bytes" where
  "shared_secret lib keys public =
     and_then (bytes32 lib public) (\<lambda>k.
       case x_shared lib (secret_key keys) k of
         None \<Rightarrow> Inl ''non-contributory X25519 key''
       | Some s \<Rightarrow> Inr s)"

definition verify_signature :: "peer_lib \<Rightarrow> string \<Rightarrow> bytes \<Rightarrow> string \<Rightarrow> string + unit" where
  "verify_signature lib key data signature =
     and_then (bytes32 lib key) (\<lambda>k.
       case hex_decode lib signature of
         None \<Rightarrow> Inl ''hex''
       | Some s \<Rightarrow> if ed_verify lib k data s then Inr () else Inl ''signature'')"

definition presence_bytes :: "peer_lib \<Rightarrow> presence \<Rightarrow> bytes" where
  "presence_bytes lib p =
     ''TwoDrive/presence/v1'' @ [CHR 0x00] @ to_vec (presence_codec lib) (p\<lparr>pr_signature := []\<rparr>)"

definition presence_of :: "peer_lib \<Rightarrow> device_keys \<Rightarrow> string \<Rightarrow> int \<Rightarrow> presence" where
  "presence_of lib keys session now =
     (let p = \<lparr>pr_protocol = 1, pr_device = id_of lib keys,
               pr_signing = hex_encode lib (ed_public lib (signing_key keys)),
               pr_encryption = hex_encode lib (x_public lib (secret_key keys)), pr_session = session,
               pr_issued = now, pr_expires = now + 180, pr_version = package_version lib,
               pr_platform = platform lib, pr_signature = []\<rparr> in
      p\<lparr>pr_signature := sign lib keys (presence_bytes lib p)\<rparr>)"

text \<open>i64::checked_sub.\<close>

definition checked_sub :: "int \<Rightarrow> int \<Rightarrow> int option" where
  "checked_sub a b = (if - (2 ^ 63) \<le> a - b \<and> a - b < 2 ^ 63 then Some (a - b) else None)"

definition require :: "bool \<Rightarrow> string \<Rightarrow> string + unit" where
  "require b message = (if b then Inr () else Inl message)"

definition verify_presence :: "peer_lib \<Rightarrow> presence \<Rightarrow> int \<Rightarrow> string + unit" where
  "verify_presence lib p now =
     and_then (require (pr_protocol p = 1 \<and> valid_id (pr_device p) \<and> valid_id (pr_session p))
                 ''invalid presence shape/version'') (\<lambda>_.
     and_then (require (pr_issued p \<le> now + 30 \<and> now < pr_expires p \<and> pr_expires p \<le> now + 210 \<and>
                   checked_sub (pr_expires p) (pr_issued p) = Some 180)
                 ''stale or invalid presence time'') (\<lambda>_.
     and_then (require (byte_len (pr_version p) < 40 \<and> parse_version lib (pr_version p) \<noteq> None \<and>
                   pr_platform p \<in> {''windows-x86_64'', ''linux-x86_64'', ''unsupported''})
                 ''invalid presence metadata'') (\<lambda>_.
     and_then (bytes32 lib (pr_signing p)) (\<lambda>key.
     and_then (require (hex_encode lib (sha256 lib key) = pr_device p) ''device fingerprint mismatch'') (\<lambda>_.
     and_then (bytes32 lib (pr_encryption p)) (\<lambda>_.
       verify_signature lib (pr_signing p) (presence_bytes lib p) (pr_signature p)))))))"

section \<open>Envelopes\<close>

definition aad :: "peer_lib \<Rightarrow> envelope_header \<Rightarrow> bytes" where
  "aad lib h = ''TwoDrive/control/v1'' @ [CHR 0x00] @ to_vec (header_codec lib) h"

definition message_bytes :: "peer_lib \<Rightarrow> envelope_header \<Rightarrow> message \<Rightarrow> bytes" where
  "message_bytes lib h message = aad lib h @ to_vec (message_codec lib) message"

definition envelope_key :: "peer_lib \<Rightarrow> bytes \<Rightarrow> envelope_header \<Rightarrow> string + bytes" where
  "envelope_key lib secret h =
     (case hkdf lib (as_bytes (h_id h)) secret (aad lib h) of None \<Rightarrow> Inl ''HKDF failure'' | Some k \<Rightarrow> Inr k)"

text \<open>The random bytes of a sealing: an ephemeral secret, a nonce of 24 bytes, an identifier.\<close>

record entropy =
  en_secret :: bytes
  en_nonce :: bytes
  en_id :: bytes

definition envelope_header_of ::
    "peer_lib \<Rightarrow> entropy \<Rightarrow> device_keys \<Rightarrow> string \<Rightarrow> presence \<Rightarrow> int \<Rightarrow> envelope_header" where
  "envelope_header_of lib e keys session peer now =
     \<lparr>h_protocol = 1, h_id = nonce lib (en_id e), h_from = id_of lib keys, h_to = pr_device peer,
      h_from_session = session, h_to_session = pr_session peer, h_issued = now, h_expires = now + 120,
      h_ephemeral = hex_encode lib (x_public lib (en_secret e)), h_nonce = hex_encode lib (en_nonce e)\<rparr>"

definition seal ::
    "peer_lib \<Rightarrow> entropy \<Rightarrow> device_keys \<Rightarrow> string \<Rightarrow> presence \<Rightarrow> message \<Rightarrow> int \<Rightarrow> string + envelope" where
  "seal lib e keys session peer message now =
     and_then (verify_presence lib peer now) (\<lambda>_.
     and_then (bytes32 lib (pr_encryption peer)) (\<lambda>their.
       case x_shared lib (en_secret e) their of
         None \<Rightarrow> Inl ''invalid recipient encryption key''
       | Some secret \<Rightarrow>
           let h = envelope_header_of lib e keys session peer now;
               signed = \<lparr>sg_message = message, sg_signature = sign lib keys (message_bytes lib h message)\<rparr> in
           and_then (envelope_key lib secret h) (\<lambda>k.
             case aead_encrypt lib k (en_nonce e) (aad lib h) (to_vec (signed_codec lib) signed) of
               None \<Rightarrow> Inl ''encryption failed''
             | Some text \<Rightarrow> Inr \<lparr>header_of = h, ciphertext = hex_encode lib text\<rparr>)))"

definition MAX_CONTROL_BYTES :: nat where
  "MAX_CONTROL_BYTES = 32 * 1024"

text \<open>What is checked before a key is derived.\<close>

definition check_header :: "peer_lib \<Rightarrow> device_keys \<Rightarrow> string \<Rightarrow> presence \<Rightarrow> envelope \<Rightarrow> int \<Rightarrow> string + unit" where
  "check_header lib keys session peer env now =
     (let h = header_of env in
      and_then (require (byte_len (ciphertext env) \<le> MAX_CONTROL_BYTES \<and> h_protocol h = 1 \<and> valid_id (h_id h))
                  ''invalid envelope size/version/id'') (\<lambda>_.
      and_then (require (h_to h = id_of lib keys \<and> h_from h = pr_device peer \<and> h_to_session h = session \<and>
                    h_from_session h = pr_session peer) ''wrong recipient/sender/session'') (\<lambda>_.
        require (h_issued h \<le> now + 30 \<and> now < h_expires h \<and> h_expires h \<le> now + 150 \<and>
                    checked_sub (h_expires h) (h_issued h) = Some 120) ''expired or invalid envelope time'')))"

definition decrypt :: "peer_lib \<Rightarrow> device_keys \<Rightarrow> envelope \<Rightarrow> string + signed" where
  "decrypt lib keys env =
     (let h = header_of env in
      and_then (shared_secret lib keys (h_ephemeral h)) (\<lambda>secret.
        case hex_decode lib (h_nonce h) of
          None \<Rightarrow> Inl ''hex''
        | Some n \<Rightarrow>
            and_then (require (length n = 24) ''invalid nonce'') (\<lambda>_.
            and_then (envelope_key lib secret h) (\<lambda>k.
              case hex_decode lib (ciphertext env) of
                None \<Rightarrow> Inl ''hex''
              | Some text \<Rightarrow>
                  (case aead_decrypt lib k n (aad lib h) text of
                     None \<Rightarrow> Inl ''authentication failed''
                   | Some plain \<Rightarrow>
                       (case from_slice (signed_codec lib) plain of None \<Rightarrow> Inl ''json'' | Some s \<Rightarrow> Inr s))))))"

definition open_envelope ::
    "peer_lib \<Rightarrow> device_keys \<Rightarrow> string \<Rightarrow> presence \<Rightarrow> envelope \<Rightarrow> int \<Rightarrow> string + message" where
  "open_envelope lib keys session peer env now =
     and_then (check_header lib keys session peer env now) (\<lambda>_.
     and_then (decrypt lib keys env) (\<lambda>s.
     and_then (verify_signature lib (pr_signing peer) (message_bytes lib (header_of env) (sg_message s)) (sg_signature s)) (\<lambda>_.
       Inr (sg_message s))))"

section \<open>Properties\<close>

lemma require_Inr [simp]: "require b m = Inr u \<longleftrightarrow> b"
  by (cases u) (simp add: require_def)

lemma hex_decoded: "codecs_ok lib \<Longrightarrow> hex_decode lib (hex_encode lib b) = Some b"
  by (simp add: codecs_ok_def)

lemma bytes32_encoded: "codecs_ok lib \<Longrightarrow> length b = 32 \<Longrightarrow> bytes32 lib (hex_encode lib b) = Inr b"
  by (simp add: bytes32_def hex_decoded)

lemma own_signature:
  assumes "codecs_ok lib" "primitives_ok lib"
  shows "verify_signature lib (hex_encode lib (ed_public lib (signing_key keys))) data (sign lib keys data) = Inr ()"
  using assms(2) by (simp add: verify_signature_def sign_def hex_decoded[OF assms(1)] bytes32_encoded[OF assms(1)]
      primitives_ok_def and_then_def)

lemma presence_fields [simp]:
  "pr_device (presence_of lib keys session now) = id_of lib keys"
  "pr_signing (presence_of lib keys session now) = hex_encode lib (ed_public lib (signing_key keys))"
  "pr_encryption (presence_of lib keys session now) = hex_encode lib (x_public lib (secret_key keys))"
  "pr_session (presence_of lib keys session now) = session"
  by (simp_all add: presence_of_def Let_def)

lemma header_fields [simp]:
  "h_protocol (envelope_header_of lib e keys session peer now) = 1"
  "h_id (envelope_header_of lib e keys session peer now) = nonce lib (en_id e)"
  "h_from (envelope_header_of lib e keys session peer now) = id_of lib keys"
  "h_to (envelope_header_of lib e keys session peer now) = pr_device peer"
  "h_from_session (envelope_header_of lib e keys session peer now) = session"
  "h_to_session (envelope_header_of lib e keys session peer now) = pr_session peer"
  "h_issued (envelope_header_of lib e keys session peer now) = now"
  "h_expires (envelope_header_of lib e keys session peer now) = now + 120"
  "h_ephemeral (envelope_header_of lib e keys session peer now) = hex_encode lib (x_public lib (en_secret e))"
  "h_nonce (envelope_header_of lib e keys session peer now) = hex_encode lib (en_nonce e)"
  by (simp_all add: envelope_header_of_def)

lemma seal_header: "seal lib e keys session peer message now = Inr env \<Longrightarrow> header_of env = envelope_header_of lib e keys session peer now"
  by (auto simp: seal_def and_then_Inr_iff Let_def split: option.splits)

text \<open>Keys and messages are what they were stored and signed as.\<close>

lemma stored_keys_load: "load_keys (stored_of keys) = Inr keys"
  by (simp add: load_keys_def stored_of_def)

lemma decrypt_sealed:
  assumes "codecs_ok lib" "primitives_ok lib" "length (en_nonce e) = 24"
    and "seal lib e a session peer message now = Inr env"
    and "pr_encryption peer = hex_encode lib (x_public lib (secret_key b))"
  shows "decrypt lib b env = Inr \<lparr>sg_message = message, sg_signature = sign lib a (message_bytes lib (header_of env) message)\<rparr>"
proof -
  define h where "h = envelope_header_of lib e a session peer now"
  define s where "s = \<lparr>sg_message = message, sg_signature = sign lib a (message_bytes lib h message)\<rparr>"
  obtain their secret k c where steps: "bytes32 lib (pr_encryption peer) = Inr their"
      "x_shared lib (en_secret e) their = Some secret" "envelope_key lib secret h = Inr k"
      "aead_encrypt lib k (en_nonce e) (aad lib h) (to_vec (signed_codec lib) s) = Some c"
      "env = \<lparr>header_of = h, ciphertext = hex_encode lib c\<rparr>"
    using assms(4) unfolding h_def s_def
    by (auto simp: seal_def and_then_Inr_iff Let_def split: option.splits)
  have "their = x_public lib (secret_key b)"
    using steps(1) assms(2,5) by (simp add: bytes32_encoded[OF assms(1)] primitives_ok_def)
  then have "x_shared lib (secret_key b) (x_public lib (en_secret e)) = Some secret"
    using steps(2) assms(2) unfolding primitives_ok_def by metis
  then have "shared_secret lib b (h_ephemeral h) = Inr secret"
    using assms(2) by (simp add: shared_secret_def h_def bytes32_encoded[OF assms(1)] primitives_ok_def and_then_def)
  moreover have "hex_decode lib (h_nonce h) = Some (en_nonce e)" by (simp add: h_def hex_decoded[OF assms(1)])
  moreover have "aead_decrypt lib k (en_nonce e) (aad lib h) c = Some (to_vec (signed_codec lib) s)"
    using steps(4) assms(2) unfolding primitives_ok_def by metis
  moreover have "from_slice (signed_codec lib) (to_vec (signed_codec lib) s) = Some s"
    using assms(1) by (simp add: codecs_ok_def codec_ok_def)
  ultimately show ?thesis
    using steps(3) assms(3) by (simp add: decrypt_def steps(5) hex_decoded[OF assms(1)] require_def and_then_def s_def)
qed

definition describable :: "peer_lib \<Rightarrow> bool" where
  "describable lib =
     (byte_len (package_version lib) < 40 \<and> parse_version lib (package_version lib) \<noteq> None \<and>
      platform lib \<in> {''windows-x86_64'', ''linux-x86_64'', ''unsupported''})"

lemma presence_verifies:
  assumes "codecs_ok lib" "primitives_ok lib" "describable lib"
    and "valid_id (id_of lib keys)" "valid_id session" "t \<le> now + 30" "now < t + 180"
  shows "verify_presence lib (presence_of lib keys session t) now = Inr ()"
proof -
  define p where "p = presence_of lib keys session t"
  have p: "pr_protocol p = 1" "pr_device p = id_of lib keys" "pr_session p = session" "pr_issued p = t" "pr_expires p = t + 180"
      "pr_version p = package_version lib" "pr_platform p = platform lib"
      "pr_signing p = hex_encode lib (ed_public lib (signing_key keys))"
      "pr_encryption p = hex_encode lib (x_public lib (secret_key keys))"
    by (simp_all add: p_def presence_of_def Let_def)
  have "pr_signature p = sign lib keys (presence_bytes lib p)"
    by (simp add: p_def presence_of_def Let_def presence_bytes_def)
  then have "verify_signature lib (pr_signing p) (presence_bytes lib p) (pr_signature p) = Inr ()"
    by (simp add: p own_signature[OF assms(1,2)])
  moreover have "bytes32 lib (pr_signing p) = Inr (ed_public lib (signing_key keys))"
      "bytes32 lib (pr_encryption p) = Inr (x_public lib (secret_key keys))"
    using assms(2) by (simp_all add: p bytes32_encoded[OF assms(1)] primitives_ok_def)
  ultimately show ?thesis
    using assms(3-) unfolding p_def[symmetric]
    by (simp add: verify_presence_def require_def and_then_def p checked_sub_def describable_def id_of_def)
qed

text \<open>Sealing for an honest key does not fail: its shared secret is contributory, 32 bytes are in
  the range of HKDF, and the cipher takes texts of this size.\<close>

definition sealing_total :: "peer_lib \<Rightarrow> bool" where
  "sealing_total lib =
     ((\<forall>a b. x_shared lib a (x_public lib b) \<noteq> None) \<and> (\<forall>salt secret info. hkdf lib salt secret info \<noteq> None) \<and>
      (\<forall>k n a m. aead_encrypt lib k n a m \<noteq> None))"

lemma seal_succeeds:
  assumes "codecs_ok lib" "primitives_ok lib" "sealing_total lib"
    and "verify_presence lib (presence_of lib b sb t) now = Inr ()"
  shows "\<exists>env. seal lib e a sa (presence_of lib b sb t) message now = Inr env"
proof -
  have "bytes32 lib (pr_encryption (presence_of lib b sb t)) = Inr (x_public lib (secret_key b))"
    using assms(2) by (simp add: bytes32_encoded[OF assms(1)] primitives_ok_def)
  moreover have "\<exists>s. x_shared lib (en_secret e) (x_public lib (secret_key b)) = Some s" using assms(3) by (auto simp: sealing_total_def)
  moreover have "\<exists>k. hkdf lib salt secret info = Some k" for salt secret info using assms(3) by (auto simp: sealing_total_def)
  moreover have "\<exists>c. aead_encrypt lib k n x m = Some c" for k n x m using assms(3) by (auto simp: sealing_total_def)
  ultimately show ?thesis
    using assms(4) by (auto simp: seal_def and_then_def envelope_key_def Let_def split: option.split)
      (metis option.distinct(1))+
qed

end
