(* ===== verification/PeerSample.thy ===== *)
theory PeerSample
  imports PeerIdentity "HOL-Library.List_Lexorder" "HOL-Library.Char_ord"
begin

text \<open>
  A concrete peer_lib with every law the peer relies on: it shows that the laws hold together, and
  is what the examples of the peer theories run on.  It keeps nothing secret: a ciphertext is the
  plain text and a signature names its key.
\<close>

section \<open>Texts\<close>

definition hex_digit :: "nat \<Rightarrow> char" where
  "hex_digit n = (if n < 10 then char_of (48 + n) else char_of (87 + n))"

definition hex_value :: "char \<Rightarrow> nat" where
  "hex_value c = (if of_char c < (58 :: nat) then of_char c - 48 else of_char c - 87)"

definition to_hex :: "bytes \<Rightarrow> string" where
  "to_hex b = concat (map (\<lambda>c. [hex_digit (of_char c div 16), hex_digit (of_char c mod 16)]) b)"

fun of_hex :: "string \<Rightarrow> bytes option" where
  "of_hex [] = Some []"
| "of_hex [c] = None"
| "of_hex (c # d # s) = map_option ((#) (char_of (16 * hex_value c + hex_value d))) (of_hex s)"

lemma hex_value_digit: "n < 16 \<Longrightarrow> hex_value (hex_digit n) = n"
  by (simp add: hex_value_def hex_digit_def)

lemma char_high: "(of_char c :: nat) div 16 < 16"
  using nat_of_char_less_256[of c] by (simp only: less_mult_imp_div_less)

lemma of_hex_to_hex: "of_hex (to_hex b) = Some b"
proof (induction b)
  case (Cons c b)
  then show ?case using char_high[of c] by (simp add: to_hex_def hex_value_digit)
qed (simp add: to_hex_def)

lemma length_to_hex: "length (to_hex b) = 2 * length b"
  by (induction b) (simp_all add: to_hex_def)

lemma to_hex_lower: "List.list_all is_lower_hex (to_hex b)"
proof -
  have digit: "n < 16 \<Longrightarrow> is_lower_hex (hex_digit n)" for n
    by (auto simp: is_lower_hex_def is_ascii_digit_def hex_digit_def)
  show ?thesis using char_high by (induction b) (simp_all add: to_hex_def digit)
qed

lemma byte_len_lower: "List.list_all is_lower_hex s \<Longrightarrow> byte_len s = length s"
  by (induction s) (auto simp: byte_len_def utf8_def utf8_char_def is_lower_hex_def is_ascii_digit_def)

lemma valid_to_hex: "length b = 32 \<Longrightarrow> valid_id (to_hex b)"
  by (simp add: valid_id_def to_hex_lower byte_len_lower length_to_hex)

text \<open>A field: every character after a mark, and an end.\<close>

definition put_field :: "string \<Rightarrow> bytes" where
  "put_field s = concat (map (\<lambda>c. [CHR 0x01, c]) s) @ [CHR 0x00]"

fun take_field :: "bytes \<Rightarrow> (string \<times> bytes) option" where
  "take_field [] = None"
| "take_field (m # s) =
     (if m = CHR 0x00 then Some ([], s)
      else case s of [] \<Rightarrow> None | c # r \<Rightarrow> map_option (\<lambda>(f, rest). (c # f, rest)) (take_field r))"

fun take_fields :: "nat \<Rightarrow> bytes \<Rightarrow> string list option" where
  "take_fields 0 s = Some []"
| "take_fields (Suc n) s =
     (case take_field s of None \<Rightarrow> None | Some (f, rest) \<Rightarrow> map_option ((#) f) (take_fields n rest))"

definition put_fields :: "string list \<Rightarrow> bytes" where
  "put_fields fs = concat (map put_field fs)"

lemma take_put_field: "take_field (put_field f @ rest) = Some (f, rest)"
  by (induction f) (simp_all add: put_field_def)

lemma take_put_fields: "n = length fs \<Longrightarrow> take_fields n (put_fields fs) = Some fs"
  by (induction fs arbitrary: n) (simp_all add: put_fields_def take_put_field)

lemma put_fields_append: "put_fields (fs @ gs) = put_fields fs @ put_fields gs"
  by (simp add: put_fields_def)

lemma length_put_fields: "length (put_fields fs) = sum_list (map (\<lambda>f. 2 * length f + 1) fs)"
proof -
  have "length (concat (map (\<lambda>c. [CHR 0x01, c]) f)) = 2 * length f" for f by (induction f) auto
  then show ?thesis by (induction fs) (simp_all add: put_fields_def put_field_def)
qed

definition int_text :: "int \<Rightarrow> string" where
  "int_text i = (if i < 0 then CHR ''-'' # decimal (nat (- i)) else decimal (nat i))"

definition int_value :: "string \<Rightarrow> int" where
  "int_value s = (case s of c # ds \<Rightarrow> if c = CHR ''-'' then - int (decimal_value ds) else int (decimal_value s) | [] \<Rightarrow> 0)"

lemma int_value_text: "int_value (int_text i) = i"
proof (cases "i < 0")
  case False
  obtain c r where s: "decimal (nat i) = c # r" using decimal_nonempty by (cases "decimal (nat i)") auto
  then have "c \<noteq> CHR ''-''" using decimal_digits[of "nat i"] by (auto simp: is_ascii_digit_def)
  then have "int_value (decimal (nat i)) = int (decimal_value (decimal (nat i)))"
    unfolding int_value_def s by simp
  then show ?thesis using False by (simp add: int_text_def)
qed (simp add: int_text_def int_value_def)

section \<open>Codecs\<close>

definition sample_codec :: "nat \<Rightarrow> ('a \<Rightarrow> string list) \<Rightarrow> (string list \<Rightarrow> 'a) \<Rightarrow> 'a codec" where
  "sample_codec n f g = \<lparr>to_vec = (\<lambda>x. put_fields (f x)), from_slice = (\<lambda>b. map_option g (take_fields n b))\<rparr>"

lemma sample_codec_ok: "(\<And>x. length (f x) = n) \<Longrightarrow> (\<And>x. g (f x) = x) \<Longrightarrow> codec_ok (sample_codec n f g)"
  by (simp add: codec_ok_def sample_codec_def take_put_fields)

definition word_text :: "'a :: len word \<Rightarrow> string" where
  "word_text n = decimal (unat n)"

lemma word_value: "word_of_nat (decimal_value (word_text n)) = n"
  by (simp add: word_text_def)

definition presence_fields :: "presence \<Rightarrow> string list" where
  "presence_fields p =
     [word_text (pr_protocol p), pr_device p, pr_signing p, pr_encryption p, pr_session p, int_text (pr_issued p),
      int_text (pr_expires p), pr_version p, pr_platform p, pr_signature p]"

definition fields_presence :: "string list \<Rightarrow> presence" where
  "fields_presence f =
     \<lparr>pr_protocol = of_nat (decimal_value (f ! 0)), pr_device = f ! 1, pr_signing = f ! 2, pr_encryption = f ! 3,
      pr_session = f ! 4, pr_issued = int_value (f ! 5), pr_expires = int_value (f ! 6), pr_version = f ! 7,
      pr_platform = f ! 8, pr_signature = f ! 9\<rparr>"

definition header_texts :: "envelope_header \<Rightarrow> string list" where
  "header_texts h =
     [word_text (h_protocol h), h_id h, h_from h, h_to h, h_from_session h, h_to_session h, int_text (h_issued h),
      int_text (h_expires h), h_ephemeral h, h_nonce h]"

definition texts_header :: "string list \<Rightarrow> envelope_header" where
  "texts_header f =
     \<lparr>h_protocol = of_nat (decimal_value (f ! 0)), h_id = f ! 1, h_from = f ! 2, h_to = f ! 3, h_from_session = f ! 4,
      h_to_session = f ! 5, h_issued = int_value (f ! 6), h_expires = int_value (f ! 7), h_ephemeral = f ! 8,
      h_nonce = f ! 9\<rparr>"

fun message_texts :: "message \<Rightarrow> string list" where
  "message_texts (Hello c) = [''a'', c, [], []]"
| "message_texts (HelloAck c) = [''b'', c, [], []]"
| "message_texts (Ping n) = [''c'', n, [], []]"
| "message_texts (Pong n) = [''d'', n, [], []]"
| "message_texts StatusRequest = [''e'', [], [], []]"
| "message_texts (Status v p n) = [''f'', v, p, decimal n]"
| "message_texts (UpdateAvailable tag) = [''g'', tag, [], []]"

definition texts_message :: "string list \<Rightarrow> message" where
  "texts_message f =
     (let t = f ! 0; a = f ! 1 in
      if t = ''a'' then Hello a else if t = ''b'' then HelloAck a else if t = ''c'' then Ping a else if t = ''d'' then Pong a
      else if t = ''e'' then StatusRequest else if t = ''f'' then Status a (f ! 2) (decimal_value (f ! 3)) else UpdateAvailable a)"

definition release_texts :: "release_info \<Rightarrow> string list" where
  "release_texts r =
     [word_text (r_schema r), r_product r, decimal (v_major (r_version r)), decimal (v_minor (r_version r)),
      decimal (v_patch (r_version r)), v_pre (r_version r), v_build (r_version r), r_platform r, r_file r,
      word_text (r_size r), r_sha256 r, r_signature r]"

definition texts_release :: "string list \<Rightarrow> release_info" where
  "texts_release f =
     \<lparr>r_schema = of_nat (decimal_value (f ! 0)), r_product = f ! 1,
      r_version = \<lparr>v_major = decimal_value (f ! 2), v_minor = decimal_value (f ! 3), v_patch = decimal_value (f ! 4),
                   v_pre = f ! 5, v_build = f ! 6\<rparr>,
      r_platform = f ! 7, r_file = f ! 8, r_size = of_nat (decimal_value (f ! 9)), r_sha256 = f ! 10, r_signature = f ! 11\<rparr>"

lemma message_texts_length: "length (message_texts m) = 4"
  by (cases m) simp_all

lemma texts_inverse:
  "fields_presence (presence_fields p) = p" "texts_header (header_texts h) = h" "texts_message (message_texts m) = m"
  "texts_release (release_texts r) = r"
  by (simp_all add: fields_presence_def presence_fields_def texts_header_def header_texts_def
      texts_release_def release_texts_def word_value int_value_text numeral_nat)
     (cases m; simp add: texts_message_def)

section \<open>The library\<close>

definition pad32 :: "bytes \<Rightarrow> bytes" where
  "pad32 b = take 32 (b @ replicate 32 (CHR 0x00))"

definition mix :: "bytes \<Rightarrow> bytes \<Rightarrow> bytes" where
  "mix a b = map2 (\<lambda>x y. char_of ((of_char x :: nat) + of_char y)) a b"

lemma mix_commute: "mix a b = mix b a"
  unfolding mix_def by (subst zip_commute) (simp add: case_prod_unfold add.commute comp_def)

lemma length_pad32 [simp]: "length (pad32 b) = 32"
  by (simp add: pad32_def)

lemma pad32_exact: "length b = 32 \<Longrightarrow> pad32 b = b"
  by (simp add: pad32_def)

definition sample_version :: version where
  "sample_version = \<lparr>v_major = 1, v_minor = 2, v_patch = 3, v_pre = [], v_build = []\<rparr>"

definition sample_later :: "version \<Rightarrow> version \<Rightarrow> bool" where
  "sample_later a b =
     (v_major b < v_major a \<or> v_major a = v_major b \<and>
       (v_minor b < v_minor a \<or> v_minor a = v_minor b \<and>
         (v_patch b < v_patch a \<or> v_patch a = v_patch b \<and>
           (v_pre b < v_pre a \<or> v_pre a = v_pre b \<and> v_build b < v_build a))))"

lemma sample_later_order:
  "\<not> sample_later a a" "sample_later a b \<Longrightarrow> sample_later b c \<Longrightarrow> sample_later a c"
  "a = b \<or> sample_later a b \<or> sample_later b a"
  unfolding sample_later_def by (auto dest: less_trans simp: not_less_iff_gr_or_eq)

definition sample_lib :: peer_lib where
  "sample_lib =
     \<lparr>hex_encode = to_hex, hex_decode = of_hex, sha256 = pad32, ed_public = pad32,
      ed_sign = (\<lambda>k data. pad32 k @ data), ed_verify = (\<lambda>k data s. s = k @ data),
      x_public = pad32, x_shared = (\<lambda>a p. Some (mix (pad32 a) (pad32 p))), hkdf = (\<lambda>salt secret info. Some secret),
      aead_encrypt = (\<lambda>k n a m. Some m), aead_decrypt = (\<lambda>k n a c. Some c),
      parse_version = (\<lambda>s. if s = ''1.2.3'' then Some sample_version else None), show_version = (\<lambda>v. ''1.2.3''),
      later = sample_later,
      presence_codec = sample_codec 10 presence_fields fields_presence,
      header_codec = sample_codec 10 header_texts texts_header,
      envelope_codec = sample_codec 11 (\<lambda>e. header_texts (header_of e) @ [ciphertext e])
        (\<lambda>f. \<lparr>header_of = texts_header f, ciphertext = f ! 10\<rparr>),
      message_codec = sample_codec 4 message_texts texts_message,
      signed_codec = sample_codec 5 (\<lambda>s. message_texts (sg_message s) @ [sg_signature s])
        (\<lambda>f. \<lparr>sg_message = texts_message (take 4 f), sg_signature = f ! 4\<rparr>),
      release_codec = sample_codec 12 release_texts texts_release,
      package_version = ''1.2.3'', platform = ''linux-x86_64''\<rparr>"

lemma field_lengths:
  "length (presence_fields p) = 10" "length (header_texts h) = 10" "length (release_texts r) = 12"
  by (simp_all add: presence_fields_def header_texts_def release_texts_def)

lemma texts_header_append: "texts_header (header_texts h @ xs) = h"
  using texts_inverse(2)[of h] by (simp add: texts_header_def nth_append field_lengths)

lemma codecs_sample: "codecs_ok sample_lib"
  unfolding codecs_ok_def
proof (intro conjI allI)
  show "codec_ok (presence_codec sample_lib)" "codec_ok (header_codec sample_lib)"
       "codec_ok (message_codec sample_lib)" "codec_ok (release_codec sample_lib)"
    unfolding sample_lib_def peer_lib.simps
    by (rule sample_codec_ok; simp add: texts_inverse message_texts_length field_lengths)+
  show "codec_ok (envelope_codec sample_lib)" "codec_ok (signed_codec sample_lib)"
    unfolding sample_lib_def peer_lib.simps
    by (rule sample_codec_ok; simp add: texts_inverse texts_header_append message_texts_length field_lengths
        nth_append)+
  show "hex_decode sample_lib (hex_encode sample_lib b) = Some b" for b
    by (simp add: sample_lib_def of_hex_to_hex)
qed

lemma primitives_sample: "primitives_ok sample_lib"
  by (simp add: primitives_ok_def sample_lib_def pad32_exact mix_commute)

section \<open>Two devices\<close>

definition bytes_of :: "char \<Rightarrow> bytes" where
  "bytes_of c = replicate 32 c"

definition keys_a :: device_keys where
  "keys_a = \<lparr>signing_key = bytes_of CHR ''a'', secret_key = bytes_of CHR ''b''\<rparr>"

definition keys_b :: device_keys where
  "keys_b = \<lparr>signing_key = bytes_of CHR ''c'', secret_key = bytes_of CHR ''d''\<rparr>"

definition entropy_of :: "char \<Rightarrow> entropy" where
  "entropy_of c = \<lparr>en_secret = bytes_of c, en_nonce = replicate 24 c, en_id = bytes_of c\<rparr>"

abbreviation session_of :: "char \<Rightarrow> string" where
  "session_of c \<equiv> nonce sample_lib (bytes_of c)"

lemma valid_nonce_sample: "valid_id (session_of c)"
  by (simp add: nonce_def sample_lib_def bytes_of_def valid_to_hex)

lemma valid_id_sample: "valid_id (id_of sample_lib keys)"
  by (simp add: id_of_def sample_lib_def valid_to_hex)

end
