(* ===== verification/PeerUpdate.thy ===== *)
theory PeerUpdate
  imports PeerSample
begin

text \<open>
  crates/twodrive-peer/src/update.rs and the supervisor of runtime.rs: releases signed by the
  publisher are staged beside the running version, checked again before they are activated, and
  left for the previous version when they do not start.  The directory updates is a state file and
  one directory per version; whether a lock is free and a write succeeds is an argument.
\<close>

section \<open>Releases\<close>

definition MAX_EXE :: nat where
  "MAX_EXE = 128 * 1024 * 1024"

definition release_bytes :: "peer_lib \<Rightarrow> release_info \<Rightarrow> bytes" where
  "release_bytes lib r =
     ''TwoDrive/release/v1'' @ [CHR 0x00] @ to_vec (release_codec lib) (r\<lparr>r_signature := []\<rparr>)"

definition executable_name :: "string \<Rightarrow> string" where
  "executable_name platform_name =
     (if platform_name = ''windows-x86_64'' then ''twodrive-peer.exe'' else ''twodrive-peer'')"

definition verify_release :: "peer_lib \<Rightarrow> string \<Rightarrow> string \<Rightarrow> version \<Rightarrow> release_info \<Rightarrow> string + unit" where
  "verify_release lib key platform_name floor r =
     and_then (require (r_schema r = 1 \<and> r_product r = ''twodrive-peer'') ''wrong update product/schema'') (\<lambda>_.
     and_then (require (r_platform r = platform_name \<and> r_file r = executable_name platform_name)
                 ''wrong update platform/file'') (\<lambda>_.
     and_then (require (later lib (r_version r) floor \<and> v_pre (r_version r) = [] \<and> v_build (r_version r) = [])
                 ''update must be a newer stable version'') (\<lambda>_.
     and_then (require (0 < r_size r \<and> unat (r_size r) \<le> MAX_EXE \<and> valid_id (r_sha256 r)) ''invalid update size/hash'') (\<lambda>_.
     and_then (bytes32 lib key) (\<lambda>_.
       verify_signature lib key (release_bytes lib r) (r_signature r))))))"

definition check_bytes :: "peer_lib \<Rightarrow> release_info \<Rightarrow> bytes \<Rightarrow> string + unit" where
  "check_bytes lib r content =
     require (length content = unat (r_size r) \<and> hex_encode lib (sha256 lib content) = r_sha256 r)
       ''release file hash/size mismatch''"

section \<open>State\<close>

record update_state =
  us_active :: "version option"
  us_previous :: "version option"
  us_pending :: "version option"
  us_highwater :: "version option"

definition new_update_state :: update_state where
  "new_update_state = \<lparr>us_active = None, us_previous = None, us_pending = None, us_highwater = None\<rparr>"

datatype state_file = Absent | Unreadable | Stored update_state

text \<open>A version directory: the manifest and the executable, where they can be read.\<close>

record installed =
  in_manifest :: "release_info option"
  in_binary :: "bytes option"

record update_disk =
  ud_state :: state_file
  ud_versions :: "string \<Rightarrow> installed option"

text \<open>What the environment grants an operation: the lock, the writing of a file, the rename.\<close>

record grants =
  gr_lock :: bool
  gr_write :: bool
  gr_save :: bool

definition load_update_state :: "update_disk \<Rightarrow> string + update_state" where
  "load_update_state d =
     (case ud_state d of Absent \<Rightarrow> Inr new_update_state | Unreadable \<Rightarrow> Inl ''state'' | Stored s \<Rightarrow> Inr s)"

definition save_update_state :: "grants \<Rightarrow> update_state \<Rightarrow> update_disk \<Rightarrow> (string + unit) \<times> update_disk" where
  "save_update_state g s d =
     (if gr_save g then (Inr (), d\<lparr>ud_state := Stored s\<rparr>) else (Inl ''io'', d))"

definition own_version :: "peer_lib \<Rightarrow> version" where
  "own_version lib = the (parse_version lib (package_version lib))"

definition version_floor :: "peer_lib \<Rightarrow> update_state \<Rightarrow> version" where
  "version_floor lib s =
     (case us_highwater s of
        None \<Rightarrow> own_version lib
      | Some h \<Rightarrow> if later lib h (own_version lib) then h else own_version lib)"

definition version_dir :: "peer_lib \<Rightarrow> version \<Rightarrow> string" where
  "version_dir lib v = show_version lib v"

definition read_release :: "installed \<Rightarrow> string + release_info" where
  "read_release i = (case in_manifest i of None \<Rightarrow> Inl ''manifest'' | Some r \<Rightarrow> Inr r)"

definition read_binary :: "installed \<Rightarrow> string + bytes" where
  "read_binary i =
     (case in_binary i of
        None \<Rightarrow> Inl ''io''
      | Some b \<Rightarrow> if length b \<le> MAX_EXE then Inr b else Inl ''local input too large'')"

section \<open>Staging\<close>

text \<open>A version directory that is there already is kept, if it holds the same release.\<close>

definition place :: "peer_lib \<Rightarrow> grants \<Rightarrow> release_info \<Rightarrow> bytes \<Rightarrow> update_disk \<Rightarrow> (string + unit) \<times> update_disk" where
  "place lib g r content d =
     (case ud_versions d (version_dir lib (r_version r)) of
        Some i \<Rightarrow>
          (and_then (read_binary i) (\<lambda>existing.
           and_then (check_bytes lib r existing) (\<lambda>_.
           and_then (read_release i) (\<lambda>old.
             require (r_signature old = r_signature r) ''existing update manifest differs''))), d)
      | None \<Rightarrow>
          if gr_write g
          then (Inr (), d\<lparr>ud_versions := (ud_versions d)(version_dir lib (r_version r) \<mapsto>
                  \<lparr>in_manifest = Some r, in_binary = Some content\<rparr>)\<rparr>)
          else (Inl ''io'', d))"

definition stage_release ::
    "peer_lib \<Rightarrow> string \<Rightarrow> string \<Rightarrow> grants \<Rightarrow> release_info \<Rightarrow> bytes \<Rightarrow> update_disk \<Rightarrow> (string + unit) \<times> update_disk" where
  "stage_release lib key platform_name g r content d =
     (if \<not> gr_lock g then (Inl ''another peer process is using this state'', d)
      else
        (case load_update_state d of
           Inl e \<Rightarrow> (Inl e, d)
         | Inr s \<Rightarrow>
             (case and_then (verify_release lib key platform_name (version_floor lib s) r) (\<lambda>_. check_bytes lib r content) of
                Inl e \<Rightarrow> (Inl e, d)
              | Inr _ \<Rightarrow>
                  (case place lib g r content d of
                     (Inl e, d') \<Rightarrow> (Inl e, d')
                   | (Inr _, d') \<Rightarrow> save_update_state g (s\<lparr>us_pending := Some (r_version r)\<rparr>) d'))))"

text \<open>update.rs: the tag of a stable release.\<close>

definition validate_tag :: "peer_lib \<Rightarrow> string \<Rightarrow> string + version" where
  "validate_tag lib tag =
     (if \<not> byte_len tag < 64 then Inl ''invalid release tag''
      else if \<not> Sublist.prefix ''peer-v'' tag then Inl ''invalid release tag prefix''
      else
        (case parse_version lib (drop 6 tag) of
           None \<Rightarrow> Inl ''semver''
         | Some v \<Rightarrow>
             if v_pre v = [] \<and> v_build v = [] \<and> tag = ''peer-v'' @ show_version lib v then Inr v
             else Inl ''invalid release tag''))"

definition REPOSITORY :: string where
  "REPOSITORY = ''https://github.com/LumiaBlack51/twodrive/releases/download''"

text \<open>fetch answers the body of an address, up to a limit, or fails.\<close>

definition fetch_checked :: "(string \<Rightarrow> bytes option) \<Rightarrow> string \<Rightarrow> nat \<Rightarrow> string + bytes" where
  "fetch_checked fetch url limit =
     (case fetch url of
        None \<Rightarrow> Inl ''http''
      | Some b \<Rightarrow> if length b \<le> limit then Inr b else Inl ''release download too large'')"

definition decode_release :: "peer_lib \<Rightarrow> bytes \<Rightarrow> string + release_info" where
  "decode_release lib b = (case from_slice (release_codec lib) b of None \<Rightarrow> Inl ''json'' | Some r \<Rightarrow> Inr r)"

definition download_release ::
    "peer_lib \<Rightarrow> string \<Rightarrow> (string \<Rightarrow> bytes option) \<Rightarrow> string \<Rightarrow> update_disk \<Rightarrow> string + release_info \<times> bytes" where
  "download_release lib key fetch tag d =
     and_then (validate_tag lib tag) (\<lambda>version.
     and_then (require (platform lib = ''windows-x86_64'') ''automatic install currently supports Windows x86-64'') (\<lambda>_.
     and_then (load_update_state d) (\<lambda>s.
     and_then (require (later lib version (version_floor lib s)) ''release notification is not newer'') (\<lambda>_.
     and_then (fetch_checked fetch (REPOSITORY @ ''/'' @ tag @ ''/twodrive-peer-windows-x86_64.json'') 8192) (\<lambda>manifest.
     and_then (decode_release lib manifest) (\<lambda>r.
     and_then (verify_release lib key (platform lib) (version_floor lib s) r) (\<lambda>_.
     and_then (require (r_version r = version) ''release tag/version mismatch'') (\<lambda>_.
     and_then (fetch_checked fetch (REPOSITORY @ ''/'' @ tag @ ''/twodrive-peer.exe'') (unat (r_size r))) (\<lambda>content.
       Inr (r, content))))))))))"

definition download_and_stage ::
    "peer_lib \<Rightarrow> string \<Rightarrow> (string \<Rightarrow> bytes option) \<Rightarrow> grants \<Rightarrow> string \<Rightarrow> update_disk \<Rightarrow> (string + unit) \<times> update_disk" where
  "download_and_stage lib key fetch g tag d =
     (case download_release lib key fetch tag d of
        Inl e \<Rightarrow> (Inl e, d)
      | Inr (r, content) \<Rightarrow> stage_release lib key (platform lib) g r content d)"

definition stage_local ::
    "peer_lib \<Rightarrow> string \<Rightarrow> grants \<Rightarrow> installed \<Rightarrow> update_disk \<Rightarrow> (string + unit) \<times> update_disk" where
  "stage_local lib key g package d =
     (case and_then (read_release package) (\<lambda>r.
           and_then (load_update_state d) (\<lambda>s.
           and_then (verify_release lib key (platform lib) (version_floor lib s) r) (\<lambda>_.
           and_then (read_binary package) (\<lambda>content. Inr (r, content))))) of
        Inl e \<Rightarrow> (Inl e, d)
      | Inr (r, content) \<Rightarrow> stage_release lib key (platform lib) g r content d)"

section \<open>Activation\<close>

definition zero_version :: version where
  "zero_version = \<lparr>v_major = 0, v_minor = 0, v_patch = 0, v_pre = [], v_build = []\<rparr>"

text \<open>The path of an executable whose directory still proves its release, with its content.\<close>

definition verify_installed ::
    "peer_lib \<Rightarrow> string \<Rightarrow> string \<Rightarrow> version \<Rightarrow> update_disk \<Rightarrow> string + string \<times> bytes" where
  "verify_installed lib key platform_name v d =
     (case ud_versions d (version_dir lib v) of
        None \<Rightarrow> Inl ''io''
      | Some i \<Rightarrow>
          and_then (read_release i) (\<lambda>r.
          and_then (verify_release lib key platform_name zero_version r) (\<lambda>_.
          and_then (require (r_version r = v) ''installed version mismatch'') (\<lambda>_.
          and_then (read_binary i) (\<lambda>content.
          and_then (check_bytes lib r content) (\<lambda>_.
            Inr (version_dir lib v @ ''/'' @ r_file r, content)))))))"

text \<open>The health check runs the candidate.\<close>

definition activate ::
    "peer_lib \<Rightarrow> string \<Rightarrow> string \<Rightarrow> (string \<times> bytes \<Rightarrow> version \<Rightarrow> string + unit) \<Rightarrow> grants \<Rightarrow> update_disk \<Rightarrow>
     (string + unit) \<times> update_disk" where
  "activate lib key platform_name health g d =
     (if \<not> gr_lock g then (Inl ''another peer process is using this state'', d)
      else
        (case load_update_state d of
           Inl e \<Rightarrow> (Inl e, d)
         | Inr s \<Rightarrow>
             (case us_pending s of
                None \<Rightarrow> (Inr (), d)
              | Some v \<Rightarrow>
                  (let checked = and_then (require (later lib v (version_floor lib s)) ''pending rollback rejected'') (\<lambda>_.
                                 and_then (verify_installed lib key platform_name v d) (\<lambda>exe. health exe v));
                       s' = (case checked of
                               Inl _ \<Rightarrow> s\<lparr>us_pending := None\<rparr>
                             | Inr _ \<Rightarrow> s\<lparr>us_pending := None, us_previous := us_active s, us_active := Some v,
                                         us_highwater := Some v\<rparr>) in
                   (case save_update_state g s' d of
                      (Inl e, d') \<Rightarrow> (Inl e, d')
                    | (Inr _, d') \<Rightarrow> (checked, d'))))))"

datatype program = Bootstrap | Update string bytes

definition active_executable :: "peer_lib \<Rightarrow> string \<Rightarrow> update_disk \<Rightarrow> string + program" where
  "active_executable lib key d =
     and_then (load_update_state d) (\<lambda>s.
       case us_active s of
         None \<Rightarrow> Inr Bootstrap
       | Some v \<Rightarrow> and_then (verify_installed lib key (platform lib) v d) (\<lambda>(path, content). Inr (Update path content)))"

definition rollback :: "grants \<Rightarrow> update_disk \<Rightarrow> (string + unit) \<times> update_disk" where
  "rollback g d =
     (if \<not> gr_lock g then (Inl ''another peer process is using this state'', d)
      else
        (case load_update_state d of
           Inl e \<Rightarrow> (Inl e, d)
         | Inr s \<Rightarrow> save_update_state g (s\<lparr>us_active := us_previous s, us_previous := None, us_pending := None\<rparr>) d))"

section \<open>The supervisor\<close>

text \<open>How a worker process went: it could not be spawned, did not report its start, could not be
  waited for, or exited.\<close>

datatype child = NotSpawned | NotStarted | WaitFailed | Exited "int option" bool

datatype round_end = Again | Return "string + unit"

definition after_rollback :: "(string + unit) \<times> update_disk \<Rightarrow> round_end \<times> update_disk" where
  "after_rollback r = (case r of (Inl e, d) \<Rightarrow> (Return (Inl e), d) | (Inr _, d) \<Rightarrow> (Again, d))"

text \<open>The answer to the outcome of a worker; quick means it lived less than 30 seconds.\<close>

definition judge :: "grants \<Rightarrow> program \<Rightarrow> child \<Rightarrow> update_disk \<Rightarrow> round_end \<times> update_disk" where
  "judge g exe c d =
     (case c of
        NotSpawned \<Rightarrow> if exe \<noteq> Bootstrap then after_rollback (rollback g d) else (Return (Inl ''unable to start peer worker''), d)
      | NotStarted \<Rightarrow> if exe \<noteq> Bootstrap then after_rollback (rollback g d) else (Return (Inl ''peer startup failed; run login before run''), d)
      | WaitFailed \<Rightarrow> (Return (Inl ''io''), d)
      | Exited code quick \<Rightarrow>
          if code = Some 75 then (Again, d)
          else if code \<noteq> Some 0 \<and> quick \<and> exe \<noteq> Bootstrap then after_rollback (rollback g d)
          else if code = Some 0 then (Return (Inr ()), d)
          else (Return (Inl ''peer worker stopped''), d))"

text \<open>The program of a round: after a rollback where the active one does not verify.\<close>

definition choose_program :: "peer_lib \<Rightarrow> string \<Rightarrow> grants \<Rightarrow> update_disk \<Rightarrow> (string + program) \<times> update_disk" where
  "choose_program lib key g d =
     (case active_executable lib key d of
        Inr exe \<Rightarrow> (Inr exe, d)
      | Inl _ \<Rightarrow>
          (case rollback g d of
             (Inl e, d') \<Rightarrow> (Inl e, d')
           | (Inr _, d') \<Rightarrow> (active_executable lib key d', d')))"

definition supervise_round ::
    "peer_lib \<Rightarrow> string \<Rightarrow> (string \<times> bytes \<Rightarrow> version \<Rightarrow> string + unit) \<Rightarrow> (program \<Rightarrow> update_disk \<Rightarrow> child \<times> update_disk) \<Rightarrow>
     grants \<Rightarrow> grants \<Rightarrow> grants \<Rightarrow> update_disk \<Rightarrow> round_end \<times> program option \<times> update_disk" where
  "supervise_round lib key health worker g1 g2 g3 d =
     (let d1 = snd (activate lib key (platform lib) health g1 d) in
      case choose_program lib key g2 d1 of
        (Inl e, d2) \<Rightarrow> (Return (Inl e), None, d2)
      | (Inr exe, d2) \<Rightarrow>
          (case worker exe d2 of
             (c, d3) \<Rightarrow> (case judge g3 exe c d3 of (n, d4) \<Rightarrow> (n, Some exe, d4))))"

section \<open>What runs\<close>

text \<open>A file that a release of the publisher names: the manifest verifies under the key and the bytes
  are the ones it describes.\<close>

definition proven :: "peer_lib \<Rightarrow> string \<Rightarrow> version \<Rightarrow> bytes \<Rightarrow> bool" where
  "proven lib key v content =
     (\<exists>r k s. r_version r = v \<and> r_product r = ''twodrive-peer'' \<and> r_platform r = platform lib \<and>
        r_file r = executable_name (platform lib) \<and> v_pre v = [] \<and> v_build v = [] \<and> length content = unat (r_size r) \<and>
        hex_encode lib (sha256 lib content) = r_sha256 r \<and> bytes32 lib key = Inr k \<and>
        hex_decode lib (r_signature r) = Some s \<and> ed_verify lib k (release_bytes lib r) s)"

lemma release_verified:
  assumes "verify_release lib key platform_name floor r = Inr u"
  shows "later lib (r_version r) floor \<and> r_product r = ''twodrive-peer'' \<and> r_platform r = platform_name \<and>
    r_file r = executable_name platform_name \<and> v_pre (r_version r) = [] \<and> v_build (r_version r) = [] \<and>
    (\<exists>k s. bytes32 lib key = Inr k \<and> hex_decode lib (r_signature r) = Some s \<and> ed_verify lib k (release_bytes lib r) s)"
  using assms
  by (auto simp: verify_release_def verify_signature_def and_then_Inr_iff split: option.splits if_splits)

lemma installed_is_proven:
  assumes "verify_installed lib key (platform lib) v d = Inr (path, content)"
  shows "proven lib key v content"
proof -
  obtain i r u where r: "verify_release lib key (platform lib) zero_version r = Inr u" "r_version r = v"
      "check_bytes lib r content = Inr ()"
    using assms by (auto simp: verify_installed_def and_then_Inr_iff split: option.splits)
  then show ?thesis
    using release_verified[OF r(1)] unfolding proven_def check_bytes_def require_Inr by blast
qed

lemma active_is_proven:
  "active_executable lib key d = Inr (Update path content) \<Longrightarrow> \<exists>v. proven lib key v content"
  by (auto simp: active_executable_def and_then_Inr_iff split: option.splits dest!: installed_is_proven)

lemma chosen_is_proven:
  "choose_program lib key g d = (Inr (Update path content), d') \<Longrightarrow> \<exists>v. proven lib key v content"
  by (auto simp: choose_program_def split: sum.splits prod.splits dest: active_is_proven)

lemma activate_agrees:
  assumes "\<And>path content v. proven lib key v content \<Longrightarrow> health (path, content) v = health' (path, content) v"
  shows "activate lib key (platform lib) health g d = activate lib key (platform lib) health' g d"
proof -
  have "and_then (verify_installed lib key (platform lib) v d) (\<lambda>exe. health exe v) =
      and_then (verify_installed lib key (platform lib) v d) (\<lambda>exe. health' exe v)" for v
    using installed_is_proven[of lib key v d] assms
    by (cases "verify_installed lib key (platform lib) v d") (auto simp: and_then_def)
  then show ?thesis by (simp only: activate_def)
qed

text \<open>C7: Nothing runs that the publisher did not sign.  Whatever lies in the directory of updates, a
  worker is started from the installed program or from a file a signed release describes byte by
  byte, and a candidate is run for its health check only if it is such a file: what other files
  would do when run makes no difference.\<close>

theorem only_signed_programs_run:
  assumes "supervise_round lib key health worker g1 g2 g3 d = (n, started, d')"
    and "\<And>path content v. proven lib key v content \<Longrightarrow> health (path, content) v = health' (path, content) v"
  shows "(\<forall>path content. started = Some (Update path content) \<longrightarrow> (\<exists>v. proven lib key v content)) \<and>
    supervise_round lib key health' worker g1 g2 g3 d = (n, started, d')"
  using assms(1) activate_agrees[of lib key health health', OF assms(2)]
  by (auto simp: supervise_round_def Let_def split: sum.splits prod.splits dest: chosen_is_proven)

section \<open>Versions only grow\<close>

definition version_order :: "peer_lib \<Rightarrow> bool" where
  "version_order lib =
     ((\<forall>a. \<not> later lib a a) \<and> (\<forall>a b c. later lib a b \<longrightarrow> later lib b c \<longrightarrow> later lib a c) \<and>
      (\<forall>a b. a = b \<or> later lib a b \<or> later lib b a))"

text \<open>
  The life of an installation: packages are staged and downloaded, candidates activated, versions
  rolled back, and anything may happen to the files beside the state file.  The list holds the
  versions that were activated, newest first.
\<close>

inductive updates :: "peer_lib \<Rightarrow> string \<Rightarrow> update_disk \<Rightarrow> version list \<Rightarrow> bool" for lib key where
  updates_new: "ud_state d = Absent \<Longrightarrow> updates lib key d []"
| updates_stage: "updates lib key d vs \<Longrightarrow> updates lib key (snd (stage_release lib key platform_name g r content d)) vs"
| updates_download: "updates lib key d vs \<Longrightarrow> updates lib key (snd (download_and_stage lib key fetch g tag d)) vs"
| updates_local: "updates lib key d vs \<Longrightarrow> updates lib key (snd (stage_local lib key g package d)) vs"
| updates_activate: "updates lib key d vs \<Longrightarrow> activate lib key (platform lib) health g d = (r, d') \<Longrightarrow>
    updates lib key d' (case (r, load_update_state d) of
      (Inr _, Inr s) \<Rightarrow> (case us_pending s of Some v \<Rightarrow> v # vs | None \<Rightarrow> vs) | _ \<Rightarrow> vs)"
| updates_rollback: "updates lib key d vs \<Longrightarrow> updates lib key (snd (rollback g d)) vs"
| updates_files: "updates lib key d vs \<Longrightarrow> updates lib key (d\<lparr>ud_versions := files\<rparr>) vs"

definition history_ok :: "peer_lib \<Rightarrow> update_disk \<Rightarrow> version list \<Rightarrow> bool" where
  "history_ok lib d vs =
     (sorted_wrt (later lib) vs \<and> (\<forall>v \<in> set vs. later lib v (own_version lib)) \<and>
      (case ud_state d of
         Absent \<Rightarrow> vs = []
       | Unreadable \<Rightarrow> False
       | Stored s \<Rightarrow> us_highwater s = (case vs of [] \<Rightarrow> None | v # _ \<Rightarrow> Some v) \<and>
           (\<forall>v. us_active s = Some v \<or> us_previous s = Some v \<longrightarrow> v \<in> set vs)))"

lemma later_floor:
  assumes "version_order lib" "later lib v (version_floor lib s)"
  shows "later lib v (own_version lib) \<and> (\<forall>h. us_highwater s = Some h \<longrightarrow> later lib v h)"
proof (cases "us_highwater s")
  case (Some h)
  have trans: "later lib a b \<Longrightarrow> later lib b c \<Longrightarrow> later lib a c" for a b c
    using assms(1) unfolding version_order_def by blast
  show ?thesis
  proof (cases "later lib h (own_version lib)")
    case True
    then show ?thesis using assms(2) Some trans[of v h] by (simp add: version_floor_def)
  next
    case False
    moreover have "h = own_version lib \<or> later lib h (own_version lib) \<or> later lib (own_version lib) h"
      using assms(1) unfolding version_order_def by blast
    ultimately show ?thesis using assms(2) Some trans[of v "own_version lib" h] by (auto simp: version_floor_def)
  qed
qed (use assms in \<open>simp add: version_floor_def\<close>)

lemma history_state:
  "history_ok lib d vs \<Longrightarrow> load_update_state d = Inr s \<Longrightarrow> history_ok lib (d\<lparr>ud_state := Stored s\<rparr>) vs"
  by (auto simp: history_ok_def load_update_state_def new_update_state_def split: state_file.splits)

lemma history_files: "history_ok lib (d\<lparr>ud_versions := files\<rparr>) vs = history_ok lib d vs"
  by (simp add: history_ok_def)

lemma history_save:
  assumes "history_ok lib d vs" "history_ok lib (d\<lparr>ud_state := Stored s\<rparr>) vs"
  shows "history_ok lib (snd (save_update_state g s d)) vs"
  using assms by (simp add: save_update_state_def)

lemma place_files: "\<exists>files. snd (place lib g r content d) = d\<lparr>ud_versions := files\<rparr>"
proof (cases "ud_versions d (version_dir lib (r_version r)) = None \<and> gr_write g")
  case True
  then show ?thesis by (auto simp: place_def)
next
  case False
  then have "snd (place lib g r content d) = d\<lparr>ud_versions := ud_versions d\<rparr>"
    by (auto simp: place_def split: option.split)
  then show ?thesis by blast
qed

lemma history_stage:
  assumes "history_ok lib d vs"
  shows "history_ok lib (snd (stage_release lib key platform_name g r content d)) vs"
proof -
  have "history_ok lib (snd (save_update_state g (s\<lparr>us_pending := p\<rparr>) d')) vs"
    if s: "load_update_state d = Inr s" and placed: "place lib g r content d = (x, d')" for s p x d'
  proof (rule history_save)
    obtain files where d': "d' = d\<lparr>ud_versions := files\<rparr>" using place_files[of lib g r content d] placed by auto
    then show "history_ok lib d' vs" using assms by (simp add: history_files)
    show "history_ok lib (d'\<lparr>ud_state := Stored (s\<lparr>us_pending := p\<rparr>)\<rparr>) vs"
      using history_state[OF assms s] unfolding d' by (simp add: history_ok_def)
  qed
  moreover have "history_ok lib d' vs" if "place lib g r content d = (x, d')" for x d'
    using place_files[of lib g r content d] that assms by (auto simp: history_files)
  ultimately show ?thesis
    using assms by (auto simp: stage_release_def split: sum.split prod.split)
qed

lemma history_activate:
  assumes "version_order lib" "history_ok lib d vs" "activate lib key (platform lib) health g d = (r, d')"
  shows "history_ok lib d' (case (r, load_update_state d) of
      (Inr _, Inr s) \<Rightarrow> (case us_pending s of Some v \<Rightarrow> v # vs | None \<Rightarrow> vs) | _ \<Rightarrow> vs)"
proof (cases "\<exists>s v. gr_lock g \<and> load_update_state d = Inr s \<and> us_pending s = Some v \<and> gr_save g")
  case False
  then show ?thesis
    using assms(2,3) by (auto simp: activate_def save_update_state_def Let_def split: sum.splits option.splits if_splits)
next
  case True
  then obtain s v where s: "load_update_state d = Inr s" "us_pending s = Some v" and g: "gr_lock g" "gr_save g" by blast
  let ?checked = "and_then (require (later lib v (version_floor lib s)) ''pending rollback rejected'') (\<lambda>_.
      and_then (verify_installed lib key (platform lib) v d) (\<lambda>exe. health exe v))"
  note old = history_state[OF assms(2) s(1)]
  show ?thesis
  proof (cases ?checked)
    case (Inl e)
    then have "r = Inl e" "d' = d\<lparr>ud_state := Stored (s\<lparr>us_pending := None\<rparr>)\<rparr>"
      using assms(3) s g by (simp_all add: activate_def save_update_state_def)
    then show ?thesis using old by (simp add: history_ok_def)
  next
    case (Inr u)
    then have run: "r = Inr u"
        "d' = d\<lparr>ud_state := Stored (s\<lparr>us_pending := None, us_previous := us_active s, us_active := Some v, us_highwater := Some v\<rparr>)\<rparr>"
      using assms(3) s g by (simp_all add: activate_def save_update_state_def)
    have "later lib v (version_floor lib s)" using Inr by (auto simp: and_then_Inr_iff)
    note later = later_floor[OF assms(1) this]
    have "later lib v w" if "w \<in> set vs" for w
    proof (cases vs)
      case (Cons h hs)
      then have "us_highwater s = Some h" "sorted_wrt (later lib) (h # hs)" using old by (auto simp: history_ok_def)
      then show ?thesis using later that Cons assms(1) unfolding version_order_def by auto
    qed (use that in simp)
    then show ?thesis using old later run s(1,2) by (auto simp: history_ok_def)
  qed
qed

text \<open>C15: An installation never goes back behind a version it has activated, except to one of those it
  had activated before: every activated version is newer than all versions activated earlier and
  than the program itself, however packages, failures, rollbacks and damaged files follow each
  other; and the active and the previous version are always among the activated ones.\<close>

theorem activated_versions_grow:
  assumes "updates lib key d vs" "version_order lib"
  shows "sorted_wrt (later lib) vs \<and> (\<forall>v \<in> set vs. later lib v (own_version lib)) \<and>
    (\<forall>s v. load_update_state d = Inr s \<and> (us_active s = Some v \<or> us_previous s = Some v) \<longrightarrow> v \<in> set vs)"
proof -
  have "history_ok lib d vs"
    using assms(1)
  proof induction
    case (updates_new d)
    then show ?case by (simp add: history_ok_def)
  next
    case (updates_rollback d vs g)
    have "history_ok lib (snd (save_update_state g (s\<lparr>us_active := us_previous s, us_previous := None, us_pending := None\<rparr>) d)) vs"
      if "load_update_state d = Inr s" for s
      by (rule history_save[OF updates_rollback.IH])
         (use history_state[OF updates_rollback.IH that] in \<open>auto simp: history_ok_def\<close>)
    then show ?case using updates_rollback.IH by (auto simp: rollback_def split: sum.split)
  next
    case (updates_activate d vs health g r d')
    then show ?case using history_activate[OF assms(2)] by blast
  next
    case (updates_download d vs fetch g tag)
    then show ?case by (auto simp: download_and_stage_def history_stage split: sum.split prod.split)
  next
    case (updates_local d vs g package)
    then show ?case by (auto simp: stage_local_def history_stage split: sum.split prod.split)
  qed (simp_all add: history_stage history_files)
  then show ?thesis
    by (auto simp: history_ok_def load_update_state_def new_update_state_def split: state_file.splits)
qed

section \<open>A sample update\<close>

definition publisher :: string where
  "publisher = to_hex (bytes_of CHR ''p'')"

definition unsigned_release :: release_info where
  "unsigned_release =
     \<lparr>r_schema = 1, r_product = ''twodrive-peer'',
      r_version = \<lparr>v_major = 2, v_minor = 0, v_patch = 0, v_pre = [], v_build = []\<rparr>, r_platform = ''linux-x86_64'',
      r_file = ''twodrive-peer'', r_size = 2, r_sha256 = to_hex (pad32 ''ok''), r_signature = []\<rparr>"

definition sample_release :: release_info where
  "sample_release = unsigned_release\<lparr>r_signature :=
     to_hex (bytes_of CHR ''p'' @ release_bytes sample_lib unsigned_release)\<rparr>"

definition all_granted :: grants where
  "all_granted = \<lparr>gr_lock = True, gr_write = True, gr_save = True\<rparr>"

definition empty_updates :: update_disk where
  "empty_updates = \<lparr>ud_state = Absent, ud_versions = (\<lambda>_. None)\<rparr>"

abbreviation sample_platform :: string where
  "sample_platform \<equiv> platform sample_lib"

definition staged_updates :: update_disk where
  "staged_updates = snd (stage_release sample_lib publisher sample_platform all_granted sample_release ''ok'' empty_updates)"

definition active_updates :: update_disk where
  "active_updates = snd (activate sample_lib publisher sample_platform (\<lambda>_ _. Inr ()) all_granted staged_updates)"

lemma version_order_sample: "version_order sample_lib"
  unfolding version_order_def sample_lib_def peer_lib.simps using sample_later_order by blast

lemma sample_unsigned: "release_bytes sample_lib sample_release = release_bytes sample_lib unsigned_release"
  by (simp add: release_bytes_def sample_release_def unsigned_release_def)

lemma sample_verifies:
  "verify_release sample_lib publisher sample_platform floor sample_release = Inr ()"
  if "floor = zero_version \<or> floor = own_version sample_lib" for floor
proof -
  have "later sample_lib (r_version sample_release) floor"
    using that by (auto simp: sample_lib_def sample_later_def sample_release_def unsigned_release_def zero_version_def own_version_def sample_version_def)
  moreover have "verify_signature sample_lib publisher (release_bytes sample_lib sample_release) (r_signature sample_release) = Inr ()"
    unfolding sample_unsigned
    by (simp add: verify_signature_def bytes32_def publisher_def sample_lib_def of_hex_to_hex bytes_of_def and_then_def
        sample_release_def)
  moreover have "bytes32 sample_lib publisher = Inr (bytes_of CHR ''p'')"
    by (simp add: bytes32_def publisher_def sample_lib_def of_hex_to_hex bytes_of_def)
  ultimately show ?thesis
    by (simp add: verify_release_def require_def and_then_def sample_release_def unsigned_release_def sample_lib_def
        executable_name_def MAX_EXE_def valid_to_hex)
qed

lemma sample_content: "check_bytes sample_lib sample_release ''ok'' = Inr ()"
  by (simp add: check_bytes_def require_def sample_release_def unsigned_release_def sample_lib_def)

abbreviation sample_target :: version where
  "sample_target \<equiv> r_version sample_release"

lemma sample_staged:
  "staged_updates = \<lparr>ud_state = Stored (new_update_state\<lparr>us_pending := Some sample_target\<rparr>),
     ud_versions = [''1.2.3'' \<mapsto> \<lparr>in_manifest = Some sample_release, in_binary = Some ''ok''\<rparr>]\<rparr>"
proof -
  have "verify_release sample_lib publisher sample_platform (version_floor sample_lib new_update_state) sample_release = Inr ()"
    by (rule sample_verifies) (simp add: version_floor_def new_update_state_def)
  moreover have "version_dir sample_lib v = ''1.2.3''" for v by (simp add: version_dir_def sample_lib_def)
  ultimately show ?thesis
    by (simp add: staged_updates_def stage_release_def all_granted_def empty_updates_def load_update_state_def and_then_def
        sample_content place_def save_update_state_def)
qed

lemma sample_installed:
  assumes "ud_versions d = ud_versions staged_updates"
  shows "verify_installed sample_lib publisher sample_platform sample_target d = Inr (''1.2.3/twodrive-peer'', ''ok'')"
proof -
  have "version_dir sample_lib v = ''1.2.3''" for v by (simp add: version_dir_def sample_lib_def)
  moreover have "r_file sample_release = ''twodrive-peer''" by (simp add: sample_release_def unsigned_release_def)
  moreover have "verify_release sample_lib publisher sample_platform zero_version sample_release = Inr ()"
    by (rule sample_verifies) simp
  ultimately show ?thesis
    using assms by (simp add: verify_installed_def sample_staged read_release_def read_binary_def and_then_def require_def
        sample_content MAX_EXE_def)
qed

lemma sample_activated:
  "activate sample_lib publisher sample_platform (\<lambda>_ _. Inr ()) all_granted staged_updates = (Inr (), active_updates)"
  "ud_state active_updates = Stored \<lparr>us_active = Some sample_target, us_previous = None, us_pending = None, us_highwater = Some sample_target\<rparr>"
  "ud_versions active_updates = ud_versions staged_updates"
proof -
  have "later sample_lib sample_target (version_floor sample_lib (new_update_state\<lparr>us_pending := Some sample_target\<rparr>))"
    by (simp add: version_floor_def new_update_state_def sample_lib_def sample_later_def sample_release_def unsigned_release_def
        own_version_def sample_version_def)
  then have "activate sample_lib publisher sample_platform (\<lambda>_ _. Inr ()) all_granted staged_updates =
      (Inr (), staged_updates\<lparr>ud_state := Stored (new_update_state\<lparr>us_pending := None, us_previous := None,
         us_active := Some sample_target, us_highwater := Some sample_target\<rparr>)\<rparr>)"
    using sample_installed[of staged_updates]
    by (simp add: activate_def all_granted_def load_update_state_def sample_staged require_def and_then_def save_update_state_def
        new_update_state_def)
  then show "activate sample_lib publisher sample_platform (\<lambda>_ _. Inr ()) all_granted staged_updates = (Inr (), active_updates)"
    "ud_state active_updates = Stored \<lparr>us_active = Some sample_target, us_previous = None, us_pending = None, us_highwater = Some sample_target\<rparr>"
    "ud_versions active_updates = ud_versions staged_updates"
    by (simp_all add: active_updates_def new_update_state_def)
qed

lemma sample_round:
  "supervise_round sample_lib publisher (\<lambda>_ _. Inr ()) (\<lambda>_ d. (Exited (Some 0) False, d)) all_granted all_granted all_granted active_updates =
     (Return (Inr ()), Some (Update ''1.2.3/twodrive-peer'' ''ok''), active_updates)"
proof -
  have "activate sample_lib publisher sample_platform (\<lambda>_ _. Inr ()) all_granted active_updates = (Inr (), active_updates)"
    by (simp add: activate_def all_granted_def load_update_state_def sample_activated)
  moreover have "active_executable sample_lib publisher active_updates = Inr (Update ''1.2.3/twodrive-peer'' ''ok'')"
    using sample_installed[OF sample_activated(3)]
    by (simp add: active_executable_def load_update_state_def sample_activated and_then_def)
  ultimately show ?thesis by (simp add: supervise_round_def choose_program_def judge_def)
qed

lemma only_signed_programs_run_witness: "\<exists>v. proven sample_lib publisher v ''ok''"
  using only_signed_programs_run[OF sample_round, where health' = "\<lambda>_ _. Inr ()"] by blast

lemma activated_versions_grow_witness:
  "updates sample_lib publisher active_updates [sample_target] \<and> sorted_wrt (later sample_lib) [sample_target] \<and>
   later sample_lib sample_target (own_version sample_lib)"
proof -
  have "updates sample_lib publisher empty_updates []" by (rule updates_new) (simp add: empty_updates_def)
  then have "updates sample_lib publisher staged_updates []" unfolding staged_updates_def by (rule updates_stage)
  from updates_activate[OF this sample_activated(1)]
  have "updates sample_lib publisher active_updates [sample_target]"
    by (simp add: load_update_state_def sample_staged new_update_state_def)
  then show ?thesis using activated_versions_grow[OF _ version_order_sample] by fastforce
qed

end
