(* ===== verification/PeerProtocol.thy ===== *)
theory PeerProtocol
  imports PeerUpdate "HOL-Library.AList"
begin

text \<open>
  crates/twodrive-peer/src/protocol.rs: the control protocol of a device.  It knows the devices it
  trusts, the presence each of them published, a challenge per peer, the envelopes it has accepted
  and the pings it waits for.  The maps of the code are lists of pairs with distinct keys.
\<close>

section \<open>State\<close>

record peer =
  p_presence :: "presence option"
  p_challenge :: string
  p_authenticated :: bool

definition default_peer :: peer where
  "default_peer = \<lparr>p_presence = None, p_challenge = [], p_authenticated = False\<rparr>"

record engine =
  eg_identity :: device_keys
  eg_session :: string
  eg_trusted :: "string set"
  eg_peers :: "(string \<times> peer) list"
  eg_seen :: "(string \<times> int) list"
  eg_pings :: "(string \<times> string \<times> int) list"
  eg_selected_roots :: nat

definition new_engine :: "peer_lib \<Rightarrow> bytes \<Rightarrow> device_keys \<Rightarrow> string set \<Rightarrow> engine" where
  "new_engine lib random keys trusted =
     \<lparr>eg_identity = keys, eg_session = nonce lib random, eg_trusted = trusted, eg_peers = [], eg_seen = [],
      eg_pings = [], eg_selected_roots = 0\<rparr>"

definition set_trust :: "string set \<Rightarrow> engine \<Rightarrow> engine" where
  "set_trust trusted eg =
     eg\<lparr>eg_peers := filter (\<lambda>(i, _). i \<in> trusted) (eg_peers eg), eg_trusted := trusted\<rparr>"

definition peer_of :: "engine \<Rightarrow> string \<Rightarrow> peer option" where
  "peer_of eg i = map_of (eg_peers eg) i"

definition presence_in :: "engine \<Rightarrow> string \<Rightarrow> presence option" where
  "presence_in eg i = Option.bind (peer_of eg i) p_presence"

definition set_peer :: "string \<Rightarrow> peer \<Rightarrow> engine \<Rightarrow> engine" where
  "set_peer i p eg = eg\<lparr>eg_peers := AList.update i p (eg_peers eg)\<rparr>"

section \<open>Discovery\<close>

text \<open>A new session or encryption key ends the handshake and draws a new challenge.\<close>

definition note_presence :: "peer_lib \<Rightarrow> bytes \<Rightarrow> presence \<Rightarrow> peer \<Rightarrow> peer" where
  "note_presence lib random pr p =
     (let stale = (case p_presence p of
                     None \<Rightarrow> True
                   | Some old \<Rightarrow> pr_session old \<noteq> pr_session pr \<or> pr_encryption old \<noteq> pr_encryption pr);
          q = (if stale then p\<lparr>p_authenticated := False, p_challenge := nonce lib random\<rparr> else p) in
      q\<lparr>p_presence := Some pr\<rparr>)"

definition discover_peer :: "peer_lib \<Rightarrow> bytes \<Rightarrow> presence \<Rightarrow> int \<Rightarrow> engine \<Rightarrow> (string + bool) \<times> engine" where
  "discover_peer lib random pr now eg =
     (case verify_presence lib pr now of
        Inl e \<Rightarrow> (Inl e, eg)
      | Inr _ \<Rightarrow>
          if pr_device pr = id_of lib (eg_identity eg) then (Inl ''self presence'', eg)
          else if pr_device pr \<notin> eg_trusted eg then (Inr False, eg)
          else if \<not> (length (eg_peers eg) < 64 \<or> peer_of eg (pr_device pr) \<noteq> None) then (Inl ''peer limit reached'', eg)
          else
            (let p = (case peer_of eg (pr_device pr) of None \<Rightarrow> default_peer | Some p \<Rightarrow> p) in
             (Inr True, set_peer (pr_device pr) (note_presence lib random pr p) eg)))"

definition peer_ids :: "engine \<Rightarrow> string list" where
  "peer_ids eg = sort (map fst (eg_peers eg))"

definition authenticated :: "peer_lib \<Rightarrow> engine \<Rightarrow> string \<Rightarrow> int \<Rightarrow> bool" where
  "authenticated lib eg i now =
     (case peer_of eg i of
        None \<Rightarrow> False
      | Some p \<Rightarrow> p_authenticated p \<and>
          (case p_presence p of None \<Rightarrow> False | Some pr \<Rightarrow> verify_presence lib pr now = Inr ()))"

section \<open>Sending\<close>

definition wrap :: "peer_lib \<Rightarrow> entropy \<Rightarrow> engine \<Rightarrow> string \<Rightarrow> message \<Rightarrow> int \<Rightarrow> string + envelope" where
  "wrap lib e eg i message now =
     (case presence_in eg i of
        None \<Rightarrow> Inl ''peer not discovered''
      | Some pr \<Rightarrow> seal lib e (eg_identity eg) (eg_session eg) pr message now)"

definition hello :: "peer_lib \<Rightarrow> entropy \<Rightarrow> engine \<Rightarrow> string \<Rightarrow> int \<Rightarrow> string + envelope" where
  "hello lib e eg i now =
     (case peer_of eg i of
        None \<Rightarrow> Inl ''unknown peer''
      | Some p \<Rightarrow> wrap lib e eg i (Hello (p_challenge p)) now)"

fun is_handshake :: "message \<Rightarrow> bool" where
  "is_handshake (Hello _) = True"
| "is_handshake (HelloAck _) = True"
| "is_handshake _ = False"

text \<open>A ping is remembered for 120 seconds.\<close>

definition note_ping :: "string \<Rightarrow> string \<Rightarrow> int \<Rightarrow> engine \<Rightarrow> (string + unit) \<times> engine" where
  "note_ping i n now eg =
     (let pings = filter (\<lambda>(_, _, expires). now < expires) (eg_pings eg) in
      if valid_id n \<and> length pings < 256
      then (Inr (), eg\<lparr>eg_pings := AList.update n (i, now + 120) pings\<rparr>)
      else (Inl ''invalid ping/too many outstanding pings'', eg\<lparr>eg_pings := pings\<rparr>))"

definition send_message ::
    "peer_lib \<Rightarrow> entropy \<Rightarrow> string \<Rightarrow> message \<Rightarrow> int \<Rightarrow> engine \<Rightarrow> (string + envelope) \<times> engine" where
  "send_message lib e i message now eg =
     (if \<not> authenticated lib eg i now then (Inl ''peer handshake not complete'', eg)
      else if is_handshake message then (Inl ''reserved handshake message'', eg)
      else
        (case (case message of Ping n \<Rightarrow> note_ping i n now eg | _ \<Rightarrow> (Inr (), eg)) of
           (Inl err, eg') \<Rightarrow> (Inl err, eg')
         | (Inr _, eg') \<Rightarrow> (wrap lib e eg' i message now, eg')))"

section \<open>Receiving\<close>

text \<open>What a message of an authenticated peer is answered with, and what it changes.\<close>

definition answer_control ::
    "peer_lib \<Rightarrow> string \<Rightarrow> message \<Rightarrow> int \<Rightarrow> engine \<Rightarrow> (string + message option) \<times> engine" where
  "answer_control lib i message now eg =
     (case message of
        Ping n \<Rightarrow> if valid_id n then (Inr (Some (Pong n)), eg) else (Inl ''invalid ping'', eg)
      | Pong n \<Rightarrow>
          (case map_of (eg_pings eg) n of
             Some (p, expiry) \<Rightarrow>
               if p = i \<and> now < expiry then (Inr None, eg\<lparr>eg_pings := AList.delete n (eg_pings eg)\<rparr>)
               else (Inl ''unsolicited pong'', eg)
           | None \<Rightarrow> (Inl ''unsolicited pong'', eg))
      | StatusRequest \<Rightarrow> (Inr (Some (Status (package_version lib) (platform lib) (eg_selected_roots eg))), eg)
      | Status v p n \<Rightarrow>
          if byte_len v \<le> 40 \<and> byte_len p \<le> 40 \<and> n \<le> 1024 then (Inr None, eg) else (Inl ''invalid status'', eg)
      | UpdateAvailable tag \<Rightarrow>
          (case validate_tag lib tag of Inl e \<Rightarrow> (Inl e, eg) | Inr _ \<Rightarrow> (Inr None, eg))
      | _ \<Rightarrow> (Inl ''unreachable'', eg))"

definition answer_message ::
    "peer_lib \<Rightarrow> string \<Rightarrow> message \<Rightarrow> int \<Rightarrow> engine \<Rightarrow> (string + message option) \<times> engine" where
  "answer_message lib i message now eg =
     (case message of
        Hello challenge \<Rightarrow>
          if valid_id challenge then (Inr (Some (HelloAck challenge)), eg) else (Inl ''invalid challenge'', eg)
      | HelloAck challenge \<Rightarrow>
          (case peer_of eg i of
             None \<Rightarrow> (Inl ''unreachable'', eg)
           | Some p \<Rightarrow>
               if p_challenge p \<noteq> [] \<and> challenge = p_challenge p
               then (Inr None, set_peer i (p\<lparr>p_authenticated := True\<rparr>) eg)
               else (Inl ''handshake challenge mismatch'', eg))
      | _ \<Rightarrow>
          if authenticated lib eg i now then answer_control lib i message now eg
          else (Inl ''control received before handshake'', eg))"

definition forget_expired :: "int \<Rightarrow> engine \<Rightarrow> engine" where
  "forget_expired now eg = eg\<lparr>eg_seen := filter (\<lambda>(_, expiry). now < expiry) (eg_seen eg)\<rparr>"

definition note_seen :: "envelope_header \<Rightarrow> engine \<Rightarrow> engine" where
  "note_seen h eg = eg\<lparr>eg_seen := AList.update (h_id h) (h_expires h) (eg_seen eg)\<rparr>"

definition receive ::
    "peer_lib \<Rightarrow> entropy \<Rightarrow> envelope \<Rightarrow> int \<Rightarrow> engine \<Rightarrow> (string + message \<times> envelope option) \<times> engine" where
  "receive lib e env now eg =
     (let h = header_of env; i = h_from h in
      case presence_in eg i of
        None \<Rightarrow> (Inl ''untrusted sender'', eg)
      | Some pr \<Rightarrow>
          (case and_then (verify_presence lib pr now) (\<lambda>_. open_envelope lib (eg_identity eg) (eg_session eg) pr env now) of
             Inl err \<Rightarrow> (Inl err, eg)
           | Inr message \<Rightarrow>
               let eg1 = forget_expired now eg in
               if map_of (eg_seen eg1) (h_id h) \<noteq> None then (Inl ''replayed control message'', eg1)
               else if \<not> length (eg_seen eg1) < 2048 then (Inl ''control replay window full'', eg1)
               else
                 (case answer_message lib i message now eg1 of
                    (Inl err, eg2) \<Rightarrow> (Inl err, eg2)
                  | (Inr response, eg2) \<Rightarrow>
                      let eg3 = note_seen h eg2 in
                      (case response of
                         None \<Rightarrow> (Inr (message, None), eg3)
                       | Some m \<Rightarrow>
                           (case wrap lib e eg3 i m now of
                              Inl err \<Rightarrow> (Inl err, eg3)
                            | Inr out \<Rightarrow> (Inr (message, Some out), eg3))))))"

section \<open>Runs\<close>

text \<open>
  A device as its worker drives it: the user changes the trusted devices, presences and envelopes
  come from the cloud in any order, messages are sent.  The clock does not run backwards.  The log
  holds the envelopes that were accepted, newest first.
\<close>

type_synonym acceptance = "int \<times> envelope \<times> message"

inductive runs :: "peer_lib \<Rightarrow> device_keys \<Rightarrow> engine \<Rightarrow> int \<Rightarrow> acceptance list \<Rightarrow> bool" for lib keys where
  runs_new: "runs lib keys (new_engine lib random keys trusted) now []"
| runs_wait: "runs lib keys eg now log \<Longrightarrow> now \<le> now' \<Longrightarrow> runs lib keys eg now' log"
| runs_trust: "runs lib keys eg now log \<Longrightarrow> runs lib keys (set_trust trusted eg) now log"
| runs_roots: "runs lib keys eg now log \<Longrightarrow> runs lib keys (eg\<lparr>eg_selected_roots := n\<rparr>) now log"
| runs_discover: "runs lib keys eg now log \<Longrightarrow> runs lib keys (snd (discover_peer lib random pr now eg)) now log"
| runs_send: "runs lib keys eg now log \<Longrightarrow> runs lib keys (snd (send_message lib e i message now eg)) now log"
| runs_receive: "runs lib keys eg now log \<Longrightarrow> receive lib e env now eg = (Inr (message, out), eg') \<Longrightarrow>
    runs lib keys eg' now ((now, env, message) # log)"
| runs_reject: "runs lib keys eg now log \<Longrightarrow> receive lib e env now eg = (Inl err, eg') \<Longrightarrow> runs lib keys eg' now log"

lemma kept_by_filter: "map_of xs k = Some v \<Longrightarrow> P v \<Longrightarrow> map_of (filter (\<lambda>(_, v). P v) xs) k = Some v"
  by (induction xs) (auto split: if_splits)

lemma distinct_filter: "distinct (map fst xs) \<Longrightarrow> distinct (map fst (filter P xs))"
  by (induction xs) auto

lemma length_update: "length (AList.update k v xs) = (if map_of xs k = None then Suc (length xs) else length xs)"
  by (induction xs) auto

section \<open>What a step changes\<close>

text \<open>An answer changes the engine only for an acknowledged handshake or an awaited pong.\<close>

lemma answer_refused: "answer_message lib i message now eg = (Inl err, eg') \<Longrightarrow> eg' = eg"
  by (auto simp: answer_message_def answer_control_def split: message.splits option.splits if_splits prod.splits sum.splits)

lemma answer_replies: "answer_message lib i message now eg = (Inr (Some m), eg') \<Longrightarrow> eg' = eg"
  by (auto simp: answer_message_def answer_control_def split: message.splits option.splits if_splits prod.splits sum.splits)

definition acknowledged :: "string \<Rightarrow> message \<Rightarrow> engine \<Rightarrow> engine \<Rightarrow> bool" where
  "acknowledged i message eg eg' =
     (\<exists>p. peer_of eg i = Some p \<and> p_challenge p \<noteq> [] \<and> message = HelloAck (p_challenge p) \<and>
        eg' = set_peer i (p\<lparr>p_authenticated := True\<rparr>) eg)"

lemma answer_silent:
  "answer_message lib i message now eg = (Inr None, eg') \<Longrightarrow>
   acknowledged i message eg eg' \<or> eg' = eg \<or> (\<exists>n. eg' = eg\<lparr>eg_pings := AList.delete n (eg_pings eg)\<rparr>)"
  by (auto simp: answer_message_def answer_control_def acknowledged_def
           split: message.splits option.splits if_splits prod.splits sum.splits)

lemma answer_needs_handshake:
  "answer_message lib i message now eg = (Inr r, eg') \<Longrightarrow> is_handshake message \<or> authenticated lib eg i now"
  by (auto simp: answer_message_def split: message.splits if_splits)

text \<open>An envelope is accepted only if it is fresh, opens, and its message is in order.\<close>

definition admitted :: "peer_lib \<Rightarrow> envelope \<Rightarrow> int \<Rightarrow> engine \<Rightarrow> message \<Rightarrow> presence \<Rightarrow> bool" where
  "admitted lib env now eg message pr =
     (presence_in eg (h_from (header_of env)) = Some pr \<and> verify_presence lib pr now = Inr () \<and>
      open_envelope lib (eg_identity eg) (eg_session eg) pr env now = Inr message \<and>
      map_of (eg_seen (forget_expired now eg)) (h_id (header_of env)) = None \<and>
      length (eg_seen (forget_expired now eg)) < 2048)"

lemma receive_accepted:
  assumes "receive lib e env now eg = (Inr (message, out), eg')"
  shows "\<exists>pr r eg2. admitted lib env now eg message pr \<and>
    answer_message lib (h_from (header_of env)) message now (forget_expired now eg) = (Inr r, eg2) \<and>
    eg' = note_seen (header_of env) eg2"
  using assms unfolding receive_def Let_def admitted_def
  by (auto simp: and_then_Inr_iff split: option.splits sum.splits if_splits prod.splits)

lemma receive_rejected:
  assumes "receive lib e env now eg = (Inl err, eg')"
  shows "eg' = eg \<or> eg' = forget_expired now eg \<or>
    (\<exists>message pr. admitted lib env now eg message pr \<and> eg' = note_seen (header_of env) (forget_expired now eg))"
  using assms unfolding receive_def Let_def admitted_def
  by (auto simp: and_then_Inr_iff split: option.splits sum.splits if_splits prod.splits dest: answer_refused answer_replies)

lemma admitted_fresh:
  assumes "admitted lib env now eg message pr"
  shows "now < h_expires (header_of env) \<and> map_of (eg_seen eg) (h_id (header_of env)) \<noteq> Some (h_expires (header_of env))"
proof -
  have now: "now < h_expires (header_of env)"
    using assms by (auto simp: admitted_def open_envelope_def and_then_Inr_iff check_header_def Let_def)
  moreover have "map_of (eg_seen eg) (h_id (header_of env)) \<noteq> Some (h_expires (header_of env))"
    using kept_by_filter[of "eg_seen eg" _ _ "\<lambda>v. now < v"] assms now by (auto simp: admitted_def forget_expired_def)
  ultimately show ?thesis ..
qed

section \<open>Invariants of a run\<close>

text \<open>The tables: at most 64 peers, all trusted, none of them this device, each under the name its
  presence gives; at most 2048 remembered envelopes and 256 pings.\<close>

definition peers_ok :: "peer_lib \<Rightarrow> device_keys \<Rightarrow> engine \<Rightarrow> bool" where
  "peers_ok lib keys eg =
     (eg_identity eg = keys \<and> distinct (map fst (eg_peers eg)) \<and> length (eg_peers eg) \<le> 64 \<and>
      (\<forall>i p. peer_of eg i = Some p \<longrightarrow> i \<in> eg_trusted eg \<and> i \<noteq> id_of lib keys \<and>
         (\<exists>pr. p_presence p = Some pr \<and> pr_device pr = i)))"

definition windows_ok :: "engine \<Rightarrow> bool" where
  "windows_ok eg =
     (distinct (map fst (eg_seen eg)) \<and> length (eg_seen eg) \<le> 2048 \<and>
      distinct (map fst (eg_pings eg)) \<and> length (eg_pings eg) \<le> 256)"

text \<open>An accepted envelope is remembered until it expires.\<close>

definition remembered :: "engine \<Rightarrow> int \<Rightarrow> acceptance list \<Rightarrow> bool" where
  "remembered eg now log =
     (\<forall>(t, env, message) \<in> set log. t \<le> now \<and>
        (map_of (eg_seen eg) (h_id (header_of env)) = Some (h_expires (header_of env)) \<or> h_expires (header_of env) \<le> now))"

text \<open>A finished handshake: the peer has sent back the challenge of its present session.\<close>

definition handshake_logged :: "engine \<Rightarrow> acceptance list \<Rightarrow> bool" where
  "handshake_logged eg log =
     (\<forall>i p. peer_of eg i = Some p \<and> p_authenticated p \<longrightarrow> p_challenge p \<noteq> [] \<and>
        (\<exists>t env pr. (t, env, HelloAck (p_challenge p)) \<in> set log \<and> p_presence p = Some pr \<and>
           h_from (header_of env) = i \<and> h_from_session (header_of env) = pr_session pr))"

lemma peer_set [simp]: "peer_of (set_peer i p eg) j = (if j = i then Some p else peer_of eg j)"
  by (simp add: peer_of_def set_peer_def update_conv')

lemma set_peer_frame [simp]:
  "eg_identity (set_peer i p eg) = eg_identity eg" "eg_session (set_peer i p eg) = eg_session eg"
  "eg_trusted (set_peer i p eg) = eg_trusted eg" "eg_seen (set_peer i p eg) = eg_seen eg"
  "eg_pings (set_peer i p eg) = eg_pings eg"
  by (simp_all add: set_peer_def)

lemma peer_frame [simp]:
  "peer_of (note_seen h eg) = peer_of eg" "peer_of (forget_expired now eg) = peer_of eg"
  "peer_of (eg\<lparr>eg_pings := ps\<rparr>) = peer_of eg" "peer_of (eg\<lparr>eg_selected_roots := n\<rparr>) = peer_of eg"
  by (simp_all add: peer_of_def fun_eq_iff note_seen_def forget_expired_def)

lemma peer_trust: "peer_of (set_trust trusted eg) i = (if i \<in> trusted then peer_of eg i else None)"
proof -
  have "map_of (filter (\<lambda>(j, _). j \<in> trusted) xs) i = (if i \<in> trusted then map_of xs i else None)" for xs :: "(string \<times> peer) list"
    by (induction xs) auto
  then show ?thesis by (simp add: peer_of_def set_trust_def)
qed

lemma peers_ok_set:
  assumes "peers_ok lib keys eg" "i \<in> eg_trusted eg" "i \<noteq> id_of lib keys" "p_presence p = Some pr" "pr_device pr = i"
    and "peer_of eg i \<noteq> None \<or> length (eg_peers eg) < 64"
  shows "peers_ok lib keys (set_peer i p eg)"
  using assms
  by (auto simp: peers_ok_def length_update peer_of_def set_peer_def update_conv' distinct_update)

lemma peers_ok_frame:
  "peers_ok lib keys eg \<Longrightarrow> eg_peers eg' = eg_peers eg \<Longrightarrow> eg_trusted eg' = eg_trusted eg \<Longrightarrow> eg_identity eg' = eg_identity eg \<Longrightarrow>
   peers_ok lib keys eg'"
  by (simp add: peers_ok_def peer_of_def)

lemma windows_note: "windows_ok eg \<Longrightarrow> length (eg_seen eg) < 2048 \<Longrightarrow> windows_ok (note_seen h eg)"
  by (simp add: windows_ok_def note_seen_def length_update distinct_update)

lemma windows_forget: "windows_ok eg \<Longrightarrow> windows_ok (forget_expired now eg)"
  by (auto simp: windows_ok_def forget_expired_def distinct_filter intro: le_trans[OF length_filter_le])

lemma windows_pong: "windows_ok eg \<Longrightarrow> windows_ok (eg\<lparr>eg_pings := AList.delete n (eg_pings eg)\<rparr>)"
  by (auto simp: windows_ok_def distinct_delete intro: le_trans[OF length_delete_le])

lemma remembered_frame: "remembered eg now log \<Longrightarrow> eg_seen eg' = eg_seen eg \<Longrightarrow> remembered eg' now log"
  by (simp add: remembered_def)

lemma remembered_forget: "remembered eg now log \<Longrightarrow> remembered (forget_expired now eg) now log"
  unfolding remembered_def forget_expired_def by (auto simp: kept_by_filter not_less)

lemma remembered_note:
  assumes "remembered eg now log" "map_of (eg_seen eg) (h_id h) = None"
  shows "remembered (note_seen h eg) now log"
  using assms unfolding remembered_def note_seen_def by (fastforce simp: update_conv')

lemma handshake_frame:
  "handshake_logged eg log \<Longrightarrow> peer_of eg' = peer_of eg \<Longrightarrow> set log \<subseteq> set log' \<Longrightarrow> handshake_logged eg' log'"
  unfolding handshake_logged_def by (simp only:) blast

lemma handshake_sub:
  "handshake_logged eg log \<Longrightarrow> (\<And>i p. peer_of eg' i = Some p \<Longrightarrow> peer_of eg i = Some p) \<Longrightarrow> handshake_logged eg' log"
  unfolding handshake_logged_def by blast

lemma note_presence_fields:
  "p_presence (note_presence lib random pr p) = Some pr"
  "p_authenticated (note_presence lib random pr p) \<Longrightarrow>
     p_authenticated p \<and> p_challenge (note_presence lib random pr p) = p_challenge p \<and>
     (\<exists>old. p_presence p = Some old \<and> pr_session old = pr_session pr)"
  by (auto simp: note_presence_def Let_def split: option.splits if_splits)

definition run_ok :: "peer_lib \<Rightarrow> device_keys \<Rightarrow> engine \<Rightarrow> int \<Rightarrow> acceptance list \<Rightarrow> bool" where
  "run_ok lib keys eg now log =
     (peers_ok lib keys eg \<and> windows_ok eg \<and> remembered eg now log \<and> handshake_logged eg log)"

lemma run_new: "run_ok lib keys (new_engine lib random keys trusted) now []"
  by (simp add: run_ok_def peers_ok_def windows_ok_def remembered_def handshake_logged_def new_engine_def peer_of_def)

lemma run_wait: "run_ok lib keys eg now log \<Longrightarrow> now \<le> now' \<Longrightarrow> run_ok lib keys eg now' log"
  by (fastforce simp: run_ok_def remembered_def)

lemma trust_frame [simp]:
  "eg_identity (set_trust trusted eg) = eg_identity eg" "eg_seen (set_trust trusted eg) = eg_seen eg"
  "eg_pings (set_trust trusted eg) = eg_pings eg" "eg_trusted (set_trust trusted eg) = trusted"
  by (simp_all add: set_trust_def)

lemma run_trust:
  assumes "run_ok lib keys eg now log"
  shows "run_ok lib keys (set_trust trusted eg) now log"
proof -
  have "peers_ok lib keys (set_trust trusted eg)"
    using assms unfolding run_ok_def peers_ok_def peer_trust
    by (auto simp: set_trust_def distinct_filter intro: le_trans[OF length_filter_le])
  moreover have "handshake_logged (set_trust trusted eg) log"
    by (rule handshake_sub[of eg]) (use assms in \<open>auto simp: run_ok_def peer_trust split: if_splits\<close>)
  moreover have "windows_ok (set_trust trusted eg)" using assms by (simp add: run_ok_def windows_ok_def)
  moreover have "remembered (set_trust trusted eg) now log"
    by (rule remembered_frame[of eg]) (use assms in \<open>simp_all add: run_ok_def\<close>)
  ultimately show ?thesis by (simp add: run_ok_def)
qed

lemma run_discover:
  assumes "run_ok lib keys eg now log"
  shows "run_ok lib keys (snd (discover_peer lib random pr now eg)) now log"
proof -
  let ?i = "pr_device pr"
  let ?p = "case peer_of eg ?i of None \<Rightarrow> default_peer | Some p \<Rightarrow> p"
  let ?q = "note_presence lib random pr ?p"
  have ok: "run_ok lib keys (set_peer ?i ?q eg) now log"
    if "?i \<noteq> id_of lib keys" "?i \<in> eg_trusted eg" "length (eg_peers eg) < 64 \<or> peer_of eg ?i \<noteq> None"
  proof -
    have "peers_ok lib keys (set_peer ?i ?q eg)"
      using assms that by (intro peers_ok_set[where pr = pr]) (auto simp: run_ok_def note_presence_fields)
    moreover have "handshake_logged (set_peer ?i ?q eg) log"
      unfolding handshake_logged_def
    proof (intro allI impI)
      fix i p assume p: "peer_of (set_peer ?i ?q eg) i = Some p \<and> p_authenticated p"
      have old: "handshake_logged eg log" using assms by (simp add: run_ok_def)
      show "p_challenge p \<noteq> [] \<and> (\<exists>t env pr. (t, env, HelloAck (p_challenge p)) \<in> set log \<and> p_presence p = Some pr \<and>
          h_from (header_of env) = i \<and> h_from_session (header_of env) = pr_session pr)"
      proof (cases "i = ?i")
        case True
        then have q: "p = ?q" using p by simp
        note kept = note_presence_fields(2)[of lib random pr ?p, folded q, OF p[THEN conjunct2]]
        then obtain r where "peer_of eg ?i = Some r" "?p = r"
          by (auto simp: default_peer_def split: option.splits)
        then show ?thesis
          using old kept note_presence_fields(1)[of lib random pr ?p, folded q] True
          unfolding handshake_logged_def by fastforce
      qed (use p old in \<open>auto simp: handshake_logged_def\<close>)
    qed
    ultimately show ?thesis
      using assms by (auto simp: run_ok_def windows_ok_def remembered_def)
  qed
  moreover have "eg_identity eg = keys" using assms by (simp add: run_ok_def peers_ok_def)
  ultimately show ?thesis
    using assms by (auto simp: discover_peer_def Let_def split: sum.split)
qed

lemma run_frame:
  assumes "run_ok lib keys eg now log" "eg_peers eg' = eg_peers eg" "eg_trusted eg' = eg_trusted eg"
    "eg_identity eg' = eg_identity eg" "eg_seen eg' = eg_seen eg" "windows_ok eg'"
  shows "run_ok lib keys eg' now log"
proof -
  have "peer_of eg' = peer_of eg" using assms(2) by (simp add: peer_of_def fun_eq_iff)
  then show ?thesis
    using assms peers_ok_frame[of lib keys eg eg'] remembered_frame[of eg now log eg']
      handshake_frame[of eg log eg' log]
    by (simp add: run_ok_def)
qed

lemma run_send:
  assumes "run_ok lib keys eg now log"
  shows "run_ok lib keys (snd (send_message lib e i message now eg)) now log"
proof -
  have ping: "run_ok lib keys (snd (note_ping i n now eg)) now log" for n
    by (rule run_frame[OF assms])
       (use assms in \<open>auto simp: note_ping_def Let_def run_ok_def windows_ok_def length_update distinct_update distinct_filter
          intro: le_trans[OF length_filter_le]\<close>)
  show ?thesis
  proof (cases message)
    case (Ping n)
    then show ?thesis using assms ping[of n] by (auto simp: send_message_def split: prod.split sum.split)
  qed (use assms in \<open>auto simp: send_message_def\<close>)
qed

lemma admitted_peer:
  assumes "admitted lib env now eg message pr"
  shows "\<exists>p. peer_of eg (h_from (header_of env)) = Some p \<and> p_presence p = Some pr \<and>
    pr_device pr = h_from (header_of env) \<and> h_from_session (header_of env) = pr_session pr"
proof -
  have "presence_in eg (h_from (header_of env)) = Some pr" "check_header lib (eg_identity eg) (eg_session eg) pr env now = Inr ()"
    using assms by (auto simp: admitted_def open_envelope_def and_then_Inr_iff)
  moreover from this(2) have "pr_device pr = h_from (header_of env)" "h_from_session (header_of env) = pr_session pr"
    by (simp_all add: check_header_def Let_def and_then_Inr_iff)
  ultimately show ?thesis by (auto simp: presence_in_def bind_eq_Some_conv)
qed

lemma run_admitted:
  assumes "run_ok lib keys eg now log" "admitted lib env now eg message pr"
  shows "run_ok lib keys (note_seen (header_of env) (forget_expired now eg)) now ((now, env, message) # log)"
proof -
  let ?eg = "note_seen (header_of env) (forget_expired now eg)"
  have "peers_ok lib keys ?eg"
    by (rule peers_ok_frame[of lib keys eg]) (use assms in \<open>simp_all add: run_ok_def note_seen_def forget_expired_def\<close>)
  moreover have "windows_ok ?eg"
    using assms by (intro windows_note windows_forget) (auto simp: run_ok_def admitted_def)
  moreover have "remembered ?eg now log"
    using assms by (intro remembered_note remembered_forget) (auto simp: run_ok_def admitted_def)
  moreover have "map_of (eg_seen ?eg) (h_id (header_of env)) = Some (h_expires (header_of env))"
    by (simp add: note_seen_def update_conv')
  moreover have "handshake_logged ?eg ((now, env, message) # log)"
    by (rule handshake_frame[of eg log]) (use assms(1) in \<open>auto simp: run_ok_def\<close>)
  ultimately show ?thesis by (simp add: run_ok_def remembered_def)
qed

lemma run_forget: "run_ok lib keys eg now log \<Longrightarrow> run_ok lib keys (forget_expired now eg) now log"
proof -
  assume ok: "run_ok lib keys eg now log"
  moreover have "peers_ok lib keys (forget_expired now eg)"
    by (rule peers_ok_frame[of lib keys eg]) (use ok in \<open>simp_all add: run_ok_def forget_expired_def\<close>)
  moreover have "handshake_logged (forget_expired now eg) log"
    by (rule handshake_frame[of eg log]) (use ok in \<open>auto simp: run_ok_def\<close>)
  ultimately show ?thesis by (simp add: run_ok_def windows_forget remembered_forget)
qed

lemma note_seen_simps [simp]:
  "eg_trusted (note_seen h eg) = eg_trusted eg" "eg_identity (note_seen h eg) = eg_identity eg"
  "eg_peers (note_seen h eg) = eg_peers eg" "eg_pings (note_seen h eg) = eg_pings eg" "eg_session (note_seen h eg) = eg_session eg"
  "eg_trusted (forget_expired now eg) = eg_trusted eg" "eg_identity (forget_expired now eg) = eg_identity eg"
  "eg_peers (forget_expired now eg) = eg_peers eg" "eg_session (forget_expired now eg) = eg_session eg"
  by (simp_all add: note_seen_def forget_expired_def)

lemma note_seen_commutes:
  "note_seen h (set_peer i p eg) = set_peer i p (note_seen h eg)"
  "note_seen h (eg\<lparr>eg_pings := ps\<rparr>) = (note_seen h eg)\<lparr>eg_pings := ps\<rparr>"
  by (simp_all add: note_seen_def set_peer_def)

lemma run_acknowledged:
  assumes ok: "run_ok lib keys eg now log" and new: "(now, env, HelloAck (p_challenge p)) \<in> set log"
    and p: "peer_of eg i = Some p" "p_challenge p \<noteq> []" "p_presence p = Some pr"
    and env: "h_from (header_of env) = i" "h_from_session (header_of env) = pr_session pr"
  shows "run_ok lib keys (set_peer i (p\<lparr>p_authenticated := True\<rparr>) eg) now log"
proof -
  have "i \<in> eg_trusted eg \<and> i \<noteq> id_of lib keys \<and> pr_device pr = i"
    using ok p(1,3) unfolding run_ok_def peers_ok_def by (metis option.inject)
  then have "peers_ok lib keys (set_peer i (p\<lparr>p_authenticated := True\<rparr>) eg)"
    using ok p by (intro peers_ok_set[where pr = pr]) (simp_all add: run_ok_def)
  moreover have "handshake_logged (set_peer i (p\<lparr>p_authenticated := True\<rparr>) eg) log"
    using ok new p env unfolding run_ok_def handshake_logged_def peer_set by auto
  moreover have "remembered (set_peer i (p\<lparr>p_authenticated := True\<rparr>) eg) now log"
    by (rule remembered_frame[of eg]) (use ok in \<open>simp_all add: run_ok_def\<close>)
  ultimately show ?thesis using ok by (simp add: run_ok_def windows_ok_def)
qed

lemma run_receive:
  assumes ok: "run_ok lib keys eg now log" and run: "receive lib e env now eg = (Inr (message, out), eg')"
  shows "run_ok lib keys eg' now ((now, env, message) # log)"
proof -
  let ?h = "header_of env"
  let ?noted = "note_seen ?h (forget_expired now eg)"
  obtain pr r eg2 where adm: "admitted lib env now eg message pr"
      and answer: "answer_message lib (h_from ?h) message now (forget_expired now eg) = (Inr r, eg2)"
      and eg': "eg' = note_seen ?h eg2"
    using receive_accepted[OF run] by blast
  have noted: "run_ok lib keys ?noted now ((now, env, message) # log)" by (rule run_admitted[OF ok adm])
  show ?thesis
  proof (cases r)
    case (Some m)
    then show ?thesis using answer noted eg' by (auto dest: answer_replies)
  next
    case None
    obtain p where p: "peer_of eg (h_from ?h) = Some p" "p_presence p = Some pr"
        "h_from_session ?h = pr_session pr"
      using admitted_peer[OF adm] by blast
    consider "acknowledged (h_from ?h) message (forget_expired now eg) eg2" | "eg2 = forget_expired now eg"
      | n where "eg2 = (forget_expired now eg)\<lparr>eg_pings := AList.delete n (eg_pings (forget_expired now eg))\<rparr>"
      using answer_silent answer None by blast
    then show ?thesis
    proof cases
      case 1
      then have m: "message = HelloAck (p_challenge p)" "p_challenge p \<noteq> []"
          "eg' = set_peer (h_from ?h) (p\<lparr>p_authenticated := True\<rparr>) ?noted"
        using p(1) by (auto simp: acknowledged_def eg' note_seen_commutes)
      show ?thesis unfolding m(3)
        by (rule run_acknowledged[OF noted]) (use m p in simp_all)
    next
      case 2
      then show ?thesis using noted eg' by simp
    next
      case 3
      have "windows_ok (?noted\<lparr>eg_pings := AList.delete n (eg_pings ?noted)\<rparr>)"
        using noted by (intro windows_pong) (simp add: run_ok_def)
      then show ?thesis
        unfolding eg' 3 note_seen_commutes by (intro run_frame[OF noted]) (simp_all add: note_seen_simps)
    qed
  qed
qed

lemma run_reject:
  assumes "run_ok lib keys eg now log" "receive lib e env now eg = (Inl err, eg')"
  shows "run_ok lib keys eg' now log"
  using receive_rejected[OF assms(2)]
proof (elim disjE exE conjE)
  fix message pr
  assume adm: "admitted lib env now eg message pr" and eg': "eg' = note_seen (header_of env) (forget_expired now eg)"
  have "remembered eg' now log"
    unfolding eg' using assms(1) adm by (intro remembered_note remembered_forget) (auto simp: run_ok_def admitted_def)
  moreover have "handshake_logged eg' log"
    by (rule handshake_frame[of eg log]) (use assms(1) eg' in \<open>auto simp: run_ok_def\<close>)
  ultimately show ?thesis
    using run_admitted[OF assms(1) adm] by (simp add: run_ok_def eg')
qed (use assms(1) run_forget in auto)

lemma runs_ok: "runs lib keys eg now log \<Longrightarrow> run_ok lib keys eg now log"
proof (induction rule: runs.induct)
  case (runs_roots eg now log n)
  show ?case by (rule run_frame[OF runs_roots.IH]) (use runs_roots.IH in \<open>simp_all add: run_ok_def windows_ok_def\<close>)
qed (rule run_new run_wait run_trust run_discover run_send run_receive run_reject; assumption)+

section \<open>Properties\<close>

lemma opened_is_signed:
  assumes "open_envelope lib keys session pr env now = Inr message" "verify_presence lib pr now = Inr ()"
  shows "\<exists>key text s. bytes32 lib (pr_signing pr) = Inr key \<and> hex_encode lib (sha256 lib key) = pr_device pr \<and>
    hex_decode lib text = Some s \<and> ed_verify lib key (message_bytes lib (header_of env) message) s"
  using assms
  by (auto simp: open_envelope_def verify_presence_def verify_signature_def and_then_Inr_iff split: option.splits if_splits)

text \<open>What an acceptance promises: the sender is trusted and signed exactly this message under a key
  with its fingerprint; it is meant for this device, in the running sessions of both, and in time.\<close>

definition authentic :: "peer_lib \<Rightarrow> device_keys \<Rightarrow> engine \<Rightarrow> int \<Rightarrow> envelope \<Rightarrow> message \<Rightarrow> bool" where
  "authentic lib keys eg now env message =
     (let h = header_of env in
      h_from h \<in> eg_trusted eg \<and> h_from h \<noteq> id_of lib keys \<and> h_to h = id_of lib keys \<and> h_to_session h = eg_session eg \<and>
      h_issued h \<le> now + 30 \<and> now < h_expires h \<and> h_expires h = h_issued h + 120 \<and>
      (\<exists>pr key text s. presence_in eg (h_from h) = Some pr \<and> pr_session pr = h_from_session h \<and>
         bytes32 lib (pr_signing pr) = Inr key \<and> hex_encode lib (sha256 lib key) = h_from h \<and>
         hex_decode lib text = Some s \<and> ed_verify lib key (message_bytes lib h message) s))"

text \<open>The peer has answered the challenge drawn for its present session.\<close>

definition handshake_done :: "engine \<Rightarrow> acceptance list \<Rightarrow> string \<Rightarrow> bool" where
  "handshake_done eg log i =
     (\<exists>p pr t env. peer_of eg i = Some p \<and> p_presence p = Some pr \<and> p_challenge p \<noteq> [] \<and>
        (t, env, HelloAck (p_challenge p)) \<in> set log \<and> h_from (header_of env) = i \<and>
        h_from_session (header_of env) = pr_session pr)"

lemma authenticated_handshake:
  "handshake_logged eg log \<Longrightarrow> authenticated lib eg i now \<Longrightarrow> handshake_done eg log i"
  unfolding handshake_logged_def handshake_done_def authenticated_def
  by (fastforce split: option.splits)

lemma admitted_checked:
  assumes "admitted lib env now eg message pr"
  shows "check_header lib (eg_identity eg) (eg_session eg) pr env now = Inr ()"
  using assms by (auto simp: admitted_def open_envelope_def and_then_Inr_iff)

end
