(* ===== verification/PeerHandshake.thy ===== *)
theory PeerHandshake
  imports PeerProtocol
begin

text \<open>
  What the control protocol of crates/twodrive-peer/src/{crypto,protocol}.rs gives: sealed messages
  open at their recipient, the handshake of two devices completes, accepted messages are authentic
  and accepted once.
\<close>

section \<open>Sealed messages\<close>

definition fits :: "envelope \<Rightarrow> bool" where
  "fits env = (byte_len (ciphertext env) \<le> MAX_CONTROL_BYTES)"

lemma opens_in_time:
  assumes "codecs_ok lib" "primitives_ok lib" "length (en_nonce e) = 24" "valid_id (nonce lib (en_id e))"
    and "seal lib e a sa (presence_of lib b sb t) message now = Inr env"
    and "byte_len (ciphertext env) \<le> MAX_CONTROL_BYTES" "now - 30 \<le> later_now" "later_now < now + 120"
  shows "open_envelope lib b sb (presence_of lib a sa t') env later_now = Inr message"
proof -
  have h: "header_of env = envelope_header_of lib e a sa (presence_of lib b sb t) now"
    using seal_header[OF assms(5)] .
  have "check_header lib b sb (presence_of lib a sa t') env later_now = Inr ()"
    using assms(4,6,7,8) by (simp add: check_header_def Let_def h require_def and_then_def checked_sub_def)
  moreover have "decrypt lib b env = Inr \<lparr>sg_message = message, sg_signature = sign lib a (message_bytes lib (header_of env) message)\<rparr>"
    using decrypt_sealed[OF assms(1,2,3,5)] by simp
  ultimately show ?thesis
    by (simp add: open_envelope_def and_then_def own_signature[OF assms(1,2)])
qed

text \<open>A message sealed for a device opens there, unchanged, for as long as its header says: whoever
  holds the keys the sender saw in the presence of the receiver, in the same session, and knows
  the sender by its presence, reads the message the sender gave, until it expires.\<close>

lemma sealed_message_opens:
  assumes "codecs_ok lib" "primitives_ok lib" "sealing_total lib"
    and "length (en_nonce e) = 24" "valid_id (nonce lib (en_id e))"
    and "verify_presence lib (presence_of lib b sb t) now = Inr ()"
  shows "\<exists>env. seal lib e a sa (presence_of lib b sb t) message now = Inr env \<and>
    (fits env \<longrightarrow> (\<forall>at t'. now - 30 \<le> at \<and> at < now + 120 \<longrightarrow>
       open_envelope lib b sb (presence_of lib a sa t') env at = Inr message))"
proof -
  obtain env where "seal lib e a sa (presence_of lib b sb t) message now = Inr env"
    using seal_succeeds[OF assms(1-3,6)] by blast
  then show ?thesis using opens_in_time[OF assms(1,2,4,5)] unfolding fits_def by blast
qed

section \<open>Two sample devices\<close>

lemma sample_total: "sealing_total sample_lib"
  by (simp add: sealing_total_def sample_lib_def)

lemma sample_describable: "describable sample_lib"
proof -
  have "byte_len (package_version sample_lib) < 40" by code_simp
  moreover have "parse_version sample_lib (package_version sample_lib) \<noteq> None"
    "platform sample_lib \<in> {''windows-x86_64'', ''linux-x86_64'', ''unsupported''}"
    by (simp_all add: sample_lib_def)
  ultimately show ?thesis unfolding describable_def by blast
qed

lemma sample_presence: "verify_presence sample_lib (presence_of sample_lib keys (session_of c) 1000) 1000 = Inr ()"
  by (rule presence_verifies) (simp_all add: codecs_sample primitives_sample sample_describable valid_id_sample valid_nonce_sample)

lemma sample_lengths:
  "length (id_of sample_lib keys) = 64" "length (session_of c) = 64"
  by (simp_all add: id_of_def nonce_def sample_lib_def length_to_hex bytes_of_def)

lemma sample_vec:
  "to_vec (header_codec sample_lib) h = put_fields (header_texts h)"
  "to_vec (message_codec sample_lib) m = put_fields (message_texts m)"
  "to_vec (signed_codec sample_lib) s = put_fields (message_texts (sg_message s) @ [sg_signature s])"
  "hex_encode sample_lib = to_hex" "ed_sign sample_lib k data = pad32 k @ data" "x_public sample_lib = pad32"
  "x_shared sample_lib a p = Some (mix (pad32 a) (pad32 p))" "hkdf sample_lib salt secret info = Some secret"
  "aead_encrypt sample_lib k n a msg = Some msg"
  by (simp_all add: sample_lib_def sample_codec_def)

lemma sample_times: "length (int_text 1000) = 4" "length (int_text 1120) = 4" "length (word_text (1 :: 8 word)) = 1"
  by code_simp+

lemma sample_fits:
  assumes "seal sample_lib (entropy_of c) keys (session_of d) (presence_of sample_lib keys' (session_of d') 1000) m 1000 = Inr env"
    and "sum_list (map length (message_texts m)) \<le> 65"
  shows "fits env"
proof -
  let ?h = "envelope_header_of sample_lib (entropy_of c) keys (session_of d) (presence_of sample_lib keys' (session_of d') 1000) 1000"
  have h: "length (put_fields (header_texts ?h)) = 892"
    by (simp add: length_put_fields header_texts_def sample_lengths sample_times sample_vec length_to_hex entropy_of_def)
  have m: "length (put_fields (message_texts m)) \<le> 134"
    using assms(2) by (cases m) (simp_all add: length_put_fields)
  have "ciphertext env = to_hex (put_fields (message_texts m @ [sign sample_lib keys (message_bytes sample_lib ?h m)]))"
    using assms(1) by (auto simp: seal_def and_then_Inr_iff Let_def sample_vec split: option.splits)
  moreover have "length (sign sample_lib keys (message_bytes sample_lib ?h m)) = 2 * (32 + (20 + 892 + length (put_fields (message_texts m))))"
    by (simp add: sign_def sample_vec length_to_hex message_bytes_def aad_def h)
  ultimately show ?thesis
    using m by (simp add: fits_def byte_len_lower[OF to_hex_lower] length_to_hex put_fields_append length_put_fields MAX_CONTROL_BYTES_def)
qed

lemma sealed_message_opens_witness:
  "\<exists>env. seal sample_lib (entropy_of CHR ''1'') keys_a (session_of CHR ''2'')
      (presence_of sample_lib keys_b (session_of CHR ''3'') 1000) StatusRequest 1000 = Inr env \<and>
    open_envelope sample_lib keys_b (session_of CHR ''3'') (presence_of sample_lib keys_a (session_of CHR ''2'') 1000) env 1119 =
      Inr StatusRequest"
proof -
  have e: "length (en_nonce (entropy_of CHR ''1'')) = 24" by (simp add: entropy_of_def)
  have n: "valid_id (nonce sample_lib (en_id (entropy_of CHR ''1'')))" by (simp add: entropy_of_def valid_nonce_sample)
  obtain env where env: "seal sample_lib (entropy_of CHR ''1'') keys_a (session_of CHR ''2'')
      (presence_of sample_lib keys_b (session_of CHR ''3'') 1000) StatusRequest 1000 = Inr env"
    and opens: "fits env \<longrightarrow> (\<forall>at t'. 1000 - 30 \<le> at \<and> at < 1000 + 120 \<longrightarrow> open_envelope sample_lib keys_b (session_of CHR ''3'')
      (presence_of sample_lib keys_a (session_of CHR ''2'') t') env at = Inr StatusRequest)"
    using sealed_message_opens[OF codecs_sample primitives_sample sample_total e n sample_presence] by blast
  have "fits env" by (rule sample_fits[OF env]) simp
  then show ?thesis using env opens by auto
qed

section \<open>The handshake\<close>

lemma absent_in_filter: "map_of xs k = None \<Longrightarrow> map_of (filter P xs) k = None"
  by (induction xs) (auto split: if_splits)

lemma receive_opens:
  assumes "presence_in eg (h_from (header_of env)) = Some pr" "verify_presence lib pr now = Inr ()"
    and "open_envelope lib (eg_identity eg) (eg_session eg) pr env now = Inr message"
    and "map_of (eg_seen eg) (h_id (header_of env)) = None" "length (eg_seen eg) < 2048"
    and "answer_message lib (h_from (header_of env)) message now (forget_expired now eg) = (Inr r, eg2)"
  shows "receive lib e env now eg =
    (case r of
       None \<Rightarrow> (Inr (message, None), note_seen (header_of env) eg2)
     | Some m \<Rightarrow>
         (case wrap lib e (note_seen (header_of env) eg2) (h_from (header_of env)) m now of
            Inl err \<Rightarrow> (Inl err, note_seen (header_of env) eg2)
          | Inr out \<Rightarrow> (Inr (message, Some out), note_seen (header_of env) eg2)))"
proof -
  have "map_of (eg_seen (forget_expired now eg)) (h_id (header_of env)) = None"
    using assms(4) by (simp add: forget_expired_def absent_in_filter)
  moreover have "length (eg_seen (forget_expired now eg)) < 2048"
    using assms(5) by (auto simp: forget_expired_def intro: le_less_trans[OF length_filter_le])
  ultimately show ?thesis
    using assms(1,2,3,6) by (simp add: receive_def Let_def and_then_def)
qed

text \<open>The engine of one device knows the presence another published at some time.\<close>

definition knows :: "peer_lib \<Rightarrow> engine \<Rightarrow> device_keys \<Rightarrow> string \<Rightarrow> int \<Rightarrow> bool" where
  "knows lib eg keys session now =
     (\<exists>t. presence_in eg (id_of lib keys) = Some (presence_of lib keys session t) \<and>
        verify_presence lib (presence_of lib keys session t) now = Inr ())"

definition good_entropy :: "peer_lib \<Rightarrow> engine \<Rightarrow> entropy \<Rightarrow> bool" where
  "good_entropy lib eg e =
     (length (en_nonce e) = 24 \<and> valid_id (nonce lib (en_id e)) \<and> map_of (eg_seen eg) (nonce lib (en_id e)) = None \<and>
      length (eg_seen eg) < 2048)"

lemma wrapped_opens:
  assumes laws: "codecs_ok lib" "primitives_ok lib"
    and a: "eg_identity A = ka" "knows lib A kb (eg_session B) now"
    and b: "eg_identity B = kb" "knows lib B ka (eg_session A) now"
    and sent: "wrap lib e A (id_of lib kb) message now = Inr env" "fits env"
    and e: "length (en_nonce e) = 24" "valid_id (nonce lib (en_id e))"
  shows "h_from (header_of env) = id_of lib ka \<and> h_id (header_of env) = nonce lib (en_id e) \<and>
    (\<exists>pr. presence_in B (id_of lib ka) = Some pr \<and> verify_presence lib pr now = Inr () \<and>
       open_envelope lib (eg_identity B) (eg_session B) pr env now = Inr message)"
proof -
  obtain t where t: "presence_in A (id_of lib kb) = Some (presence_of lib kb (eg_session B) t)"
    using a(2) by (auto simp: knows_def)
  obtain t' where t': "presence_in B (id_of lib ka) = Some (presence_of lib ka (eg_session A) t')"
      "verify_presence lib (presence_of lib ka (eg_session A) t') now = Inr ()"
    using b(2) by (auto simp: knows_def)
  have seal: "seal lib e ka (eg_session A) (presence_of lib kb (eg_session B) t) message now = Inr env"
    using sent(1) t a(1) by (simp add: wrap_def)
  have "open_envelope lib kb (eg_session B) (presence_of lib ka (eg_session A) t') env now = Inr message"
    by (rule opens_in_time[OF laws e seal]) (use sent(2) in \<open>simp_all add: fits_def\<close>)
  then show ?thesis using t' b(1) seal_header[OF seal] by simp
qed

lemma wrap_succeeds:
  assumes "codecs_ok lib" "primitives_ok lib" "sealing_total lib" "knows lib eg keys session now"
  shows "\<exists>env. wrap lib e eg (id_of lib keys) message now = Inr env"
  using assms(4) seal_succeeds[OF assms(1-3)] by (auto simp: knows_def wrap_def)

lemma wrap_frame [simp]:
  "wrap lib e (note_seen h eg) i message now = wrap lib e eg i message now"
  "wrap lib e (forget_expired n eg) i message now = wrap lib e eg i message now"
  by (simp_all add: wrap_def presence_in_def split: option.split)

lemma knows_frame [simp]:
  "knows lib (note_seen h eg) keys session now = knows lib eg keys session now"
  "knows lib (forget_expired n eg) keys session now = knows lib eg keys session now"
  by (simp_all add: knows_def presence_in_def)

text \<open>C16: The handshake completes.  Two devices that know each other's presence authenticate with one
  hello and its answer: the receiver accepts the hello and answers with the challenge, and the
  answer makes the receiver an authenticated peer of the sender.\<close>

theorem handshake_completes:
  assumes laws: "codecs_ok lib" "primitives_ok lib" "sealing_total lib"
    and a: "eg_identity A = ka" "knows lib A kb (eg_session B) now"
    and b: "eg_identity B = kb" "knows lib B ka (eg_session A) now"
    and p: "peer_of A (id_of lib kb) = Some p" "valid_id (p_challenge p)"
    and hello: "hello lib e_hello A (id_of lib kb) now = Inr env" "fits env" "good_entropy lib B e_hello"
    and answer: "\<And>ack. wrap lib e_ack B (id_of lib ka) (HelloAck (p_challenge p)) now = Inr ack \<Longrightarrow> fits ack" "good_entropy lib A e_ack"
  shows "\<exists>ack A' B'. receive lib e_ack env now B = (Inr (Hello (p_challenge p), Some ack), B') \<and>
    receive lib e_last ack now A = (Inr (HelloAck (p_challenge p), None), A') \<and> authenticated lib A' (id_of lib kb) now"
proof -
  let ?c = "p_challenge p"
  have wrapped: "wrap lib e_hello A (id_of lib kb) (Hello ?c) now = Inr env" using hello(1) p(1) by (simp add: hello_def)
  obtain pr where env: "h_from (header_of env) = id_of lib ka" "h_id (header_of env) = nonce lib (en_id e_hello)"
      "presence_in B (id_of lib ka) = Some pr" "verify_presence lib pr now = Inr ()"
      "open_envelope lib (eg_identity B) (eg_session B) pr env now = Inr (Hello ?c)"
    using wrapped_opens[OF laws(1,2) a b wrapped hello(2)] hello(3) unfolding good_entropy_def by blast
  have acked: "answer_message lib (h_from (header_of env)) (Hello ?c) now (forget_expired now B) =
      (Inr (Some (HelloAck ?c)), forget_expired now B)"
    using p(2) by (simp add: answer_message_def)
  let ?B = "note_seen (header_of env) (forget_expired now B)"
  obtain ack where ack: "wrap lib e_ack B (id_of lib ka) (HelloAck ?c) now = Inr ack"
    using wrap_succeeds[OF laws b(2)] by blast
  have r: "receive lib e_ack env now B = (Inr (Hello ?c, Some ack), ?B)"
    using receive_opens[where eg = B and env = env and e = e_ack, OF _ env(4,5) _ _ acked] env(1,2,3) hello(3) ack
    by (auto simp: good_entropy_def)
  have "fits ack" by (rule answer(1)[OF ack])
  obtain pr' where reply: "h_from (header_of ack) = id_of lib kb" "h_id (header_of ack) = nonce lib (en_id e_ack)"
      "presence_in A (id_of lib kb) = Some pr'" "verify_presence lib pr' now = Inr ()"
      "open_envelope lib (eg_identity A) (eg_session A) pr' ack now = Inr (HelloAck ?c)"
    using wrapped_opens[of lib B kb ka A now e_ack "HelloAck ?c" ack, OF laws(1,2) b a ack \<open>fits ack\<close>] answer(2)
    unfolding good_entropy_def by auto
  let ?A = "set_peer (id_of lib kb) (p\<lparr>p_authenticated := True\<rparr>) (forget_expired now A)"
  have "?c \<noteq> []" using p(2) by (auto simp: valid_id_def byte_len_def utf8_def)
  then have answer': "answer_message lib (h_from (header_of ack)) (HelloAck ?c) now (forget_expired now A) = (Inr None, ?A)"
    using p(1) reply(1) by (simp add: answer_message_def)
  have "receive lib e_last ack now A = (Inr (HelloAck ?c, None), note_seen (header_of ack) ?A)"
    using receive_opens[where eg = A and env = ack and e = e_last, OF _ reply(4,5) _ _ answer'] reply(1,2,3) answer(2)
    by (auto simp: good_entropy_def)
  moreover have "authenticated lib (note_seen (header_of ack) ?A) (id_of lib kb) now"
    using p(1) reply(3,4) by (simp add: authenticated_def presence_in_def)
  ultimately show ?thesis using r by blast
qed

section \<open>What is accepted\<close>

text \<open>C6: An envelope is accepted only from a device that is trusted now, whose key with that
  fingerprint signed exactly this message for this device and these sessions, and only while it
  is valid; and a message that asks for something is accepted only from a peer that has sent
  reply, in its present session, the challenge this device drew for it.\<close>

theorem accepted_message_is_authentic:
  assumes "runs lib keys eg now log" "receive lib e env now eg = (Inr (message, out), eg')"
  shows "authentic lib keys eg now env message \<and>
    (is_handshake message \<or> handshake_done eg log (h_from (header_of env)))"
proof -
  have ok: "run_ok lib keys eg now log" by (rule runs_ok[OF assms(1)])
  then have keys: "eg_identity eg = keys" by (simp add: run_ok_def peers_ok_def)
  obtain pr r eg2 where adm: "admitted lib env now eg message pr"
      and answer: "answer_message lib (h_from (header_of env)) message now (forget_expired now eg) = (Inr r, eg2)"
    using receive_accepted[OF assms(2)] by blast
  obtain p where p: "peer_of eg (h_from (header_of env)) = Some p" "p_presence p = Some pr"
      "pr_device pr = h_from (header_of env)" "h_from_session (header_of env) = pr_session pr"
    using admitted_peer[OF adm] by blast
  have signed: "open_envelope lib keys (eg_session eg) pr env now = Inr message" "verify_presence lib pr now = Inr ()"
    using adm keys by (simp_all add: admitted_def)
  have "h_from (header_of env) \<in> eg_trusted eg \<and> h_from (header_of env) \<noteq> id_of lib keys"
    using ok p(1) by (auto simp: run_ok_def peers_ok_def)
  moreover have "h_to (header_of env) = id_of lib keys \<and> h_to_session (header_of env) = eg_session eg \<and>
      h_issued (header_of env) \<le> now + 30 \<and> now < h_expires (header_of env) \<and>
      h_expires (header_of env) = h_issued (header_of env) + 120"
    using admitted_checked[OF adm] keys
    by (auto simp: check_header_def Let_def and_then_Inr_iff checked_sub_def split: if_splits)
  moreover have "presence_in eg (h_from (header_of env)) = Some pr" using adm by (simp add: admitted_def)
  ultimately have "authentic lib keys eg now env message"
    using opened_is_signed[OF signed] p(3,4) unfolding authentic_def Let_def by metis
  moreover have "is_handshake message \<or> handshake_done eg log (h_from (header_of env))"
    using answer_needs_handshake[OF answer] authenticated_handshake[of eg log lib _ now] ok
    by (auto simp: run_ok_def authenticated_def)
  ultimately show ?thesis ..
qed


text \<open>An envelope that was answered is refused when it is delivered again: a worker that could not
  store the answer rejects the message on its next poll.\<close>

lemma second_delivery_is_refused:
  assumes "receive lib e env now eg = (Inr (message, Some out), eg')"
  shows "fst (receive lib e' env now eg') = Inl ''replayed control message''"
proof -
  obtain pr r eg2 where adm: "admitted lib env now eg message pr"
      and answer: "answer_message lib (h_from (header_of env)) message now (forget_expired now eg) = (Inr r, eg2)"
      and eg': "eg' = note_seen (header_of env) eg2"
    using receive_accepted[OF assms] by blast
  have "r \<noteq> None"
    using assms adm answer by (auto simp: receive_def admitted_def Let_def and_then_def split: option.splits if_splits)
  then have eg2: "eg2 = forget_expired now eg" using answer answer_replies by blast
  have fresh: "now < h_expires (header_of env)" using admitted_fresh[OF adm] by blast
  have seen: "map_of (eg_seen (forget_expired now eg')) (h_id (header_of env)) \<noteq> None"
    using kept_by_filter[of "eg_seen eg'" "h_id (header_of env)" "h_expires (header_of env)" "\<lambda>v. now < v"] fresh eg'
    by (simp add: forget_expired_def note_seen_def update_conv')
  have "presence_in eg' (h_from (header_of env)) = Some pr" "eg_identity eg' = eg_identity eg" "eg_session eg' = eg_session eg"
    using adm eg' eg2 by (simp_all add: admitted_def presence_in_def note_seen_def forget_expired_def peer_of_def)
  then show ?thesis using adm seen by (auto simp: receive_def admitted_def Let_def and_then_def)
qed

section \<open>A run of the sample devices\<close>

text \<open>Each device trusts the other and has discovered its presence.\<close>

abbreviation presence_a :: presence where
  "presence_a \<equiv> presence_of sample_lib keys_a (session_of CHR ''1'') 1000"

abbreviation presence_b :: presence where
  "presence_b \<equiv> presence_of sample_lib keys_b (session_of CHR ''2'') 1000"

definition sample_engine :: "device_keys \<Rightarrow> char \<Rightarrow> presence \<Rightarrow> engine" where
  "sample_engine keys c pr =
     snd (discover_peer sample_lib (bytes_of CHR ''3'') pr 1000 (new_engine sample_lib (bytes_of c) keys {pr_device pr}))"

abbreviation engine_a :: engine where
  "engine_a \<equiv> sample_engine keys_a CHR ''1'' presence_b"

abbreviation engine_b :: engine where
  "engine_b \<equiv> sample_engine keys_b CHR ''2'' presence_a"

lemma sample_ids: "id_of sample_lib keys_a \<noteq> id_of sample_lib keys_b"
proof
  assume "id_of sample_lib keys_a = id_of sample_lib keys_b"
  then have "of_hex (id_of sample_lib keys_a) = of_hex (id_of sample_lib keys_b)" by simp
  then show False by (simp add: id_of_def sample_lib_def of_hex_to_hex pad32_exact keys_a_def keys_b_def bytes_of_def numeral_eq_Suc)
qed

lemma sample_engines:
  "engine_a = (new_engine sample_lib (bytes_of CHR ''1'') keys_a {id_of sample_lib keys_b})\<lparr>eg_peers :=
     [(id_of sample_lib keys_b, \<lparr>p_presence = Some presence_b, p_challenge = session_of CHR ''3'', p_authenticated = False\<rparr>)]\<rparr>"
  "engine_b = (new_engine sample_lib (bytes_of CHR ''2'') keys_b {id_of sample_lib keys_a})\<lparr>eg_peers :=
     [(id_of sample_lib keys_a, \<lparr>p_presence = Some presence_a, p_challenge = session_of CHR ''3'', p_authenticated = False\<rparr>)]\<rparr>"
  using sample_ids
  by (simp_all add: sample_engine_def discover_peer_def sample_presence new_engine_def peer_of_def set_peer_def
      note_presence_def default_peer_def Let_def)

lemma sample_runs: "runs sample_lib keys_a engine_a 1000 []" "runs sample_lib keys_b engine_b 1000 []"
  unfolding sample_engine_def by (intro runs_discover runs_new)+

lemma sample_knows:
  "knows sample_lib engine_a keys_b (eg_session engine_b) 1000" "knows sample_lib engine_b keys_a (eg_session engine_a) 1000"
  by (auto simp: knows_def sample_engines presence_in_def peer_of_def new_engine_def sample_presence)

lemma sample_entropy: "eg_seen eg = [] \<Longrightarrow> good_entropy sample_lib eg (entropy_of c)"
  by (simp add: good_entropy_def entropy_of_def valid_nonce_sample)

lemma sample_wrap_fits:
  "wrap sample_lib (entropy_of c) engine_a (id_of sample_lib keys_b) (Hello (session_of d)) 1000 = Inr env \<Longrightarrow> fits env"
  "wrap sample_lib (entropy_of c) engine_b (id_of sample_lib keys_a) (HelloAck (session_of d)) 1000 = Inr env \<Longrightarrow> fits env"
  by (rule sample_fits[where m = "Hello (session_of d)"] sample_fits[where m = "HelloAck (session_of d)"];
      simp add: wrap_def sample_engines presence_in_def peer_of_def new_engine_def sample_lengths)+

lemma sample_hello:
  "\<exists>env. hello sample_lib (entropy_of CHR ''4'') engine_a (id_of sample_lib keys_b) 1000 = Inr env \<and> fits env"
proof -
  obtain env where env: "wrap sample_lib (entropy_of CHR ''4'') engine_a (id_of sample_lib keys_b) (Hello (session_of CHR ''3'')) 1000 = Inr env"
    using wrap_succeeds[OF codecs_sample primitives_sample sample_total sample_knows(1)] by blast
  then show ?thesis using sample_wrap_fits(1)[OF env] by (simp add: hello_def sample_engines peer_of_def)
qed

lemma sample_facts:
  "eg_identity engine_a = keys_a" "eg_identity engine_b = keys_b" "eg_seen engine_a = []" "eg_seen engine_b = []"
  by (simp_all add: sample_engines new_engine_def)

text \<open>The second device receives the hello.\<close>

lemma sample_received:
  "\<exists>env ack B'. receive sample_lib (entropy_of CHR ''5'') env 1000 engine_b = (Inr (Hello (session_of CHR ''3''), Some ack), B')"
proof -
  let ?c = "session_of CHR ''3''"
  obtain env where env: "wrap sample_lib (entropy_of CHR ''4'') engine_a (id_of sample_lib keys_b) (Hello ?c) 1000 = Inr env"
    using wrap_succeeds[OF codecs_sample primitives_sample sample_total sample_knows(1)] by blast
  obtain ack where ack: "wrap sample_lib (entropy_of CHR ''5'') engine_b (id_of sample_lib keys_a) (HelloAck ?c) 1000 = Inr ack"
    using wrap_succeeds[OF codecs_sample primitives_sample sample_total sample_knows(2)] by blast
  have e: "length (en_nonce (entropy_of CHR ''4'')) = 24" "valid_id (nonce sample_lib (en_id (entropy_of CHR ''4'')))"
    by (simp_all add: entropy_of_def valid_nonce_sample)
  obtain pr where h: "h_from (header_of env) = id_of sample_lib keys_a"
      and pr: "presence_in engine_b (id_of sample_lib keys_a) = Some pr" "verify_presence sample_lib pr 1000 = Inr ()"
      "open_envelope sample_lib (eg_identity engine_b) (eg_session engine_b) pr env 1000 = Inr (Hello ?c)"
    using wrapped_opens[OF codecs_sample primitives_sample sample_facts(1) sample_knows(1) sample_facts(2) sample_knows(2) env
        sample_wrap_fits(1)[OF env] e] by blast
  have "answer_message sample_lib (h_from (header_of env)) (Hello ?c) 1000 (forget_expired 1000 engine_b) =
      (Inr (Some (HelloAck ?c)), forget_expired 1000 engine_b)"
    by (simp add: answer_message_def valid_nonce_sample)
  then have "receive sample_lib (entropy_of CHR ''5'') env 1000 engine_b =
      (Inr (Hello ?c, Some ack), note_seen (header_of env) (forget_expired 1000 engine_b))"
    using receive_opens[where eg = engine_b and env = env and e = "entropy_of CHR ''5''", OF _ pr(2,3)] pr(1) h ack
    by (simp add: sample_facts)
  then show ?thesis by blast
qed

lemma accepted_message_is_authentic_witness:
  "\<exists>env. authentic sample_lib keys_b engine_b 1000 env (Hello (session_of CHR ''3''))"
proof -
  obtain env ack B' where "receive sample_lib (entropy_of CHR ''5'') env 1000 engine_b = (Inr (Hello (session_of CHR ''3''), Some ack), B')"
    using sample_received by blast
  from accepted_message_is_authentic[OF sample_runs(2) this] show ?thesis by blast
qed


lemma handshake_completes_witness:
  "\<exists>env ack A' B'. hello sample_lib (entropy_of CHR ''4'') engine_a (id_of sample_lib keys_b) 1000 = Inr env \<and>
     receive sample_lib (entropy_of CHR ''5'') env 1000 engine_b = (Inr (Hello (session_of CHR ''3''), Some ack), B') \<and>
     receive sample_lib (entropy_of CHR ''6'') ack 1000 engine_a = (Inr (HelloAck (session_of CHR ''3''), None), A') \<and>
     authenticated sample_lib A' (id_of sample_lib keys_b) 1000"
proof -
  note eg = sample_facts(1,2) sample_entropy[OF sample_facts(3)] sample_entropy[OF sample_facts(4)]
  define p where "p = \<lparr>p_presence = Some presence_b, p_challenge = session_of CHR ''3'', p_authenticated = False\<rparr>"
  have p: "peer_of engine_a (id_of sample_lib keys_b) = Some p" "p_challenge p = session_of CHR ''3''" "valid_id (p_challenge p)"
    by (simp_all add: sample_engines peer_of_def p_def valid_nonce_sample)
  obtain env where env: "hello sample_lib (entropy_of CHR ''4'') engine_a (id_of sample_lib keys_b) 1000 = Inr env" "fits env"
    using sample_hello by blast
  show ?thesis
    using handshake_completes[where e_last = "entropy_of CHR ''6''", OF codecs_sample primitives_sample sample_total eg(1) sample_knows(1) eg(2) sample_knows(2) p(1,3) env
        eg(4) _ eg(3), unfolded p(2)] sample_wrap_fits(2) env(1) by blast
qed

end
