(* ===== verification/PeerRuntime.thy ===== *)
theory PeerRuntime
  imports PeerHandshake
begin

text \<open>
  crates/twodrive-backend/src/control.rs and crates/twodrive-peer/src/runtime.rs: the worker of a
  device.  It reads presences and envelopes from a store of opaque objects, answers them, and sends
  what the user has queued.  The store is a record of functions over a state of its own; every call
  is noted in a log, which no code reads.  Random bytes come from a supply.
\<close>

section \<open>The store\<close>

record control_object =
  co_name :: string
  co_size :: u64

definition MAX_CONTROL_OBJECTS :: nat where
  "MAX_CONTROL_OBJECTS = 512"

record 's control_store =
  cs_list :: "string \<Rightarrow> 's \<Rightarrow> (string + control_object list) \<times> 's"
  cs_get :: "string \<Rightarrow> string \<Rightarrow> 's \<Rightarrow> (string + bytes) \<times> 's"
  cs_put :: "string \<Rightarrow> string \<Rightarrow> bytes \<Rightarrow> 's \<Rightarrow> (string + unit) \<times> 's"
  cs_delete :: "string \<Rightarrow> string \<Rightarrow> 's \<Rightarrow> (string + unit) \<times> 's"

definition validate_component :: "string \<Rightarrow> string + unit" where
  "validate_component value =
     require (value \<noteq> [] \<and> byte_len value \<le> 160 \<and> value \<noteq> ''.'' \<and> value \<noteq> ''..'' \<and>
        List.list_all (\<lambda>c. (97 \<le> (of_char c :: nat) \<and> (of_char c :: nat) \<le> 122) \<or> is_ascii_digit c \<or>
           c = CHR ''-'' \<or> c = CHR ''.'') value)
       ''invalid control object component''"

section \<open>The worker\<close>

record queued_message =
  q_to :: string
  q_message :: message
  q_expires :: int

datatype outbox_entry = NotFile | Unloadable | Queued queued_message

datatype trusted_file = NoTrust | BadTrust | Trusted "string set"

datatype roots_file = NoRoots | BadRoots | Roots "string list"

record counters =
  ct_received :: nat
  ct_pings :: nat
  ct_pongs :: nat
  ct_rejected :: nat

record status =
  ss_version :: string
  ss_device :: string
  ss_updated :: int
  ss_peers :: "(string \<times> bool \<times> bool \<times> int) list"
  ss_counters :: counters

record home =
  hm_trusted :: trusted_file
  hm_roots :: roots_file
  hm_outbox :: "(string \<times> outbox_entry) list"
  hm_updates :: update_disk
  hm_status :: "status option"

datatype store_op =
    DidList string "string + control_object list" | DidGet string string "string + bytes"
  | DidPut string string bytes "string + unit" | DidDelete string string "string + unit"

record 's peer_node =
  nd_engine :: engine
  nd_counters :: counters
  nd_last_publish :: int
  nd_last_hello :: "(string \<times> int) list"
  nd_attempts :: "(string \<times> int) list"
  nd_home :: home
  nd_drawn :: nat
  nd_ops :: "store_op list"
  nd_store :: 's

text \<open>What the worker runs on: the store, the supply of random bytes, the publisher's key and server,
  and whether the files of its directory can be read, removed and written.\<close>

record 's surroundings =
  su_store :: "'s control_store"
  su_random :: "nat \<Rightarrow> entropy"
  su_key :: string
  su_fetch :: "string \<Rightarrow> bytes option"
  su_grants :: grants
  su_outbox_readable :: bool
  su_removable :: "string \<Rightarrow> bool"
  su_status_writable :: bool

type_synonym ('s, 'a) work = "'s peer_node \<Rightarrow> (string + 'a) \<times> 's peer_node"

definition work_bind :: "('s, 'a) work \<Rightarrow> ('a \<Rightarrow> ('s, 'b) work) \<Rightarrow> ('s, 'b) work" where
  "work_bind m k nd = (case m nd of (Inl e, nd') \<Rightarrow> (Inl e, nd') | (Inr a, nd') \<Rightarrow> k a nd')"

definition work_return :: "'a \<Rightarrow> ('s, 'a) work" where
  "work_return a nd = (Inr a, nd)"

definition work_result :: "string + 'a \<Rightarrow> ('s, 'a) work" where
  "work_result r nd = (r, nd)"

definition work_ask :: "('s peer_node \<Rightarrow> 'a) \<Rightarrow> ('s, 'a) work" where
  "work_ask f nd = (Inr (f nd), nd)"

definition work_do :: "('s peer_node \<Rightarrow> 's peer_node) \<Rightarrow> ('s, unit) work" where
  "work_do f nd = (Inr (), f nd)"

definition draw :: "'s surroundings \<Rightarrow> ('s, entropy) work" where
  "draw su nd = (Inr (su_random su (nd_drawn nd)), nd\<lparr>nd_drawn := nd_drawn nd + 1\<rparr>)"

text \<open>An operation of the engine; its changes stay when it fails.\<close>

definition on_engine :: "(engine \<Rightarrow> (string + 'a) \<times> engine) \<Rightarrow> ('s, 'a) work" where
  "on_engine f nd = (case f (nd_engine nd) of (r, eg) \<Rightarrow> (r, nd\<lparr>nd_engine := eg\<rparr>))"

definition store_list :: "'s surroundings \<Rightarrow> string \<Rightarrow> ('s, control_object list) work" where
  "store_list su b nd =
     (case cs_list (su_store su) b (nd_store nd) of
        (r, s) \<Rightarrow> (r, nd\<lparr>nd_store := s, nd_ops := nd_ops nd @ [DidList b r]\<rparr>))"

definition store_get :: "'s surroundings \<Rightarrow> string \<Rightarrow> string \<Rightarrow> ('s, bytes) work" where
  "store_get su b n nd =
     (case cs_get (su_store su) b n (nd_store nd) of
        (r, s) \<Rightarrow> (r, nd\<lparr>nd_store := s, nd_ops := nd_ops nd @ [DidGet b n r]\<rparr>))"

definition store_put :: "'s surroundings \<Rightarrow> string \<Rightarrow> string \<Rightarrow> bytes \<Rightarrow> ('s, unit) work" where
  "store_put su b n x nd =
     (case cs_put (su_store su) b n x (nd_store nd) of
        (r, s) \<Rightarrow> (r, nd\<lparr>nd_store := s, nd_ops := nd_ops nd @ [DidPut b n x r]\<rparr>))"

definition store_delete :: "'s surroundings \<Rightarrow> string \<Rightarrow> string \<Rightarrow> ('s, unit) work" where
  "store_delete su b n nd =
     (case cs_delete (su_store su) b n (nd_store nd) of
        (r, s) \<Rightarrow> (r, nd\<lparr>nd_store := s, nd_ops := nd_ops nd @ [DidDelete b n r]\<rparr>))"

section \<open>Trust and the outbox\<close>

definition trusted_devices :: "home \<Rightarrow> string + string set" where
  "trusted_devices h = (case hm_trusted h of NoTrust \<Rightarrow> Inr {} | BadTrust \<Rightarrow> Inl ''json'' | Trusted ids \<Rightarrow> Inr ids)"

definition trust_device :: "grants \<Rightarrow> string \<Rightarrow> bool \<Rightarrow> home \<Rightarrow> (string + unit) \<times> home" where
  "trust_device g fingerprint remove h =
     (case and_then (require (valid_id fingerprint)
                ''supply the complete 64-character fingerprint displayed on the other device'') (\<lambda>_.
           and_then (require (gr_lock g) ''another peer process is using this state'') (\<lambda>_.
           and_then (trusted_devices h) (\<lambda>ids.
           and_then (require (remove \<or> card ids < 64) ''too many peers'') (\<lambda>_.
           and_then (require (gr_save g) ''io'') (\<lambda>_.
             Inr (if remove then ids - {fingerprint} else insert fingerprint ids)))))) of
        Inl e \<Rightarrow> (Inl e, h)
      | Inr ids \<Rightarrow> (Inr (), h\<lparr>hm_trusted := Trusted ids\<rparr>))"

definition queue_message :: "peer_lib \<Rightarrow> grants \<Rightarrow> bytes \<Rightarrow> int \<Rightarrow> string \<Rightarrow> message \<Rightarrow> home \<Rightarrow> (string + unit) \<times> home" where
  "queue_message lib g random now to message h =
     (case and_then (if valid_id to then trusted_devices h else Inr {}) (\<lambda>ids.
           and_then (require (valid_id to \<and> to \<in> ids) ''recipient is not locally trusted'') (\<lambda>_.
           and_then (require (length (hm_outbox h) < 256) ''local outbox full'') (\<lambda>_.
             require (gr_save g) ''io''))) of
        Inl e \<Rightarrow> (Inl e, h)
      | Inr _ \<Rightarrow> (Inr (), h\<lparr>hm_outbox := hm_outbox h @ [(nonce lib random @ ''.json'',
                 Queued \<lparr>q_to = to, q_message = message, q_expires = now + 300\<rparr>)]\<rparr>))"

text \<open>The identity file: read, or written for new keys.  The second part is what is written.\<close>

definition load_or_create_keys :: "(string + stored_keys) option \<Rightarrow> device_keys \<Rightarrow> grants \<Rightarrow> (string + device_keys) \<times> stored_keys option" where
  "load_or_create_keys saved generated g =
     (case saved of
        Some content \<Rightarrow> (and_then content load_keys, None)
      | None \<Rightarrow> if gr_write g then (Inr generated, Some (stored_of generated)) else (Inl ''io'', None))"

definition selected_roots :: "home \<Rightarrow> string + string list" where
  "selected_roots h = (case hm_roots h of NoRoots \<Rightarrow> Inr [] | BadRoots \<Rightarrow> Inl ''json'' | Roots rs \<Rightarrow> Inr rs)"

text \<open>A directory the user offers is stored once, under its canonical name.\<close>

definition select_root :: "grants \<Rightarrow> (string \<times> bool) option \<Rightarrow> home \<Rightarrow> (string + unit) \<times> home" where
  "select_root g target h =
     (case target of
        None \<Rightarrow> (Inl ''io'', h)
      | Some (root, is_dir) \<Rightarrow>
          (case and_then (require is_dir ''select an existing directory'') (\<lambda>_.
                and_then (selected_roots h) (\<lambda>roots.
                and_then (require (gr_save g) ''io'') (\<lambda>_.
                  Inr (if root \<in> set roots then roots else roots @ [root])))) of
             Inl e \<Rightarrow> (Inl e, h)
           | Inr roots \<Rightarrow> (Inr (), h\<lparr>hm_roots := Roots roots\<rparr>)))"

definition start_engine :: "peer_lib \<Rightarrow> grants \<Rightarrow> bytes \<Rightarrow> string + device_keys \<Rightarrow> home \<Rightarrow> string + engine" where
  "start_engine lib g random keys h =
     and_then (require (gr_lock g) ''another peer process is using this state'') (\<lambda>_.
     and_then keys (\<lambda>ks.
     and_then (trusted_devices h) (\<lambda>ids.
     and_then (selected_roots h) (\<lambda>roots.
       Inr ((new_engine lib random ks ids)\<lparr>eg_selected_roots := length roots\<rparr>)))))"

text \<open>The state directory: it must be new, empty, or marked as one of the peer's.\<close>

record state_dir =
  sd_exists :: bool
  sd_files :: "(string \<times> bytes) list"
  sd_folders :: "string list"

definition dir_has :: "state_dir \<Rightarrow> string \<Rightarrow> bool" where
  "dir_has d n = (sd_exists d \<and> (map_of (sd_files d) n \<noteq> None \<or> n \<in> set (sd_folders d)))"

definition MARKER :: bytes where
  "MARKER = ''TwoDrive Peer state v1'' @ [CHR 0x0A]"

definition prepare :: "state_dir \<Rightarrow> string + state_dir" where
  "prepare d =
     and_then (require (\<not> dir_has d ''twodrive.sqlite3'' \<and> \<not> dir_has d ''config.toml'')
                 ''refusing an existing TwoDrive data/config directory'') (\<lambda>_.
     and_then (require (sd_exists d \<and> \<not> dir_has d ''peer-state-v1'' \<longrightarrow> sd_files d = [] \<and> sd_folders d = [])
                 ''state directory must be empty or an existing peer state directory'') (\<lambda>_.
     and_then (require (dir_has d ''peer-state-v1'' \<longrightarrow> map_of (sd_files d) ''peer-state-v1'' = Some MARKER)
                 ''invalid peer state marker'') (\<lambda>_.
       Inr \<lparr>sd_exists = True,
            sd_files = AList.update ''peer-state-v1'' MARKER (if sd_exists d then sd_files d else []),
            sd_folders = remdups (''outbox'' # ''updates'' # (if sd_exists d then sd_folders d else []))\<rparr>)))"

lemma prepare_keeps_files:
  assumes "prepare d = Inr d'" "n \<noteq> ''peer-state-v1''"
  shows "map_of (sd_files d') n = (if sd_exists d then map_of (sd_files d) n else None)"
  using assms by (simp add: prepare_def and_then_Inr_iff update_conv') (auto simp: update_conv')

section \<open>Discovery\<close>

definition json_name :: "string \<Rightarrow> string" where
  "json_name i = i @ ''.json''"

text \<open>A presence counts if it lies under the name of its device and verifies.\<close>

definition read_presence :: "peer_lib \<Rightarrow> int \<Rightarrow> control_object \<Rightarrow> bytes \<Rightarrow> presence list" where
  "read_presence lib now obj content =
     (case from_slice (presence_codec lib) content of
        None \<Rightarrow> []
      | Some p \<Rightarrow> if co_name obj = json_name (pr_device p) \<and> verify_presence lib p now = Inr () then [p] else [])"

fun collect_presences :: "peer_lib \<Rightarrow> 's surroundings \<Rightarrow> int \<Rightarrow> control_object list \<Rightarrow> ('s, presence list) work" where
  "collect_presences lib su now [] nd = (Inr [], nd)"
| "collect_presences lib su now (obj # objs) nd =
     (if MAX_CONTROL_BYTES < unat (co_size obj) then collect_presences lib su now objs nd
      else
        (case store_get su ''devices'' (co_name obj) nd of
           (Inl _, nd') \<Rightarrow> collect_presences lib su now objs nd'
         | (Inr content, nd') \<Rightarrow>
             work_bind (collect_presences lib su now objs) (\<lambda>ps. work_return (read_presence lib now obj content @ ps)) nd'))"

definition discover_all :: "peer_lib \<Rightarrow> 's surroundings \<Rightarrow> int \<Rightarrow> ('s, presence list) work" where
  "discover_all lib su now = work_bind (store_list su ''devices'') (collect_presences lib su now)"

text \<open>An error of Engine::discover is dropped.\<close>

fun meet_all :: "peer_lib \<Rightarrow> 's surroundings \<Rightarrow> int \<Rightarrow> presence list \<Rightarrow> ('s, unit) work" where
  "meet_all lib su now [] = work_return ()"
| "meet_all lib su now (p # ps) =
     work_bind (work_ask (\<lambda>nd. id_of lib (eg_identity (nd_engine nd)))) (\<lambda>me.
       if pr_device p = me then meet_all lib su now ps
       else
         work_bind (draw su) (\<lambda>e.
         work_bind (on_engine (\<lambda>eg. (Inr (), snd (discover_peer lib (en_id e) p now eg)))) (\<lambda>_.
           meet_all lib su now ps)))"

section \<open>A poll\<close>

definition mailbox :: "string \<Rightarrow> string" where
  "mailbox i = ''in-'' @ i"

definition put_envelope :: "peer_lib \<Rightarrow> 's surroundings \<Rightarrow> envelope \<Rightarrow> ('s, unit) work" where
  "put_envelope lib su env =
     store_put su (mailbox (h_to (header_of env))) (json_name (h_id (header_of env))) (to_vec (envelope_codec lib) env)"

definition publish :: "peer_lib \<Rightarrow> 's surroundings \<Rightarrow> int \<Rightarrow> ('s, unit) work" where
  "publish lib su now =
     work_bind (work_ask (\<lambda>nd. (now - nd_last_publish nd, nd_engine nd))) (\<lambda>(age, eg).
       if 30 \<le> age then
         work_bind (store_put su ''devices'' (json_name (id_of lib (eg_identity eg)))
                     (to_vec (presence_codec lib) (presence_of lib (eg_identity eg) (eg_session eg) now))) (\<lambda>_.
           work_do (\<lambda>nd. nd\<lparr>nd_last_publish := now\<rparr>))
       else work_return ())"

definition last_time :: "(string \<times> int) list \<Rightarrow> string \<Rightarrow> int" where
  "last_time ts k = (case map_of ts k of None \<Rightarrow> 0 | Some t \<Rightarrow> t)"

fun greet_all :: "peer_lib \<Rightarrow> 's surroundings \<Rightarrow> int \<Rightarrow> string list \<Rightarrow> ('s, unit) work" where
  "greet_all lib su now [] = work_return ()"
| "greet_all lib su now (i # is) =
     work_bind (work_ask (\<lambda>nd. \<not> authenticated lib (nd_engine nd) i now \<and> 20 \<le> now - last_time (nd_last_hello nd) i)) (\<lambda>due.
     work_bind
       (if due then
          work_bind (draw su) (\<lambda>e.
          work_bind (work_ask (\<lambda>nd. hello lib e (nd_engine nd) i now)) (\<lambda>r.
          work_bind (case r of Inl _ \<Rightarrow> work_return () | Inr env \<Rightarrow> put_envelope lib su env) (\<lambda>_.
            work_do (\<lambda>nd. nd\<lparr>nd_last_hello := AList.update i now (nd_last_hello nd)\<rparr>))))
        else work_return ()) (\<lambda>_. greet_all lib su now is))"

text \<open>The content of a mailbox object as a message: the engine may reject it.\<close>

definition incoming ::
    "peer_lib \<Rightarrow> 's surroundings \<Rightarrow> int \<Rightarrow> control_object \<Rightarrow> bytes option \<Rightarrow> ('s, string \<times> message \<times> envelope option) work" where
  "incoming lib su now obj content =
     (case content of
        None \<Rightarrow> work_result (Inl ''oversized object'')
      | Some b \<Rightarrow>
          (case from_slice (envelope_codec lib) b of
             None \<Rightarrow> work_result (Inl ''json'')
           | Some env \<Rightarrow>
               if co_name obj \<noteq> json_name (h_id (header_of env)) then work_result (Inl ''mailbox name mismatch'')
               else
                 work_bind (draw su) (\<lambda>e.
                 work_bind (on_engine (receive lib e env now)) (\<lambda>(message, response).
                   work_return (h_from (header_of env), message, response)))))"

definition count_up :: "(counters \<Rightarrow> counters) \<Rightarrow> ('s, unit) work" where
  "count_up f = work_do (\<lambda>nd. nd\<lparr>nd_counters := f (nd_counters nd)\<rparr>)"

text \<open>A release notification: at most one attempt an hour per tag; True when a release was staged.\<close>

definition try_update :: "peer_lib \<Rightarrow> 's surroundings \<Rightarrow> int \<Rightarrow> string \<Rightarrow> ('s, bool) work" where
  "try_update lib su now tag =
     work_bind (work_ask (\<lambda>nd. 3600 < now - last_time (nd_attempts nd) tag)) (\<lambda>due.
       if \<not> due then work_return False
       else
         work_bind (work_do (\<lambda>nd. nd\<lparr>nd_attempts := filter (\<lambda>(_, t). now - t < 3600) (nd_attempts nd)\<rparr>)) (\<lambda>_.
         work_bind (work_ask (\<lambda>nd. length (nd_attempts nd))) (\<lambda>n.
         work_bind (work_result (require (n < 64) ''update notification rate limit reached'')) (\<lambda>_.
         work_bind (work_do (\<lambda>nd. nd\<lparr>nd_attempts := AList.update tag now (nd_attempts nd)\<rparr>)) (\<lambda>_ nd.
           (case download_and_stage lib (su_key su) (su_fetch su) (su_grants su) tag (hm_updates (nd_home nd)) of
              (r, d) \<Rightarrow> (Inr (r = Inr ()), nd\<lparr>nd_home := (nd_home nd)\<lparr>hm_updates := d\<rparr>\<rparr>)))))))"

definition handle_message :: "peer_lib \<Rightarrow> 's surroundings \<Rightarrow> int \<Rightarrow> bool \<Rightarrow> message \<Rightarrow> ('s, bool) work" where
  "handle_message lib su now auto_update message =
     work_bind (count_up (\<lambda>c. c\<lparr>ct_received := ct_received c + 1\<rparr>)) (\<lambda>_.
       case message of
         Ping _ \<Rightarrow> work_bind (count_up (\<lambda>c. c\<lparr>ct_pings := ct_pings c + 1\<rparr>)) (\<lambda>_. work_return False)
       | Pong _ \<Rightarrow> work_bind (count_up (\<lambda>c. c\<lparr>ct_pongs := ct_pongs c + 1\<rparr>)) (\<lambda>_. work_return False)
       | UpdateAvailable tag \<Rightarrow> if auto_update then try_update lib su now tag else work_return False
       | _ \<Rightarrow> work_return False)"

definition work_attempt :: "('s, 'a) work \<Rightarrow> ('s, string + 'a) work" where
  "work_attempt m nd = (case m nd of (r, nd') \<Rightarrow> (Inr r, nd'))"

definition process_object ::
    "peer_lib \<Rightarrow> 's surroundings \<Rightarrow> int \<Rightarrow> bool \<Rightarrow> string \<Rightarrow> control_object \<Rightarrow> ('s, bool) work" where
  "process_object lib su now auto_update box obj =
     work_bind (if unat (co_size obj) \<le> MAX_CONTROL_BYTES
                then work_bind (store_get su box (co_name obj)) (\<lambda>b. work_return (Some b))
                else work_return None) (\<lambda>content.
     work_bind (work_attempt (incoming lib su now obj content)) (\<lambda>r.
     work_bind (case r of
         Inl _ \<Rightarrow> work_bind (count_up (\<lambda>c. c\<lparr>ct_rejected := ct_rejected c + 1\<rparr>)) (\<lambda>_. work_return False)
       | Inr (from, message, response) \<Rightarrow>
           work_bind (case response of None \<Rightarrow> work_return () | Some env \<Rightarrow> put_envelope lib su env) (\<lambda>_.
             handle_message lib su now auto_update message)) (\<lambda>staged.
     work_bind (store_delete su box (co_name obj)) (\<lambda>_. work_return staged))))"

fun process_all ::
    "peer_lib \<Rightarrow> 's surroundings \<Rightarrow> int \<Rightarrow> bool \<Rightarrow> string \<Rightarrow> control_object list \<Rightarrow> ('s, bool) work" where
  "process_all lib su now auto_update box [] = work_return False"
| "process_all lib su now auto_update box (obj # objs) =
     work_bind (process_object lib su now auto_update box obj) (\<lambda>staged.
       if staged then work_return True else process_all lib su now auto_update box objs)"

definition remove_entry :: "'s surroundings \<Rightarrow> string \<Rightarrow> ('s, unit) work" where
  "remove_entry su name nd =
     (if su_removable su name
      then (Inr (), nd\<lparr>nd_home := (nd_home nd)\<lparr>hm_outbox := filter (\<lambda>(n, _). n \<noteq> name) (hm_outbox (nd_home nd))\<rparr>\<rparr>)
      else (Inl ''io'', nd))"

definition send_queued :: "peer_lib \<Rightarrow> 's surroundings \<Rightarrow> int \<Rightarrow> string \<Rightarrow> queued_message \<Rightarrow> ('s, unit) work" where
  "send_queued lib su now name q =
     (if q_expires q \<le> now then remove_entry su name
      else
        work_bind (work_ask (\<lambda>nd. authenticated lib (nd_engine nd) (q_to q) now)) (\<lambda>ready.
          if ready then
            work_bind (draw su) (\<lambda>e.
            work_bind (on_engine (send_message lib e (q_to q) (q_message q) now)) (\<lambda>env.
            work_bind (put_envelope lib su env) (\<lambda>_. remove_entry su name)))
          else work_return ()))"

fun send_outbox :: "peer_lib \<Rightarrow> 's surroundings \<Rightarrow> int \<Rightarrow> (string \<times> outbox_entry) list \<Rightarrow> ('s, unit) work" where
  "send_outbox lib su now [] = work_return ()"
| "send_outbox lib su now ((name, entry) # es) =
     work_bind (case entry of
         NotFile \<Rightarrow> work_return ()
       | Unloadable \<Rightarrow> work_result (Inl ''json'')
       | Queued q \<Rightarrow> send_queued lib su now name q) (\<lambda>_. send_outbox lib su now es)"

definition status_of :: "peer_lib \<Rightarrow> int \<Rightarrow> presence list \<Rightarrow> 's peer_node \<Rightarrow> status" where
  "status_of lib now discovered nd =
     (let me = id_of lib (eg_identity (nd_engine nd)) in
      \<lparr>ss_version = package_version lib, ss_device = me, ss_updated = now,
       ss_peers = map (\<lambda>p. (pr_device p, (case trusted_devices (nd_home nd) of Inl _ \<Rightarrow> False | Inr t \<Rightarrow> pr_device p \<in> t),
                            authenticated lib (nd_engine nd) (pr_device p) now, pr_expires p))
                    (filter (\<lambda>p. pr_device p \<noteq> me) discovered),
       ss_counters = nd_counters nd\<rparr>)"

definition save_status :: "peer_lib \<Rightarrow> 's surroundings \<Rightarrow> int \<Rightarrow> presence list \<Rightarrow> ('s, unit) work" where
  "save_status lib su now discovered nd =
     (if su_status_writable su
      then (Inr (), nd\<lparr>nd_home := (nd_home nd)\<lparr>hm_status := Some (status_of lib now discovered nd)\<rparr>\<rparr>)
      else (Inl ''io'', nd))"

definition tick :: "peer_lib \<Rightarrow> 's surroundings \<Rightarrow> int \<Rightarrow> bool \<Rightarrow> ('s, bool) work" where
  "tick lib su now auto_update =
     work_bind (work_ask (\<lambda>nd. trusted_devices (nd_home nd))) (\<lambda>trusted.
     work_bind (work_result trusted) (\<lambda>ids.
     work_bind (on_engine (\<lambda>eg. (Inr (), set_trust ids eg))) (\<lambda>_.
     work_bind (publish lib su now) (\<lambda>_.
     work_bind (discover_all lib su now) (\<lambda>discovered.
     work_bind (meet_all lib su now discovered) (\<lambda>_.
     work_bind (work_ask (\<lambda>nd. (peer_ids (nd_engine nd), mailbox (id_of lib (eg_identity (nd_engine nd)))))) (\<lambda>(ids, box).
     work_bind (greet_all lib su now ids) (\<lambda>_.
     work_bind (store_list su box) (\<lambda>objects.
     work_bind (process_all lib su now auto_update box objects) (\<lambda>staged.
       if staged then work_return True
       else
         work_bind (work_result (require (su_outbox_readable su) ''io'')) (\<lambda>_.
         work_bind (work_ask (\<lambda>nd. take 256 (hm_outbox (nd_home nd)))) (\<lambda>entries.
         work_bind (send_outbox lib su now entries) (\<lambda>_.
         work_bind (save_status lib su now discovered) (\<lambda>_. work_return False))))))))))))))"

text \<open>The worker polls until a release is staged; a failed poll is repeated.\<close>

definition worker_round :: "peer_lib \<Rightarrow> 's surroundings \<Rightarrow> int \<Rightarrow> bool \<Rightarrow> 's peer_node \<Rightarrow> int option \<times> 's peer_node" where
  "worker_round lib su now auto_update nd =
     (case tick lib su now auto_update nd of
        (Inr True, nd') \<Rightarrow> (Some 75, nd')
      | (_, nd') \<Rightarrow> (None, nd'))"

end
