(* ===== verification/PeerWorker.thy ===== *)
theory PeerWorker
  imports PeerRuntime
begin

text \<open>
  What a poll of crates/twodrive-peer/src/runtime.rs keeps: its engine runs the protocol of
  PeerProtocol, objects are deleted only from the device's own mailbox after they were read, and
  queued messages leave the outbox only when they expired or were sent.
\<close>

section \<open>Invariants of work\<close>

definition work_keeps :: "('s peer_node \<Rightarrow> bool) \<Rightarrow> ('s, 'a) work \<Rightarrow> bool" where
  "work_keeps P m = (\<forall>nd. P nd \<longrightarrow> P (snd (m nd)))"

named_theorems work_intros \<open>invariants of the parts of a poll\<close>

lemma work_keepsD: "work_keeps P m \<Longrightarrow> P nd \<Longrightarrow> m nd = (r, nd') \<Longrightarrow> P nd'"
  unfolding work_keeps_def by (metis snd_conv)

lemma keeps_work_bind [work_intros]: "work_keeps P m \<Longrightarrow> (\<And>a. work_keeps P (k a)) \<Longrightarrow> work_keeps P (work_bind m k)"
  unfolding work_keeps_def work_bind_def by (simp split: prod.split sum.split) (metis snd_conv)

lemma keeps_work_basic [work_intros]:
  "work_keeps P (work_return a)" "work_keeps P (work_result r)" "work_keeps P (work_ask f)"
  by (simp_all add: work_keeps_def work_return_def work_result_def work_ask_def)

lemma keeps_work_asked: "(\<And>nd. P nd \<Longrightarrow> work_keeps P (k (f nd))) \<Longrightarrow> work_keeps P (work_bind (work_ask f) k)"
  by (simp add: work_keeps_def work_bind_def work_ask_def)

lemma keeps_work_do: "(\<And>nd. P nd \<Longrightarrow> P (f nd)) \<Longrightarrow> work_keeps P (work_do f)"
  by (simp add: work_keeps_def work_do_def)

lemma keeps_work_if [work_intros]: "(b \<Longrightarrow> work_keeps P m) \<Longrightarrow> (\<not> b \<Longrightarrow> work_keeps P n) \<Longrightarrow> work_keeps P (if b then m else n)"
  by simp

lemma keeps_work_option [work_intros]:
  "work_keeps P m \<Longrightarrow> (\<And>x. work_keeps P (f x)) \<Longrightarrow> work_keeps P (case v of None \<Rightarrow> m | Some x \<Rightarrow> f x)"
  by (cases v) simp_all

lemma keeps_work_sum [work_intros]:
  "(\<And>e. work_keeps P (f e)) \<Longrightarrow> (\<And>x. work_keeps P (g x)) \<Longrightarrow> work_keeps P (case v of Inl e \<Rightarrow> f e | Inr x \<Rightarrow> g x)"
  by (cases v) simp_all

lemma keeps_work_prod [work_intros]:
  "(\<And>a b. work_keeps P (f a b)) \<Longrightarrow> work_keeps P (case v of (a, b) \<Rightarrow> f a b)"
  by (cases v) simp

lemma keeps_work_attempt [work_intros]: "work_keeps P m \<Longrightarrow> work_keeps P (work_attempt m)"
  by (auto simp: work_keeps_def work_attempt_def case_prod_unfold)

text \<open>The object was read, or listed as too large to be read.\<close>

definition fetches :: "string \<Rightarrow> string \<Rightarrow> store_op \<Rightarrow> bool" where
  "fetches box n op =
     (case op of
        DidGet b m (Inr _) \<Rightarrow> b = box \<and> m = n
      | DidList b (Inr objs) \<Rightarrow> b = box \<and> list_ex (\<lambda>obj. co_name obj = n \<and> MAX_CONTROL_BYTES < unat (co_size obj)) objs
      | _ \<Rightarrow> False)"

definition fetched :: "store_op list \<Rightarrow> string \<Rightarrow> string \<Rightarrow> bool" where
  "fetched ops box n = list_ex (fetches box n) ops"

text \<open>A poll after its listing.\<close>

definition listed :: "('s peer_node \<Rightarrow> bool) \<Rightarrow> string \<Rightarrow> control_object list \<Rightarrow> 's peer_node \<Rightarrow> bool" where
  "listed P me objs nd = (P nd \<and> DidList (mailbox me) (Inr objs) \<in> set (nd_ops nd))"

text \<open>A queued message that may go: it expired, or its envelope lies in the store.\<close>

definition settled :: "peer_lib \<Rightarrow> int \<Rightarrow> string \<Rightarrow> store_op list \<Rightarrow> queued_message \<Rightarrow> bool" where
  "settled lib now me ops q =
     (q_expires q \<le> now \<or>
      (\<exists>eg e env. id_of lib (eg_identity eg) = me \<and> authenticated lib eg (q_to q) now \<and>
         fst (send_message lib e (q_to q) (q_message q) now eg) = Inr env \<and>
         DidPut (mailbox (h_to (header_of env))) (json_name (h_id (header_of env))) (to_vec (envelope_codec lib) env) (Inr ())
           \<in> set ops))"

text \<open>
  The steps of a poll as its invariants see them: calls of the store, operations of the engine,
  changes of the worker's own notes, the deletion of an object and of an entry of the outbox.
\<close>

locale poll_steps =
  fixes lib :: peer_lib and now :: int and P :: "'s peer_node \<Rightarrow> bool"
  assumes store_step: "P nd \<Longrightarrow> (\<And>b n r. op \<noteq> DidDelete b n r) \<Longrightarrow> P (nd\<lparr>nd_store := s, nd_ops := nd_ops nd @ [op]\<rparr>)"
    and trust_step: "P nd \<Longrightarrow> P (nd\<lparr>nd_engine := set_trust ids (nd_engine nd)\<rparr>)"
    and discover_step: "P nd \<Longrightarrow> P (nd\<lparr>nd_engine := snd (discover_peer lib random p now (nd_engine nd))\<rparr>)"
    and send_step: "P nd \<Longrightarrow> P (nd\<lparr>nd_engine := snd (send_message lib e i message now (nd_engine nd))\<rparr>)"
    and receive_step: "P nd \<Longrightarrow> P (nd\<lparr>nd_engine := snd (receive lib e env now (nd_engine nd))\<rparr>)"
    and counters_step: "P nd \<Longrightarrow> P (nd\<lparr>nd_counters := c\<rparr>)"
    and publish_step: "P nd \<Longrightarrow> P (nd\<lparr>nd_last_publish := t\<rparr>)"
    and hello_step: "P nd \<Longrightarrow> P (nd\<lparr>nd_last_hello := hs\<rparr>)"
    and attempts_step: "P nd \<Longrightarrow> P (nd\<lparr>nd_attempts := us\<rparr>)"
    and draw_step: "P nd \<Longrightarrow> P (nd\<lparr>nd_drawn := k\<rparr>)"
    and updates_step: "P nd \<Longrightarrow> P (nd\<lparr>nd_home := (nd_home nd)\<lparr>hm_updates := d\<rparr>\<rparr>)"
    and status_step: "P nd \<Longrightarrow> P (nd\<lparr>nd_home := (nd_home nd)\<lparr>hm_status := st\<rparr>\<rparr>)"
begin

lemma keeps_list: "work_keeps P (store_list su b)"
  unfolding work_keeps_def store_list_def by (auto split: prod.split intro: store_step)

lemma keeps_get: "work_keeps P (store_get su b n)"
  unfolding work_keeps_def store_get_def by (auto split: prod.split intro: store_step)

lemma keeps_put: "work_keeps P (store_put su b n x)"
  unfolding work_keeps_def store_put_def by (auto split: prod.split intro: store_step)

lemma keeps_put_envelope: "work_keeps P (put_envelope lib su env)"
  unfolding put_envelope_def by (rule keeps_put)

lemma keeps_draw: "work_keeps P (draw su)"
  by (simp add: work_keeps_def draw_def draw_step)

lemma keeps_trust: "work_keeps P (on_engine (\<lambda>eg. (Inr (), set_trust ids eg)))"
  by (simp add: work_keeps_def on_engine_def trust_step)

lemma keeps_meet: "work_keeps P (on_engine (\<lambda>eg. (Inr (), snd (discover_peer lib random p now eg))))"
  by (simp add: work_keeps_def on_engine_def discover_step)

lemma keeps_send: "work_keeps P (on_engine (send_message lib e i message now))"
  unfolding work_keeps_def on_engine_def by (simp add: case_prod_unfold send_step)

lemma keeps_receive: "work_keeps P (on_engine (receive lib e env now))"
  unfolding work_keeps_def on_engine_def by (simp add: case_prod_unfold receive_step)

lemma keeps_count: "work_keeps P (count_up f)"
  unfolding count_up_def by (intro keeps_work_do counters_step)

lemmas engine_keeps = work_intros keeps_list keeps_get keeps_put keeps_put_envelope keeps_draw keeps_trust keeps_meet
  keeps_send keeps_receive keeps_count

lemma keeps_publish: "work_keeps P (publish lib su now)"
  unfolding publish_def by (intro engine_keeps keeps_work_do publish_step)

lemma keeps_collect: "work_keeps P (collect_presences lib su now objs)"
proof (induction objs)
  case (Cons obj objs)
  have "P (snd (collect_presences lib su now (obj # objs) nd))" if "P nd" for nd
  proof (cases "store_get su ''devices'' (co_name obj) nd")
    case (Pair r nd')
    have nd': "P nd'" using work_keepsD[OF keeps_get that Pair] .
    have "work_keeps P (work_bind (collect_presences lib su now objs) (\<lambda>ps. work_return (read_presence lib now obj x @ ps)))" for x
      by (intro engine_keeps Cons)
    then show ?thesis using Pair nd' that Cons by (auto simp: work_keeps_def split: sum.split)
  qed
  then show ?case by (simp add: work_keeps_def)
qed (simp add: work_keeps_def)

lemma keeps_discover_all: "work_keeps P (discover_all lib su now)"
  unfolding discover_all_def by (intro engine_keeps keeps_collect)

lemma keeps_meet_all: "work_keeps P (meet_all lib su now ps)"
  by (induction ps) (simp_all only: meet_all.simps, intro engine_keeps, intro engine_keeps)

lemma keeps_greet_all: "work_keeps P (greet_all lib su now is)"
  by (induction "is") (simp_all only: greet_all.simps, intro engine_keeps, intro engine_keeps keeps_work_do hello_step)

lemma keeps_incoming: "work_keeps P (incoming lib su now obj content)"
  unfolding incoming_def by (intro engine_keeps)

lemma keeps_try_update: "work_keeps P (try_update lib su now tag)"
proof -
  have "work_keeps P (\<lambda>nd. case download_and_stage lib (su_key su) (su_fetch su) (su_grants su) tag (hm_updates (nd_home nd)) of
      (r, d) \<Rightarrow> (Inr (r = Inr ()), nd\<lparr>nd_home := (nd_home nd)\<lparr>hm_updates := d\<rparr>\<rparr>))"
    by (simp add: work_keeps_def updates_step split: prod.split)
  then show ?thesis unfolding try_update_def by (intro engine_keeps keeps_work_do attempts_step)
qed

lemma keeps_handle: "work_keeps P (handle_message lib su now auto_update message)"
  unfolding handle_message_def by (cases message) (simp_all, (intro conjI impI engine_keeps keeps_try_update)+)

lemma keeps_status: "work_keeps P (save_status lib su now discovered)"
  by (simp add: work_keeps_def save_status_def status_step)

text \<open>What the log holds it keeps.\<close>

lemma with_log: "poll_steps lib now (\<lambda>nd. P nd \<and> set xs \<subseteq> set (nd_ops nd))"
proof
qed (auto simp: store_step trust_step discover_step send_step receive_step counters_step publish_step hello_step
      attempts_step draw_step updates_step status_step)

end

section \<open>A poll\<close>

text \<open>
  An invariant of a poll may know what the outbox was when it began and whose mailbox is read; it
  has to allow a deletion of a fetched object and the removal of a settled entry.
\<close>

locale poll = poll_steps lib now P
  for lib :: peer_lib and now :: int and P :: "'s peer_node \<Rightarrow> bool" +
  fixes out :: "(string \<times> outbox_entry) list" and me :: string
  assumes outbox_within: "P nd \<Longrightarrow> set (hm_outbox (nd_home nd)) \<subseteq> set out"
    and identity_fixed: "P nd \<Longrightarrow> id_of lib (eg_identity (nd_engine nd)) = me"
    and delete_step: "P nd \<Longrightarrow> fetched (nd_ops nd) (mailbox me) n \<Longrightarrow>
      P (nd\<lparr>nd_store := s, nd_ops := nd_ops nd @ [DidDelete (mailbox me) n r]\<rparr>)"
    and remove_step: "P nd \<Longrightarrow> (name, Queued q) \<in> set out \<Longrightarrow> settled lib now me (nd_ops nd) q \<Longrightarrow>
      P (nd\<lparr>nd_home := (nd_home nd)\<lparr>hm_outbox := filter (\<lambda>(n, _). n \<noteq> name) (hm_outbox (nd_home nd))\<rparr>\<rparr>)"
begin

lemma keeps_delete:
  assumes "set xs \<subseteq> set (nd_ops nd) \<Longrightarrow> fetched xs (mailbox me) n" "P nd" "set xs \<subseteq> set (nd_ops nd)"
  shows "P (snd (store_delete su (mailbox me) n nd))"
proof -
  have "fetched (nd_ops nd) (mailbox me) n" using assms unfolding fetched_def list_ex_iff by blast
  then show ?thesis using assms(2) by (simp add: store_delete_def delete_step split: prod.split)
qed

text \<open>The rest of the work on an object, once it is fetched.\<close>

lemma keeps_rest:
  assumes "fetched xs (mailbox me) (co_name obj)"
  shows "work_keeps (\<lambda>nd. P nd \<and> set xs \<subseteq> set (nd_ops nd))
    (work_bind (work_attempt (incoming lib su now obj content)) (\<lambda>r.
     work_bind (case r of
         Inl _ \<Rightarrow> work_bind (count_up (\<lambda>c. c\<lparr>ct_rejected := ct_rejected c + 1\<rparr>)) (\<lambda>_. work_return False)
       | Inr (from, message, response) \<Rightarrow>
           work_bind (case response of None \<Rightarrow> work_return () | Some env \<Rightarrow> put_envelope lib su env) (\<lambda>_.
             handle_message lib su now auto_update message)) (\<lambda>staged.
     work_bind (store_delete su (mailbox me) (co_name obj)) (\<lambda>_. work_return staged))))"
proof -
  let ?P = "\<lambda>nd. P nd \<and> set xs \<subseteq> set (nd_ops nd)"
  note logged = poll_steps.engine_keeps[OF with_log] poll_steps.keeps_incoming[OF with_log] poll_steps.keeps_handle[OF with_log]
  have "work_keeps ?P (store_delete su (mailbox me) (co_name obj))"
    using keeps_delete assms by (auto simp: work_keeps_def store_delete_def split: prod.split)
  then show ?thesis by (intro logged)
qed

lemma keeps_process_object:
  assumes "obj \<in> set objs"
  shows "work_keeps (listed P me objs) (process_object lib su now auto_update (mailbox me) obj)"
  unfolding work_keeps_def
proof (intro allI impI)
  fix nd
  let ?list = "DidList (mailbox me) (Inr objs)"
  assume before: "listed P me objs nd"
  show "listed P me objs (snd (process_object lib su now auto_update (mailbox me) obj nd))"
  proof (cases "unat (co_size obj) \<le> MAX_CONTROL_BYTES")
    case True
    obtain r nd' where got: "store_get su (mailbox me) (co_name obj) nd = (r, nd')" by (cases "store_get su (mailbox me) (co_name obj) nd")
    have "P nd'" using work_keepsD[OF keeps_get _ got] before by (simp add: listed_def)
    moreover have "?list \<in> set (nd_ops nd')" "DidGet (mailbox me) (co_name obj) r \<in> set (nd_ops nd')"
      using before got by (auto simp: listed_def store_get_def split: prod.splits)
    ultimately have nd': "P nd'" "?list \<in> set (nd_ops nd')" "DidGet (mailbox me) (co_name obj) r \<in> set (nd_ops nd')" by blast+
    show ?thesis
    proof (cases r)
      case (Inl e)
      then show ?thesis using True got nd' by (simp add: process_object_def work_bind_def listed_def)
    next
      case (Inr b)
      let ?xs = "[?list, DidGet (mailbox me) (co_name obj) (Inr b)]"
      have "fetched ?xs (mailbox me) (co_name obj)" by (auto simp: fetched_def fetches_def list_ex_iff)
      note rest = keeps_rest[OF this, unfolded work_keeps_def, rule_format, of nd']
      show ?thesis using rest True got nd' Inr by (simp add: process_object_def work_bind_def work_return_def listed_def)
    qed
  next
    case False
    then have "fetched [?list] (mailbox me) (co_name obj)" using assms by (auto simp: fetched_def fetches_def list_ex_iff)
    note rest = keeps_rest[OF this, unfolded work_keeps_def, rule_format, of nd]
    show ?thesis using rest False before by (simp add: process_object_def work_bind_def work_return_def listed_def)
  qed
qed

lemma keeps_process_all:
  "set objs \<subseteq> set listing \<Longrightarrow> work_keeps (listed P me listing) (process_all lib su now auto_update (mailbox me) objs)"
proof (induction objs)
  case (Cons obj objs)
  then have "work_keeps (listed P me listing) (process_object lib su now auto_update (mailbox me) obj)"
    by (intro keeps_process_object) simp
  with Cons show ?case by (simp only: process_all.simps) (intro work_intros, auto)
qed (simp add: work_intros)

text \<open>The work between a listing of the mailbox and what follows the messages.\<close>

lemma keeps_listing:
  assumes "\<And>objs. work_keeps (listed P me objs) (m objs)" "\<And>a. work_keeps P (k a)"
  shows "work_keeps P (work_bind (store_list su (mailbox me)) (\<lambda>objs. work_bind (m objs) k))"
  unfolding work_keeps_def
proof (intro allI impI)
  fix nd
  assume "P nd"
  obtain r nd' where got: "store_list su (mailbox me) nd = (r, nd')" by (cases "store_list su (mailbox me) nd")
  have nd': "P nd'" using work_keepsD[OF keeps_list \<open>P nd\<close> got] .
  show "P (snd (work_bind (store_list su (mailbox me)) (\<lambda>objs. work_bind (m objs) k) nd))"
  proof (cases r)
    case (Inl e)
    then show ?thesis using got nd' by (simp add: work_bind_def)
  next
    case (Inr objs)
    have "listed P me objs nd'" using got nd' Inr by (auto simp: listed_def store_list_def split: prod.splits)
    moreover obtain r2 nd2 where ran: "m objs nd' = (r2, nd2)" by (cases "m objs nd'")
    ultimately have "P nd2" using work_keepsD[OF assms(1)] unfolding listed_def by blast
    then show ?thesis using assms(2) got Inr ran by (cases r2) (simp_all add: work_bind_def work_keeps_def)
  qed
qed

lemma keeps_remove_entry:
  assumes "P nd" "(name, Queued q) \<in> set out" "settled lib now me (nd_ops nd) q"
  shows "P (snd (remove_entry su name nd))"
  using remove_step[OF assms] assms(1) by (simp add: remove_entry_def)

lemma keeps_send_queued:
  assumes "(name, Queued q) \<in> set out"
  shows "work_keeps P (send_queued lib su now name q)"
  unfolding work_keeps_def
proof (intro allI impI)
  fix nd
  assume P: "P nd"
  define e where "e = su_random su (nd_drawn nd)"
  define nd1 where "nd1 = nd\<lparr>nd_drawn := nd_drawn nd + 1\<rparr>"
  obtain r eg where sent: "send_message lib e (q_to q) (q_message q) now (nd_engine nd) = (r, eg)"
    by (cases "send_message lib e (q_to q) (q_message q) now (nd_engine nd)")
  have nd1: "P (nd1\<lparr>nd_engine := eg\<rparr>)"
    using send_step[of nd1 e "q_to q" "q_message q"] draw_step[OF P] sent by (simp add: nd1_def)
  show "P (snd (send_queued lib su now name q nd))"
  proof (cases "q_expires q \<le> now")
    case True
    then show ?thesis using keeps_remove_entry[OF P assms] by (simp add: send_queued_def settled_def)
  next
    case live: False
    show ?thesis
    proof (cases "authenticated lib (nd_engine nd) (q_to q) now")
      case False
      then show ?thesis using live P by (simp add: send_queued_def work_bind_def work_ask_def work_return_def)
    next
      case True
      note steps = send_queued_def work_bind_def work_ask_def draw_def on_engine_def
      show ?thesis
      proof (cases r)
        case (Inl err)
        then show ?thesis using live True sent nd1 by (simp add: steps e_def nd1_def)
      next
        case (Inr env)
        obtain p nd2 where put: "put_envelope lib su env (nd1\<lparr>nd_engine := eg\<rparr>) = (p, nd2)"
          by (cases "put_envelope lib su env (nd1\<lparr>nd_engine := eg\<rparr>)")
        have nd2: "P nd2" using work_keepsD[OF keeps_put_envelope nd1 put] .
        have run: "snd (send_queued lib su now name q nd) =
            (case p of Inl _ \<Rightarrow> nd2 | Inr _ \<Rightarrow> snd (remove_entry su name nd2))"
          using live True sent Inr put by (simp add: steps e_def nd1_def split: sum.split)
        have "settled lib now me (nd_ops nd2) q" if "p = Inr ()"
          unfolding settled_def
          by (intro disjI2 exI[of _ "nd_engine nd"] exI[of _ e] exI[of _ env])
            (use that put True sent Inr identity_fixed[OF P] in
              \<open>auto simp: put_envelope_def store_put_def nd1_def split: prod.splits\<close>)
        then show ?thesis using run nd2 keeps_remove_entry[OF nd2 assms] by (cases p) simp_all
      qed
    qed
  qed
qed

lemma keeps_send_outbox: "set es \<subseteq> set out \<Longrightarrow> work_keeps P (send_outbox lib su now es)"
proof (induction es)
  case (Cons x es)
  obtain name entry where x: "x = (name, entry)" by (cases x)
  have "work_keeps P (case entry of NotFile \<Rightarrow> work_return () | Unloadable \<Rightarrow> work_result (Inl ''json'')
       | Queued q \<Rightarrow> send_queued lib su now name q)"
    using Cons.prems x keeps_send_queued by (cases entry) (auto intro: work_intros)
  then show ?case using Cons x by (simp only: send_outbox.simps) (intro work_intros, auto)
qed (simp add: work_intros)

text \<open>A poll keeps the invariant.\<close>

lemma keeps_tick: "work_keeps P (tick lib su now auto_update)"
proof -
  have send: "work_keeps P (work_bind (work_ask (\<lambda>nd. take 256 (hm_outbox (nd_home nd)))) (\<lambda>entries.
      work_bind (send_outbox lib su now entries) (\<lambda>_. work_bind (save_status lib su now ps) (\<lambda>_. work_return False))))" for ps
    by (intro keeps_work_asked work_intros keeps_send_outbox keeps_status)
      (use outbox_within in \<open>blast dest: in_set_takeD\<close>)
  have rest: "work_keeps P (work_bind (greet_all lib su now ids) (\<lambda>_.
      work_bind (store_list su (mailbox me)) (\<lambda>objects.
      work_bind (process_all lib su now auto_update (mailbox me) objects) (\<lambda>staged.
      if staged then work_return True
      else work_bind (work_result (require (su_outbox_readable su) ''io'')) (\<lambda>_.
        work_bind (work_ask (\<lambda>nd. take 256 (hm_outbox (nd_home nd)))) (\<lambda>entries.
        work_bind (send_outbox lib su now entries) (\<lambda>_. work_bind (save_status lib su now ps) (\<lambda>_. work_return False))))))))"
    for ids ps
    by (rule keeps_work_bind[OF keeps_greet_all], rule keeps_listing, rule keeps_process_all, simp)
      (intro work_intros send)
  have "work_keeps P (work_bind (work_ask (\<lambda>nd. (peer_ids (nd_engine nd), mailbox (id_of lib (eg_identity (nd_engine nd))))))
      (\<lambda>(ids, box). work_bind (greet_all lib su now ids) (\<lambda>_.
      work_bind (store_list su box) (\<lambda>objects.
      work_bind (process_all lib su now auto_update box objects) (\<lambda>staged.
      if staged then work_return True
      else work_bind (work_result (require (su_outbox_readable su) ''io'')) (\<lambda>_.
        work_bind (work_ask (\<lambda>nd. take 256 (hm_outbox (nd_home nd)))) (\<lambda>entries.
        work_bind (send_outbox lib su now entries) (\<lambda>_. work_bind (save_status lib su now ps) (\<lambda>_. work_return False)))))))))"
    for ps
    by (rule keeps_work_asked) (simp add: identity_fixed rest)
  note parts = this
  show ?thesis
    unfolding tick_def by (intro engine_keeps keeps_publish keeps_discover_all keeps_meet_all parts)
qed

end

section \<open>What a poll keeps\<close>

text \<open>Every deletion is of an object of the own mailbox that was fetched before.\<close>

definition delete_read :: "string \<Rightarrow> store_op list \<Rightarrow> store_op \<Rightarrow> bool" where
  "delete_read me past op = (case op of DidDelete b n _ \<Rightarrow> b = mailbox me \<and> fetched past b n | _ \<Rightarrow> True)"

fun deletes_read :: "string \<Rightarrow> store_op list \<Rightarrow> store_op list \<Rightarrow> bool" where
  "deletes_read me past [] = True"
| "deletes_read me past (op # ops) =
     (delete_read me past op \<and> deletes_read me (past @ [op]) ops)"

lemma deletes_read_snoc:
  "deletes_read me past (ops @ [op]) =
     (deletes_read me past ops \<and> delete_read me (past @ ops) op)"
  by (induction ops arbitrary: past) simp_all

definition entries_settled :: "peer_lib \<Rightarrow> int \<Rightarrow> string \<Rightarrow> (string \<times> outbox_entry) list \<Rightarrow> 's peer_node \<Rightarrow> bool" where
  "entries_settled lib now me out nd =
     (\<forall>name q. (name, Queued q) \<in> set out \<and> name \<notin> fst ` set (hm_outbox (nd_home nd)) \<longrightarrow> settled lib now me (nd_ops nd) q)"

definition poll_ok :: "peer_lib \<Rightarrow> int \<Rightarrow> (string \<times> outbox_entry) list \<Rightarrow> string \<Rightarrow> 's peer_node \<Rightarrow> bool" where
  "poll_ok lib now out me nd =
     (id_of lib (eg_identity (nd_engine nd)) = me \<and> set (hm_outbox (nd_home nd)) \<subseteq> set out \<and>
      deletes_read me [] (nd_ops nd) \<and> (distinct (map fst out) \<longrightarrow> entries_settled lib now me out nd))"

lemma settled_mono: "settled lib now me ops q \<Longrightarrow> settled lib now me (ops @ xs) q"
  unfolding settled_def by auto

lemma engine_identity [simp]:
  "eg_identity (snd (discover_peer lib random pr now eg)) = eg_identity eg"
  "eg_identity (snd (send_message lib e i message now eg)) = eg_identity eg"
  "eg_identity (snd (receive lib e env now eg)) = eg_identity eg"
proof -
  show "eg_identity (snd (discover_peer lib random pr now eg)) = eg_identity eg"
    by (simp add: discover_peer_def Let_def split: sum.split option.split)
  show "eg_identity (snd (send_message lib e i message now eg)) = eg_identity eg"
    by (auto simp: send_message_def note_ping_def Let_def split: message.split prod.split sum.split)
  have answered: "eg_identity eg2 = eg_identity eg1" if "answer_message lib j m now eg1 = (r, eg2)" for j m eg1 eg2 r
    using that by (auto simp: answer_message_def answer_control_def split: message.splits option.splits if_splits sum.splits)
  show "eg_identity (snd (receive lib e env now eg)) = eg_identity eg"
    unfolding receive_def Let_def
    by (auto simp: note_seen_def forget_expired_def split: option.split sum.split prod.split dest!: answered)
qed

lemma poll_ok_store: "poll_ok lib now out me nd \<Longrightarrow>
    delete_read me (nd_ops nd) op \<Longrightarrow> poll_ok lib now out me (nd\<lparr>nd_store := s, nd_ops := nd_ops nd @ [op]\<rparr>)"
  by (simp add: poll_ok_def entries_settled_def deletes_read_snoc settled_mono)

lemma poll_ok_remove:
  assumes "poll_ok lib now out me nd" "(name, Queued q) \<in> set out" "settled lib now me (nd_ops nd) q"
  shows "poll_ok lib now out me
    (nd\<lparr>nd_home := (nd_home nd)\<lparr>hm_outbox := filter (\<lambda>(n, _). n \<noteq> name) (hm_outbox (nd_home nd))\<rparr>\<rparr>)"
proof -
  let ?after = "filter (\<lambda>(n, _). n \<noteq> name) (hm_outbox (nd_home nd))"
  have left: "n \<in> fst ` set ?after \<or> n = name \<or> n \<notin> fst ` set (hm_outbox (nd_home nd))" for n
    by force
  have same: "settled lib now me (nd_ops nd) q'" if "distinct (map fst out)" "(name, Queued q') \<in> set out" for q'
  proof -
    have "q' = q" using eq_key_imp_eq_value[OF that(1) that(2) assms(2)] by simp
    then show ?thesis using assms(3) by simp
  qed
  have "entries_settled lib now me out (nd\<lparr>nd_home := (nd_home nd)\<lparr>hm_outbox := ?after\<rparr>\<rparr>)" if "distinct (map fst out)"
    unfolding entries_settled_def
  proof (intro allI impI)
    fix n q'
    assume n: "(n, Queued q') \<in> set out \<and> n \<notin> fst ` set (hm_outbox (nd_home (nd\<lparr>nd_home := (nd_home nd)\<lparr>hm_outbox := ?after\<rparr>\<rparr>)))"
    have "entries_settled lib now me out nd" using assms(1) that by (simp add: poll_ok_def)
    then show "settled lib now me (nd_ops (nd\<lparr>nd_home := (nd_home nd)\<lparr>hm_outbox := ?after\<rparr>\<rparr>)) q'"
      using n left[of n] same[OF that] unfolding entries_settled_def by simp blast
  qed
  then show ?thesis using assms(1) unfolding poll_ok_def by simp blast
qed

interpretation kept: poll lib now "poll_ok lib now out me" out me for lib now out me
proof
  fix nd :: "'a peer_node" and op s
  assume "poll_ok lib now out me nd" "\<And>b n r. op \<noteq> DidDelete b n r"
  then show "poll_ok lib now out me (nd\<lparr>nd_store := s, nd_ops := nd_ops nd @ [op]\<rparr>)"
    by (intro poll_ok_store) (auto simp: delete_read_def split: store_op.split)
next
  fix nd :: "'a peer_node" and name q
  assume "poll_ok lib now out me nd" "(name, Queued q) \<in> set out" "settled lib now me (nd_ops nd) q"
  then show "poll_ok lib now out me
      (nd\<lparr>nd_home := (nd_home nd)\<lparr>hm_outbox := filter (\<lambda>(n, _). n \<noteq> name) (hm_outbox (nd_home nd))\<rparr>\<rparr>)"
    by (rule poll_ok_remove)
qed (auto simp: poll_ok_store delete_read_def, auto simp: poll_ok_def entries_settled_def set_trust_def)

section \<open>Properties of a poll\<close>

definition self_id :: "peer_lib \<Rightarrow> 's peer_node \<Rightarrow> string" where
  "self_id lib nd = id_of lib (eg_identity (nd_engine nd))"

lemma poll_ok_tick:
  assumes "deletes_read (self_id lib nd) [] (nd_ops nd)"
  shows "poll_ok lib now (hm_outbox (nd_home nd)) (self_id lib nd) (snd (tick lib su now auto_update nd))"
proof -
  have "poll_ok lib now (hm_outbox (nd_home nd)) (self_id lib nd) nd"
    using assms by (auto simp: poll_ok_def self_id_def entries_settled_def image_iff)
  then show ?thesis using kept.keeps_tick unfolding work_keeps_def by blast
qed

text \<open>C18: A poll deletes nothing unread: every object it deletes lies in the mailbox of the device itself,
  and the poll has read it, or its listing gave it as too large to be read.\<close>

theorem poll_deletes_only_fetched:
  assumes "deletes_read (self_id lib nd) [] (nd_ops nd)"
  shows "deletes_read (self_id lib nd) [] (nd_ops (snd (tick lib su now auto_update nd)))"
  using poll_ok_tick[OF assms] by (simp add: poll_ok_def)

text \<open>C17: A queued message is not lost: it leaves the outbox only after it expired, or after its sealed
  envelope was put into the mailbox of its recipient, which had finished the handshake, and the
  store said that it took it.\<close>

theorem queued_message_leaves_when_settled:
  assumes "nd_ops nd = []" "distinct (map fst (hm_outbox (nd_home nd)))" "(name, Queued q) \<in> set (hm_outbox (nd_home nd))"
    and "name \<notin> fst ` set (hm_outbox (nd_home (snd (tick lib su now auto_update nd))))"
  shows "settled lib now (self_id lib nd) (nd_ops (snd (tick lib su now auto_update nd))) q"
  using poll_ok_tick[of lib nd now su auto_update] assms unfolding poll_ok_def entries_settled_def by simp

text \<open>The runs of a poll.\<close>

definition poll_runs :: "peer_lib \<Rightarrow> device_keys \<Rightarrow> int \<Rightarrow> acceptance list \<Rightarrow> (string \<times> outbox_entry) list \<Rightarrow> 's peer_node \<Rightarrow> bool" where
  "poll_runs lib keys now log out nd =
     ((\<exists>log'. runs lib keys (nd_engine nd) now (log' @ log)) \<and> set (hm_outbox (nd_home nd)) \<subseteq> set out)"

lemma runs_received:
  assumes "runs lib keys eg now (log' @ log)"
  shows "\<exists>log'. runs lib keys (snd (receive lib e env now eg)) now (log' @ log)"
proof (cases "receive lib e env now eg")
  case (Pair r eg')
  show ?thesis
  proof (cases r)
    case (Inl err)
    then have "runs lib keys eg' now (log' @ log)" using Pair by (intro runs_reject[OF assms]) simp
    then show ?thesis using Pair by auto
  next
    case (Inr x)
    obtain message out where "x = (message, out)" by (cases x)
    then have "runs lib keys eg' now (((now, env, message) # log') @ log)" using runs_receive[OF assms] Pair Inr by simp
    then show ?thesis using Pair by (metis snd_conv)
  qed
qed

lemma runs_identity: "runs lib keys eg now log \<Longrightarrow> eg_identity eg = keys"
  using runs_ok by (fastforce simp: run_ok_def peers_ok_def)

interpretation runner: poll lib now "poll_runs lib keys now log out" out "id_of lib keys" for lib keys now log out
proof
  fix nd :: "'a peer_node" and e env
  assume "poll_runs lib keys now log out nd"
  then show "poll_runs lib keys now log out (nd\<lparr>nd_engine := snd (receive lib e env now (nd_engine nd))\<rparr>)"
    using runs_received by (auto simp: poll_runs_def)
qed (auto simp: poll_runs_def intro: runs_trust runs_discover runs_send dest: runs_identity)


section \<open>A sample poll\<close>

text \<open>A store with one object in every mailbox, too large to be read, and no devices.\<close>

definition sample_store :: "unit control_store" where
  "sample_store =
     \<lparr>cs_list = (\<lambda>b s. (Inr (if b = ''devices'' then [] else [\<lparr>co_name = ''x.json'', co_size = 65537\<rparr>]), s)),
      cs_get = (\<lambda>b n s. (Inl ''gone'', s)), cs_put = (\<lambda>b n x s. (Inr (), s)), cs_delete = (\<lambda>b n s. (Inr (), s))\<rparr>"

definition sample_surroundings :: "unit surroundings" where
  "sample_surroundings =
     \<lparr>su_store = sample_store, su_random = (\<lambda>n. entropy_of CHR ''7''), su_key = [], su_fetch = (\<lambda>url. None),
      su_grants = \<lparr>gr_lock = True, gr_write = True, gr_save = True\<rparr>,
      su_outbox_readable = True, su_removable = (\<lambda>n. True), su_status_writable = True\<rparr>"


definition sample_node :: "unit peer_node" where
  "sample_node =
     \<lparr>nd_engine = new_engine sample_lib (bytes_of CHR ''1'') keys_a {},
      nd_counters = \<lparr>ct_received = 0, ct_pings = 0, ct_pongs = 0, ct_rejected = 0\<rparr>,
      nd_last_publish = 1000, nd_last_hello = [], nd_attempts = [],
      nd_home = \<lparr>hm_trusted = NoTrust, hm_roots = NoRoots,
        hm_outbox = [(''m.json'', Queued \<lparr>q_to = id_of sample_lib keys_b, q_message = StatusRequest, q_expires = 1000\<rparr>)],
        hm_updates = \<lparr>ud_state = Absent, ud_versions = Map.empty\<rparr>, hm_status = None\<rparr>,
      nd_drawn = 0, nd_ops = [], nd_store = ()\<rparr>"

abbreviation sample_polled :: "unit peer_node" where
  "sample_polled \<equiv> snd (tick sample_lib sample_surroundings 1000 False sample_node)"

lemma mailbox_not_devices: "mailbox i \<noteq> ''devices''"
  by (simp add: mailbox_def)

lemma sample_poll:
  "nd_ops sample_polled =
     [DidList ''devices'' (Inr []), DidList (mailbox (id_of sample_lib keys_a)) (Inr [\<lparr>co_name = ''x.json'', co_size = 65537\<rparr>]),
      DidDelete (mailbox (id_of sample_lib keys_a)) ''x.json'' (Inr ())]"
  "hm_outbox (nd_home sample_polled) = []"
  by (simp_all add: tick_def work_bind_def work_ask_def work_result_def work_return_def work_do_def on_engine_def
      trusted_devices_def set_trust_def publish_def discover_all_def store_list_def store_delete_def process_object_def
      work_attempt_def incoming_def count_up_def send_queued_def remove_entry_def save_status_def peer_ids_def require_def
      sample_node_def sample_surroundings_def sample_store_def new_engine_def mailbox_not_devices MAX_CONTROL_BYTES_def)

lemma poll_deletes_only_fetched_witness:
  "deletes_read (id_of sample_lib keys_a) [] (nd_ops sample_polled) \<and>
   DidDelete (mailbox (id_of sample_lib keys_a)) ''x.json'' (Inr ()) \<in> set (nd_ops sample_polled)"
  using poll_deletes_only_fetched[of sample_lib sample_node sample_surroundings 1000 False]
  by (simp add: self_id_def sample_node_def new_engine_def sample_poll[unfolded sample_node_def new_engine_def])

lemma queued_message_leaves_when_settled_witness:
  "settled sample_lib 1000 (id_of sample_lib keys_a) (nd_ops sample_polled)
     \<lparr>q_to = id_of sample_lib keys_b, q_message = StatusRequest, q_expires = 1000\<rparr>"
proof -
  have "self_id sample_lib sample_node = id_of sample_lib keys_a"
    by (simp add: self_id_def sample_node_def new_engine_def)
  moreover have "nd_ops sample_node = []" "distinct (map fst (hm_outbox (nd_home sample_node)))"
      "(''m.json'', Queued \<lparr>q_to = id_of sample_lib keys_b, q_message = StatusRequest, q_expires = 1000\<rparr>)
         \<in> set (hm_outbox (nd_home sample_node))"
    by (simp_all add: sample_node_def)
  moreover have "''m.json'' \<notin> fst ` set (hm_outbox (nd_home sample_polled))" by (simp add: sample_poll)
  ultimately show ?thesis using queued_message_leaves_when_settled by metis
qed


end
