(* ===== verification/GraphControl.thy ===== *)
theory GraphControl
  imports GraphIndex PeerRuntime
begin

text \<open>
  crates/twodrive-backend/src/onedrive/control.rs: the store of control objects in the application
  folder of OneDrive.  Failures are diagnostics put together from fixed texts.  The client's cache
  of folder ids, and its note that the service cannot delete permanently, lie beside the service in
  its world.  The percent_encoding crate and the bytes of a body are parameters.
\<close>

section \<open>State and diagnostics\<close>

record control_memory =
  cm_folders :: "(string \<times> nat \<times> string) list"
  cm_no_permanent :: bool

type_synonym 'm controlled = "control_memory \<times> 'm"

record 'm control_env =
  ce_web :: "'m controlled web"
  ce_decode :: "string \<Rightarrow> string option"
  ce_content :: "response \<Rightarrow> bytes"

record control_diagnostic =
  cd_operation :: string
  cd_status :: "u16 option"
  cd_code :: string

type_synonym ('m, 'a) cact = "(control_diagnostic, 'm controlled client, 'a) act"

definition diagnostic :: "string \<Rightarrow> u16 option \<Rightarrow> string \<Rightarrow> control_diagnostic" where
  "diagnostic operation status code = \<lparr>cd_operation = operation, cd_status = status, cd_code = code\<rparr>"

definition diagnostic_hint :: "u16 option \<Rightarrow> string" where
  "diagnostic_hint status =
     (if status = Some 401 then ''token-or-audience-relogin''
      else if status = Some 403 then ''permission-or-scope-or-account-policy''
      else if status = Some 429 then ''throttled''
      else ''inspect-operation'')"

definition show_diagnostic :: "control_diagnostic \<Rightarrow> string" where
  "show_diagnostic d =
     ''control operation='' @ cd_operation d @ '' status='' @
       (case cd_status d of None \<Rightarrow> ''none'' | Some s \<Rightarrow> decimal (unat s)) @
     '' code='' @ cd_code d @ '' hint='' @ diagnostic_hint (cd_status d)"

definition safe_diagnostic :: "control_diagnostic fault \<Rightarrow> string" where
  "safe_diagnostic err =
     (case err of
        CloudFault d \<Rightarrow> show_diagnostic d
      | _ \<Rightarrow> ''local-state-protocol-or-unclassified-error (details omitted)'')"

definition memory_of :: "'m controlled client world \<Rightarrow> control_memory" where
  "memory_of w = fst (cl_net (w_cloud w))"

definition memory_do :: "(control_memory \<Rightarrow> control_memory) \<Rightarrow> ('m, unit) cact" where
  "memory_do f w = (Inr (), w\<lparr>w_cloud := (w_cloud w)\<lparr>cl_net := (f (memory_of w), snd (cl_net (w_cloud w)))\<rparr>\<rparr>)"

text \<open>An action of the client, its error replaced.\<close>

definition with_error :: "control_diagnostic fault \<Rightarrow> ('m controlled, 'a) gact \<Rightarrow> ('m, 'a) cact" where
  "with_error e m w = (case m w of (Inl _, w') \<Rightarrow> (Inl e, w') | (Inr a, w') \<Rightarrow> (Inr a, w'))"

definition check_that :: "bool \<Rightarrow> string \<Rightarrow> ('m, unit) cact" where
  "check_that b message = (if b then act_return () else act_fail (Bail message))"

definition check_component :: "string \<Rightarrow> ('m, unit) cact" where
  "check_component value = (case validate_component value of Inl e \<Rightarrow> act_fail (Bail e) | Inr _ \<Rightarrow> act_return ())"

section \<open>Requests\<close>

definition control_body :: "http_method \<Rightarrow> body option \<Rightarrow> request \<Rightarrow> request" where
  "control_body method b req =
     (case b of
        Some content \<Rightarrow>
          req\<lparr>rq_headers := rq_headers req @
                [(''Content-Type'', if method = POST then ''application/json'' else ''application/octet-stream'')],
              rq_body := content\<rparr>
      | None \<Rightarrow> if method = POST then req\<lparr>rq_headers := rq_headers req @ [(''Content-Length'', ''0'')]\<rparr> else req)"

text \<open>The announced length and the bytes read are bounded.\<close>

definition within :: "nat \<Rightarrow> response \<Rightarrow> bool" where
  "within limit r = ((case rs_length r of None \<Rightarrow> True | Some n \<Rightarrow> unat n \<le> limit) \<and> body_within limit r)"

definition safe_graph_code :: "json \<Rightarrow> string" where
  "safe_graph_code v =
     (case Option.bind (json_pointer v [''error'', ''code'']) as_str of
        None \<Rightarrow> ''unrecognized-or-omitted''
      | Some code \<Rightarrow>
          if code = ''invalidRequest'' \<and> Option.bind (json_pointer v [''error'', ''message'']) as_str = Some ''API not found''
          then ''apiNotFound''
          else if code \<in> {''accessDenied'', ''InvalidAuthenticationToken'', ''invalidRequest'', ''itemNotFound'', ''notSupported'',
                    ''nameAlreadyExists'', ''activityLimitReached'', ''quotaLimitReached'', ''generalException''}
          then code else ''unrecognized-or-omitted'')"

definition refusal_code :: "response \<Rightarrow> string" where
  "refusal_code r =
     safe_graph_code (if within MAX_CONTROL_BYTES r then case rs_json r of None \<Rightarrow> JNull | Some v \<Rightarrow> v else JNull)"

fun transport_code :: "transport_kind \<Rightarrow> string" where
  "transport_code Timeout = ''timeout''"
| "transport_code Connect = ''connect-or-tls''"
| "transport_code Redirect = ''redirect''"
| "transport_code OtherTransport = ''transport''"

fun control_attempts ::
    "'m control_env \<Rightarrow> string \<Rightarrow> request \<Rightarrow> u16 list \<Rightarrow> nat list \<Rightarrow> ('m, response) cact" where
  "control_attempts env operation req allowed [] = act_fail (Bail ''unreachable'')"
| "control_attempts env operation req allowed (k # ks) =
     act_bind (with_error (Bail []) (exchange (ce_web env) req)) (\<lambda>answer.
       case answer of
         Inl kind \<Rightarrow> act_fail (CloudFault (diagnostic operation None (transport_code kind)))
       | Inr r \<Rightarrow>
           if is_success r \<or> rs_status r \<in> set allowed then act_return r
           else
             at_now (\<lambda>now.
               if k < 3 \<and> (rs_status r = 429 \<or> 500 \<le> rs_status r) then
                 act_bind (with_error (Bail []) (sleep (ce_web env) (retry_after_delay (ce_web env) now r k))) (\<lambda>_.
                   control_attempts env operation req allowed ks)
               else act_fail (CloudFault (diagnostic operation (Some (rs_status r)) (refusal_code r)))))"

definition control_request ::
    "'m control_env \<Rightarrow> string \<Rightarrow> http_method \<Rightarrow> string \<Rightarrow> body option \<Rightarrow> u16 list \<Rightarrow> ('m, response) cact" where
  "control_request env operation method url b allowed =
     act_bind (with_error (CloudFault (diagnostic operation None ''token-acquisition-or-refresh'')) (access_token (ce_web env))) (\<lambda>token.
       control_attempts env operation (control_body method b (graph_request method url token)) allowed [1, 2, 3])"

definition control_json :: "(json \<Rightarrow> 'a option) \<Rightarrow> response \<Rightarrow> string \<Rightarrow> nat \<Rightarrow> ('m, 'a) cact" where
  "control_json decode r operation limit =
     (if \<not> within limit r then act_fail (CloudFault (diagnostic operation (Some (rs_status r)) ''response-read-or-size''))
      else
        (case Option.bind (rs_json r) decode of
           None \<Rightarrow> act_fail (CloudFault (diagnostic operation (Some (rs_status r)) ''response-schema''))
         | Some x \<Rightarrow> act_return x))"

section \<open>Items\<close>

record control_item =
  it_id :: string
  it_name :: string
  it_size :: u64
  it_folder :: "json option"

record control_page =
  cp_value :: "control_item list"
  cp_next :: "string option"

definition item_of_json :: "json \<Rightarrow> control_item option" where
  "item_of_json v =
     Option.bind (struct_members [''id'', ''name'', ''size'', ''folder''] 4 v) (\<lambda>m.
     Option.bind (string_member m ''id'') (\<lambda>i.
     Option.bind (string_member m ''name'') (\<lambda>name.
     Option.bind (case map_of m ''size'' of None \<Rightarrow> Some 0 | Some n \<Rightarrow> as_u64 n) (\<lambda>size.
     Option.bind (optional_member Some m ''folder'') (\<lambda>folder.
       Some \<lparr>it_id = i, it_name = name, it_size = size, it_folder = folder\<rparr>)))))"

definition page_of_json :: "json \<Rightarrow> control_page option" where
  "page_of_json v =
     Option.bind (struct_members [''value'', ''@odata.nextLink''] 2 v) (\<lambda>m.
     Option.bind (Option.bind (map_of m ''value'') as_array) (\<lambda>values.
     Option.bind (read_all item_of_json values) (\<lambda>items.
     Option.bind (optional_member as_str m ''@odata.nextLink'') (\<lambda>link.
       Some \<lparr>cp_value = items, cp_next = link\<rparr>))))"

definition drive_of_json :: "json \<Rightarrow> string option" where
  "drive_of_json v = Option.bind (struct_members [''id''] 1 v) (\<lambda>m. string_member m ''id'')"

definition ROOT :: string where
  "ROOT = ''peer-control-v1''"

text \<open>The id of a folder, which is created where it is missing.\<close>

definition control_folder :: "'m control_env \<Rightarrow> string \<Rightarrow> string \<Rightarrow> ('m, string) cact" where
  "control_folder env parent name =
     (let lookup = (if name = ROOT then ''namespace.lookup'' else ''bucket.lookup'');
          create_op = (if name = ROOT then ''namespace.create'' else ''bucket.create'');
          base = graph_root @ ''/me/drive/items/'' @ percent_encode_path_segment parent;
          url = base @ '':/'' @ name in
      act_bind (check_component name) (\<lambda>_.
      act_bind (control_request env lookup GET url None [404]) (\<lambda>r.
      act_bind
        (if rs_status r \<noteq> 404 then control_json item_of_json r lookup MAX_CONTROL_BYTES
         else
           act_bind (control_request env create_op POST (base @ ''/children'')
               (Some (JsonBody (JObject [(''name'', JString name), (''folder'', JObject []),
                                         (''@microsoft.graph.conflictBehavior'', JString ''fail'')]))) [409]) (\<lambda>made.
             if rs_status made = 409 then
               act_bind (control_request env lookup GET url None []) (\<lambda>again.
                 control_json item_of_json again lookup MAX_CONTROL_BYTES)
             else control_json item_of_json made create_op MAX_CONTROL_BYTES)) (\<lambda>found.
      act_bind (check_that (it_folder found \<noteq> None) ''control namespace is not a folder'') (\<lambda>_.
        act_return (it_id found))))))"

definition fresh :: "nat \<Rightarrow> string \<times> nat \<times> string \<Rightarrow> bool" where
  "fresh instant entry = (case entry of (_, at, _) \<Rightarrow> instant - at < 60000)"

definition cached_folder :: "string \<Rightarrow> 'm controlled client world \<Rightarrow> string option" where
  "cached_folder bucket w =
     (case map_of (cm_folders (memory_of w)) bucket of
        None \<Rightarrow> None
      | Some (at, i) \<Rightarrow> if fresh (cl_instant (w_cloud w)) (bucket, at, i) then Some i else None)"

definition forget_folders :: "nat \<Rightarrow> control_memory \<Rightarrow> control_memory" where
  "forget_folders instant mem = mem\<lparr>cm_folders := filter (fresh instant) (cm_folders mem)\<rparr>"

definition remember_folder :: "string \<Rightarrow> nat \<Rightarrow> string \<Rightarrow> control_memory \<Rightarrow> control_memory" where
  "remember_folder bucket instant i mem = mem\<lparr>cm_folders := AList.update bucket (instant, i) (cm_folders mem)\<rparr>"

definition control_bucket :: "'m control_env \<Rightarrow> string \<Rightarrow> ('m, string) cact" where
  "control_bucket env bucket =
     act_bind (check_component bucket) (\<lambda>_.
     act_bind (read_world (cached_folder bucket)) (\<lambda>known.
       case known of
         Some i \<Rightarrow> act_return i
       | None \<Rightarrow>
           act_bind (control_request env ''approot.resolve-or-create'' GET (graph_root @ ''/me/drive/special/approot'') None []) (\<lambda>r.
           act_bind (control_json item_of_json r ''approot.decode'' MAX_CONTROL_BYTES) (\<lambda>root.
           act_bind (check_that (it_folder root \<noteq> None) ''app root is not a folder'') (\<lambda>_.
           act_bind (control_folder env (it_id root) ROOT) (\<lambda>namespace.
           act_bind (control_folder env namespace bucket) (\<lambda>i.
           act_bind (read_world (\<lambda>w. cl_instant (w_cloud w))) (\<lambda>instant.
           act_bind (memory_do (forget_folders instant)) (\<lambda>_.
           act_bind (read_world (\<lambda>w. length (cm_folders (memory_of w)))) (\<lambda>n.
           act_bind (check_that (n < 128) ''control bucket cache full'') (\<lambda>_.
           act_bind (memory_do (remember_folder bucket instant i)) (\<lambda>_. act_return i))))))))))))"

section \<open>The operations of the store\<close>

definition decoded_segments :: "'m control_env \<Rightarrow> string \<Rightarrow> string list option" where
  "decoded_segments env path = read_all (ce_decode env) (split_on (CHR ''/'') path)"

definition validate_next :: "'m control_env \<Rightarrow> string \<Rightarrow> string \<Rightarrow> ('m, unit) cact" where
  "validate_next env link expected_path =
     (case parse_url (ce_web env) link of
        None \<Rightarrow> act_fail (Bail ''url'')
      | Some u \<Rightarrow>
          if url_scheme u = ''https'' \<and> url_host u = Some ''graph.microsoft.com'' \<and> url_port u = Some 443 \<and>
             url_username u = [] \<and> url_password u = None \<and> url_fragment u = None
          then
            (case (decoded_segments env (url_path u), decoded_segments env expected_path) of
               (Some a, Some b) \<Rightarrow> check_that (a = b) ''unsafe Graph pagination URL''
             | _ \<Rightarrow> act_fail (Bail ''utf-8''))
          else act_fail (Bail ''unsafe Graph pagination URL''))"

text \<open>The items of a page after those before it: folders and other names are left out.\<close>

fun add_items :: "control_object list \<Rightarrow> control_item list \<Rightarrow> ('m, control_object list) cact" where
  "add_items out [] = act_return out"
| "add_items out (it # its) =
     act_bind (check_that (length out < MAX_CONTROL_OBJECTS) ''control mailbox full; manual cleanup required'') (\<lambda>_.
       add_items (if it_folder it = None \<and> validate_component (it_name it) = Inr ()
                  then out @ [\<lparr>co_name = it_name it, co_size = it_size it\<rparr>] else out) its)"

fun list_pages ::
    "'m control_env \<Rightarrow> string \<Rightarrow> nat \<Rightarrow> string \<Rightarrow> control_object list \<Rightarrow> ('m, control_object list) cact" where
  "list_pages env path 0 url out = act_fail (Bail ''control pagination limit reached'')"
| "list_pages env path (Suc n) url out =
     act_bind (validate_next env url path) (\<lambda>_.
     act_bind (control_request env ''list'' GET url None []) (\<lambda>r.
     act_bind (control_json page_of_json r ''list.decode'' (256 * 1024)) (\<lambda>page.
     act_bind (add_items out (cp_value page)) (\<lambda>more.
       case cp_next page of
         None \<Rightarrow> act_return more
       | Some link \<Rightarrow> list_pages env path n link more))))"

definition control_list :: "'m control_env \<Rightarrow> string \<Rightarrow> ('m, control_object list) cact" where
  "control_list env bucket =
     act_bind (control_bucket env bucket) (\<lambda>folder.
       let path = ''/v1.0/me/drive/items/'' @ percent_encode_path_segment folder @ ''/children'' in
       list_pages env path 8 (''https://graph.microsoft.com'' @ path @ ''?$select=id,name,size,folder&$top=200'') [])"

definition object_url :: "string \<Rightarrow> string \<Rightarrow> string" where
  "object_url folder name = graph_root @ ''/me/drive/items/'' @ percent_encode_path_segment folder @ '':/'' @ name"

definition control_get :: "'m control_env \<Rightarrow> string \<Rightarrow> string \<Rightarrow> ('m, bytes) cact" where
  "control_get env bucket name =
     act_bind (check_component name) (\<lambda>_.
     act_bind (control_bucket env bucket) (\<lambda>folder.
     act_bind (control_request env ''get.content'' GET (object_url folder name @ '':/content'') None []) (\<lambda>r.
       if within MAX_CONTROL_BYTES r then act_return (ce_content env r)
       else act_fail (CloudFault (diagnostic ''get.content'' None ''response-read-or-size'')))))"

definition control_put :: "'m control_env \<Rightarrow> string \<Rightarrow> string \<Rightarrow> bytes \<Rightarrow> ('m, unit) cact" where
  "control_put env bucket name content =
     act_bind (check_component name) (\<lambda>_.
     act_bind (check_that (length content \<le> MAX_CONTROL_BYTES) ''control message too large'') (\<lambda>_.
     act_bind (control_list env bucket) (\<lambda>items.
     act_bind (check_that (length items < MAX_CONTROL_OBJECTS \<or> list_ex (\<lambda>o'. co_name o' = name) items)
                ''control mailbox full'') (\<lambda>_.
     act_bind (control_bucket env bucket) (\<lambda>folder.
     act_bind (control_request env ''put'' PUT (object_url folder name @ '':/content'') (Some (Bytes (length content))) []) (\<lambda>_.
       act_return ()))))))"

definition permanent_delete_url :: "string \<Rightarrow> string \<Rightarrow> string" where
  "permanent_delete_url drive_id it =
     graph_root @ ''/drives/'' @ percent_encode_path_segment drive_id @ ''/items/'' @ percent_encode_path_segment it @
     ''/permanentDelete''"

definition permanent_delete_unavailable :: "control_diagnostic fault \<Rightarrow> bool" where
  "permanent_delete_unavailable err =
     (case err of
        CloudFault d \<Rightarrow> cd_operation d = ''delete.permanent'' \<and> cd_status d = Some 400 \<and> cd_code d = ''apiNotFound''
      | _ \<Rightarrow> False)"

definition recycle_object :: "'m control_env \<Rightarrow> string \<Rightarrow> string \<Rightarrow> ('m, unit) cact" where
  "recycle_object env drive_id it =
     act_bind (control_request env ''delete.recycle'' DELETE
         (graph_root @ ''/drives/'' @ percent_encode_path_segment drive_id @ ''/items/'' @ percent_encode_path_segment it) None [404]) (\<lambda>_.
       act_return ())"

definition remove_object :: "'m control_env \<Rightarrow> string \<Rightarrow> string \<Rightarrow> ('m, unit) cact" where
  "remove_object env drive_id it =
     act_bind (read_world (\<lambda>w. cm_no_permanent (memory_of w))) (\<lambda>unavailable.
       if unavailable then recycle_object env drive_id it
       else
         act_bind (attempt (control_request env ''delete.permanent'' POST (permanent_delete_url drive_id it) None [404])) (\<lambda>answer.
           case answer of
             Inr _ \<Rightarrow> act_return ()
           | Inl err \<Rightarrow>
               if permanent_delete_unavailable err
               then act_bind (memory_do (\<lambda>mem. mem\<lparr>cm_no_permanent := True\<rparr>)) (\<lambda>_. recycle_object env drive_id it)
               else act_fail err))"

definition control_delete :: "'m control_env \<Rightarrow> string \<Rightarrow> string \<Rightarrow> ('m, unit) cact" where
  "control_delete env bucket name =
     act_bind (check_component name) (\<lambda>_.
     act_bind (control_bucket env bucket) (\<lambda>folder.
     act_bind (control_request env ''delete.lookup'' GET (object_url folder name) None [404]) (\<lambda>r.
       if rs_status r = 404 then act_return ()
       else
         act_bind (control_json item_of_json r ''delete.lookup.decode'' MAX_CONTROL_BYTES) (\<lambda>it.
         act_bind (control_request env ''delete.drive'' GET (graph_root @ ''/me/drive?$select=id'') None []) (\<lambda>d.
         act_bind (control_json drive_of_json d ''delete.drive.decode'' MAX_CONTROL_BYTES) (\<lambda>drive_id.
           remove_object env drive_id (it_id it)))))))"

text \<open>The probe of peer doctor: the object it made is deleted even when it cannot be read.\<close>

definition probe_bytes :: bytes where
  "probe_bytes = [CHR ''{'', CHR 0x22] @ ''twodrive_peer_probe'' @ [CHR 0x22] @ '':1}''"

definition control_doctor :: "'m control_env \<Rightarrow> string \<Rightarrow> ('m, unit) cact" where
  "control_doctor env random =
     (let name = ''probe-'' @ to_ascii_lowercase random @ ''.json''; bucket = ''diagnostics'' in
      act_bind (control_put env bucket name probe_bytes) (\<lambda>_.
      act_bind (attempt (control_get env bucket name)) (\<lambda>got.
      act_bind (attempt (control_delete env bucket name)) (\<lambda>cleanup.
      act_bind (case got of Inl e \<Rightarrow> act_fail e | Inr b \<Rightarrow> act_return b) (\<lambda>content.
      act_bind (check_that (content = probe_bytes) ''probe content mismatch'') (\<lambda>_.
      act_bind (case cleanup of Inl e \<Rightarrow> act_fail e | Inr _ \<Rightarrow> act_return ()) (\<lambda>_.
      act_bind (control_list env bucket) (\<lambda>items.
        check_that (\<not> list_ex (\<lambda>o'. co_name o' = name) items) ''probe deletion not visible''))))))))"

text \<open>The store the worker runs on; an error reaches it as its safe text.\<close>

definition store_result :: "(control_diagnostic fault + 'a) \<times> 'w \<Rightarrow> (string + 'a) \<times> 'w" where
  "store_result r = (case r of (Inl e, w) \<Rightarrow> (Inl (safe_diagnostic e), w) | (Inr a, w) \<Rightarrow> (Inr a, w))"

definition graph_store :: "'m control_env \<Rightarrow> 'm controlled client world control_store" where
  "graph_store env =
     \<lparr>cs_list = (\<lambda>b w. store_result (control_list env b w)),
      cs_get = (\<lambda>b n w. store_result (control_get env b n w)),
      cs_put = (\<lambda>b n content w. store_result (control_put env b n content w)),
      cs_delete = (\<lambda>b n w. store_result (control_delete env b n w))\<rparr>"

section \<open>Bounds\<close>

definition acceptable :: "control_object list \<Rightarrow> bool" where
  "acceptable out =
     (length out \<le> MAX_CONTROL_OBJECTS \<and> List.list_all (\<lambda>o'. validate_component (co_name o') = Inr ()) out)"

lemma yields_check: "(b \<Longrightarrow> yields R m) \<Longrightarrow> yields R (act_bind (check_that b message) (\<lambda>_. m))"
  by (simp add: check_that_def yields_fail)

lemma yields_add_items: "acceptable out \<Longrightarrow> yields acceptable (add_items out its)"
proof (induction its arbitrary: out)
  case (Cons it its)
  have "acceptable (out @ [o'])"
    if "length out < MAX_CONTROL_OBJECTS" "validate_component (co_name o') = Inr ()" for o' :: control_object
    using Cons.prems that by (simp add: acceptable_def)
  then show ?case
    unfolding add_items.simps using Cons by (intro yields_check Cons.IH) simp
qed (simp add: yields_return)

lemma yields_list_pages: "acceptable out \<Longrightarrow> yields acceptable (list_pages env path n url out)"
proof (induction n arbitrary: url out)
  case (Suc n)
  show ?case
    unfolding list_pages.simps
    by (intro yields_bind yields_bind2[OF yields_add_items[OF Suc.prems]])
       (auto split: option.split intro: yields_return Suc.IH)
qed (simp add: yields_fail)

lemma yields_control_list: "yields acceptable (control_list env bucket)"
  unfolding control_list_def Let_def
  by (intro yields_bind yields_list_pages) (simp add: acceptable_def MAX_CONTROL_OBJECTS_def)

lemma yields_control_get:
  assumes "\<And>r. length (ce_content env r) = sum_list (rs_chunks r)"
  shows "yields (\<lambda>b. length b \<le> MAX_CONTROL_BYTES) (control_get env bucket name)"
  unfolding control_get_def
  by (intro yields_bind) (auto simp: yields_return yields_fail within_def body_within_def assms)

text \<open>C31: What the store gives the worker is bounded, whatever the cloud holds: a listing has at most 512
  objects, each with a name of the protocol's alphabet, and an object that is read has at most 32 KiB.\<close>

theorem control_answers_are_bounded:
  assumes "\<And>r. length (ce_content env r) = sum_list (rs_chunks r)"
  shows "(case fst (cs_list (graph_store env) bucket w) of
      Inl _ \<Rightarrow> True
    | Inr objs \<Rightarrow> length objs \<le> 512 \<and> List.list_all (\<lambda>o'. validate_component (co_name o') = Inr ()) objs) \<and>
    (case fst (cs_get (graph_store env) bucket name w) of Inl _ \<Rightarrow> True | Inr b \<Rightarrow> length b \<le> 32768)"
proof -
  obtain r w1 where list: "control_list env bucket w = (r, w1)" by (cases "control_list env bucket w")
  obtain r' w2 where got: "control_get env bucket name w = (r', w2)" by (cases "control_get env bucket name w")
  have "case r of Inl _ \<Rightarrow> True | Inr objs \<Rightarrow> acceptable objs"
    using yieldsD[OF yields_control_list] list by (cases r) auto
  moreover have "case r' of Inl _ \<Rightarrow> True | Inr b \<Rightarrow> length b \<le> MAX_CONTROL_BYTES"
    using yieldsD[OF yields_control_get[OF assms]] got by (cases r') auto
  ultimately show ?thesis
    using list got
    by (cases r; cases r') (simp_all add: graph_store_def store_result_def acceptable_def MAX_CONTROL_OBJECTS_def MAX_CONTROL_BYTES_def)
qed

section \<open>What errors say\<close>

definition control_operations :: "string list" where
  "control_operations =
     [''namespace.lookup'', ''bucket.lookup'', ''namespace.create'', ''bucket.create'', ''approot.resolve-or-create'',
      ''approot.decode'', ''list'', ''list.decode'', ''get.content'', ''put'', ''delete.lookup'', ''delete.lookup.decode'',
      ''delete.drive'', ''delete.drive.decode'', ''delete.permanent'', ''delete.recycle'']"

definition control_codes :: "string list" where
  "control_codes =
     [''token-acquisition-or-refresh'', ''timeout'', ''connect-or-tls'', ''redirect'', ''transport'',
      ''response-read-or-size'', ''response-schema'', ''apiNotFound'', ''accessDenied'', ''InvalidAuthenticationToken'',
      ''invalidRequest'', ''itemNotFound'', ''notSupported'', ''nameAlreadyExists'', ''activityLimitReached'',
      ''quotaLimitReached'', ''generalException'', ''unrecognized-or-omitted'']"

definition safe_fault :: "control_diagnostic fault \<Rightarrow> bool" where
  "safe_fault err =
     (case err of CloudFault d \<Rightarrow> cd_operation d \<in> set control_operations \<and> cd_code d \<in> set control_codes | _ \<Rightarrow> True)"

definition fails_safely :: "('m, 'a) cact \<Rightarrow> bool" where
  "fails_safely m = (\<forall>w e w'. m w = (Inl e, w') \<longrightarrow> safe_fault e)"

named_theorems safe_intros \<open>actions whose errors say nothing of the cloud\<close>

lemma fails_return [safe_intros]: "fails_safely (act_return a)"
  by (simp add: fails_safely_def act_return_def)

lemma fails_fail: "safe_fault e \<Longrightarrow> fails_safely (act_fail e)"
  by (simp add: fails_safely_def act_fail_def)

lemma fails_bail [safe_intros]: "fails_safely (act_fail (Bail message))"
  by (rule fails_fail) (simp add: safe_fault_def)

lemma fails_diagnostic:
  "operation \<in> set control_operations \<Longrightarrow> code \<in> set control_codes \<Longrightarrow>
   fails_safely (act_fail (CloudFault (diagnostic operation status code)))"
  by (rule fails_fail) (simp add: safe_fault_def diagnostic_def)

lemma fails_bind [safe_intros]: "fails_safely m \<Longrightarrow> (\<And>a. fails_safely (k a)) \<Longrightarrow> fails_safely (act_bind m k)"
  by (auto simp: fails_safely_def act_bind_def split: prod.splits sum.splits)

lemma fails_basic [safe_intros]:
  "fails_safely (read_world f)" "fails_safely (memory_do g)" "fails_safely (check_that b message)" "fails_safely (check_component value)"
  by (auto simp: fails_safely_def read_world_def memory_do_def check_that_def check_component_def act_return_def act_fail_def
        safe_fault_def split: sum.splits if_splits)

lemma fails_with_error: "safe_fault e \<Longrightarrow> fails_safely (with_error e m)"
  by (auto simp: fails_safely_def with_error_def split: prod.splits sum.splits)

lemma fails_bailing [safe_intros]: "fails_safely (with_error (Bail message) m)"
  by (rule fails_with_error) (simp add: safe_fault_def)

lemma fails_attempt [safe_intros]: "fails_safely (attempt m)"
  by (auto simp: fails_safely_def attempt_def split: prod.splits)

lemma fails_now [safe_intros]: "(\<And>n. fails_safely (f n)) \<Longrightarrow> fails_safely (at_now f)"
  by (simp add: fails_safely_def at_now_def)

lemma fails_cases [safe_intros]:
  "fails_safely m \<Longrightarrow> fails_safely n \<Longrightarrow> fails_safely (if b then m else n)"
  "fails_safely m \<Longrightarrow> (\<And>x. fails_safely (f x)) \<Longrightarrow> fails_safely (case v of None \<Rightarrow> m | Some x \<Rightarrow> f x)"
  by (simp, cases v, simp_all)

lemma refusal_codes: "refusal_code r \<in> set control_codes"
  by (auto simp: refusal_code_def safe_graph_code_def control_codes_def split: option.split)

lemma transport_codes: "transport_code k \<in> set control_codes"
  by (cases k) (simp_all add: control_codes_def)

lemma fails_attempts: "operation \<in> set control_operations \<Longrightarrow> fails_safely (control_attempts env operation req allowed ks)"
proof (induction ks)
  case (Cons k ks)
  then have again: "fails_safely (control_attempts env operation req allowed ks)" by blast
  show ?case
    unfolding control_attempts.simps
    by (rule fails_bind[OF fails_bailing], rename_tac answer, case_tac answer)
       (auto intro!: safe_intros again fails_diagnostic Cons.prems transport_codes refusal_codes)
qed (simp add: safe_intros)

lemma fails_request: "operation \<in> set control_operations \<Longrightarrow> fails_safely (control_request env operation method url b allowed)"
  unfolding control_request_def
  by (intro fails_bind fails_with_error fails_attempts) (simp_all add: safe_fault_def diagnostic_def control_codes_def)

lemma fails_json: "operation \<in> set control_operations \<Longrightarrow> fails_safely (control_json decode r operation limit)"
  unfolding control_json_def by (intro safe_intros fails_diagnostic) (simp_all add: control_codes_def)

lemma operations_known [simp]:
  "''namespace.lookup'' \<in> set control_operations" "''bucket.lookup'' \<in> set control_operations"
  "''namespace.create'' \<in> set control_operations" "''bucket.create'' \<in> set control_operations"
  "''approot.resolve-or-create'' \<in> set control_operations" "''approot.decode'' \<in> set control_operations"
  "''list'' \<in> set control_operations" "''list.decode'' \<in> set control_operations" "''get.content'' \<in> set control_operations"
  "''put'' \<in> set control_operations" "''delete.lookup'' \<in> set control_operations"
  "''delete.lookup.decode'' \<in> set control_operations" "''delete.drive'' \<in> set control_operations"
  "''delete.drive.decode'' \<in> set control_operations" "''delete.permanent'' \<in> set control_operations"
  "''delete.recycle'' \<in> set control_operations"
  by (simp_all add: control_operations_def)

lemma fails_folder: "fails_safely (control_folder env parent name)"
  unfolding control_folder_def Let_def by (intro safe_intros fails_request fails_json) simp_all

lemma fails_bucket: "fails_safely (control_bucket env bucket)"
  unfolding control_bucket_def by (intro safe_intros fails_request fails_json fails_folder) simp_all

lemma fails_validate: "fails_safely (validate_next env link path)"
  by (auto simp: validate_next_def intro!: safe_intros split: option.split)

lemma fails_add_items: "fails_safely (add_items out its)"
  by (induction its arbitrary: out) (simp_all add: safe_intros)

lemma fails_pages: "fails_safely (list_pages env path n url out)"
  by (induction n arbitrary: url out)
     (simp_all only: list_pages.simps, intro safe_intros, intro safe_intros fails_validate fails_request fails_json fails_add_items,
      simp_all)

lemma fails_list: "fails_safely (control_list env bucket)"
  unfolding control_list_def Let_def by (intro safe_intros fails_bucket fails_pages)

lemma fails_attempt_bind:
  assumes "fails_safely m" "\<And>e. safe_fault e \<Longrightarrow> fails_safely (k (Inl e))" "\<And>a. fails_safely (k (Inr a))"
  shows "fails_safely (act_bind (attempt m) k)"
  unfolding fails_safely_def
proof (intro allI impI)
  fix w e w'
  assume run: "act_bind (attempt m) k w = (Inl e, w')"
  obtain r v where m: "m w = (r, v)" by (cases "m w")
  have "r = Inl err \<Longrightarrow> safe_fault err" for err using assms(1) m unfolding fails_safely_def by blast
  then have "fails_safely (k r)" using assms(2,3) by (cases r) simp_all
  moreover have "k r v = (Inl e, w')" using run m by (simp add: act_bind_def attempt_def)
  ultimately show "safe_fault e" unfolding fails_safely_def by blast
qed

lemma fails_get: "fails_safely (control_get env bucket name)"
  unfolding control_get_def
  by (intro safe_intros fails_bucket fails_request fails_diagnostic) (simp_all add: control_codes_def)

lemma fails_put: "fails_safely (control_put env bucket name content)"
  unfolding control_put_def by (intro safe_intros fails_bucket fails_list fails_request) simp

lemma fails_remove: "fails_safely (remove_object env drive_id it)"
proof -
  have recycle: "fails_safely (recycle_object env drive_id it)"
    unfolding recycle_object_def by (intro safe_intros fails_request) simp
  have "fails_safely (act_bind (attempt (control_request env ''delete.permanent'' POST (permanent_delete_url drive_id it) None [404]))
      (\<lambda>answer. case answer of Inr _ \<Rightarrow> act_return ()
         | Inl err \<Rightarrow>
             if permanent_delete_unavailable err
             then act_bind (memory_do (\<lambda>mem. mem\<lparr>cm_no_permanent := True\<rparr>)) (\<lambda>_. recycle_object env drive_id it)
             else act_fail err))"
    by (rule fails_attempt_bind) (auto intro!: fails_request safe_intros recycle fails_fail)
  then show ?thesis
    unfolding remove_object_def
    by (intro fails_bind[OF fails_basic(1)] fails_cases(1)[OF recycle])
qed

lemma fails_delete: "fails_safely (control_delete env bucket name)"
  unfolding control_delete_def by (intro safe_intros fails_bucket fails_request fails_json fails_remove) simp_all

lemma fails_doctor: "fails_safely (control_doctor env random)"
  unfolding control_doctor_def Let_def
proof (rule fails_bind[OF fails_put], rule fails_attempt_bind[OF fails_get])
  fix e assume "safe_fault e"
  then show "fails_safely (act_bind (attempt (control_delete env ''diagnostics'' (''probe-'' @ to_ascii_lowercase random @ ''.json'')))
      (\<lambda>cleanup. act_bind (case Inl e of Inl e \<Rightarrow> act_fail e | Inr b \<Rightarrow> act_return b) (\<lambda>content.
        act_bind (check_that (content = probe_bytes) ''probe content mismatch'') (\<lambda>_.
        act_bind (case cleanup of Inl e \<Rightarrow> act_fail e | Inr _ \<Rightarrow> act_return ()) (\<lambda>_.
        act_bind (control_list env ''diagnostics'') (\<lambda>items.
          check_that (\<not> list_ex (\<lambda>o'. co_name o' = ''probe-'' @ to_ascii_lowercase random @ ''.json'') items)
            ''probe deletion not visible''))))))"
    by (intro fails_attempt_bind[OF fails_delete]) (simp_all add: fails_fail)
next
  fix b :: bytes
  show "fails_safely (act_bind (attempt (control_delete env ''diagnostics'' (''probe-'' @ to_ascii_lowercase random @ ''.json'')))
      (\<lambda>cleanup. act_bind (case Inr b of Inl e \<Rightarrow> act_fail e | Inr b \<Rightarrow> act_return b) (\<lambda>content.
        act_bind (check_that (content = probe_bytes) ''probe content mismatch'') (\<lambda>_.
        act_bind (case cleanup of Inl e \<Rightarrow> act_fail e | Inr _ \<Rightarrow> act_return ()) (\<lambda>_.
        act_bind (control_list env ''diagnostics'') (\<lambda>items.
          check_that (\<not> list_ex (\<lambda>o'. co_name o' = ''probe-'' @ to_ascii_lowercase random @ ''.json'') items)
            ''probe deletion not visible''))))))"
    by (rule fails_attempt_bind[OF fails_delete]) (auto intro!: fails_bind safe_intros fails_list fails_fail)
qed

definition reveals_nothing :: "string \<Rightarrow> bool" where
  "reveals_nothing t =
     (t = ''local-state-protocol-or-unclassified-error (details omitted)'' \<or>
      (\<exists>operation \<in> set control_operations. \<exists>code \<in> set control_codes. \<exists>status.
         t = show_diagnostic (diagnostic operation status code)))"

lemma safe_text: "safe_fault e \<Longrightarrow> reveals_nothing (safe_diagnostic e)"
proof (cases e)
  case (CloudFault d)
  assume "safe_fault e"
  then have "cd_operation d \<in> set control_operations" "cd_code d \<in> set control_codes"
    using CloudFault by (simp_all add: safe_fault_def)
  moreover have "d = diagnostic (cd_operation d) (cd_status d) (cd_code d)" by (simp add: diagnostic_def)
  ultimately have "reveals_nothing (show_diagnostic d)" unfolding reveals_nothing_def by metis
  then show ?thesis using CloudFault by (simp add: safe_diagnostic_def)
qed (simp_all add: reveals_nothing_def safe_diagnostic_def)

lemma store_safe: "fails_safely m \<Longrightarrow> fst (store_result (m w)) = Inl t \<Longrightarrow> reveals_nothing t"
  by (auto simp: fails_safely_def store_result_def dest: safe_text split: prod.splits sum.splits)

text \<open>What the peer's log may show of a failed request is put together from fixed texts and the
  number of the status: no token, address, name, body or error text of the cloud is in it.\<close>

lemma control_errors_reveal_nothing:
  assumes "fst (cs_list (graph_store env) bucket w) = Inl t \<or> fst (cs_get (graph_store env) bucket name w) = Inl t \<or>
    fst (cs_put (graph_store env) bucket name content w) = Inl t \<or> fst (cs_delete (graph_store env) bucket name w) = Inl t \<or>
    fst (store_result (control_doctor env random w)) = Inl t"
  shows "reveals_nothing t"
  using assms store_safe[OF fails_list] store_safe[OF fails_get] store_safe[OF fails_put] store_safe[OF fails_delete]
    store_safe[OF fails_doctor]
  by (auto simp: graph_store_def)

section \<open>Where the token goes\<close>

definition graph_page :: "'n web \<Rightarrow> string \<Rightarrow> bool" where
  "graph_page web link =
     (case parse_url web link of
        None \<Rightarrow> False
      | Some u \<Rightarrow> url_scheme u = ''https'' \<and> url_host u = Some ''graph.microsoft.com'' \<and> url_port u = Some 443 \<and>
          url_username u = [] \<and> url_password u = None)"

text \<open>An invariant of the client that its notes of folders do not matter for, and that requests to Graph
  keep; one that knows the requests which delete is kept by everything else.\<close>

locale control_steps = web_steps "ce_web env" P R
  for env :: "'m control_env" and P :: "'m controlled client world \<Rightarrow> bool" and R :: "request \<Rightarrow> transport_kind + response \<Rightarrow> bool" +
  assumes memory_frame: "P w \<Longrightarrow> cm_no_permanent mem = cm_no_permanent (memory_of w) \<Longrightarrow>
      P (w\<lparr>w_cloud := (w_cloud w)\<lparr>cl_net := (mem, snd (cl_net (w_cloud w)))\<rparr>\<rparr>)"
    and graph_noted: "rq_method req \<noteq> DELETE \<Longrightarrow> to_graph (rq_url req) \<or> graph_page (ce_web env) (rq_url req) \<Longrightarrow> R req answer"
begin

lemma keeps_with_error: "act_keeps P m \<Longrightarrow> act_keeps P (with_error e m)"
  by (simp add: act_keeps_def with_error_def split: prod.split sum.split) (metis snd_conv)

lemma keeps_memory: "(\<And>mem. cm_no_permanent (f mem) = cm_no_permanent mem) \<Longrightarrow> act_keeps P (memory_do f)"
  by (simp add: act_keeps_def memory_do_def memory_frame)

lemma keeps_check: "act_keeps P (check_that b message)" "act_keeps P (check_component value)"
  by (simp_all add: check_that_def check_component_def keeps_intros)

lemma keeps_pause: "act_keeps P (sleep (ce_web env) delay)"
  by (simp add: act_keeps_def sleep_def pause_keeps)

lemma keeps_noted_attempts:
  assumes "\<And>answer. R req answer"
  shows "act_keeps P (control_attempts env operation req allowed ks)"
proof (induction ks)
  case (Cons k ks)
  show ?case
    unfolding control_attempts.simps
    by (intro keeps_bind keeps_with_error keeps_exchange assms keeps_sum keeps_fail keeps_if keeps_return
          keeps_now keeps_pause Cons)
qed (simp add: keeps_fail)

lemma control_body_frame [simp]:
  "rq_url (control_body method b (graph_request method url token)) = url"
  "rq_method (control_body method b (graph_request method url token)) = method"
  by (simp_all add: control_body_def graph_request_def plain_request_def split: option.split)

lemma keeps_control_request:
  assumes "method \<noteq> DELETE" "to_graph url \<or> graph_page (ce_web env) url"
  shows "act_keeps P (control_request env operation method url b allowed)"
  unfolding control_request_def
  by (intro keeps_bind keeps_with_error keeps_access_token keeps_noted_attempts graph_noted) (simp_all add: assms)

lemma keeps_control_json: "act_keeps P (control_json decode r operation limit)"
  unfolding control_json_def by (intro keeps_if keeps_fail keeps_option keeps_return)

lemma keeps_folder: "act_keeps P (control_folder env parent name)"
  unfolding control_folder_def Let_def
  by (intro keeps_bind keeps_check keeps_control_request keeps_control_json keeps_if keeps_return)
     (simp_all add: to_graph_def)

lemma keeps_bucket: "act_keeps P (control_bucket env bucket)"
  unfolding control_bucket_def
  by (intro keeps_bind keeps_check keeps_read_world keeps_option keeps_return keeps_control_request keeps_control_json
        keeps_folder keeps_memory) (simp_all add: to_graph_def forget_folders_def remember_folder_def)

lemma keeps_add_items: "act_keeps P (add_items out its)"
  by (induction its arbitrary: out) (simp_all add: keeps_intros keeps_check)

lemma yields_validate: "yields (\<lambda>_. graph_page (ce_web env) link) (validate_next env link path)"
  by (auto simp: validate_next_def graph_page_def yields_return yields_fail check_that_def split: option.split)

lemma keeps_validate: "act_keeps P (validate_next env link path)"
  by (auto simp: validate_next_def intro!: keeps_fail keeps_check split: option.split)

lemma keeps_pages: "act_keeps P (list_pages env path n url out)"
proof (induction n arbitrary: url out)
  case (Suc n)
  show ?case
    unfolding list_pages.simps
    by (rule keeps_bind_yields[OF keeps_validate yields_validate])
       (intro keeps_bind keeps_control_request keeps_control_json keeps_add_items keeps_option keeps_return Suc, simp_all)
qed (simp add: keeps_fail)

lemma keeps_list: "act_keeps P (control_list env bucket)"
  unfolding control_list_def Let_def by (intro keeps_bind keeps_bucket keeps_pages)

lemma keeps_get: "act_keeps P (control_get env bucket name)"
  unfolding control_get_def
  by (intro keeps_bind keeps_check keeps_bucket keeps_control_request keeps_if keeps_return keeps_fail)
     (simp_all add: to_graph_def object_url_def)

lemma keeps_put: "act_keeps P (control_put env bucket name content)"
  unfolding control_put_def
  by (intro keeps_bind keeps_check keeps_bucket keeps_list keeps_control_request keeps_return)
     (simp_all add: to_graph_def object_url_def)

end

text \<open>One that deletions keep too.\<close>

locale control_all = control_steps env P R
  for env :: "'m control_env" and P :: "'m controlled client world \<Rightarrow> bool" and R :: "request \<Rightarrow> transport_kind + response \<Rightarrow> bool" +
  assumes flag_frame: "P w \<Longrightarrow> P (w\<lparr>w_cloud := (w_cloud w)\<lparr>cl_net := (mem, snd (cl_net (w_cloud w)))\<rparr>\<rparr>)"
    and delete_noted: "to_graph (rq_url req) \<Longrightarrow> R req answer"
begin

lemma keeps_flag: "act_keeps P (memory_do f)"
  by (simp add: act_keeps_def memory_do_def flag_frame)

lemma keeps_recycle: "act_keeps P (recycle_object env drive_id it)"
  unfolding recycle_object_def control_request_def
  by (intro keeps_bind keeps_with_error keeps_access_token keeps_noted_attempts delete_noted keeps_return)
     (simp add: to_graph_def)

lemma keeps_remove: "act_keeps P (remove_object env drive_id it)"
  unfolding remove_object_def
  by (intro keeps_bind keeps_read_world keeps_if keeps_attempt keeps_sum keeps_control_request keeps_return keeps_flag
        keeps_recycle keeps_fail) (simp_all add: to_graph_def permanent_delete_url_def)

lemma keeps_delete: "act_keeps P (control_delete env bucket name)"
  unfolding control_delete_def
  by (intro keeps_bind keeps_check keeps_bucket keeps_if keeps_control_request keeps_control_json keeps_remove keeps_return)
     (simp_all add: to_graph_def object_url_def)

lemma keeps_doctor: "act_keeps P (control_doctor env random)"
  unfolding control_doctor_def Let_def
  by (intro keeps_bind keeps_put keeps_attempt keeps_get keeps_delete keeps_check keeps_sum keeps_fail keeps_return keeps_list)

end

definition control_request_ok :: "'m control_env \<Rightarrow> request \<Rightarrow> bool" where
  "control_request_ok env req = (rq_bearer req = None \<or> to_graph (rq_url req) \<or> graph_page (ce_web env) (rq_url req))"

definition extends_by :: "(request \<Rightarrow> bool) \<Rightarrow> trace \<Rightarrow> 'n client world \<Rightarrow> bool" where
  "extends_by ok l w = (\<exists>xs. log_of w = l @ xs \<and> List.list_all (\<lambda>(req, answer). ok req) xs)"

lemma control_log_steps:
  "quiet (ce_web env) \<Longrightarrow> control_all env (extends_by (control_request_ok env) l) (\<lambda>req answer. control_request_ok env req)"
  by unfold_locales
     (auto simp: quiet_def extends_by_def note_exchange_def control_request_ok_def refresh_token_request_def plain_request_def)

definition control_confined :: "'m control_env \<Rightarrow> ('m, 'a) cact \<Rightarrow> bool" where
  "control_confined env m = (\<forall>w. extends_by (control_request_ok env) (log_of w) (snd (m w)))"

lemma control_confinedI:
  fixes m :: "('m, 'a) cact"
  assumes "\<And>l. act_keeps (extends_by (control_request_ok env) l) m"
  shows "control_confined env m"
  unfolding control_confined_def
proof
  fix w :: "'m controlled client world"
  have "extends_by (control_request_ok env) (log_of w) w" by (simp add: extends_by_def)
  then show "extends_by (control_request_ok env) (log_of w) (snd (m w))" using assms unfolding act_keeps_def by blast
qed

text \<open>The control store sends the access token to Graph only: the addresses it builds are Graph's
  whatever ids the service gives, and a continuation of a listing is followed only on Graph.\<close>

lemma control_token_stays_on_graph:
  assumes "quiet (ce_web env)"
  shows "control_confined env (control_list env bucket) \<and> control_confined env (control_get env bucket name) \<and>
    control_confined env (control_put env bucket name content) \<and> control_confined env (control_delete env bucket name) \<and>
    control_confined env (control_doctor env random)"
proof -
  note steps = control_log_steps[OF assms]
  note part = control_all.axioms(1)[OF steps]
  show ?thesis
    by (intro conjI control_confinedI control_steps.keeps_list[OF part] control_steps.keeps_get[OF part]
          control_steps.keeps_put[OF part] control_all.keeps_delete[OF steps] control_all.keeps_doctor[OF steps])
qed

section \<open>Deletion\<close>

text \<open>The other threads do not delete objects: they leave the note alone.\<close>

definition note_still :: "'m controlled web \<Rightarrow> bool" where
  "note_still web =
     ((\<forall>req w. cm_no_permanent (memory_of (snd (send web req w))) = cm_no_permanent (memory_of w)) \<and>
      (\<forall>n w. cm_no_permanent (memory_of (pause web n w)) = cm_no_permanent (memory_of w)) \<and>
      (\<forall>f w. cm_no_permanent (memory_of (snd (save_file web f w))) = cm_no_permanent (memory_of w)))"

definition spared :: "trace \<Rightarrow> 'm controlled client world \<Rightarrow> bool" where
  "spared l w = (extends_by (\<lambda>req. rq_method req \<noteq> DELETE) l w \<and> \<not> cm_no_permanent (memory_of w))"

lemma spared_steps:
  "quiet (ce_web env) \<Longrightarrow> note_still (ce_web env) \<Longrightarrow> control_steps env (spared l) (\<lambda>req answer. rq_method req \<noteq> DELETE)"
  by unfold_locales
     (auto simp: quiet_def note_still_def spared_def extends_by_def note_exchange_def refresh_token_request_def
        plain_request_def memory_of_def)

text \<open>The service has said that it does not know the request.\<close>

definition unknown_to_service :: "trace \<Rightarrow> bool" where
  "unknown_to_service xs =
     list_ex (\<lambda>(req, answer). rq_method req = POST \<and> suffix ''/permanentDelete'' (rq_url req) \<and>
        (case answer of Inl _ \<Rightarrow> False | Inr r \<Rightarrow> rs_status r = 400 \<and> refusal_code r = ''apiNotFound'')) xs"

definition recycled_after :: "trace \<Rightarrow> 'm controlled client world \<Rightarrow> bool" where
  "recycled_after l w =
     (\<exists>xs. log_of w = l @ xs \<and> (list_ex (\<lambda>(req, answer). rq_method req = DELETE) xs \<longrightarrow> unknown_to_service xs))"

lemma spared_recycled: "spared l w \<Longrightarrow> recycled_after l w"
  by (auto simp: spared_def extends_by_def recycled_after_def list_all_iff list_ex_iff)

definition ends_fairly :: "trace \<Rightarrow> ('m, 'a) cact \<Rightarrow> bool" where
  "ends_fairly l m = (\<forall>w. spared l w \<longrightarrow> recycled_after l (snd (m w)))"

lemma ends_keeps: "act_keeps (spared l) m \<Longrightarrow> ends_fairly l m"
  unfolding act_keeps_def ends_fairly_def using spared_recycled by blast

lemma ends_if: "ends_fairly l m \<Longrightarrow> ends_fairly l n \<Longrightarrow> ends_fairly l (if b then m else n)"
  by simp

lemma ends_bind: "act_keeps (spared l) m \<Longrightarrow> (\<And>a. ends_fairly l (k a)) \<Longrightarrow> ends_fairly l (act_bind m k)"
  unfolding ends_fairly_def act_keeps_def act_bind_def
  by (auto split: prod.split sum.split) (metis snd_conv spared_recycled)+

lemma exchange_log:
  "quiet web \<Longrightarrow> exchange web req w = (r, w') \<Longrightarrow> \<exists>answer. r = Inr answer \<and> log_of w' = log_of w @ [(req, answer)]"
  by (auto simp: exchange_def note_exchange_def quiet_def split: prod.splits) (metis snd_conv)

lemma attempts_extend:
  assumes "quiet (ce_web env)"
  shows "\<exists>xs. log_of (snd (control_attempts env operation req allowed ks w)) = log_of w @ xs"
proof -
  have "control_steps env (extends_by (\<lambda>_. True) (log_of w)) (\<lambda>_ _. True)"
    using assms by unfold_locales (auto simp: quiet_def extends_by_def note_exchange_def)
  then have "act_keeps (extends_by (\<lambda>_. True) (log_of w)) (control_attempts env operation req allowed ks)"
    by (rule control_steps.keeps_noted_attempts) simp
  moreover have "extends_by (\<lambda>_. True) (log_of w) w" by (simp add: extends_by_def)
  ultimately show ?thesis unfolding act_keeps_def extends_by_def by blast
qed

lemma attempts_unavailable:
  assumes "quiet (ce_web env)"
  shows "control_attempts env operation req allowed ks w = (Inl e, w') \<Longrightarrow> permanent_delete_unavailable e \<Longrightarrow>
    \<exists>xs r. log_of w' = log_of w @ xs \<and> (req, Inr r) \<in> set xs \<and> rs_status r = 400 \<and> refusal_code r = ''apiNotFound''"
proof (induction ks arbitrary: w)
  case (Cons k ks)
  obtain x w1 where x: "exchange (ce_web env) req w = (x, w1)" by (cases "exchange (ce_web env) req w")
  then obtain answer where answer: "x = Inr answer" "log_of w1 = log_of w @ [(req, answer)]"
    using exchange_log[OF assms] by blast
  note run = Cons.prems(1)[unfolded control_attempts.simps]
  show ?case
  proof (cases answer)
    case (Inl kind)
    then have "e = CloudFault (diagnostic operation None (transport_code kind))"
      using run x answer by (simp add: act_bind_def with_error_def act_fail_def)
    then show ?thesis using Cons.prems(2) by (simp add: permanent_delete_unavailable_def diagnostic_def)
  next
    case (Inr r)
    have bad: "\<not> (is_success r \<or> rs_status r \<in> set allowed)"
      using run x answer Inr by (auto simp: act_bind_def with_error_def act_return_def)
    show ?thesis
    proof (cases "k < 3 \<and> (rs_status r = 429 \<or> 500 \<le> rs_status r)")
      case True
      let ?w2 = "pause (ce_web env) (retry_after_delay (ce_web env) (w_now w1) r k) w1"
      have "control_attempts env operation req allowed ks ?w2 = (Inl e, w')"
        using run x answer Inr bad True by (simp add: act_bind_def with_error_def at_now_def sleep_def)
      from Cons.IH[OF this Cons.prems(2)] obtain xs r' where
        "log_of w' = log_of ?w2 @ xs" "(req, Inr r') \<in> set xs" "rs_status r' = 400" "refusal_code r' = ''apiNotFound''" by blast
      moreover have "log_of ?w2 = log_of w @ [(req, answer)]" using assms answer(2) by (simp add: quiet_def)
      ultimately show ?thesis by (intro exI[of _ "(req, answer) # xs"]) auto
    next
      case False
      then have "e = CloudFault (diagnostic operation (Some (rs_status r)) (refusal_code r)) \<and> w' = w1"
        using run x answer Inr bad by (auto simp: act_bind_def with_error_def at_now_def act_fail_def)
      then show ?thesis
        using Cons.prems(2) answer(2) Inr by (auto simp: permanent_delete_unavailable_def diagnostic_def)
    qed
  qed
qed (auto simp: act_fail_def permanent_delete_unavailable_def)

lemma request_unavailable:
  assumes "quiet (ce_web env)"
    and "control_request env ''delete.permanent'' POST (permanent_delete_url drive_id it) None allowed w = (Inl e, w')"
    and "permanent_delete_unavailable e"
  shows "\<exists>xs. log_of w' = log_of w @ xs \<and> unknown_to_service xs"
proof -
  obtain t w1 where t: "access_token (ce_web env) w = (t, w1)" by (cases "access_token (ce_web env) w")
  obtain token where token: "t = Inr token"
    using assms(2,3) t by (cases t) (auto simp: control_request_def act_bind_def with_error_def permanent_delete_unavailable_def diagnostic_def)
  let ?req = "control_body POST None (graph_request POST (permanent_delete_url drive_id it) token)"
  have "control_attempts env ''delete.permanent'' ?req allowed [1, 2, 3] w1 = (Inl e, w')"
    using assms(2) t token by (simp add: control_request_def act_bind_def with_error_def)
  from attempts_unavailable[OF assms(1) this assms(3)] obtain xs r where
    xs: "log_of w' = log_of w1 @ xs" "(?req, Inr r) \<in> set xs" "rs_status r = 400" "refusal_code r = ''apiNotFound''" by blast
  have "web_steps (ce_web env) (extends_by (\<lambda>_. True) (log_of w)) (\<lambda>_ _. True)"
    using assms(1) by unfold_locales (auto simp: quiet_def extends_by_def note_exchange_def)
  then have "act_keeps (extends_by (\<lambda>_. True) (log_of w)) (access_token (ce_web env))" by (rule web_steps.keeps_access_token)
  moreover have "extends_by (\<lambda>_. True) (log_of w) w" by (simp add: extends_by_def)
  ultimately obtain ys where "log_of w1 = log_of w @ ys" using t unfolding act_keeps_def extends_by_def by (metis snd_conv)
  moreover have "unknown_to_service (ys @ xs)"
    unfolding unknown_to_service_def list_ex_iff
    by (intro bexI[of _ "(?req, Inr r)"])
       (use xs in \<open>auto simp: control_body_def graph_request_def plain_request_def permanent_delete_url_def suffix_def\<close>)
  ultimately show ?thesis using xs(1) by (intro exI[of _ "ys @ xs"]) simp
qed

lemma ends_remove:
  assumes "quiet (ce_web env)" "note_still (ce_web env)"
  shows "ends_fairly l (remove_object env drive_id it)"
  unfolding ends_fairly_def
proof (intro allI impI)
  fix w :: "'a controlled client world"
  assume spared: "spared l w"
  let ?ask = "control_request env ''delete.permanent'' POST (permanent_delete_url drive_id it) None [404]"
  obtain r w1 where ask: "?ask w = (r, w1)" by (cases "?ask w")
  have "act_keeps (spared l) ?ask"
    by (rule control_steps.keeps_control_request[OF spared_steps[OF assms]]) (simp_all add: to_graph_def permanent_delete_url_def)
  then have w1: "spared l w1" using spared ask unfolding act_keeps_def by (metis snd_conv)
  have start: "remove_object env drive_id it w =
      (case r of Inr _ \<Rightarrow> (Inr (), w1)
       | Inl err \<Rightarrow> if permanent_delete_unavailable err
           then recycle_object env drive_id it (snd (memory_do (\<lambda>mem. mem\<lparr>cm_no_permanent := True\<rparr>) w1)) else (Inl err, w1))"
    using spared ask
    by (auto simp: remove_object_def act_bind_def read_world_def attempt_def spared_def act_return_def act_fail_def
          memory_do_def split: sum.split)
  show "recycled_after l (snd (remove_object env drive_id it w))"
  proof (cases "\<exists>err. r = Inl err \<and> permanent_delete_unavailable err")
    case False
    then have "snd (remove_object env drive_id it w) = w1" using start by (auto split: sum.split)
    then show ?thesis using spared_recycled[OF w1] by simp
  next
    case True
    then obtain err where err: "r = Inl err" "permanent_delete_unavailable err" by blast
    obtain ls where ls: "log_of w = l @ ls" using spared by (auto simp: spared_def extends_by_def)
    obtain xs where xs: "log_of w1 = log_of w @ xs" "unknown_to_service xs"
      using request_unavailable[OF assms(1)] ask err by blast
    define w2 where "w2 = snd (memory_do (\<lambda>mem. mem\<lparr>cm_no_permanent := True\<rparr>) w1)"
    have w2: "log_of w2 = log_of w1" by (simp add: w2_def memory_do_def)
    have "control_all env (extends_by (\<lambda>_. True) (log_of w2)) (\<lambda>_ _. True)"
      using assms(1) by unfold_locales (auto simp: quiet_def extends_by_def note_exchange_def)
    from control_all.keeps_recycle[OF this]
    have "extends_by (\<lambda>_. True) (log_of w2) w2 \<longrightarrow> extends_by (\<lambda>_. True) (log_of w2) (snd (recycle_object env drive_id it w2))"
      by (simp add: act_keeps_def)
    then obtain ys where "log_of (snd (recycle_object env drive_id it w2)) = log_of w2 @ ys"
      by (auto simp: extends_by_def)
    then have "log_of (snd (remove_object env drive_id it w)) = l @ (ls @ xs @ ys)"
      using start err w2 xs(1) ls by (simp add: w2_def)
    moreover have "unknown_to_service (ls @ xs @ ys)" using xs(2) by (auto simp: unknown_to_service_def)
    ultimately show ?thesis unfolding recycled_after_def by blast
  qed
qed

text \<open>C30: A control object goes to the recycle bin, where it could be restored, only if the service does not
  know permanent deletion: either the client has noted that before, or in this call the service
  has answered the request for it with 400 and the error of an unknown request.\<close>

theorem recycled_only_if_unavailable:
  assumes "quiet (ce_web env)" "note_still (ce_web env)" "\<not> cm_no_permanent (memory_of w)"
  shows "recycled_after (log_of w) (snd (control_delete env bucket name w))"
proof -
  note steps = spared_steps[OF assms(1,2), of "log_of w"]
  have "ends_fairly (log_of w) (control_delete env bucket name)"
    unfolding control_delete_def
    by (intro ends_bind ends_if ends_keeps[OF keeps_return] ends_remove assms(1,2) control_steps.keeps_check[OF steps]
          control_steps.keeps_bucket[OF steps] control_steps.keeps_control_request[OF steps]
          control_steps.keeps_control_json[OF steps])
       (simp_all add: to_graph_def object_url_def)
  moreover have "spared (log_of w) w" using assms(3) by (simp add: spared_def extends_by_def)
  ultimately show ?thesis unfolding ends_fairly_def by blast
qed

section \<open>A sample store\<close>

text \<open>A service with a script; the folder of the bucket is known, and addresses parse as its listing.\<close>

definition control_web :: "control_memory script web" where
  "control_web = scripted_web\<lparr>parse_url := (\<lambda>_. Some
     \<lparr>url_scheme = ''https'', url_host = Some ''graph.microsoft.com'', url_port = Some 443, url_username = [],
      url_password = None, url_fragment = None, url_path = ''/v1.0/me/drive/items/f/children''\<rparr>)\<rparr>"

definition sample_env :: "(transport_kind + response) list control_env" where
  "sample_env =
     \<lparr>ce_web = control_web, ce_decode = Some, ce_content = (\<lambda>r. replicate (sum_list (rs_chunks r)) (CHR 0x00))\<rparr>"

definition control_world :: "(transport_kind + response) list \<Rightarrow> control_memory script client world" where
  "control_world answers =
     scripted_world Map.empty (\<lparr>cm_folders = [(''devices'', 0, ''f'')], cm_no_permanent = False\<rparr>, answers)"

lemma quiet_control: "quiet (ce_web sample_env)"
  using quiet_scripted by (simp add: quiet_def sample_env_def control_web_def)

lemma still_control: "note_still (ce_web sample_env)"
  by (auto simp: note_still_def sample_env_def control_web_def scripted_web_def scripted_send_def memory_of_def
      split: list.split prod.split)

interpretation sample_control: control_all sample_env "extends_by (control_request_ok sample_env) []"
    "\<lambda>req answer. control_request_ok sample_env req"
  by (rule control_log_steps) (rule quiet_control)

definition sample_page :: response where
  "sample_page = plain_response 200 (Some (JObject [(''value'', JArray [JObject
     [(''id'', JString ''i''), (''name'', JString ''a.json''), (''size'', JNumber (PosInt 5))]])]))"

lemma sample_env_content: "length (ce_content sample_env r) = sum_list (rs_chunks r)"
  by (simp add: sample_env_def)

lemma sample_names: "validate_component ''devices'' = Inr ()" "validate_component ''a.json'' = Inr ()"
  by code_simp+

text \<open>The world after some exchanges.\<close>

definition control_after :: "trace \<Rightarrow> bool \<Rightarrow> (transport_kind + response) list \<Rightarrow> control_memory script client world" where
  "control_after l noted answers =
     (control_world answers)\<lparr>w_cloud := (w_cloud (control_world answers))\<lparr>cl_log := l,
        cl_net := (\<lparr>cm_folders = [(''devices'', 0, ''f'')], cm_no_permanent = noted\<rparr>, answers)\<rparr>\<rparr>"

lemmas control_after_simps = control_after_def control_world_def scripted_world_def scripted_client_def

lemma control_after_start: "control_world answers = control_after [] False answers"
  by (simp add: control_after_simps)

lemma sample_bucket:
  "control_bucket sample_env ''devices'' (control_after l noted answers) = (Inr ''f'', control_after l noted answers)"
  by (simp add: control_bucket_def act_bind_def check_component_def sample_names act_return_def read_world_def cached_folder_def
      control_after_simps memory_of_def fresh_def)

definition sample_asked :: "http_method \<Rightarrow> string \<Rightarrow> body option \<Rightarrow> request" where
  "sample_asked method url b = control_body method b (graph_request method url ''token'')"

lemma sample_request:
  assumes "is_success r \<or> rs_status r \<in> set allowed \<or> \<not> (rs_status r = 429 \<or> 500 \<le> rs_status r)"
  shows "control_request sample_env operation method url b allowed (control_after l noted (Inr r # answers)) =
    (if is_success r \<or> rs_status r \<in> set allowed then Inr r
     else Inl (CloudFault (diagnostic operation (Some (rs_status r)) (refusal_code r))),
     control_after (l @ [(sample_asked method url b, Inr r)]) noted answers)"
  using assms
  by (auto simp: control_request_def act_bind_def with_error_def access_token_def client_def read_world_def at_now_def
      act_return_def act_fail_def exchange_def sample_env_def control_web_def scripted_web_def scripted_send_def
      note_exchange_def control_after_simps sample_asked_def)

lemmas json_simps = page_of_json_def item_of_json_def drive_of_json_def struct_members_def string_member_def optional_member_def

lemma sample_page_read:
  "within n sample_page" "is_success sample_page"
  "Option.bind (rs_json sample_page) page_of_json =
     Some \<lparr>cp_value = [\<lparr>it_id = ''i'', it_name = ''a.json'', it_size = 5, it_folder = None\<rparr>], cp_next = None\<rparr>"
  by (simp_all add: within_def body_within_def is_success_def sample_page_def plain_response_def json_simps)

lemma sample_next: "validate_next sample_env url ''/v1.0/me/drive/items/f/children'' = act_return ()"
  by (simp add: validate_next_def sample_env_def control_web_def decoded_segments_def check_that_def read_all_Some
      split: option.split)

lemma sample_segment: "percent_encode_path_segment ''f'' = ''f''"
  by code_simp

lemma sample_listing:
  "fst (cs_list (graph_store sample_env) ''devices'' (control_world [Inr sample_page])) = Inr [\<lparr>co_name = ''a.json'', co_size = 5\<rparr>]"
proof -
  have pages: "list_pages sample_env ''/v1.0/me/drive/items/f/children'' (Suc n) url [] (control_after [] False [Inr sample_page]) =
      (Inr [\<lparr>co_name = ''a.json'', co_size = 5\<rparr>], control_after [(sample_asked GET url None, Inr sample_page)] False [])" for url n
    by (simp add: sample_next act_bind_def act_return_def sample_request sample_page_read control_json_def check_that_def
        MAX_CONTROL_OBJECTS_def sample_names)
  have "list_pages sample_env ''/v1.0/me/drive/items/f/children'' 8 url [] (control_after [] False [Inr sample_page]) =
      (Inr [\<lparr>co_name = ''a.json'', co_size = 5\<rparr>], control_after [(sample_asked GET url None, Inr sample_page)] False [])" for url
    using pages[where n = 7] by simp
  then show ?thesis
    by (simp add: graph_store_def control_list_def Let_def control_after_start act_bind_def sample_bucket sample_segment store_result_def)
qed

lemma control_answers_are_bounded_witness:
  "\<exists>objs. fst (cs_list (graph_store sample_env) ''devices'' (control_world [Inr sample_page])) = Inr objs \<and> objs \<noteq> [] \<and>
     List.list_all (\<lambda>o'. validate_component (co_name o') = Inr ()) objs"
  using control_answers_are_bounded[OF sample_env_content, of "''devices''" "control_world [Inr sample_page]" "''a.json''"]
  by (simp add: sample_listing)

lemma sample_timeout:
  "control_request sample_env operation method url b allowed (control_after l noted []) =
    (Inl (CloudFault (diagnostic operation None ''timeout'')),
     control_after (l @ [(sample_asked method url b, Inl Timeout)]) noted [])"
  by (simp add: control_request_def act_bind_def with_error_def access_token_def client_def read_world_def at_now_def
      act_return_def act_fail_def exchange_def sample_env_def control_web_def scripted_web_def scripted_send_def
      note_exchange_def control_after_simps sample_asked_def)

lemma control_errors_reveal_nothing_witness:
  "reveals_nothing ''control operation=get.content status=none code=timeout hint=inspect-operation''"
proof -
  have "fst (cs_get (graph_store sample_env) ''devices'' ''a.json'' (control_world [])) =
      Inl ''control operation=get.content status=none code=timeout hint=inspect-operation''"
    by (simp add: graph_store_def control_get_def control_after_start act_bind_def check_component_def sample_names
        act_return_def sample_bucket sample_timeout store_result_def safe_diagnostic_def show_diagnostic_def
        diagnostic_def diagnostic_hint_def)
  then show ?thesis using control_errors_reveal_nothing by blast
qed

lemma control_token_stays_on_graph_witness:
  "control_confined sample_env (control_list sample_env ''devices'')"
  using control_token_stays_on_graph[OF quiet_control] by blast

text \<open>A deletion the service does not know how to make permanent.\<close>

definition refusal_400 :: response where
  "refusal_400 = plain_response 400 (Some (JObject [(''error'', JObject
     [(''code'', JString ''invalidRequest''), (''message'', JString ''API not found'')])]))"

definition item_200 :: response where
  "item_200 = plain_response 200 (Some (JObject [(''id'', JString ''i''), (''name'', JString ''a.json'')]))"

definition drive_200 :: response where
  "drive_200 = plain_response 200 (Some (JObject [(''id'', JString ''d'')]))"

definition deletion_answers :: "(transport_kind + response) list" where
  "deletion_answers = [Inr item_200, Inr drive_200, Inr refusal_400, Inr (plain_response 204 None)]"

lemma deletion_read:
  "within n item_200" "within n drive_200"
  "Option.bind (rs_json item_200) item_of_json = Some \<lparr>it_id = ''i'', it_name = ''a.json'', it_size = 0, it_folder = None\<rparr>"
  "Option.bind (rs_json drive_200) drive_of_json = Some ''d''" "refusal_code refusal_400 = ''apiNotFound''"
  by (simp_all add: within_def body_within_def item_200_def drive_200_def refusal_400_def plain_response_def json_simps
      refusal_code_def safe_graph_code_def)

lemma deletion_status:
  "is_success item_200" "rs_status item_200 = 200" "is_success drive_200" "\<not> is_success refusal_400" "rs_status refusal_400 = 400"
  "is_success (plain_response 204 None)"
  by (simp_all add: is_success_def item_200_def drive_200_def refusal_400_def plain_response_def)

lemma control_after_memory:
  "memory_of (control_after l noted answers) = \<lparr>cm_folders = [(''devices'', 0, ''f'')], cm_no_permanent = noted\<rparr>"
  "memory_do (\<lambda>mem. mem\<lparr>cm_no_permanent := b\<rparr>) (control_after l noted answers) = (Inr (), control_after l b answers)"
  "log_of (control_after l noted answers) = l"
  by (simp_all add: memory_of_def memory_do_def control_after_simps)

lemma sample_deletion:
  "\<exists>a b c d. log_of (snd (control_delete sample_env ''devices'' ''a.json'' (control_world deletion_answers))) =
     [a, b, c, (sample_asked DELETE d None, Inr (plain_response 204 None))]"
proof -
  have "log_of (snd (remove_object sample_env drive_id i (control_after [a, b] False [Inr refusal_400, Inr (plain_response 204 None)]))) =
      [a, b, (sample_asked POST (permanent_delete_url drive_id i) None, Inr refusal_400),
       (sample_asked DELETE (graph_root @ ''/drives/'' @ percent_encode_path_segment drive_id @ ''/items/'' @
          percent_encode_path_segment i) None, Inr (plain_response 204 None))]" for drive_id i a b
    by (simp add: remove_object_def recycle_object_def act_bind_def read_world_def attempt_def control_after_memory
        sample_request deletion_status deletion_read permanent_delete_unavailable_def diagnostic_def act_return_def)
  then show ?thesis
    by (simp add: control_delete_def control_after_start act_bind_def check_component_def sample_names act_return_def
        sample_bucket deletion_answers_def sample_request deletion_status control_json_def deletion_read) blast
qed

lemma recycled_only_if_unavailable_witness:
  "unknown_to_service (log_of (snd (control_delete sample_env ''devices'' ''a.json'' (control_world deletion_answers))))"
proof -
  let ?w = "control_world deletion_answers"
  have start: "log_of ?w = []" "\<not> cm_no_permanent (memory_of ?w)"
    by (simp_all add: control_after_start control_after_memory)
  have "recycled_after [] (snd (control_delete sample_env ''devices'' ''a.json'' ?w))"
    using recycled_only_if_unavailable[OF quiet_control still_control start(2)] start(1) by metis
  moreover obtain a b c d where "log_of (snd (control_delete sample_env ''devices'' ''a.json'' ?w)) =
      [a, b, c, (sample_asked DELETE d None, Inr (plain_response 204 None))]"
    using sample_deletion by blast
  moreover have "rq_method (sample_asked DELETE d None) = DELETE" for d
    by (simp add: sample_asked_def control_body_def graph_request_def plain_request_def)
  ultimately show ?thesis by (auto simp: recycled_after_def)
qed

end
