(* ===== verification/Spec2Isabelle.thy ===== *)
theory Spec2Isabelle
  imports Mounts KnownWatch GraphPartial PeerWorker GraphControl
begin

text \<open>
  TwoDrive shows a OneDrive as a local file system whose files are on this machine only while they
  are used.  This library models the part of it that can lose or duplicate a user's data: the
  database that remembers what is local, the cache of bytes, the replay of local work to the
  cloud, and the FUSE handlers through which a user edits.

  The program and the theories.  A file of crates/twodrive-core/src is written core/.., one of
  crates/twodrive-fs/src fs/...

    \<^item> Prelude: machine integers, saturating arithmetic, string scanning, and SQL statements over
      lists of rows.
    \<^item> Paths (core/paths.rs): cloud paths.  A path of clean components is a list of names; the
      string functions refine operations on that list.
    \<^item> Domain (core/domain.rs, core/time.rs): states, metadata entries, file records, tombstones,
      jobs, durations.
    \<^item> Store (core/database/{mod,schema,queries}.rs): the tables as lists of records, their
      constraints (wf_db), transactions, queries.  The locales keyed_table and row_claim are the
      interfaces of a table with a key and of a guarded UPDATE that claims one row.
    \<^item> Pins, Cache, Metadata, Mutations, DeleteRetry (core/database/*.rs): one theory per module.
      Cache also has the disk: a map from paths to nodes with a length and an access mode.
    \<^item> CloudIndex (core/database/cloud.rs): the staged read-only index.
    \<^item> World (crates/twodrive-backend/src/storage.rs): database, disk, clock and cloud, and the
      trait CloudBackend as a record of functions; the actions the synchronisation code is made of.
    \<^item> Conflicts (fs/conflicts.rs), Hydration (fs/hydration.rs, fs/cache_io.rs, fs/metadata.rs),
      UploadQueue (fs/upload_queue.rs), Recovery (fs/recovery.rs): names of conflict copies,
      downloads and imports, the coalescing queue with its workers as a step relation, and the
      replay of uploads, deletions and jobs.
    \<^item> Inodes (fs/inodes.rs): the table between numbers and paths.
    \<^item> Session, HandleWrites, Namespace, Fuse (fs/filesystem/{mod,reads,writes,mutations,fuse}.rs,
      fs/probes.rs): the mounted file system with its handles, every handler, and the job of a
      deferred read; Mounts has the transition system of the handlers.
    \<^item> LocalPaths: std::path and the local file system as the daemon sees it.  Config
      (core/config/*.rs): the configuration file, its checks, and the paths of the program.
    \<^item> Rate, KnownFolders, KnownState, KnownUploads, KnownWatch (core/known_folders.rs and
      crates/twodrive-daemon/src/known_folders/{rate,scan,state,store,uploads,events,mod}.rs): rate
      limits, the scan of a folder, the state and its database, the batches of uploads with the
      crash points between their steps, and the daemon that watches, coalesces and retries.
    \<^item> Json, Diagnostics (crates/twodrive-backend/src/diagnostics.rs), GraphPaths, GraphHttp, GraphUpload,
      GraphBackend (crates/twodrive-backend/src/onedrive/{paths,http,auth,model,upload,mod}.rs and
      core/credentials.rs): the OneDrive provider.  JSON values and what serde accepts; refusals;
      addresses; requests, retries, tokens; drive items and upload sessions; the operations, and the
      backend record they make.  GraphTrace is a logic of what an action sends, GraphContract the
      promises of the provider.
    \<^item> GraphIndex, GraphPartial (onedrive/browse.rs, onedrive/readonly.rs): bounded queries of
      directories, the staging of a delta into the index of CloudIndex, and the resumable download
      of a version.  GraphPartial states by triples what a finished download ensures.
    \<^item> PeerIdentity, PeerUpdate, PeerProtocol, PeerRuntime (crates/twodrive-peer/src/{identity,crypto},
      update, protocol and {runtime,local}.rs): the devices of one user talk to each other through a
      folder of the cloud.  Keys, presences and sealed envelopes; signed releases and the supervisor
      that runs them; the engine with its peers, challenges and replay window; the worker.  The
      record peer_lib holds the primitives and codecs of other crates, and PeerSample is one that
      has all their laws.  PeerHandshake has the protocol's promises, PeerWorker a logic of what a
      poll keeps and the worker's promises.
    \<^item> GraphControl (onedrive/control.rs, crates/twodrive-backend/src/control.rs): the store of control
      objects on OneDrive, which is a store the worker can run on.

  How the parts meet.  A handler changes the database in one transaction, then the inode table and
  the handles, then tells the upload queue; a worker takes the request and runs Recovery, which
  reads the database again after every call of the cloud, because other threads commit meanwhile.
  A backend operation therefore takes and returns the whole world.  The hypothesis backend_keeps P
  says that the other threads keep P during a call; every operation that could be such a thread is
  proved to keep the properties P it is used with (the locales sync_store, work_store and
  session_store collect those laws, and their interpretations discharge them for the database
  invariant and for the promise that local work survives).

  The OneDrive provider is such a backend: its state is the world's cloud component, beside the
  service itself, and the record web holds what is not in the code: the exchange of a request for a
  response, the passing of time, the outcome of writes, the parsers of dates and addresses.  A log
  of the exchanges, which no code reads, is what the theorems about requests speak of.

  What the lemmas show.
    \<^item> Local work survives: imports, deltas, downloads, releases and reclamation keep every row with
      unsent edits and its bytes; open files keep their bytes; a download is published only for the
      generation and length it was started for.
    \<^item> Edits reach the cloud: closing a file makes the edit durable and requests its upload, no
      request is lost in the queue, a restart requests all remaining work, an undisturbed upload is
      acknowledged, and an acknowledgement is bound to the generation that was sent.
    \<^item> Deletions: a tombstone is a barrier against imports and uploads, keeps the bytes it needs,
      survives failures with a growing delay, and does not delete an object a live row owns.
    \<^item> Names: renames carry subtrees, jobs and handles along; inode numbers are stable; listings are
      complete.
    \<^item> Every operation keeps the constraints of the tables, in every reachable state of a mount.
    \<^item> Known folders: a scan ends and queues exactly the files that changed; a queued upload survives
      a crash at any point and a restart; the watch loses no addition; a file that changed while it
      was sent is not confirmed; configured folders lie outside the mount.
    \<^item> Requests: a request is repeated only after a transient failure; an upload session sends the
      fragments the service expects and ends; the access token goes to Graph only; an address names
      exactly the path it was built from; a refusal keeps no text of the service; and the provider
      keeps what the synchronisation relies on.
    \<^item> The read-only index: a staging run publishes nothing and its commit applies exactly its pages;
      continuation links do not lead the token away from Graph; a finished download has the size and
      the version of the index.
    \<^item> The peer: two devices that know each other complete the handshake; in every run of an engine an
      accepted message is signed by a trusted device for this device and session, a request is
      answered only after the handshake, and no envelope is accepted twice; a poll follows that
      protocol whatever the store does, deletes nothing unread and loses no queued message; nothing
      is run that the publisher did not sign, and the activated versions only grow.
    \<^item> The control store: its answers are bounded, its errors are fixed texts, its token goes to Graph
      only, and an object is recycled only where it cannot be deleted for good.

  Bounds and fuel.  i64 columns are int, with saturation where the code saturates; u64, u32 and u16
  are words.  The walk to the root in Pins terminates by the length of the normalised path, the
  pruning of the index by the number of rows.  read_rounds in Fuse counts the rounds a reader
  makes; one round per entry suffices.  The walk of a folder counts levels of nesting; a tree
  that fits the bound is walked in full.  The pages of a delta and the ranges of a download are as
  many as the service likes; their loops take a bound and fail beyond it.  Characters are U+0000 .. U+00FF.

  Not modelled.  The contents of files (only lengths), SQLite's own failures, statfs, the progress
  file, the reading of /proc, threads and mutexes inside a step, the timers and the start of the
  daemon's threads, the login in a browser, the primitives of cryptography (their laws are
  hypotheses, and a concrete record of them satisfies all), the command lines, the Windows front end
  and the experiments.
\<close>

end
